(* ===== verification/Py_Prelude.thy ===== *)
theory Py_Prelude
  imports Main "HOL-Library.Word" "HOL-Library.Sublist" "HOL-Library.AList"
begin

text \<open>
  The vocabulary every component shares: Python exceptions as values, the result type and its
  sequencing, JSON values as the wire carries them, dictionaries as insertion-ordered association
  lists, and the operations of Python's \<open>str\<close> that the source uses.

  A \<open>str\<close> is a \<^typ>\<open>string\<close>, one \<^typ>\<open>char\<close> per code point, so strings range over the code points
  below 256; on those, every operation here computes what CPython computes (white space, lower
  case, \<open>repr\<close> and \<open>int\<close> included). The canonicalizer, which depends on larger code points, has its own
  string type (theory \<open>Jcs\<close>).
\<close>

named_theorems res_simps \<open>sequencing and catching of results\<close>

named_theorems str_simps \<open>evaluation of the operations on strings\<close>

section \<open>Exceptions\<close>

text \<open>
  Exception classes, grouped by where they are declared. \<open>KeySignatureError\<close> is
  \<open>shadownet.crypto.ed25519.SignatureError\<close>, distinct from the wire error of the same name, and
  \<open>NonceReplayError\<close> is \<open>shadownet_x402.errors.ReplayError\<close>. \<open>PaySettlementError\<close> is the \<open>SettlementError\<close> of the
  Hermes plug-in's \<open>_avm.py\<close>, a \<open>RuntimeError\<close>. The classes between \<open>decimal.InvalidOperation\<close> and \<open>ArithmeticError\<close> and
  between \<open>subprocess.CalledProcessError\<close> and \<open>Exception\<close>, which the source never names, are left out.
\<close>

datatype builtin_error =
    PyException | ValueError | UnicodeEncodeError | UnicodeDecodeError | BinasciiError
  | JSONDecodeError | KeyError | IndexError | TypeError | AttributeError
  | OSError | EOFError | ZlibError | ArithmeticError | OverflowError | RuntimeError
  | NotImplementedError | AssertionError | FileNotFoundError | ImportError | InvalidOperation
  | CalledProcessError

datatype lib_error =
    ValidationError | HTTPError | NXDOMAIN | NoAnswer | DNSException | InvalidSignature
  | PyJWTError

datatype sdk_error =
    ShadownetError | MultibaseDecodeError | KeySignatureError | JWTError | JcsError
  | InvalidIdentifierError | ProviderResolutionError | CredentialError | StatusListError
  | EnvelopeError | CsrError | CeremonyPendingError | CeremonyFailedError | CsrRateLimitedError
  | AgentCardError | AgentCardSignatureError | TLSPinMismatchError
  | TransportError | TransportRetryExhausted | ShadowAddressError | ConnectURIError | ToolError
  | HandoffError | HandoffUnknownError | HandoffExpiredError | HandoffRateLimitedError
  | RefreshError | RefreshInvalidError | RefreshRateLimitedError

datatype wire_error =
    ShadownetWireError | ParseError | SignatureError | CredsRequiredError | CredsRejectedError
  | PolicyError | ReplayError | UnknownRecipientError | RateLimitedError

datatype x402_error =
    ShadownetX402Error | GateError | PoPError | NonceReplayError | BudgetError
  | AmountMismatchError | SettlementError

datatype conformance_error =
    ConformanceError | ConfigError | FixtureMissing | ManifestError

datatype excls =
    Builtin builtin_error
  | Lib lib_error
  | Sdk sdk_error
  | Wire wire_error
  | X402 x402_error
  | Conf conformance_error
  | PaySettlementError

text \<open>The direct base class of each class (\<open>None\<close> for \<open>Exception\<close> itself).\<close>

fun base_of :: "excls \<Rightarrow> excls option" where
  "base_of (Builtin PyException) = None"
| "base_of (Builtin UnicodeEncodeError) = Some (Builtin ValueError)"
| "base_of (Builtin UnicodeDecodeError) = Some (Builtin ValueError)"
| "base_of (Builtin BinasciiError) = Some (Builtin ValueError)"
| "base_of (Builtin JSONDecodeError) = Some (Builtin ValueError)"
| "base_of (Builtin OverflowError) = Some (Builtin ArithmeticError)"
| "base_of (Builtin NotImplementedError) = Some (Builtin RuntimeError)"
| "base_of (Builtin FileNotFoundError) = Some (Builtin OSError)"
| "base_of (Builtin InvalidOperation) = Some (Builtin ArithmeticError)"
| "base_of (Builtin _) = Some (Builtin PyException)"
| "base_of (Lib ValidationError) = Some (Builtin ValueError)"
| "base_of (Lib NXDOMAIN) = Some (Lib DNSException)"
| "base_of (Lib NoAnswer) = Some (Lib DNSException)"
| "base_of (Lib _) = Some (Builtin PyException)"
| "base_of (Sdk ShadownetError) = Some (Builtin PyException)"
| "base_of (Sdk JWTError) = Some (Sdk KeySignatureError)"
| "base_of (Sdk JcsError) = Some (Builtin ValueError)"
| "base_of (Sdk AgentCardSignatureError) = Some (Sdk AgentCardError)"
| "base_of (Sdk CeremonyPendingError) = Some (Sdk CsrError)"
| "base_of (Sdk CeremonyFailedError) = Some (Sdk CsrError)"
| "base_of (Sdk CsrRateLimitedError) = Some (Sdk CsrError)"
| "base_of (Sdk HandoffUnknownError) = Some (Sdk HandoffError)"
| "base_of (Sdk HandoffExpiredError) = Some (Sdk HandoffError)"
| "base_of (Sdk HandoffRateLimitedError) = Some (Sdk HandoffError)"
| "base_of (Sdk RefreshInvalidError) = Some (Sdk RefreshError)"
| "base_of (Sdk RefreshRateLimitedError) = Some (Sdk RefreshError)"
| "base_of (Sdk _) = Some (Sdk ShadownetError)"
| "base_of (Wire ShadownetWireError) = Some (Sdk ShadownetError)"
| "base_of (Wire _) = Some (Wire ShadownetWireError)"
| "base_of (X402 ShadownetX402Error) = Some (Sdk ShadownetError)"
| "base_of (X402 PoPError) = Some (X402 GateError)"
| "base_of (X402 _) = Some (X402 ShadownetX402Error)"
| "base_of (Conf ConformanceError) = Some (Builtin PyException)"
| "base_of (Conf _) = Some (Conf ConformanceError)"
| "base_of PaySettlementError = Some (Builtin RuntimeError)"

text \<open>
  \<open>issubclass c d\<close>: Python's \<open>issubclass(c, d)\<close>. The deepest chain of the hierarchy, from \<open>PoPError\<close>, has five classes, so four
  steps along \<^const>\<open>base_of\<close> reach \<open>Exception\<close> from everywhere.
\<close>

primrec subclass_within :: "nat \<Rightarrow> excls \<Rightarrow> excls \<Rightarrow> bool" where
  "subclass_within 0 c d = (c = d)"
| "subclass_within (Suc n) c d =
     (c = d \<or> (case base_of c of None \<Rightarrow> False | Some b \<Rightarrow> subclass_within n b d))"

definition issubclass :: "excls \<Rightarrow> excls \<Rightarrow> bool" where
  "issubclass c d = subclass_within 4 c d"

datatype exn = Exn (cls: excls) (str_of: string)

definition is_a :: "exn \<Rightarrow> excls \<Rightarrow> bool" where
  "is_a e c = issubclass (cls e) c"

lemma issubclass_refl [simp]: "issubclass c c"
  by (simp add: issubclass_def numeral_eq_Suc)

lemma is_a_same [simp]: "is_a (Exn c m) c"
  by (simp add: is_a_def)

lemmas is_a_eval = is_a_def issubclass_def numeral_eq_Suc

lemma every_exception_is_Exception [simp]: "is_a e (Builtin PyException)"
proof -
  have "subclass_within 4 c (Builtin PyException)" for c
  proof (cases c)
    case (Builtin b)
    then show ?thesis by (cases b) (simp_all add: numeral_eq_Suc)
  next
    case (Lib l)
    then show ?thesis by (cases l) (simp_all add: numeral_eq_Suc)
  next
    case (Sdk s)
    then show ?thesis by (cases s) (simp_all add: numeral_eq_Suc)
  next
    case (Wire w)
    then show ?thesis by (cases w) (simp_all add: numeral_eq_Suc)
  next
    case (X402 x)
    then show ?thesis by (cases x) (simp_all add: numeral_eq_Suc)
  next
    case (Conf c)
    then show ?thesis by (cases c) (simp_all add: numeral_eq_Suc)
  next
    case PaySettlementError
    then show ?thesis by (simp add: numeral_eq_Suc)
  qed
  then show ?thesis by (simp add: is_a_def issubclass_def)
qed

section \<open>Results\<close>

type_synonym 'a res = "exn + 'a"

definition raise :: "excls \<Rightarrow> string \<Rightarrow> 'a res" where
  "raise c m = Inl (Exn c m)"

text \<open>Sequencing: the rest of a body runs only when the call before it returned.\<close>

primrec bind :: "'a res \<Rightarrow> ('a \<Rightarrow> 'b res) \<Rightarrow> 'b res" where
  "bind (Inl e) f = Inl e"
| "bind (Inr x) f = f x"

text \<open>\<open>try: r except c as exc: h(exc)\<close>, where the handler may raise another exception.\<close>

definition try_except :: "'a res \<Rightarrow> excls \<Rightarrow> (exn \<Rightarrow> 'a res) \<Rightarrow> 'a res" where
  "try_except r c h = (case r of Inr x \<Rightarrow> Inr x | Inl e \<Rightarrow> (if is_a e c then h e else Inl e))"

text \<open>\<open>except c as exc: raise d(prefix + str(exc) + suffix) from exc\<close>.\<close>

definition rewrap :: "'a res \<Rightarrow> excls \<Rightarrow> excls \<Rightarrow> (string \<Rightarrow> string) \<Rightarrow> 'a res" where
  "rewrap r c d msg = try_except r c (\<lambda>e. raise d (msg (str_of e)))"

definition guard :: "bool \<Rightarrow> excls \<Rightarrow> string \<Rightarrow> unit res" where
  "guard b c m = (if b then Inr () else raise c m)"

primrec map_res :: "('a \<Rightarrow> 'b res) \<Rightarrow> 'a list \<Rightarrow> 'b list res" where
  "map_res f [] = Inr []"
| "map_res f (x # xs) = bind (f x) (\<lambda>y. bind (map_res f xs) (\<lambda>ys. Inr (y # ys)))"

lemma bind_Inr_iff [res_simps]: "bind r f = Inr y \<longleftrightarrow> (\<exists>x. r = Inr x \<and> f x = Inr y)"
  by (cases r) auto

lemma bind_Inl_iff [res_simps]:
  "bind r f = Inl e \<longleftrightarrow> r = Inl e \<or> (\<exists>x. r = Inr x \<and> f x = Inl e)"
  by (cases r) auto

lemma bind_assoc: "bind (bind r f) g = bind r (\<lambda>x. bind (f x) g)"
  by (cases r) auto

lemma guard_Inr_iff [res_simps]: "guard b c m = Inr u \<longleftrightarrow> b"
  by (simp add: guard_def raise_def)

lemma guard_Inl_iff [res_simps]: "guard b c m = Inl e \<longleftrightarrow> \<not> b \<and> e = Exn c m"
  by (auto simp: guard_def raise_def)

lemma guard_True [simp]: "guard True c m = Inr ()"
  by (simp add: guard_def)

lemma guard_False [simp]: "guard False c m = raise c m"
  by (simp add: guard_def)

lemma bind_raise [simp]: "bind (raise c m) f = raise c m"
  by (simp add: raise_def)

lemma raise_Inr_iff [simp]: "raise c m \<noteq> Inr x" "Inr x \<noteq> raise c m"
  by (simp_all add: raise_def)

lemma if_raise_Inr_iff [res_simps]: "(if b then raise c m else r) = Inr x \<longleftrightarrow> \<not> b \<and> r = Inr x"
  by simp

lemma if_raise_Inl_iff [res_simps]:
  "(if b then raise c m else r) = Inl e \<longleftrightarrow> b \<and> e = Exn c m \<or> \<not> b \<and> r = Inl e"
  by (auto simp: raise_def)

lemma raise_Inl_iff [res_simps]: "raise c m = Inl e \<longleftrightarrow> e = Exn c m"
  by (auto simp: raise_def)

lemma rewrap_Inr [simp]: "rewrap (Inr x) c d m = Inr x"
  by (simp add: rewrap_def try_except_def)

lemma rewrap_Inr_iff [res_simps]: "rewrap r c d m = Inr x \<longleftrightarrow> r = Inr x"
  by (auto simp: rewrap_def try_except_def raise_def split: sum.splits)

lemma rewrap_Inl_iff [res_simps]:
  "rewrap r c d m = Inl e \<longleftrightarrow>
     (\<exists>e'. r = Inl e' \<and> (if is_a e' c then e = Exn d (m (str_of e')) else e = e'))"
  by (auto simp: rewrap_def try_except_def raise_def split: sum.splits)

text \<open>A handler that covers everything the body can raise leaves only its own class.\<close>

lemma rewrap_cls:
  "rewrap r c d m = Inl e \<Longrightarrow> (\<And>e'. r = Inl e' \<Longrightarrow> is_a e' c) \<Longrightarrow> cls e = d"
  by (auto simp: rewrap_Inl_iff)

lemma try_except_Inr [simp]: "try_except (Inr x) c h = Inr x"
  by (simp add: try_except_def)

lemma map_res_Inr_iff:
  "map_res f xs = Inr ys \<longleftrightarrow> list_all2 (\<lambda>x y. f x = Inr y) xs ys"
proof (induction xs arbitrary: ys)
  case Nil
  then show ?case by auto
next
  case (Cons x xs)
  then show ?case by (cases ys) (auto simp: res_simps)
qed

section \<open>Strings\<close>

text \<open>
  \<open>code c\<close> is \<open>ord(c)\<close>. \<open>is_space\<close> is \<open>str.isspace\<close> and \<open>lower_char\<close> is \<open>str.lower\<close> on one code point
  below 256 (where lower case is one to one and stays below 256).
\<close>

abbreviation code :: "char \<Rightarrow> nat" where
  "code c \<equiv> of_char c"

definition is_space :: "char \<Rightarrow> bool" where
  "is_space c = (let n = code c in 9 \<le> n \<and> n \<le> 13 \<or> 28 \<le> n \<and> n \<le> 32 \<or> n = 133 \<or> n = 160)"

definition lower_char :: "char \<Rightarrow> char" where
  "lower_char c = (let n = code c in
     if 65 \<le> n \<and> n \<le> 90 \<or> 192 \<le> n \<and> n \<le> 222 \<and> n \<noteq> 215 then char_of (n + 32) else c)"

definition lower :: "string \<Rightarrow> string" where
  "lower s = map lower_char s"

text \<open>\<open>s.lstrip(cs)\<close>, \<open>s.rstrip(cs)\<close> for the characters that satisfy a predicate, and \<open>s.strip()\<close>.\<close>

definition lstrip :: "('a \<Rightarrow> bool) \<Rightarrow> 'a list \<Rightarrow> 'a list" where
  "lstrip p s = dropWhile p s"

definition rstrip :: "('a \<Rightarrow> bool) \<Rightarrow> 'a list \<Rightarrow> 'a list" where
  "rstrip p s = rev (dropWhile p (rev s))"

definition strip :: "string \<Rightarrow> string" where
  "strip s = rstrip is_space (lstrip is_space s)"

text \<open>\<open>s.split(c)\<close> and \<open>c.join(parts)\<close> for a one-character separator.\<close>

fun split_on :: "char \<Rightarrow> string \<Rightarrow> string list" where
  "split_on c [] = [[]]"
| "split_on c (x # xs) =
     (if x = c then [] # split_on c xs
      else (case split_on c xs of [] \<Rightarrow> [[x]] | y # ys \<Rightarrow> (x # y) # ys))"

fun join_with :: "'a list \<Rightarrow> 'a list list \<Rightarrow> 'a list" where
  "join_with sep [] = []"
| "join_with sep [x] = x"
| "join_with sep (x # y # zs) = x @ sep @ join_with sep (y # zs)"

text \<open>\<open>s.partition(c)\<close>, without the separator; the second component is empty when \<open>c\<close> is absent.\<close>

definition partition_on :: "char \<Rightarrow> string \<Rightarrow> string \<times> string" where
  "partition_on c s = (takeWhile (\<lambda>x. x \<noteq> c) s, drop 1 (dropWhile (\<lambda>x. x \<noteq> c) s))"

text \<open>\<open>str(i)\<close> for an integer, and the hexadecimal digits of \<open>repr\<close>.\<close>

definition digit_char :: "nat \<Rightarrow> char" where
  "digit_char d = char_of (d + 48)"

fun nat_str :: "nat \<Rightarrow> string" where
  "nat_str n = (if n < 10 then [digit_char n] else nat_str (n div 10) @ [digit_char (n mod 10)])"

declare nat_str.simps [simp del]

definition int_str :: "int \<Rightarrow> string" where
  "int_str i = (if i < 0 then CHR ''-'' # nat_str (nat (- i)) else nat_str (nat i))"

definition hex_char :: "nat \<Rightarrow> char" where
  "hex_char d = (if d < 10 then char_of (d + 48) else char_of (d + 87))"

text \<open>\<open>repr(s)\<close>: double quotes only when the string has a single quote and no double quote.\<close>

definition printable :: "char \<Rightarrow> bool" where
  "printable c = (let n = code c in 32 \<le> n \<and> n \<le> 126 \<or> 161 \<le> n \<and> n \<noteq> 173)"

definition repr_char :: "char \<Rightarrow> char \<Rightarrow> string" where
  "repr_char q c = (let n = code c in
     if c = q \<or> n = 92 then [CHR 0x5C, c]
     else if n = 9 then [CHR 0x5C, CHR ''t'']
     else if n = 10 then [CHR 0x5C, CHR ''n'']
     else if n = 13 then [CHR 0x5C, CHR ''r'']
     else if printable c then [c]
     else [CHR 0x5C, CHR ''x'', hex_char (n div 16), hex_char (n mod 16)])"

definition repr :: "string \<Rightarrow> string" where
  "repr s =
     (let q = (if CHR 0x27 \<in> set s \<and> CHR 0x22 \<notin> set s then CHR 0x22 else CHR 0x27)
      in q # concat (map (repr_char q) s) @ [q])"

text \<open>
  \<open>int(s)\<close> on a string: surrounding white space, one sign, digits with single underscores between
  them. \<open>None\<close> is the \<open>ValueError\<close>.
\<close>

definition is_digit :: "char \<Rightarrow> bool" where
  "is_digit c = (48 \<le> code c \<and> code c \<le> 57)"

fun digits_value :: "bool \<Rightarrow> nat \<Rightarrow> string \<Rightarrow> nat option" where
  "digits_value after_digit acc [] = (if after_digit then Some acc else None)"
| "digits_value after_digit acc (c # cs) =
     (if is_digit c then digits_value True (acc * 10 + (code c - 48)) cs
      else if c = CHR ''_'' \<and> after_digit then digits_value False acc cs
      else None)"

definition int_of_str :: "string \<Rightarrow> int option" where
  "int_of_str s =
     (case strip s of
        [] \<Rightarrow> None
      | c # cs \<Rightarrow>
          (if c = CHR ''-'' then map_option (\<lambda>n. - int n) (digits_value False 0 cs)
           else if c = CHR ''+'' then map_option int (digits_value False 0 cs)
           else map_option int (digits_value False 0 (c # cs))))"

text \<open>
  \<open>re.match(r"^[class]{lo,hi}$", s)\<close>: in Python \<open>$\<close> also matches before one trailing newline, so the
  text that the class has to cover is \<open>s\<close> without it.
\<close>

definition chomp :: "string \<Rightarrow> string" where
  "chomp s = (if s \<noteq> [] \<and> last s = CHR ''\<newline>'' then butlast s else s)"

definition re_class :: "(char \<Rightarrow> bool) \<Rightarrow> nat \<Rightarrow> nat \<Rightarrow> string \<Rightarrow> bool" where
  "re_class p lo hi s = (let t = chomp s in list_all p t \<and> lo \<le> length t \<and> length t \<le> hi)"

definition is_alnum_ascii :: "char \<Rightarrow> bool" where
  "is_alnum_ascii c = (let n = code c in
     48 \<le> n \<and> n \<le> 57 \<or> 65 \<le> n \<and> n \<le> 90 \<or> 97 \<le> n \<and> n \<le> 122)"

text \<open>\<open>needle in s\<close> for strings is the library's sublist relation.\<close>

abbreviation occurs_in :: "string \<Rightarrow> string \<Rightarrow> bool" where
  "occurs_in needle s \<equiv> sublist needle s"

subsection \<open>Facts about strings\<close>

lemma lower_length [simp]: "length (lower s) = length s"
  by (simp add: lower_def)

lemma lower_append [simp]: "lower (s @ t) = lower s @ lower t"
  by (simp add: lower_def)

lemma lower_char_idem [simp]: "lower_char (lower_char c) = lower_char c"
proof -
  have "of_char (char_of (n + 32) :: char) = n + 32" if "n \<le> 222" for n :: nat
    using that by simp
  then show ?thesis
    by (auto simp: lower_char_def Let_def)
qed

lemma lower_idem [simp]: "lower (lower s) = lower s"
  by (simp add: lower_def)

lemma rstrip_lstrip_set: "set (rstrip p (lstrip q s)) \<subseteq> set s"
  by (auto simp: rstrip_def lstrip_def dest!: set_dropWhileD)

lemma rstrip_decompose: "\<exists>t. s = rstrip p s @ t \<and> list_all p t"
proof
  show "s = rstrip p s @ rev (takeWhile p (rev s)) \<and> list_all p (rev (takeWhile p (rev s)))"
    unfolding rstrip_def
    by (metis list_all_rev list.pred_set rev_append rev_rev_ident set_takeWhileD
        takeWhile_dropWhile_id)
qed

lemma rstrip_idem [simp]: "rstrip p (rstrip p s) = rstrip p s"
  by (simp add: rstrip_def)

lemma rstrip_last: "rstrip p s \<noteq> [] \<Longrightarrow> \<not> p (last (rstrip p s))"
  by (metis hd_dropWhile last_rev rev_is_Nil_conv rstrip_def)

lemma rstrip_id: "s = [] \<or> \<not> p (last s) \<Longrightarrow> rstrip p s = s"
  by (metis dropWhile_eq_self_iff hd_rev rev_is_Nil_conv rev_rev_ident rstrip_def)

lemma rstrip_pad: "c \<notin> set s \<Longrightarrow> rstrip (\<lambda>x. x = c) (s @ replicate k c) = s"
proof -
  assume c: "c \<notin> set s"
  then have "dropWhile (\<lambda>x. x = c) (rev s) = rev s"
    by (cases s rule: rev_cases) auto
  moreover have "dropWhile (\<lambda>x. x = c) (replicate k c @ t) = dropWhile (\<lambda>x. x = c) t" for t
    by (induction k) auto
  ultimately show ?thesis by (simp add: rstrip_def)
qed

lemma lstrip_id: "s = [] \<or> \<not> p (hd s) \<Longrightarrow> lstrip p s = s"
  by (simp add: dropWhile_eq_self_iff lstrip_def)

lemma strip_id: "s = [] \<or> \<not> is_space (hd s) \<and> \<not> is_space (last s) \<Longrightarrow> strip s = s"
  by (auto simp: strip_def lstrip_id rstrip_id)

lemma strip_surrounded:
  assumes "list_all is_space pre" "list_all is_space post" "s \<noteq> []" "\<not> is_space (hd s)" "\<not> is_space (last s)"
  shows "strip (pre @ s @ post) = s"
proof -
  have "dropWhile is_space (pre @ s @ post) = s @ post"
    using assms by (cases s) (auto simp: dropWhile_append2 list_all_iff)
  moreover have "dropWhile is_space (rev post @ rev s) = dropWhile is_space (rev s)"
    using assms(2) by (intro dropWhile_append2) (auto simp: list_all_iff)
  moreover have "dropWhile is_space (rev s) = rev s"
    using assms(3,5) by (simp add: dropWhile_eq_self_iff hd_rev)
  ultimately show ?thesis by (simp add: strip_def lstrip_def rstrip_def)
qed

lemma split_on_not_Nil [simp]: "split_on c s \<noteq> []"
  by (induction s) (auto split: list.splits)

lemma split_on_no_sep: "t \<in> set (split_on c s) \<Longrightarrow> c \<notin> set t"
  by (induction s arbitrary: t) (auto split: if_splits list.splits)

lemma split_on_chars: "t \<in> set (split_on c s) \<Longrightarrow> set t \<subseteq> set s"
  by (induction s arbitrary: t) (fastforce split: if_splits list.splits)+

lemma join_split: "join_with [c] (split_on c s) = s"
proof (induction s)
  case Nil
  then show ?case by simp
next
  case (Cons x xs)
  obtain y ys where "split_on c xs = y # ys"
    by (meson neq_Nil_conv split_on_not_Nil)
  with Cons show ?case by (cases ys) auto
qed

lemma split_on_single: "c \<notin> set s \<Longrightarrow> split_on c s = [s]"
  by (induction s) auto

lemma split_on_append: "c \<notin> set s \<Longrightarrow> split_on c (s @ c # t) = s # split_on c t"
  by (induction s) auto

lemma split_join: "xs \<noteq> [] \<Longrightarrow> \<forall>x\<in>set xs. c \<notin> set x \<Longrightarrow> split_on c (join_with [c] xs) = xs"
  by (induction "[c]" xs rule: join_with.induct) (auto simp: split_on_single split_on_append)

lemma length_split_on: "length (split_on c s) = Suc (count_list s c)"
proof (induction s)
  case (Cons x xs)
  then show ?case by (cases "split_on c xs") auto
qed simp

lemma partition_on_append: "c \<notin> set s \<Longrightarrow> partition_on c (s @ c # t) = (s, t)"
  by (induction s) (auto simp: partition_on_def)

lemma partition_on_join: "c \<in> set s \<Longrightarrow> partition_on c s = (a, b) \<Longrightarrow> s = a @ c # b \<and> c \<notin> set a"
proof -
  assume c: "c \<in> set s" and p: "partition_on c s = (a, b)"
  obtain u v where s: "s = u @ c # v" and u: "c \<notin> set u"
    using c split_list_first by metis
  then show ?thesis using p by (simp add: partition_on_append)
qed

lemma digit_char_inj: "d < 10 \<Longrightarrow> e < 10 \<Longrightarrow> digit_char d = digit_char e \<Longrightarrow> d = e"
  by (simp add: digit_char_def char_of_eq_iff take_bit_eq_mod)

lemma is_digit_digit_char [simp]: "d < 10 \<Longrightarrow> is_digit (digit_char d)"
  by (simp add: is_digit_def digit_char_def)

lemma code_digit_char [simp]: "d < 10 \<Longrightarrow> code (digit_char d) = d + 48"
  by (simp add: digit_char_def)

lemma nat_str_nonempty [simp]: "nat_str n \<noteq> []"
  by (subst nat_str.simps) simp

lemma nat_str_digits: "c \<in> set (nat_str n) \<Longrightarrow> is_digit c"
proof (induction n rule: nat_str.induct)
  case (1 n)
  then show ?case by (subst (asm) nat_str.simps) (auto split: if_splits)
qed

text \<open>Reading the decimal digits back: \<open>str\<close> on integers loses nothing.\<close>

definition digits_nat :: "string \<Rightarrow> nat" where
  "digits_nat s = foldl (\<lambda>n c. n * 10 + (code c - 48)) 0 s"

lemma digits_nat_str [simp]: "digits_nat (nat_str n) = n"
proof (induction n rule: nat_str.induct)
  case (1 n)
  show ?case
  proof (cases "n < 10")
    case True
    then show ?thesis by (subst nat_str.simps) (simp add: digits_nat_def)
  next
    case False
    with 1 show ?thesis by (subst nat_str.simps) (simp add: digits_nat_def)
  qed
qed

lemma nat_str_inj: "nat_str m = nat_str n \<longleftrightarrow> m = n"
  by (metis digits_nat_str)

lemma digits_value_nat_str:
  "digits_value b acc (nat_str n) = Some (foldl (\<lambda>n c. n * 10 + (code c - 48)) acc (nat_str n))"
proof -
  have "digits_value True acc cs = Some (foldl (\<lambda>n c. n * 10 + (code c - 48)) acc cs)"
    if "\<forall>c\<in>set cs. is_digit c" for acc cs
    using that by (induction cs arbitrary: acc) auto
  moreover obtain c cs where "nat_str n = c # cs"
    by (meson neq_Nil_conv nat_str_nonempty)
  moreover have "\<forall>c\<in>set (nat_str n). is_digit c"
    by (auto dest: nat_str_digits)
  ultimately show ?thesis by auto
qed

section \<open>JSON values and dictionaries\<close>

text \<open>
  What \<open>json.loads\<close> returns. An object keeps its members in insertion order, as a Python dictionary
  does; a float is the text that \<open>repr\<close> gives for it, since no operation of the source computes with
  one except \<open>int(...)\<close>, which is a parameter (\<open>int_of_float\<close> in theory \<open>Externals\<close>).
\<close>

datatype json =
    JNull
  | JBool bool
  | JInt int
  | JFloat string
  | JStr string
  | JList "json list"
  | JObj "(string \<times> json) list"

type_synonym obj = "(string \<times> json) list"

text \<open>\<open>d.get(k)\<close> is \<^const>\<open>map_of\<close>, \<open>d[k] = v\<close> is \<^const>\<open>AList.update\<close> (in place, or at the end when new).\<close>

abbreviation dict_get :: "('k \<times> 'v) list \<Rightarrow> 'k \<Rightarrow> 'v option" where
  "dict_get d k \<equiv> map_of d k"

abbreviation dict_set :: "'k \<Rightarrow> 'v \<Rightarrow> ('k \<times> 'v) list \<Rightarrow> ('k \<times> 'v) list" where
  "dict_set \<equiv> AList.update"

text \<open>\<open>d.update(e)\<close>: the members of \<open>e\<close> in order.\<close>

definition dict_update :: "('k \<times> 'v) list \<Rightarrow> ('k \<times> 'v) list \<Rightarrow> ('k \<times> 'v) list" where
  "dict_update d e = fold (\<lambda>(k, v). dict_set k v) e d"

lemma dict_get_set [simp]: "dict_get (dict_set k v d) k' = (if k' = k then Some v else dict_get d k')"
  by (simp add: update_conv)

lemma filter_dict_set: "filter (\<lambda>(k, v). k \<noteq> key) (dict_set key x d) = filter (\<lambda>(k, v). k \<noteq> key) d"
  by (induction d) auto

lemma dict_get_update:
  "distinct (map fst e) \<Longrightarrow>
     dict_get (dict_update d e) k = (case dict_get e k of Some v \<Rightarrow> Some v | None \<Rightarrow> dict_get d k)"
proof (induction e arbitrary: d)
  case Nil
  then show ?case by (simp add: dict_update_def)
next
  case (Cons p e)
  obtain k' v where p: "p = (k', v)" by force
  have "dict_update d (p # e) = dict_update (dict_set k' v d) e"
    by (simp add: dict_update_def p)
  with Cons p show ?case
    by (auto simp: map_of_eq_None_iff split: option.splits) (force dest: map_of_SomeD)+
qed

text \<open>\<open>for k in ks: del d[k]\<close>.\<close>

lemma fold_delete:
  "dict_get (fold AList.delete ks d) k = (if k \<in> set ks then None else dict_get d k)"
  "distinct (map fst d) \<Longrightarrow> distinct (map fst (fold AList.delete ks d))"
  by (induction ks arbitrary: d) (auto simp: delete_conv distinct_delete)

text \<open>\<open>repr\<close> of a decoded value, as f-strings with \<open>!r\<close> print it.\<close>

fun repr_json :: "json \<Rightarrow> string" where
  "repr_json JNull = ''None''"
| "repr_json (JBool b) = (if b then ''True'' else ''False'')"
| "repr_json (JInt i) = int_str i"
| "repr_json (JFloat t) = t"
| "repr_json (JStr s) = repr s"
| "repr_json (JList vs) = ''['' @ join_with '', '' (map repr_json vs) @ '']''"
| "repr_json (JObj ps) =
     ''{'' @ join_with '', '' (map (\<lambda>(k, v). repr k @ '': '' @ repr_json v) ps) @ ''}''"

definition repr_opt :: "json option \<Rightarrow> string" where
  "repr_opt v = (case v of None \<Rightarrow> ''None'' | Some j \<Rightarrow> repr_json j)"

text \<open>Truth value of a decoded value: \<open>bool(v)\<close>.\<close>

fun truthy :: "json \<Rightarrow> bool" where
  "truthy JNull = False"
| "truthy (JBool b) = b"
| "truthy (JInt i) = (i \<noteq> 0)"
| "truthy (JFloat t) = (t \<noteq> ''0.0'' \<and> t \<noteq> ''-0.0'')"
| "truthy (JStr s) = (s \<noteq> [])"
| "truthy (JList vs) = (vs \<noteq> [])"
| "truthy (JObj ps) = (ps \<noteq> [])"

text \<open>\<open>str(v)\<close> of a decoded value, which is what an f-string prints.\<close>

fun str_json :: "json \<Rightarrow> string" where
  "str_json (JStr s) = s"
| "str_json v = repr_json v"

end
