(* ===== verification/Effects.thy ===== *)
theory Effects
  imports Py_Prelude
begin

text \<open>
  Code with effects. A synchronous method is a function from the state it finds to its outcome and
  the state it leaves, which stays changed when it raises. An \<open>async\<close> function is a task: a tree of
  atomic actions separated by the points where it suspends and other tasks may run. \<open>run\<close> executes a
  task alone; \<open>interleaved\<close> relates a pool of tasks to the outcomes it can have when the tasks take turns
  at their suspension points.
\<close>

named_theorems run_simps \<open>running tasks\<close>

section \<open>Stateful code\<close>

type_synonym ('s, 'a) st = "'s \<Rightarrow> 'a res \<times> 's"

definition sret :: "'a \<Rightarrow> ('s, 'a) st" where
  "sret x = (\<lambda>s. (Inr x, s))"

definition sres :: "'a res \<Rightarrow> ('s, 'a) st" where
  "sres r = (\<lambda>s. (r, s))"

definition sraise :: "excls \<Rightarrow> string \<Rightarrow> ('s, 'a) st" where
  "sraise c m = sres (raise c m)"

definition sget :: "('s \<Rightarrow> 'a) \<Rightarrow> ('s, 'a) st" where
  "sget f = (\<lambda>s. (Inr (f s), s))"

definition supd :: "('s \<Rightarrow> 's) \<Rightarrow> ('s, unit) st" where
  "supd f = (\<lambda>s. (Inr (), f s))"

text \<open>Continue with the outcome, whatever it is; \<open>sbind\<close> continues only after a value.\<close>

definition sthen :: "('s, 'a) st \<Rightarrow> ('a res \<Rightarrow> ('s, 'b) st) \<Rightarrow> ('s, 'b) st" where
  "sthen m k = (\<lambda>s. case m s of (r, s') \<Rightarrow> k r s')"

definition sbind :: "('s, 'a) st \<Rightarrow> ('a \<Rightarrow> ('s, 'b) st) \<Rightarrow> ('s, 'b) st" where
  "sbind m f = sthen m (\<lambda>r. case r of Inl e \<Rightarrow> sres (Inl e) | Inr x \<Rightarrow> f x)"

text \<open>\<open>except c as exc: raise d(msg)\<close> around stateful code.\<close>

definition srewrap :: "('s, 'a) st \<Rightarrow> excls \<Rightarrow> excls \<Rightarrow> (string \<Rightarrow> string) \<Rightarrow> ('s, 'a) st" where
  "srewrap m c d msg = sthen m (\<lambda>r. sres (rewrap r c d msg))"

definition sguard :: "bool \<Rightarrow> excls \<Rightarrow> string \<Rightarrow> ('s, unit) st" where
  "sguard b c m = sres (guard b c m)"

lemma sbind_sret [simp]: "sbind (sret x) f = f x"
  by (simp add: sbind_def sthen_def sret_def)

lemma sbind_Inr_iff [res_simps]:
  "sbind m f s = (Inr y, s'') \<longleftrightarrow> (\<exists>x s'. m s = (Inr x, s') \<and> f x s' = (Inr y, s''))"
  by (auto simp: sbind_def sthen_def sres_def split: prod.splits sum.splits)

lemma sbind_Inl_iff [res_simps]:
  "sbind m f s = (Inl e, s'') \<longleftrightarrow>
     m s = (Inl e, s'') \<or> (\<exists>x s'. m s = (Inr x, s') \<and> f x s' = (Inl e, s''))"
  by (auto simp: sbind_def sthen_def sres_def split: prod.splits sum.splits)

lemma sres_iff [res_simps]: "sres r s = (r', s') \<longleftrightarrow> r' = r \<and> s' = s"
  by (auto simp: sres_def)

lemma sres_Inr_iff: "sres r s = (Inr x, s') \<longleftrightarrow> r = Inr x \<and> s' = s"
  by (auto simp: sres_def)

lemma sret_iff [res_simps]: "sret x s = (r', s') \<longleftrightarrow> r' = Inr x \<and> s' = s"
  by (auto simp: sret_def)

lemma sget_iff [res_simps]: "sget f s = (r', s') \<longleftrightarrow> r' = Inr (f s) \<and> s' = s"
  by (auto simp: sget_def)

lemma supd_iff [res_simps]: "supd f s = (r', s') \<longleftrightarrow> r' = Inr () \<and> s' = f s"
  by (auto simp: supd_def)

lemma sraise_iff [res_simps]: "sraise c m s = (r, s') \<longleftrightarrow> r = Inl (Exn c m) \<and> s' = s"
  by (auto simp: sraise_def sres_def raise_def)

lemma sguard_iff [res_simps]: "sguard b c m s = (Inr u, s') \<longleftrightarrow> b \<and> s' = s"
  by (auto simp: sguard_def sres_def res_simps)

lemma sguard_Inl_iff [res_simps]: "sguard b c m s = (Inl e, s') \<longleftrightarrow> \<not> b \<and> e = Exn c m \<and> s' = s"
  by (auto simp: sguard_def sres_def res_simps)

lemma srewrap_Inr_iff [res_simps]: "srewrap m c d f s = (Inr x, s') \<longleftrightarrow> m s = (Inr x, s')"
  by (auto simp: srewrap_def sthen_def sres_def res_simps split: prod.splits)

lemma srewrap_Inl_iff [res_simps]:
  "srewrap m c d f s = (Inl e, s') \<longleftrightarrow>
     (\<exists>e'. m s = (Inl e', s') \<and> (if is_a e' c then e = Exn d (f (str_of e')) else e = e'))"
  by (auto simp: srewrap_def sthen_def sres_def rewrap_Inl_iff split: prod.splits)

subsection \<open>Invariants of stateful code\<close>

named_theorems keeps_intros \<open>code that keeps an invariant of the state\<close>

text \<open>Whatever the outcome, an exception included, the invariant holds afterwards.\<close>

definition keeps :: "('s \<Rightarrow> bool) \<Rightarrow> ('s, 'a) st \<Rightarrow> bool" where
  "keeps Q m = (\<forall>s. Q s \<longrightarrow> Q (snd (m s)))"

lemma keepsD: "keeps Q m \<Longrightarrow> m s = (r, s') \<Longrightarrow> Q s \<Longrightarrow> Q s'"
  by (metis keeps_def snd_conv)

lemma keepsI: "(\<And>s r s'. Q s \<Longrightarrow> m s = (r, s') \<Longrightarrow> Q s') \<Longrightarrow> keeps Q m"
  by (simp add: keeps_def) (metis prod.collapse)

lemma keeps_sres [keeps_intros]: "keeps Q (sres r)" "keeps Q (sret x)" "keeps Q (sget f)"
    "keeps Q (sguard b c e)" "keeps Q (sraise c e)"
  by (simp_all add: keeps_def sres_def sret_def sget_def sguard_def sraise_def)

lemma keeps_sthen [keeps_intros]: "keeps Q m \<Longrightarrow> (\<And>r. keeps Q (k r)) \<Longrightarrow> keeps Q (sthen m k)"
  by (auto simp: keeps_def sthen_def split: prod.splits)

lemma keeps_sbind [keeps_intros]: "keeps Q m \<Longrightarrow> (\<And>x. keeps Q (f x)) \<Longrightarrow> keeps Q (sbind m f)"
  unfolding sbind_def by (intro keeps_sthen) (auto intro: keeps_sres split: sum.splits)

lemma keeps_srewrap [keeps_intros]: "keeps Q m \<Longrightarrow> keeps Q (srewrap m c d f)"
  unfolding srewrap_def by (intro keeps_sthen keeps_sres)

lemma keeps_if [keeps_intros]: "(b \<Longrightarrow> keeps Q m) \<Longrightarrow> (\<not> b \<Longrightarrow> keeps Q n) \<Longrightarrow> keeps Q (if b then m else n)"
  by simp

lemma keeps_option [keeps_intros]:
  "keeps Q m \<Longrightarrow> (\<And>x. keeps Q (f x)) \<Longrightarrow> keeps Q (case v of None \<Rightarrow> m | Some x \<Rightarrow> f x)"
  by (cases v) simp_all

section \<open>Tasks\<close>

datatype ('s, 'a) task =
    Ret "'a res"
  | Act "'s \<Rightarrow> 's \<times> ('s, 'a) task"
  | Pause "('s, 'a) task"

primrec tthen :: "('s, 'a) task \<Rightarrow> ('a res \<Rightarrow> ('s, 'b) task) \<Rightarrow> ('s, 'b) task" where
  "tthen (Ret r) k = k r"
| "tthen (Act g) k = Act (\<lambda>s. map_prod id (\<lambda>t. tthen t k) (g s))"
| "tthen (Pause t) k = Pause (tthen t k)"

definition tbind :: "('s, 'a) task \<Rightarrow> ('a \<Rightarrow> ('s, 'b) task) \<Rightarrow> ('s, 'b) task" where
  "tbind t f = tthen t (\<lambda>r. case r of Inl e \<Rightarrow> Ret (Inl e) | Inr x \<Rightarrow> f x)"

definition trewrap :: "('s, 'a) task \<Rightarrow> excls \<Rightarrow> excls \<Rightarrow> (string \<Rightarrow> string) \<Rightarrow> ('s, 'a) task" where
  "trewrap t c d msg = tthen t (\<lambda>r. Ret (rewrap r c d msg))"

text \<open>Synchronous code inside a task runs without suspending.\<close>

definition atomic :: "('s, 'a) st \<Rightarrow> ('s, 'a) task" where
  "atomic m = Act (\<lambda>s. case m s of (r, s') \<Rightarrow> (s', Ret r))"

text \<open>An awaited operation that suspends before it takes effect.\<close>

definition suspending :: "('s, 'a) st \<Rightarrow> ('s, 'a) task" where
  "suspending m = Pause (atomic m)"

primrec run :: "('s, 'a) task \<Rightarrow> 's \<Rightarrow> 'a res \<times> 's" where
  "run (Ret r) = (\<lambda>s. (r, s))"
| "run (Act g) = (\<lambda>s. (\<lambda>(s', k). k s') (map_prod id run (g s)))"
| "run (Pause t) = run t"

lemma run_tthen [run_simps]: "run (tthen t k) = sthen (run t) (\<lambda>r. run (k r))"
proof (induction t)
  case (Act g)
  show ?case
  proof
    fix s
    obtain s' t where g: "g s = (s', t)" by force
    then have "run (tthen t k) = sthen (run t) (\<lambda>r. run (k r))"
      using Act [of "(s', t)" t] by (metis rangeI snds.intros snd_conv)
    with g show "run (tthen (Act g) k) s = sthen (run (Act g)) (\<lambda>r. run (k r)) s"
      by (simp add: sthen_def)
  qed
qed (auto simp: sthen_def)

lemma run_tbind [run_simps]: "run (tbind t f) = sbind (run t) (\<lambda>x. run (f x))"
proof -
  have "(\<lambda>r. run (case r of Inl e \<Rightarrow> Ret (Inl e) | Inr x \<Rightarrow> f x)) =
          (\<lambda>r. case r of Inl e \<Rightarrow> sres (Inl e) | Inr x \<Rightarrow> run (f x))"
    by (auto simp: sres_def split: sum.splits)
  then show ?thesis by (simp add: tbind_def sbind_def run_tthen)
qed

lemma run_trewrap [run_simps]: "run (trewrap t c d m) = srewrap (run t) c d m"
  by (simp add: trewrap_def srewrap_def run_tthen sres_def)

lemma run_atomic [run_simps]: "run (atomic m) = m"
  by (auto simp: atomic_def split: prod.splits)

lemma run_suspending [run_simps]: "run (suspending m) = m"
  by (simp add: suspending_def run_atomic)

lemma run_Ret [run_simps]: "run (Ret r) = sres r"
  by (simp add: sres_def)

declare run.simps [simp del]

lemma sthen_sres [simp]: "sthen (sres r) k = k r"
  by (simp add: sthen_def sres_def)

lemma sbind_sres: "sbind (sres r) f = (case r of Inl e \<Rightarrow> sres (Inl e) | Inr x \<Rightarrow> f x)"
  by (simp add: sbind_def)

text \<open>Running a task that never touches the state collapses to a plain result.\<close>

lemma sbind_sres_sres [run_simps]: "sbind (sres r) (\<lambda>x. sres (g x)) = sres (bind r g)"
  by (cases r) (simp_all add: sbind_def)

lemma srewrap_sres [run_simps]: "srewrap (sres r) c d m = sres (rewrap r c d m)"
  by (simp add: srewrap_def)

lemma run_if [run_simps]: "run (if b then t else u) = (if b then run t else run u)"
  by simp

lemma sres_if [run_simps]: "(if b then sres x else sres y) = sres (if b then x else y)"
  by simp

lemma run_case_list [run_simps]:
  "run (case xs of [] \<Rightarrow> t | y # ys \<Rightarrow> f y ys) = (case xs of [] \<Rightarrow> run t | y # ys \<Rightarrow> run (f y ys))"
  by (cases xs) simp_all

lemma sres_case_list [run_simps]:
  "(case xs of [] \<Rightarrow> sres x | y # ys \<Rightarrow> sres (f y ys)) = sres (case xs of [] \<Rightarrow> x | y # ys \<Rightarrow> f y ys)"
  by (cases xs) simp_all

lemma run_case_sum [run_simps]:
  "run (case r of Inl e \<Rightarrow> f e | Inr x \<Rightarrow> g x) = (case r of Inl e \<Rightarrow> run (f e) | Inr x \<Rightarrow> run (g x))"
  by (cases r) simp_all

lemma sres_case_sum [run_simps]:
  "(case r of Inl e \<Rightarrow> sres (f e) | Inr x \<Rightarrow> sres (g x)) = sres (case r of Inl e \<Rightarrow> f e | Inr x \<Rightarrow> g x)"
  by (cases r) simp_all

lemma sthen_sres_sres [run_simps]: "sthen (sres r) k = k r"
  by simp

section \<open>Interleaving\<close>

text \<open>
  One turn of a task: it runs until it suspends or ends. A pool of tasks on one event loop takes turns
  in any order.
\<close>

primrec turn :: "('s, 'a) task \<Rightarrow> 's \<Rightarrow> ('s, 'a) task \<times> 's" where
  "turn (Ret r) = Pair (Ret r)"
| "turn (Act g) = (\<lambda>s. (\<lambda>(s', k). k s') (map_prod id turn (g s)))"
| "turn (Pause t) = Pair t"

inductive interleaved :: "('s, 'a) task list \<Rightarrow> 's \<Rightarrow> 'a res list \<Rightarrow> 's \<Rightarrow> bool" where
  finished: "interleaved (map Ret rs) s rs s"
| turn: "interleaved (ts[i := t']) s' rs s'' \<Longrightarrow> i < length ts \<Longrightarrow> turn (ts ! i) s = (t', s')
          \<Longrightarrow> interleaved ts s rs s''"

subsection \<open>Tasks that rely on each other\<close>

text \<open>
  Reasoning about a pool: every atomic action moves the state along a preorder \<open>le\<close>, and a task relies
  only on assertions that survive such moves. \<open>safe P A t\<close>: started under the assertion \<open>A\<close>, whatever
  the other tasks of the pool do in between, \<open>t\<close> ends with an outcome of which \<open>P\<close> holds.
\<close>

locale rely =
  fixes le :: "'s \<Rightarrow> 's \<Rightarrow> bool"
  assumes le_refl: "le s s"
    and le_trans: "le s t \<Longrightarrow> le t u \<Longrightarrow> le s u"
begin

definition stable :: "('s \<Rightarrow> bool) \<Rightarrow> bool" where
  "stable A = (\<forall>s s'. A s \<longrightarrow> le s s' \<longrightarrow> A s')"

lemma stableI: "(\<And>s s'. A s \<Longrightarrow> le s s' \<Longrightarrow> A s') \<Longrightarrow> stable A"
  by (simp add: stable_def)

lemma stableD: "stable A \<Longrightarrow> A s \<Longrightarrow> le s s' \<Longrightarrow> A s'"
  by (simp add: stable_def)

lemma stable_conj: "stable A \<Longrightarrow> (b \<Longrightarrow> stable B) \<Longrightarrow> stable (\<lambda>s. A s \<and> (b \<longrightarrow> B s))"
  by (auto simp: stable_def)

inductive safe :: "('a res \<Rightarrow> 's \<Rightarrow> bool) \<Rightarrow> ('s \<Rightarrow> bool) \<Rightarrow> ('s, 'a) task \<Rightarrow> bool" for P where
  Ret: "(\<forall>s. A s \<longrightarrow> P r s) \<Longrightarrow> safe P A (Ret r)"
| Pause: "safe P A t \<Longrightarrow> safe P A (Pause t)"
| Act: "(\<forall>s. A s \<longrightarrow> le s (fst (g s)) \<and> (\<exists>A'. stable A' \<and> A' (fst (g s)) \<and> safe P A' (snd (g s))))
          \<Longrightarrow> safe P A (Act g)"

lemma safe_weaken: "safe P A t \<Longrightarrow> (\<And>s. B s \<Longrightarrow> A s) \<Longrightarrow> safe P B t"
proof (induction arbitrary: B rule: safe.induct)
  case (Act A g)
  then show ?case by (intro safe.Act) blast
qed (auto intro: safe.Ret safe.Pause)

inductive_cases safe_RetE: "safe P A (Ret r)"

lemma safe_tthen: "safe Q A t \<Longrightarrow> (\<And>r. safe P (Q r) (k r)) \<Longrightarrow> safe P A (tthen t k)"
proof (induction rule: safe.induct)
  case (Ret A r)
  then show ?case using safe_weaken [of P "Q r" "k r" A] by simp
next
  case (Act A g)
  then show ?case by (auto intro!: safe.Act) blast
qed (auto intro: safe.Pause)

lemma safe_tbind:
  assumes "safe Q A t" "\<And>x. safe P (Q (Inr x)) (f x)" "\<And>e s. Q (Inl e) s \<Longrightarrow> P (Inl e) s"
  shows "safe P A (tbind t f)"
  unfolding tbind_def
proof (rule safe_tthen [OF assms(1)])
  fix r
  show "safe P (Q r) (case r of Inl e \<Rightarrow> Ret (Inl e) | Inr x \<Rightarrow> f x)"
    using assms(2,3) by (cases r) (auto intro: safe.Ret)
qed

lemma safe_atomic:
  assumes "\<And>s r s'. A s \<Longrightarrow> m s = (r, s') \<Longrightarrow> le s s' \<and> P r s'" "\<And>r. stable (P r)"
  shows "safe P A (atomic m)"
  unfolding atomic_def using assms by (intro safe.Act) (fastforce intro: safe.Ret split: prod.split)

lemma turn_safe:
  "safe P A t \<Longrightarrow> stable A \<Longrightarrow> A s \<Longrightarrow> turn t s = (t', s') \<Longrightarrow>
     le s s' \<and> (\<exists>A'. stable A' \<and> A' s' \<and> safe P A' t')"
proof (induction arbitrary: s rule: safe.induct)
  case (Ret A r)
  then show ?case by (auto intro: le_refl safe.Ret)
next
  case (Pause A t)
  then show ?case by (auto intro: le_refl)
next
  case (Act A g)
  obtain u c where g: "g s = (u, c)" by force
  with Act have "le s u" "turn c u = (t', s')" by (fastforce, simp)
  moreover from Act g have "le u s' \<and> (\<exists>A'. stable A' \<and> A' s' \<and> safe P A' t')"
    by (metis \<open>turn c u = (t', s')\<close> fst_conv snd_conv)
  ultimately show ?case using le_trans by blast
qed

text \<open>A pool of safe tasks: every outcome satisfies its postcondition in the final state.\<close>

lemma interleaved_safe:
  "interleaved ts s rs s'' \<Longrightarrow> \<forall>i<length ts. \<exists>A. stable A \<and> A s \<and> safe (P i) A (ts ! i) \<Longrightarrow>
     length rs = length ts \<and> (\<forall>i<length ts. P i (rs ! i) s'')"
proof (induction rule: interleaved.induct)
  case (finished rs s)
  have "P i (rs ! i) s" if i: "i < length rs" for i
  proof -
    obtain A where "A s" "safe (P i) A (Ret (rs ! i))" using finished.prems i by auto
    then show ?thesis by (blast elim: safe_RetE)
  qed
  then show ?case by simp
next
  case (turn ts i t' s' rs s'' s)
  obtain A where A: "stable A" "A s" "safe (P i) A (ts ! i)" using turn.prems turn.hyps by blast
  then have le: "le s s'" and B: "\<exists>B. stable B \<and> B s' \<and> safe (P i) B t'"
    using turn_safe turn.hyps(3) by blast+
  have "\<exists>B. stable B \<and> B s' \<and> safe (P j) B (ts[i := t'] ! j)" if j: "j < length ts" for j
  proof (cases "j = i")
    case True
    then show ?thesis using B turn.hyps(2) by simp
  next
    case False
    obtain C where "stable C" "C s" "safe (P j) C (ts ! j)" using turn.prems j by blast
    then show ?thesis using le False unfolding stable_def by (metis nth_list_update_neq)
  qed
  then show ?case using turn.IH by simp
qed

end

subsection \<open>Invariants of a pool\<close>

text \<open>
  A task keeps an invariant when each of its atomic actions does, from any state that satisfies it:
  then the invariant holds between the turns of every pool of such tasks.
\<close>

inductive tkeeps :: "('s \<Rightarrow> bool) \<Rightarrow> ('s, 'a) task \<Rightarrow> bool" for Q where
  Ret: "tkeeps Q (Ret r)"
| Pause: "tkeeps Q t \<Longrightarrow> tkeeps Q (Pause t)"
| Act: "(\<forall>s. Q s \<longrightarrow> Q (fst (g s)) \<and> tkeeps Q (snd (g s))) \<Longrightarrow> tkeeps Q (Act g)"

named_theorems tkeeps_intros \<open>tasks that keep an invariant\<close>

declare tkeeps.Ret [tkeeps_intros]

lemma tkeeps_tthen [tkeeps_intros]: "tkeeps Q t \<Longrightarrow> (\<And>r. tkeeps Q (k r)) \<Longrightarrow> tkeeps Q (tthen t k)"
  by (induction rule: tkeeps.induct) (auto intro: tkeeps.intros)

lemma tkeeps_sum [tkeeps_intros]:
  "(\<And>e. tkeeps Q (f e)) \<Longrightarrow> (\<And>x. tkeeps Q (g x)) \<Longrightarrow> tkeeps Q (case r of Inl e \<Rightarrow> f e | Inr x \<Rightarrow> g x)"
  by (cases r) simp_all

lemma tkeeps_option [tkeeps_intros]:
  "tkeeps Q t \<Longrightarrow> (\<And>x. tkeeps Q (f x)) \<Longrightarrow> tkeeps Q (case v of None \<Rightarrow> t | Some x \<Rightarrow> f x)"
  by (cases v) simp_all

lemma tkeeps_if [tkeeps_intros]: "(b \<Longrightarrow> tkeeps Q t) \<Longrightarrow> (\<not> b \<Longrightarrow> tkeeps Q v) \<Longrightarrow> tkeeps Q (if b then t else v)"
  by simp

lemma tkeeps_tbind [tkeeps_intros]: "tkeeps Q t \<Longrightarrow> (\<And>x. tkeeps Q (f x)) \<Longrightarrow> tkeeps Q (tbind t f)"
  unfolding tbind_def by (intro tkeeps_intros)

lemma tkeeps_atomic [tkeeps_intros]: "keeps Q m \<Longrightarrow> tkeeps Q (atomic m)"
  unfolding atomic_def by (rule tkeeps.Act) (auto simp: keeps_def intro: tkeeps.Ret split: prod.split)

lemma tkeeps_suspending [tkeeps_intros]: "keeps Q m \<Longrightarrow> tkeeps Q (suspending m)"
  unfolding suspending_def by (intro tkeeps.Pause tkeeps_atomic)

lemma run_tkeeps: "tkeeps Q t \<Longrightarrow> Q s \<Longrightarrow> run t s = (r, s') \<Longrightarrow> Q s'"
proof (induction arbitrary: s rule: tkeeps.induct)
  case (Act g)
  then show ?case by (cases "g s") (fastforce simp: run.simps)
qed (auto simp: run.simps)

lemma turn_tkeeps: "tkeeps Q t \<Longrightarrow> Q s \<Longrightarrow> turn t s = (t', s') \<Longrightarrow> Q s' \<and> tkeeps Q t'"
proof (induction arbitrary: s rule: tkeeps.induct)
  case (Act g)
  then show ?case by (cases "g s") fastforce
qed (auto intro: tkeeps.Ret)

lemma interleaved_tkeeps: "interleaved ts s rs s' \<Longrightarrow> Q s \<Longrightarrow> list_all (tkeeps Q) ts \<Longrightarrow> Q s'"
proof (induction rule: interleaved.induct)
  case (turn ts i t' s' rs s'' s)
  then have "Q s' \<and> tkeeps Q t'" by (metis list_all_length turn_tkeeps)
  with turn show ?case by (auto simp: list_all_length nth_list_update)
qed auto

text \<open>Rewriting inside the branches of a task.\<close>

lemmas run_congs = if_cong list.case_cong sum.case_cong option.case_cong

end
