(* ===== verification/Py_Codec.thy ===== *)
theory Py_Codec
  imports Py_Prelude
begin

text \<open>
  Bytes and the byte-level codecs of the standard library that the SDK calls: \<open>str.encode\<close> to ASCII
  and UTF-8, \<open>int.from_bytes\<close> and \<open>int.to_bytes\<close>, and base64url as \<open>base64.urlsafe_b64encode\<close> and the
  lenient \<open>base64.urlsafe_b64decode\<close> (the state machine of \<open>binascii.a2b_base64\<close> with
  \<open>strict_mode=False\<close>: characters outside the alphabet are skipped). The SDK writes the unpadded
  encoder and the padding decoder out in six places; they are the two functions \<open>b64u\<close> and
  \<open>b64u_decode\<close> here. The main result is that decoding inverts encoding on every byte string.
\<close>

type_synonym byte = "8 word"

type_synonym bytes = "byte list"

section \<open>Characters and bytes\<close>

definition byte_of_char :: "char \<Rightarrow> byte" where
  "byte_of_char c = of_nat (code c)"

definition char_of_byte :: "byte \<Rightarrow> char" where
  "char_of_byte b = char_of (unat b)"

definition is_ascii :: "string \<Rightarrow> bool" where
  "is_ascii s = list_all (\<lambda>c. code c < 128) s"

text \<open>\<open>s.encode("ascii")\<close>: raises on the first code point above 127.\<close>

definition encode_ascii :: "string \<Rightarrow> bytes res" where
  "encode_ascii s =
     (if is_ascii s then Inr (map byte_of_char s)
      else raise (Builtin UnicodeEncodeError) ''ordinal not in range(128)'')"

text \<open>\<open>s.encode("utf-8")\<close> for code points below 256: one byte, or two.\<close>

definition utf8_char :: "char \<Rightarrow> bytes" where
  "utf8_char c = (let n = code c in
     if n < 128 then [of_nat n] else [of_nat (192 + n div 64), of_nat (128 + n mod 64)])"

definition encode_utf8 :: "string \<Rightarrow> bytes" where
  "encode_utf8 s = concat (map utf8_char s)"

lemma char_byte_inverse [simp]: "char_of_byte (byte_of_char c) = c"
proof -
  have "unat (of_nat (code c) :: byte) = code c"
    by (simp add: unat_of_nat take_bit_eq_mod)
  then show ?thesis by (simp add: char_of_byte_def byte_of_char_def)
qed

lemma unat_byte_less [simp]: "unat (b :: byte) < 256"
  using unsigned_less [of b] by simp

lemma byte_char_inverse [simp]: "byte_of_char (char_of_byte b) = b"
proof -
  have "code (char_of (unat b) :: char) = unat b"
    by (simp add: of_char_of)
  then show ?thesis by (simp add: char_of_byte_def byte_of_char_def)
qed

lemma encode_ascii_Inr_iff [res_simps]:
  "encode_ascii s = Inr b \<longleftrightarrow> is_ascii s \<and> b = map byte_of_char s"
  by (auto simp: encode_ascii_def)

lemma encode_ascii_Inl_iff [res_simps]:
  "encode_ascii s = Inl e \<longleftrightarrow>
     \<not> is_ascii s \<and> e = Exn (Builtin UnicodeEncodeError) ''ordinal not in range(128)''"
  by (auto simp: encode_ascii_def res_simps)

lemma byte_of_char_inj [simp]: "byte_of_char c = byte_of_char d \<longleftrightarrow> c = d"
  by (metis char_byte_inverse)

lemma is_ascii_append [simp]: "is_ascii (s @ t) \<longleftrightarrow> is_ascii s \<and> is_ascii t"
  by (simp add: is_ascii_def)

section \<open>Big-endian integers\<close>

text \<open>\<open>int.from_bytes(data, "big")\<close>.\<close>

definition from_bytes :: "bytes \<Rightarrow> nat" where
  "from_bytes bs = foldl (\<lambda>n b. n * 256 + unat b) 0 bs"

text \<open>
  \<open>n.to_bytes((n.bit_length() + 7) // 8, "big")\<close>: the shortest big-endian form of a positive \<open>n\<close>, the
  empty one for 0. The number of bytes is the number of base-256 digits, which is what
  \<open>(n.bit_length() + 7) // 8\<close> computes.
\<close>

fun to_bytes :: "nat \<Rightarrow> bytes" where
  "to_bytes n = (if n = 0 then [] else to_bytes (n div 256) @ [of_nat (n mod 256)])"

declare to_bytes.simps [simp del]

lemma from_bytes_snoc [simp]: "from_bytes (bs @ [b]) = from_bytes bs * 256 + unat b"
  by (simp add: from_bytes_def)

lemma from_bytes_Nil [simp]: "from_bytes [] = 0"
  by (simp add: from_bytes_def)

lemma from_to_bytes [simp]: "from_bytes (to_bytes n) = n"
proof (induction n rule: to_bytes.induct)
  case (1 n)
  show ?case
  proof (cases "n = 0")
    case True
    then show ?thesis by (subst to_bytes.simps) simp
  next
    case False
    have "unat (of_nat (n mod 256) :: byte) = n mod 256"
      by (simp add: unat_of_nat)
    with False 1 show ?thesis by (subst to_bytes.simps) simp
  qed
qed

lemma to_bytes_0 [simp]: "to_bytes 0 = []"
  by (subst to_bytes.simps) simp

lemma to_bytes_snoc:
  "0 < n \<or> b \<noteq> 0 \<Longrightarrow> to_bytes (n * 256 + unat b) = to_bytes n @ [b]"
proof -
  assume nz: "0 < n \<or> b \<noteq> 0"
  have "(n * 256 + unat b) div 256 = n" "(n * 256 + unat b) mod 256 = unat b"
    by simp_all
  moreover have "n * 256 + unat b \<noteq> 0"
    using nz by (auto simp: unat_eq_0)
  ultimately show ?thesis by (subst to_bytes.simps) simp
qed

lemma from_bytes_eq_0: "from_bytes bs = 0 \<longleftrightarrow> list_all (\<lambda>b. b = 0) bs"
  by (induction bs rule: rev_induct) (auto simp: unat_eq_0)

text \<open>\<open>to_bytes\<close> after \<open>from_bytes\<close> only loses the leading zero bytes.\<close>

lemma to_from_bytes: "to_bytes (from_bytes bs) = lstrip (\<lambda>b. b = 0) bs"
proof (induction bs rule: rev_induct)
  case Nil
  then show ?case by (simp add: lstrip_def)
next
  case (snoc b bs)
  show ?case
  proof (cases "list_all (\<lambda>b. b = 0) bs")
    case True
    then have z: "from_bytes bs = 0" by (simp add: from_bytes_eq_0)
    have "dropWhile (\<lambda>b. b = 0) (bs @ [b]) = dropWhile (\<lambda>b. b = 0) [b]"
      using True by (simp add: dropWhile_append2 list_all_iff)
    with z show ?thesis
      using to_bytes_snoc [of 0 b] by (cases "b = 0") (auto simp: lstrip_def)
  next
    case False
    then have "0 < from_bytes bs" using from_bytes_eq_0 by blast
    moreover have "dropWhile (\<lambda>b. b = 0) (bs @ [b]) = dropWhile (\<lambda>b. b = 0) bs @ [b]"
      using False by (auto simp: list_all_iff dropWhile_append)
    ultimately show ?thesis
      using snoc by (simp add: to_bytes_snoc lstrip_def)
  qed
qed

lemma to_bytes_hd: "0 < n \<Longrightarrow> to_bytes n \<noteq> [] \<and> hd (to_bytes n) \<noteq> 0"
proof (induction n rule: to_bytes.induct)
  case (1 n)
  then have eq: "to_bytes n = to_bytes (n div 256) @ [of_nat (n mod 256)]"
    by (subst to_bytes.simps) simp
  show ?case
  proof (cases "n div 256 = 0")
    case True
    with 1 have "0 < n mod 256" by (auto simp: div_eq_0_iff)
    then have "(of_nat (n mod 256) :: byte) \<noteq> 0"
      by (simp add: word_of_nat_eq_0_iff nat_dvd_not_less)
    with True eq show ?thesis by simp
  next
    case False
    with 1 eq show ?thesis by simp
  qed
qed

section \<open>base64url\<close>

text \<open>The URL-safe alphabet \<open>A-Z a-z 0-9 - _\<close> by index.\<close>

definition b64_char :: "nat \<Rightarrow> char" where
  "b64_char i =
     (if i < 26 then char_of (i + 65)
      else if i < 52 then char_of (i + 71)
      else if i < 62 then char_of (i - 4)
      else if i = 62 then CHR ''-''
      else CHR ''_'')"

text \<open>The 6-bit groups of a byte string, the last one filled up with zero bits.\<close>

fun sextets :: "nat list \<Rightarrow> nat list" where
  "sextets [] = []"
| "sextets [a] = [a div 4, a mod 4 * 16]"
| "sextets [a, b] = [a div 4, a mod 4 * 16 + b div 16, b mod 16 * 4]"
| "sextets (a # b # c # r) =
     a div 4 # (a mod 4 * 16 + b div 16) # (b mod 16 * 4 + c div 64) # c mod 64 # sextets r"

text \<open>\<open>base64.urlsafe_b64encode(data)\<close>, and the same without its padding.\<close>

definition urlsafe_b64encode :: "bytes \<Rightarrow> string" where
  "urlsafe_b64encode bs =
     map b64_char (sextets (map unat bs))
       @ replicate ((3 - length bs mod 3) mod 3) (CHR ''='')"

definition b64u :: "bytes \<Rightarrow> string" where
  "b64u bs = rstrip (\<lambda>c. c = CHR ''='') (urlsafe_b64encode bs)"

text \<open>
  The value of a character after \<open>urlsafe_b64decode\<close> has translated \<open>-_\<close> to \<open>+/\<close>; both spellings of
  62 and 63 are therefore accepted.
\<close>

definition b64_value :: "char \<Rightarrow> nat option" where
  "b64_value c = (let n = code c in
     if 65 \<le> n \<and> n \<le> 90 then Some (n - 65)
     else if 97 \<le> n \<and> n \<le> 122 then Some (n - 71)
     else if 48 \<le> n \<and> n \<le> 57 then Some (n + 4)
     else if c = CHR ''-'' \<or> c = CHR ''+'' then Some 62
     else if c = CHR ''_'' \<or> c = CHR ''/'' then Some 63
     else None)"

text \<open>
  \<open>binascii.a2b_base64\<close> with its variables \<open>quad_pos\<close>, \<open>leftchar\<close> and \<open>pads\<close>; \<open>out\<close> counts the bytes
  written, for the message of the error.
\<close>

fun a2b :: "nat \<Rightarrow> nat \<Rightarrow> nat \<Rightarrow> nat \<Rightarrow> string \<Rightarrow> nat list res" where
  "a2b out q l p [] =
     (if q = 0 then Inr []
      else if q = 1 then raise (Builtin BinasciiError)
        (''Invalid base64-encoded string: number of data characters (''
          @ nat_str (out div 3 * 4 + 1) @ '') cannot be 1 more than a multiple of 4'')
      else raise (Builtin BinasciiError) ''Incorrect padding'')"
| "a2b out q l p (c # cs) =
     (if c = CHR ''='' then
        (if 2 \<le> q \<and> 4 \<le> q + Suc p then Inr []
         else a2b out q l (if 2 \<le> q then Suc p else p) cs)
      else (case b64_value c of
          None \<Rightarrow> a2b out q l p cs
        | Some v \<Rightarrow>
            (if q = 0 then a2b out 1 v 0 cs
             else if q = 1 then
               bind (a2b (Suc out) 2 (v mod 16) 0 cs) (\<lambda>r. Inr ((l * 4 + v div 16) # r))
             else if q = 2 then
               bind (a2b (Suc out) 3 (v mod 4) 0 cs) (\<lambda>r. Inr ((l * 16 + v div 4) # r))
             else bind (a2b (Suc out) 0 0 0 cs) (\<lambda>r. Inr ((l * 64 + v) # r)))))"

definition urlsafe_b64decode :: "string \<Rightarrow> bytes res" where
  "urlsafe_b64decode s =
     (if is_ascii s then bind (a2b 0 0 0 0 s) (\<lambda>ns. Inr (map of_nat ns))
      else raise (Builtin ValueError) ''string argument should contain only ASCII characters'')"

text \<open>\<open>base64.urlsafe_b64decode(s + "=" * (-len(s) % 4))\<close>.\<close>

definition b64u_decode :: "string \<Rightarrow> bytes res" where
  "b64u_decode s = urlsafe_b64decode (s @ replicate ((4 - length s mod 4) mod 4) (CHR ''=''))"

subsection \<open>Decoding inverts encoding\<close>

lemma b64_char_value [simp]: "i < 64 \<Longrightarrow> b64_value (b64_char i) = Some i"
  by (auto simp: b64_char_def b64_value_def Let_def)

lemma b64_char_code: "i < 64 \<Longrightarrow> code (b64_char i) < 128 \<and> code (b64_char i) \<noteq> 61"
  by (auto simp: b64_char_def)

lemma b64_char_not_pad [simp]: "i < 64 \<Longrightarrow> b64_char i \<noteq> CHR ''=''"
  using b64_char_code [of i] by auto

lemma two_sextets:
  fixes a b :: nat
  assumes "b < 256"
  shows "a mod 4 * 16 + b div 16 < 64" "b mod 16 * 4 + a mod 256 div 64 < 64"
    "(a mod 4 * 16 + b div 16) div 16 = a mod 4" "(a mod 4 * 16 + b div 16) mod 16 = b div 16"
proof -
  have m: "a mod 4 < 4" "b div 16 < 16" "b mod 16 < 16" "a mod 256 div 64 < 4"
    using assms by (simp_all add: less_mult_imp_div_less)
  then show "a mod 4 * 16 + b div 16 < 64" "b mod 16 * 4 + a mod 256 div 64 < 64"
    by linarith+
  show "(a mod 4 * 16 + b div 16) div 16 = a mod 4" "(a mod 4 * 16 + b div 16) mod 16 = b div 16"
    using m by simp_all
qed

lemma third_sextet:
  fixes b c :: nat
  assumes "c < 256"
  shows "b mod 16 * 4 + c div 64 < 64"
    "(b mod 16 * 4 + c div 64) div 4 = b mod 16" "(b mod 16 * 4 + c div 64) mod 4 = c div 64"
proof -
  have m: "b mod 16 < 16" "c div 64 < 4"
    using assms by (simp_all add: less_mult_imp_div_less)
  then show "b mod 16 * 4 + c div 64 < 64" by linarith
  show "(b mod 16 * 4 + c div 64) div 4 = b mod 16" "(b mod 16 * 4 + c div 64) mod 4 = c div 64"
    using m by simp_all
qed

lemma byte_sextets:
  fixes a :: nat
  assumes "a < 256"
  shows "a div 4 < 64" "a mod 4 * 16 < 64" "a mod 16 * 4 < 64"
  using assms mod_less_divisor [of 4 a] mod_less_divisor [of 16 a]
  by (simp_all add: less_mult_imp_div_less)

lemma high_bits:
  fixes b :: nat
  assumes "b < 256"
  shows "b div 16 div 16 = 0" "b div 16 mod 16 = b div 16" "b div 64 div 4 = 0"
    "b div 64 mod 4 = b div 64"
  using assms by (simp_all add: less_mult_imp_div_less flip: div_mult2_eq)

lemmas sextet_facts = two_sextets third_sextet byte_sextets high_bits

lemma sextets_less: "\<forall>n\<in>set ns. n < 256 \<Longrightarrow> \<forall>i\<in>set (sextets ns). i < 64"
  by (induction ns rule: sextets.induct) (auto simp: sextet_facts)

lemma sextets_length:
  "length (sextets ns) =
     4 * (length ns div 3) + (if length ns mod 3 = 0 then 0 else length ns mod 3 + 1)"
proof (induction ns rule: sextets.induct)
  case (4 a b c r)
  have "length (a # b # c # r) = length r + 3" by simp
  then have "length (a # b # c # r) div 3 = Suc (length r div 3)"
    "length (a # b # c # r) mod 3 = length r mod 3" by presburger+
  with 4 show ?case by simp
qed auto

text \<open>The decoder of the 6-bit groups, followed by \<open>k\<close> padding characters.\<close>

lemma a2b_sextets:
  assumes "\<forall>n\<in>set ns. n < 256"
    and "k = (3 - length ns mod 3) mod 3"
  shows "a2b out 0 0 0 (map b64_char (sextets ns) @ replicate k (CHR ''='')) = Inr ns"
  using assms
proof (induction ns arbitrary: out rule: sextets.induct)
  case 1
  then show ?case by simp
next
  case (2 a)
  then show ?case by (simp add: sextet_facts numeral_2_eq_2)
next
  case (3 a b)
  then show ?case by (simp add: sextet_facts)
next
  case (4 a b c r)
  have "length (a # b # c # r) = length r + 3" by simp
  then have "length (a # b # c # r) mod 3 = length r mod 3" by presburger
  with 4 have "k = (3 - length r mod 3) mod 3" by simp
  with 4 show ?case by (simp add: sextet_facts)
qed

lemma b64u_chars: "c \<in> set (map b64_char (sextets (map unat (bs :: bytes)))) \<Longrightarrow> code c < 128 \<and> c \<noteq> CHR ''=''"
  using sextets_less [of "map unat bs"] b64_char_code by auto

lemma b64u_eq: "b64u bs = map b64_char (sextets (map unat bs))"
proof -
  let ?m = "map b64_char (sextets (map unat bs))"
  have no: "CHR ''='' \<notin> set ?m"
    using b64u_chars by blast
  then show ?thesis unfolding b64u_def urlsafe_b64encode_def by (rule rstrip_pad)
qed

lemma b64u_ascii: "is_ascii (b64u bs)"
  using b64u_chars by (simp only: b64u_eq is_ascii_def list_all_iff) blast

lemma b64u_Nil_iff [simp]: "b64u bs = [] \<longleftrightarrow> bs = []"
proof -
  have "length (b64u bs) = 0 \<longleftrightarrow> length bs = 0"
    by (auto simp: b64u_eq sextets_length split: if_splits)
  then show ?thesis by simp
qed

lemma b64u_no_space: "c \<in> set (b64u bs) \<Longrightarrow> \<not> is_space c"
  using sextets_less [of "map unat bs"]
  by (auto simp: b64u_eq b64_char_def is_space_def Let_def)

theorem b64u_decode_b64u: "b64u_decode (b64u bs) = Inr bs"
proof -
  let ?n = "length bs"
  let ?k = "(3 - ?n mod 3) mod 3"
  have len: "length (b64u bs) = 4 * (?n div 3) + (if ?n mod 3 = 0 then 0 else ?n mod 3 + 1)"
    by (simp add: b64u_eq sextets_length)
  have "?n mod 3 = 0 \<or> ?n mod 3 = 1 \<or> ?n mod 3 = 2" by presburger
  then have pad: "(4 - length (b64u bs) mod 4) mod 4 = ?k"
    by (auto simp: len mod_simps)
  have "is_ascii (b64u bs @ replicate ?k (CHR ''=''))"
    using b64u_ascii by (simp, simp add: is_ascii_def list_all_iff)
  moreover have "a2b 0 0 0 0 (b64u bs @ replicate ?k (CHR ''='')) = Inr (map unat bs)"
    unfolding b64u_eq by (rule a2b_sextets) auto
  ultimately show ?thesis
    by (simp add: b64u_decode_def pad urlsafe_b64decode_def comp_def)
qed

corollary b64u_inj: "b64u a = b64u b \<longleftrightarrow> a = b"
  by (metis b64u_decode_b64u sum.inject(2))

lemma b64u_length_32: "length bs = 32 \<Longrightarrow> length (b64u bs) = 43"
  by (simp add: b64u_eq sextets_length)

end
