(* ===== verification/Externals.thy ===== *)
theory Externals
  imports Py_Codec
begin

text \<open>
  The code the SDK calls and does not contain: \<open>cryptography\<close> (Ed25519), PyJWT, \<open>hashlib\<close>, \<open>gzip\<close>,
  httpx, dnspython and pydantic's coercions. It is a record of functions, an argument of every
  definition that uses it; what a property needs to know about it is a hypothesis of that
  property. Pydantic's rules for models (which fields are read, in which order validators run,
  which exceptions they collect and which they let through) are written out here, because they
  decide which exceptions leave the SDK.
\<close>

section \<open>Responses of an HTTP client\<close>

text \<open>
  \<open>httpx.Response\<close> as far as the SDK reads it. Header look-up is by the exact name the SDK asks for;
  \<open>resp_json\<close> is what \<open>response.json()\<close> returns or raises.
\<close>

record http_response =
  status_code :: int
  resp_text :: string
  resp_content :: bytes
  resp_header :: "string \<Rightarrow> string option"
  resp_json :: "json res"

type_synonym headers = "(string \<times> string) list"

text \<open>
  A DNS answer: its resource data, a TXT record with the character strings it carries or data of
  another type.
\<close>

datatype rdata =
    TXT "bytes list"
  | OtherRdata

section \<open>The record of external functions\<close>

text \<open>
  A private key object is represented by its 32 raw bytes, the form in which the SDK loads and
  exports it. \<open>ed_load\<close> is the outcome of \<open>Ed25519PublicKey.from_public_bytes\<close>; \<open>as_int\<close> is pydantic's
  conversion of a decoded JSON value to \<open>int\<close>, \<open>None\<close> when it refuses; \<open>validation_text\<close> is the text of the
  \<open>ValidationError\<close> for a class name and an input; \<open>int_of_float\<close> is \<open>int(x)\<close> of the float with this \<open>repr\<close>;
  \<open>decode_utf8\<close> is \<open>bytes.decode("utf-8")\<close> and \<open>json_loads\<close>
  is \<open>json.loads\<close> on bytes.
\<close>

record jwt_options =
  opt_verify_exp :: bool
  opt_require :: "string list option"
  opt_audience :: "json option"
  opt_issuer :: "string option"
  opt_leeway :: int

record lib =
  pk_of_seed :: "bytes \<Rightarrow> bytes"
  ed_load :: "bytes \<Rightarrow> unit res"
  ed_sign :: "bytes \<Rightarrow> bytes \<Rightarrow> bytes"
  ed_verify :: "bytes \<Rightarrow> bytes \<Rightarrow> bytes \<Rightarrow> bool"
  jwt_encode :: "obj \<Rightarrow> bytes \<Rightarrow> obj \<Rightarrow> string res"
  jwt_decode :: "string \<Rightarrow> bytes \<Rightarrow> jwt_options \<Rightarrow> obj res"
  jwt_header :: "string \<Rightarrow> obj res"
  jwt_claims :: "string \<Rightarrow> obj res"
  sha256 :: "bytes \<Rightarrow> bytes"
  gzip_compress :: "bytes \<Rightarrow> bytes"
  gzip_decompress :: "bytes \<Rightarrow> bytes res"
  decode_utf8 :: "bytes \<Rightarrow> string res"
  json_loads :: "bytes \<Rightarrow> json res"
  as_int :: "json \<Rightarrow> int option"
  int_of_float :: "string \<Rightarrow> int res"
  validation_text :: "string \<Rightarrow> json \<Rightarrow> string"

section \<open>\<open>int(v)\<close> of a decoded value\<close>

fun type_name :: "json \<Rightarrow> string" where
  "type_name JNull = ''NoneType''"
| "type_name (JBool _) = ''bool''"
| "type_name (JInt _) = ''int''"
| "type_name (JFloat _) = ''float''"
| "type_name (JStr _) = ''str''"
| "type_name (JList _) = ''list''"
| "type_name (JObj _) = ''dict''"

definition int_json :: "lib \<Rightarrow> json \<Rightarrow> int res" where
  "int_json L v =
     (case v of
        JInt i \<Rightarrow> Inr i
      | JBool b \<Rightarrow> Inr (if b then 1 else 0)
      | JFloat t \<Rightarrow> int_of_float L t
      | JStr s \<Rightarrow> (case int_of_str s of
                     Some i \<Rightarrow> Inr i
                   | None \<Rightarrow> raise (Builtin ValueError) (''invalid literal for int() with base 10: '' @ repr s))
      | _ \<Rightarrow> raise (Builtin TypeError)
               (''int() argument must be a string, a bytes-like object or a real number, not '' @ repr (type_name v)))"

section \<open>Writing JSON\<close>

text \<open>\<open>json.dumps(value, separators=(",", ":"))\<close>, which escapes everything outside ASCII.\<close>

definition json_escape :: "char \<Rightarrow> string" where
  "json_escape c = (let n = code c in
     if n = 34 \<or> n = 92 then [CHR 0x5C, c]
     else if n = 8 then [CHR 0x5C, CHR ''b'']
     else if n = 9 then [CHR 0x5C, CHR ''t'']
     else if n = 10 then [CHR 0x5C, CHR ''n'']
     else if n = 12 then [CHR 0x5C, CHR ''f'']
     else if n = 13 then [CHR 0x5C, CHR ''r'']
     else if 32 \<le> n \<and> n \<le> 126 then [c]
     else [CHR 0x5C, CHR ''u'', CHR ''0'', CHR ''0'', hex_char (n div 16), hex_char (n mod 16)])"

definition json_quote :: "string \<Rightarrow> string" where
  "json_quote s = [CHR 0x22] @ concat (map json_escape s) @ [CHR 0x22]"

fun json_dumps :: "json \<Rightarrow> string" where
  "json_dumps JNull = ''null''"
| "json_dumps (JBool b) = (if b then ''true'' else ''false'')"
| "json_dumps (JInt i) = int_str i"
| "json_dumps (JFloat t) = t"
| "json_dumps (JStr s) = json_quote s"
| "json_dumps (JList vs) = ''['' @ join_with '','' (map json_dumps vs) @ '']''"
| "json_dumps (JObj ms) =
     ''{'' @ join_with '','' (map (\<lambda>(k, v). json_quote k @ '':'' @ json_dumps v) ms) @ ''}''"

section \<open>Pydantic models\<close>

text \<open>
  Outcome of validating one field: a value, an error that pydantic collects (wrong type, failed
  constraint, or a \<open>ValueError\<close> of a validator function), or an exception that is no \<open>ValueError\<close> and
  therefore leaves \<open>model_validate\<close> as it is.
\<close>

datatype 'a fres =
    FOk 'a
  | FErr
  | FRaise exn

text \<open>Fields are validated in order; collected errors do not stop the next field, an exception does.\<close>

fun fap :: "('a \<Rightarrow> 'b) fres \<Rightarrow> 'a fres \<Rightarrow> 'b fres" where
  "fap (FRaise e) _ = FRaise e"
| "fap FErr (FRaise e) = FRaise e"
| "fap FErr _ = FErr"
| "fap (FOk f) (FOk x) = FOk (f x)"
| "fap (FOk f) FErr = FErr"
| "fap (FOk f) (FRaise e) = FRaise e"

text \<open>A validator function applied to the value so far.\<close>

fun after_validator :: "('a \<Rightarrow> 'b res) \<Rightarrow> 'a fres \<Rightarrow> 'b fres" where
  "after_validator f (FOk x) =
     (case f x of Inr y \<Rightarrow> FOk y
      | Inl e \<Rightarrow> (if is_a e (Builtin ValueError) then FErr else FRaise e))"
| "after_validator f FErr = FErr"
| "after_validator f (FRaise e) = FRaise e"

definition constrain :: "('a \<Rightarrow> bool) \<Rightarrow> 'a fres \<Rightarrow> 'a fres" where
  "constrain p r = (case r of FOk x \<Rightarrow> (if p x then FOk x else FErr) | other \<Rightarrow> other)"

text \<open>
  The keys a field is read from (its alias and, with \<open>populate_by_name\<close>, its name; the first one present
  counts) and the members of the input that no field was read from.
\<close>

definition matched_key :: "obj \<Rightarrow> string list \<Rightarrow> string option" where
  "matched_key d ks = List.find (\<lambda>k. dict_get d k \<noteq> None) ks"

definition required_field :: "obj \<Rightarrow> string list \<Rightarrow> (json \<Rightarrow> 'a fres) \<Rightarrow> 'a fres" where
  "required_field d ks f =
     (case matched_key d ks of None \<Rightarrow> FErr | Some k \<Rightarrow> f (the (dict_get d k)))"

definition optional_field :: "obj \<Rightarrow> string list \<Rightarrow> 'a \<Rightarrow> (json \<Rightarrow> 'a fres) \<Rightarrow> 'a fres" where
  "optional_field d ks dflt f =
     (case matched_key d ks of None \<Rightarrow> FOk dflt | Some k \<Rightarrow> f (the (dict_get d k)))"

definition extra_members :: "obj \<Rightarrow> string list list \<Rightarrow> obj" where
  "extra_members d fs =
     filter (\<lambda>(k, v). k \<notin> set (List.map_filter (matched_key d) fs)) d"

text \<open>The types the SDK's models use, on a decoded JSON value.\<close>

fun v_str :: "json \<Rightarrow> string fres" where
  "v_str (JStr s) = FOk s"
| "v_str _ = FErr"

definition v_int :: "lib \<Rightarrow> json \<Rightarrow> int fres" where
  "v_int L j = (case as_int L j of Some i \<Rightarrow> FOk i | None \<Rightarrow> FErr)"

fun v_obj :: "json \<Rightarrow> obj fres" where
  "v_obj (JObj d) = FOk d"
| "v_obj _ = FErr"

definition v_optional :: "(json \<Rightarrow> 'a fres) \<Rightarrow> json \<Rightarrow> 'a option fres" where
  "v_optional f j = (if j = JNull then FOk None else fap (FOk Some) (f j))"

fun v_all :: "(json \<Rightarrow> 'a fres) \<Rightarrow> json list \<Rightarrow> 'a list fres" where
  "v_all f [] = FOk []"
| "v_all f (j # js) = fap (fap (FOk Cons) (f j)) (v_all f js)"

fun v_list :: "(json \<Rightarrow> 'a fres) \<Rightarrow> json \<Rightarrow> 'a list fres" where
  "v_list f (JList js) = v_all f js"
| "v_list f _ = FErr"

text \<open>The end of \<open>model_validate\<close>: collected errors become one \<open>ValidationError\<close>.\<close>

definition validated :: "lib \<Rightarrow> string \<Rightarrow> json \<Rightarrow> 'a fres \<Rightarrow> 'a res" where
  "validated L cls_name inp r =
     (case r of FOk x \<Rightarrow> Inr x
      | FErr \<Rightarrow> raise (Lib ValidationError) (validation_text L cls_name inp)
      | FRaise e \<Rightarrow> Inl e)"

subsection \<open>Facts\<close>

lemma fap_FOk_iff [res_simps]: "fap r s = FOk y \<longleftrightarrow> (\<exists>f x. r = FOk f \<and> s = FOk x \<and> y = f x)"
  by (cases "(r, s)" rule: fap.cases) auto

lemma after_validator_FOk_iff [res_simps]:
  "after_validator f r = FOk y \<longleftrightarrow> (\<exists>x. r = FOk x \<and> f x = Inr y)"
  by (cases r) (auto split: sum.splits if_splits)

lemma constrain_FOk_iff [res_simps]: "constrain p r = FOk x \<longleftrightarrow> r = FOk x \<and> p x"
  by (cases r) (auto simp: constrain_def)

lemma v_str_FOk_iff [res_simps]: "v_str j = FOk s \<longleftrightarrow> j = JStr s"
  by (cases j) auto

lemma v_int_FOk_iff [res_simps]: "v_int L j = FOk i \<longleftrightarrow> as_int L j = Some i"
  by (simp add: v_int_def split: option.splits)

lemma v_obj_FOk_iff [res_simps]: "v_obj j = FOk d \<longleftrightarrow> j = JObj d"
  by (cases j) auto

lemma validated_Inr_iff [res_simps]: "validated L c i r = Inr x \<longleftrightarrow> r = FOk x"
  by (cases r) (auto simp: validated_def)

lemma validated_Inl_iff [res_simps]:
  "validated L c i r = Inl e \<longleftrightarrow>
     r = FRaise e \<or> r = FErr \<and> e = Exn (Lib ValidationError) (validation_text L c i)"
  by (cases r) (auto simp: validated_def raise_def)

lemma required_field_FOk_iff:
  "required_field d ks f = FOk x \<longleftrightarrow> (\<exists>k. matched_key d ks = Some k \<and> f (the (dict_get d k)) = FOk x)"
  by (auto simp: required_field_def split: option.splits)

lemma required_field_single [res_simps]:
  "required_field d [k] f = FOk x \<longleftrightarrow> (\<exists>v. dict_get d k = Some v \<and> f v = FOk x)"
  by (auto simp: required_field_def matched_key_def split: option.splits)

lemma optional_field_single:
  "optional_field d [k] dflt f = (case dict_get d k of None \<Rightarrow> FOk dflt | Some v \<Rightarrow> f v)"
  by (auto simp: optional_field_def matched_key_def split: option.splits)

lemma matched_key_single: "matched_key d [k] = (if dict_get d k = None then None else Some k)"
  by (simp add: matched_key_def)

text \<open>A validator that can only raise a given class can only let that class through.\<close>

lemma fap_FRaise: "fap r s = FRaise e \<Longrightarrow> r = FRaise e \<or> s = FRaise e"
  by (cases "(r, s)" rule: fap.cases) auto

lemma constrain_FRaise [res_simps]: "constrain p r = FRaise e \<longleftrightarrow> r = FRaise e"
  by (auto simp: constrain_def split: fres.splits)

lemma after_validator_FRaise [res_simps]:
  "after_validator f r = FRaise e \<longleftrightarrow>
     r = FRaise e \<or> (\<exists>x. r = FOk x \<and> f x = Inl e \<and> \<not> is_a e (Builtin ValueError))"
  by (cases r) (auto split: sum.splits if_splits)

lemma v_no_raise [simp]: "v_str j \<noteq> FRaise e" "v_int L j \<noteq> FRaise e" "v_obj j \<noteq> FRaise e"
  by (cases j; simp add: v_int_def split: option.splits)+

lemma required_field_FRaise:
  "required_field d ks f = FRaise e \<Longrightarrow> \<exists>j. f j = FRaise e"
  by (auto simp: required_field_def split: option.splits)

lemma optional_field_FRaise:
  "optional_field d ks dflt f = FRaise e \<Longrightarrow> \<exists>j. f j = FRaise e"
  by (auto simp: optional_field_def split: option.splits)

lemma v_all_FOk_iff: "v_all f js = FOk xs \<longleftrightarrow> list_all2 (\<lambda>j x. f j = FOk x) js xs"
proof (induction js arbitrary: xs)
  case Nil
  then show ?case by auto
next
  case (Cons j js)
  then show ?case by (cases xs) (auto simp: res_simps)
qed

lemma v_all_no_raise: "(\<And>j. f j \<noteq> FRaise e) \<Longrightarrow> v_all f js \<noteq> FRaise e"
  by (induction js) (auto dest!: fap_FRaise)

section \<open>A concrete instance\<close>

text \<open>
  External functions simple enough to evaluate, for concrete instances of the properties: public
  keys equal seeds, a signature is the key followed by the message, the hash is the identity.
\<close>

fun plain_int :: "json \<Rightarrow> int option" where
  "plain_int (JInt i) = Some i"
| "plain_int _ = None"

definition toy_lib :: lib where
  "toy_lib =
     \<lparr>pk_of_seed = id, ed_load = (\<lambda>_. Inr ()), ed_sign = (@), ed_verify = (\<lambda>pk sig m. sig = pk @ m),
      jwt_encode = (\<lambda>_ _ _. raise (Lib PyJWTError) ''''), jwt_decode = (\<lambda>_ _ _. raise (Lib PyJWTError) ''''),
      jwt_header = (\<lambda>_. raise (Lib PyJWTError) ''''), jwt_claims = (\<lambda>_. raise (Lib PyJWTError) ''''),
      sha256 = id, gzip_compress = id, gzip_decompress = Inr,
      decode_utf8 = (\<lambda>b. Inr (map char_of_byte b)),
      json_loads = (\<lambda>_. raise (Builtin JSONDecodeError) ''''), as_int = plain_int,
      int_of_float = (\<lambda>_. Inr 0),
      validation_text = (\<lambda>_ _. ''validation error'')\<rparr>"

end
