(* ===== verification/Keys.thy ===== *)
theory Keys
  imports Externals
begin

text \<open>
  Ed25519 key pairs and JWS signing, from \<open>python-sdk/src/shadownet/crypto/ed25519.py\<close> and
  \<open>crypto/jwt.py\<close>: construction and export of keys, signing and verification, and the wrapping of
  PyJWT's exceptions. Shown here: keys survive export and import, and a signature that verifies is
  one that the underlying library accepts for exactly the signed bytes.
\<close>

section \<open>Key pairs (\<open>ed25519.py\<close>)\<close>

text \<open>
  The dataclass: the public bytes and, for a full pair, the private key by its raw bytes.
\<close>

record Ed25519KeyPair =
  public_bytes :: bytes
  private_raw :: "bytes option"

definition key_signature_error :: "string \<Rightarrow> 'a res" where
  "key_signature_error m = raise (Sdk KeySignatureError) m"

text \<open>\<open>generate\<close>, for the random private bytes that the library drew.\<close>

definition generate :: "lib \<Rightarrow> bytes \<Rightarrow> Ed25519KeyPair" where
  "generate L sk = \<lparr>public_bytes = pk_of_seed L sk, private_raw = Some sk\<rparr>"

definition from_seed :: "lib \<Rightarrow> bytes \<Rightarrow> Ed25519KeyPair res" where
  "from_seed L seed =
     (if length seed \<noteq> 32 then key_signature_error ''Ed25519 seed must be exactly 32 bytes''
      else Inr \<lparr>public_bytes = pk_of_seed L seed, private_raw = Some seed\<rparr>)"

definition from_public_bytes :: "lib \<Rightarrow> bytes \<Rightarrow> Ed25519KeyPair res" where
  "from_public_bytes L b =
     (if length b \<noteq> 32 then key_signature_error ''Ed25519 public key must be exactly 32 bytes''
      else bind (ed_load L b) (\<lambda>_. Inr \<lparr>public_bytes = b, private_raw = None\<rparr>))"

definition from_jwk :: "lib \<Rightarrow> obj \<Rightarrow> Ed25519KeyPair res" where
  "from_jwk L jwk =
     (if dict_get jwk ''kty'' \<noteq> Some (JStr ''OKP'') \<or> dict_get jwk ''crv'' \<noteq> Some (JStr ''Ed25519'')
      then key_signature_error ''JWK is not an Ed25519 OKP key''
      else (case dict_get jwk ''x'' of
          Some (JStr x) \<Rightarrow>
            bind (b64u_decode x) (\<lambda>public.
              (case dict_get jwk ''d'' of
                 None \<Rightarrow> from_public_bytes L public
               | Some JNull \<Rightarrow> from_public_bytes L public
               | Some (JStr d) \<Rightarrow> bind (b64u_decode d) (from_seed L)
               | Some _ \<Rightarrow> key_signature_error (''JWK '' @ repr ''d'' @ '' must be a string'')))
        | _ \<Rightarrow> key_signature_error (''JWK missing '' @ repr ''x'')))"

definition has_private :: "Ed25519KeyPair \<Rightarrow> bool" where
  "has_private k = (private_raw k \<noteq> None)"

text \<open>\<open>public_key\<close>: the library's key object, which is its bytes once they load.\<close>

definition public_key :: "lib \<Rightarrow> Ed25519KeyPair \<Rightarrow> bytes res" where
  "public_key L k = bind (ed_load L (public_bytes k)) (\<lambda>_. Inr (public_bytes k))"

definition private_key :: "Ed25519KeyPair \<Rightarrow> bytes res" where
  "private_key k =
     (case private_raw k of
        None \<Rightarrow> key_signature_error ''private key not available on this keypair''
      | Some sk \<Rightarrow> Inr sk)"

definition public_jwk :: "Ed25519KeyPair \<Rightarrow> obj" where
  "public_jwk k =
     [(''kty'', JStr ''OKP''), (''crv'', JStr ''Ed25519''), (''x'', JStr (b64u (public_bytes k)))]"

definition private_jwk :: "Ed25519KeyPair \<Rightarrow> obj res" where
  "private_jwk k =
     (case private_raw k of
        None \<Rightarrow> key_signature_error ''private key not available on this keypair''
      | Some seed \<Rightarrow> Inr (dict_set ''d'' (JStr (b64u seed)) (public_jwk k)))"

definition sign :: "lib \<Rightarrow> Ed25519KeyPair \<Rightarrow> bytes \<Rightarrow> bytes res" where
  "sign L k message =
     (case private_raw k of
        None \<Rightarrow> key_signature_error ''cannot sign with a public-only keypair''
      | Some sk \<Rightarrow> Inr (ed_sign L sk message))"

definition verify :: "lib \<Rightarrow> Ed25519KeyPair \<Rightarrow> bytes \<Rightarrow> bytes \<Rightarrow> unit res" where
  "verify L k signature message =
     rewrap (bind (public_key L k) (\<lambda>pk. guard (ed_verify L pk signature message) (Lib InvalidSignature) ''''))
       (Lib InvalidSignature) (Sdk KeySignatureError) (\<lambda>_. ''signature verification failed'')"

section \<open>JWS (\<open>jwt.py\<close>)\<close>

definition DEFAULT_HEADER :: obj where
  "DEFAULT_HEADER = [(''alg'', JStr ''EdDSA''), (''typ'', JStr ''JWT'')]"

definition sign_jwt :: "lib \<Rightarrow> obj \<Rightarrow> Ed25519KeyPair \<Rightarrow> obj option \<Rightarrow> string res" where
  "sign_jwt L claims key header_extras =
     (let headers = (case header_extras of
                       Some h \<Rightarrow> (if h \<noteq> [] then dict_update DEFAULT_HEADER h else DEFAULT_HEADER)
                     | None \<Rightarrow> DEFAULT_HEADER)
      in bind (private_key key) (\<lambda>sk. jwt_encode L claims sk headers))"

text \<open>\<open>except PyJWTError as exc: raise JWTError(str(exc))\<close>.\<close>

definition wrap_pyjwt :: "'a res \<Rightarrow> 'a res" where
  "wrap_pyjwt r = rewrap r (Lib PyJWTError) (Sdk JWTError) id"

definition verify_jwt ::
  "lib \<Rightarrow> string \<Rightarrow> Ed25519KeyPair \<Rightarrow> json option \<Rightarrow> string option \<Rightarrow> int \<Rightarrow> string list option \<Rightarrow> bool \<Rightarrow> obj res"
where
  "verify_jwt L token key aud iss lw req vexp =
     (let options = \<lparr>opt_verify_exp = vexp,
                     opt_require = (case req of Some (r # rs) \<Rightarrow> Some (r # rs) | _ \<Rightarrow> None),
                     opt_audience = aud, opt_issuer = iss, opt_leeway = lw\<rparr>
      in wrap_pyjwt (bind (public_key L key) (\<lambda>pk. jwt_decode L token pk options)))"

definition decode_header :: "lib \<Rightarrow> string \<Rightarrow> obj res" where
  "decode_header L token = wrap_pyjwt (jwt_header L token)"

definition decode_unverified_claims :: "lib \<Rightarrow> string \<Rightarrow> obj res" where
  "decode_unverified_claims L token = wrap_pyjwt (jwt_claims L token)"

section \<open>JWS signatures\<close>

text \<open>
  \<open>_verify_jws_signature\<close>, which \<open>credential.py\<close>, \<open>envelope.py\<close> and \<open>csr.py\<close> each define with the same
  body: the signature is the third part, over the first two parts as they stand.
\<close>

definition verify_jws_signature :: "lib \<Rightarrow> string \<Rightarrow> Ed25519KeyPair \<Rightarrow> unit res" where
  "verify_jws_signature L token key =
     (case split_on (CHR ''.'') token of
        [h, p, s] \<Rightarrow>
          bind (encode_ascii (h @ ''.'' @ p)) (\<lambda>signing_input.
          bind (b64u_decode s) (\<lambda>sig. verify L key sig signing_input))
      | _ \<Rightarrow> raise (Sdk JWTError) ''malformed JWS compact serialization'')"

text \<open>
  What it means for a token to carry a signature under a public key: three parts, ASCII, and the
  library accepts the decoded third part for the bytes of the first two.
\<close>

definition signed_by :: "lib \<Rightarrow> string \<Rightarrow> bytes \<Rightarrow> bool" where
  "signed_by L token pk =
     (\<exists>h p s si sig. split_on (CHR ''.'') token = [h, p, s] \<and> encode_ascii (h @ ''.'' @ p) = Inr si
        \<and> b64u_decode s = Inr sig \<and> ed_verify L pk sig si)"

subsection \<open>Facts\<close>

lemma public_key_Inr_iff [res_simps]: "public_key L k = Inr b \<longleftrightarrow> ed_load L (public_bytes k) = Inr () \<and> b = public_bytes k"
  by (auto simp: public_key_def res_simps)

lemma verify_Inr_iff [res_simps]:
  "verify L k sig m = Inr u \<longleftrightarrow> ed_load L (public_bytes k) = Inr () \<and> ed_verify L (public_bytes k) sig m"
  by (auto simp: verify_def res_simps)

lemma from_public_bytes_Inr_iff [res_simps]:
  "from_public_bytes L b = Inr k \<longleftrightarrow>
     length b = 32 \<and> ed_load L b = Inr () \<and> k = \<lparr>public_bytes = b, private_raw = None\<rparr>"
  by (auto simp: from_public_bytes_def key_signature_error_def res_simps)

lemma from_seed_Inr_iff [res_simps]:
  "from_seed L s = Inr k \<longleftrightarrow> length s = 32 \<and> k = \<lparr>public_bytes = pk_of_seed L s, private_raw = Some s\<rparr>"
  by (auto simp: from_seed_def key_signature_error_def)

lemma wrap_pyjwt_Inr_iff [res_simps]: "wrap_pyjwt r = Inr x \<longleftrightarrow> r = Inr x"
  by (simp add: wrap_pyjwt_def res_simps)

lemma decode_header_Inr_iff [res_simps]: "decode_header L t = Inr h \<longleftrightarrow> jwt_header L t = Inr h"
  by (simp add: decode_header_def res_simps)

lemma decode_unverified_claims_Inr_iff [res_simps]:
  "decode_unverified_claims L t = Inr h \<longleftrightarrow> jwt_claims L t = Inr h"
  by (simp add: decode_unverified_claims_def res_simps)

lemma verify_jws_signature_Inr:
  "verify_jws_signature L t k = Inr u \<longleftrightarrow>
     ed_load L (public_bytes k) = Inr () \<and> signed_by L t (public_bytes k)"
proof -
  consider (three) h p s where "split_on (CHR ''.'') t = [h, p, s]"
    | (other) "\<And>h p s. split_on (CHR ''.'') t \<noteq> [h, p, s]" by blast
  then show ?thesis
  proof cases
    case three
    then show ?thesis by (auto simp: verify_jws_signature_def signed_by_def res_simps)
  next
    case other
    then show ?thesis
      by (auto simp: verify_jws_signature_def signed_by_def split: list.splits)
  qed
qed

text \<open>The three-part test of a token is the count of its dots.\<close>

lemma three_parts_iff:
  "(\<exists>h p s. split_on (CHR ''.'') t = [h, p, s]) \<longleftrightarrow> count_list t (CHR ''.'') = 2"
proof -
  have "length (split_on (CHR ''.'') t) = Suc (count_list t (CHR ''.''))" by (rule length_split_on)
  moreover have "(\<exists>h p s. xs = [h, p, s]) \<longleftrightarrow> length xs = 3" for xs :: "string list"
    by (auto simp: numeral_3_eq_3 length_Suc_conv)
  ultimately show ?thesis by simp
qed

text \<open>
  Exported keys import unchanged: the private JWK of a key made from a seed gives back the full
  pair, and the public JWK gives back the verifier for the same public bytes (which have to be 32
  bytes the library loads).
\<close>

theorem jwk_roundtrip:
  assumes "from_seed L seed = Inr k"
  shows "bind (private_jwk k) (from_jwk L) = Inr k
    \<and> (length (pk_of_seed L seed) = 32 \<and> ed_load L (pk_of_seed L seed) = Inr () \<longrightarrow>
         from_jwk L (public_jwk k) = Inr (k\<lparr>private_raw := None\<rparr>))"
  using assms
  by (auto simp: from_jwk_def private_jwk_def public_jwk_def res_simps b64u_decode_b64u)

section \<open>What PyJWT promises\<close>

text \<open>
  Documented behaviour of \<open>jwt.encode\<close> for one call: the token it returns has the headers it was
  given and the claims it was given, and it is signed with the key it was given.
\<close>

definition jwt_encodes :: "lib \<Rightarrow> obj \<Rightarrow> bytes \<Rightarrow> obj \<Rightarrow> bool" where
  "jwt_encodes L claims sk headers =
     (\<forall>token. jwt_encode L claims sk headers = Inr token \<longrightarrow>
        (\<exists>h. jwt_header L token = Inr h \<and> (\<forall>k. dict_get h k = dict_get headers k))
        \<and> jwt_claims L token = Inr claims \<and> signed_by L token (pk_of_seed L sk))"

text \<open>Two headers that the SDK signs with: the default one with members replaced or added.\<close>

lemma dict_update_append: "distinct (map fst (d @ e)) \<Longrightarrow> dict_update d e = d @ e"
proof (induction e arbitrary: d)
  case Nil
  then show ?case by (simp add: dict_update_def)
next
  case (Cons p e)
  obtain k v where p: "p = (k, v)" by force
  have "k \<notin> fst ` set d" using Cons.prems p by auto
  then have "dict_set k v d = d @ [(k, v)]" by (induction d) auto
  then have "dict_update d (p # e) = dict_update (d @ [p]) e"
    by (simp add: dict_update_def p)
  also have "\<dots> = (d @ [p]) @ e" using Cons.prems by (intro Cons.IH) simp
  finally show ?case by simp
qed

end
