(* ===== verification/Multibase.thy ===== *)
theory Multibase
  imports Py_Codec
begin

text \<open>
  Base58btc multibase strings, from \<open>python-sdk/src/shadownet/crypto/multibase.py\<close>. The encoder's
  division loop and the decoder's accumulation loop are recursive functions. Encoding and decoding
  are inverse to each other in both directions: every byte string survives the round trip, and a
  string that decodes at all is the one encoding of its bytes, so a key has one spelling.
\<close>

section \<open>The code\<close>

definition ED25519_PUB_MULTICODEC :: bytes where
  "ED25519_PUB_MULTICODEC = [0xed, 0x01]"

definition BASE58_ALPHABET :: string where
  "BASE58_ALPHABET = ''123456789ABCDEFGHJKLMNPQRSTUVWXYZabcdefghijkmnopqrstuvwxyz''"

definition BASE58_INDEX :: "char \<Rightarrow> nat option" where
  "BASE58_INDEX c = map_of (zip BASE58_ALPHABET [0..<length BASE58_ALPHABET]) c"

text \<open>The loop of \<open>_b58encode\<close>: \<open>while n > 0\<close>, prepending one digit per round.\<close>

function b58encode_loop :: "nat \<Rightarrow> string \<Rightarrow> string" where
  "b58encode_loop n encoded =
     (if n > 0 then b58encode_loop (n div 58) (BASE58_ALPHABET ! (n mod 58) # encoded) else encoded)"
  by pat_completeness auto
termination
  by (relation "measure fst") auto

declare b58encode_loop.simps [simp del]

definition b58encode :: "bytes \<Rightarrow> string" where
  "b58encode data =
     (if data = [] then ''''
      else
        (let n = from_bytes data;
             encoded = b58encode_loop n '''';
             leading = length data - length (lstrip (\<lambda>b. b = 0) data)
         in replicate leading (BASE58_ALPHABET ! 0) @ encoded))"

text \<open>The loop of \<open>_b58decode\<close> over the characters of the value.\<close>

fun b58decode_loop :: "nat \<Rightarrow> string \<Rightarrow> nat res" where
  "b58decode_loop n [] = Inr n"
| "b58decode_loop n (ch # rest) =
     (case BASE58_INDEX ch of
        None \<Rightarrow> raise (Builtin ValueError) (''invalid base58 character: '' @ repr [ch])
      | Some i \<Rightarrow> b58decode_loop (n * 58 + i) rest)"

definition b58decode :: "string \<Rightarrow> bytes res" where
  "b58decode value =
     (if value = '''' then Inr []
      else bind (b58decode_loop 0 value) (\<lambda>n.
        let full = (if n \<noteq> 0 then to_bytes n else []);
            leading = length value - length (lstrip (\<lambda>c. c = BASE58_ALPHABET ! 0) value)
        in Inr (replicate leading 0 @ full)))"

definition encode_multibase_z :: "bytes \<Rightarrow> string" where
  "encode_multibase_z data = ''z'' @ b58encode data"

definition decode_multibase_z :: "string \<Rightarrow> bytes res" where
  "decode_multibase_z value =
     (if \<not> prefix ''z'' value
      then raise (Sdk MultibaseDecodeError) (''expected base58btc multibase prefix '' @ repr ''z'')
      else rewrap (b58decode (drop 1 value)) (Builtin ValueError) (Sdk MultibaseDecodeError) id)"

definition with_multicodec :: "bytes \<Rightarrow> bytes \<Rightarrow> bytes" where
  "with_multicodec pre payload = pre @ payload"

definition hex_bytes :: "bytes \<Rightarrow> string" where
  "hex_bytes bs = concat (map (\<lambda>b. [hex_char (unat b div 16), hex_char (unat b mod 16)]) bs)"

definition strip_multicodec :: "bytes \<Rightarrow> bytes \<Rightarrow> bytes res" where
  "strip_multicodec pre value =
     (if \<not> prefix pre value
      then raise (Sdk MultibaseDecodeError) (''missing multicodec prefix '' @ hex_bytes pre)
      else Inr (drop (length pre) value))"

section \<open>The alphabet\<close>

lemma alphabet_length [simp]: "length BASE58_ALPHABET = 58"
  by (simp add: BASE58_ALPHABET_def)

lemma alphabet_distinct [simp]: "distinct BASE58_ALPHABET"
  by (simp add: BASE58_ALPHABET_def)

lemma alphabet_0: "BASE58_ALPHABET ! 0 = CHR ''1''"
  by (simp add: BASE58_ALPHABET_def)

lemma index_nth [simp]: "i < 58 \<Longrightarrow> BASE58_INDEX (BASE58_ALPHABET ! i) = Some i"
  by (simp add: BASE58_INDEX_def map_of_zip_nth)

lemma index_SomeD: "BASE58_INDEX c = Some i \<Longrightarrow> i < 58 \<and> BASE58_ALPHABET ! i = c"
  by (auto simp: BASE58_INDEX_def in_set_zip dest!: map_of_SomeD)

section \<open>Digits and values\<close>

text \<open>The base-58 digits of \<open>n\<close> without leading zeros, and the value of a list of digits.\<close>

fun b58_digits :: "nat \<Rightarrow> nat list" where
  "b58_digits n = (if n = 0 then [] else b58_digits (n div 58) @ [n mod 58])"

declare b58_digits.simps [simp del]

definition b58_value :: "nat list \<Rightarrow> nat" where
  "b58_value ds = foldl (\<lambda>n d. n * 58 + d) 0 ds"

lemma b58_digits_0 [simp]: "b58_digits 0 = []"
  by (subst b58_digits.simps) simp

lemma b58_digits_pos: "0 < n \<Longrightarrow> b58_digits n = b58_digits (n div 58) @ [n mod 58]"
  by (subst b58_digits.simps) simp

lemma b58_digits_less: "d \<in> set (b58_digits n) \<Longrightarrow> d < 58"
proof (induction n rule: b58_digits.induct)
  case (1 n)
  then show ?case by (cases "n = 0") (auto simp: b58_digits_pos)
qed

lemma b58_digits_snoc: "0 < n \<or> 0 < d \<Longrightarrow> d < 58 \<Longrightarrow> b58_digits (n * 58 + d) = b58_digits n @ [d]"
  by (subst b58_digits.simps) auto

lemma b58_value_Nil [simp]: "b58_value [] = 0"
  by (simp add: b58_value_def)

lemma b58_value_snoc [simp]: "b58_value (ds @ [d]) = b58_value ds * 58 + d"
  by (simp add: b58_value_def)

lemma b58_value_digits [simp]: "b58_value (b58_digits n) = n"
proof (induction n rule: b58_digits.induct)
  case (1 n)
  then show ?case by (cases "n = 0") (simp_all add: b58_digits_pos)
qed

lemma b58_value_eq_0: "b58_value ds = 0 \<longleftrightarrow> list_all (\<lambda>d. d = 0) ds"
  by (induction ds rule: rev_induct) auto

lemma b58_digits_value: "\<forall>d\<in>set ds. d < 58 \<Longrightarrow> b58_digits (b58_value ds) = dropWhile (\<lambda>d. d = 0) ds"
proof (induction ds rule: rev_induct)
  case Nil
  then show ?case by simp
next
  case (snoc d ds)
  show ?case
  proof (cases "list_all (\<lambda>d. d = 0) ds")
    case True
    then have "b58_value ds = 0" by (simp add: b58_value_eq_0)
    moreover have "dropWhile (\<lambda>d. d = 0) (ds @ [d]) = dropWhile (\<lambda>d. d = 0) [d]"
      using True by (simp add: dropWhile_append2 list_all_iff)
    ultimately show ?thesis
      using snoc.prems b58_digits_snoc [of 0 d] by (cases "d = 0") auto
  next
    case False
    then have "0 < b58_value ds" using b58_value_eq_0 by blast
    moreover have "dropWhile (\<lambda>d. d = 0) (ds @ [d]) = dropWhile (\<lambda>d. d = 0) ds @ [d]"
      using False by (auto simp: list_all_iff dropWhile_append)
    ultimately show ?thesis
      using snoc by (simp add: b58_digits_snoc)
  qed
qed

lemma b58_digits_hd: "b58_digits n \<noteq> [] \<Longrightarrow> hd (b58_digits n) \<noteq> 0"
proof (induction n rule: b58_digits.induct)
  case (1 n)
  then have n: "0 < n" by (cases "n = 0") auto
  show ?case
  proof (cases "n div 58 = 0")
    case True
    with n show ?thesis by (simp add: b58_digits_pos div_eq_0_iff)
  next
    case False
    then have "b58_digits (n div 58) \<noteq> []" by (simp add: b58_digits_pos)
    with 1 n show ?thesis by (simp add: b58_digits_pos [OF n])
  qed
qed

text \<open>The loops compute digits and values.\<close>

lemma b58encode_loop_eq:
  "b58encode_loop n acc = map (\<lambda>d. BASE58_ALPHABET ! d) (b58_digits n) @ acc"
proof (induction n acc rule: b58encode_loop.induct)
  case (1 n acc)
  then show ?case
    by (subst b58encode_loop.simps) (simp add: b58_digits_pos)
qed

lemma b58decode_loop_map:
  "\<forall>d\<in>set ds. d < 58 \<Longrightarrow>
     b58decode_loop n (map (\<lambda>d. BASE58_ALPHABET ! d) ds) = Inr (foldl (\<lambda>n d. n * 58 + d) n ds)"
  by (induction ds arbitrary: n) auto

lemma b58decode_loop_valid:
  "b58decode_loop n v = Inr m \<Longrightarrow>
     \<exists>ds. v = map (\<lambda>d. BASE58_ALPHABET ! d) ds \<and> (\<forall>d\<in>set ds. d < 58)"
proof (induction v arbitrary: n)
  case Nil
  then show ?case by simp
next
  case (Cons c v)
  then obtain i where i: "BASE58_INDEX c = Some i" and r: "b58decode_loop (n * 58 + i) v = Inr m"
    by (auto split: option.splits)
  from Cons.IH [OF r] obtain ds where "v = map (\<lambda>d. BASE58_ALPHABET ! d) ds" "\<forall>d\<in>set ds. d < 58"
    by blast
  with index_SomeD [OF i] show ?case by (intro exI [of _ "i # ds"]) auto
qed

lemma alphabet_nth_eq_0: "d < 58 \<Longrightarrow> BASE58_ALPHABET ! d = BASE58_ALPHABET ! 0 \<longleftrightarrow> d = 0"
  by (simp add: nth_eq_iff_index_eq)

lemma lstrip_alphabet:
  "\<forall>d\<in>set ds. d < 58 \<Longrightarrow>
     lstrip (\<lambda>c. c = BASE58_ALPHABET ! 0) (map (\<lambda>d. BASE58_ALPHABET ! d) ds)
       = map (\<lambda>d. BASE58_ALPHABET ! d) (dropWhile (\<lambda>d. d = 0) ds)"
  unfolding lstrip_def by (induction ds) (auto simp: alphabet_nth_eq_0)

section \<open>Round trips\<close>

text \<open>A list is its leading zeros followed by what \<open>lstrip\<close> leaves.\<close>

lemma leading_split:
  "replicate (length xs - length (dropWhile (\<lambda>x. x = z) xs)) z @ dropWhile (\<lambda>x. x = z) xs = xs"
proof (induction xs)
  case (Cons x xs)
  then show ?case by (simp add: Suc_diff_le length_dropWhile_le)
qed simp

lemma dropWhile_replicate: "xs = [] \<or> hd xs \<noteq> z \<Longrightarrow> dropWhile (\<lambda>x. x = z) (replicate k z @ xs) = xs"
  by (induction k) (auto simp: dropWhile_eq_self_iff)

lemma foldl_zeros: "foldl (\<lambda>n d. n * 58 + d) (0::nat) (replicate k 0 @ ds) = foldl (\<lambda>n d. n * 58 + d) 0 ds"
  by (induction k) auto

lemma b58encode_digits:
  "b58encode data =
     map (\<lambda>d. BASE58_ALPHABET ! d)
       (replicate (length data - length (dropWhile (\<lambda>b. b = 0) data)) 0 @ b58_digits (from_bytes data))"
  by (auto simp: b58encode_def lstrip_def b58encode_loop_eq Let_def)

lemma b58decode_digits:
  assumes "\<forall>d\<in>set ds. d < 58"
  shows "b58decode (map (\<lambda>d. BASE58_ALPHABET ! d) ds) =
    Inr (replicate (length ds - length (dropWhile (\<lambda>d. d = 0) ds)) 0 @ to_bytes (b58_value ds))"
  using assms
  by (auto simp: b58decode_def b58decode_loop_map lstrip_alphabet b58_value_def)

theorem b58decode_encode: "b58decode (b58encode data) = Inr data"
proof -
  let ?k = "length data - length (dropWhile (\<lambda>b. b = 0) data)"
  let ?ds = "replicate ?k 0 @ b58_digits (from_bytes data)"
  have less: "\<forall>d\<in>set ?ds. d < 58" by (auto dest: b58_digits_less)
  have "dropWhile (\<lambda>d. d = 0) ?ds = b58_digits (from_bytes data)"
    by (rule dropWhile_replicate) (use b58_digits_hd in blast)
  moreover have "b58_value ?ds = from_bytes data"
    by (metis b58_value_def b58_value_digits foldl_zeros)
  ultimately have "b58decode (b58encode data) = Inr (replicate ?k 0 @ to_bytes (from_bytes data))"
    by (simp add: b58encode_digits b58decode_digits [OF less] del: map_append)
  then show ?thesis by (simp add: to_from_bytes lstrip_def leading_split)
qed

theorem b58encode_decode:
  assumes "b58decode v = Inr data"
  shows "b58encode data = v"
proof -
  obtain ds where v: "v = map (\<lambda>d. BASE58_ALPHABET ! d) ds" and less: "\<forall>d\<in>set ds. d < 58"
    using assms b58decode_loop_valid
    by (cases "v = []") (fastforce simp: b58decode_def res_simps)+
  let ?k = "length ds - length (dropWhile (\<lambda>d. d = 0) ds)"
  have data: "data = replicate ?k 0 @ to_bytes (b58_value ds)"
    using assms by (simp add: v b58decode_digits [OF less])
  have hd: "to_bytes (b58_value ds) = [] \<or> hd (to_bytes (b58_value ds)) \<noteq> 0"
    by (metis gr0I to_bytes_0 to_bytes_hd)
  then have dw: "dropWhile (\<lambda>b. b = 0) data = to_bytes (b58_value ds)"
    unfolding data by (rule dropWhile_replicate)
  have "from_bytes data = from_bytes (lstrip (\<lambda>b. b = 0) data)"
    by (metis from_to_bytes to_from_bytes)
  then have "from_bytes data = b58_value ds" by (simp add: lstrip_def dw)
  moreover have "length data - length (dropWhile (\<lambda>b. b = 0) data) = ?k"
    unfolding dw by (simp add: data)
  ultimately show ?thesis
    by (simp only: b58encode_digits b58_digits_value [OF less] leading_split v)
qed

text \<open>
  Base58btc multibase decoding is exactly the inverse of encoding: a string decodes to given bytes
  if and only if it is the encoding of those bytes. So every byte string round-trips, and no two
  strings decode to the same key.
\<close>

theorem decode_multibase_z_iff: "decode_multibase_z v = Inr d \<longleftrightarrow> v = encode_multibase_z d"
proof
  assume "decode_multibase_z v = Inr d"
  then obtain w where "v = CHR ''z'' # w" "b58decode w = Inr d"
    by (auto simp: decode_multibase_z_def res_simps prefix_def split: if_splits)
  then show "v = encode_multibase_z d"
    by (simp add: encode_multibase_z_def b58encode_decode)
next
  assume "v = encode_multibase_z d"
  then show "decode_multibase_z v = Inr d"
    by (simp add: decode_multibase_z_def encode_multibase_z_def b58decode_encode)
qed

lemma decode_encode_multibase_z [simp]: "decode_multibase_z (encode_multibase_z d) = Inr d"
  by (simp add: decode_multibase_z_def encode_multibase_z_def b58decode_encode)

lemma decode_multibase_z_unique: "decode_multibase_z v = Inr d \<Longrightarrow> v = encode_multibase_z d"
  by (auto simp: decode_multibase_z_def encode_multibase_z_def res_simps prefix_def b58encode_decode
      split: if_splits)

text \<open>Every failure of the decoder is a \<open>MultibaseDecodeError\<close>, as the \<open>except ValueError\<close> intends.\<close>

lemma b58decode_loop_error:
  "b58decode_loop n v = Inl e \<Longrightarrow> cls e = Builtin ValueError"
  by (induction n v rule: b58decode_loop.induct) (auto simp: res_simps split: option.splits)

lemma b58decode_error: "b58decode v = Inl e \<Longrightarrow> is_a e (Builtin ValueError)"
  by (auto simp: b58decode_def res_simps Let_def is_a_def dest!: b58decode_loop_error
      split: if_splits)

lemma decode_multibase_z_error:
  "decode_multibase_z v = Inl e \<Longrightarrow> cls e = Sdk MultibaseDecodeError"
  by (auto simp: decode_multibase_z_def raise_Inl_iff split: if_splits
      intro: rewrap_cls b58decode_error)

lemma strip_multicodec_error: "strip_multicodec p v = Inl e \<Longrightarrow> cls e = Sdk MultibaseDecodeError"
  by (auto simp: strip_multicodec_def res_simps split: if_splits)

lemma strip_with_multicodec [simp]: "strip_multicodec p (with_multicodec p v) = Inr v"
  by (simp add: strip_multicodec_def with_multicodec_def)

lemma strip_multicodec_Inr_iff [res_simps]: "strip_multicodec p v = Inr w \<longleftrightarrow> v = p @ w"
  by (auto simp: strip_multicodec_def prefix_def)

end
