(* ===== verification/Identifiers.thy ===== *)
theory Identifiers
  imports Multibase
begin

text \<open>
  Identifiers, from \<open>python-sdk/src/shadownet/identifiers.py\<close>: domains, Shadownames
  (\<open>local@provider\<close>) and bare multibase Ed25519 keys, with their canonical forms. Shown here: a public
  key has exactly one multibase spelling and always one that starts with \<open>z6Mk\<close>; canonical
  identifiers are fixed points of canonicalization unless the text ends in a newline that
  Python's \<open>$\<close> lets through; the sub-domain test is a test on whole labels.
\<close>

section \<open>The code\<close>

definition local_char :: "char \<Rightarrow> bool" where
  "local_char c = (is_alnum_ascii c \<or> c = CHR ''_'' \<or> c = CHR ''.'' \<or> c = CHR ''-'')"

text \<open>\<open>_SHADOWNAME_LOCAL_RE.match\<close>.\<close>

definition SHADOWNAME_LOCAL_RE :: "string \<Rightarrow> bool" where
  "SHADOWNAME_LOCAL_RE s = re_class local_char 1 63 s"

text \<open>
  \<open>_DOMAIN_LABEL_RE.match\<close>: one letter or digit, or two to 63 characters with letters or digits at
  both ends and hyphens allowed between them.
\<close>

definition DOMAIN_LABEL_RE :: "string \<Rightarrow> bool" where
  "DOMAIN_LABEL_RE s =
     (let t = chomp s in
        t \<noteq> [] \<and> length t \<le> 63 \<and> is_alnum_ascii (hd t) \<and> is_alnum_ascii (last t)
          \<and> list_all (\<lambda>c. is_alnum_ascii c \<or> c = CHR ''-'') t)"

definition DOMAIN_MAX_LEN :: nat where
  "DOMAIN_MAX_LEN = 253"

fun check_labels :: "string \<Rightarrow> string list \<Rightarrow> unit res" where
  "check_labels value [] = Inr ()"
| "check_labels value (label # rest) =
     (if \<not> DOMAIN_LABEL_RE label
      then raise (Sdk InvalidIdentifierError)
             (''invalid domain label '' @ repr label @ '' in '' @ repr value)
      else check_labels value rest)"

definition validate_domain :: "string \<Rightarrow> string res" where
  "validate_domain value =
     (let s = lower (rstrip (\<lambda>c. c = CHR ''.'') (strip value)) in
        if s = '''' \<or> length s > DOMAIN_MAX_LEN
        then raise (Sdk InvalidIdentifierError) (''domain length out of range: '' @ repr value)
        else bind (check_labels value (split_on (CHR ''.'') s)) (\<lambda>_. Inr s))"

definition validate_shadowname :: "string \<Rightarrow> string res" where
  "validate_shadowname value =
     (if CHR ''@'' \<notin> set value
      then raise (Sdk InvalidIdentifierError) (''shadowname missing '' @ repr ''@'' @ '': '' @ repr value)
      else
        (let (local, provider) = partition_on (CHR ''@'') value in
           if \<not> SHADOWNAME_LOCAL_RE local
           then raise (Sdk InvalidIdentifierError) (''invalid shadowname local part: '' @ repr value)
           else bind (validate_domain provider) (\<lambda>d. Inr (lower local @ ''@'' @ d))))"

definition validate_multibase_pk :: "string \<Rightarrow> string res" where
  "validate_multibase_pk value =
     (if \<not> prefix ''z6Mk'' value
      then raise (Sdk InvalidIdentifierError)
             (''public key must start with '' @ repr ''z6Mk'' @ '': '' @ repr value)
      else
        bind (rewrap (bind (decode_multibase_z value) (strip_multicodec ED25519_PUB_MULTICODEC))
                (Sdk MultibaseDecodeError) (Sdk InvalidIdentifierError) id)
          (\<lambda>raw. if length raw \<noteq> 32
                 then raise (Sdk InvalidIdentifierError)
                        (''Ed25519 public key must be 32 bytes, got '' @ nat_str (length raw))
                 else Inr value))"

definition parse_shadowname :: "string \<Rightarrow> string res" where
  "parse_shadowname value = validate_shadowname value"

definition split_shadowname :: "string \<Rightarrow> (string \<times> string) res" where
  "split_shadowname value =
     bind (validate_shadowname value) (\<lambda>canonical. Inr (partition_on (CHR ''@'') canonical))"

definition encode_public_key :: "bytes \<Rightarrow> string res" where
  "encode_public_key public_bytes =
     (if length public_bytes \<noteq> 32
      then raise (Sdk InvalidIdentifierError)
             (''Ed25519 public key must be 32 bytes, got '' @ nat_str (length public_bytes))
      else Inr (encode_multibase_z (with_multicodec ED25519_PUB_MULTICODEC public_bytes)))"

definition parse_public_key :: "string \<Rightarrow> bytes res" where
  "parse_public_key value =
     bind (validate_multibase_pk value) (\<lambda>_.
       bind (decode_multibase_z value) (strip_multicodec ED25519_PUB_MULTICODEC))"

definition is_subdomain_of :: "string \<Rightarrow> string \<Rightarrow> bool res" where
  "is_subdomain_of candidate parent =
     bind (validate_domain candidate) (\<lambda>c. bind (validate_domain parent) (\<lambda>p.
       Inr (c = p \<or> suffix (''.'' @ p) c)))"

definition is_shadowname :: "string \<Rightarrow> bool" where
  "is_shadowname value = (CHR ''@'' \<in> set value)"

definition is_public_key_identifier :: "string \<Rightarrow> bool" where
  "is_public_key_identifier value = (prefix ''z6Mk'' value \<and> CHR ''@'' \<notin> set value)"

definition canonicalize_identifier :: "string \<Rightarrow> string res" where
  "canonicalize_identifier value =
     (if is_shadowname value then validate_shadowname value
      else if is_public_key_identifier value then validate_multibase_pk value
      else raise (Sdk InvalidIdentifierError)
             (''identifier must be a Shadowname or a multibase Ed25519 public key: '' @ repr value))"

definition canonicalize_subject_identifier :: "string \<Rightarrow> string res" where
  "canonicalize_subject_identifier value = canonicalize_identifier value"

definition canonicalize_issuer_or_org_identifier :: "string \<Rightarrow> string res" where
  "canonicalize_issuer_or_org_identifier value =
     (if is_public_key_identifier value then validate_multibase_pk value else validate_domain value)"

section \<open>Public keys\<close>

text \<open>The leading digits of a number are those of its quotient by a power of 58.\<close>

lemma b58_digits_leading:
  "0 < n div 58 ^ k \<Longrightarrow> \<exists>r. b58_digits n = b58_digits (n div 58 ^ k) @ r"
proof (induction k arbitrary: n)
  case 0
  then show ?case by simp
next
  case (Suc k)
  have d: "n div 58 ^ Suc k = n div 58 div 58 ^ k"
    by (simp add: div_mult2_eq)
  with Suc obtain r where "b58_digits (n div 58) = b58_digits (n div 58 ^ Suc k) @ r"
    by metis
  moreover have "0 < n" using Suc.prems by (cases n) auto
  ultimately show ?case by (simp add: b58_digits_pos)
qed

lemma from_bytes_append: "from_bytes (a @ b) = from_bytes a * 256 ^ length b + from_bytes b"
proof (induction b rule: rev_induct)
  case (snoc x b)
  have "from_bytes (a @ b @ [x]) = from_bytes (a @ b) * 256 + unat x"
    by (metis append.assoc from_bytes_snoc)
  with snoc show ?case by (simp add: algebra_simps)
qed simp

lemma from_bytes_less: "from_bytes b < 256 ^ length b"
proof (induction b rule: rev_induct)
  case (snoc x b)
  have "from_bytes b * 256 + unat x < (from_bytes b + 1) * 256"
    by (simp add: algebra_simps)
  also have "\<dots> \<le> 256 ^ length b * 256"
    using snoc by simp
  finally show ?case by (simp add: mult.commute)
qed simp

text \<open>
  Every 32-byte key behind the two multicodec bytes lies between \<open>0xed01 * 256^32\<close> and
  \<open>0xed02 * 256^32\<close>, where the three leading base-58 digits are those of \<open>6Mk\<close>.
\<close>

lemma ed25519_leading:
  assumes "length b = 32"
  shows "from_bytes (ED25519_PUB_MULTICODEC @ b) div 58 ^ 44 = 18023"
proof -
  let ?m = "from_bytes b"
  have eq: "from_bytes (ED25519_PUB_MULTICODEC @ b) = 60673 * 256 ^ 32 + ?m"
    using assms by (simp add: from_bytes_append) (simp add: ED25519_PUB_MULTICODEC_def from_bytes_def)
  have "?m < 256 ^ 32" using from_bytes_less [of b] assms by simp
  moreover have "(58 :: nat) ^ 44 * 18023 \<le> 60673 * 256 ^ 32"
    "60673 * 256 ^ 32 + 256 ^ 32 \<le> (58 :: nat) ^ 44 * Suc 18023" by simp_all
  ultimately have "(60673 * 256 ^ 32 + ?m) div 58 ^ 44 = 18023"
    by (intro div_nat_eqI) linarith+
  with eq show ?thesis by simp
qed

lemma encode_multibase_z6Mk:
  assumes "length b = 32"
  shows "prefix ''z6Mk'' (encode_multibase_z (with_multicodec ED25519_PUB_MULTICODEC b))"
proof -
  let ?d = "ED25519_PUB_MULTICODEC @ b"
  obtain r where r: "b58_digits (from_bytes ?d) = b58_digits 18023 @ r"
    using b58_digits_leading [of "from_bytes ?d" 44] ed25519_leading [OF assms] by auto
  have "b58_digits 18023 = [5, 20, 43]"
    by (simp add: b58_digits_pos)
  moreover have "dropWhile (\<lambda>b. b = 0) ?d = ?d"
    by (simp add: ED25519_PUB_MULTICODEC_def)
  ultimately have "b58encode ?d = ''6Mk'' @ map (\<lambda>d. BASE58_ALPHABET ! d) r"
    by (simp add: b58encode_digits r) (simp add: BASE58_ALPHABET_def)
  then show ?thesis by (simp add: encode_multibase_z_def with_multicodec_def)
qed

lemma validate_multibase_pk_Inr_iff [res_simps]:
  "validate_multibase_pk v = Inr w \<longleftrightarrow>
     w = v \<and> (\<exists>b. length b = 32 \<and> v = encode_multibase_z (ED25519_PUB_MULTICODEC @ b))"
proof
  assume "validate_multibase_pk v = Inr w"
  then show "w = v \<and> (\<exists>b. length b = 32 \<and> v = encode_multibase_z (ED25519_PUB_MULTICODEC @ b))"
    by (auto simp: validate_multibase_pk_def res_simps split: if_splits
        dest!: decode_multibase_z_unique)
next
  assume "w = v \<and> (\<exists>b. length b = 32 \<and> v = encode_multibase_z (ED25519_PUB_MULTICODEC @ b))"
  then show "validate_multibase_pk v = Inr w"
    using encode_multibase_z6Mk
    by (auto simp: validate_multibase_pk_def with_multicodec_def res_simps)
qed

text \<open>
  Public keys have one wire spelling: a string parses to a key if and only if it is the
  \<open>z6Mk\<close> encoding that \<open>encode_public_key\<close> produces for that key, for every 32-byte key. In particular
  every encoding starts with \<open>z6Mk\<close>, the prefix by which the code tells keys from Shadownames.
\<close>

theorem parse_public_key_iff: "parse_public_key v = Inr b \<longleftrightarrow> encode_public_key b = Inr v"
proof
  assume "parse_public_key v = Inr b"
  then show "encode_public_key b = Inr v"
    by (auto simp: parse_public_key_def encode_public_key_def with_multicodec_def res_simps)
next
  assume e: "encode_public_key b = Inr v"
  then have "v = encode_multibase_z (ED25519_PUB_MULTICODEC @ b)" "length b = 32"
    by (auto simp: encode_public_key_def with_multicodec_def split: if_splits)
  then show "parse_public_key v = Inr b"
    by (auto simp: parse_public_key_def res_simps)
qed

lemma parse_public_key_Inr_iff [res_simps]:
  "parse_public_key v = Inr b \<longleftrightarrow> length b = 32 \<and> v = encode_multibase_z (ED25519_PUB_MULTICODEC @ b)"
  by (auto simp: parse_public_key_def res_simps)

lemma parse_public_key_32: "parse_public_key v = Inr b \<Longrightarrow> length b = 32"
  by (simp add: res_simps)

lemma validate_multibase_pk_error:
  "validate_multibase_pk v = Inl e \<Longrightarrow> cls e = Sdk InvalidIdentifierError"
proof -
  assume err: "validate_multibase_pk v = Inl e"
  have m: "is_a e' (Sdk MultibaseDecodeError)"
    if "bind (decode_multibase_z v) (strip_multicodec ED25519_PUB_MULTICODEC) = Inl e'" for e'
    using that decode_multibase_z_error strip_multicodec_error
    by (auto simp: res_simps is_a_def)
  show ?thesis
    using err by (auto simp: validate_multibase_pk_def raise_Inl_iff bind_Inl_iff split: if_splits
        intro: rewrap_cls m)
qed

lemma parse_public_key_error: "parse_public_key v = Inl e \<Longrightarrow> cls e = Sdk InvalidIdentifierError"
  by (auto simp: parse_public_key_def res_simps strip_multicodec_def
      dest: validate_multibase_pk_error)

section \<open>Domains\<close>

lemma check_labels_Inr_iff [res_simps]: "check_labels v ls = Inr u \<longleftrightarrow> list_all DOMAIN_LABEL_RE ls"
  by (induction ls) auto

lemma check_labels_error: "check_labels v ls = Inl e \<Longrightarrow> cls e = Sdk InvalidIdentifierError"
  by (induction ls) (auto simp: res_simps split: if_splits)

lemma validate_domain_Inr_iff:
  "validate_domain v = Inr s \<longleftrightarrow>
     s = lower (rstrip (\<lambda>c. c = CHR ''.'') (strip v)) \<and> s \<noteq> '''' \<and> length s \<le> DOMAIN_MAX_LEN
       \<and> list_all DOMAIN_LABEL_RE (split_on (CHR ''.'') s)"
  by (auto simp: validate_domain_def res_simps Let_def)

lemma validate_domain_error: "validate_domain v = Inl e \<Longrightarrow> cls e = Sdk InvalidIdentifierError"
  by (auto simp: validate_domain_def res_simps Let_def split: if_splits dest: check_labels_error)

lemma alnum_not_space: "is_alnum_ascii c \<Longrightarrow> \<not> is_space c"
  by (auto simp: is_alnum_ascii_def is_space_def Let_def)

lemma alnum_not_special:
  "is_alnum_ascii c \<Longrightarrow> c \<noteq> CHR ''.'' \<and> c \<noteq> CHR ''@'' \<and> c \<noteq> CHR ''\<newline>''"
  by (auto simp: is_alnum_ascii_def)

lemma label_ends:
  assumes "DOMAIN_LABEL_RE l"
  shows "l \<noteq> []" "is_alnum_ascii (hd l)" "last l \<noteq> CHR ''\<newline>'' \<Longrightarrow> is_alnum_ascii (last l)"
proof -
  have t: "chomp l \<noteq> []" "is_alnum_ascii (hd (chomp l))" "is_alnum_ascii (last (chomp l))"
    using assms by (auto simp: DOMAIN_LABEL_RE_def Let_def)
  then show "l \<noteq> []" by (auto simp: chomp_def)
  have "hd (chomp l) = hd l"
    using t(1) by (cases l) (auto simp: chomp_def)
  with t show "is_alnum_ascii (hd l)" by simp
  assume "last l \<noteq> CHR ''\<newline>''"
  then have "chomp l = l" by (simp add: chomp_def)
  with t show "is_alnum_ascii (last l)" by simp
qed

lemma join_with_ends:
  assumes "ls \<noteq> []" "\<forall>l\<in>set ls. l \<noteq> []"
  shows "hd (join_with sep ls) = hd (hd ls)" "last (join_with sep ls) = last (last ls)"
    "join_with sep ls \<noteq> []"
  using assms by (induction sep ls rule: join_with.induct) auto

lemma domain_ends:
  assumes "list_all DOMAIN_LABEL_RE (split_on (CHR ''.'') s)"
  shows "is_alnum_ascii (hd s)" "last s \<noteq> CHR ''\<newline>'' \<Longrightarrow> is_alnum_ascii (last s)"
proof -
  let ?ls = "split_on (CHR ''.'') s"
  have ne: "\<forall>l\<in>set ?ls. l \<noteq> []" using assms label_ends(1) by (auto simp: list_all_iff)
  have h: "hd s = hd (hd ?ls)" and l: "last s = last (last ?ls)"
    using join_with_ends(1,2) [of ?ls "''.''"] ne by (simp_all add: join_split)
  have "DOMAIN_LABEL_RE (hd ?ls)" "DOMAIN_LABEL_RE (last ?ls)"
    using assms by (simp_all add: list_all_iff)
  then show "is_alnum_ascii (hd s)" "last s \<noteq> CHR ''\<newline>'' \<Longrightarrow> is_alnum_ascii (last s)"
    using h l label_ends by simp_all
qed

lemma validate_domain_idem:
  assumes v: "validate_domain v = Inr s" and l: "last s \<noteq> CHR ''\<newline>''"
  shows "validate_domain s = Inr s"
proof -
  have s: "s \<noteq> ''''" "length s \<le> DOMAIN_MAX_LEN" "list_all DOMAIN_LABEL_RE (split_on (CHR ''.'') s)"
    "lower s = s"
    using v by (auto simp: validate_domain_Inr_iff)
  have e: "is_alnum_ascii (hd s)" "is_alnum_ascii (last s)"
    using domain_ends [OF s(3)] l by auto
  then have "strip s = s" by (intro strip_id) (simp add: alnum_not_space)
  moreover have "rstrip (\<lambda>c. c = CHR ''.'') s = s"
    using e(2) alnum_not_special by (intro rstrip_id) blast
  ultimately show ?thesis using s by (simp add: validate_domain_Inr_iff)
qed

text \<open>A canonical domain contains no \<open>@\<close>, so it cannot be taken for a Shadowname.\<close>

lemma label_chars: "DOMAIN_LABEL_RE l \<Longrightarrow> c \<in> set l \<Longrightarrow> is_alnum_ascii c \<or> c = CHR ''-'' \<or> c = CHR ''\<newline>''"
proof -
  assume d: "DOMAIN_LABEL_RE l" and c: "c \<in> set l"
  have "set l \<subseteq> insert (CHR ''\<newline>'') (set (chomp l))"
    by (cases l rule: rev_cases) (auto simp: chomp_def)
  with d c show ?thesis by (auto simp: DOMAIN_LABEL_RE_def Let_def list_all_iff)
qed

lemma set_join_with: "set (join_with [c] ls) \<subseteq> insert c (\<Union> (set ` set ls))"
  by (induction "[c]" ls rule: join_with.induct) auto

lemma domain_no_at: "validate_domain v = Inr s \<Longrightarrow> CHR ''@'' \<notin> set s"
proof
  assume v: "validate_domain v = Inr s" and a: "CHR ''@'' \<in> set s"
  from set_join_with [of "CHR ''.''" "split_on (CHR ''.'') s"] a
  obtain l where l: "l \<in> set (split_on (CHR ''.'') s)" "CHR ''@'' \<in> set l"
    by (auto simp: join_split)
  from v l(1) have "DOMAIN_LABEL_RE l" by (auto simp: validate_domain_Inr_iff list_all_iff)
  from label_chars [OF this l(2)] show False by (auto simp: is_alnum_ascii_def)
qed

lemma split_on_append_gen: "split_on c (s @ c # t) = split_on c s @ split_on c t"
proof (induction s)
  case (Cons x s)
  then show ?case by (cases "split_on c s") auto
qed simp

lemma join_with_append:
  "ls \<noteq> [] \<Longrightarrow> ms \<noteq> [] \<Longrightarrow> join_with sep (ls @ ms) = join_with sep ls @ sep @ join_with sep ms"
proof (induction sep ls rule: join_with.induct)
  case (2 sep x)
  then show ?case by (cases ms) auto
qed auto

lemma dotted_suffix_iff:
  "c = p \<or> suffix (''.'' @ p) c \<longleftrightarrow> suffix (split_on (CHR ''.'') p) (split_on (CHR ''.'') c)"
proof
  assume "c = p \<or> suffix (''.'' @ p) c"
  then show "suffix (split_on (CHR ''.'') p) (split_on (CHR ''.'') c)"
    by (auto simp: suffix_def split_on_append_gen)
next
  assume "suffix (split_on (CHR ''.'') p) (split_on (CHR ''.'') c)"
  then obtain ls where ls: "split_on (CHR ''.'') c = ls @ split_on (CHR ''.'') p"
    by (auto simp: suffix_def)
  then have c: "c = join_with ''.'' (ls @ split_on (CHR ''.'') p)"
    by (metis join_split)
  show "c = p \<or> suffix (''.'' @ p) c"
  proof (cases "ls = []")
    case True
    with c show ?thesis by (simp add: join_split)
  next
    case False
    with c show ?thesis by (simp add: join_with_append join_split suffix_def)
  qed
qed

text \<open>
  The sub-domain test of the issuer-authorization rule compares whole labels: when both arguments
  are domains, the answer is true exactly when the canonical parent's labels are a suffix of the
  canonical candidate's labels. So \<open>evil-acme.example\<close> is no sub-domain of \<open>acme.example\<close>.
\<close>

theorem is_subdomain_of_labels:
  "is_subdomain_of candidate parent = Inr r \<longleftrightarrow>
     (\<exists>c p. validate_domain candidate = Inr c \<and> validate_domain parent = Inr p
       \<and> r = suffix (split_on (CHR ''.'') p) (split_on (CHR ''.'') c))"
  by (auto simp: is_subdomain_of_def bind_Inr_iff simp flip: dotted_suffix_iff)

lemma is_subdomain_of_error: "is_subdomain_of c p = Inl e \<Longrightarrow> cls e = Sdk InvalidIdentifierError"
  by (auto simp: is_subdomain_of_def res_simps dest: validate_domain_error)

section \<open>Shadownames and canonical forms\<close>

lemma newline_code: "c = CHR ''\<newline>'' \<longleftrightarrow> code c = 10"
  using of_char_eq_iff [where 'a = nat, of c "CHR ''\<newline>''"] by simp

lemma lower_char_newline [simp]: "lower_char c = CHR ''\<newline>'' \<longleftrightarrow> c = CHR ''\<newline>''"
  by (auto simp: newline_code lower_char_def Let_def)

lemma chomp_lower [simp]: "chomp (lower s) = lower (chomp s)"
  by (auto simp: chomp_def lower_def last_map map_butlast)

lemma alnum_lower_char: "is_alnum_ascii c \<Longrightarrow> is_alnum_ascii (lower_char c)"
  by (auto simp: is_alnum_ascii_def lower_char_def Let_def)

lemma local_char_lower: "local_char c \<Longrightarrow> local_char (lower_char c)"
  using alnum_lower_char by (auto simp: local_char_def lower_char_def)

lemma local_lower: "SHADOWNAME_LOCAL_RE l \<Longrightarrow> SHADOWNAME_LOCAL_RE (lower l)"
  using local_char_lower
  by (auto simp: SHADOWNAME_LOCAL_RE_def re_class_def Let_def list_all_iff) (auto simp: lower_def)

lemma local_no_at: "SHADOWNAME_LOCAL_RE l \<Longrightarrow> CHR ''@'' \<notin> set l"
proof
  assume l: "SHADOWNAME_LOCAL_RE l" and a: "CHR ''@'' \<in> set l"
  have "set l \<subseteq> insert (CHR ''\<newline>'') (set (chomp l))"
    by (cases l rule: rev_cases) (auto simp: chomp_def)
  with a have "CHR ''@'' \<in> set (chomp l)" by auto
  with l have "local_char (CHR ''@'')"
    by (auto simp: SHADOWNAME_LOCAL_RE_def re_class_def Let_def list_all_iff)
  then show False by (simp add: local_char_def is_alnum_ascii_def)
qed

lemma validate_shadowname_Inr_iff:
  "validate_shadowname v = Inr c \<longleftrightarrow>
     (\<exists>l p d. v = l @ CHR ''@'' # p \<and> SHADOWNAME_LOCAL_RE l \<and> validate_domain p = Inr d
        \<and> c = lower l @ CHR ''@'' # d)"
proof
  assume "validate_shadowname v = Inr c"
  then show "\<exists>l p d. v = l @ CHR ''@'' # p \<and> SHADOWNAME_LOCAL_RE l \<and> validate_domain p = Inr d
      \<and> c = lower l @ CHR ''@'' # d"
    by (fastforce simp: validate_shadowname_def res_simps split: if_splits prod.splits
        dest: partition_on_join)
next
  assume "\<exists>l p d. v = l @ CHR ''@'' # p \<and> SHADOWNAME_LOCAL_RE l \<and> validate_domain p = Inr d
      \<and> c = lower l @ CHR ''@'' # d"
  then show "validate_shadowname v = Inr c"
    by (auto simp: validate_shadowname_def res_simps partition_on_append local_no_at)
qed

lemma validate_shadowname_error:
  "validate_shadowname v = Inl e \<Longrightarrow> cls e = Sdk InvalidIdentifierError"
  by (auto simp: validate_shadowname_def res_simps Let_def split: if_splits prod.splits
      dest: validate_domain_error)

lemma canonicalize_identifier_error:
  "canonicalize_identifier v = Inl e \<Longrightarrow> cls e = Sdk InvalidIdentifierError"
  by (auto simp: canonicalize_identifier_def raise_Inl_iff split: if_splits
      dest: validate_shadowname_error validate_multibase_pk_error)

lemma canonicalize_issuer_error:
  "canonicalize_issuer_or_org_identifier v = Inl e \<Longrightarrow> cls e = Sdk InvalidIdentifierError"
  by (auto simp: canonicalize_issuer_or_org_identifier_def split: if_splits
      dest: validate_domain_error validate_multibase_pk_error)

lemma validate_shadowname_idem:
  assumes "validate_shadowname v = Inr c" "last c \<noteq> CHR ''\<newline>''"
  shows "validate_shadowname c = Inr c"
proof -
  obtain l p d where c: "c = lower l @ CHR ''@'' # d" and l: "SHADOWNAME_LOCAL_RE l"
    and d: "validate_domain p = Inr d"
    using assms(1) by (auto simp: validate_shadowname_Inr_iff)
  have "d \<noteq> []" using d by (auto simp: validate_domain_Inr_iff)
  with assms(2) c have "last d \<noteq> CHR ''\<newline>''" by simp
  with d have "validate_domain d = Inr d" by (rule validate_domain_idem)
  with l c show ?thesis
    unfolding validate_shadowname_Inr_iff
    by (intro exI [of _ "lower l"] exI [of _ d]) (simp add: local_lower)
qed

text \<open>The three kinds of identifier stay apart after canonicalization.\<close>

lemma canonical_kind:
  assumes "canonicalize_identifier v = Inr c"
  shows "is_shadowname c \<longleftrightarrow> is_shadowname v" "is_public_key_identifier c \<longleftrightarrow> \<not> is_shadowname v"
proof -
  show n: "is_shadowname c \<longleftrightarrow> is_shadowname v"
    using assms by (auto simp: canonicalize_identifier_def is_shadowname_def
        validate_shadowname_Inr_iff validate_multibase_pk_Inr_iff split: if_splits)
  show "is_public_key_identifier c \<longleftrightarrow> \<not> is_shadowname v"
    using assms n by (auto simp: canonicalize_identifier_def is_shadowname_def
        is_public_key_identifier_def validate_multibase_pk_Inr_iff split: if_splits)
qed

lemma prefix_not_at: "is_public_key_identifier v \<Longrightarrow> \<not> is_shadowname v"
  by (simp add: is_public_key_identifier_def is_shadowname_def)

text \<open>
  Canonicalization of the identifiers in \<open>from\<close>, \<open>to\<close>, \<open>kid\<close> and \<open>sub\<close> is idempotent: a canonical
  form that does not end in a newline canonicalizes to itself, and it is a Shadowname or a public key
  as its input was, never both.
\<close>

theorem canonicalize_identifier_idem:
  assumes "canonicalize_identifier v = Inr c"
    and "last c \<noteq> CHR ''\<newline>''"
  shows "canonicalize_identifier c = Inr c \<and> is_shadowname c = is_shadowname v
    \<and> is_public_key_identifier c = (\<not> is_shadowname v)"
proof -
  have "canonicalize_identifier c = Inr c"
  proof (cases "is_shadowname v")
    case True
    with assms have "validate_shadowname c = Inr c"
      by (auto simp: canonicalize_identifier_def intro: validate_shadowname_idem)
    with True canonical_kind(1) [OF assms(1)] show ?thesis
      by (simp add: canonicalize_identifier_def)
  next
    case False
    with assms have "c = v"
      by (auto simp: canonicalize_identifier_def validate_multibase_pk_Inr_iff split: if_splits)
    with assms show ?thesis by simp
  qed
  with canonical_kind [OF assms(1)] show ?thesis by simp
qed

theorem canonicalize_identifier_idem_witness:
  "canonicalize_identifier ''Alice@SH4DOW.org.'' = Inr ''alice@sh4dow.org''
    \<and> canonicalize_identifier ''alice@sh4dow.org'' = Inr ''alice@sh4dow.org''"
proof -
  have c: "canonicalize_identifier ''Alice@SH4DOW.org.'' = Inr ''alice@sh4dow.org''"
    by code_simp
  show ?thesis using canonicalize_identifier_idem [OF c] c by simp
qed

text \<open>
  A trailing newline defeats the label pattern: Python's \<open>$\<close> also matches before one final newline,
  so a label may end in one. A domain with such a label is accepted, and canonicalizing it again
  gives a different domain.
\<close>

theorem validate_domain_newline:
  "validate_domain ''acme.example\<newline>.'' = Inr ''acme.example\<newline>''
    \<and> validate_domain ''acme.example\<newline>'' = Inr ''acme.example''
    \<and> validate_domain ''acme\<newline>.example'' = Inr ''acme\<newline>.example''"
  by code_simp

end
