(* ===== verification/Provider.thy ===== *)
theory Provider
  imports Identifiers Externals Effects
begin

text \<open>
  Provider discovery, from \<open>python-sdk/src/shadownet/provider.py\<close>: the parser of the \<open>_shadownet\<close> TXT
  record and the lookup around it. Shown here: which texts parse and to what, that a lookup
  returns only records whose keys are all valid and whose endpoint is HTTPS or loopback, and which
  exceptions the lookup can raise.
\<close>

section \<open>The code\<close>

definition SHADOWNET_TXT_PREFIX :: string where
  "SHADOWNET_TXT_PREFIX = ''_shadownet.''"

definition SUPPORTED_VERSION :: string where
  "SUPPORTED_VERSION = ''0.2''"

definition provider_error :: "string \<Rightarrow> 'a res" where
  "provider_error m = raise (Sdk ProviderResolutionError) m"

record ProviderRecord =
  domain :: string
  version :: string
  endpoint :: string
  provider_keys :: "string list"
  is_issuer :: bool
  delegates :: "string list"

text \<open>\<open>out.setdefault(k, []).append(v)\<close>.\<close>

definition dict_append :: "string \<Rightarrow> string \<Rightarrow> (string \<times> string list) list \<Rightarrow> (string \<times> string list) list" where
  "dict_append k v d =
     dict_set k ((case dict_get d k of None \<Rightarrow> [] | Some vs \<Rightarrow> vs) @ [v]) d"

fun parse_kv_loop :: "(string \<times> string list) list \<Rightarrow> string list \<Rightarrow> (string \<times> string list) list res" where
  "parse_kv_loop out [] = Inr out"
| "parse_kv_loop out (raw # rest) =
     (let part = strip raw in
        if part = '''' then parse_kv_loop out rest
        else if CHR ''='' \<notin> set part
        then provider_error (''malformed key=value pair: '' @ repr part)
        else
          (let (key, val) = partition_on (CHR ''='') part
           in parse_kv_loop (dict_append (lower (strip key)) (strip val) out) rest))"

definition parse_kv :: "string \<Rightarrow> (string \<times> string list) list res" where
  "parse_kv value = parse_kv_loop [] (split_on (CHR '';'') value)"

definition single :: "(string \<times> string list) list \<Rightarrow> string \<Rightarrow> string res" where
  "single kv key =
     (case dict_get kv key of
        None \<Rightarrow> provider_error (''missing required key '' @ repr key)
      | Some [] \<Rightarrow> provider_error (''missing required key '' @ repr key)
      | Some [v] \<Rightarrow> Inr v
      | Some (v # _ # _) \<Rightarrow> provider_error (''key '' @ repr key @ '' appears more than once''))"

definition flag :: "(string \<times> string list) list \<Rightarrow> string \<Rightarrow> bool" where
  "flag kv key =
     (case dict_get kv key of
        None \<Rightarrow> False
      | Some [] \<Rightarrow> False
      | Some (v # _) \<Rightarrow> lower v = ''true'')"

definition values_of :: "(string \<times> string list) list \<Rightarrow> string \<Rightarrow> string list" where
  "values_of kv key = (case dict_get kv key of None \<Rightarrow> [] | Some vs \<Rightarrow> vs)"

definition allowed_endpoint :: "string \<Rightarrow> bool" where
  "allowed_endpoint ep =
     (prefix ''https://'' ep \<or> prefix ''http://localhost'' ep \<or> prefix ''http://127.0.0.1'' ep
      \<or> prefix ''http://[::1]'' ep)"

definition parse_provider_txt :: "string \<Rightarrow> string \<Rightarrow> ProviderRecord res" where
  "parse_provider_txt dn value =
     bind (parse_kv value) (\<lambda>kv.
     bind (single kv ''v'') (\<lambda>ver.
       if ver \<noteq> SUPPORTED_VERSION then provider_error (''unsupported v='' @ repr ver)
       else
     bind (single kv ''ep'') (\<lambda>ep.
       if \<not> allowed_endpoint ep
       then provider_error (''ep must be https:// (or loopback http://), got '' @ repr ep)
       else
         (let pk_values = values_of kv ''pk'' in
            if pk_values = [] then provider_error (''missing required key '' @ repr ''pk'')
            else
     bind (rewrap (map_res parse_public_key pk_values) (Sdk InvalidIdentifierError)
             (Sdk ProviderResolutionError) (\<lambda>m. ''invalid pk: '' @ m)) (\<lambda>_.
     Inr \<lparr>domain = dn, version = ver, endpoint = ep, provider_keys = pk_values,
          is_issuer = flag kv ''iss'', delegates = values_of kv ''delegate''\<rparr>)))))"

text \<open>The loop over the answer: other resource data and texts that do not parse are skipped.\<close>

fun txt_records :: "lib \<Rightarrow> string \<Rightarrow> rdata list \<Rightarrow> ProviderRecord list res" where
  "txt_records L dn [] = Inr []"
| "txt_records L dn (OtherRdata # rest) = txt_records L dn rest"
| "txt_records L dn (TXT strings # rest) =
     bind (decode_utf8 L (concat strings)) (\<lambda>joined.
       (case parse_provider_txt dn joined of
          Inr r \<Rightarrow> bind (txt_records L dn rest) (\<lambda>rs. Inr (r # rs))
        | Inl e \<Rightarrow> (if is_a e (Sdk ProviderResolutionError) then txt_records L dn rest else Inl e)))"

definition records_from_answer :: "lib \<Rightarrow> string \<Rightarrow> string \<Rightarrow> rdata list \<Rightarrow> ProviderRecord res" where
  "records_from_answer L dn name answer =
     bind (txt_records L dn answer) (\<lambda>records.
       (case records of
          [] \<Rightarrow> provider_error (''no v='' @ SUPPORTED_VERSION @ '' TXT at '' @ repr name)
        | [r] \<Rightarrow> Inr r
        | _ \<Rightarrow> provider_error (''multiple v='' @ SUPPORTED_VERSION @ '' TXT records at '' @ repr name
                 @ ''; expected one'')))"

text \<open>
  The lookup, for the outcome of \<open>r.resolve(name, rdtype="TXT", lifetime=...)\<close> on each name. The handlers
  are tried in the order of the source.
\<close>

type_synonym resolver = "string \<Rightarrow> rdata list res"

definition txt_name :: "string \<Rightarrow> string" where
  "txt_name dn = SHADOWNET_TXT_PREFIX @ rstrip (\<lambda>c. c = CHR ''.'') dn"

definition map_dns_error :: "string \<Rightarrow> string \<Rightarrow> exn \<Rightarrow> 'a res" where
  "map_dns_error dn name e =
     (if is_a e (Lib NXDOMAIN) then provider_error (''no _shadownet TXT for '' @ repr dn)
      else if is_a e (Lib NoAnswer) then provider_error (''no TXT answer for '' @ repr name)
      else if is_a e (Lib DNSException)
      then provider_error (''DNS error resolving '' @ repr name @ '': '' @ str_of e)
      else Inl e)"

definition lookup_provider_record :: "lib \<Rightarrow> resolver \<Rightarrow> string \<Rightarrow> ProviderRecord res" where
  "lookup_provider_record L resolve dn =
     (let name = txt_name dn in
      case resolve name of
        Inl e \<Rightarrow> map_dns_error dn name e
      | Inr answer \<Rightarrow> records_from_answer L dn name answer)"

text \<open>The async sibling awaits the resolver's answer.\<close>

definition alookup_provider_record ::
  "lib \<Rightarrow> (string \<Rightarrow> ('s, rdata list) task) \<Rightarrow> string \<Rightarrow> ('s, ProviderRecord) task"
where
  "alookup_provider_record L aresolve dn =
     (let name = txt_name dn in
      tthen (aresolve name) (\<lambda>r.
        (case r of
           Inl e \<Rightarrow> Ret (map_dns_error dn name e)
         | Inr answer \<Rightarrow> Ret (records_from_answer L dn name answer))))"

section \<open>Correctness\<close>

lemma provider_error_Inr [simp]: "provider_error m \<noteq> Inr x" "Inr x \<noteq> provider_error m"
  by (simp_all add: provider_error_def)

lemma bind_provider_error [simp]: "bind (provider_error m) f = provider_error m"
  by (simp add: provider_error_def)

lemma provider_error_Inl [res_simps]: "provider_error m = Inl e \<longleftrightarrow> e = Exn (Sdk ProviderResolutionError) m"
  by (auto simp: provider_error_def res_simps)

text \<open>
  What the parser computes: the values of a key are, in order, the right-hand sides of the parts that
  carry it.
\<close>

definition kv_parts :: "string \<Rightarrow> string list" where
  "kv_parts value = filter (\<lambda>p. p \<noteq> '''') (map strip (split_on (CHR '';'') value))"

definition part_key :: "string \<Rightarrow> string" where
  "part_key part = lower (strip (fst (partition_on (CHR ''='') part)))"

definition part_value :: "string \<Rightarrow> string" where
  "part_value part = strip (snd (partition_on (CHR ''='') part))"

definition kv_values :: "string \<Rightarrow> string \<Rightarrow> string list" where
  "kv_values value key = map part_value (filter (\<lambda>p. part_key p = key) (kv_parts value))"

lemma values_of_append:
  "values_of (dict_append k v d) key = values_of d key @ (if key = k then [v] else [])"
  by (auto simp: values_of_def dict_append_def split: option.splits)

lemma dict_append_not_Nil:
  "(\<forall>k. dict_get d k \<noteq> Some []) \<Longrightarrow> dict_get (dict_append k' v d) k \<noteq> Some []"
  by (auto simp: dict_append_def)

lemma parse_kv_loop_Inr:
  "parse_kv_loop out raws = Inr kv \<Longrightarrow> (\<forall>k. dict_get out k \<noteq> Some []) \<Longrightarrow>
     (\<forall>p \<in> set (filter (\<lambda>p. p \<noteq> '''') (map strip raws)). CHR ''='' \<in> set p)
     \<and> (\<forall>key. values_of kv key = values_of out key @
          map part_value (filter (\<lambda>p. part_key p = key) (filter (\<lambda>p. p \<noteq> '''') (map strip raws))))
     \<and> (\<forall>k. dict_get kv k \<noteq> Some [])"
proof (induction raws arbitrary: out)
  case (Cons raw raws)
  let ?p = "strip raw"
  show ?case
  proof (cases "?p = ''''")
    case True
    with Cons show ?thesis by simp
  next
    case False
    then have eq: "CHR ''='' \<in> set ?p"
      and rest: "parse_kv_loop (dict_append (part_key ?p) (part_value ?p) out) raws = Inr kv"
      using Cons.prems(1)
      by (auto simp: Let_def part_key_def part_value_def split: prod.splits if_splits)
    from Cons.IH [OF rest] Cons.prems(2) dict_append_not_Nil [of out]
    have "(\<forall>p \<in> set (filter (\<lambda>p. p \<noteq> '''') (map strip raws)). CHR ''='' \<in> set p)
       \<and> (\<forall>key. values_of kv key = values_of (dict_append (part_key ?p) (part_value ?p) out) key @
          map part_value (filter (\<lambda>p. part_key p = key) (filter (\<lambda>p. p \<noteq> '''') (map strip raws))))
       \<and> (\<forall>k. dict_get kv k \<noteq> Some [])" by blast
    then show ?thesis using eq False by (auto simp: values_of_append)
  qed
qed simp

lemma parse_kv_loop_defined:
  "(\<forall>p \<in> set (filter (\<lambda>p. p \<noteq> '''') (map strip raws)). CHR ''='' \<in> set p) \<Longrightarrow>
     \<exists>kv. parse_kv_loop out raws = Inr kv"
  by (induction raws arbitrary: out) (auto simp: Let_def split: prod.splits)

lemma parse_kv_Inr:
  assumes "parse_kv value = Inr kv"
  shows "\<forall>p\<in>set (kv_parts value). CHR ''='' \<in> set p" "values_of kv key = kv_values value key"
    "dict_get kv key \<noteq> Some []"
  using parse_kv_loop_Inr [OF assms [unfolded parse_kv_def]]
  by (auto simp: kv_parts_def kv_values_def values_of_def)

lemma valid_keys_iff:
  "(\<exists>x. map_res parse_public_key ks = Inr x) \<longleftrightarrow> (\<forall>pk\<in>set ks. \<exists>b. encode_public_key b = Inr pk)"
proof -
  have "(\<exists>b. parse_public_key k = Inr b) \<longleftrightarrow> (\<exists>b. encode_public_key b = Inr k)" for k
    by (auto simp: res_simps encode_public_key_def with_multicodec_def)
  then show ?thesis by (induction ks) (auto simp: bind_Inr_iff)
qed

lemma single_Inr_iff:
  "(\<forall>k. dict_get kv k \<noteq> Some []) \<Longrightarrow> single kv key = Inr v \<longleftrightarrow> values_of kv key = [v]"
  by (auto simp: single_def values_of_def split: option.splits list.splits)

lemma flag_values: "flag kv key = (case values_of kv key of [] \<Rightarrow> False | v # _ \<Rightarrow> lower v = ''true'')"
  by (auto simp: flag_def values_of_def split: option.splits list.splits)

text \<open>
  The TXT parser does exactly what RFC 0001 section 4.2 asks: a text parses if and only if every
  non-empty part is a key=value pair, \<open>v\<close> occurs once and is \<open>0.2\<close>, \<open>ep\<close> occurs once and is HTTPS or
  loopback, and there is at least one \<open>pk\<close>, all of them valid Ed25519 keys; the record then carries
  those values, the first \<open>iss\<close> flag and every \<open>delegate\<close>, in the order of the text.
\<close>

theorem parse_provider_txt_iff:
  "parse_provider_txt dn value = Inr r \<longleftrightarrow>
     list_all (\<lambda>p. CHR ''='' \<in> set p) (kv_parts value)
     \<and> kv_values value ''v'' = [''0.2'']
     \<and> (\<exists>ep. kv_values value ''ep'' = [ep] \<and> allowed_endpoint ep
          \<and> kv_values value ''pk'' \<noteq> []
          \<and> list_all (\<lambda>pk. \<exists>b. encode_public_key b = Inr pk) (kv_values value ''pk'')
          \<and> r = \<lparr>domain = dn, version = ''0.2'', endpoint = ep,
                 provider_keys = kv_values value ''pk'',
                 is_issuer = (case kv_values value ''iss'' of [] \<Rightarrow> False | v # _ \<Rightarrow> lower v = ''true''),
                 delegates = kv_values value ''delegate''\<rparr>)"
proof (cases "\<forall>p\<in>set (kv_parts value). CHR ''='' \<in> set p")
  case False
  then have "parse_kv value \<noteq> Inr kv" for kv using parse_kv_Inr(1) by blast
  then show ?thesis using False by (auto simp: parse_provider_txt_def bind_Inr_iff list_all_iff)
next
  case True
  then obtain kv where f: "parse_kv value = Inr kv"
    using parse_kv_loop_defined [of "split_on (CHR '';'') value" "[]"]
    by (auto simp: parse_kv_def kv_parts_def)
  note vals = parse_kv_Inr(2) [OF f] and nn = parse_kv_Inr(3) [OF f]
  have sing: "single kv key = Inr v \<longleftrightarrow> kv_values value key = [v]" for key v
    using single_Inr_iff [of kv key v] nn vals by simp
  show ?thesis
    using True valid_keys_iff [of "kv_values value ''pk''"]
    by (auto simp: parse_provider_txt_def f bind_Inr_iff sing vals Let_def SUPPORTED_VERSION_def
        rewrap_Inr_iff flag_values list_all_iff split: if_splits)
qed

subsection \<open>The lookup\<close>

text \<open>What a resource record contributes: the parsed record, when it is a TXT record that parses.\<close>

definition parsed_rdata :: "lib \<Rightarrow> string \<Rightarrow> rdata \<Rightarrow> ProviderRecord option" where
  "parsed_rdata L dn rd =
     (case rd of
        OtherRdata \<Rightarrow> None
      | TXT strings \<Rightarrow>
          (case bind (decode_utf8 L (concat strings)) (parse_provider_txt dn) of
             Inr r \<Rightarrow> Some r | Inl _ \<Rightarrow> None))"

fun decodable :: "lib \<Rightarrow> rdata \<Rightarrow> bool" where
  "decodable L (TXT strings) = (\<exists>s. decode_utf8 L (concat strings) = Inr s)"
| "decodable L OtherRdata = True"

lemma parse_kv_loop_error: "parse_kv_loop out raws = Inl e \<Longrightarrow> cls e = Sdk ProviderResolutionError"
  by (induction raws arbitrary: out) (auto simp: Let_def res_simps split: if_splits prod.splits)

lemma single_error: "single kv key = Inl e \<Longrightarrow> cls e = Sdk ProviderResolutionError"
  by (auto simp: single_def res_simps split: option.splits list.splits)

lemma map_res_error: "map_res f xs = Inl e \<Longrightarrow> \<exists>x\<in>set xs. f x = Inl e"
  by (induction xs) (auto simp: res_simps)

lemma parse_provider_txt_error: "parse_provider_txt dn v = Inl e \<Longrightarrow> cls e = Sdk ProviderResolutionError"
proof -
  have "cls e = Sdk ProviderResolutionError"
    if "rewrap (map_res parse_public_key ks) (Sdk InvalidIdentifierError) (Sdk ProviderResolutionError) m = Inl e" for ks m
    using that by (rule rewrap_cls) (auto dest!: map_res_error parse_public_key_error simp: is_a_def)
  then show "parse_provider_txt dn v = Inl e \<Longrightarrow> cls e = Sdk ProviderResolutionError"
    by (auto simp: parse_provider_txt_def parse_kv_def bind_Inl_iff Let_def provider_error_Inl
        dest: parse_kv_loop_error single_error split: if_splits)
qed

lemma txt_records_TXT:
  "txt_records L dn (TXT strings # rest) =
     (case decode_utf8 L (concat strings) of
        Inl e \<Rightarrow> Inl e
      | Inr t \<Rightarrow> (case parse_provider_txt dn t of
            Inr r \<Rightarrow> bind (txt_records L dn rest) (\<lambda>rs. Inr (r # rs))
          | Inl _ \<Rightarrow> txt_records L dn rest))"
proof -
  have "is_a e (Sdk ProviderResolutionError)" if "parse_provider_txt dn t = Inl e" for t e
    using parse_provider_txt_error [OF that] by (simp add: is_a_def)
  then show ?thesis by (auto split: sum.splits)
qed

lemma parsed_rdata_simps [simp]:
  "parsed_rdata L dn OtherRdata = None"
  "decode_utf8 L (concat strings) = Inr t \<Longrightarrow> parse_provider_txt dn t = Inr r \<Longrightarrow>
     parsed_rdata L dn (TXT strings) = Some r"
  "decode_utf8 L (concat strings) = Inr t \<Longrightarrow> parse_provider_txt dn t = Inl e \<Longrightarrow>
     parsed_rdata L dn (TXT strings) = None"
  by (simp_all add: parsed_rdata_def)

lemma txt_records_Inr_iff:
  "txt_records L dn answer = Inr rs \<longleftrightarrow>
     list_all (decodable L) answer \<and> rs = List.map_filter (parsed_rdata L dn) answer"
proof (induction answer arbitrary: rs)
  case (Cons rd answer)
  show ?case
  proof (cases rd)
    case TXT: (TXT strings)
    show ?thesis
    proof (cases "decode_utf8 L (concat strings)")
      case Inl
      then show ?thesis by (simp add: TXT)
    next
      case Inr: (Inr t)
      show ?thesis
        by (cases "parse_provider_txt dn t")
          (auto simp: TXT txt_records_TXT Inr bind_Inr_iff Cons.IH List.map_filter_simps simp del: txt_records.simps)
    qed
  qed (use Cons in \<open>auto simp: List.map_filter_simps\<close>)
qed (auto simp: List.map_filter_simps)

lemma txt_records_error: "txt_records L dn answer = Inl e \<Longrightarrow> \<exists>strings. decode_utf8 L (concat strings) = Inl e"
proof (induction answer)
  case (Cons rd answer)
  then show ?case
    by (cases rd) (auto simp: txt_records_TXT bind_Inl_iff simp del: txt_records.simps(3) split: sum.splits)
qed simp

text \<open>
  Discovery is unambiguous: a lookup returns a record exactly when the resolver answered for
  the \<open>_shadownet\<close> name, every TXT record of the answer is UTF-8 text, and exactly one of them is a
  valid Shadownet record, whatever else the name publishes.
\<close>

theorem lookup_provider_record_iff:
  "lookup_provider_record L resolve dn = Inr r \<longleftrightarrow>
     (\<exists>answer. resolve (txt_name dn) = Inr answer \<and> list_all (decodable L) answer
        \<and> List.map_filter (parsed_rdata L dn) answer = [r])"
  by (auto simp: lookup_provider_record_def records_from_answer_def map_dns_error_def res_simps
      txt_records_Inr_iff Let_def split: sum.splits list.splits if_splits)

lemma lookup_provider_record_Inr:
  assumes "lookup_provider_record L resolve dn = Inr r"
  shows "domain r = dn" "provider_keys r \<noteq> []" "\<forall>pk\<in>set (provider_keys r). \<exists>b. encode_public_key b = Inr pk"
proof -
  obtain answer where "List.map_filter (parsed_rdata L dn) answer = [r]"
    using assms by (auto simp: lookup_provider_record_def records_from_answer_def map_dns_error_def res_simps
      txt_records_Inr_iff Let_def split: sum.splits list.splits if_splits)
  then have "r \<in> set (List.map_filter (parsed_rdata L dn) answer)" by simp
  then obtain rd where "parsed_rdata L dn rd = Some r"
    by (auto simp: List.map_filter_def)
  then obtain v where "parse_provider_txt dn v = Inr r"
    by (auto simp: parsed_rdata_def res_simps split: rdata.splits sum.splits)
  then show "domain r = dn" "provider_keys r \<noteq> []" "\<forall>pk\<in>set (provider_keys r). \<exists>b. encode_public_key b = Inr pk"
    using valid_keys_iff
    by (auto simp: parse_provider_txt_def bind_Inr_iff rewrap_Inr_iff Let_def split: if_splits)
qed

lemma run_alookup_provider_record [run_simps]:
  "run (aresolve (txt_name dn)) = sres (dns (txt_name dn)) \<Longrightarrow>
     run (alookup_provider_record L aresolve dn) = sres (lookup_provider_record L dns dn)"
  by (simp add: alookup_provider_record_def lookup_provider_record_def Let_def run_simps cong: run_congs)

end
