(* ===== verification/Credential.thy ===== *)
theory Credential
  imports Keys Provider
begin

text \<open>
  Credentials, from \<open>python-sdk/src/shadownet/credential.py\<close>: the payload model, minting, the
  verification steps 1 to 6 of RFC 0001 section 6 (synchronous and async), issuer-key resolution and
  the authorization of an issuer for an organization. Shown here: exactly which tokens verify and
  to what, what a minted credential verifies as, who may attest for an organization, and which
  exceptions escape the module's own error class.
\<close>

section \<open>Data\<close>

definition CREDENTIAL_TYP :: string where
  "CREDENTIAL_TYP = ''shadownet-cred+jwt''"

definition ORG_AFFILIATION :: string where
  "ORG_AFFILIATION = ''org_affiliation''"

definition CRED_MAX_LIFETIME_SECONDS :: int where
  "CRED_MAX_LIFETIME_SECONDS = 30 * 24 * 60 * 60"

abbreviation credential_error :: "string \<Rightarrow> 'a res" where
  "credential_error m \<equiv> raise (Sdk CredentialError) m"

record RevocationPointer =
  epoch :: string
  idx :: int

record CredentialPayload =
  c_iss :: string
  c_sub :: string
  c_kind :: string
  c_org :: string
  c_iat :: int
  c_exp :: int
  c_rev :: RevocationPointer
  c_extra :: obj

record VerifiedCredential =
  payload :: CredentialPayload
  issuer_key :: string
  raw_jws :: string

section \<open>The payload model\<close>

text \<open>\<open>extra="forbid"\<close>: a member that no field reads is one more collected error.\<close>

definition forbid_extra :: "obj \<Rightarrow> string list list \<Rightarrow> 'a fres \<Rightarrow> 'a fres" where
  "forbid_extra d fs r =
     (case r of FOk x \<Rightarrow> (if extra_members d fs = [] then FOk x else FErr) | other \<Rightarrow> other)"

definition v_RevocationPointer :: "lib \<Rightarrow> json \<Rightarrow> RevocationPointer fres" where
  "v_RevocationPointer L j =
     (case j of
        JObj d \<Rightarrow>
          forbid_extra d [[''epoch''], [''idx'']]
            (fap (fap (FOk RevocationPointer.make)
               (required_field d [''epoch''] (\<lambda>v. constrain (\<lambda>s. s \<noteq> '''') (v_str v))))
               (required_field d [''idx''] (\<lambda>v. constrain (\<lambda>i. 0 \<le> i) (v_int L v))))
      | _ \<Rightarrow> FErr)"

text \<open>The types \<open>Identifier\<close> and \<open>IssuerIdentifier\<close>, and the pattern \<open>^[a-z_]+$\<close> (pydantic's \<open>$\<close> is the end of the text).\<close>

definition v_Identifier :: "json \<Rightarrow> string fres" where
  "v_Identifier j = after_validator canonicalize_identifier (v_str j)"

definition v_IssuerIdentifier :: "json \<Rightarrow> string fres" where
  "v_IssuerIdentifier j = after_validator canonicalize_issuer_or_org_identifier (v_str j)"

definition kind_pattern :: "string \<Rightarrow> bool" where
  "kind_pattern s = (s \<noteq> '''' \<and> list_all (\<lambda>c. 97 \<le> code c \<and> code c \<le> 122 \<or> c = CHR ''_'') s)"

definition v_CredentialPayload :: "lib \<Rightarrow> obj \<Rightarrow> CredentialPayload fres" where
  "v_CredentialPayload L d =
     fap (fap (fap (fap (fap (fap (fap
       (FOk (\<lambda>i s k g a x r. \<lparr>c_iss = i, c_sub = s, c_kind = k, c_org = g, c_iat = a, c_exp = x,
           c_rev = r,
           c_extra = extra_members d
             [[''iss''], [''sub''], [''kind''], [''org''], [''iat''], [''exp''], [''rev'']]\<rparr>))
       (required_field d [''iss''] v_IssuerIdentifier))
       (required_field d [''sub''] v_Identifier))
       (required_field d [''kind''] (\<lambda>v. constrain kind_pattern (v_str v))))
       (required_field d [''org''] v_IssuerIdentifier))
       (required_field d [''iat''] (\<lambda>v. constrain (\<lambda>i. 0 \<le> i) (v_int L v))))
       (required_field d [''exp''] (\<lambda>v. constrain (\<lambda>i. 0 \<le> i) (v_int L v))))
       (required_field d [''rev''] (v_RevocationPointer L))"

definition CredentialPayload_model_validate :: "lib \<Rightarrow> obj \<Rightarrow> CredentialPayload res" where
  "CredentialPayload_model_validate L d =
     validated L ''CredentialPayload'' (JObj d) (v_CredentialPayload L d)"

text \<open>\<open>payload.model_dump()\<close>: the fields in order, then the extra members.\<close>

definition CredentialPayload_model_dump :: "CredentialPayload \<Rightarrow> obj" where
  "CredentialPayload_model_dump p =
     dict_update
       [(''iss'', JStr (c_iss p)), (''sub'', JStr (c_sub p)), (''kind'', JStr (c_kind p)),
        (''org'', JStr (c_org p)), (''iat'', JInt (c_iat p)), (''exp'', JInt (c_exp p)),
        (''rev'', JObj [(''epoch'', JStr (epoch (c_rev p))), (''idx'', JInt (idx (c_rev p)))])]
       (c_extra p)"

section \<open>The code\<close>

definition mint_credential :: "lib \<Rightarrow> CredentialPayload \<Rightarrow> Ed25519KeyPair \<Rightarrow> string res" where
  "mint_credential L p key =
     (if c_exp p - c_iat p > CRED_MAX_LIFETIME_SECONDS
      then credential_error (ORG_AFFILIATION @ '' lifetime exceeds 30 days (exp - iat = ''
             @ int_str (c_exp p - c_iat p) @ ''s)'')
      else if c_kind p \<noteq> ORG_AFFILIATION
      then credential_error (''unknown credential kind '' @ repr (c_kind p))
      else sign_jwt L (CredentialPayload_model_dump p) key (Some [(''typ'', JStr CREDENTIAL_TYP)]))"

text \<open>\<open>header.get(k)\<close> inside an f-string with \<open>!r\<close> prints \<open>None\<close> for an absent key.\<close>

definition header_is :: "obj \<Rightarrow> string \<Rightarrow> string \<Rightarrow> bool" where
  "header_is h k v = (dict_get h k = Some (JStr v))"

text \<open>
  The checks that come before any key is needed: header, claims, payload, kind, lifetime and clock.
  \<open>current\<close> is \<open>int(time.time())\<close> or the caller's \<open>now\<close>.
\<close>

definition credential_checks :: "lib \<Rightarrow> string \<Rightarrow> int \<Rightarrow> int \<Rightarrow> CredentialPayload res" where
  "credential_checks L token current lw =
     bind (rewrap (decode_header L token) (Sdk JWTError) (Sdk CredentialError)
             (\<lambda>m. ''invalid JWS: '' @ m)) (\<lambda>header.
     if \<not> header_is header ''typ'' CREDENTIAL_TYP
     then credential_error (''typ must be '' @ repr CREDENTIAL_TYP @ '', got '' @ repr_opt (dict_get header ''typ''))
     else if \<not> header_is header ''alg'' ''EdDSA''
     then credential_error (''alg must be EdDSA, got '' @ repr_opt (dict_get header ''alg''))
     else
     bind (rewrap (decode_unverified_claims L token) (Sdk JWTError) (Sdk CredentialError)
             (\<lambda>m. ''unable to decode claims: '' @ m)) (\<lambda>unverified.
     bind (rewrap (CredentialPayload_model_validate L unverified) (Lib ValidationError)
             (Sdk CredentialError) (\<lambda>m. ''credential payload invalid: '' @ m)) (\<lambda>p.
     if c_kind p \<noteq> ORG_AFFILIATION
     then credential_error (''unknown credential kind '' @ repr (c_kind p))
     else if c_exp p - c_iat p > CRED_MAX_LIFETIME_SECONDS
     then credential_error ''credential lifetime exceeds 30 days''
     else if c_exp p < current - lw then credential_error ''credential expired''
     else if c_iat p > current + lw then credential_error ''credential iat in the future''
     else Inr p)))"

text \<open>The signature check under the resolved key, with its handler.\<close>

definition credential_signature :: "lib \<Rightarrow> string \<Rightarrow> string \<Rightarrow> unit res" where
  "credential_signature L token issuer_key_multibase =
     bind (parse_public_key issuer_key_multibase) (\<lambda>pk.
     bind (from_public_bytes L pk) (\<lambda>key.
       rewrap (verify_jws_signature L token key) (Sdk KeySignatureError) (Sdk CredentialError)
         (\<lambda>m. ''signature verification failed: '' @ m)))"

definition default_issuer_key_resolver :: "lib \<Rightarrow> resolver \<Rightarrow> string \<Rightarrow> string res" where
  "default_issuer_key_resolver L dns iss =
     (if is_public_key_identifier iss then Inr iss
      else
        bind (rewrap (lookup_provider_record L dns iss) (Sdk ProviderResolutionError)
                (Sdk CredentialError) (\<lambda>m. ''could not resolve issuer '' @ repr iss @ '': '' @ m)) (\<lambda>record.
          (case provider_keys record of
             [] \<Rightarrow> credential_error (''issuer '' @ repr iss @ '' has no provider key'')
           | k # _ \<Rightarrow> Inr k)))"

definition keyed_issuer_message :: "string \<Rightarrow> string \<Rightarrow> string" where
  "keyed_issuer_message iss org =
     ''keyed issuer '' @ repr iss @ '' not authorized to attest for org '' @ repr org
     @ '' (only iss == org accepted for keyed issuers per '' @ [CHR 0xA7] @ ''6.6)''"

definition default_issuer_authorization_check :: "lib \<Rightarrow> resolver \<Rightarrow> string \<Rightarrow> string \<Rightarrow> unit res" where
  "default_issuer_authorization_check L dns iss org =
     (if iss = org then Inr ()
      else if is_public_key_identifier iss \<or> is_public_key_identifier org
      then credential_error (keyed_issuer_message iss org)
      else
        bind (is_subdomain_of iss org) (\<lambda>sub.
          if sub then Inr ()
          else
            bind (rewrap (lookup_provider_record L dns org) (Sdk ProviderResolutionError)
                    (Sdk CredentialError)
                    (\<lambda>m. ''could not verify issuer authorization for '' @ repr org @ '': '' @ m))
              (\<lambda>org_record.
                if lower iss \<in> set (map lower (delegates org_record)) then Inr ()
                else credential_error (''issuer '' @ repr iss @ '' is not authorized to attest for org '' @ repr org))))"

definition verify_credential ::
  "lib \<Rightarrow> resolver \<Rightarrow> int \<Rightarrow> string \<Rightarrow> int option \<Rightarrow> int \<Rightarrow> (string \<Rightarrow> string res) option
    \<Rightarrow> (string \<Rightarrow> string \<Rightarrow> unit res) option \<Rightarrow> VerifiedCredential res"
where
  "verify_credential L dns clock token now lw resolve_issuer_key check_issuer_authorized_for_org =
     (let current = (case now of None \<Rightarrow> clock | Some t \<Rightarrow> t);
          resolver = (case resolve_issuer_key of
                        None \<Rightarrow> default_issuer_key_resolver L dns | Some f \<Rightarrow> f);
          authorize = (case check_issuer_authorized_for_org of
                         None \<Rightarrow> default_issuer_authorization_check L dns | Some f \<Rightarrow> f)
      in
      bind (credential_checks L token current lw) (\<lambda>p.
      bind (resolver (c_iss p)) (\<lambda>issuer_key_multibase.
      bind (credential_signature L token issuer_key_multibase) (\<lambda>_.
      bind (authorize (c_iss p) (c_org p)) (\<lambda>_.
      Inr \<lparr>payload = p, issuer_key = issuer_key_multibase, raw_jws = token\<rparr>)))))"

section \<open>Async siblings\<close>

definition default_async_issuer_key_resolver ::
  "lib \<Rightarrow> (string \<Rightarrow> ('s, rdata list) task) \<Rightarrow> string \<Rightarrow> ('s, string) task"
where
  "default_async_issuer_key_resolver L adns iss =
     (if is_public_key_identifier iss then Ret (Inr iss)
      else
        tbind (trewrap (alookup_provider_record L adns iss) (Sdk ProviderResolutionError)
                 (Sdk CredentialError) (\<lambda>m. ''could not resolve issuer '' @ repr iss @ '': '' @ m)) (\<lambda>record.
          (case provider_keys record of
             [] \<Rightarrow> Ret (credential_error (''issuer '' @ repr iss @ '' has no provider key''))
           | k # _ \<Rightarrow> Ret (Inr k))))"

definition default_async_issuer_authorization_check ::
  "lib \<Rightarrow> (string \<Rightarrow> ('s, rdata list) task) \<Rightarrow> string \<Rightarrow> string \<Rightarrow> ('s, unit) task"
where
  "default_async_issuer_authorization_check L adns iss org =
     (if iss = org then Ret (Inr ())
      else if is_public_key_identifier iss \<or> is_public_key_identifier org
      then Ret (credential_error (keyed_issuer_message iss org))
      else
        tbind (Ret (is_subdomain_of iss org)) (\<lambda>sub.
          if sub then Ret (Inr ())
          else
            tbind (trewrap (alookup_provider_record L adns org) (Sdk ProviderResolutionError)
                     (Sdk CredentialError)
                     (\<lambda>m. ''could not verify issuer authorization for '' @ repr org @ '': '' @ m))
              (\<lambda>org_record.
                Ret (if lower iss \<in> set (map lower (delegates org_record)) then Inr ()
                     else credential_error (''issuer '' @ repr iss @ '' is not authorized to attest for org '' @ repr org)))))"

definition averify_credential ::
  "lib \<Rightarrow> (string \<Rightarrow> ('s, rdata list) task) \<Rightarrow> int \<Rightarrow> string \<Rightarrow> int option \<Rightarrow> int
    \<Rightarrow> (string \<Rightarrow> ('s, string) task) option \<Rightarrow> (string \<Rightarrow> string \<Rightarrow> ('s, unit) task) option
    \<Rightarrow> ('s, VerifiedCredential) task"
where
  "averify_credential L adns clock token now lw resolve_issuer_key check_issuer_authorized_for_org =
     (let current = (case now of None \<Rightarrow> clock | Some t \<Rightarrow> t);
          resolver = (case resolve_issuer_key of
                        None \<Rightarrow> default_async_issuer_key_resolver L adns | Some f \<Rightarrow> f);
          authorize = (case check_issuer_authorized_for_org of
                         None \<Rightarrow> default_async_issuer_authorization_check L adns | Some f \<Rightarrow> f)
      in
      tbind (Ret (credential_checks L token current lw)) (\<lambda>p.
      tbind (resolver (c_iss p)) (\<lambda>issuer_key_multibase.
      tbind (Ret (credential_signature L token issuer_key_multibase)) (\<lambda>_.
      tbind (authorize (c_iss p) (c_org p)) (\<lambda>_.
      Ret (Inr \<lparr>payload = p, issuer_key = issuer_key_multibase, raw_jws = token\<rparr>))))))"

section \<open>What verification accepts\<close>

text \<open>Steps 1 to 4: the token is a credential whose claims are well formed and current.\<close>

definition valid_claims :: "lib \<Rightarrow> string \<Rightarrow> int \<Rightarrow> int \<Rightarrow> CredentialPayload \<Rightarrow> bool" where
  "valid_claims L token current lw p =
     (\<exists>header claims. jwt_header L token = Inr header \<and> header_is header ''typ'' CREDENTIAL_TYP
        \<and> header_is header ''alg'' ''EdDSA'' \<and> jwt_claims L token = Inr claims
        \<and> CredentialPayload_model_validate L claims = Inr p
        \<and> c_kind p = ORG_AFFILIATION \<and> c_exp p - c_iat p \<le> CRED_MAX_LIFETIME_SECONDS
        \<and> current - lw \<le> c_exp p \<and> c_iat p \<le> current + lw)"

lemma credential_checks_Inr_iff:
  "credential_checks L token current lw = Inr p \<longleftrightarrow> valid_claims L token current lw p"
  by (auto simp: credential_checks_def valid_claims_def res_simps not_less)

lemma credential_signature_Inr_iff:
  "credential_signature L token mb = Inr u \<longleftrightarrow>
     (\<exists>pk. parse_public_key mb = Inr pk \<and> ed_load L pk = Inr () \<and> signed_by L token pk)"
  by (auto simp: credential_signature_def bind_Inr_iff rewrap_Inr_iff verify_jws_signature_Inr
      from_public_bytes_Inr_iff dest: parse_public_key_32)

text \<open>
  C8: a credential verifies exactly when RFC 0001 section 6, steps 1 to 6, say so: it is a JWS of the
  credential type signed with EdDSA, its claims form a valid payload of the one known kind with a
  lifetime of at most 30 days, it is neither expired nor from the future within the leeway, the
  resolved issuer key signed exactly these bytes, and the issuer may attest for the organization.
  The result carries the payload, that key and the token.
\<close>

theorem verify_credential_iff:
  "verify_credential L dns clock token (Some t) lw (Some resolve) (Some authorize) = Inr vc \<longleftrightarrow>
     (\<exists>p mb pk. valid_claims L token t lw p \<and> resolve (c_iss p) = Inr mb
        \<and> parse_public_key mb = Inr pk \<and> ed_load L pk = Inr () \<and> signed_by L token pk
        \<and> authorize (c_iss p) (c_org p) = Inr ()
        \<and> vc = \<lparr>payload = p, issuer_key = mb, raw_jws = token\<rparr>)"
  by (auto simp: verify_credential_def bind_Inr_iff credential_checks_Inr_iff
      credential_signature_Inr_iff)

text \<open>
  C33: who may attest for an organization without being it: never a key, and never for a key; a domain
  issuer only when the organization's labels are a suffix of its own, or when the organization's
  own provider record names it as a delegate.
\<close>

theorem issuer_authorization_iff:
  "default_issuer_authorization_check L dns iss org = Inr () \<longleftrightarrow>
     iss = org \<or>
     (\<not> is_public_key_identifier iss \<and> \<not> is_public_key_identifier org \<and>
      (\<exists>c p. validate_domain iss = Inr c \<and> validate_domain org = Inr p \<and>
         (suffix (split_on (CHR ''.'') p) (split_on (CHR ''.'') c) \<or>
          (\<exists>r. lookup_provider_record L dns org = Inr r \<and> lower iss \<in> lower ` set (delegates r)))))"
proof -
  have sub: "is_subdomain_of iss org = Inr b \<longleftrightarrow>
      (\<exists>c p. validate_domain iss = Inr c \<and> validate_domain org = Inr p
         \<and> b = suffix (split_on (CHR ''.'') p) (split_on (CHR ''.'') c))" for b
    by (auto simp: is_subdomain_of_def bind_Inr_iff simp flip: dotted_suffix_iff)
  show ?thesis
    by (auto simp: default_issuer_authorization_check_def bind_Inr_iff sub rewrap_Inr_iff
        split: if_splits)
qed

section \<open>Minted credentials verify\<close>

text \<open>A payload as the model class admits it: canonical identifiers and constraints satisfied.\<close>

definition credential_fields :: "string list" where
  "credential_fields = [''iss'', ''sub'', ''kind'', ''org'', ''iat'', ''exp'', ''rev'']"

definition payload_wf :: "CredentialPayload \<Rightarrow> bool" where
  "payload_wf p =
     (canonicalize_issuer_or_org_identifier (c_iss p) = Inr (c_iss p)
      \<and> canonicalize_identifier (c_sub p) = Inr (c_sub p) \<and> kind_pattern (c_kind p)
      \<and> canonicalize_issuer_or_org_identifier (c_org p) = Inr (c_org p)
      \<and> 0 \<le> c_iat p \<and> 0 \<le> c_exp p \<and> epoch (c_rev p) \<noteq> '''' \<and> 0 \<le> idx (c_rev p)
      \<and> distinct (credential_fields @ map fst (c_extra p)))"

lemma dump_eq:
  "distinct (credential_fields @ map fst (c_extra p)) \<Longrightarrow>
   CredentialPayload_model_dump p =
     [(''iss'', JStr (c_iss p)), (''sub'', JStr (c_sub p)), (''kind'', JStr (c_kind p)),
      (''org'', JStr (c_org p)), (''iat'', JInt (c_iat p)), (''exp'', JInt (c_exp p)),
      (''rev'', JObj [(''epoch'', JStr (epoch (c_rev p))), (''idx'', JInt (idx (c_rev p)))])] @ c_extra p"
  unfolding CredentialPayload_model_dump_def
  by (rule dict_update_append) (simp add: credential_fields_def)

lemma extra_members_append:
  "(\<forall>k\<in>set (map fst d). k \<in> set ks) \<Longrightarrow> (\<forall>k\<in>set ks. dict_get d k \<noteq> None) \<Longrightarrow>
   set ks \<inter> set (map fst e) = {} \<Longrightarrow> extra_members (d @ e) (map (\<lambda>k. [k]) ks) = e"
proof -
  assume d: "\<forall>k\<in>set (map fst d). k \<in> set ks" and g: "\<forall>k\<in>set ks. dict_get d k \<noteq> None"
    and e: "set ks \<inter> set (map fst e) = {}"
  have "matched_key (d @ e) [k] = Some k" if "k \<in> set ks" for k
    using that g by (auto simp: matched_key_single map_add_def split: option.splits)
  then have "set (List.map_filter (matched_key (d @ e)) (map (\<lambda>k. [k]) ks)) = set ks"
    by (induction ks) (auto simp: List.map_filter_simps)
  moreover have "filter (\<lambda>(k, v). k \<notin> set ks) d = []" "filter (\<lambda>(k, v). k \<notin> set ks) e = e"
    using d e by (force simp: filter_empty_conv filter_id_conv)+
  ultimately show ?thesis by (simp add: extra_members_def)
qed

lemma model_validate_dump:
  assumes wf: "payload_wf p" and int: "\<forall>i. as_int L (JInt i) = Some i"
  shows "CredentialPayload_model_validate L (CredentialPayload_model_dump p) = Inr p"
proof -
  have dis: "distinct (credential_fields @ map fst (c_extra p))" using wf by (simp add: payload_wf_def)
  let ?r = "[(''epoch'', JStr (epoch (c_rev p))), (''idx'', JInt (idx (c_rev p)))]"
  let ?d = "CredentialPayload_model_dump p"
  have "extra_members (?r @ []) (map (\<lambda>k. [k]) [''epoch'', ''idx'']) = []"
    by (rule extra_members_append) auto
  then have rev: "v_RevocationPointer L (JObj ?r) = FOk (c_rev p)"
    using wf int by (simp add: v_RevocationPointer_def payload_wf_def required_field_def matched_key_def
        constrain_def v_int_def forbid_extra_def RevocationPointer.make_def)
  have "set credential_fields \<inter> set (map fst (c_extra p)) = {}"
    using dis by (simp only: distinct_append)
  then have "extra_members ?d (map (\<lambda>k. [k]) credential_fields) = c_extra p"
    unfolding dump_eq [OF dis] by (intro extra_members_append) (simp_all add: credential_fields_def)
  then have ext: "extra_members ?d [[''iss''], [''sub''], [''kind''], [''org''], [''iat''], [''exp''], [''rev'']] = c_extra p"
    by (simp add: credential_fields_def)
  have get: "dict_get ?d ''iss'' = Some (JStr (c_iss p))" "dict_get ?d ''sub'' = Some (JStr (c_sub p))"
    "dict_get ?d ''kind'' = Some (JStr (c_kind p))" "dict_get ?d ''org'' = Some (JStr (c_org p))"
    "dict_get ?d ''iat'' = Some (JInt (c_iat p))" "dict_get ?d ''exp'' = Some (JInt (c_exp p))"
    "dict_get ?d ''rev'' = Some (JObj ?r)"
    by (simp_all add: dump_eq [OF dis])
  show ?thesis
    unfolding CredentialPayload_model_validate_def v_CredentialPayload_def ext
    using wf int rev
    by (simp add: required_field_def matched_key_def get v_IssuerIdentifier_def v_Identifier_def
        payload_wf_def constrain_def v_int_def validated_def)
qed

lemma minted_credential_verifies:
  assumes mint: "mint_credential L p key = Inr token" and sk: "private_raw key = Some sk"
    and wf: "payload_wf p" and int: "\<forall>i. as_int L (JInt i) = Some i"
    and jwt: "jwt_encodes L (CredentialPayload_model_dump p) sk
                [(''alg'', JStr ''EdDSA''), (''typ'', JStr CREDENTIAL_TYP)]"
    and key: "resolve (c_iss p) = Inr mb" "parse_public_key mb = Inr (pk_of_seed L sk)"
      "ed_load L (pk_of_seed L sk) = Inr ()"
    and auth: "authorize (c_iss p) (c_org p) = Inr ()"
    and window: "t - lw \<le> c_exp p" "c_iat p \<le> t + lw"
  shows "verify_credential L dns clock token (Some t) lw (Some resolve) (Some authorize)
           = Inr \<lparr>payload = p, issuer_key = mb, raw_jws = token\<rparr>"
proof -
  have kind: "c_kind p = ORG_AFFILIATION" "c_exp p - c_iat p \<le> CRED_MAX_LIFETIME_SECONDS"
    and enc: "jwt_encode L (CredentialPayload_model_dump p) sk
                [(''alg'', JStr ''EdDSA''), (''typ'', JStr CREDENTIAL_TYP)] = Inr token"
    using mint sk
    by (auto simp: mint_credential_def sign_jwt_def private_key_def DEFAULT_HEADER_def dict_update_def
        split: if_splits)
  obtain h where h: "jwt_header L token = Inr h"
      "\<forall>k. dict_get h k = dict_get [(''alg'', JStr ''EdDSA''), (''typ'', JStr CREDENTIAL_TYP)] k"
    and c: "jwt_claims L token = Inr (CredentialPayload_model_dump p)"
    and s: "signed_by L token (pk_of_seed L sk)"
    using jwt enc by (auto simp: jwt_encodes_def)
  have "valid_claims L token t lw p"
    using h c kind window model_validate_dump [OF wf int] by (auto simp: valid_claims_def header_is_def)
  moreover have "credential_signature L token mb = Inr ()"
    using key s credential_signature_Inr_iff by blast
  ultimately show ?thesis
    using key(1) auth by (simp add: verify_credential_def credential_checks_Inr_iff [THEN iffD2])
qed

text \<open>
  C30: what \<open>mint_credential\<close> signs, \<open>verify_credential\<close> accepts: for a payload the model class admits,
  within its validity window, with the signing key resolved for the issuer and the issuer
  authorized, verification returns that very payload. The hypotheses on the libraries are that
  pydantic keeps integers and that PyJWT encodes this call faithfully.
\<close>

theorem mint_verify_credential:
  assumes "mint_credential L p key = Inr token" and "private_raw key = Some sk"
    and "payload_wf p" and "\<forall>i. as_int L (JInt i) = Some i"
    and "jwt_encodes L (CredentialPayload_model_dump p) sk
                [(''alg'', JStr ''EdDSA''), (''typ'', JStr CREDENTIAL_TYP)]"
    and "resolve (c_iss p) = Inr mb" "parse_public_key mb = Inr (pk_of_seed L sk)"
      "ed_load L (pk_of_seed L sk) = Inr ()"
    and "authorize (c_iss p) (c_org p) = Inr ()"
    and "t - lw \<le> c_exp p" "c_iat p \<le> t + lw"
  shows "verify_credential L dns clock token (Some t) lw (Some resolve) (Some authorize)
           = Inr \<lparr>payload = p, issuer_key = mb, raw_jws = token\<rparr>"
  using assms by (rule minted_credential_verifies)

definition ex_payload :: CredentialPayload where
  "ex_payload =
     \<lparr>c_iss = ''acme.example'', c_sub = ''alice@acme.example'', c_kind = ''org_affiliation'',
      c_org = ''acme.example'', c_iat = 1000, c_exp = 2000, c_rev = \<lparr>epoch = ''e1'', idx = 5\<rparr>,
      c_extra = [(''role'', JStr ''staff'')]\<rparr>"

definition ex_seed :: bytes where
  "ex_seed = replicate 32 0"

definition ex_key :: string where
  "ex_key = encode_multibase_z (ED25519_PUB_MULTICODEC @ ex_seed)"

definition ex_cred_lib :: lib where
  "ex_cred_lib =
     toy_lib\<lparr>ed_verify := (\<lambda>pk sig m. pk = ex_seed \<and> m = map byte_of_char ''aGQ.cGw''),
             jwt_encode := (\<lambda>c s h. Inr ''aGQ.cGw.c2ln''),
             jwt_header := (\<lambda>_. Inr [(''alg'', JStr ''EdDSA''), (''typ'', JStr CREDENTIAL_TYP)]),
             jwt_claims := (\<lambda>_. Inr (CredentialPayload_model_dump ex_payload))\<rparr>"

lemma ex_key_parses: "parse_public_key ex_key = Inr ex_seed"
  by (simp add: parse_public_key_Inr_iff ex_key_def ex_seed_def)

lemma ex_signed: "signed_by ex_cred_lib ''aGQ.cGw.c2ln'' ex_seed"
proof -
  have "split_on (CHR ''.'') ''aGQ.cGw.c2ln'' = [''aGQ'', ''cGw'', ''c2ln'']"
    "encode_ascii (''aGQ'' @ ''.'' @ ''cGw'') = Inr (map byte_of_char ''aGQ.cGw'')"
    "b64u_decode ''c2ln'' = Inr (map byte_of_char ''sig'')"
    by code_simp+
  then show ?thesis by (auto simp: signed_by_def ex_cred_lib_def)
qed

lemma ex_payload_wf: "payload_wf ex_payload"
  by code_simp

theorem mint_verify_credential_witness:
  "mint_credential ex_cred_lib ex_payload \<lparr>public_bytes = ex_seed, private_raw = Some ex_seed\<rparr> = Inr ''aGQ.cGw.c2ln''
   \<and> verify_credential ex_cred_lib (\<lambda>_. Inr []) 0 ''aGQ.cGw.c2ln'' (Some 1500) 60
        (Some (\<lambda>_. Inr ex_key)) (Some (\<lambda>_ _. Inr ()))
      = Inr \<lparr>payload = ex_payload, issuer_key = ex_key, raw_jws = ''aGQ.cGw.c2ln''\<rparr>"
proof -
  have mint: "mint_credential ex_cred_lib ex_payload \<lparr>public_bytes = ex_seed, private_raw = Some ex_seed\<rparr>
      = Inr ''aGQ.cGw.c2ln''"
    by (simp add: mint_credential_def ex_payload_def ORG_AFFILIATION_def CRED_MAX_LIFETIME_SECONDS_def
        sign_jwt_def private_key_def ex_cred_lib_def)
  have "jwt_encodes ex_cred_lib (CredentialPayload_model_dump ex_payload) ex_seed
          [(''alg'', JStr ''EdDSA''), (''typ'', JStr CREDENTIAL_TYP)]"
    using ex_signed by (simp add: jwt_encodes_def) (simp add: ex_cred_lib_def toy_lib_def)
  moreover have "\<forall>i. as_int ex_cred_lib (JInt i) = Some i" "pk_of_seed ex_cred_lib ex_seed = ex_seed"
    "ed_load ex_cred_lib ex_seed = Inr ()"
    by (simp_all add: ex_cred_lib_def toy_lib_def)
  ultimately show ?thesis
    using mint mint_verify_credential [OF mint _ ex_payload_wf, where sk = ex_seed and t = 1500 and lw = 60
        and resolve = "\<lambda>_. Inr ex_key" and mb = ex_key and authorize = "\<lambda>_ _. Inr ()"] ex_key_parses
    by (simp add: ex_payload_def)
qed

section \<open>Exceptions that escape\<close>

text \<open>
  An issuer that is neither a domain nor a key escapes the module's error class: \<open>model_validate\<close>
  lets \<open>InvalidIdentifierError\<close> through because it is no \<open>ValueError\<close>, the handler for \<open>ValidationError\<close>
  does not catch it, and so \<open>verify_credential\<close> raises something that is no \<open>CredentialError\<close>.
\<close>

theorem verify_credential_identifier_escape:
  assumes "jwt_header L token = Inr header" "header_is header ''typ'' CREDENTIAL_TYP"
    "header_is header ''alg'' ''EdDSA''" "jwt_claims L token = Inr claims"
    "dict_get claims ''iss'' = Some (JStr s)" "canonicalize_issuer_or_org_identifier s = Inl e"
  shows "verify_credential L dns clock token now lw resolve authorize = Inl e
    \<and> cls e = Sdk InvalidIdentifierError \<and> \<not> is_a e (Sdk CredentialError)"
proof -
  have c: "cls e = Sdk InvalidIdentifierError"
    using canonicalize_issuer_error [OF assms(6)] .
  then have na: "\<not> is_a e (Builtin ValueError)" "\<not> is_a e (Lib ValidationError)" "\<not> is_a e (Sdk CredentialError)"
    by (simp_all add: is_a_eval)
  have "v_IssuerIdentifier (JStr s) = FRaise e"
    using assms(6) na by (simp add: v_IssuerIdentifier_def)
  then have "v_CredentialPayload L claims = FRaise e"
    using assms(5) by (simp add: v_CredentialPayload_def required_field_def matched_key_def)
  then have "CredentialPayload_model_validate L claims = Inl e"
    by (simp add: CredentialPayload_model_validate_def validated_def)
  then have "credential_checks L token current lw = Inl e" for current
    using assms(1-4) na
    by (simp add: credential_checks_def decode_header_def decode_unverified_claims_def wrap_pyjwt_def
        rewrap_def try_except_def)
  then show ?thesis using c na by (simp add: verify_credential_def Let_def)
qed

theorem verify_credential_identifier_escape_witness:
  "\<exists>e. verify_credential (ex_cred_lib\<lparr>jwt_claims := (\<lambda>_. Inr [(''iss'', JStr ''not a domain'')])\<rparr>)
         (\<lambda>_. Inr []) 0 ''aGQ.cGw.c2ln'' None 60 None None = Inl e
       \<and> cls e = Sdk InvalidIdentifierError \<and> \<not> is_a e (Sdk CredentialError)"
proof -
  let ?L = "ex_cred_lib\<lparr>jwt_claims := (\<lambda>_. Inr [(''iss'', JStr ''not a domain'')])\<rparr>"
  have "canonicalize_issuer_or_org_identifier ''not a domain''
     = Inl (Exn (Sdk InvalidIdentifierError)
         (''invalid domain label '' @ repr ''not a domain'' @ '' in '' @ repr ''not a domain''))"
    by code_simp
  moreover have "jwt_header ?L ''aGQ.cGw.c2ln'' = Inr [(''alg'', JStr ''EdDSA''), (''typ'', JStr CREDENTIAL_TYP)]"
    "header_is [(''alg'', JStr ''EdDSA''), (''typ'', JStr CREDENTIAL_TYP)] ''typ'' CREDENTIAL_TYP"
    "header_is [(''alg'', JStr ''EdDSA''), (''typ'', JStr CREDENTIAL_TYP)] ''alg'' ''EdDSA''"
    "jwt_claims ?L ''aGQ.cGw.c2ln'' = Inr [(''iss'', JStr ''not a domain'')]"
    "dict_get [(''iss'', JStr ''not a domain'')] ''iss'' = Some (JStr ''not a domain'')"
    by (simp_all add: ex_cred_lib_def header_is_def)
  ultimately show ?thesis
    using verify_credential_identifier_escape [of ?L] by blast
qed

section \<open>The async path agrees\<close>

lemma run_async_key_resolver [run_simps]:
  assumes "\<forall>n. run (adns n) = sres (dns n)"
  shows "run (default_async_issuer_key_resolver L adns iss) = sres (default_issuer_key_resolver L dns iss)"
  using assms
  by (simp add: default_async_issuer_key_resolver_def default_issuer_key_resolver_def run_simps cong: run_congs)

lemma run_async_authorization [run_simps]:
  assumes "\<forall>n. run (adns n) = sres (dns n)"
  shows "run (default_async_issuer_authorization_check L adns iss org) = sres (default_issuer_authorization_check L dns iss org)"
  using assms
  by (simp add: default_async_issuer_authorization_check_def default_issuer_authorization_check_def run_simps cong: run_congs)

text \<open>
  The async verifier decides as the synchronous one: with awaited callbacks that answer what the
  synchronous callbacks answer (or with the defaults over the same DNS), running
  \<open>averify_credential\<close> gives the outcome of \<open>verify_credential\<close> and leaves the state alone.
\<close>

theorem averify_credential_agrees:
  assumes "\<forall>n. run (adns n) = sres (dns n)"
    and "rel_option (\<lambda>a f. \<forall>i. run (a i) = sres (f i)) aresolve resolve"
    and "rel_option (\<lambda>a f. \<forall>i g. run (a i g) = sres (f i g)) aauthorize authorize"
  shows "run (averify_credential L adns clock token now lw aresolve aauthorize) s
           = (verify_credential L dns clock token now lw resolve authorize, s)"
proof -
  let ?ar = "case aresolve of None \<Rightarrow> default_async_issuer_key_resolver L adns | Some f \<Rightarrow> f"
  let ?r = "case resolve of None \<Rightarrow> default_issuer_key_resolver L dns | Some f \<Rightarrow> f"
  let ?aa = "case aauthorize of None \<Rightarrow> default_async_issuer_authorization_check L adns | Some f \<Rightarrow> f"
  let ?a = "case authorize of None \<Rightarrow> default_issuer_authorization_check L dns | Some f \<Rightarrow> f"
  have r: "run (?ar i) = sres (?r i)" for i
    using assms(2) run_async_key_resolver [OF assms(1)] by (auto simp: option_rel_Some1 split: option.splits)
  have a: "run (?aa i g) = sres (?a i g)" for i g
    using assms(3) run_async_authorization [OF assms(1)] by (auto split: option.splits)
  show ?thesis
    by (simp add: averify_credential_def verify_credential_def Let_def run_simps r a)
      (simp add: sres_def)
qed

theorem averify_credential_agrees_witness:
  "run (averify_credential ex_cred_lib (\<lambda>_. suspending (sres (Inr []))) 0 ''aGQ.cGw.c2ln'' (Some 1500) 60
          (Some (\<lambda>_. suspending (sres (Inr ex_key)))) None) ()
     = (verify_credential ex_cred_lib (\<lambda>_. Inr []) 0 ''aGQ.cGw.c2ln'' (Some 1500) 60
          (Some (\<lambda>_. Inr ex_key)) None, ())"
  by (rule averify_credential_agrees) (simp_all add: run_simps)

end
