(* ===== verification/Trust.thy ===== *)
theory Trust
  imports Credential
begin

text \<open>
  The trust store and acceptance policy, from \<open>python-sdk/src/shadownet/trust.py\<close>: the configuration
  models with their validators and the evaluation rule of RFC 0001 section 7.3. Shown here: the
  evaluation accepts exactly when one credential is both trusted and of a required kind, and the
  normalization of \<open>accept\<close> keeps each kind once, in order.
\<close>

section \<open>The code\<close>

definition DEFAULT_STRANGER_KINDS :: "string list" where
  "DEFAULT_STRANGER_KINDS = [''org_affiliation'']"

record TrustEntry =
  te_issuer :: string
  accept :: "string list"

record TrustStore =
  entries :: "TrustEntry list"

record AcceptancePolicy =
  from_contact :: "string list"
  from_stranger :: "string list"

definition default_policy :: AcceptancePolicy where
  "default_policy = \<lparr>from_contact = [], from_stranger = DEFAULT_STRANGER_KINDS\<rparr>"

text \<open>The loop of \<open>TrustEntry._normalize\<close>: keep the first occurrence of each element.\<close>

fun normalize_loop :: "'a list \<Rightarrow> 'a list \<Rightarrow> 'a list" where
  "normalize_loop seen [] = seen"
| "normalize_loop seen (x # xs) =
     (if x \<in> set seen then normalize_loop seen xs else normalize_loop (seen @ [x]) xs)"

text \<open>
  \<open>_normalize\<close> runs before the type check, so it iterates over whatever the configuration holds: a list,
  the characters of a string, the keys of an object. Anything else is not iterable, and the
  \<open>TypeError\<close> is no \<open>ValueError\<close>.
\<close>

fun iterate :: "json \<Rightarrow> json list fres" where
  "iterate (JList vs) = FOk vs"
| "iterate (JStr s) = FOk (map (\<lambda>c. JStr [c]) s)"
| "iterate (JObj d) = FOk (map (\<lambda>(k, v). JStr k) d)"
| "iterate _ = FRaise (Exn (Builtin TypeError) ''object is not iterable'')"

definition v_accept :: "json \<Rightarrow> string list fres" where
  "v_accept j =
     (case iterate j of
        FOk vs \<Rightarrow> constrain (\<lambda>ks. ks \<noteq> []) (v_all v_str (normalize_loop [] vs))
      | FErr \<Rightarrow> FErr
      | FRaise e \<Rightarrow> FRaise e)"

definition TrustEntry_model_validate :: "lib \<Rightarrow> obj \<Rightarrow> TrustEntry res" where
  "TrustEntry_model_validate L d =
     validated L ''TrustEntry'' (JObj d)
       (forbid_extra d [[''issuer''], [''accept'']]
         (fap (fap (FOk TrustEntry.make) (required_field d [''issuer''] v_IssuerIdentifier))
            (required_field d [''accept''] v_accept)))"

definition AcceptancePolicy_model_validate :: "lib \<Rightarrow> obj \<Rightarrow> AcceptancePolicy res" where
  "AcceptancePolicy_model_validate L d =
     validated L ''AcceptancePolicy'' (JObj d)
       (forbid_extra d [[''fromContact'', ''from_contact''], [''fromStranger'', ''from_stranger'']]
         (fap (fap (FOk AcceptancePolicy.make)
            (optional_field d [''fromContact'', ''from_contact''] [] (v_list v_str)))
            (optional_field d [''fromStranger'', ''from_stranger''] DEFAULT_STRANGER_KINDS (v_list v_str))))"

definition accepts :: "TrustStore \<Rightarrow> string \<Rightarrow> string \<Rightarrow> bool" where
  "accepts ts iss kind =
     (case canonicalize_issuer_or_org_identifier iss of
        Inl e \<Rightarrow> False
      | Inr target \<Rightarrow> list_ex (\<lambda>entry. te_issuer entry = target \<and> kind \<in> set (accept entry)) (entries ts))"

definition required_kinds :: "AcceptancePolicy \<Rightarrow> bool \<Rightarrow> string list" where
  "required_kinds policy is_contact = (if is_contact then from_contact policy else from_stranger policy)"

definition is_credential_trusted :: "VerifiedCredential \<Rightarrow> TrustStore \<Rightarrow> bool" where
  "is_credential_trusted credential ts = accepts ts (c_iss (payload credential)) (c_kind (payload credential))"

fun satisfies_loop :: "string list \<Rightarrow> TrustStore \<Rightarrow> VerifiedCredential list \<Rightarrow> bool" where
  "satisfies_loop required ts [] = False"
| "satisfies_loop required ts (c # cs) =
     (if \<not> is_credential_trusted c ts then satisfies_loop required ts cs
      else if c_kind (payload c) \<in> set required then True
      else satisfies_loop required ts cs)"

definition satisfies_policy :: "VerifiedCredential list \<Rightarrow> TrustStore \<Rightarrow> string list \<Rightarrow> bool" where
  "satisfies_policy credentials ts required =
     (if required = [] then True else satisfies_loop required ts credentials)"

section \<open>Correctness\<close>

text \<open>
  The only error the handler of \<open>accepts\<close> has to catch is the one it catches: canonicalization
  raises nothing else.
\<close>

lemma accepts_iff:
  "accepts ts iss kind \<longleftrightarrow>
     (\<exists>target entry. canonicalize_issuer_or_org_identifier iss = Inr target \<and> entry \<in> set (entries ts)
        \<and> te_issuer entry = target \<and> kind \<in> set (accept entry))"
  by (auto simp: accepts_def list_ex_iff split: sum.splits)

lemma satisfies_loop_iff:
  "satisfies_loop required ts cs \<longleftrightarrow>
     (\<exists>c\<in>set cs. is_credential_trusted c ts \<and> c_kind (payload c) \<in> set required)"
  by (induction cs) auto

text \<open>
  The acceptance rule of RFC 0001 section 7.3: a set of verified credentials satisfies a policy
  exactly when no kind is required, or one single credential is of a required kind and the trust store
  lists its issuer, in canonical form, for that kind. Two credentials cannot supply one half each.
\<close>

theorem satisfies_policy_iff:
  "satisfies_policy credentials ts required \<longleftrightarrow>
     required = [] \<or>
     (\<exists>c target entry. c \<in> set credentials \<and> c_kind (payload c) \<in> set required
        \<and> canonicalize_issuer_or_org_identifier (c_iss (payload c)) = Inr target
        \<and> entry \<in> set (entries ts) \<and> te_issuer entry = target
        \<and> c_kind (payload c) \<in> set (accept entry))"
  by (auto simp: satisfies_policy_def satisfies_loop_iff is_credential_trusted_def accepts_iff)

lemma normalize_loop_spec:
  "distinct seen \<Longrightarrow>
     distinct (normalize_loop seen xs) \<and> set (normalize_loop seen xs) = set seen \<union> set xs
     \<and> (\<exists>t. normalize_loop seen xs = seen @ t \<and> subseq t xs)"
proof (induction xs arbitrary: seen)
  case (Cons x xs)
  show ?case
  proof (cases "x \<in> set seen")
    case True
    from Cons.IH [OF Cons.prems] obtain t where t: "normalize_loop seen xs = seen @ t" "subseq t xs"
      by blast
    then have "subseq t (x # xs)" by (simp add: list_emb_Cons)
    with True t(1) Cons.IH [OF Cons.prems] show ?thesis by auto
  next
    case False
    then have "distinct (seen @ [x])" using Cons.prems by simp
    from Cons.IH [OF this] obtain t where "normalize_loop (seen @ [x]) xs = seen @ x # t" "subseq t xs"
      by auto
    moreover from Cons.IH [OF \<open>distinct (seen @ [x])\<close>]
    have "distinct (normalize_loop (seen @ [x]) xs)" "set (normalize_loop (seen @ [x]) xs) = set (seen @ [x]) \<union> set xs"
      by blast+
    ultimately show ?thesis using False by (auto intro!: exI [of _ "x # t"])
  qed
qed simp

text \<open>A configured entry lists each accepted kind once, in the order of the configuration, and at least one.\<close>

lemma trust_entry_accept:
  assumes "TrustEntry_model_validate L d = Inr entry" "dict_get d ''accept'' = Some (JList vs)"
  shows "distinct (accept entry)" "accept entry \<noteq> []" "subseq (map JStr (accept entry)) vs"
    "set (map JStr (accept entry)) = set vs"
proof -
  have "v_all v_str js = FOk ks \<longleftrightarrow> js = map JStr ks" for js ks
    by (auto simp: v_all_FOk_iff v_str_FOk_iff list_all2_conv_all_nth intro: nth_equalityI)
  moreover have "v_accept (JList vs) = FOk (accept entry)"
    using assms by (auto simp: TrustEntry_model_validate_def forbid_extra_def res_simps TrustEntry.make_def
        split: fres.splits if_splits)
  ultimately have ks: "normalize_loop [] vs = map JStr (accept entry)" "accept entry \<noteq> []"
    by (auto simp: v_accept_def res_simps)
  from normalize_loop_spec [of "[]" vs] ks
  show "distinct (accept entry)" "accept entry \<noteq> []" "subseq (map JStr (accept entry)) vs"
    "set (map JStr (accept entry)) = set vs"
    by (auto simp: distinct_map)
qed

end
