(* ===== verification/Stores.thy ===== *)
theory Stores
  imports Effects Trust
begin

text \<open>
  The receiver's stores, from \<open>python-sdk/src/shadownet/receiver.py\<close>: the protocols \<open>ReplayCache\<close>,
  \<open>ContactGraph\<close> and \<open>CredentialCache\<close> as records of operations, their contracts as locales, and the
  in-memory implementations with the proof that they meet the contracts.
\<close>

section \<open>Protocols\<close>

text \<open>The callables a pipeline is given, over any state \<open>'s\<close> in which the stores live.\<close>

record 's replay_ops =
  seen :: "string \<Rightarrow> string \<Rightarrow> ('s, bool) st"
  remember :: "string \<Rightarrow> string \<Rightarrow> int \<Rightarrow> ('s, unit) st"

record 's contact_ops =
  is_contact :: "string \<Rightarrow> ('s, bool) st"
  has_recent_outbound :: "string \<Rightarrow> string \<Rightarrow> int \<Rightarrow> ('s, bool) st"
  add_contact :: "string \<Rightarrow> ('s, unit) st"

record 's credential_ops =
  for_sender :: "string \<Rightarrow> ('s, VerifiedCredential list) st"
  cache :: "string \<Rightarrow> VerifiedCredential \<Rightarrow> int \<Rightarrow> ('s, unit) st"

section \<open>The in-memory stores\<close>

record InMemoryReplayCache =
  rc_entries :: "((string \<times> string) \<times> int) list"

record InMemoryContactGraph =
  cg_contacts :: "string set"
  cg_outbound :: "((string \<times> string) \<times> int) list"

record InMemoryCredentialCache =
  cc_by_sender :: "(string \<times> (VerifiedCredential \<times> int) list) list"

text \<open>
  The process they live in: the three objects and the wall clock, whose \<open>n\<close>-th reading since the start
  is \<open>wall n\<close>; \<open>tick\<close> counts the readings so far.
\<close>

record process =
  replay_cache :: InMemoryReplayCache
  contact_graph :: InMemoryContactGraph
  credential_cache :: InMemoryCredentialCache
  wall :: "nat \<Rightarrow> int"
  tick :: nat

text \<open>\<open>int(time.time())\<close>.\<close>

definition time :: "(process, int) st" where
  "time = (\<lambda>s. (Inr (wall s (tick s)), s\<lparr>tick := Suc (tick s)\<rparr>))"

text \<open>\<open>__init__\<close> of the three classes.\<close>

definition new_process :: "(nat \<Rightarrow> int) \<Rightarrow> process" where
  "new_process w =
     \<lparr>replay_cache = \<lparr>rc_entries = []\<rparr>, contact_graph = \<lparr>cg_contacts = {}, cg_outbound = []\<rparr>,
      credential_cache = \<lparr>cc_by_sender = []\<rparr>, wall = w, tick = 0\<rparr>"

subsection \<open>\<open>InMemoryReplayCache\<close>\<close>

definition prune :: "int \<Rightarrow> InMemoryReplayCache \<Rightarrow> InMemoryReplayCache" where
  "prune now c =
     (let expired = map fst (filter (\<lambda>(k, v). v \<le> now) (rc_entries c))
      in c\<lparr>rc_entries := fold AList.delete expired (rc_entries c)\<rparr>)"

definition replay_seen :: "string \<Rightarrow> string \<Rightarrow> (process, bool) st" where
  "replay_seen sender message_id =
     sbind time (\<lambda>now.
     sbind (supd (\<lambda>s. s\<lparr>replay_cache := prune now (replay_cache s)\<rparr>)) (\<lambda>_.
     sget (\<lambda>s. dict_get (rc_entries (replay_cache s)) (sender, message_id) \<noteq> None)))"

definition replay_remember :: "string \<Rightarrow> string \<Rightarrow> int \<Rightarrow> (process, unit) st" where
  "replay_remember sender message_id retention_seconds =
     sbind time (\<lambda>now.
     supd (\<lambda>s. s\<lparr>replay_cache := (replay_cache s)\<lparr>rc_entries :=
       dict_set (sender, message_id) (now + retention_seconds) (rc_entries (replay_cache s))\<rparr>\<rparr>))"

subsection \<open>\<open>InMemoryContactGraph\<close>\<close>

definition contact_is_contact :: "string \<Rightarrow> (process, bool) st" where
  "contact_is_contact shadowname = sget (\<lambda>s. shadowname \<in> cg_contacts (contact_graph s))"

definition contact_add_contact :: "string \<Rightarrow> (process, unit) st" where
  "contact_add_contact shadowname =
     supd (\<lambda>s. s\<lparr>contact_graph := (contact_graph s)\<lparr>cg_contacts := insert shadowname (cg_contacts (contact_graph s))\<rparr>\<rparr>)"

definition contact_remove_contact :: "string \<Rightarrow> (process, unit) st" where
  "contact_remove_contact shadowname =
     supd (\<lambda>s. s\<lparr>contact_graph := (contact_graph s)\<lparr>cg_contacts := cg_contacts (contact_graph s) - {shadowname}\<rparr>\<rparr>)"

definition contact_record_outbound :: "string \<Rightarrow> string \<Rightarrow> (process, unit) st" where
  "contact_record_outbound context_id peer =
     sbind time (\<lambda>now.
     supd (\<lambda>s. s\<lparr>contact_graph := (contact_graph s)\<lparr>cg_outbound :=
       dict_set (context_id, peer) now (cg_outbound (contact_graph s))\<rparr>\<rparr>))"

definition contact_has_recent_outbound :: "string \<Rightarrow> string \<Rightarrow> int \<Rightarrow> (process, bool) st" where
  "contact_has_recent_outbound context_id peer lookback_seconds =
     sbind (sget (\<lambda>s. dict_get (cg_outbound (contact_graph s)) (context_id, peer))) (\<lambda>ts.
       (case ts of
          None \<Rightarrow> sret False
        | Some t \<Rightarrow> sbind time (\<lambda>now. sret (now - lookback_seconds \<le> t))))"

subsection \<open>\<open>InMemoryCredentialCache\<close>\<close>

definition credential_for_sender :: "string \<Rightarrow> (process, VerifiedCredential list) st" where
  "credential_for_sender sender =
     sbind time (\<lambda>now.
     sbind (sget (\<lambda>s. case dict_get (cc_by_sender (credential_cache s)) sender of None \<Rightarrow> [] | Some es \<Rightarrow> es)) (\<lambda>es.
       (let live = filter (\<lambda>(c, ex). now < ex) es in
          sbind (supd (\<lambda>s. s\<lparr>credential_cache := (credential_cache s)\<lparr>cc_by_sender :=
                   dict_set sender live (cc_by_sender (credential_cache s))\<rparr>\<rparr>)) (\<lambda>_.
          sret (map fst live)))))"

definition credential_cache_add :: "string \<Rightarrow> VerifiedCredential \<Rightarrow> int \<Rightarrow> (process, unit) st" where
  "credential_cache_add sender credential expires_at =
     supd (\<lambda>s. s\<lparr>credential_cache := (credential_cache s)\<lparr>cc_by_sender :=
       dict_set sender
         ((case dict_get (cc_by_sender (credential_cache s)) sender of None \<Rightarrow> [] | Some es \<Rightarrow> es)
          @ [(credential, expires_at)])
         (cc_by_sender (credential_cache s))\<rparr>\<rparr>)"

text \<open>The three objects as a pipeline receives them.\<close>

definition memory_replay :: "process replay_ops" where
  "memory_replay = \<lparr>seen = replay_seen, remember = replay_remember\<rparr>"

definition memory_contacts :: "process contact_ops" where
  "memory_contacts = \<lparr>is_contact = contact_is_contact, has_recent_outbound = contact_has_recent_outbound,
                      add_contact = contact_add_contact\<rparr>"

definition memory_credentials :: "process credential_ops" where
  "memory_credentials = \<lparr>for_sender = credential_for_sender, cache = credential_cache_add\<rparr>"

section \<open>Contracts\<close>

text \<open>
  What the pipeline relies on in a replay cache: \<open>deadline s k\<close> is the time until which \<open>k\<close> is remembered
  in \<open>s\<close>, \<open>clock s\<close> the time the next reading gives, \<open>valid\<close> the invariant of the store. Entries whose
  deadline has passed may be forgotten at any time.
\<close>

locale replay_store =
  fixes ops :: "'s replay_ops"
    and deadline :: "'s \<Rightarrow> string \<times> string \<Rightarrow> int option"
    and clock :: "'s \<Rightarrow> int"
    and valid :: "'s \<Rightarrow> bool"
  assumes seen_answer: "valid s \<Longrightarrow>
      fst (seen ops a m s) = Inr (case deadline s (a, m) of None \<Rightarrow> False | Some d \<Rightarrow> clock s < d)"
    and seen_keeps: "valid s \<Longrightarrow> seen ops a m s = (r, s') \<Longrightarrow> deadline s k = Some d \<Longrightarrow> clock s < d \<Longrightarrow>
      deadline s' k = Some d"
    and seen_clock: "valid s \<Longrightarrow> seen ops a m s = (r, s') \<Longrightarrow> valid s' \<and> clock s \<le> clock s'"
    and remember_ok: "valid s \<Longrightarrow> remember ops a m n s = (q, s') \<Longrightarrow>
      q = Inr () \<and> deadline s' = (deadline s)((a, m) \<mapsto> clock s + n) \<and> valid s' \<and> clock s \<le> clock s'"
begin

text \<open>\<open>k\<close> is remembered until \<open>d\<close> at least, as long as that time has not come.\<close>

definition remembered :: "string \<times> string \<Rightarrow> int \<Rightarrow> 's \<Rightarrow> bool" where
  "remembered k d s = (d \<le> clock s \<or> (\<exists>d'\<ge>d. deadline s k = Some d'))"

text \<open>
  The invariant of a run after \<open>k\<close> was remembered until \<open>d\<close> with retention \<open>n\<close>: every later entry for \<open>k\<close>
  ends later.
\<close>

definition guarded :: "int \<Rightarrow> string \<times> string \<Rightarrow> int \<Rightarrow> 's \<Rightarrow> bool" where
  "guarded n k d s = (valid s \<and> d \<le> clock s + n \<and> remembered k d s)"

lemma seen_guarded: "guarded n (a, m) d s \<Longrightarrow> clock s < d \<Longrightarrow> fst (seen ops a m s) = Inr True"
  using seen_answer [of s a m] by (auto simp: guarded_def remembered_def)

lemma keeps_seen: "keeps (guarded n k d) (seen ops a m)"
proof (rule keepsI)
  fix s r s'
  assume g: "guarded n k d s" and s': "seen ops a m s = (r, s')"
  then have v: "valid s" "valid s'" "clock s \<le> clock s'" "d \<le> clock s + n"
    using seen_clock by (auto simp: guarded_def)
  have "remembered k d s'"
  proof (cases "d \<le> clock s'")
    case False
    then obtain d' where "deadline s k = Some d'" "d \<le> d'"
      using g v by (auto simp: guarded_def remembered_def)
    then show ?thesis using False v seen_keeps [OF v(1) s', of k d'] by (auto simp: remembered_def)
  qed (simp add: remembered_def)
  then show "guarded n k d s'" using v by (simp add: guarded_def)
qed

lemma keeps_remember: "keeps (guarded n k d) (remember ops a m n)"
proof (rule keepsI)
  fix s r s'
  assume g: "guarded n k d s" and "remember ops a m n s = (r, s')"
  then have "deadline s' = (deadline s)((a, m) \<mapsto> clock s + n)" "valid s'" "clock s \<le> clock s'"
    using remember_ok [of s a m n r s'] by (auto simp: guarded_def)
  with g show "guarded n k d s'" by (auto simp: guarded_def remembered_def)
qed

text \<open>Code that leaves the remembered entries alone, while time may pass.\<close>

definition quiet :: "('s, 'a) st \<Rightarrow> bool" where
  "quiet c = (\<forall>s r s'. valid s \<longrightarrow> c s = (r, s') \<longrightarrow> valid s' \<and> deadline s' = deadline s \<and> clock s \<le> clock s')"

lemma quietD: "quiet c \<Longrightarrow> valid s \<Longrightarrow> c s = (r, s') \<Longrightarrow> valid s' \<and> deadline s' = deadline s \<and> clock s \<le> clock s'"
  by (simp add: quiet_def)

lemma keeps_quiet: "quiet c \<Longrightarrow> keeps (guarded n k d) c"
  by (rule keepsI) (fastforce simp: guarded_def remembered_def dest: quietD)

lemma remember_guarded:
  assumes "valid s" "remember ops a m n s = (r, s')"
  shows "guarded n (a, m) (clock s + n) s'"
  using remember_ok [OF assms] by (auto simp: guarded_def remembered_def)

end

text \<open>
  A contact graph: its members, and the time of the last outbound message per context and peer.
\<close>

locale contact_store =
  fixes ops :: "'s contact_ops"
    and members :: "'s \<Rightarrow> string set"
    and outbound :: "'s \<Rightarrow> string \<times> string \<Rightarrow> int option"
    and clock :: "'s \<Rightarrow> int"
  assumes is_contact_ok: "is_contact ops a s = (r, s') \<Longrightarrow> r = Inr (a \<in> members s) \<and> s' = s"
    and recent_ok: "has_recent_outbound ops ctx a n s = (r, s') \<Longrightarrow>
      r = Inr (case outbound s (ctx, a) of None \<Rightarrow> False | Some t \<Rightarrow> clock s - n \<le> t) \<and> members s' = members s"
    and add_ok: "add_contact ops a s = (q, s') \<Longrightarrow> q = Inr () \<and> members s' = insert a (members s)"
begin

lemma add_is_contact:
  "add_contact ops a s = (r, s') \<Longrightarrow> is_contact ops a s' = (Inr True, s')"
  using add_ok [of a s r s'] is_contact_ok [of a s'] by (cases "is_contact ops a s'") simp

end

text \<open>A credential cache: what it holds for a sender, with expiry times.\<close>

locale credential_store =
  fixes ops :: "'s credential_ops"
    and held :: "'s \<Rightarrow> string \<Rightarrow> (VerifiedCredential \<times> int) list"
    and clock :: "'s \<Rightarrow> int"
  assumes for_sender_ok: "for_sender ops a s = (r, s') \<Longrightarrow>
      r = Inr (map fst (filter (\<lambda>(c, ex). clock s < ex) (held s a)))
      \<and> held s' = (held s)(a := filter (\<lambda>(c, ex). clock s < ex) (held s a))"
    and cache_ok: "cache ops a c ex s = (q, s') \<Longrightarrow>
      q = Inr () \<and> held s' = (held s)(a := held s a @ [(c, ex)]) \<and> clock s' = clock s"
begin

text \<open>A cached credential is found until it expires, and not after.\<close>

lemma cache_then_find:
  assumes "cache ops a c ex s = (r, s')" "for_sender ops a s' = (Inr cs, s'')"
  shows "clock s < ex \<Longrightarrow> c \<in> set cs" "c' \<in> set cs \<Longrightarrow> \<exists>ex'. clock s < ex' \<and> (c', ex') \<in> set (held s a @ [(c, ex)])"
proof -
  have "cs = map fst (filter (\<lambda>(c, ex). clock s < ex) (held s a @ [(c, ex)]))"
    using cache_ok [OF assms(1)] for_sender_ok [OF assms(2)] by simp
  then show "clock s < ex \<Longrightarrow> c \<in> set cs" "c' \<in> set cs \<Longrightarrow> \<exists>ex'. clock s < ex' \<and> (c', ex') \<in> set (held s a @ [(c, ex)])"
    by (auto split: if_splits)
qed

end

section \<open>The in-memory stores meet the contracts\<close>

definition process_clock :: "process \<Rightarrow> int" where
  "process_clock s = wall s (tick s)"

text \<open>The wall clock shows \<open>w\<close> and never runs backwards, and no key has two entries.\<close>

definition process_valid :: "(nat \<Rightarrow> int) \<Rightarrow> process \<Rightarrow> bool" where
  "process_valid w s = (wall s = w \<and> mono w \<and> distinct (map fst (rc_entries (replay_cache s))))"

definition process_deadline :: "process \<Rightarrow> string \<times> string \<Rightarrow> int option" where
  "process_deadline s k = dict_get (rc_entries (replay_cache s)) k"

lemma prune_entries:
  assumes "distinct (map fst (rc_entries c))"
  shows "dict_get (rc_entries (prune now c)) k =
      (case dict_get (rc_entries c) k of None \<Rightarrow> None | Some d \<Rightarrow> if now < d then Some d else None)"
    "distinct (map fst (rc_entries (prune now c)))"
proof -
  have "k \<in> set (map fst (filter (\<lambda>(k, v). v \<le> now) (rc_entries c))) \<longleftrightarrow>
      (\<exists>d. dict_get (rc_entries c) k = Some d \<and> d \<le> now)"
    using map_of_eq_Some_iff [OF assms] by (cases k) (auto simp: image_iff)
  then show "dict_get (rc_entries (prune now c)) k =
      (case dict_get (rc_entries c) k of None \<Rightarrow> None | Some d \<Rightarrow> if now < d then Some d else None)"
    by (auto simp: prune_def Let_def fold_delete split: option.splits)
  show "distinct (map fst (rc_entries (prune now c)))"
    using assms by (simp add: prune_def Let_def fold_delete)
qed

lemma replay_seen_eq:
  "replay_seen a m s =
     (let s' = s\<lparr>tick := Suc (tick s), replay_cache := prune (process_clock s) (replay_cache s)\<rparr>
      in (Inr (process_deadline s' (a, m) \<noteq> None), s'))"
  by (simp add: replay_seen_def sbind_def sthen_def time_def supd_def sget_def process_deadline_def
      process_clock_def Let_def)

lemma replay_remember_eq:
  "replay_remember a m n s =
     (Inr (), s\<lparr>tick := Suc (tick s), replay_cache := (replay_cache s)\<lparr>rc_entries :=
        dict_set (a, m) (process_clock s + n) (rc_entries (replay_cache s))\<rparr>\<rparr>)"
  by (simp add: replay_remember_def sbind_def sthen_def time_def supd_def process_clock_def)

interpretation memory: replay_store memory_replay process_deadline process_clock "process_valid w" for w
proof
  fix s a m
  assume v: "process_valid w s"
  then show "fst (seen memory_replay a m s) =
      Inr (case process_deadline s (a, m) of None \<Rightarrow> False | Some d \<Rightarrow> process_clock s < d)"
    by (auto simp: memory_replay_def replay_seen_eq Let_def process_deadline_def prune_entries
        process_valid_def split: option.splits)
next
  fix s a m r s' k d
  assume "process_valid w s" "seen memory_replay a m s = (r, s')" "process_deadline s k = Some d" "process_clock s < d"
  then show "process_deadline s' k = Some d"
    by (auto simp: memory_replay_def replay_seen_eq Let_def process_deadline_def prune_entries process_valid_def)
next
  fix s a m r s'
  assume "process_valid w s" "seen memory_replay a m s = (r, s')"
  then show "process_valid w s' \<and> process_clock s \<le> process_clock s'"
    by (auto simp: memory_replay_def replay_seen_eq Let_def prune_entries process_valid_def process_clock_def monoD)
next
  fix s a m n q s'
  assume v: "process_valid w s" and "remember memory_replay a m n s = (q, s')"
  then show "q = Inr () \<and> process_deadline s' = (process_deadline s)((a, m) \<mapsto> process_clock s + n)
      \<and> process_valid w s' \<and> process_clock s \<le> process_clock s'"
    by (auto simp: memory_replay_def replay_remember_eq process_deadline_def process_valid_def
        process_clock_def monoD distinct_update update_conv fun_eq_iff)
qed

definition process_members :: "process \<Rightarrow> string set" where
  "process_members s = cg_contacts (contact_graph s)"

definition process_outbound :: "process \<Rightarrow> string \<times> string \<Rightarrow> int option" where
  "process_outbound s k = dict_get (cg_outbound (contact_graph s)) k"

interpretation memory: contact_store memory_contacts process_members process_outbound process_clock
  by unfold_locales
    (auto simp: memory_contacts_def contact_is_contact_def contact_add_contact_def res_simps
      contact_has_recent_outbound_def process_members_def process_outbound_def process_clock_def
      sbind_def sthen_def sget_def supd_def time_def sret_def split: option.splits)

definition process_held :: "process \<Rightarrow> string \<Rightarrow> (VerifiedCredential \<times> int) list" where
  "process_held s a = (case dict_get (cc_by_sender (credential_cache s)) a of None \<Rightarrow> [] | Some es \<Rightarrow> es)"

interpretation memory: credential_store memory_credentials process_held process_clock
  by unfold_locales
    (auto simp: memory_credentials_def credential_for_sender_def credential_cache_add_def process_held_def
      process_clock_def sbind_def sthen_def sget_def supd_def time_def sret_def Let_def fun_eq_iff)

section \<open>The replay cache refines a history\<close>

text \<open>
  The specification of a replay cache keeps every call of \<open>remember\<close> with the end of its retention,
  latest first, and forgets nothing; the implementation deletes what has expired.
\<close>

datatype replay_call = Seen string string | Remember string string int

type_synonym history = "((string \<times> string) \<times> int) list"

definition live_in :: "history \<Rightarrow> int \<Rightarrow> string \<times> string \<Rightarrow> bool" where
  "live_in h now k = (case map_of h k of None \<Rightarrow> False | Some d \<Rightarrow> now < d)"

fun spec_calls :: "(nat \<Rightarrow> int) \<Rightarrow> nat \<Rightarrow> history \<Rightarrow> replay_call list \<Rightarrow> bool list" where
  "spec_calls w t h [] = []"
| "spec_calls w t h (Seen a m # cs) = live_in h (w t) (a, m) # spec_calls w (Suc t) h cs"
| "spec_calls w t h (Remember a m n # cs) = spec_calls w (Suc t) (((a, m), w t + n) # h) cs"

fun run_calls :: "replay_call list \<Rightarrow> process \<Rightarrow> bool list" where
  "run_calls [] s = []"
| "run_calls (Seen a m # cs) s =
     (case replay_seen a m s of (Inr b, s') \<Rightarrow> b # run_calls cs s' | (Inl e, s') \<Rightarrow> run_calls cs s')"
| "run_calls (Remember a m n # cs) s = (case replay_remember a m n s of (_, s') \<Rightarrow> run_calls cs s')"

text \<open>Cache and history agree on everything that has not expired.\<close>

definition same_live :: "history \<Rightarrow> process \<Rightarrow> bool" where
  "same_live h s = (\<forall>k d. process_clock s < d \<longrightarrow> (process_deadline s k = Some d \<longleftrightarrow> map_of h k = Some d))"

lemma same_live_later:
  "same_live h s \<Longrightarrow> process_clock s \<le> process_clock s' \<Longrightarrow>
     (\<And>k d. process_clock s' < d \<Longrightarrow> process_deadline s' k = Some d \<longleftrightarrow> process_deadline s k = Some d) \<Longrightarrow> same_live h s'"
  unfolding same_live_def by (meson order_le_less_trans)

lemma run_calls_refine:
  assumes "process_valid w s" "same_live h s"
  shows "run_calls cs s = spec_calls w (tick s) h cs"
  using assms
proof (induction cs arbitrary: s h)
  case (Cons c cs)
  have w: "process_clock s = w (tick s)" "mono w" using Cons.prems by (simp_all add: process_valid_def process_clock_def)
  show ?case
  proof (cases c)
    case (Seen a m)
    let ?s' = "s\<lparr>tick := Suc (tick s), replay_cache := prune (process_clock s) (replay_cache s)\<rparr>"
    have e: "replay_seen a m s = (Inr (process_deadline ?s' (a, m) \<noteq> None), ?s')" by (simp add: replay_seen_eq Let_def)
    have v: "process_valid w ?s'" "process_clock s \<le> process_clock ?s'"
      using memory.seen_clock [OF Cons.prems(1), of a m] e by (simp_all add: memory_replay_def)
    have "(case process_deadline s (a, m) of None \<Rightarrow> False | Some d \<Rightarrow> process_clock s < d) \<longleftrightarrow>
        (\<exists>d. process_clock s < d \<and> process_deadline s (a, m) = Some d)"
      by (auto split: option.splits)
    also have "\<dots> \<longleftrightarrow> (\<exists>d. process_clock s < d \<and> map_of h (a, m) = Some d)"
      using Cons.prems(2) unfolding same_live_def by blast
    also have "\<dots> \<longleftrightarrow> live_in h (w (tick s)) (a, m)"
      by (auto simp: live_in_def w(1) split: option.splits)
    finally have "fst (replay_seen a m s) = Inr (live_in h (w (tick s)) (a, m))"
      using memory.seen_answer [OF Cons.prems(1), of a m] by (simp add: memory_replay_def)
    moreover have "process_deadline ?s' k = Some d \<longleftrightarrow> process_deadline s k = Some d" if "process_clock ?s' < d" for k d
    proof -
      have "process_deadline ?s' k =
          (case process_deadline s k of None \<Rightarrow> None | Some d \<Rightarrow> if process_clock s < d then Some d else None)"
        using Cons.prems(1) by (simp add: process_deadline_def process_valid_def prune_entries)
      then show ?thesis using that v(2) by (cases "process_deadline s k") auto
    qed
    then have "same_live h ?s'" using same_live_later [OF Cons.prems(2) v(2)] by blast
    ultimately show ?thesis using Cons.IH [OF v(1)] e by (simp add: Seen)
  next
    case (Remember a m n)
    obtain s' where e: "replay_remember a m n s = (Inr (), s')" "tick s' = Suc (tick s)" by (simp add: replay_remember_eq)
    have r: "process_deadline s' = (process_deadline s)((a, m) \<mapsto> w (tick s) + n)" "process_valid w s'" "process_clock s \<le> process_clock s'"
      using memory.remember_ok [OF Cons.prems(1), of a m n] e w by (simp_all add: memory_replay_def)
    have "same_live (((a, m), w (tick s) + n) # h) s'"
      using Cons.prems(2) r(1,3) by (fastforce simp: same_live_def)
    then show ?thesis using Cons.IH [OF r(2)] e by (simp add: Remember)
  qed
qed simp

text \<open>
  C15: deleting expired entries is invisible: for every sequence of calls on a fresh in-memory replay
  cache, and a wall clock that does not run backwards, the answers are those of a cache that keeps its
  whole history and compares the latest deadline of a key with the time of the call.
\<close>

theorem replay_cache_refines_history:
  assumes "mono w"
  shows "run_calls cs (new_process w) = spec_calls w 0 [] cs"
proof -
  have "process_valid w (new_process w)" "same_live [] (new_process w)" "tick (new_process w) = 0"
    using assms by (simp_all add: new_process_def process_valid_def same_live_def process_deadline_def)
  then show ?thesis using run_calls_refine by metis
qed

theorem replay_cache_refines_history_witness:
  "run_calls [Seen ''a'' ''m'', Remember ''a'' ''m'' 2, Seen ''a'' ''m'', Seen ''a'' ''m''] (new_process int)
     = [False, True, False]"
proof -
  have "mono int" by (simp add: mono_def)
  from replay_cache_refines_history [OF this] show ?thesis by (simp add: live_in_def)
qed

end
