(* ===== verification/Status.thy ===== *)
theory Status
  imports Credential
begin

text \<open>
  Revocation lists, from \<open>python-sdk/src/shadownet/status.py\<close>: the bit string with its big-endian bit
  order, the wire encoding, fetching and the revocation check, synchronous and async. Shown here:
  revoking one index sets exactly that index, the encoding is inverted by the decoder, the check
  fails closed, and which exceptions of the decompressor are not turned into \<open>StatusListError\<close>.
\<close>

unbundle bit_operations_syntax

section \<open>The code\<close>

abbreviation status_error :: "string \<Rightarrow> 'a res" where
  "status_error m \<equiv> raise (Sdk StatusListError) m"

definition MAX_STATUS_BODY_BYTES :: nat where
  "MAX_STATUS_BODY_BYTES = 8 * 1024 * 1024"

record StatusList =
  bits :: bytes
  sl_size :: int

definition StatusList_empty :: "int \<Rightarrow> StatusList" where
  "StatusList_empty n =
     (let n = (if n \<le> 0 then 8 else n);
          byte_count = (n + 7) div 8
      in \<lparr>bits = replicate (nat byte_count) 0, sl_size = byte_count * 8\<rparr>)"

definition out_of_range :: "StatusList \<Rightarrow> int \<Rightarrow> string" where
  "out_of_range sl i = ''status index '' @ int_str i @ '' out of range (size '' @ int_str (sl_size sl) @ '')''"

definition is_revoked :: "StatusList \<Rightarrow> int \<Rightarrow> bool res" where
  "is_revoked sl i =
     (if i < 0 \<or> i \<ge> sl_size sl then status_error (out_of_range sl i)
      else if nat (i div 8) \<ge> length (bits sl)
      then raise (Builtin IndexError) ''index out of range''
      else Inr ((drop_bit (nat (7 - i mod 8)) (bits sl ! nat (i div 8)) AND 1) = 1))"

definition with_revoked :: "StatusList \<Rightarrow> int \<Rightarrow> StatusList res" where
  "with_revoked sl i =
     (if i < 0 \<or> i \<ge> sl_size sl then status_error (out_of_range sl i)
      else if nat (i div 8) \<ge> length (bits sl)
      then raise (Builtin IndexError) ''bytearray index out of range''
      else
        (let k = nat (i div 8)
         in Inr \<lparr>bits = (bits sl)[k := bits sl ! k OR push_bit (nat (7 - i mod 8)) 1],
                 sl_size = sl_size sl\<rparr>))"

text \<open>\<open>if len(compressed) > 9: compressed[9] = 0xFF\<close>.\<close>

definition normalize_os_byte :: "bytes \<Rightarrow> bytes" where
  "normalize_os_byte b = (if length b > 9 then b[9 := 0xFF] else b)"

definition encode_status_list :: "lib \<Rightarrow> StatusList \<Rightarrow> string" where
  "encode_status_list L sl = b64u (normalize_os_byte (gzip_compress L (bits sl)))"

definition decode_status_list :: "lib \<Rightarrow> string \<Rightarrow> StatusList res" where
  "decode_status_list L body =
     (let cleaned = strip body in
        if cleaned = '''' then status_error ''empty status list body''
        else
          bind (rewrap (b64u_decode cleaned) (Builtin ValueError) (Sdk StatusListError)
                  (\<lambda>m. ''status list base64url decode failed: '' @ m)) (\<lambda>compressed.
          bind (rewrap (gzip_decompress L compressed) (Builtin OSError) (Sdk StatusListError)
                  (\<lambda>m. ''status list gunzip failed: '' @ m)) (\<lambda>raw.
            if raw = [] then status_error ''status list bitstring is empty''
            else Inr \<lparr>bits = raw, sl_size = int (length raw) * 8\<rparr>)))"

definition build_status_list_url :: "string \<Rightarrow> string \<Rightarrow> string res" where
  "build_status_list_url issuer_domain ep =
     (if issuer_domain = '''' \<or> ep = ''''
      then status_error ''issuer_domain and epoch are both required''
      else Inr (''https://'' @ issuer_domain @ ''/.well-known/shadownet/status/'' @ ep))"

fun max_age_of :: "string list \<Rightarrow> int option" where
  "max_age_of [] = None"
| "max_age_of (part # rest) =
     (let token = lower (strip part) in
        if prefix ''max-age='' token then int_of_str (drop (length ''max-age='') token)
        else max_age_of rest)"

definition parse_max_age :: "string option \<Rightarrow> int option" where
  "parse_max_age cache_control =
     (case cache_control of
        None \<Rightarrow> None
      | Some cc \<Rightarrow> (if cc = '''' then None else max_age_of (split_on (CHR '','') cc)))"

definition interpret_status_response :: "lib \<Rightarrow> http_response \<Rightarrow> string \<Rightarrow> (StatusList \<times> int option) res" where
  "interpret_status_response L response url =
     (if status_code response \<noteq> 200
      then status_error (''status list '' @ repr url @ '' returned HTTP '' @ int_str (status_code response))
      else if length (filter (\<lambda>c. code c < 128) (resp_text response)) > MAX_STATUS_BODY_BYTES
      then status_error (''status list '' @ repr url @ '' exceeds size cap'')
      else
        bind (decode_status_list L (resp_text response)) (\<lambda>status_list.
          Inr (status_list, parse_max_age (resp_header response ''Cache-Control''))))"

type_synonym http_get = "string \<Rightarrow> headers \<Rightarrow> http_response res"

definition status_headers :: headers where
  "status_headers = [(''Accept'', ''text/plain'')]"

definition fetch_status_list :: "lib \<Rightarrow> http_get \<Rightarrow> string \<Rightarrow> string \<Rightarrow> (StatusList \<times> int option) res" where
  "fetch_status_list L get issuer_domain ep =
     bind (build_status_list_url issuer_domain ep) (\<lambda>url.
     bind (rewrap (get url status_headers) (Lib HTTPError) (Sdk StatusListError)
             (\<lambda>m. ''status list fetch failed for '' @ repr url @ '': '' @ m)) (\<lambda>response.
     interpret_status_response L response url))"

definition raise_if_revoked :: "VerifiedCredential \<Rightarrow> StatusList \<Rightarrow> unit res" where
  "raise_if_revoked credential sl =
     bind (is_revoked sl (idx (c_rev (payload credential)))) (\<lambda>r.
       if r then status_error (''credential revoked at epoch='' @ repr (epoch (c_rev (payload credential)))
              @ '' idx='' @ int_str (idx (c_rev (payload credential))))
       else Inr ())"

text \<open>\<open>check_revocation\<close>, for a callable \<open>fetch\<close> or the default.\<close>

definition check_revocation ::
  "lib \<Rightarrow> http_get \<Rightarrow> VerifiedCredential \<Rightarrow> (string \<Rightarrow> string \<Rightarrow> (StatusList \<times> int option) res) option \<Rightarrow> unit res"
where
  "check_revocation L get credential fetch =
     (let fetcher = (case fetch of Some f \<Rightarrow> f | None \<Rightarrow> fetch_status_list L get)
      in bind (fetcher (c_iss (payload credential)) (epoch (c_rev (payload credential)))) (\<lambda>(sl, _).
           raise_if_revoked credential sl))"

section \<open>Async siblings\<close>

definition afetch_status_list ::
  "lib \<Rightarrow> (string \<Rightarrow> headers \<Rightarrow> ('s, http_response) task) \<Rightarrow> string \<Rightarrow> string \<Rightarrow> ('s, StatusList \<times> int option) task"
where
  "afetch_status_list L aget issuer_domain ep =
     tbind (Ret (build_status_list_url issuer_domain ep)) (\<lambda>url.
     tbind (trewrap (aget url status_headers) (Lib HTTPError) (Sdk StatusListError)
              (\<lambda>m. ''status list fetch failed for '' @ repr url @ '': '' @ m)) (\<lambda>response.
     Ret (interpret_status_response L response url)))"

definition acheck_revocation ::
  "lib \<Rightarrow> (string \<Rightarrow> headers \<Rightarrow> ('s, http_response) task) \<Rightarrow> VerifiedCredential
    \<Rightarrow> (string \<Rightarrow> string \<Rightarrow> ('s, StatusList \<times> int option) task) option \<Rightarrow> ('s, unit) task"
where
  "acheck_revocation L aget credential fetch =
     (let fetcher = (case fetch of Some f \<Rightarrow> f | None \<Rightarrow> afetch_status_list L aget)
      in tbind (fetcher (c_iss (payload credential)) (epoch (c_rev (payload credential)))) (\<lambda>(sl, _).
           Ret (raise_if_revoked credential sl)))"

section \<open>The bit string\<close>

text \<open>A list as the code builds it: as many bits as its bytes hold.\<close>

definition sl_wf :: "StatusList \<Rightarrow> bool" where
  "sl_wf sl = (sl_size sl = int (length (bits sl)) * 8)"

text \<open>Bit \<open>i\<close> of the list, counted from the most significant bit of the first byte.\<close>

definition sl_bit :: "StatusList \<Rightarrow> nat \<Rightarrow> bool" where
  "sl_bit sl i = bit (bits sl ! (i div 8)) (7 - i mod 8)"

lemma drop_bit_and_1: "(drop_bit n w AND 1 = 1) = bit (w :: byte) n"
  by (simp only: and_one_eq odd_iff_mod_2_eq_one bit_iff_odd_drop_bit)

lemma in_range: "sl_wf sl \<Longrightarrow> 0 \<le> i \<Longrightarrow> i < sl_size sl \<Longrightarrow> nat (i div 8) < length (bits sl)"
  by (simp add: sl_wf_def)

lemma is_revoked_eq:
  assumes "sl_wf sl"
  shows "is_revoked sl i =
    (if 0 \<le> i \<and> i < sl_size sl then Inr (sl_bit sl (nat i)) else status_error (out_of_range sl i))"
proof -
  have "nat (i div 8) = nat i div 8" "nat (7 - i mod 8) = 7 - nat i mod 8" if "0 \<le> i"
    using that by (simp_all add: nat_div_distrib nat_mod_distrib nat_diff_distrib)
  then show ?thesis
    using in_range [OF assms, of i]
    by (cases "0 \<le> i") (auto simp: is_revoked_def sl_bit_def drop_bit_and_1)
qed

lemma sl_bit_update:
  assumes "i < 8 * length (bits sl)" "j < 8 * length (bits sl)"
  shows "sl_bit (sl\<lparr>bits := (bits sl)[i div 8 := bits sl ! (i div 8) OR push_bit (7 - i mod 8) 1]\<rparr>) j
    \<longleftrightarrow> j = i \<or> sl_bit sl j"
proof (cases "j div 8 = i div 8")
  case True
  have "j mod 8 < 8" "i mod 8 < 8" by simp_all
  then have "7 - j mod 8 = 7 - i mod 8 \<longleftrightarrow> j mod 8 = i mod 8" by linarith
  moreover have "j = i \<longleftrightarrow> j mod 8 = i mod 8"
    using True by (metis div_mult_mod_eq)
  moreover have "i div 8 < length (bits sl)" using assms(1) by simp
  ultimately show ?thesis
    using True by (auto simp: sl_bit_def bit_simps)
next
  case False
  then show ?thesis by (auto simp: sl_bit_def)
qed

text \<open>
  Revoking an index sets that bit and no other: in a list that the code built, for an index in
  range, the new list has the same size and answers \<open>True\<close> for this index and what it answered before
  for every other one, out-of-range errors included.
\<close>

theorem with_revoked_exact:
  assumes "sl_wf sl" "0 \<le> i" "i < sl_size sl"
  shows "\<exists>sl'. with_revoked sl i = Inr sl' \<and> sl_wf sl' \<and> sl_size sl' = sl_size sl
    \<and> (\<forall>j. is_revoked sl' j = (if j = i then Inr True else is_revoked sl j))"
proof -
  let ?k = "nat i div 8"
  define sl' where "sl' = sl\<lparr>bits := (bits sl)[?k := bits sl ! ?k OR push_bit (7 - nat i mod 8) 1]\<rparr>"
  have k: "nat (i div 8) = ?k" "nat (7 - i mod 8) = 7 - nat i mod 8"
    using assms(2) by (simp_all add: nat_div_distrib nat_mod_distrib nat_diff_distrib)
  have "nat i < 8 * length (bits sl)" using assms by (simp add: sl_wf_def)
  then have bit: "sl_bit sl' j \<longleftrightarrow> j = nat i \<or> sl_bit sl j" if "j < 8 * length (bits sl)" for j
    using that unfolding sl'_def by (rule sl_bit_update)
  have "with_revoked sl i = Inr sl'"
    using assms in_range [OF assms] by (simp add: with_revoked_def Let_def k sl'_def)
  moreover have wf: "sl_wf sl'" "sl_size sl' = sl_size sl" using assms(1) by (simp_all add: sl_wf_def sl'_def)
  moreover have "is_revoked sl' j = (if j = i then Inr True else is_revoked sl j)" for j
  proof (cases "0 \<le> j \<and> j < sl_size sl")
    case True
    then have "nat j < 8 * length (bits sl)" using assms(1) by (auto simp: sl_wf_def)
    moreover have "nat j = nat i \<longleftrightarrow> j = i" using True assms(2) by auto
    ultimately show ?thesis
      using True bit by (simp add: is_revoked_eq wf assms(1))
  next
    case False
    then show ?thesis using assms by (auto simp: is_revoked_eq wf out_of_range_def)
  qed
  ultimately show ?thesis by auto
qed

lemma empty_wf: "sl_wf (StatusList_empty n)"
  by (simp add: StatusList_empty_def sl_wf_def Let_def)

text \<open>The fresh list is large enough and revokes nothing.\<close>

lemma empty_clear: "0 \<le> i \<Longrightarrow> i < n \<Longrightarrow> is_revoked (StatusList_empty n) i = Inr False"
proof -
  assume i: "0 \<le> i" "i < n"
  then have "i < (n + 7) div 8 * 8" by linarith
  moreover from this i have "nat i div 8 < nat ((n + 7) div 8)" by (simp add: nat_less_iff zdiv_int)
  ultimately show ?thesis
    using i by (subst is_revoked_eq [OF empty_wf]) (simp add: StatusList_empty_def sl_bit_def Let_def)
qed

theorem with_revoked_exact_witness:
  "\<exists>sl'. with_revoked (StatusList_empty 100) 42 = Inr sl' \<and> sl_wf sl' \<and> is_revoked sl' 42 = Inr True
     \<and> is_revoked sl' 41 = Inr False"
proof -
  have "sl_size (StatusList_empty 100) = 104" by (simp add: StatusList_empty_def)
  then show ?thesis
    using with_revoked_exact [OF empty_wf, of 42 100] empty_clear [of 41 100] by auto
qed

section \<open>The wire form\<close>

text \<open>
  Publishing and reading a list is lossless: whatever white space surrounds the body, decoding
  the encoding of a non-empty list gives the list back, provided gzip decompresses its own output
  also after the OS byte of the header was normalized.
\<close>

theorem decode_encode_status_list:
  assumes "sl_wf sl" "bits sl \<noteq> []"
    and "gzip_decompress L (normalize_os_byte (gzip_compress L (bits sl))) = Inr (bits sl)"
    and "normalize_os_byte (gzip_compress L (bits sl)) \<noteq> []"
    and "list_all is_space pre" "list_all is_space post"
  shows "decode_status_list L (pre @ encode_status_list L sl @ post) = Inr sl"
proof -
  let ?c = "normalize_os_byte (gzip_compress L (bits sl))"
  have ne: "b64u ?c \<noteq> []"
    using assms(4) by simp
  then have "\<not> is_space (hd (b64u ?c))" "\<not> is_space (last (b64u ?c))"
    by (meson b64u_no_space hd_in_set last_in_set)+
  then have sp: "strip (pre @ b64u ?c @ post) = b64u ?c"
    using ne assms(5,6) by (intro strip_surrounded)
  then show ?thesis
    using assms(1,2,3) ne
    by (simp add: decode_status_list_def encode_status_list_def sp Let_def b64u_decode_b64u sl_wf_def)
qed

theorem decode_encode_status_list_witness:
  "decode_status_list toy_lib ('' '' @ encode_status_list toy_lib \<lparr>bits = [0x20, 0], sl_size = 16\<rparr> @ ''\<newline>'')
     = Inr \<lparr>bits = [0x20, 0], sl_size = 16\<rparr>"
proof (rule decode_encode_status_list)
  show "list_all is_space '' ''" "list_all is_space ''\<newline>''" by code_simp+
qed (simp_all add: sl_wf_def toy_lib_def normalize_os_byte_def)

section \<open>The revocation check\<close>

lemma decode_status_list_Inr:
  "decode_status_list L body = Inr sl \<Longrightarrow> sl_wf sl \<and> bits sl \<noteq> []"
  by (auto simp: decode_status_list_def Let_def res_simps sl_wf_def)

text \<open>
  C32: the check fails closed: it passes only if the issuer's status URL answered with status 200,
  the body is within the size cap and decodes to a bit string, the credential's index lies inside
  it, and the bit there is clear. A missing, broken, empty or too short list never passes.
\<close>

theorem check_revocation_iff:
  "check_revocation L get credential None = Inr () \<longleftrightarrow>
     (\<exists>url response sl.
        build_status_list_url (c_iss (payload credential)) (epoch (c_rev (payload credential))) = Inr url
        \<and> get url [(''Accept'', ''text/plain'')] = Inr response \<and> status_code response = 200
        \<and> length (filter (\<lambda>c. code c < 128) (resp_text response)) \<le> 8 * 1024 * 1024
        \<and> decode_status_list L (resp_text response) = Inr sl
        \<and> 0 \<le> idx (c_rev (payload credential)) \<and> idx (c_rev (payload credential)) < sl_size sl
        \<and> \<not> sl_bit sl (nat (idx (c_rev (payload credential)))))"
proof -
  have "raise_if_revoked credential sl = Inr () \<longleftrightarrow>
      0 \<le> idx (c_rev (payload credential)) \<and> idx (c_rev (payload credential)) < sl_size sl
      \<and> \<not> sl_bit sl (nat (idx (c_rev (payload credential))))"
    if "decode_status_list L body = Inr sl" for body sl
    using decode_status_list_Inr [OF that] by (auto simp: raise_if_revoked_def is_revoked_eq res_simps)
  then show ?thesis
    by (auto simp: check_revocation_def fetch_status_list_def interpret_status_response_def
        bind_Inr_iff rewrap_Inr_iff if_raise_Inr_iff status_headers_def MAX_STATUS_BODY_BYTES_def not_less
        cong: conj_cong)
qed

text \<open>
  Not every broken list is reported as \<open>StatusListError\<close>: \<open>gzip.decompress\<close> signals truncated data by
  \<open>EOFError\<close> and corrupt data by \<open>zlib.error\<close>, neither of which is an \<open>OSError\<close>, so both leave
  \<open>decode_status_list\<close> unchanged.
\<close>

theorem decode_status_list_escape:
  assumes "b64u_decode (strip body) = Inr compressed" "strip body \<noteq> ''''"
    and "gzip_decompress L compressed = Inl e" "cls e = Builtin EOFError \<or> cls e = Builtin ZlibError"
  shows "decode_status_list L body = Inl e \<and> \<not> is_a e (Sdk StatusListError)"
proof -
  have "\<not> is_a e (Builtin OSError)" "\<not> is_a e (Sdk StatusListError)"
    using assms(4) by (auto simp: is_a_eval)
  then show ?thesis using assms(1-3)
    by (simp add: decode_status_list_def Let_def rewrap_def try_except_def)
qed

theorem decode_status_list_escape_witness:
  "decode_status_list (toy_lib\<lparr>gzip_decompress := (\<lambda>_. raise (Builtin EOFError) ''truncated'')\<rparr>) ''c2ln''
     = raise (Builtin EOFError) ''truncated''"
proof -
  have "b64u_decode (strip ''c2ln'') = Inr (map byte_of_char ''sig'')" "strip ''c2ln'' \<noteq> ''''"
    by code_simp+
  then show ?thesis
    using decode_status_list_escape [of "''c2ln''" _ "toy_lib\<lparr>gzip_decompress := (\<lambda>_. raise (Builtin EOFError) ''truncated'')\<rparr>"]
    by (simp add: raise_def)
qed

section \<open>The async path agrees\<close>

lemma run_afetch_status_list [run_simps]:
  "(\<And>url. run (aget url status_headers) = sres (get url status_headers)) \<Longrightarrow>
     run (afetch_status_list L aget iss ep) = sres (fetch_status_list L get iss ep)"
  by (simp add: afetch_status_list_def fetch_status_list_def run_simps)

lemma run_acheck_revocation [run_simps]:
  assumes "\<And>url. run (aget url status_headers) = sres (get url status_headers)"
    and "rel_option (\<lambda>a f. \<forall>i e. run (a i e) = sres (f i e)) afetch fetch"
  shows "run (acheck_revocation L aget credential afetch) = sres (check_revocation L get credential fetch)"
proof -
  have "run ((case afetch of Some f \<Rightarrow> f | None \<Rightarrow> afetch_status_list L aget) i e)
      = sres ((case fetch of Some f \<Rightarrow> f | None \<Rightarrow> fetch_status_list L get) i e)" for i e
    using assms(2) run_afetch_status_list [of aget get, OF assms(1)]
    by (cases afetch; cases fetch) simp_all
  then show ?thesis
    by (simp add: acheck_revocation_def check_revocation_def Let_def run_simps case_prod_unfold)
qed

end
