(* ===== verification/Jcs.thy ===== *)
theory Jcs
  imports Py_Codec "HOL-Library.List_Lexorder" "HOL-Library.Multiset"
begin

text \<open>
  The JSON Canonicalization Scheme, from \<open>python-sdk/src/shadownet/jcs.py\<close>. It accepts any Python
  value, so it has its own value type; strings are lists of code points, because surrogates and
  code points above \<open>0xFFFF\<close> decide errors and the order of members. The main result is that the
  canonical text determines the value up to the order of object members, by a decoder that reads every
  canonical text back.
\<close>

section \<open>Python values\<close>

type_synonym ustr = "nat list"

abbreviation u :: "string \<Rightarrow> ustr" where
  "u s \<equiv> map of_char s"

datatype pykey =
    KStr ustr
  | KOther string  \<comment> \<open>a key of another type, by its type name\<close>

datatype pyval =
    PNone
  | PBool bool
  | PInt int
  | PFloat
  | PStr ustr
  | PSeq "pyval list"  \<comment> \<open>a list or a tuple, which the code treats alike\<close>
  | PDict "(pykey \<times> pyval) list"
  | POther string  \<comment> \<open>a value of any other type, by its type name\<close>

section \<open>The code\<close>

definition is_surrogate :: "nat \<Rightarrow> bool" where
  "is_surrogate cp = (0xD800 \<le> cp \<and> cp \<le> 0xDFFF)"

definition jcs_error :: "string \<Rightarrow> 'a res" where
  "jcs_error m = raise (Sdk JcsError) m"

text \<open>\<open>_SHORT_ESCAPES\<close>, by code point.\<close>

definition SHORT_ESCAPES :: "nat \<Rightarrow> nat option" where
  "SHORT_ESCAPES cp =
     (if cp = 0x08 then Some (code CHR ''b'')
      else if cp = 0x09 then Some (code CHR ''t'')
      else if cp = 0x0A then Some (code CHR ''n'')
      else if cp = 0x0C then Some (code CHR ''f'')
      else if cp = 0x0D then Some (code CHR ''r'')
      else None)"

definition hex_digit :: "nat \<Rightarrow> nat" where
  "hex_digit d = (if d < 10 then d + 48 else d + 87)"

text \<open>The body of the loop of \<open>_encode_string\<close>: the escaped form of one code point.\<close>

definition escape :: "nat \<Rightarrow> ustr" where
  "escape cp =
     (if cp = 0x22 then [0x5C, 0x22]
      else if cp = 0x5C then [0x5C, 0x5C]
      else (case SHORT_ESCAPES cp of
          Some e \<Rightarrow> [0x5C, e]
        | None \<Rightarrow>
            (if cp < 0x20
             then [0x5C, code CHR ''u'', 48, 48, hex_digit (cp div 16), hex_digit (cp mod 16)]
             else [cp])))"

definition hex4_upper :: "nat \<Rightarrow> string" where
  "hex4_upper n =
     (let d = (\<lambda>k. let x = n div 16 ^ k mod 16 in if x < 10 then char_of (x + 48) else char_of (x + 55))
      in [d 3, d 2, d 1, d 0])"

fun encode_chars :: "ustr \<Rightarrow> ustr res" where
  "encode_chars [] = Inr []"
| "encode_chars (cp # rest) =
     (if is_surrogate cp
      then jcs_error (''lone surrogate U+'' @ hex4_upper cp @ '' in input string'')
      else bind (encode_chars rest) (\<lambda>out. Inr (escape cp @ out)))"

definition encode_string :: "ustr \<Rightarrow> ustr res" where
  "encode_string s = bind (encode_chars s) (\<lambda>out. Inr ([0x22] @ out @ [0x22]))"

text \<open>
  \<open>s.encode("utf-16-be")\<close>: two bytes per code unit, a surrogate pair above \<open>0xFFFF\<close>, and an exception on
  a lone surrogate.
\<close>

definition utf16_units :: "nat \<Rightarrow> nat list" where
  "utf16_units cp =
     (if cp < 0x10000 then [cp]
      else [0xD800 + (cp - 0x10000) div 0x400, 0xDC00 + (cp - 0x10000) mod 0x400])"

definition utf16_be :: "ustr \<Rightarrow> nat list" where
  "utf16_be s = concat (map (\<lambda>cu. [cu div 256, cu mod 256]) (concat (map utf16_units s)))"

definition utf16_codeunits :: "ustr \<Rightarrow> nat list res" where
  "utf16_codeunits s =
     (if list_ex is_surrogate s
      then raise (Builtin UnicodeEncodeError) ''surrogates not allowed''
      else Inr (utf16_be s))"

text \<open>The loop of \<open>_encode_object\<close> that insists on string keys.\<close>

fun str_keys :: "(pykey \<times> 'a) list \<Rightarrow> (ustr \<times> 'a) list res" where
  "str_keys [] = Inr []"
| "str_keys ((KStr k, v) # rest) = bind (str_keys rest) (\<lambda>ps. Inr ((k, v) # ps))"
| "str_keys ((KOther t, v) # rest) = jcs_error (''object keys must be strings, got '' @ t)"

text \<open>
  \<open>_encode_object\<close>, given for every member the outcome of encoding its value: check the keys, sort the
  members by their keys' UTF-16 form (which raises on surrogates before anything is encoded), then
  encode key and value of each member in that order.
\<close>

definition encode_object :: "(pykey \<times> ustr res) list \<Rightarrow> ustr res" where
  "encode_object obj =
     bind (str_keys obj) (\<lambda>ps.
     bind (map_res (\<lambda>(k, _). utf16_codeunits k) ps) (\<lambda>_.
     bind (map_res (\<lambda>(k, r). bind (encode_string k) (\<lambda>ks. bind r (\<lambda>t. Inr (ks @ [58] @ t))))
             (sort_key (\<lambda>(k, _). utf16_be k) ps)) (\<lambda>parts.
     Inr ([123] @ join_with [44] parts @ [125]))))"

fun encode :: "pyval \<Rightarrow> ustr res" where
  "encode PNone = Inr (u ''null'')"
| "encode (PBool b) = Inr (if b then u ''true'' else u ''false'')"
| "encode (PStr s) = encode_string s"
| "encode (PInt i) = Inr (u (int_str i))"
| "encode PFloat = jcs_error ''float canonicalization is intentionally unsupported''"
| "encode (PDict obj) = encode_object (map (\<lambda>(k, v). (k, encode v)) obj)"
| "encode (PSeq vs) =
     bind (map_res id (map encode vs)) (\<lambda>parts. Inr ([91] @ join_with [44] parts @ [93]))"
| "encode (POther t) = jcs_error (''cannot canonicalize value of type '' @ t)"

text \<open>\<open>str.encode("utf-8")\<close> for code points that are no surrogates.\<close>

definition utf8_bytes :: "nat \<Rightarrow> nat list" where
  "utf8_bytes cp =
     (if cp < 0x80 then [cp]
      else if cp < 0x800 then [0xC0 + cp div 0x40, 0x80 + cp mod 0x40]
      else if cp < 0x10000
        then [0xE0 + cp div 0x1000, 0x80 + cp div 0x40 mod 0x40, 0x80 + cp mod 0x40]
      else [0xF0 + cp div 0x40000, 0x80 + cp div 0x1000 mod 0x40, 0x80 + cp div 0x40 mod 0x40,
            0x80 + cp mod 0x40])"

definition utf8 :: "ustr \<Rightarrow> nat list" where
  "utf8 s = concat (map utf8_bytes s)"

definition canonicalize :: "pyval \<Rightarrow> bytes res" where
  "canonicalize v = bind (encode v) (\<lambda>t. Inr (map of_nat (utf8 t)))"

section \<open>What the canonical text determines\<close>

text \<open>
  \<open>norm\<close> sorts the members of every object by the UTF-16 form of their keys; two values with the same
  normal form differ at most in the order of object members. \<open>py_ok\<close> holds of the values the
  encoder accepts, and \<open>pr\<close> is the text it writes for a normal form.
\<close>

fun key_str :: "pykey \<Rightarrow> ustr" where
  "key_str (KStr k) = k"
| "key_str (KOther t) = []"

definition member_key :: "pykey \<times> 'a \<Rightarrow> nat list" where
  "member_key m = utf16_be (key_str (fst m))"

fun norm :: "pyval \<Rightarrow> pyval" where
  "norm (PSeq vs) = PSeq (map norm vs)"
| "norm (PDict ms) = PDict (sort_key member_key (map (\<lambda>(k, v). (k, norm v)) ms))"
| "norm v = v"

definition str_ok :: "ustr \<Rightarrow> bool" where
  "str_ok s = list_all (\<lambda>cp. \<not> is_surrogate cp) s"

fun key_ok :: "pykey \<Rightarrow> bool" where
  "key_ok (KStr k) = str_ok k"
| "key_ok (KOther t) = False"

fun py_ok :: "pyval \<Rightarrow> bool" where
  "py_ok PFloat = False"
| "py_ok (POther t) = False"
| "py_ok (PStr s) = str_ok s"
| "py_ok (PSeq vs) = (\<forall>v\<in>set vs. py_ok v)"
| "py_ok (PDict ms) = (\<forall>(k, v)\<in>set ms. key_ok k \<and> py_ok v)"
| "py_ok v = True"

definition quoted :: "ustr \<Rightarrow> ustr" where
  "quoted s = [0x22] @ concat (map escape s) @ [0x22]"

fun pr :: "pyval \<Rightarrow> ustr" where
  "pr PNone = u ''null''"
| "pr (PBool b) = (if b then u ''true'' else u ''false'')"
| "pr (PStr s) = quoted s"
| "pr (PInt i) = u (int_str i)"
| "pr (PSeq vs) = [91] @ join_with [44] (map pr vs) @ [93]"
| "pr (PDict ms) =
     [123] @ join_with [44] (map (\<lambda>(k, v). quoted (key_str k) @ [58] @ pr v) ms) @ [125]"
| "pr v = []"

subsection \<open>The encoder writes the normal form\<close>

lemma insort_key_map: "insort_key f (g x) (map g xs) = map g (insort_key (\<lambda>x. f (g x)) x xs)"
  by (induction xs) auto

lemma sort_key_map: "sort_key f (map g xs) = map g (sort_key (\<lambda>x. f (g x)) xs)"
  by (induction xs) (auto simp: insort_key_map)

lemma map_res_map: "map_res f (map g xs) = map_res (\<lambda>x. f (g x)) xs"
  by (induction xs) auto

lemma map_res_Inr_map:
  assumes "\<And>x y. x \<in> set xs \<Longrightarrow> f x = Inr y \<longleftrightarrow> P x \<and> y = g x"
  shows "map_res f xs = Inr ys \<longleftrightarrow> (\<forall>x\<in>set xs. P x) \<and> ys = map g xs"
  using assms by (induction xs arbitrary: ys) (auto simp: res_simps)

lemma encode_chars_Inr_iff: "encode_chars s = Inr t \<longleftrightarrow> str_ok s \<and> t = concat (map escape s)"
  by (induction s arbitrary: t) (auto simp: res_simps str_ok_def jcs_error_def)

lemma encode_string_Inr_iff: "encode_string s = Inr t \<longleftrightarrow> str_ok s \<and> t = quoted s"
  by (auto simp: encode_string_def quoted_def res_simps encode_chars_Inr_iff)

lemma utf16_codeunits_Inr_iff: "utf16_codeunits s = Inr t \<longleftrightarrow> str_ok s \<and> t = utf16_be s"
  by (auto simp: utf16_codeunits_def str_ok_def list_ex_iff list_all_iff)

lemma str_keys_Inr_iff: "str_keys ms = Inr ps \<longleftrightarrow> ms = map (\<lambda>(k, v). (KStr k, v)) ps"
  by (induction ms arbitrary: ps rule: str_keys.induct) (auto simp: res_simps jcs_error_def)

lemma string_keys_exist:
  "\<forall>m\<in>set ms. \<exists>k. fst m = KStr k \<Longrightarrow> \<exists>qs. ms = map (\<lambda>(k, v). (KStr k, v)) qs"
proof (induction ms)
  case (Cons m ms)
  then obtain qs k where "ms = map (\<lambda>(k, v). (KStr k, v)) qs" "m = (KStr k, snd m)"
    by (metis list.set_intros prod.collapse)
  then have "m # ms = map (\<lambda>(k, v). (KStr k, v)) ((k, snd m) # qs)" by simp
  then show ?case by (rule exI)
qed simp

lemma encode_object_Inr_iff:
  fixes qs :: "(ustr \<times> pyval) list"
  assumes IH: "\<And>k v t. (k, v) \<in> set qs \<Longrightarrow> encode v = Inr t \<longleftrightarrow> py_ok v \<and> t = pr (norm v)"
  shows "encode_object (map (\<lambda>(k, v). (KStr k, encode v)) qs) = Inr t \<longleftrightarrow>
           (\<forall>(k, v)\<in>set qs. str_ok k \<and> py_ok v)
           \<and> t = [123] @ join_with [44] (map (\<lambda>(k, v). quoted k @ [58] @ pr (norm v))
                    (sort_key (\<lambda>(k, v). utf16_be k) qs)) @ [125]"
proof -
  let ?ps = "map (\<lambda>(k, v). (k, encode v)) qs"
  let ?S = "sort_key (\<lambda>(k, v). utf16_be k) qs"
  have keys: "str_keys (map (\<lambda>(k, v). (KStr k, encode v)) qs) = Inr ?ps"
    by (auto simp: str_keys_Inr_iff)
  have utf: "map_res (\<lambda>(k, _). utf16_codeunits k) ?ps = Inr ys \<longleftrightarrow>
               (\<forall>(k, v)\<in>set qs. str_ok k) \<and> ys = map (\<lambda>(k, v). utf16_be k) qs" for ys
    unfolding map_res_map
    by (subst map_res_Inr_map [where P = "\<lambda>(k, v). str_ok k" and g = "\<lambda>(k, v). utf16_be k"])
      (auto simp: utf16_codeunits_Inr_iff)
  have sorted: "sort_key (\<lambda>(k, _). utf16_be k) ?ps = map (\<lambda>(k, v). (k, encode v)) ?S"
    by (subst sort_key_map) (simp add: case_prod_unfold)
  have parts: "map_res (\<lambda>(k, r). bind (encode_string k) (\<lambda>ks. bind r (\<lambda>t. Inr (ks @ [58] @ t))))
                 (map (\<lambda>(k, v). (k, encode v)) ?S) = Inr ys \<longleftrightarrow>
               (\<forall>(k, v)\<in>set qs. str_ok k \<and> py_ok v)
               \<and> ys = map (\<lambda>(k, v). quoted k @ [58] @ pr (norm v)) ?S" for ys
    unfolding map_res_map
    by (subst map_res_Inr_map [where P = "\<lambda>(k, v). str_ok k \<and> py_ok v"
          and g = "\<lambda>(k, v). quoted k @ [58] @ pr (norm v)"])
      (auto simp: res_simps encode_string_Inr_iff IH)
  show ?thesis
    unfolding encode_object_def keys bind.simps sorted bind_Inr_iff utf parts by auto
qed

lemma encode_Inr_iff: "encode v = Inr t \<longleftrightarrow> py_ok v \<and> t = pr (norm v)"
proof (induction v arbitrary: t rule: encode.induct)
  case (6 ms)
  show ?case
  proof (cases "\<forall>m\<in>set ms. \<exists>k. fst m = KStr k")
    case True
    then obtain qs where ms: "ms = map (\<lambda>(k, v). (KStr k, v)) qs" using string_keys_exist by blast
    have enc: "encode (PDict ms) = encode_object (map (\<lambda>(k, v). (KStr k, encode v)) qs)"
      by (simp add: ms case_prod_unfold comp_def)
    have nrm: "norm (PDict ms) = PDict (map (\<lambda>(k, v). (KStr k, norm v)) (sort_key (\<lambda>(k, v). utf16_be k) qs))"
      unfolding norm.simps ms map_map
      by (subst sort_key_map) (auto simp: case_prod_unfold comp_def member_key_def)
    have "encode_object (map (\<lambda>(k, v). (KStr k, encode v)) qs) = Inr t \<longleftrightarrow>
           (\<forall>(k, v)\<in>set qs. str_ok k \<and> py_ok v)
           \<and> t = [123] @ join_with [44] (map (\<lambda>(k, v). quoted k @ [58] @ pr (norm v))
                    (sort_key (\<lambda>(k, v). utf16_be k) qs)) @ [125]"
      by (rule encode_object_Inr_iff) (use 6 ms in force)
    then show ?thesis unfolding enc nrm by (auto simp: ms case_prod_unfold comp_def)
  next
    case False
    then obtain m t' where m: "m \<in> set ms" "fst m = KOther t'" by (metis pykey.exhaust)
    have "str_keys (map (\<lambda>(k, v). (k, encode v)) ms) \<noteq> Inr ps" for ps
    proof
      assume "str_keys (map (\<lambda>(k, v). (k, encode v)) ms) = Inr ps"
      then have "map (\<lambda>(k, v). (k, encode v)) ms = map (\<lambda>(k, v). (KStr k, v)) ps"
        by (simp add: str_keys_Inr_iff)
      then have "map fst (map (\<lambda>(k, v). (k, encode v)) ms) = map fst (map (\<lambda>(k, v). (KStr k, v)) ps)"
        by (rule arg_cong)
      then have "map fst ms = map (\<lambda>(k, v). KStr k) ps"
        by (simp add: comp_def case_prod_unfold)
      moreover have "fst m \<in> set (map fst ms)" using m(1) by simp
      ultimately have "KOther t' \<in> set (map (\<lambda>(k, v). KStr k) ps)" using m(2) by simp
      then show False by auto
    qed
    then have "encode (PDict ms) \<noteq> Inr t"
      by (simp add: encode_object_def bind_Inr_iff)
    moreover have "\<not> py_ok (PDict ms)"
      using m by (auto simp: case_prod_unfold intro!: bexI [of _ m])
    ultimately show ?thesis by blast
  qed
next
  case (7 vs)
  have "map_res id (map encode vs) = Inr ys \<longleftrightarrow> (\<forall>v\<in>set vs. py_ok v) \<and> ys = map (\<lambda>v. pr (norm v)) vs" for ys
    unfolding map_res_map by (rule map_res_Inr_map) (simp add: 7)
  then show ?case by (auto simp: res_simps comp_def)
qed (auto simp: encode_string_Inr_iff jcs_error_def)

subsection \<open>The text determines the normal form\<close>

text \<open>
  Every piece of text is read off uniquely in front of whatever follows it: an escape sequence and a
  quoted string before anything, a value before the end of the text or one of the characters
  \<open>,\<close>, \<open>]\<close>, \<open>}\<close>.
\<close>

definition unhex :: "nat \<Rightarrow> nat" where
  "unhex h = (if h < 58 then h - 48 else h - 87)"

definition unescape :: "ustr \<Rightarrow> nat \<times> ustr" where
  "unescape t =
     (if hd t \<noteq> 0x5C then (hd t, tl t)
      else if t ! 1 = 0x75 then (unhex (t ! 4) * 16 + unhex (t ! 5), drop 6 t)
      else (if t ! 1 = 0x62 then 0x08 else if t ! 1 = 0x74 then 0x09 else if t ! 1 = 0x6E then 0x0A
            else if t ! 1 = 0x66 then 0x0C else if t ! 1 = 0x72 then 0x0D else t ! 1, drop 2 t))"

lemma unhex_hex_digit [simp]: "d < 16 \<Longrightarrow> unhex (hex_digit d) = d"
  by (auto simp: hex_digit_def unhex_def)

lemma unescape_escape: "unescape (escape cp @ x) = (cp, x)"
proof (cases "cp < 0x20")
  case True
  then have "cp div 16 < 16" by simp
  with True show ?thesis by (auto simp: unescape_def escape_def SHORT_ESCAPES_def)
next
  case False
  then show ?thesis by (auto simp: unescape_def escape_def SHORT_ESCAPES_def)
qed

lemma escape_prefix: "escape a @ x = escape b @ y \<Longrightarrow> a = b \<and> x = y"
  by (metis prod.inject unescape_escape)

lemma escape_not_quote: "escape cp @ x \<noteq> 0x22 # y"
  by (auto simp: escape_def SHORT_ESCAPES_def)

lemma quoted_body:
  "concat (map escape s) @ 0x22 # x = concat (map escape s') @ 0x22 # y \<Longrightarrow> s = s' \<and> x = y"
proof (induction s arbitrary: s')
  case Nil
  then show ?case by (cases s') (auto simp: escape_not_quote dest!: sym [of "0x22 # x"])
next
  case (Cons a s)
  show ?case
  proof (cases s')
    case Nil
    with Cons.prems show ?thesis by (simp add: escape_not_quote)
  next
    case s': (Cons b t)
    with Cons.prems escape_prefix [of a _ b]
    have "a = b \<and> concat (map escape s) @ 0x22 # x = concat (map escape t) @ 0x22 # y" by simp
    with Cons.IH s' show ?thesis by blast
  qed
qed

lemma quoted_prefix: "quoted s @ x = quoted s' @ y \<Longrightarrow> s = s' \<and> x = y"
  using quoted_body [of s x s' y] by (simp add: quoted_def)

definition delim :: "ustr \<Rightarrow> bool" where
  "delim r = (r = [] \<or> hd r = 44 \<or> hd r = 93 \<or> hd r = 125)"

lemma digits_prefix:
  fixes a b :: "nat list"
  assumes "\<forall>c\<in>set a. D c" "\<forall>c\<in>set b. D c" "r = [] \<or> \<not> D (hd r)" "r' = [] \<or> \<not> D (hd r')" "a @ r = b @ r'"
  shows "a = b \<and> r = r'"
proof -
  have "takeWhile D (a @ r) = a" "takeWhile D (b @ r') = b"
    using assms(1-4) by (auto simp: takeWhile_append2 takeWhile_eq_Nil_iff)
  with assms(5) show ?thesis by force
qed

lemma int_str_chars: "c \<in> set (int_str i) \<Longrightarrow> is_digit c \<or> c = CHR ''-''"
  by (auto simp: int_str_def dest: nat_str_digits split: if_splits)

lemma int_str_nonempty: "int_str i \<noteq> []"
  by (simp add: int_str_def)

lemma int_str_inj: "int_str i = int_str j \<Longrightarrow> i = j"
proof -
  assume eq: "int_str i = int_str j"
  have "nat_str n \<noteq> CHR ''-'' # s" for n s
    using nat_str_digits [of "CHR ''-''" n] by (auto simp: is_digit_def)
  with eq show ?thesis by (auto simp: int_str_def nat_str_inj split: if_splits dest: sym)
qed

lemma u_inj: "u s = u t \<Longrightarrow> s = t"
  by (metis inj_map_eq_map inj_of_char)

lemma int_prefix:
  assumes "delim r" "delim r'" "u (int_str i) @ r = u (int_str j) @ r'"
  shows "i = j \<and> r = r'"
proof -
  let ?D = "\<lambda>c :: nat. 48 \<le> c \<and> c \<le> 57 \<or> c = 45"
  have "\<forall>c\<in>set (u (int_str k)). ?D c" for k
    by (auto dest!: int_str_chars simp: is_digit_def)
  then have "u (int_str i) = u (int_str j) \<and> r = r'"
    using assms by (intro digits_prefix [where D = ?D]) (auto simp: delim_def)
  then show ?thesis using int_str_inj u_inj by blast
qed

lemma join_with_Cons: "join_with sep (x # xs) = x @ (if xs = [] then [] else sep @ join_with sep xs)"
  by (cases xs) auto

lemma joined_prefix:
  fixes f :: "'a \<Rightarrow> ustr"
  assumes "\<And>x y r r'. x \<in> set xs \<Longrightarrow> y \<in> set ys \<Longrightarrow> delim r \<Longrightarrow> delim r' \<Longrightarrow> f x @ r = f y @ r' \<Longrightarrow> x = y \<and> r = r'"
    and "\<And>x. x \<in> set xs \<union> set ys \<Longrightarrow> f x \<noteq> [] \<and> hd (f x) \<noteq> c"
    and "c = 93 \<or> c = 125"
    and "join_with [44] (map f xs) @ c # r = join_with [44] (map f ys) @ c # r'"
  shows "xs = ys \<and> r = r'"
  using assms
proof (induction xs arbitrary: ys)
  case Nil
  show ?case
  proof (cases ys)
    case (Cons y ys')
    with Nil.prems(2) [of y] Nil.prems(4) show ?thesis
      by (auto simp: join_with_Cons neq_Nil_conv)
  qed (use Nil in auto)
next
  case (Cons x xs)
  show ?case
  proof (cases ys)
    case Nil
    with Cons.prems(2) [of x] Cons.prems(4) show ?thesis
      by (auto simp: join_with_Cons neq_Nil_conv)
  next
    case ys: (Cons y ys')
    let ?tail = "\<lambda>zs s. (if zs = [] then [] else 44 # join_with [44] (map f zs)) @ c # s"
    have "f x @ ?tail xs r = f y @ ?tail ys' r'"
      using Cons.prems(4) ys by (auto simp: join_with_Cons)
    moreover have "delim (?tail zs s)" for zs s
      using Cons.prems(3) by (auto simp: delim_def)
    ultimately have xy: "x = y" and t: "?tail xs r = ?tail ys' r'"
      using Cons.prems(1) [of x y "?tail xs r" "?tail ys' r'"] ys by auto
    show ?thesis
    proof (cases "xs = [] \<or> ys' = []")
      case True
      with t Cons.prems(3) xy ys show ?thesis by (auto split: if_splits)
    next
      case False
      with t have "join_with [44] (map f xs) @ c # r = join_with [44] (map f ys') @ c # r'" by simp
      moreover have "xs = ys' \<and> r = r'"
        using Cons.prems(1-3) ys by (intro Cons.IH [OF _ _ _ calculation]) auto
      ultimately show ?thesis using xy ys by simp
    qed
  qed
qed

text \<open>The first character of a value's text tells its kind.\<close>

definition kind_of_char :: "nat \<Rightarrow> nat" where
  "kind_of_char c = (if c = 110 then 0 else if c = 116 \<or> c = 102 then 1 else if c = 34 then 2
     else if c = 91 then 4 else if c = 123 then 5 else 3)"

fun kind :: "pyval \<Rightarrow> nat" where
  "kind PNone = 0"
| "kind (PBool b) = 1"
| "kind (PStr s) = 2"
| "kind (PSeq vs) = 4"
| "kind (PDict ms) = 5"
| "kind v = 3"

lemma int_first: "\<exists>c cs. u (int_str i) = c # cs \<and> (48 \<le> c \<and> c \<le> 57 \<or> c = 45)"
proof -
  obtain c cs where s: "int_str i = c # cs" using int_str_nonempty by (meson neq_Nil_conv)
  then have "is_digit c \<or> c = CHR ''-''" using int_str_chars [of c i] by simp
  then show ?thesis by (auto simp: s is_digit_def)
qed

lemma pr_first:
  assumes "py_ok v"
  shows "pr v \<noteq> []" "kind_of_char (hd (pr v)) = kind v" "hd (pr v) \<noteq> 93" "hd (pr v) \<noteq> 125"
proof -
  have "pr v \<noteq> [] \<and> kind_of_char (hd (pr v)) = kind v \<and> hd (pr v) \<noteq> 93 \<and> hd (pr v) \<noteq> 125"
  proof (cases v)
    case (PInt i)
    obtain c cs where "u (int_str i) = c # cs" "48 \<le> c \<and> c \<le> 57 \<or> c = 45"
      using int_first [of i] by auto
    with PInt show ?thesis by (auto simp: kind_of_char_def)
  qed (use assms in \<open>auto simp: kind_of_char_def quoted_def\<close>)
  then show "pr v \<noteq> []" "kind_of_char (hd (pr v)) = kind v" "hd (pr v) \<noteq> 93" "hd (pr v) \<noteq> 125"
    by simp_all
qed

lemma pr_prefix:
  "py_ok v \<Longrightarrow> py_ok w \<Longrightarrow> delim r \<Longrightarrow> delim r' \<Longrightarrow> pr v @ r = pr w @ r' \<Longrightarrow> v = w \<and> r = r'"
proof (induction v arbitrary: w r r')
  case (PSeq vs)
  then have "kind w = 4"
    by (metis append_is_Nil_conv hd_append2 kind.simps(4) pr_first(1,2))
  then obtain ws where w: "w = PSeq ws" by (cases w) auto
  have "vs = ws \<and> r = r'"
  proof (rule joined_prefix [where f = pr and c = 93])
    show "x = y \<and> s = s'" if "x \<in> set vs" "y \<in> set ws" "delim s" "delim s'" "pr x @ s = pr y @ s'" for x y s s'
      using PSeq.IH [OF that(1) _ _ that(3,4,5)] PSeq.prems(1,2) that w by auto
    show "pr x \<noteq> [] \<and> hd (pr x) \<noteq> 93" if "x \<in> set vs \<union> set ws" for x
      using that PSeq.prems(1,2) w pr_first by auto
  qed (use PSeq.prems w in auto)
  with w show ?case by simp
next
  case (PDict ms)
  then have "kind w = 5"
    by (metis append_is_Nil_conv hd_append2 kind.simps(5) pr_first(1,2))
  then obtain ns where w: "w = PDict ns" by (cases w) auto
  let ?f = "\<lambda>(k, v). quoted (key_str k) @ [58] @ pr v"
  have "ms = ns \<and> r = r'"
  proof (rule joined_prefix [where f = ?f and c = 125])
    show "x = y \<and> s = s'" if "x \<in> set ms" "y \<in> set ns" "delim s" "delim s'" "?f x @ s = ?f y @ s'" for x y s s'
    proof -
      obtain k v k' v' where xy: "x = (k, v)" "y = (k', v')" by fastforce
      have ok: "key_ok k" "key_ok k'" "py_ok v" "py_ok v'"
        using PDict.prems(1,2) that(1,2) xy w by auto
      have "key_str k = key_str k'" "pr v @ s = pr v' @ s'"
        using that(5) xy quoted_prefix [of "key_str k" "58 # pr v @ s" "key_str k'" "58 # pr v' @ s'"] by auto
      moreover have "v = v' \<and> s = s'"
        using PDict.IH [of x v v' s s'] that(1,3,4) xy ok calculation(2) by auto
      ultimately show ?thesis using ok xy by (cases k; cases k') auto
    qed
    show "?f x \<noteq> [] \<and> hd (?f x) \<noteq> 125" if "x \<in> set ms \<union> set ns" for x
      by (simp add: case_prod_unfold quoted_def)
  qed (use PDict.prems w in auto)
  with w show ?case by simp
next
  case (PStr s)
  then have "kind w = 2"
    by (metis append_is_Nil_conv hd_append2 kind.simps(3) pr_first(1,2))
  then obtain s' where "w = PStr s'" by (cases w) auto
  with PStr.prems(5) quoted_prefix [of s r s' r'] show ?case by simp
next
  case (PInt i)
  then have "kind w = 3"
    by (metis append_is_Nil_conv hd_append2 kind.simps(8) pr_first(1,2) kind.simps(6) kind.simps(7))
  then obtain j where "w = PInt j" using PInt.prems(2) by (cases w) auto
  with PInt.prems(3-5) int_prefix [of r r' i j] show ?case by simp
next
  case (PBool b)
  then have "kind w = 1"
    by (metis append_is_Nil_conv hd_append2 kind.simps(2) pr_first(1,2))
  then obtain b' where "w = PBool b'" by (cases w) auto
  with PBool.prems(5) show ?case by (auto split: if_splits)
next
  case PNone
  then have "kind w = 0"
    by (metis append_is_Nil_conv hd_append2 kind.simps(1) pr_first(1,2))
  then have "w = PNone" by (cases w) auto
  with PNone.prems(5) show ?case by simp
qed auto

subsection \<open>Encodings of code points\<close>

definition code_points :: "ustr \<Rightarrow> bool" where
  "code_points s = list_all (\<lambda>cp. cp < 0x110000) s"

lemma prefix_code:
  assumes "\<And>a b x y. P a \<Longrightarrow> P b \<Longrightarrow> f a @ x = f b @ y \<Longrightarrow> a = b \<and> x = y"
    and "\<And>a. P a \<Longrightarrow> f a \<noteq> []"
    and "list_all P s" "list_all P t" "concat (map f s) = concat (map f t)"
  shows "s = t"
  using assms(3-5)
proof (induction s arbitrary: t)
  case Nil
  then show ?case using assms(2) by (cases t) auto
next
  case (Cons a s)
  show ?case
  proof (cases t)
    case Nil
    with Cons.prems assms(2) show ?thesis by auto
  next
    case t: (Cons b t')
    with Cons.prems have "a = b \<and> concat (map f s) = concat (map f t')"
      by (intro assms(1)) auto
    with Cons t show ?thesis by auto
  qed
qed

definition un_utf8 :: "nat list \<Rightarrow> nat \<times> nat list" where
  "un_utf8 t =
     (let c = hd t in
      if c < 0x80 then (c, drop 1 t)
      else if c < 0xE0 then ((c - 0xC0) * 0x40 + (t ! 1 - 0x80), drop 2 t)
      else if c < 0xF0
        then ((c - 0xE0) * 0x1000 + (t ! 1 - 0x80) * 0x40 + (t ! 2 - 0x80), drop 3 t)
      else ((c - 0xF0) * 0x40000 + (t ! 1 - 0x80) * 0x1000 + (t ! 2 - 0x80) * 0x40 + (t ! 3 - 0x80),
            drop 4 t))"

lemma base64_digits:
  fixes a b c n m k :: nat
  shows "a * 64 + b = n \<Longrightarrow> n * 64 + m = k \<Longrightarrow> a * 4096 + b * 64 + m = k"
    "c * 64 + d = a \<Longrightarrow> a * 64 + b = n \<Longrightarrow> n * 64 + m = k \<Longrightarrow> c * 262144 + d * 4096 + b * 64 + m = k"
  by simp_all

lemma un_utf8_bytes: "un_utf8 (utf8_bytes cp @ x) = (cp, x)"
proof -
  have "cp div 4096 = cp div 64 div 64" "cp div 262144 = cp div 64 div 64 div 64"
    by (simp_all add: div_mult2_eq [symmetric])
  then have e: "cp div 4096 * 4096 + cp div 64 mod 64 * 64 + cp mod 64 = cp"
    "cp div 262144 * 262144 + cp div 4096 mod 64 * 4096 + cp div 64 mod 64 * 64 + cp mod 64 = cp"
    using base64_digits(1) [of "cp div 64 div 64" "cp div 64 mod 64" "cp div 64" "cp mod 64" cp]
      base64_digits(2) [of "cp div 64 div 64 div 64" "cp div 64 div 64 mod 64" "cp div 64 div 64"
        "cp div 64 mod 64" "cp div 64" "cp mod 64" cp] by simp_all
  show ?thesis
  proof (cases "cp < 0x800")
    case True
    then have "cp div 64 < 32" by simp
    with True show ?thesis by (auto simp: utf8_bytes_def un_utf8_def Let_def)
  next
    case False
    show ?thesis
    proof (cases "cp < 0x10000")
      case True
      then have "cp div 4096 < 16" by simp
      with True False show ?thesis using e(1) by (auto simp: utf8_bytes_def un_utf8_def Let_def)
    next
      case big: False
      then show ?thesis using e(2) by (auto simp: utf8_bytes_def un_utf8_def Let_def)
    qed
  qed
qed

lemma utf8_bytes_not_Nil [simp]: "utf8_bytes cp \<noteq> []"
  by (simp add: utf8_bytes_def)

lemma utf8_inj: "utf8 s = utf8 t \<Longrightarrow> s = t"
  unfolding utf8_def
proof (rule prefix_code [where P = "\<lambda>_. True" and f = utf8_bytes])
  show "a = b \<and> x = y" if "utf8_bytes a @ x = utf8_bytes b @ y" for a b x y
    using that by (metis prod.inject un_utf8_bytes)
qed (simp_all add: list_all_iff)

lemma utf8_bytes_range: "cp < 0x110000 \<Longrightarrow> b \<in> set (utf8_bytes cp) \<Longrightarrow> b < 256"
  by (auto simp: utf8_bytes_def split: if_splits)

definition utf16_pairs :: "nat \<Rightarrow> nat list" where
  "utf16_pairs cp = concat (map (\<lambda>cu. [cu div 256, cu mod 256]) (utf16_units cp))"

lemma utf16_be_pairs: "utf16_be s = concat (map utf16_pairs s)"
  by (induction s) (auto simp: utf16_be_def utf16_pairs_def)

definition un_utf16 :: "nat list \<Rightarrow> nat \<times> nat list" where
  "un_utf16 t =
     (let cu = t ! 0 * 256 + t ! 1 in
      if is_surrogate cu
      then ((cu - 0xD800) * 0x400 + (t ! 2 * 256 + t ! 3 - 0xDC00) + 0x10000, drop 4 t)
      else (cu, drop 2 t))"

lemma un_utf16_pairs:
  assumes "cp < 0x110000" "\<not> is_surrogate cp"
  shows "un_utf16 (utf16_pairs cp @ x) = (cp, x)"
proof (cases "cp < 0x10000")
  case True
  with assms show ?thesis by (simp add: un_utf16_def utf16_pairs_def utf16_units_def)
next
  case False
  let ?h = "0xD800 + (cp - 0x10000) div 0x400" and ?l = "0xDC00 + (cp - 0x10000) mod 0x400"
  have "is_surrogate ?h" using assms False by (auto simp: is_surrogate_def)
  moreover have "(cp - 0x10000) div 0x400 * 0x400 + (cp - 0x10000) mod 0x400 + 0x10000 = cp"
    using False by simp
  moreover have "utf16_pairs cp @ x = ?h div 256 # ?h mod 256 # ?l div 256 # ?l mod 256 # x"
    using False unfolding utf16_pairs_def utf16_units_def by simp
  moreover have "?h div 256 * 256 + ?h mod 256 = ?h" "?l div 256 * 256 + ?l mod 256 = ?l"
    by (rule div_mult_mod_eq)+
  ultimately show ?thesis by (simp only: un_utf16_def Let_def nth_Cons_0 nth_Cons_numeral) simp
qed

lemma utf16_pairs_not_Nil [simp]: "utf16_pairs cp \<noteq> []"
  by (simp add: utf16_pairs_def utf16_units_def)

lemma utf16_be_inj:
  assumes "code_points s" "code_points t" "str_ok s" "str_ok t" "utf16_be s = utf16_be t"
  shows "s = t"
proof (rule prefix_code [where P = "\<lambda>cp. cp < 0x110000 \<and> \<not> is_surrogate cp" and f = utf16_pairs])
  show "a = b \<and> x = y" if "a < 0x110000 \<and> \<not> is_surrogate a" "b < 0x110000 \<and> \<not> is_surrogate b"
    "utf16_pairs a @ x = utf16_pairs b @ y" for a b x y
    using that by (metis prod.inject un_utf16_pairs)
qed (use assms in \<open>auto simp: code_points_def str_ok_def list_all_iff utf16_be_pairs\<close>)

subsection \<open>Canonicalization\<close>

text \<open>
  \<open>py_wf\<close>: what Python guarantees of every value: characters are code points and the keys of a
  dictionary are distinct.
\<close>

fun py_wf :: "pyval \<Rightarrow> bool" where
  "py_wf (PStr s) = code_points s"
| "py_wf (PSeq vs) = (\<forall>v\<in>set vs. py_wf v)"
| "py_wf (PDict ms) =
     (distinct (map fst ms) \<and> (\<forall>(k, v)\<in>set ms. code_points (key_str k) \<and> py_wf v))"
| "py_wf v = True"

lemma py_ok_norm [simp]: "py_ok (norm v) = py_ok v"
  by (induction v) (auto simp: case_prod_unfold)

lemma canonicalize_Inr_iff:
  "canonicalize v = Inr b \<longleftrightarrow> py_ok v \<and> b = map of_nat (utf8 (pr (norm v)))"
  by (auto simp: canonicalize_def res_simps encode_Inr_iff)

lemma code_points_append [simp]: "code_points (s @ t) \<longleftrightarrow> code_points s \<and> code_points t"
  by (simp add: code_points_def)

lemma code_points_Nil [simp]: "code_points []"
  by (simp add: code_points_def)

lemma code_points_Cons [simp]: "code_points (c # s) \<longleftrightarrow> c < 0x110000 \<and> code_points s"
  by (simp add: code_points_def)

lemma code_points_u [simp]: "code_points (u s)"
proof -
  have "of_char c < (256 :: nat)" for c :: char by simp
  then have "of_char c < (0x110000 :: nat)" for c :: char
    by (rule less_le_trans) simp
  then show ?thesis by (simp add: code_points_def list_all_iff)
qed

lemma code_points_join: "\<forall>t\<in>set ts. code_points t \<Longrightarrow> code_points sep \<Longrightarrow> code_points (join_with sep ts)"
  by (induction sep ts rule: join_with.induct) auto

lemma code_points_escape: "cp < 0x110000 \<Longrightarrow> code_points (escape cp)"
  by (auto simp: escape_def SHORT_ESCAPES_def hex_digit_def split: if_splits)

lemma code_points_quoted: "code_points s \<Longrightarrow> code_points (quoted s)"
  by (induction s) (auto simp: quoted_def code_points_escape)

lemma code_points_pr: "py_wf v \<Longrightarrow> code_points (pr v)"
proof (induction v)
  case (PSeq vs)
  then have "code_points (join_with [44] (map pr vs))" by (intro code_points_join) auto
  then show ?case by simp
next
  case (PDict ms)
  have "code_points (quoted (key_str k) @ [58] @ pr v)" if "(k, v) \<in> set ms" for k v
    using that PDict code_points_quoted by fastforce
  then have "code_points (join_with [44] (map (\<lambda>(k, v). quoted (key_str k) @ [58] @ pr v) ms))"
    by (intro code_points_join) auto
  then show ?case by simp
next
  case (PInt i)
  show ?case by (simp only: pr.simps code_points_u)
qed (auto simp: code_points_quoted)

lemma py_wf_norm: "py_wf v \<Longrightarrow> py_wf (norm v)"
proof (induction v)
  case (PDict ms)
  have "distinct (map fst (map (\<lambda>(k, v). (k, norm v)) ms))"
    using PDict.prems by (simp add: comp_def case_prod_unfold)
  then have "distinct (map fst (sort_key member_key (map (\<lambda>(k, v). (k, norm v)) ms)))"
    by (subst mset_eq_imp_distinct_iff [of _ "map fst (map (\<lambda>(k, v). (k, norm v)) ms)"])
      (simp_all only: mset_map mset_sort)
  moreover have "\<forall>(k, v)\<in>set (map (\<lambda>(k, v). (k, norm v)) ms). code_points (key_str k) \<and> py_wf v"
    using PDict by fastforce
  ultimately show ?case by (simp del: set_map)
qed auto

lemma of_nat_byte_inj: "a < 256 \<Longrightarrow> b < 256 \<Longrightarrow> (of_nat a :: byte) = of_nat b \<longleftrightarrow> a = b"
  by (simp add: word_of_nat_eq_iff take_bit_eq_mod)

lemma utf8_bytes_inj:
  assumes "code_points s" "code_points t" "map of_nat (utf8 s) = (map of_nat (utf8 t) :: bytes)"
  shows "s = t"
proof -
  have r: "\<forall>b\<in>set (utf8 s). b < 256" "\<forall>b\<in>set (utf8 t). b < 256"
    using assms utf8_bytes_range by (auto simp: utf8_def code_points_def list_all_iff)
  have "inj_on (of_nat :: nat \<Rightarrow> byte) (set (utf8 s) \<union> set (utf8 t))"
    using r of_nat_byte_inj by (auto intro!: inj_onI)
  then have "utf8 s = utf8 t" using assms(3) map_inj_on by blast
  then show ?thesis by (rule utf8_inj)
qed

lemma canonicalize_Inr_same:
  assumes "py_wf v" "py_wf w" "canonicalize v = Inr b" "canonicalize w = Inr b"
  shows "norm w = norm v"
proof -
  have ok: "py_ok v" "py_ok w" and "map of_nat (utf8 (pr (norm v))) = (map of_nat (utf8 (pr (norm w))) :: bytes)"
    using assms(3,4) by (auto simp: canonicalize_Inr_iff)
  then have "pr (norm v) = pr (norm w)"
    using assms(1,2) by (intro utf8_bytes_inj) (auto intro!: code_points_pr py_wf_norm)
  then show ?thesis using pr_prefix [of "norm v" "norm w" "[]" "[]"] ok by (simp add: delim_def)
qed

lemma canonicalize_norm_cong: "norm v = norm w \<Longrightarrow> canonicalize v = Inr b \<longleftrightarrow> canonicalize w = Inr b"
  by (metis canonicalize_Inr_iff py_ok_norm)

text \<open>
  C28: canonical bytes identify a value up to the order of object members: when \<open>canonicalize\<close>
  succeeds on \<open>v\<close>, another value has the same canonical bytes if and only if it has the same
  normal form. Neither an escape, a number, nor a member can be respelt without changing the bytes.
\<close>

theorem canonicalize_injective:
  assumes "py_wf v" "py_wf w" "canonicalize v = Inr b"
  shows "canonicalize w = Inr b \<longleftrightarrow> norm w = norm v"
  using assms canonicalize_Inr_same canonicalize_norm_cong by blast

definition ex_obj :: pyval where
  "ex_obj = PDict [(KStr (u ''b''), PSeq [PInt (-7), PNone]), (KStr (u ''a''), PStr (u ''x'' @ [10, 0x1F600]))]"

definition ex_obj_reordered :: pyval where
  "ex_obj_reordered =
     PDict [(KStr (u ''a''), PStr (u ''x'' @ [10, 0x1F600])), (KStr (u ''b''), PSeq [PInt (-7), PNone])]"

theorem canonicalize_injective_witness:
  "py_wf ex_obj \<and> py_wf ex_obj_reordered \<and>
   (\<exists>b. canonicalize ex_obj = Inr b \<and> canonicalize ex_obj_reordered = Inr b)"
proof -
  have "py_wf ex_obj" "py_wf ex_obj_reordered"
    by (simp_all add: ex_obj_def ex_obj_reordered_def)
  moreover have "py_ok ex_obj"
    by (simp add: ex_obj_def str_ok_def is_surrogate_def)
  moreover have "norm ex_obj_reordered = norm ex_obj"
    by (simp add: ex_obj_def ex_obj_reordered_def member_key_def utf16_be_def utf16_units_def)
  ultimately show ?thesis
    using canonicalize_injective [of ex_obj ex_obj_reordered] canonicalize_Inr_iff [of ex_obj] by blast
qed

lemma member_key_inj:
  assumes "py_wf (PDict ms)" "py_ok (PDict ms)"
  shows "inj_on member_key (set (map (\<lambda>(k, v). (k, norm v)) ms))"
proof (rule inj_onI)
  fix x y
  assume x: "x \<in> set (map (\<lambda>(k, v). (k, norm v)) ms)" and y: "y \<in> set (map (\<lambda>(k, v). (k, norm v)) ms)"
    and eq: "member_key x = member_key y"
  then obtain k v k' v' where xy: "x = (k, norm v)" "y = (k', norm v')" "(k, v) \<in> set ms" "(k', v') \<in> set ms"
    by auto
  then have "key_ok k" "key_ok k'" "code_points (key_str k)" "code_points (key_str k')"
    using assms by auto
  moreover have "str_ok (key_str k)" "str_ok (key_str k')"
    using calculation by (cases k; cases k'; simp)+
  ultimately have "k = k'"
    using utf16_be_inj [of "key_str k" "key_str k'"] eq xy by (cases k; cases k') (auto simp: member_key_def)
  moreover have "distinct (map fst ms)" using assms(1) by simp
  ultimately show "x = y" using xy by (metis eq_key_imp_eq_value)
qed

text \<open>
  The order in which a dictionary was filled does not show in its canonical bytes: dictionaries
  with the same members, in any order, canonicalize to the same bytes or both fail.
\<close>

theorem canonicalize_member_order:
  assumes "py_wf (PDict ms)" "mset ms = mset ms'"
  shows "canonicalize (PDict ms) = Inr b \<longleftrightarrow> canonicalize (PDict ms') = Inr b"
proof (cases "py_ok (PDict ms)")
  case True
  let ?n = "map (\<lambda>(k, v). (k, norm v))"
  have "sort_key member_key (?n ms) = sort_key member_key (?n ms')"
    using assms(2) member_key_inj [OF assms(1) True]
    by (intro sort_key_inj_key_eq) auto
  then show ?thesis by (intro canonicalize_norm_cong) simp
next
  case False
  moreover have "\<not> py_ok (PDict ms')"
    using False mset_eq_setD [OF assms(2)] by simp
  ultimately show ?thesis by (auto simp: canonicalize_Inr_iff)
qed

definition ex_members :: "(pykey \<times> pyval) list" where
  "ex_members = [(KStr (u ''a''), PNone), (KStr (u ''b''), PInt 3)]"

theorem canonicalize_member_order_witness:
  "\<exists>b. canonicalize (PDict ex_members) = Inr b \<and> canonicalize (PDict (rev ex_members)) = Inr b"
proof -
  have wf: "py_wf (PDict ex_members)" and "py_ok (PDict ex_members)"
    by (simp_all add: ex_members_def str_ok_def is_surrogate_def)
  then obtain b where "canonicalize (PDict ex_members) = Inr b"
    by (simp add: canonicalize_Inr_iff)
  then show ?thesis
    using canonicalize_member_order [OF wf, of "rev ex_members"] by auto
qed

section \<open>Decoded JSON\<close>

text \<open>A value that \<open>json.loads\<close> returned, as the canonicalizer sees it.\<close>

fun py_of_json :: "json \<Rightarrow> pyval" where
  "py_of_json JNull = PNone"
| "py_of_json (JBool b) = PBool b"
| "py_of_json (JInt i) = PInt i"
| "py_of_json (JFloat t) = PFloat"
| "py_of_json (JStr s) = PStr (u s)"
| "py_of_json (JList vs) = PSeq (map py_of_json vs)"
| "py_of_json (JObj ms) = PDict (map (\<lambda>(k, v). (KStr (u k), py_of_json v)) ms)"

definition jcs :: "json \<Rightarrow> bytes res" where
  "jcs j = canonicalize (py_of_json j)"

text \<open>Two decoded values that differ at most in the order of object members.\<close>

definition same_json :: "json \<Rightarrow> json \<Rightarrow> bool" where
  "same_json a b = (norm (py_of_json a) = norm (py_of_json b))"

text \<open>What \<open>json.loads\<close> guarantees: the keys of an object are distinct.\<close>

fun json_wf :: "json \<Rightarrow> bool" where
  "json_wf (JList vs) = (\<forall>v\<in>set vs. json_wf v)"
| "json_wf (JObj ms) = (distinct (map fst ms) \<and> (\<forall>(k, v)\<in>set ms. json_wf v))"
| "json_wf v = True"

lemma inj_KStr_u: "inj (\<lambda>k. KStr (u k))"
  by (auto intro!: injI dest: u_inj)

lemma py_wf_of_json: "json_wf j \<Longrightarrow> py_wf (py_of_json j)"
proof (induction j)
  case (JObj ms)
  have "map fst (map (\<lambda>(k, v). (KStr (u k), py_of_json v)) ms) = map (\<lambda>k. KStr (u k)) (map fst ms)"
    by (simp add: comp_def case_prod_unfold)
  then have "distinct (map fst (map (\<lambda>(k, v). (KStr (u k), py_of_json v)) ms))"
    using JObj.prems inj_KStr_u by (simp add: distinct_map inj_on_def inj_def)
  moreover have "\<forall>(k, v)\<in>set (map (\<lambda>(k, v). (KStr (u k), py_of_json v)) ms). code_points (key_str k) \<and> py_wf v"
    using JObj by fastforce
  ultimately show ?case by (simp del: set_map)
qed (auto simp del: map_map)

lemma jcs_same:
  assumes "json_wf a" "json_wf b" "jcs a = Inr t" "jcs b = Inr t"
  shows "same_json a b"
  using assms canonicalize_Inr_same [of "py_of_json b" "py_of_json a" t]
  by (simp add: jcs_def same_json_def py_wf_of_json)

lemma map_of_members:
  "map_of (map (\<lambda>(k, v). (KStr (u k), f v)) ms) (KStr (u k)) = map_option f (map_of ms k)"
  using u_inj by (induction ms) auto

text \<open>Objects that are the same up to order agree in every member, up to order.\<close>

lemma same_json_member:
  assumes "same_json (JObj a) (JObj b)" "distinct (map fst a)" "distinct (map fst b)"
  shows "rel_option same_json (dict_get a k) (dict_get b k)"
proof -
  let ?n = "\<lambda>ms. map (\<lambda>(k, v). (KStr (u k), norm (py_of_json v))) ms"
  have n: "map (\<lambda>(k, v). (k, norm v)) (map (\<lambda>(k, v). (KStr (u k), py_of_json v)) ms) = ?n ms" for ms
    by (simp add: case_prod_unfold)
  have "sort_key member_key (?n a) = sort_key member_key (?n b)"
    using assms(1) by (simp add: same_json_def n del: map_map)
  then have "set (?n a) = set (?n b)" by (metis set_sort)
  moreover have "distinct (map fst (?n ms))" if "distinct (map fst ms)" for ms
  proof -
    have "map fst (?n ms) = map (\<lambda>k. KStr (u k)) (map fst ms)" by (simp add: comp_def case_prod_unfold)
    then show ?thesis using that inj_KStr_u by (simp add: distinct_map inj_on_def inj_def)
  qed
  ultimately have "map_of (?n a) = map_of (?n b)"
    using assms(2,3) by (simp only: map_of_inject_set)
  then have "map_option (\<lambda>v. norm (py_of_json v)) (dict_get a k) = map_option (\<lambda>v. norm (py_of_json v)) (dict_get b k)"
    using map_of_members by (metis (no_types))
  then show ?thesis by (cases "dict_get a k"; cases "dict_get b k") (auto simp: same_json_def)
qed

lemma same_json_str [simp]: "same_json (JStr s) j \<longleftrightarrow> j = JStr s"
  using u_inj by (cases j) (auto simp: same_json_def)

end
