(* ===== verification/Agentcard.thy ===== *)
theory Agentcard
  imports Status Jcs
begin

text \<open>
  AgentCards, from \<open>python-sdk/src/shadownet/agentcard.py\<close>: fetching (synchronous and async), the
  canonical form that is signed, verification of provider-signed and self-signed cards, and
  building and signing them. Shown here: exactly which cards verify, that signed cards verify, that
  the signature leaves out empty values (so that an empty member can be added to a signed card), and
  which exceptions escape the module's error class.
\<close>

section \<open>Data\<close>

definition SHADOWNET_EXTENSION_URI :: string where
  "SHADOWNET_EXTENSION_URI = ''urn:shadownet:0.2''"

definition EXPECTED_ALG :: string where "EXPECTED_ALG = ''EdDSA''"

definition EXPECTED_TYP :: string where "EXPECTED_TYP = ''JOSE''"

definition AGENT_CARD_MEDIA_TYPE :: string where
  "AGENT_CARD_MEDIA_TYPE = ''application/a2a+json''"

definition DIRECT_AGENT_CARD_PATH :: string where
  "DIRECT_AGENT_CARD_PATH = ''/.well-known/agent-card.json''"

definition PINNED_SELF_SIGNED_SCHEME :: string where
  "PINNED_SELF_SIGNED_SCHEME = ''shadownet:pinned-self-signed''"

abbreviation card_error :: "string \<Rightarrow> 'a res" where
  "card_error m \<equiv> raise (Sdk AgentCardError) m"

abbreviation card_sig_error :: "string \<Rightarrow> 'a res" where
  "card_sig_error m \<equiv> raise (Sdk AgentCardSignatureError) m"

record FetchedAgentCard =
  fc_shadowname :: string
  shadow_public_key :: string
  endpoint_url :: string
  cache_max_age :: "int option"
  etag :: "string option"
  raw :: obj

section \<open>The signed form\<close>

text \<open>\<open>_strip_empty\<close>; \<open>None\<close> is Python's \<open>None\<close>, which also stands for JSON \<open>null\<close>.\<close>

fun strip_empty :: "json \<Rightarrow> json option" where
  "strip_empty (JObj ms) =
     (let out = List.map_filter (\<lambda>(k, c). map_option (Pair k) c) (map (\<lambda>(k, v). (k, strip_empty v)) ms)
      in if out = [] then None else Some (JObj out))"
| "strip_empty (JList vs) =
     (let out = List.map_filter id (map strip_empty vs)
      in if out = [] then None else Some (JList out))"
| "strip_empty (JStr s) = (if s = '''' then None else Some (JStr s))"
| "strip_empty JNull = None"
| "strip_empty v = Some v"

definition unsigned_part :: "obj \<Rightarrow> obj" where
  "unsigned_part crd = filter (\<lambda>(k, v). k \<noteq> ''signatures'') crd"

definition canonical_card_payload :: "obj \<Rightarrow> bytes res" where
  "canonical_card_payload crd =
     (case strip_empty (JObj (unsigned_part crd)) of
        None \<Rightarrow> card_error ''AgentCard canonical form is empty''
      | Some pruned \<Rightarrow> jcs pruned)"

section \<open>Verification\<close>

definition require_str :: "obj \<Rightarrow> string \<Rightarrow> string res" where
  "require_str crd key =
     (case dict_get crd key of
        Some (JStr s) \<Rightarrow> Inr s
      | _ \<Rightarrow> card_error (''AgentCard missing required string field '' @ repr key))"

definition is_required_extension :: "json \<Rightarrow> bool" where
  "is_required_extension entry =
     (case entry of
        JObj e \<Rightarrow> dict_get e ''uri'' = Some (JStr SHADOWNET_EXTENSION_URI)
                   \<and> dict_get e ''required'' = Some (JBool True)
      | _ \<Rightarrow> False)"

definition validate_extensions :: "obj \<Rightarrow> unit res" where
  "validate_extensions crd =
     (case dict_get crd ''capabilities'' of
        Some (JObj capabilities) \<Rightarrow>
          (case dict_get capabilities ''extensions'' of
             Some (JList exts) \<Rightarrow>
               (if list_ex is_required_extension exts then Inr ()
                else card_error (''AgentCard must declare '' @ SHADOWNET_EXTENSION_URI @ '' extension as required''))
           | _ \<Rightarrow> card_error ''AgentCard.capabilities.extensions missing or not an array'')
      | _ \<Rightarrow> card_error ''AgentCard.capabilities missing or not an object'')"

definition supported_interface_url :: "obj \<Rightarrow> string res" where
  "supported_interface_url crd =
     (case dict_get crd ''supportedInterfaces'' of
        Some (JList (first # _)) \<Rightarrow>
          (case first of
             JObj f \<Rightarrow>
               (case dict_get f ''url'' of
                  Some (JStr url) \<Rightarrow>
                    (if url = '''' then card_error ''AgentCard.supportedInterfaces[0].url missing'' else Inr url)
                | _ \<Rightarrow> card_error ''AgentCard.supportedInterfaces[0].url missing'')
           | _ \<Rightarrow> card_error ''AgentCard.supportedInterfaces[0] not an object'')
      | _ \<Rightarrow> card_error ''AgentCard.supportedInterfaces missing or empty'')"

definition validate_direct_security_scheme :: "obj \<Rightarrow> unit res" where
  "validate_direct_security_scheme crd =
     (case dict_get crd ''securitySchemes'' of
        Some (JObj schemes) \<Rightarrow>
          (if dict_get schemes PINNED_SELF_SIGNED_SCHEME \<noteq> None then Inr ()
           else card_error (''direct-mode AgentCard must declare securitySchemes[''
                  @ repr PINNED_SELF_SIGNED_SCHEME @ ''] per RFC 0001 '' @ [CHR 0xA7] @ ''5.4''))
      | _ \<Rightarrow> card_error (''direct-mode AgentCard must declare securitySchemes[''
               @ repr PINNED_SELF_SIGNED_SCHEME @ ''] per RFC 0001 '' @ [CHR 0xA7] @ ''5.4''))"

text \<open>The loop over the expected signers: any exception moves on to the next key.\<close>

fun try_signers :: "lib \<Rightarrow> bytes \<Rightarrow> bytes \<Rightarrow> string list \<Rightarrow> exn option \<Rightarrow> unit res" where
  "try_signers L sig inp [] failure =
     card_sig_error (''signature did not verify against any expected signer (''
       @ (case failure of None \<Rightarrow> ''None'' | Some e \<Rightarrow> str_of e) @ '')'')"
| "try_signers L sig inp (pk # rest) failure =
     (case bind (parse_public_key pk) (\<lambda>b. bind (from_public_bytes L b) (\<lambda>key. verify L key sig inp)) of
        Inr _ \<Rightarrow> Inr ()
      | Inl e \<Rightarrow> try_signers L sig inp rest (Some e))"

text \<open>\<open>header.get(k)\<close> on whatever the protected header decoded to.\<close>

definition header_obj :: "json \<Rightarrow> obj res" where
  "header_obj j =
     (case j of JObj h \<Rightarrow> Inr h | _ \<Rightarrow> raise (Builtin AttributeError) ''object has no attribute get'')"

definition verify_one :: "lib \<Rightarrow> obj \<Rightarrow> string \<Rightarrow> string list \<Rightarrow> string \<Rightarrow> unit res" where
  "verify_one L signature_obj payload_b64 expected_signers expected_kid =
     (case (dict_get signature_obj ''protected'', dict_get signature_obj ''signature'') of
        (Some (JStr protected_b64), Some (JStr signature_b64)) \<Rightarrow>
          bind (rewrap (bind (b64u_decode protected_b64) (json_loads L)) (Builtin ValueError)
                  (Sdk AgentCardSignatureError) (\<lambda>m. ''invalid protected header: '' @ m)) (\<lambda>header.
          bind (header_obj header) (\<lambda>h.
            if \<not> header_is h ''alg'' EXPECTED_ALG
            then card_sig_error (''alg must be '' @ EXPECTED_ALG @ '', got '' @ repr_opt (dict_get h ''alg''))
            else if \<not> header_is h ''typ'' EXPECTED_TYP
            then card_sig_error (''typ must be '' @ EXPECTED_TYP @ '', got '' @ repr_opt (dict_get h ''typ''))
            else if \<not> header_is h ''kid'' expected_kid
            then card_sig_error (''kid must be '' @ repr expected_kid @ '', got '' @ repr_opt (dict_get h ''kid''))
            else
          bind (rewrap (b64u_decode signature_b64) (Builtin ValueError) (Sdk AgentCardSignatureError)
                  (\<lambda>m. ''signature not valid base64url: '' @ m)) (\<lambda>signature_bytes.
          bind (encode_ascii (protected_b64 @ ''.'' @ payload_b64)) (\<lambda>signing_input.
          try_signers L signature_bytes signing_input expected_signers None))))
      | _ \<Rightarrow> card_sig_error (''signature object missing '' @ repr ''protected'' @ '' or '' @ repr ''signature''))"

fun verify_signatures_loop ::
  "lib \<Rightarrow> json list \<Rightarrow> string \<Rightarrow> string list \<Rightarrow> string \<Rightarrow> exn option \<Rightarrow> unit res"
where
  "verify_signatures_loop L [] payload_b64 signers kid last_error =
     card_sig_error (case last_error of
        Some e \<Rightarrow> ''no valid signature on AgentCard ('' @ str_of e @ '')''
      | None \<Rightarrow> ''no parseable signatures on AgentCard'')"
| "verify_signatures_loop L (sig # rest) payload_b64 signers kid last_error =
     (case sig of
        JObj s \<Rightarrow>
          (case verify_one L s payload_b64 signers kid of
             Inr _ \<Rightarrow> Inr ()
           | Inl e \<Rightarrow>
               (if is_a e (Sdk AgentCardSignatureError)
                then verify_signatures_loop L rest payload_b64 signers kid (Some e) else Inl e))
      | _ \<Rightarrow> verify_signatures_loop L rest payload_b64 signers kid last_error)"

definition verify_signatures :: "lib \<Rightarrow> json list \<Rightarrow> string \<Rightarrow> string list \<Rightarrow> string \<Rightarrow> unit res" where
  "verify_signatures L signatures payload_b64 signers kid =
     verify_signatures_loop L signatures payload_b64 signers kid None"

text \<open>The part that both verifiers share: signatures present, canonical payload, one signature valid.\<close>

definition check_card_signatures :: "lib \<Rightarrow> obj \<Rightarrow> string list \<Rightarrow> string \<Rightarrow> unit res" where
  "check_card_signatures L crd signers kid =
     (case dict_get crd ''signatures'' of
        Some (JList (s # ss)) \<Rightarrow>
          bind (canonical_card_payload crd) (\<lambda>payload_bytes.
            verify_signatures L (s # ss) (b64u payload_bytes) signers kid)
      | _ \<Rightarrow> card_sig_error ''AgentCard has no signatures'')"

definition domain_mismatch :: "string \<Rightarrow> ProviderRecord \<Rightarrow> string" where
  "domain_mismatch prov rcd =
     ''shadowname provider '' @ repr prov @ '' does not match record domain '' @ repr (domain rcd)"

definition verify_agent_card :: "lib \<Rightarrow> obj \<Rightarrow> ProviderRecord \<Rightarrow> string \<Rightarrow> FetchedAgentCard res" where
  "verify_agent_card L crd rcd shadowname =
     bind (parse_shadowname shadowname) (\<lambda>canonical_name.
       (let (_, prov) = partition_on (CHR ''@'') canonical_name in
          if prov \<noteq> domain rcd then card_error (domain_mismatch prov rcd)
          else
       bind (check_card_signatures L crd (provider_keys rcd) (''shadownet@'' @ domain rcd)) (\<lambda>_.
       bind (require_str crd ''shadownet:pk'') (\<lambda>shadow_pk.
       bind (rewrap (parse_public_key shadow_pk) (Sdk InvalidIdentifierError) (Sdk AgentCardError)
               (\<lambda>m. ''invalid shadownet:pk: '' @ m)) (\<lambda>_.
       bind (require_str crd ''shadownet:v'') (\<lambda>ver.
         if ver \<noteq> ''0.2'' then card_error (''unsupported shadownet:v='' @ repr ver)
         else
       bind (validate_extensions crd) (\<lambda>_.
       bind (supported_interface_url crd) (\<lambda>url.
       Inr \<lparr>fc_shadowname = canonical_name, shadow_public_key = shadow_pk, endpoint_url = url,
            cache_max_age = None, etag = None, raw = crd\<rparr>))))))))"

definition verify_self_signed_agent_card :: "lib \<Rightarrow> obj \<Rightarrow> string \<Rightarrow> FetchedAgentCard res" where
  "verify_self_signed_agent_card L crd expected_public_key =
     bind (check_card_signatures L crd [expected_public_key] expected_public_key) (\<lambda>_.
     bind (require_str crd ''shadownet:pk'') (\<lambda>shadow_pk.
       if shadow_pk \<noteq> expected_public_key
       then card_error (''AgentCard shadownet:pk='' @ repr shadow_pk @ '' does not match URI key ''
              @ repr expected_public_key)
       else
     bind (rewrap (parse_public_key shadow_pk) (Sdk InvalidIdentifierError) (Sdk AgentCardError)
             (\<lambda>m. ''invalid shadownet:pk: '' @ m)) (\<lambda>_.
     bind (require_str crd ''shadownet:v'') (\<lambda>ver.
       if ver \<noteq> ''0.2'' then card_error (''unsupported shadownet:v='' @ repr ver)
       else
     bind (validate_extensions crd) (\<lambda>_.
     bind (validate_direct_security_scheme crd) (\<lambda>_.
     bind (supported_interface_url crd) (\<lambda>url.
     Inr \<lparr>fc_shadowname = expected_public_key, shadow_public_key = shadow_pk, endpoint_url = url,
          cache_max_age = None, etag = None, raw = crd\<rparr>)))))))"

definition extract_string :: "obj \<Rightarrow> string \<Rightarrow> string option" where
  "extract_string crd key =
     (case dict_get crd key of Some (JStr s) \<Rightarrow> (if s = '''' then None else Some s) | _ \<Rightarrow> None)"

definition extract_status_list_base :: "obj \<Rightarrow> string option" where
  "extract_status_list_base crd = extract_string crd ''shadownet:statusListBase''"

definition extract_issuer_endpoint :: "obj \<Rightarrow> string option" where
  "extract_issuer_endpoint crd = extract_string crd ''shadownet:issueEndpoint''"

section \<open>Fetching\<close>

definition agent_card_url_for_shadowname :: "string \<Rightarrow> ProviderRecord \<Rightarrow> string res" where
  "agent_card_url_for_shadowname shadowname rcd =
     bind (parse_shadowname shadowname) (\<lambda>canonical.
       (let (local, prov) = partition_on (CHR ''@'') canonical in
          if prov \<noteq> domain rcd then card_error (domain_mismatch prov rcd)
          else Inr (rstrip (\<lambda>c. c = CHR ''/'') (endpoint rcd) @ ''/identity/'' @ local)))"

definition interpret_card_response ::
  "http_response \<Rightarrow> string \<Rightarrow> (obj \<times> (string \<Rightarrow> string option)) res"
where
  "interpret_card_response response url =
     (if status_code response \<noteq> 200
      then card_error (''AgentCard '' @ repr url @ '' returned HTTP '' @ int_str (status_code response))
      else
        bind (rewrap (resp_json response) (Builtin JSONDecodeError) (Sdk AgentCardError)
                (\<lambda>m. ''AgentCard '' @ repr url @ '' not valid JSON: '' @ m)) (\<lambda>body.
          (case body of
             JObj d \<Rightarrow> Inr (d, resp_header response)
           | _ \<Rightarrow> card_error (''AgentCard '' @ repr url @ '' is not a JSON object''))))"

definition card_headers :: headers where
  "card_headers = [(''Accept'', AGENT_CARD_MEDIA_TYPE)]"

definition fetch_failed :: "string \<Rightarrow> string \<Rightarrow> string" where
  "fetch_failed url m = ''fetch failed for '' @ repr url @ '': '' @ m"

definition fetch_agent_card_json ::
  "http_get \<Rightarrow> string \<Rightarrow> ProviderRecord \<Rightarrow> (obj \<times> (string \<Rightarrow> string option)) res"
where
  "fetch_agent_card_json get shadowname rcd =
     bind (agent_card_url_for_shadowname shadowname rcd) (\<lambda>url.
     bind (rewrap (get url card_headers) (Lib HTTPError) (Sdk AgentCardError) (fetch_failed url)) (\<lambda>response.
     interpret_card_response response url))"

definition direct_url :: "string \<Rightarrow> string" where
  "direct_url endpoint_origin = rstrip (\<lambda>c. c = CHR ''/'') endpoint_origin @ DIRECT_AGENT_CARD_PATH"

definition fetch_direct_agent_card_json ::
  "http_get \<Rightarrow> string \<Rightarrow> (obj \<times> (string \<Rightarrow> string option)) res"
where
  "fetch_direct_agent_card_json get endpoint_origin =
     (let url = direct_url endpoint_origin in
        bind (rewrap (get url card_headers) (Lib HTTPError) (Sdk AgentCardError) (fetch_failed url)) (\<lambda>response.
        interpret_card_response response url))"

definition attach_cache_headers :: "FetchedAgentCard \<Rightarrow> (string \<Rightarrow> string option) \<Rightarrow> FetchedAgentCard" where
  "attach_cache_headers verified hdrs =
     \<lparr>fc_shadowname = fc_shadowname verified, shadow_public_key = shadow_public_key verified,
      endpoint_url = endpoint_url verified, cache_max_age = parse_max_age (hdrs ''Cache-Control''),
      etag = hdrs ''ETag'', raw = raw verified\<rparr>"

definition fetch_and_verify_agent_card ::
  "lib \<Rightarrow> http_get \<Rightarrow> string \<Rightarrow> ProviderRecord \<Rightarrow> FetchedAgentCard res"
where
  "fetch_and_verify_agent_card L get shadowname rcd =
     bind (fetch_agent_card_json get shadowname rcd) (\<lambda>(crd, hdrs).
     bind (verify_agent_card L crd rcd shadowname) (\<lambda>verified.
     Inr (attach_cache_headers verified hdrs)))"

definition fetch_and_verify_direct_agent_card ::
  "lib \<Rightarrow> http_get \<Rightarrow> string \<Rightarrow> string \<Rightarrow> FetchedAgentCard res"
where
  "fetch_and_verify_direct_agent_card L get endpoint_origin expected_public_key =
     bind (fetch_direct_agent_card_json get endpoint_origin) (\<lambda>(crd, hdrs).
     bind (verify_self_signed_agent_card L crd expected_public_key) (\<lambda>verified.
     Inr (attach_cache_headers verified hdrs)))"

subsection \<open>Async siblings\<close>

type_synonym 's http_aget = "string \<Rightarrow> headers \<Rightarrow> ('s, http_response) task"

definition afetch_agent_card_json ::
  "'s http_aget \<Rightarrow> string \<Rightarrow> ProviderRecord \<Rightarrow> ('s, obj \<times> (string \<Rightarrow> string option)) task"
where
  "afetch_agent_card_json aget shadowname rcd =
     tbind (Ret (agent_card_url_for_shadowname shadowname rcd)) (\<lambda>url.
     tbind (trewrap (aget url card_headers) (Lib HTTPError) (Sdk AgentCardError) (fetch_failed url)) (\<lambda>response.
     Ret (interpret_card_response response url)))"

definition afetch_direct_agent_card_json ::
  "'s http_aget \<Rightarrow> string \<Rightarrow> ('s, obj \<times> (string \<Rightarrow> string option)) task"
where
  "afetch_direct_agent_card_json aget endpoint_origin =
     (let url = direct_url endpoint_origin in
        tbind (trewrap (aget url card_headers) (Lib HTTPError) (Sdk AgentCardError) (fetch_failed url)) (\<lambda>response.
        Ret (interpret_card_response response url)))"

definition afetch_and_verify_agent_card ::
  "lib \<Rightarrow> 's http_aget \<Rightarrow> string \<Rightarrow> ProviderRecord \<Rightarrow> ('s, FetchedAgentCard) task"
where
  "afetch_and_verify_agent_card L aget shadowname rcd =
     tbind (afetch_agent_card_json aget shadowname rcd) (\<lambda>(crd, hdrs).
     tbind (Ret (verify_agent_card L crd rcd shadowname)) (\<lambda>verified.
     Ret (Inr (attach_cache_headers verified hdrs))))"

definition afetch_and_verify_direct_agent_card ::
  "lib \<Rightarrow> 's http_aget \<Rightarrow> string \<Rightarrow> string \<Rightarrow> ('s, FetchedAgentCard) task"
where
  "afetch_and_verify_direct_agent_card L aget endpoint_origin expected_public_key =
     tbind (afetch_direct_agent_card_json aget endpoint_origin) (\<lambda>(crd, hdrs).
     tbind (Ret (verify_self_signed_agent_card L crd expected_public_key)) (\<lambda>verified.
     Ret (Inr (attach_cache_headers verified hdrs))))"

section \<open>Building and signing\<close>

definition build_unsigned_agent_card_body ::
  "string \<Rightarrow> string \<Rightarrow> string \<Rightarrow> string \<Rightarrow> string \<Rightarrow> string \<Rightarrow> string \<Rightarrow> obj option \<Rightarrow> obj"
where
  "build_unsigned_agent_card_body nm descr ver a2a_url pk protocol_binding a2a_protocol_version extras =
     (let body =
        [(''name'', JStr nm), (''description'', JStr descr), (''version'', JStr ver),
         (''supportedInterfaces'', JList [JObj
            [(''url'', JStr a2a_url), (''protocolBinding'', JStr protocol_binding),
             (''protocolVersion'', JStr a2a_protocol_version)]]),
         (''capabilities'', JObj [(''extensions'', JList [JObj
            [(''uri'', JStr SHADOWNET_EXTENSION_URI), (''required'', JBool True),
             (''description'', JStr ''Shadownet identity envelope'')]])]),
         (''shadownet:v'', JStr ''0.2''), (''shadownet:pk'', JStr pk)]
      in (case extras of None \<Rightarrow> body | Some e \<Rightarrow> dict_update body e))"

text \<open>The key identifier: exactly one of \<open>kid\<close> and \<open>provider_domain\<close>.\<close>

definition card_kid :: "string option \<Rightarrow> string option \<Rightarrow> string res" where
  "card_kid kid provider_domain =
     (case (kid, provider_domain) of
        (None, None) \<Rightarrow> card_error ''must supply kid or provider_domain''
      | (None, Some d) \<Rightarrow> Inr (''shadownet@'' @ d)
      | (Some k, None) \<Rightarrow> Inr k
      | (Some _, Some _) \<Rightarrow> card_error ''supply kid OR provider_domain, not both'')"

definition card_header :: "string \<Rightarrow> obj" where
  "card_header kid = [(''alg'', JStr EXPECTED_ALG), (''typ'', JStr EXPECTED_TYP), (''kid'', JStr kid)]"

definition header_bytes :: "string \<Rightarrow> bytes" where
  "header_bytes kid = map byte_of_char (json_dumps (JObj (card_header kid)))"

definition sign_agent_card_body ::
  "lib \<Rightarrow> obj \<Rightarrow> Ed25519KeyPair \<Rightarrow> string option \<Rightarrow> string option \<Rightarrow> obj res"
where
  "sign_agent_card_body L body signing_key kid provider_domain =
     bind (card_kid kid provider_domain) (\<lambda>kid.
       (case strip_empty (JObj (unsigned_part body)) of
          None \<Rightarrow> card_error ''AgentCard canonical form is empty''
        | Some pruned \<Rightarrow>
            bind (jcs pruned) (\<lambda>payload_bytes.
              (let header_b64 = b64u (header_bytes kid) in
                 bind (encode_ascii (header_b64 @ ''.'' @ b64u payload_bytes)) (\<lambda>signing_input.
                 bind (sign L signing_key signing_input) (\<lambda>signature.
                 Inr (dict_set ''signatures''
                        (JList [JObj [(''protected'', JStr header_b64), (''signature'', JStr (b64u signature))]])
                        body)))))))"

definition build_signed_agent_card ::
  "lib \<Rightarrow> string \<Rightarrow> string \<Rightarrow> string \<Rightarrow> string \<Rightarrow> string \<Rightarrow> Ed25519KeyPair \<Rightarrow> string \<Rightarrow> obj option \<Rightarrow> obj res"
where
  "build_signed_agent_card L nm descr ver a2a_url pk provider_key provider_domain extras =
     (let body = build_unsigned_agent_card_body nm descr ver a2a_url pk ''HTTP+JSON'' ''1.0'' extras
      in sign_agent_card_body L body provider_key None (Some provider_domain))"

definition build_direct_signed_agent_card ::
  "lib \<Rightarrow> string \<Rightarrow> string \<Rightarrow> string \<Rightarrow> string \<Rightarrow> Ed25519KeyPair \<Rightarrow> obj option \<Rightarrow> obj res"
where
  "build_direct_signed_agent_card L nm descr ver a2a_url shadow_key extras =
     bind (encode_public_key (public_bytes shadow_key)) (\<lambda>pk.
       (let pinned = [(''securitySchemes'', JObj [(PINNED_SELF_SIGNED_SCHEME, JObj [])])];
            merged = (case extras of None \<Rightarrow> pinned | Some e \<Rightarrow> dict_update pinned e);
            body = build_unsigned_agent_card_body nm descr ver a2a_url pk ''HTTP+JSON'' ''1.0'' (Some merged)
        in sign_agent_card_body L body shadow_key (Some pk) None))"

section \<open>Which cards verify\<close>

text \<open>
  A signature object that is accepted: an EdDSA JOSE header with the expected key identifier, and an
  Ed25519 signature of one of the expected signers over the header and payload as transmitted.
\<close>

definition card_sig_ok :: "lib \<Rightarrow> obj \<Rightarrow> string \<Rightarrow> string list \<Rightarrow> string \<Rightarrow> bool" where
  "card_sig_ok L s payload_b64 signers kid =
     (\<exists>p sg hb h sig si pk b.
        dict_get s ''protected'' = Some (JStr p) \<and> dict_get s ''signature'' = Some (JStr sg)
        \<and> b64u_decode p = Inr hb \<and> json_loads L hb = Inr (JObj h)
        \<and> header_is h ''alg'' EXPECTED_ALG \<and> header_is h ''typ'' EXPECTED_TYP \<and> header_is h ''kid'' kid
        \<and> b64u_decode sg = Inr sig \<and> encode_ascii (p @ ''.'' @ payload_b64) = Inr si
        \<and> pk \<in> set signers \<and> parse_public_key pk = Inr b \<and> ed_load L b = Inr () \<and> ed_verify L b sig si)"

lemma card_sig_okI:
  assumes "dict_get s ''protected'' = Some (JStr p)" "dict_get s ''signature'' = Some (JStr sg)"
    and "b64u_decode p = Inr hb" "json_loads L hb = Inr (JObj h)"
    and "header_is h ''alg'' EXPECTED_ALG" "header_is h ''typ'' EXPECTED_TYP" "header_is h ''kid'' kid"
    and "b64u_decode sg = Inr sig" "encode_ascii (p @ ''.'' @ payload_b64) = Inr si"
    and "pk \<in> set signers" "parse_public_key pk = Inr b" "ed_load L b = Inr ()" "ed_verify L b sig si"
  shows "card_sig_ok L s payload_b64 signers kid"
  using assms unfolding card_sig_ok_def by blast

lemma try_signers_Inr_iff:
  "try_signers L sig si signers f = Inr r \<longleftrightarrow>
     (\<exists>pk b. pk \<in> set signers \<and> parse_public_key pk = Inr b \<and> ed_load L b = Inr () \<and> ed_verify L b sig si)"
proof (induction signers arbitrary: f)
  case (Cons pk rest)
  let ?r = "bind (parse_public_key pk) (\<lambda>b. bind (from_public_bytes L b) (\<lambda>key. verify L key sig si))"
  have "?r = Inr () \<longleftrightarrow> (\<exists>b. parse_public_key pk = Inr b \<and> ed_load L b = Inr () \<and> ed_verify L b sig si)"
    by (auto simp: res_simps parse_public_key_32)
  then show ?case
    using Cons.IH by (cases ?r) auto
qed (simp add: res_simps)

lemma header_obj_Inr_iff [res_simps]: "header_obj j = Inr h \<longleftrightarrow> j = JObj h"
  by (cases j) (auto simp: header_obj_def res_simps)

lemma verify_one_Inr_iff:
  "verify_one L s payload_b64 signers kid = Inr r \<longleftrightarrow> card_sig_ok L s payload_b64 signers kid"
proof (cases "\<exists>p sg. dict_get s ''protected'' = Some (JStr p) \<and> dict_get s ''signature'' = Some (JStr sg)")
  case True
  then show ?thesis
    unfolding verify_one_def card_sig_ok_def
    by (elim exE conjE) (simp add: bind_Inr_iff rewrap_Inr_iff header_obj_Inr_iff
        if_raise_Inr_iff try_signers_Inr_iff, blast)
next
  case False
  then show ?thesis
    by (auto simp: verify_one_def card_sig_ok_def res_simps split: option.splits json.splits)
qed

text \<open>What the loop over the signatures passes by: entries that are no objects, and rejected ones.\<close>

definition passed_by :: "lib \<Rightarrow> string \<Rightarrow> string list \<Rightarrow> string \<Rightarrow> json \<Rightarrow> bool" where
  "passed_by L payload_b64 signers kid sig =
     (case sig of
        JObj s \<Rightarrow> (case verify_one L s payload_b64 signers kid of
                    Inl e \<Rightarrow> is_a e (Sdk AgentCardSignatureError) | Inr _ \<Rightarrow> False)
      | _ \<Rightarrow> True)"

text \<open>The first entry that the loop does not pass by is an accepted signature.\<close>

definition sigs_ok :: "lib \<Rightarrow> json list \<Rightarrow> string \<Rightarrow> string list \<Rightarrow> string \<Rightarrow> bool" where
  "sigs_ok L sigs payload_b64 signers kid =
     (case List.find (\<lambda>s. \<not> passed_by L payload_b64 signers kid s) sigs of
        Some (JObj s) \<Rightarrow> card_sig_ok L s payload_b64 signers kid
      | _ \<Rightarrow> False)"

lemma verify_signatures_loop_Inr_iff:
  "verify_signatures_loop L sigs pb signers kid f = Inr r \<longleftrightarrow> sigs_ok L sigs pb signers kid"
proof (induction sigs arbitrary: f)
  case (Cons sig rest)
  show ?case
  proof (cases "\<exists>s. sig = JObj s")
    case True
    then obtain s where s: "sig = JObj s" ..
    have "card_sig_ok L s pb signers kid \<longleftrightarrow> (\<exists>r. verify_one L s pb signers kid = Inr r)"
      by (simp add: verify_one_Inr_iff)
    then show ?thesis
      using Cons.IH by (cases "verify_one L s pb signers kid") (auto simp: s passed_by_def sigs_ok_def)
  next
    case False
    then have "passed_by L pb signers kid sig"
      and "verify_signatures_loop L (sig # rest) pb signers kid f = verify_signatures_loop L rest pb signers kid f"
      by (cases sig; simp add: passed_by_def)+
    then show ?thesis using Cons.IH by (simp add: sigs_ok_def)
  qed
qed (simp add: res_simps sigs_ok_def)

lemma verify_signatures_Inr_iff:
  "verify_signatures L sigs pb signers kid = Inr r \<longleftrightarrow> sigs_ok L sigs pb signers kid"
  by (simp only: verify_signatures_def verify_signatures_loop_Inr_iff)

text \<open>An accepted list of signatures contains an accepted signature.\<close>

lemma sigs_ok_member:
  "sigs_ok L sigs pb signers kid \<Longrightarrow> \<exists>s. JObj s \<in> set sigs \<and> card_sig_ok L s pb signers kid"
  by (auto simp: sigs_ok_def find_Some_iff split: option.splits json.splits) (metis nth_mem)

definition card_signed :: "lib \<Rightarrow> obj \<Rightarrow> string list \<Rightarrow> string \<Rightarrow> bool" where
  "card_signed L crd signers kid =
     (\<exists>sigs t. dict_get crd ''signatures'' = Some (JList sigs) \<and> canonical_card_payload crd = Inr t
        \<and> sigs_ok L sigs (b64u t) signers kid)"

lemma check_card_signatures_Inr_iff [res_simps]:
  "check_card_signatures L crd signers kid = Inr r \<longleftrightarrow> card_signed L crd signers kid"
proof -
  have "\<not> sigs_ok L [] pb signers kid" for pb by (simp add: sigs_ok_def)
  then show ?thesis
    by (auto simp: check_card_signatures_def card_signed_def bind_Inr_iff verify_signatures_Inr_iff
        raise_Inr_iff split: option.splits json.splits list.splits)
qed

text \<open>The members a card has to have besides its signature.\<close>

definition card_shape :: "obj \<Rightarrow> string \<Rightarrow> string \<Rightarrow> bool" where
  "card_shape crd pk url =
     ((\<exists>b. parse_public_key pk = Inr b) \<and> dict_get crd ''shadownet:pk'' = Some (JStr pk)
      \<and> dict_get crd ''shadownet:v'' = Some (JStr ''0.2'')
      \<and> (\<exists>cap exts. dict_get crd ''capabilities'' = Some (JObj cap)
           \<and> dict_get cap ''extensions'' = Some (JList exts) \<and> list_ex is_required_extension exts)
      \<and> (\<exists>f rest. dict_get crd ''supportedInterfaces'' = Some (JList (JObj f # rest))
           \<and> dict_get f ''url'' = Some (JStr url)) \<and> url \<noteq> '''')"

lemma require_str_Inr_iff [res_simps]: "require_str crd k = Inr s \<longleftrightarrow> dict_get crd k = Some (JStr s)"
  by (auto simp: require_str_def raise_Inr_iff split: option.splits json.splits)

lemma validate_extensions_Inr_iff [res_simps]:
  "validate_extensions crd = Inr r \<longleftrightarrow>
     (\<exists>cap exts. dict_get crd ''capabilities'' = Some (JObj cap)
        \<and> dict_get cap ''extensions'' = Some (JList exts) \<and> list_ex is_required_extension exts)"
  by (auto simp: validate_extensions_def raise_Inr_iff split: option.splits json.splits if_splits)

lemma supported_interface_url_Inr_iff [res_simps]:
  "supported_interface_url crd = Inr url \<longleftrightarrow>
     (\<exists>f rest. dict_get crd ''supportedInterfaces'' = Some (JList (JObj f # rest))
        \<and> dict_get f ''url'' = Some (JStr url)) \<and> url \<noteq> ''''"
  by (auto simp: supported_interface_url_def raise_Inr_iff split: option.splits json.splits list.splits if_splits)

lemma validate_direct_security_scheme_Inr_iff [res_simps]:
  "validate_direct_security_scheme crd = Inr r \<longleftrightarrow>
     (\<exists>schemes. dict_get crd ''securitySchemes'' = Some (JObj schemes)
        \<and> dict_get schemes PINNED_SELF_SIGNED_SCHEME \<noteq> None)"
  by (auto simp: validate_direct_security_scheme_def raise_Inr_iff split: option.splits json.splits if_splits)

lemma verify_agent_card_Inr_iff:
  "verify_agent_card L crd rcd shadowname = Inr v \<longleftrightarrow>
     (\<exists>local pk url.
        parse_shadowname shadowname = Inr (local @ ''@'' @ domain rcd) \<and> CHR ''@'' \<notin> set local
        \<and> card_signed L crd (provider_keys rcd) (''shadownet@'' @ domain rcd)
        \<and> card_shape crd pk url
        \<and> v = \<lparr>fc_shadowname = local @ ''@'' @ domain rcd, shadow_public_key = pk, endpoint_url = url,
               cache_max_age = None, etag = None, raw = crd\<rparr>)"
proof -
  have name: "snd (partition_on (CHR ''@'') c) = domain rcd \<longleftrightarrow>
      (\<exists>local. c = local @ ''@'' @ domain rcd \<and> CHR ''@'' \<notin> set local)"
    if "parse_shadowname shadowname = Inr c" for c
  proof -
    obtain a b where ab: "partition_on (CHR ''@'') c = (a, b)" by force
    have "CHR ''@'' \<in> set c"
      using that by (auto simp: parse_shadowname_def validate_shadowname_Inr_iff)
    then have "c = a @ CHR ''@'' # b \<and> CHR ''@'' \<notin> set a" using ab by (rule partition_on_join)
    then show ?thesis using ab by (metis append_Cons append_Nil partition_on_append prod.sel(2))
  qed
  show ?thesis
    unfolding verify_agent_card_def card_shape_def
    by (auto simp: Let_def bind_Inr_iff rewrap_Inr_iff if_raise_Inr_iff case_prod_unfold
        require_str_Inr_iff validate_extensions_Inr_iff supported_interface_url_Inr_iff
        check_card_signatures_Inr_iff name cong: conj_cong)
qed

lemma verify_self_signed_Inr_iff:
  "verify_self_signed_agent_card L d pk = Inr v \<longleftrightarrow>
     (\<exists>url. card_signed L d [pk] pk \<and> card_shape d pk url \<and> validate_direct_security_scheme d = Inr ()
        \<and> v = \<lparr>fc_shadowname = pk, shadow_public_key = pk, endpoint_url = url, cache_max_age = None,
               etag = None, raw = d\<rparr>)"
  unfolding verify_self_signed_agent_card_def card_shape_def
  by (auto simp: bind_Inr_iff rewrap_Inr_iff if_raise_Inr_iff require_str_Inr_iff
      validate_extensions_Inr_iff supported_interface_url_Inr_iff check_card_signatures_Inr_iff)

text \<open>
  C9: exactly which cards verify for a Shadowname: the name is of the provider's domain, the card
  carries a signature of one of the provider's keys under the key identifier of that domain over the
  canonical form of the card, and it has a well-formed key, version, required extension and
  endpoint. The result reports that key and endpoint.
\<close>

theorem verify_agent_card_iff:
  "verify_agent_card L crd rcd shadowname = Inr v \<longleftrightarrow>
     (\<exists>local pk url.
        parse_shadowname shadowname = Inr (local @ ''@'' @ domain rcd) \<and> CHR ''@'' \<notin> set local
        \<and> card_signed L crd (provider_keys rcd) (''shadownet@'' @ domain rcd)
        \<and> card_shape crd pk url
        \<and> v = \<lparr>fc_shadowname = local @ ''@'' @ domain rcd, shadow_public_key = pk, endpoint_url = url,
               cache_max_age = None, etag = None, raw = crd\<rparr>)"
  by (rule verify_agent_card_Inr_iff)

section \<open>What the signature covers\<close>

lemma map_filter_fst_distinct:
  "distinct (map fst ms) \<Longrightarrow>
     distinct (map fst (List.map_filter (\<lambda>(k, c). map_option (Pair k) c) (map (\<lambda>(k, v). (k, f v)) ms)))"
proof (induction ms)
  case (Cons p ms)
  have "fst ` set (List.map_filter (\<lambda>(k, c). map_option (Pair k) c) (map (\<lambda>(k, v). (k, f v)) ms)) \<subseteq> fst ` set ms"
    by (induction ms) (auto simp: List.map_filter_simps split: option.splits)
  then show ?case using Cons by (cases p) (auto simp: List.map_filter_simps split: option.splits)
qed (simp add: List.map_filter_simps)

lemma strip_empty_wf: "json_wf v \<Longrightarrow> strip_empty v = Some w \<Longrightarrow> json_wf w"
proof (induction v arbitrary: w rule: strip_empty.induct)
  case (1 ms)
  let ?out = "List.map_filter (\<lambda>(k, c). map_option (Pair k) c) (map (\<lambda>(k, v). (k, strip_empty v)) ms)"
  have "w = JObj ?out" using 1(3) by (auto simp: Let_def split: if_splits)
  moreover have "distinct (map fst ?out)" using 1(2) by (intro map_filter_fst_distinct) simp
  moreover have "json_wf c" if "(k, c) \<in> set ?out" for k c
    using that 1(1,2) by (fastforce simp: List.map_filter_def)
  ultimately show ?case by auto
next
  case (2 vs)
  let ?out = "List.map_filter id (map strip_empty vs)"
  have "w = JList ?out" using 2(3) by (auto simp: Let_def split: if_splits)
  moreover have "json_wf c" if "c \<in> set ?out" for c
    using that 2(1,2) by (auto simp: List.map_filter_def)
  ultimately show ?case by auto
qed (auto split: if_splits)

text \<open>
  The bytes a signature is made over determine the card up to the order of members, its
  \<open>signatures\<close> and its empty values, and nothing else: for two cards with unambiguous members, they are
  equal exactly when the cards agree after these are removed. Every other change of a member, at any
  depth, invalidates the signature.
\<close>

theorem card_payload_iff:
  assumes "json_wf (JObj a)" "json_wf (JObj b)" "canonical_card_payload a = Inr t"
  shows "canonical_card_payload b = Inr t \<longleftrightarrow>
     rel_option same_json (strip_empty (JObj (unsigned_part a))) (strip_empty (JObj (unsigned_part b)))"
proof -
  have wf: "json_wf (JObj (unsigned_part d))" if "json_wf (JObj d)" for d
    using that by (auto simp: unsigned_part_def distinct_map_filter)
  obtain x where x: "strip_empty (JObj (unsigned_part a)) = Some x" "jcs x = Inr t"
    using assms(3) by (auto simp: canonical_card_payload_def raise_Inr_iff split: option.splits)
  have "jcs y = Inr t \<longleftrightarrow> same_json x y" if "strip_empty (JObj (unsigned_part b)) = Some y" for y
  proof
    assume "jcs y = Inr t"
    then show "same_json x y"
      using x wf [OF assms(1)] wf [OF assms(2)] that by (intro jcs_same) (blast dest: strip_empty_wf)+
  next
    assume "same_json x y"
    then show "jcs y = Inr t"
      using x(2) canonicalize_norm_cong [of "py_of_json x" "py_of_json y" t]
      by (simp add: same_json_def jcs_def)
  qed
  then show ?thesis
    by (cases "strip_empty (JObj (unsigned_part b))")
      (simp_all only: canonical_card_payload_def x raise_Inr_iff option.case option.rel_inject option.rel_distinct)
qed

text \<open>
  The signature of a direct-mode card does not cover the security scheme the card has to declare:
  members that are empty, like the \<open>securitySchemes\<close> entry that \<open>build_direct_signed_agent_card\<close> writes,
  are stripped before signing. Appending that entry to any card that lacks one changes neither the
  signed bytes nor the outcome of the signature check, and turns a card that is rejected for want of
  it into one that verifies whenever the rest of it does.
\<close>

theorem pinned_scheme_unsigned:
  assumes "dict_get crd ''securitySchemes'' = None"
  defines "added \<equiv> crd @ [(''securitySchemes'', JObj [(PINNED_SELF_SIGNED_SCHEME, JObj [])])]"
  shows "canonical_card_payload added = canonical_card_payload crd
    \<and> check_card_signatures L added signers kid = check_card_signatures L crd signers kid
    \<and> (\<nexists>v. verify_self_signed_agent_card L crd pk = Inr v)
    \<and> ((\<exists>v. verify_self_signed_agent_card L added pk = Inr v) \<longleftrightarrow>
         card_signed L crd [pk] pk \<and> (\<exists>url. card_shape crd pk url))"
proof -
  have strip: "strip_empty (JObj (unsigned_part added)) = strip_empty (JObj (unsigned_part crd))"
    by (simp add: added_def unsigned_part_def Let_def List.map_filter_def)
  then have payload: "canonical_card_payload added = canonical_card_payload crd"
    by (simp add: canonical_card_payload_def)
  have get: "dict_get added k = (if k = ''securitySchemes''
      then Some (JObj [(PINNED_SELF_SIGNED_SCHEME, JObj [])]) else dict_get crd k)" for k
    using assms(1) by (auto simp: added_def map_add_def split: option.splits)
  have sig: "check_card_signatures L added signers kid = check_card_signatures L crd signers kid"
    for signers kid
    using payload get [of "''signatures''"] by (simp only: check_card_signatures_def list.inject char.inject) simp
  have shape: "card_shape added k url = card_shape crd k url" for k url
    by (simp add: card_shape_def get)
  have "card_signed L added [pk] pk \<longleftrightarrow> card_signed L crd [pk] pk"
    by (simp flip: check_card_signatures_Inr_iff [where r = "()"] add: sig)
  then show ?thesis
    using assms(1) by (auto simp: payload sig verify_self_signed_Inr_iff shape get validate_direct_security_scheme_Inr_iff)
qed

section \<open>Signed cards verify\<close>

lemma unsigned_part_sign [simp]: "unsigned_part (dict_set ''signatures'' x d) = unsigned_part d"
  by (simp add: unsigned_part_def filter_dict_set)

text \<open>A signing key as the library guarantees it: its public half accepts what it signs.\<close>

definition signing_key_ok :: "lib \<Rightarrow> Ed25519KeyPair \<Rightarrow> bool" where
  "signing_key_ok L key =
     (length (public_bytes key) = 32 \<and> ed_load L (public_bytes key) = Inr ()
      \<and> (\<forall>sk m. private_raw key = Some sk \<longrightarrow> ed_verify L (public_bytes key) (ed_sign L sk m) m))"

lemma signed_body:
  assumes "sign_agent_card_body L body key kid pd = Inr crd" "card_kid kid pd = Inr k"
    and "signing_key_ok L key" "encode_public_key (public_bytes key) = Inr pk" "pk \<in> set signers"
    and "json_loads L (header_bytes k) = Inr (JObj (card_header k))"
  shows "card_signed L crd signers k" "\<And>m. m \<noteq> ''signatures'' \<Longrightarrow> dict_get crd m = dict_get body m"
proof -
  obtain pruned t sk where pruned: "strip_empty (JObj (unsigned_part body)) = Some pruned"
    and t: "jcs pruned = Inr t" and sk: "private_raw key = Some sk"
    and crd: "crd = dict_set ''signatures'' (JList [JObj [(''protected'', JStr (b64u (header_bytes k))),
        (''signature'', JStr (b64u (ed_sign L sk (map byte_of_char (b64u (header_bytes k) @ ''.'' @ b64u t)))))]]) body"
    using assms(1,2)
    by (auto simp: sign_agent_card_body_def sign_def Let_def bind_Inr_iff encode_ascii_Inr_iff raise_Inr_iff
        key_signature_error_def simp del: strip_empty.simps split: option.splits)
  have pk: "parse_public_key pk = Inr (public_bytes key)"
    using assms(4) by (auto simp: encode_public_key_def with_multicodec_def res_simps split: if_splits)
  have "is_ascii ''.''" by code_simp
  then have ascii: "encode_ascii (b64u x @ ''.'' @ b64u y) = Inr (map byte_of_char (b64u x @ ''.'' @ b64u y))"
    for x y by (simp only: encode_ascii_Inr_iff is_ascii_append b64u_ascii)
  have ed: "ed_load L (public_bytes key) = Inr ()" "ed_verify L (public_bytes key) (ed_sign L sk m) m" for m
    using assms(3) sk by (simp_all add: signing_key_ok_def)
  have hdr: "header_is (card_header k) ''alg'' EXPECTED_ALG" "header_is (card_header k) ''typ'' EXPECTED_TYP"
    "header_is (card_header k) ''kid'' k" by (simp_all add: header_is_def card_header_def)
  have ok: "card_sig_ok L [(''protected'', JStr (b64u (header_bytes k))),
        (''signature'', JStr (b64u (ed_sign L sk (map byte_of_char (b64u (header_bytes k) @ ''.'' @ b64u t)))))]
      (b64u t) signers k" (is "card_sig_ok L ?s _ _ _")
    by (rule card_sig_okI [OF _ _ b64u_decode_b64u assms(6) hdr b64u_decode_b64u ascii assms(5) pk ed]) simp_all
  then have "sigs_ok L [JObj ?s] (b64u t) signers k"
    using verify_one_Inr_iff [of L ?s "b64u t" signers k "()"] by (simp add: sigs_ok_def passed_by_def)
  moreover have "canonical_card_payload crd = Inr t"
    using pruned t by (simp add: canonical_card_payload_def crd del: strip_empty.simps)
  ultimately show "card_signed L crd signers k" by (auto simp: card_signed_def crd)
  show "\<And>m. m \<noteq> ''signatures'' \<Longrightarrow> dict_get crd m = dict_get body m" by (simp add: crd)
qed

text \<open>Values without floats, which are all that \<open>canonicalize\<close> refuses here, stay so when stripped.\<close>

fun no_floats :: "json \<Rightarrow> bool" where
  "no_floats (JFloat t) = False"
| "no_floats (JList vs) = (\<forall>v\<in>set vs. no_floats v)"
| "no_floats (JObj ms) = (\<forall>(k, v)\<in>set ms. no_floats v)"
| "no_floats v = True"

lemma str_ok_u: "str_ok (u s)"
proof -
  have "\<not> is_surrogate (code c)" for c :: char
    using nat_of_char_less_256 [of c] unfolding is_surrogate_def by linarith
  then show ?thesis by (simp add: str_ok_def list_all_iff)
qed

lemma jcs_defined: "no_floats j \<Longrightarrow> \<exists>t. jcs j = Inr t"
proof -
  have "no_floats j \<Longrightarrow> py_ok (py_of_json j)"
    by (induction j) (auto simp: str_ok_u)
  then show "no_floats j \<Longrightarrow> ?thesis" by (simp add: jcs_def canonicalize_Inr_iff)
qed

lemma strip_empty_no_floats: "no_floats v \<Longrightarrow> strip_empty v = Some w \<Longrightarrow> no_floats w"
proof (induction v arbitrary: w rule: strip_empty.induct)
  case (1 ms)
  let ?out = "List.map_filter (\<lambda>(k, c). map_option (Pair k) c) (map (\<lambda>(k, v). (k, strip_empty v)) ms)"
  have "w = JObj ?out" using 1(3) by (auto simp: Let_def split: if_splits)
  moreover have "no_floats c" if "(k, c) \<in> set ?out" for k c
    using that 1(1,2) by (fastforce simp: List.map_filter_def)
  ultimately show ?case by auto
next
  case (2 vs)
  let ?out = "List.map_filter id (map strip_empty vs)"
  have "w = JList ?out" using 2(3) by (auto simp: Let_def split: if_splits)
  moreover have "no_floats c" if "c \<in> set ?out" for c
    using that 2(1,2) by (auto simp: List.map_filter_def)
  ultimately show ?case by auto
qed (auto split: if_splits)

lemma strip_empty_some:
  assumes "dict_get ms k = Some (JStr (c # s))"
  shows "\<exists>w. strip_empty (JObj ms) = Some w"
proof -
  have "(k, JStr (c # s)) \<in> set ms" using assms by (rule map_of_SomeD)
  then show ?thesis by (force simp: Let_def List.map_filter_def filter_empty_conv)
qed

lemma dict_update_values: "snd ` set (dict_update d e) \<subseteq> snd ` set d \<union> snd ` set e"
proof (induction e arbitrary: d)
  case (Cons p e)
  obtain k v where p: "p = (k, v)" by force
  have "snd ` set (dict_set k v d) \<subseteq> insert v (snd ` set d)" by (induction d) auto
  moreover have "dict_update d (p # e) = dict_update (dict_set k v d) e" by (simp add: dict_update_def p)
  ultimately show ?case
    using Cons [of "dict_set k v d"] by (simp only: p list.set image_insert snd_conv) blast
qed (simp add: dict_update_def)

text \<open>Extra members that leave the members alone which the builder itself writes.\<close>

definition keeps_required :: "obj \<Rightarrow> bool" where
  "keeps_required e =
     (distinct (map fst e) \<and> no_floats (JObj e)
      \<and> list_all (\<lambda>k. dict_get e k = None)
          [''supportedInterfaces'', ''capabilities'', ''shadownet:v'', ''shadownet:pk''])"

lemma built_body:
  fixes nm descr ver url pk bdg pver :: string and e :: obj
  defines "body \<equiv> build_unsigned_agent_card_body nm descr ver url pk bdg pver"
  assumes "keeps_required e" "parse_public_key pk = Inr b" "url \<noteq> ''''"
  shows "card_shape (body (Some e)) pk url" "dict_get (body (Some e)) ''shadownet:v'' = Some (JStr ''0.2'')"
    "no_floats (JObj (body (Some e)))" "\<And>v. dict_get e k = Some v \<Longrightarrow> dict_get (body (Some e)) k = Some v"
proof -
  have upd: "body (Some e) = dict_update (body None) e"
    by (simp add: body_def build_unsigned_agent_card_body_def Let_def)
  have get: "dict_get (body (Some e)) m = (case dict_get e m of Some v \<Rightarrow> Some v | None \<Rightarrow> dict_get (body None) m)" for m
    using assms(2) by (simp add: upd keeps_required_def dict_get_update)
  have b0: "dict_get (body None) ''shadownet:v'' = Some (JStr ''0.2'')" "card_shape (body None) pk url"
    using assms(3,4)
    by (auto simp: body_def build_unsigned_agent_card_body_def Let_def card_shape_def is_required_extension_def)
  show "dict_get (body (Some e)) ''shadownet:v'' = Some (JStr ''0.2'')" "card_shape (body (Some e)) pk url"
    using assms(2) b0 by (simp_all add: get keeps_required_def card_shape_def)
  show "\<And>v. dict_get e k = Some v \<Longrightarrow> dict_get (body (Some e)) k = Some v" by (simp add: get)
  have "no_floats (JObj (body None))"
    by (simp add: body_def build_unsigned_agent_card_body_def Let_def)
  then show "no_floats (JObj (body (Some e)))"
    using assms(2) dict_update_values [of "body None" e] by (fastforce simp: upd keeps_required_def)
qed

lemma sign_built_body:
  assumes "card_kid kid pd = Inr k" "private_raw key = Some sk"
    and "keeps_required e" "parse_public_key pk = Inr b" "url \<noteq> ''''"
  shows "\<exists>crd. sign_agent_card_body L (build_unsigned_agent_card_body nm descr ver url pk bdg pver (Some e)) key kid pd = Inr crd"
    (is "\<exists>crd. sign_agent_card_body L ?body key kid pd = Inr crd")
proof -
  note body = built_body [OF assms(3,4,5), where nm = nm and descr = descr and ver = ver and bdg = bdg and pver = pver]
  have "dict_get (unsigned_part ?body) ''shadownet:v'' = Some (JStr ''0.2'')"
    using body(2) by (simp add: unsigned_part_def map_of_filter_in)
  then obtain pruned where pruned: "strip_empty (JObj (unsigned_part ?body)) = Some pruned"
    using strip_empty_some by blast
  moreover have "no_floats (JObj (unsigned_part ?body))"
    using body(3) by (auto simp: unsigned_part_def)
  ultimately obtain t where "jcs pruned = Inr t"
    using jcs_defined strip_empty_no_floats by blast
  moreover have "is_ascii ''.''" by code_simp
  ultimately show ?thesis
    using assms(1,2) pruned
    by (simp only: sign_agent_card_body_def bind.simps option.case Let_def sign_def encode_ascii_def
        is_ascii_append b64u_ascii) simp
qed

text \<open>
  C31: building and verifying fit together, in both modes: for extra members that contain no floats and
  leave the builder's own members alone, building a signed card succeeds, and the card verifies for
  every name at the provider (respectively, for the Shadow's own key) with the key and endpoint it was
  built for.
\<close>

theorem build_verify_agent_card:
  assumes "keeps_required e" "url \<noteq> ''''" "signing_key_ok L key" "private_raw key = Some sk"
    and "list_all (\<lambda>kid. json_loads L (header_bytes kid) = Inr (JObj (card_header kid)))
           [''shadownet@'' @ domain rcd, kpk]"
    and "encode_public_key (public_bytes key) = Inr kpk" "kpk \<in> set (provider_keys rcd)"
    and "parse_shadowname shadowname = Inr (local @ ''@'' @ domain rcd)" "CHR ''@'' \<notin> set local"
    and "parse_public_key pk = Inr b" "dict_get e ''securitySchemes'' = None"
  shows "(\<exists>crd. build_signed_agent_card L nm descr ver url pk key (domain rcd) (Some e) = Inr crd
      \<and> verify_agent_card L crd rcd shadowname =
          Inr \<lparr>fc_shadowname = local @ ''@'' @ domain rcd, shadow_public_key = pk, endpoint_url = url,
               cache_max_age = None, etag = None, raw = crd\<rparr>)
    \<and> (\<exists>crd. build_direct_signed_agent_card L nm descr ver url key (Some e) = Inr crd

\<and> verify_self_signed_agent_card L crd kpk =
          Inr \<lparr>fc_shadowname = kpk, shadow_public_key = kpk, endpoint_url = url,
               cache_max_age = None, etag = None, raw = crd\<rparr>)" (is "?provider \<and> ?direct")
proof
  have shape: "card_shape crd k url"
    if "\<And>m. m \<noteq> ''signatures'' \<Longrightarrow> dict_get crd m = dict_get body m" "card_shape body k url" for crd body k
    using that by (simp add: card_shape_def)
  let ?body = "build_unsigned_agent_card_body nm descr ver url pk ''HTTP+JSON'' ''1.0'' (Some e)"
  obtain crd where crd: "sign_agent_card_body L ?body key None (Some (domain rcd)) = Inr crd"
    using sign_built_body [OF _ assms(4,1,10,2), of None "Some (domain rcd)"] by (force simp: card_kid_def)
  then have "card_signed L crd (provider_keys rcd) (''shadownet@'' @ domain rcd)"
    and "\<And>m. m \<noteq> ''signatures'' \<Longrightarrow> dict_get crd m = dict_get ?body m"
    using signed_body [OF crd _ assms(3,6,7)] assms(5) by (simp_all add: card_kid_def)
  moreover from this(2) have "card_shape crd pk url"
    by (rule shape) (assumption, rule built_body(1) [OF assms(1,10,2)])
  ultimately show ?provider
    using crd assms(8,9) by (auto simp: build_signed_agent_card_def Let_def verify_agent_card_Inr_iff)
  let ?pinned = "[(''securitySchemes'', JObj [(PINNED_SELF_SIGNED_SCHEME, JObj [])])]"
  let ?e = "dict_update ?pinned e"
  let ?body = "build_unsigned_agent_card_body nm descr ver url kpk ''HTTP+JSON'' ''1.0'' (Some ?e)"
  have dist: "distinct (map fst (?pinned @ e))"
    using assms(1,11) by (auto simp: keeps_required_def map_of_eq_None_iff)
  then have upd: "?e = ?pinned @ e" by (rule dict_update_append)
  have e: "keeps_required ?e"
    using assms(1) dist unfolding upd by (auto simp: keeps_required_def)
  have kpk: "parse_public_key kpk = Inr (public_bytes key)"
    using assms(6) by (auto simp: encode_public_key_def with_multicodec_def res_simps split: if_splits)
  obtain crd where crd: "sign_agent_card_body L ?body key (Some kpk) None = Inr crd"
    using sign_built_body [OF _ assms(4) e kpk assms(2), of "Some kpk" None] by (force simp: card_kid_def)
  then have "card_signed L crd [kpk] kpk"
    and get: "\<And>m. m \<noteq> ''signatures'' \<Longrightarrow> dict_get crd m = dict_get ?body m"
    using signed_body [OF crd _ assms(3,6), where signers = "[kpk]"] assms(5) by (simp_all add: card_kid_def)
  moreover from this(2) have "card_shape crd kpk url"
    by (rule shape) (assumption, rule built_body(1) [OF e kpk assms(2)])
  moreover have "dict_get crd ''securitySchemes'' = Some (JObj [(PINNED_SELF_SIGNED_SCHEME, JObj [])])"
    using get built_body(4) [OF e kpk assms(2), of "''securitySchemes''"] unfolding upd by simp
  ultimately show ?direct
    using crd assms(6)
    by (auto simp: build_direct_signed_agent_card_def Let_def verify_self_signed_Inr_iff
        validate_direct_security_scheme_Inr_iff)
qed

definition ex_provider :: ProviderRecord where
  "ex_provider = \<lparr>domain = ''a.io'', version = ''0.2'', endpoint = ''https://a.io'', provider_keys = [ex_key],
                  is_issuer = False, delegates = []\<rparr>"

definition ex_card_lib :: lib where
  "ex_card_lib = toy_lib\<lparr>json_loads := (\<lambda>b. Inr (JObj (card_header
     (if b = header_bytes ''shadownet@a.io'' then ''shadownet@a.io'' else ex_key))))\<rparr>"

lemma ex_header: "header_bytes ex_key \<noteq> header_bytes ''shadownet@a.io''"
proof -
  have "json_escape (CHR ''z'') = ''z''" "json_escape (CHR ''s'') = ''s''" by code_simp+
  then show ?thesis
    by (simp add: header_bytes_def card_header_def json_quote_def ex_key_def encode_multibase_z_def
        byte_of_char_inj)
qed

theorem build_verify_agent_card_witness:
  "\<exists>crd. build_direct_signed_agent_card ex_card_lib ''Ada'' '''' ''1'' ''https://h/a2a''
           \<lparr>public_bytes = ex_seed, private_raw = Some ex_seed\<rparr> (Some []) = Inr crd
     \<and> verify_self_signed_agent_card ex_card_lib crd ex_key =
         Inr \<lparr>fc_shadowname = ex_key, shadow_public_key = ex_key, endpoint_url = ''https://h/a2a'',
              cache_max_age = None, etag = None, raw = crd\<rparr>"
proof -
  let ?key = "\<lparr>public_bytes = ex_seed, private_raw = Some ex_seed\<rparr>"
  have "signing_key_ok ex_card_lib ?key"
    by (simp add: signing_key_ok_def ex_card_lib_def toy_lib_def ex_seed_def)
  moreover have "list_all (\<lambda>kid. json_loads ex_card_lib (header_bytes kid) = Inr (JObj (card_header kid)))
      [''shadownet@'' @ domain ex_provider, ex_key]"
    using ex_header by (simp add: ex_card_lib_def ex_provider_def)
  moreover have "encode_public_key (public_bytes ?key) = Inr ex_key"
    by (simp add: encode_public_key_def ex_key_def ex_seed_def with_multicodec_def)
  moreover have "parse_shadowname ''ada@a.io'' = Inr (''ada'' @ ''@'' @ ''a.io'')" by code_simp
  then have "parse_shadowname ''ada@a.io'' = Inr (''ada'' @ ''@'' @ domain ex_provider)"
    by (simp add: ex_provider_def)
  moreover have "keeps_required []" "ex_key \<in> set (provider_keys ex_provider)"
    by (simp_all add: keeps_required_def ex_provider_def)
  ultimately show ?thesis
    by (intro build_verify_agent_card [THEN conjunct2, of _ _ _ _ ex_seed ex_provider ex_key
        "''ada@a.io''" "''ada''" ex_key ex_seed]) (simp_all add: ex_key_parses)
qed

section \<open>Exceptions that leave the verifier\<close>

text \<open>
  A malformed signature object can make verification fail with an exception that is no
  \<open>AgentCardError\<close>, even next to a valid signature: when the protected header of the first signature is
  JSON but no object, \<open>header.get\<close> raises \<open>AttributeError\<close>, which neither the loop over the signatures
  nor the verifier catches.
\<close>

theorem verify_agent_card_header_escape:
  assumes "parse_shadowname shadowname = Inr (local @ ''@'' @ domain rcd)" "CHR ''@'' \<notin> set local"
    and "dict_get crd ''signatures'' = Some (JList (JObj s # sigs))" "canonical_card_payload crd = Inr t"
    and "dict_get s ''protected'' = Some (JStr p)" "dict_get s ''signature'' = Some (JStr sg)"
    and "b64u_decode p = Inr hb" "json_loads L hb = Inr j" "\<nexists>h. j = JObj h"
  shows "\<exists>e. verify_agent_card L crd rcd shadowname = Inl e \<and> cls e = Builtin AttributeError
    \<and> \<not> is_a e (Sdk ShadownetError)"
proof -
  let ?e = "Exn (Builtin AttributeError) ''object has no attribute get''"
  have "header_obj j = Inl ?e" using assms(9) by (cases j) (auto simp: header_obj_def raise_def)
  then have "verify_one L s (b64u t) (provider_keys rcd) k = Inl ?e" for k
    using assms(5-8) by (simp add: verify_one_def)
  moreover have na: "\<not> is_a ?e (Sdk AgentCardSignatureError)" "\<not> is_a ?e (Sdk ShadownetError)"
    by (simp_all add: is_a_eval)
  ultimately have "check_card_signatures L crd (provider_keys rcd) k = Inl ?e" for k
    using assms(3,4) by (simp add: check_card_signatures_def verify_signatures_def)
  then show ?thesis
    using assms(1,2) na(2) partition_on_append [OF assms(2), of "domain rcd"]
    by (simp add: verify_agent_card_def)
qed

theorem verify_agent_card_header_escape_witness:
  "\<exists>e. verify_agent_card (toy_lib\<lparr>json_loads := (\<lambda>_. Inr (JList []))\<rparr>)
         [(''name'', JStr ''Ada''),
          (''signatures'', JList [JObj [(''protected'', JStr ''W10''), (''signature'', JStr '''')]])]
         ex_provider ''ada@a.io'' = Inl e \<and> cls e = Builtin AttributeError \<and> \<not> is_a e (Sdk ShadownetError)"
proof -
  let ?crd = "[(''name'', JStr ''Ada''),
          (''signatures'', JList [JObj [(''protected'', JStr ''W10''), (''signature'', JStr '''')]])]"
  have "parse_shadowname ''ada@a.io'' = Inr (''ada'' @ ''@'' @ ''a.io'')" by code_simp
  then have "parse_shadowname ''ada@a.io'' = Inr (''ada'' @ ''@'' @ domain ex_provider)"
    by (simp add: ex_provider_def)
  moreover obtain t where "canonical_card_payload ?crd = Inr t"
    using jcs_defined [of "JObj [(''name'', JStr ''Ada'')]"]
    by (auto simp: canonical_card_payload_def unsigned_part_def List.map_filter_simps)
  moreover have "b64u_decode ''W10'' = Inr (map byte_of_char ''[]'')" by code_simp
  ultimately show ?thesis
    by (intro verify_agent_card_header_escape [where local = "''ada''" and t = t and p = "''W10''" and sg = "''''"
          and s = "[(''protected'', JStr ''W10''), (''signature'', JStr '''')]" and sigs = "[]"
          and hb = "map byte_of_char ''[]''" and j = "JList []"]) simp_all
qed

theorem card_payload_iff_witness:
  "\<exists>t. canonical_card_payload [(''name'', JStr ''Ada''), (''tags'', JList [])] = Inr t
     \<and> canonical_card_payload [(''name'', JStr ''Ada'')] = Inr t
     \<and> canonical_card_payload [(''name'', JStr ''Bob'')] \<noteq> Inr t"
proof -
  let ?a = "[(''name'', JStr ''Ada''), (''tags'', JList [])]"
  have s: "strip_empty (JObj (unsigned_part ?a)) = Some (JObj [(''name'', JStr ''Ada'')])"
    "strip_empty (JObj (unsigned_part [(''name'', JStr (c # cs))])) = Some (JObj [(''name'', JStr (c # cs))])" for c cs
    by (simp_all add: unsigned_part_def List.map_filter_simps)
  then obtain t where t: "canonical_card_payload ?a = Inr t"
    using jcs_defined [of "JObj [(''name'', JStr ''Ada'')]"]
    by (auto simp: canonical_card_payload_def simp del: strip_empty.simps)
  have "same_json (JObj [(''name'', JStr s)]) (JObj [(''name'', JStr s')]) \<longleftrightarrow> s = s'" for s s'
    using same_json_member [of "[(''name'', JStr s)]" "[(''name'', JStr s')]" "''name''"]
    by (cases "s = s'") (simp add: same_json_def, force)
  then show ?thesis
    using card_payload_iff [of ?a "[(''name'', JStr ''Ada'')]" t] card_payload_iff [of ?a "[(''name'', JStr ''Bob'')]" t] t
    by (auto simp: s simp del: strip_empty.simps)
qed

theorem pinned_scheme_unsigned_witness:
  "canonical_card_payload ([(''name'', JStr ''Ada'')] @ [(''securitySchemes'', JObj [(PINNED_SELF_SIGNED_SCHEME, JObj [])])])
     = canonical_card_payload [(''name'', JStr ''Ada'')]"
  using pinned_scheme_unsigned [of "[(''name'', JStr ''Ada'')]"] by simp

section \<open>The async fetches agree\<close>

lemma run_afetch_agent_card_json [run_simps]:
  assumes "\<And>url. run (aget url card_headers) = sres (get url card_headers)"
  shows "run (afetch_agent_card_json aget shadowname rcd) = sres (fetch_agent_card_json get shadowname rcd)"
    and "run (afetch_direct_agent_card_json aget origin) = sres (fetch_direct_agent_card_json get origin)"
  by (simp_all add: afetch_agent_card_json_def fetch_agent_card_json_def afetch_direct_agent_card_json_def
      fetch_direct_agent_card_json_def Let_def run_simps assms)

text \<open>
  The async functions compute what their synchronous siblings compute, for an async client that
  answers every request as the synchronous client does, and leave the state of other tasks alone.
\<close>

lemma afetch_and_verify_agrees:
  assumes "\<And>url. run (aget url card_headers) = sres (get url card_headers)"
  shows "run (afetch_and_verify_agent_card L aget shadowname rcd) =
      sres (fetch_and_verify_agent_card L get shadowname rcd)
    \<and> run (afetch_and_verify_direct_agent_card L aget origin pk) =
      sres (fetch_and_verify_direct_agent_card L get origin pk)"
  by (simp add: afetch_and_verify_agent_card_def fetch_and_verify_agent_card_def
      afetch_and_verify_direct_agent_card_def fetch_and_verify_direct_agent_card_def
      run_afetch_agent_card_json [of aget get, OF assms] run_simps case_prod_unfold)

end
