(* ===== verification/Envelope.thy ===== *)
theory Envelope
  imports Credential Jcs
begin

text \<open>
  Envelopes, from \<open>python-sdk/src/shadownet/envelope.py\<close>: the payload models, the hash that binds an
  envelope to the message around it, minting and verification. Shown here: exactly which envelopes
  verify, that minted envelopes verify, and that two messages with the same hash agree in
  everything the hash covers unless the hash function collides on their canonical bytes.
\<close>

section \<open>Data\<close>

definition ENVELOPE_TYP :: string where
  "ENVELOPE_TYP = ''shadownet-env+jwt''"

definition ENVELOPE_EXTENSION_URI :: string where
  "ENVELOPE_EXTENSION_URI = ''urn:shadownet:0.2''"

definition ENV_MAX_LIFETIME_SECONDS :: int where
  "ENV_MAX_LIFETIME_SECONDS = 300"

abbreviation envelope_error :: "string \<Rightarrow> 'a res" where
  "envelope_error m \<equiv> raise (Sdk EnvelopeError) m"

record EnvelopeBody =
  b_text :: "string option"
  b_intent :: "string option"
  b_data :: "obj option"
  b_extra :: obj

record EnvelopePayload =
  e_v :: string
  e_sender :: string
  e_recipient :: string
  e_iat :: int
  e_exp :: int
  e_msg_hash :: string
  e_body :: EnvelopeBody
  e_creds :: "string list"
  e_extra :: obj

section \<open>The payload models\<close>

definition v_EnvelopeBody :: "json \<Rightarrow> EnvelopeBody fres" where
  "v_EnvelopeBody j =
     (case j of
        JObj d \<Rightarrow>
          fap (fap (fap (FOk (\<lambda>t i x. \<lparr>b_text = t, b_intent = i, b_data = x,
              b_extra = extra_members d [[''text''], [''intent''], [''data'']]\<rparr>))
            (optional_field d [''text''] None (v_optional v_str)))
            (optional_field d [''intent''] None (v_optional v_str)))
            (optional_field d [''data''] None (v_optional v_obj))
      | _ \<Rightarrow> FErr)"

text \<open>The pattern \<open>^sha256:[A-Za-z0-9_-]+$\<close>.\<close>

definition msg_hash_pattern :: "string \<Rightarrow> bool" where
  "msg_hash_pattern s =
     (prefix ''sha256:'' s \<and> drop 7 s \<noteq> ''''
      \<and> list_all (\<lambda>c. is_alnum_ascii c \<or> c = CHR ''_'' \<or> c = CHR ''-'') (drop 7 s))"

definition envelope_fields :: "string list list" where
  "envelope_fields =
     [[''v''], [''from'', ''sender''], [''to'', ''recipient''], [''iat''], [''exp''],
      [''msgHash'', ''msg_hash''], [''body''], [''creds'']]"

definition v_EnvelopePayload :: "lib \<Rightarrow> obj \<Rightarrow> EnvelopePayload fres" where
  "v_EnvelopePayload L d =
     fap (fap (fap (fap (fap (fap (fap (fap
       (FOk (\<lambda>v f t a x h b c. \<lparr>e_v = v, e_sender = f, e_recipient = t, e_iat = a, e_exp = x,
           e_msg_hash = h, e_body = b, e_creds = c, e_extra = extra_members d envelope_fields\<rparr>))
       (required_field d [''v''] (\<lambda>j. constrain (\<lambda>s. s = ''0.2'') (v_str j))))
       (required_field d [''from'', ''sender''] v_Identifier))
       (required_field d [''to'', ''recipient''] v_Identifier))
       (required_field d [''iat''] (\<lambda>j. constrain (\<lambda>i. 0 \<le> i) (v_int L j))))
       (required_field d [''exp''] (\<lambda>j. constrain (\<lambda>i. 0 \<le> i) (v_int L j))))
       (required_field d [''msgHash'', ''msg_hash''] (\<lambda>j. constrain msg_hash_pattern (v_str j))))
       (required_field d [''body''] v_EnvelopeBody))
       (optional_field d [''creds''] [] (v_list v_str))"

definition EnvelopePayload_model_validate :: "lib \<Rightarrow> obj \<Rightarrow> EnvelopePayload res" where
  "EnvelopePayload_model_validate L d = validated L ''EnvelopePayload'' (JObj d) (v_EnvelopePayload L d)"

text \<open>\<open>payload.model_dump(by_alias=True, exclude_none=True)\<close>.\<close>

definition not_none :: "obj \<Rightarrow> obj" where
  "not_none d = filter (\<lambda>(k, v). v \<noteq> JNull) d"

definition opt_member :: "string \<Rightarrow> ('a \<Rightarrow> json) \<Rightarrow> 'a option \<Rightarrow> obj" where
  "opt_member k f v = (case v of None \<Rightarrow> [] | Some x \<Rightarrow> [(k, f x)])"

definition EnvelopeBody_dump :: "EnvelopeBody \<Rightarrow> obj" where
  "EnvelopeBody_dump b =
     dict_update (opt_member ''text'' JStr (b_text b) @ opt_member ''intent'' JStr (b_intent b)
       @ opt_member ''data'' JObj (b_data b)) (not_none (b_extra b))"

definition EnvelopePayload_dump :: "EnvelopePayload \<Rightarrow> obj" where
  "EnvelopePayload_dump p =
     dict_update
       [(''v'', JStr (e_v p)), (''from'', JStr (e_sender p)), (''to'', JStr (e_recipient p)),
        (''iat'', JInt (e_iat p)), (''exp'', JInt (e_exp p)), (''msgHash'', JStr (e_msg_hash p)),
        (''body'', JObj (EnvelopeBody_dump (e_body p))), (''creds'', JList (map JStr (e_creds p)))]
       (not_none (e_extra p))"

section \<open>The code\<close>

definition HASHED_KEYS :: "string list" where
  "HASHED_KEYS = [''messageId'', ''role'', ''parts'', ''contextId'', ''taskId'']"

text \<open>
  The canonical input of \<open>compute_msg_hash\<close>: the covered members in the order of the source, then the
  metadata without the envelope. \<open>metadata.items()\<close> raises on anything but an object.
\<close>

definition canonical_input :: "obj \<Rightarrow> obj res" where
  "canonical_input message =
     (let base = List.map_filter (\<lambda>k. map_option (Pair k) (dict_get message k)) HASHED_KEYS in
      case dict_get message ''metadata'' of
        None \<Rightarrow> Inr base
      | Some (JObj metadata) \<Rightarrow>
          Inr (base @ [(''metadata'', JObj (filter (\<lambda>(k, v). k \<noteq> ENVELOPE_EXTENSION_URI) metadata))])
      | Some _ \<Rightarrow> raise (Builtin AttributeError) ''object has no attribute items'')"

definition compute_msg_hash :: "lib \<Rightarrow> obj \<Rightarrow> string res" where
  "compute_msg_hash L message =
     bind (canonical_input message) (\<lambda>inp.
     bind (jcs (JObj inp)) (\<lambda>canonical.
     Inr (''sha256:'' @ b64u (sha256 L canonical))))"

definition envelope_claims :: "EnvelopePayload \<Rightarrow> obj" where
  "envelope_claims p =
     (let claims = EnvelopePayload_dump p
      in if e_creds p = [] then AList.delete ''creds'' claims else claims)"

definition mint_envelope :: "lib \<Rightarrow> EnvelopePayload \<Rightarrow> Ed25519KeyPair \<Rightarrow> string res" where
  "mint_envelope L p key =
     (if e_exp p - e_iat p > ENV_MAX_LIFETIME_SECONDS
      then envelope_error (''envelope lifetime exceeds 300 seconds (exp - iat = ''
             @ int_str (e_exp p - e_iat p) @ ''s)'')
      else if e_exp p \<le> e_iat p
      then envelope_error ''envelope exp must be greater than iat''
      else sign_jwt L (envelope_claims p) key
             (Some [(''typ'', JStr ENVELOPE_TYP), (''kid'', JStr (e_sender p))]))"

definition verify_envelope ::
  "lib \<Rightarrow> int \<Rightarrow> string \<Rightarrow> Ed25519KeyPair \<Rightarrow> string \<Rightarrow> int option \<Rightarrow> int \<Rightarrow> EnvelopePayload res"
where
  "verify_envelope L clock token sender_key expected_recipient now lw =
     bind (rewrap (decode_header L token) (Sdk JWTError) (Sdk EnvelopeError)
             (\<lambda>m. ''invalid JWS header: '' @ m)) (\<lambda>header.
     if \<not> header_is header ''typ'' ENVELOPE_TYP
     then envelope_error (''typ must be '' @ repr ENVELOPE_TYP @ '', got '' @ repr_opt (dict_get header ''typ''))
     else if \<not> header_is header ''alg'' ''EdDSA''
     then envelope_error (''alg must be EdDSA, got '' @ repr_opt (dict_get header ''alg''))
     else
     bind (rewrap (decode_unverified_claims L token) (Sdk JWTError) (Sdk EnvelopeError)
             (\<lambda>m. ''unable to decode envelope claims: '' @ m)) (\<lambda>unverified.
     bind (rewrap (EnvelopePayload_model_validate L unverified) (Lib ValidationError)
             (Sdk EnvelopeError) (\<lambda>m. ''envelope payload invalid: '' @ m)) (\<lambda>p.
     if \<not> header_is header ''kid'' (e_sender p)
     then envelope_error (''kid must equal from ('' @ repr (e_sender p) @ ''), got '' @ repr_opt (dict_get header ''kid''))
     else if e_recipient p \<noteq> expected_recipient
     then envelope_error (''envelope to='' @ repr (e_recipient p) @ '' does not match this URL (''
            @ repr expected_recipient @ '')'')
     else if e_exp p - e_iat p > ENV_MAX_LIFETIME_SECONDS
     then envelope_error ''envelope lifetime exceeds 300 seconds''
     else
       (let current = (case now of None \<Rightarrow> clock | Some t \<Rightarrow> t) in
          if e_exp p < current - lw then envelope_error ''envelope expired''
          else if e_iat p > current + lw then envelope_error ''envelope iat in the future''
          else
     bind (rewrap (verify_jws_signature L token sender_key) (Sdk KeySignatureError)
             (Sdk EnvelopeError) (\<lambda>m. ''signature verification failed: '' @ m)) (\<lambda>_.
     Inr p)))))"

section \<open>What verification accepts\<close>


lemma verify_envelope_Inr:
  assumes "verify_envelope L clock token key rcpt (Some t) lw = Inr p"
  obtains header claims where "jwt_header L token = Inr header" "header_is header ''kid'' (e_sender p)"
    "jwt_claims L token = Inr claims" "EnvelopePayload_model_validate L claims = Inr p"
    "e_recipient p = rcpt" "e_exp p - e_iat p \<le> 300" "t - lw \<le> e_exp p" "e_iat p \<le> t + lw"
    "signed_by L token (public_bytes key)"
  using assms
  by (auto simp: verify_envelope_def res_simps verify_jws_signature_Inr ENV_MAX_LIFETIME_SECONDS_def
      Let_def not_less)

section \<open>What the message hash binds\<close>

text \<open>The metadata that the hash covers: without the envelope itself.\<close>

definition covered_metadata :: "obj \<Rightarrow> json option" where
  "covered_metadata message =
     map_option (\<lambda>j. case j of JObj md \<Rightarrow> JObj (filter (\<lambda>(k, v). k \<noteq> ENVELOPE_EXTENSION_URI) md) | _ \<Rightarrow> j)
       (dict_get message ''metadata'')"

lemma dict_get_base:
  "distinct ks \<Longrightarrow> dict_get (List.map_filter (\<lambda>k. map_option (Pair k) (dict_get m k)) ks) k =
     (if k \<in> set ks then dict_get m k else None)"
  by (induction ks) (auto simp: List.map_filter_simps split: option.splits)

lemma fst_base:
  "set (map fst (List.map_filter (\<lambda>k. map_option (Pair k) (dict_get m k)) ks)) \<subseteq> set ks"
  by (induction ks) (auto simp: List.map_filter_simps split: option.splits)

lemma distinct_base:
  "distinct ks \<Longrightarrow> distinct (map fst (List.map_filter (\<lambda>k. map_option (Pair k) (dict_get m k)) ks))"
proof (induction ks)
  case (Cons k ks)
  then show ?case using fst_base [of m ks] by (auto simp: List.map_filter_simps split: option.splits)
qed (simp add: List.map_filter_simps)

lemma base_values:
  "(k, v) \<in> set (List.map_filter (\<lambda>k. map_option (Pair k) (dict_get m k)) ks) \<Longrightarrow> (k, v) \<in> set m"
  by (induction ks) (auto simp: List.map_filter_simps dest: map_of_SomeD split: option.splits)

lemma hashed_keys: "distinct HASHED_KEYS" "''metadata'' \<notin> set HASHED_KEYS"
  by (simp_all add: HASHED_KEYS_def)

lemma canonical_input_get:
  assumes "canonical_input m = Inr i"
  shows "k \<in> set HASHED_KEYS \<Longrightarrow> dict_get i k = dict_get m k"
    "dict_get i ''metadata'' = covered_metadata m"
  using assms hashed_keys
  by (auto simp: canonical_input_def Let_def covered_metadata_def dict_get_base map_add_def
      split: option.splits json.splits)

lemma canonical_input_wf:
  assumes "canonical_input m = Inr i" "json_wf (JObj m)"
  shows "json_wf (JObj i)"
proof -
  let ?base = "List.map_filter (\<lambda>k. map_option (Pair k) (dict_get m k)) HASHED_KEYS"
  have d: "distinct (map fst ?base)" "''metadata'' \<notin> fst ` set ?base"
    using distinct_base [OF hashed_keys(1)] fst_base [of m HASHED_KEYS] hashed_keys(2) by auto
  have v: "json_wf w" if "(k, w) \<in> set ?base" for k w
    using base_values [OF that] assms(2) by auto
  show ?thesis
  proof (cases "dict_get m ''metadata''")
    case None
    with assms(1) d v show ?thesis by (auto simp: canonical_input_def)
  next
    case (Some j)
    then obtain md where j: "j = JObj md" using assms(1) by (auto simp: canonical_input_def split: json.splits)
    have "json_wf (JObj md)" using assms(2) map_of_SomeD [OF Some] j by (fastforce simp del: json_wf.simps(2) simp: json_wf.simps(2) [of m])
    then have "json_wf (JObj (filter (\<lambda>(k, v). k \<noteq> ENVELOPE_EXTENSION_URI) md))"
      by (auto simp: distinct_map_filter)
    with Some j assms(1) d v show ?thesis by (auto simp: canonical_input_def)
  qed
qed

text \<open>The hash function does not collide on the canonical bytes of these two messages.\<close>

definition no_collision :: "lib \<Rightarrow> obj \<Rightarrow> obj \<Rightarrow> bool" where
  "no_collision L m m' =
     (\<forall>i i' a b. canonical_input m = Inr i \<and> canonical_input m' = Inr i' \<and> jcs (JObj i) = Inr a
        \<and> jcs (JObj i') = Inr b \<and> sha256 L a = sha256 L b \<longrightarrow> a = b)"

lemma same_hash:
  assumes "json_wf (JObj m)" "json_wf (JObj m')" "no_collision L m m'"
    and "compute_msg_hash L m = Inr h" "compute_msg_hash L m' = Inr h"
  obtains i i' where "canonical_input m = Inr i" "canonical_input m' = Inr i'"
    "same_json (JObj i) (JObj i')" "json_wf (JObj i)" "json_wf (JObj i')"
proof -
  obtain i i' a b where i: "canonical_input m = Inr i" "canonical_input m' = Inr i'"
    and ab: "jcs (JObj i) = Inr a" "jcs (JObj i') = Inr b" "b64u (sha256 L a) = b64u (sha256 L b)"
    using assms(4,5) by (auto simp: compute_msg_hash_def bind_Inr_iff)
  then have "a = b" using assms(3) by (simp add: no_collision_def b64u_inj)
  have wf: "json_wf (JObj i)" "json_wf (JObj i')"
    using canonical_input_wf i assms(1,2) by blast+
  then have "same_json (JObj i) (JObj i')"
    using ab \<open>a = b\<close> by (intro jcs_same) simp_all
  with i wf show ?thesis by (intro that)
qed

text \<open>
  C27: the message hash binds the message: two messages with the same \<open>msgHash\<close> agree in messageId,
  role, parts, contextId, taskId and in all metadata except the envelope, each up to the order of
  object members, presence included, as long as the hash function does not collide on them.
\<close>

theorem msg_hash_binds:
  assumes "json_wf (JObj m)" "json_wf (JObj m')" "no_collision L m m'"
    and "compute_msg_hash L m = Inr h" "compute_msg_hash L m' = Inr h"
  shows "list_all (\<lambda>k. rel_option same_json (dict_get m k) (dict_get m' k))
           [''messageId'', ''role'', ''parts'', ''contextId'', ''taskId'']
    \<and> rel_option same_json (covered_metadata m) (covered_metadata m')"
proof -
  obtain i i' where i: "canonical_input m = Inr i" "canonical_input m' = Inr i'"
    "same_json (JObj i) (JObj i')" "json_wf (JObj i)" "json_wf (JObj i')"
    using same_hash [OF assms] .
  have "rel_option same_json (dict_get i k) (dict_get i' k)" for k
    using i(3-5) by (intro same_json_member) auto
  note r = this [unfolded atomize_all]
  have "rel_option same_json (dict_get m k) (dict_get m' k)" if "k \<in> set HASHED_KEYS" for k
    using r canonical_input_get(1) [OF i(1) that] canonical_input_get(1) [OF i(2) that] by metis
  moreover have "rel_option same_json (covered_metadata m) (covered_metadata m')"
    using r canonical_input_get(2) [OF i(1)] canonical_input_get(2) [OF i(2)] by metis
  ultimately show ?thesis by (simp add: HASHED_KEYS_def)
qed

lemma same_hash_message_id:
  assumes "json_wf (JObj m)" "json_wf (JObj m')" "no_collision L m m'"
    and "compute_msg_hash L m = Inr h" "compute_msg_hash L m' = Inr h"
    and "dict_get m ''messageId'' = Some (JStr s)"
  shows "dict_get m' ''messageId'' = Some (JStr s)"
proof -
  obtain i i' where i: "canonical_input m = Inr i" "canonical_input m' = Inr i'"
    "same_json (JObj i) (JObj i')" "json_wf (JObj i)" "json_wf (JObj i')"
    using same_hash [OF assms(1-5)] .
  have "rel_option same_json (dict_get i ''messageId'') (dict_get i' ''messageId'')"
    using i(3-5) by (intro same_json_member) auto
  then show ?thesis
    using canonical_input_get(1) [OF i(1)] canonical_input_get(1) [OF i(2)] assms(6)
    by (auto simp: HASHED_KEYS_def option_rel_Some1)
qed

definition ex_message :: "string \<Rightarrow> obj" where
  "ex_message jws =
     [(''messageId'', JStr ''m1''), (''role'', JStr ''ROLE_USER''), (''parts'', JList [JObj [(''text'', JStr ''hi'')]]),
      (''metadata'', JObj [(ENVELOPE_EXTENSION_URI, JStr jws), (''trace'', JInt 7)])]"

lemma ex_message_hash: "\<exists>h. compute_msg_hash toy_lib (ex_message jws) = Inr h"
proof -
  obtain i where i: "canonical_input (ex_message jws) = Inr i" "py_ok (py_of_json (JObj i))"
    by (simp add: canonical_input_def ex_message_def HASHED_KEYS_def List.map_filter_simps str_ok_def
        is_surrogate_def ENVELOPE_EXTENSION_URI_def)
  then have "\<exists>b. jcs (JObj i) = Inr b" by (simp only: jcs_def canonicalize_Inr_iff) simp
  with i(1) show ?thesis by (auto simp: compute_msg_hash_def)
qed

lemma ex_message_wf: "json_wf (JObj (ex_message jws))"
  by (simp add: ex_message_def ENVELOPE_EXTENSION_URI_def)

lemma ex_message_same_input: "canonical_input (ex_message a) = canonical_input (ex_message b)"
  by (simp add: canonical_input_def ex_message_def HASHED_KEYS_def List.map_filter_simps ENVELOPE_EXTENSION_URI_def)

theorem msg_hash_binds_witness:
  "rel_option same_json (covered_metadata (ex_message ''a.b.c'')) (covered_metadata (ex_message ''d.e.f''))"
proof -
  obtain h where h: "compute_msg_hash toy_lib (ex_message ''a.b.c'') = Inr h"
    using ex_message_hash by blast
  then have "compute_msg_hash toy_lib (ex_message ''d.e.f'') = Inr h"
    by (simp add: compute_msg_hash_def ex_message_same_input [of "''d.e.f''" "''a.b.c''"])
  moreover have "no_collision toy_lib (ex_message ''a.b.c'') (ex_message ''d.e.f'')"
    by (simp add: no_collision_def toy_lib_def)
  ultimately show ?thesis
    using msg_hash_binds [OF ex_message_wf ex_message_wf _ h] by blast
qed

section \<open>Minted envelopes verify\<close>

definition env_keys :: "string list" where
  "env_keys = [''v'', ''from'', ''to'', ''iat'', ''exp'', ''msgHash'', ''body'', ''creds'']"

definition body_wf :: "EnvelopeBody \<Rightarrow> bool" where
  "body_wf b =
     (distinct ([''text'', ''intent'', ''data''] @ map fst (b_extra b))
      \<and> list_all (\<lambda>(k, v). v \<noteq> JNull) (b_extra b))"

definition envelope_wf :: "EnvelopePayload \<Rightarrow> bool" where
  "envelope_wf p =
     (e_v p = ''0.2'' \<and> canonicalize_identifier (e_sender p) = Inr (e_sender p)
      \<and> canonicalize_identifier (e_recipient p) = Inr (e_recipient p) \<and> 0 \<le> e_iat p \<and> 0 \<le> e_exp p
      \<and> msg_hash_pattern (e_msg_hash p) \<and> body_wf (e_body p)
      \<and> distinct (env_keys @ map fst (e_extra p)) \<and> list_all (\<lambda>(k, v). v \<noteq> JNull) (e_extra p))"

lemma extra_members_rest:
  "(\<forall>k\<in>set (map fst d). k \<in> K) \<Longrightarrow> K \<inter> set (map fst e) = {} \<Longrightarrow>
     set (List.map_filter (matched_key (d @ e)) fs) = K \<Longrightarrow> extra_members (d @ e) fs = e"
proof -
  assume d: "\<forall>k\<in>set (map fst d). k \<in> K" and e: "K \<inter> set (map fst e) = {}"
    and K: "set (List.map_filter (matched_key (d @ e)) fs) = K"
  have "filter (\<lambda>(k, v). k \<notin> K) d = []" "filter (\<lambda>(k, v). k \<notin> K) e = e"
    using d e by (force simp: filter_empty_conv filter_id_conv)+
  then show ?thesis by (simp add: extra_members_def K)
qed

lemma not_none_id: "list_all (\<lambda>(k, v). v \<noteq> JNull) d \<Longrightarrow> not_none d = d"
  by (auto simp: not_none_def list_all_iff filter_id_conv)

lemma validate_body_dump:
  assumes "body_wf b"
  shows "v_EnvelopeBody (JObj (EnvelopeBody_dump b)) = FOk b"
proof -
  let ?base = "opt_member ''text'' JStr (b_text b) @ opt_member ''intent'' JStr (b_intent b)
       @ opt_member ''data'' JObj (b_data b)"
  have dis: "''text'' \<notin> fst ` set (b_extra b)" "''intent'' \<notin> fst ` set (b_extra b)"
    "''data'' \<notin> fst ` set (b_extra b)" "distinct (map fst (b_extra b))"
    and nn: "not_none (b_extra b) = b_extra b"
    using assms by (auto simp: body_wf_def not_none_id)
  then have none: "dict_get (b_extra b) ''text'' = None" "dict_get (b_extra b) ''intent'' = None"
    "dict_get (b_extra b) ''data'' = None"
    by (simp_all add: map_of_eq_None_iff)
  have dump: "EnvelopeBody_dump b = ?base @ b_extra b"
    unfolding EnvelopeBody_dump_def nn
    using dis by (intro dict_update_append) (cases "b_text b"; cases "b_intent b"; cases "b_data b"; simp add: opt_member_def)
  have "extra_members (?base @ b_extra b) [[''text''], [''intent''], [''data'']] = b_extra b"
  proof (rule extra_members_rest [where K = "set (map fst ?base)"])
    show "set (map fst ?base) \<inter> set (map fst (b_extra b)) = {}"
      using dis by (cases "b_text b"; cases "b_intent b"; cases "b_data b"; simp add: opt_member_def)
    show "set (List.map_filter (matched_key (?base @ b_extra b)) [[''text''], [''intent''], [''data'']]) = set (map fst ?base)"
      using none by (cases "b_text b"; cases "b_intent b"; cases "b_data b";
          simp add: opt_member_def List.map_filter_simps matched_key_def)
  qed simp
  then show ?thesis
    unfolding dump v_EnvelopeBody_def
    by (cases "b_text b"; cases "b_intent b"; cases "b_data b")
      (simp_all add: optional_field_single opt_member_def none v_optional_def)
qed

definition base_claims :: "EnvelopePayload \<Rightarrow> obj" where
  "base_claims p =
     [(''v'', JStr (e_v p)), (''from'', JStr (e_sender p)), (''to'', JStr (e_recipient p)),
      (''iat'', JInt (e_iat p)), (''exp'', JInt (e_exp p)), (''msgHash'', JStr (e_msg_hash p)),
      (''body'', JObj (EnvelopeBody_dump (e_body p)))]"

lemma envelope_claims_eq:
  assumes "envelope_wf p"
  shows "envelope_claims p =
    (base_claims p @ (if e_creds p = [] then [] else [(''creds'', JList (map JStr (e_creds p)))])) @ e_extra p"
proof -
  have dis: "distinct (env_keys @ map fst (e_extra p))" and nn: "not_none (e_extra p) = e_extra p"
    using assms by (simp_all add: envelope_wf_def not_none_id)
  have "EnvelopePayload_dump p = (base_claims p @ [(''creds'', JList (map JStr (e_creds p)))]) @ e_extra p"
    unfolding EnvelopePayload_dump_def nn using dis
    by (subst dict_update_append) (simp_all add: base_claims_def env_keys_def)
  moreover have "''creds'' \<notin> fst ` set (e_extra p)" using dis by (simp add: env_keys_def)
  then have "AList.delete ''creds'' (e_extra p) = e_extra p" by (rule delete_id)
  ultimately show ?thesis
    by (simp add: envelope_claims_def Let_def base_claims_def AList.delete_eq)
qed

lemma validate_envelope_claims:
  assumes wf: "envelope_wf p" and int: "\<forall>i. as_int L (JInt i) = Some i"
  shows "EnvelopePayload_model_validate L (envelope_claims p) = Inr p"
proof -
  let ?c = "if e_creds p = [] then [] else [(''creds'', JList (map JStr (e_creds p)))]"
  let ?d = "(base_claims p @ ?c) @ e_extra p"
  have "set env_keys \<inter> set (map fst (e_extra p)) = {}"
    using wf by (simp only: envelope_wf_def distinct_append)
  then have none: "dict_get (e_extra p) k = None" if "k \<in> set env_keys" for k
    using that by (auto simp: map_of_eq_None_iff)
  have sub: "set (map fst (base_claims p @ ?c)) \<subseteq> set env_keys"
    by (auto simp: base_claims_def env_keys_def)
  have creds: "dict_get (e_extra p) ''creds'' = None" by (rule none) (simp add: env_keys_def)
  define d where "d = ?d"
  have get: "dict_get d ''v'' = Some (JStr (e_v p))" "dict_get d ''from'' = Some (JStr (e_sender p))"
    "dict_get d ''to'' = Some (JStr (e_recipient p))" "dict_get d ''iat'' = Some (JInt (e_iat p))"
    "dict_get d ''exp'' = Some (JInt (e_exp p))" "dict_get d ''msgHash'' = Some (JStr (e_msg_hash p))"
    "dict_get d ''body'' = Some (JObj (EnvelopeBody_dump (e_body p)))"
    "dict_get d ''creds'' = (if e_creds p = [] then None else Some (JList (map JStr (e_creds p))))"
    using creds by (simp_all add: base_claims_def d_def)
  then have mk: "matched_key d [''v''] = Some ''v''" "matched_key d [''from'', ''sender''] = Some ''from''"
    "matched_key d [''to'', ''recipient''] = Some ''to''" "matched_key d [''iat''] = Some ''iat''"
    "matched_key d [''exp''] = Some ''exp''" "matched_key d [''msgHash'', ''msg_hash''] = Some ''msgHash''"
    "matched_key d [''body''] = Some ''body''"
    "matched_key d [''creds''] = (if e_creds p = [] then None else Some ''creds'')"
    by (simp_all add: matched_key_def)
  have "extra_members ?d envelope_fields = e_extra p"
  proof (rule extra_members_rest [where K = "set (map fst (base_claims p @ ?c))"])
    show "set (map fst (base_claims p @ ?c)) \<inter> set (map fst (e_extra p)) = {}"
      using sub \<open>set env_keys \<inter> _ = {}\<close> by blast
    show "set (List.map_filter (matched_key ?d) envelope_fields) = set (map fst (base_claims p @ ?c))"
      unfolding d_def [symmetric] by (simp add: envelope_fields_def List.map_filter_simps mk base_claims_def)
  qed simp
  then have "extra_members d envelope_fields = e_extra p" by (simp add: d_def)
  moreover have "v_all v_str (map JStr ss) = FOk ss" for ss by (induction ss) auto
  ultimately have "v_EnvelopePayload L d = FOk p"
    using wf int
    by (simp add: v_EnvelopePayload_def required_field_def optional_field_def mk get v_Identifier_def
        envelope_wf_def constrain_def v_int_def validate_body_dump)
  then show ?thesis
    by (simp add: EnvelopePayload_model_validate_def envelope_claims_eq [OF wf] d_def validated_def)
qed

definition envelope_header :: "EnvelopePayload \<Rightarrow> obj" where
  "envelope_header p = [(''alg'', JStr ''EdDSA''), (''typ'', JStr ENVELOPE_TYP), (''kid'', JStr (e_sender p))]"

lemma mint_envelope_Inr:
  assumes "mint_envelope L p key = Inr token" "private_raw key = Some sk"
  shows "e_exp p - e_iat p \<le> 300" "e_iat p < e_exp p"
    "jwt_encode L (envelope_claims p) sk (envelope_header p) = Inr token"
  using assms
  by (auto simp: mint_envelope_def sign_jwt_def private_key_def DEFAULT_HEADER_def dict_update_def
      envelope_header_def ENV_MAX_LIFETIME_SECONDS_def split: if_splits)

lemma minted_envelope_verifies:
  assumes mint: "mint_envelope L p key = Inr token" and sk: "private_raw key = Some sk"
    and wf: "envelope_wf p" and int: "\<forall>i. as_int L (JInt i) = Some i"
    and jwt: "jwt_encodes L (envelope_claims p) sk (envelope_header p)"
    and pk: "public_bytes vk = pk_of_seed L sk" "ed_load L (pk_of_seed L sk) = Inr ()"
    and window: "t - lw \<le> e_exp p" "e_iat p \<le> t + lw"
  shows "verify_envelope L clock token vk (e_recipient p) (Some t) lw = Inr p"
proof -
  note m = mint_envelope_Inr [OF mint sk]
  obtain h where h: "jwt_header L token = Inr h" "\<forall>k. dict_get h k = dict_get (envelope_header p) k"
    and c: "jwt_claims L token = Inr (envelope_claims p)" and s: "signed_by L token (pk_of_seed L sk)"
    using jwt m(3) by (auto simp: jwt_encodes_def)
  have "header_is h ''typ'' ENVELOPE_TYP" "header_is h ''alg'' ''EdDSA''" "header_is h ''kid'' (e_sender p)"
    using h(2) by (simp_all add: header_is_def envelope_header_def)
  moreover have "verify_jws_signature L token vk = Inr ()"
    using s pk by (simp add: verify_jws_signature_Inr)
  ultimately show ?thesis
    using h(1) c m(1) window validate_envelope_claims [OF wf int]
    by (simp add: verify_envelope_def decode_header_def decode_unverified_claims_def wrap_pyjwt_def
        ENV_MAX_LIFETIME_SECONDS_def)
qed

text \<open>
  C29: what \<open>mint_envelope\<close> signs, the recipient's \<open>verify_envelope\<close> accepts: for a payload the model
  class admits, checked with the signer's public key while it is current, verification returns that
  very payload, extra members and body included.
\<close>

theorem mint_verify_envelope:
  assumes "mint_envelope L p key = Inr token" "private_raw key = Some sk"
    and "envelope_wf p" "\<forall>i. as_int L (JInt i) = Some i"
    and "jwt_encodes L (envelope_claims p) sk (envelope_header p)"
    and "public_bytes vk = pk_of_seed L sk" "ed_load L (pk_of_seed L sk) = Inr ()"
    and "t - lw \<le> e_exp p" "e_iat p \<le> t + lw"
  shows "verify_envelope L clock token vk (e_recipient p) (Some t) lw = Inr p"
  using assms by (rule minted_envelope_verifies)

definition ex_envelope :: EnvelopePayload where
  "ex_envelope =
     \<lparr>e_v = ''0.2'', e_sender = ''alice@acme.example'', e_recipient = ''bob@corp.example'',
      e_iat = 1000, e_exp = 1200, e_msg_hash = ''sha256:abc'',
      e_body = \<lparr>b_text = Some ''hi'', b_intent = None, b_data = None, b_extra = [(''lang'', JStr ''en'')]\<rparr>,
      e_creds = [], e_extra = [(''x'', JInt 1)]\<rparr>"

definition ex_env_lib :: lib where
  "ex_env_lib =
     toy_lib\<lparr>ed_verify := (\<lambda>pk sig m. pk = ex_seed \<and> m = map byte_of_char ''aGQ.cGw''),
             jwt_encode := (\<lambda>c s h. Inr ''aGQ.cGw.c2ln''),
             jwt_header := (\<lambda>_. Inr (envelope_header ex_envelope)),
             jwt_claims := (\<lambda>_. Inr (envelope_claims ex_envelope))\<rparr>"

lemma ex_envelope_wf: "envelope_wf ex_envelope"
  by code_simp

lemma ex_env_signed: "signed_by ex_env_lib ''aGQ.cGw.c2ln'' ex_seed"
proof -
  have "split_on (CHR ''.'') ''aGQ.cGw.c2ln'' = [''aGQ'', ''cGw'', ''c2ln'']"
    "encode_ascii (''aGQ'' @ ''.'' @ ''cGw'') = Inr (map byte_of_char ''aGQ.cGw'')"
    "b64u_decode ''c2ln'' = Inr (map byte_of_char ''sig'')"
    by code_simp+
  then show ?thesis by (auto simp: signed_by_def ex_env_lib_def)
qed

lemma ex_env_encodes: "jwt_encodes ex_env_lib (envelope_claims ex_envelope) ex_seed (envelope_header ex_envelope)"
  using ex_env_signed by (simp add: jwt_encodes_def) (simp add: ex_env_lib_def toy_lib_def)

theorem mint_verify_envelope_witness:
  "verify_envelope ex_env_lib 0 ''aGQ.cGw.c2ln'' \<lparr>public_bytes = ex_seed, private_raw = None\<rparr>
     ''bob@corp.example'' (Some 1100) 60 = Inr ex_envelope"
proof -
  have "mint_envelope ex_env_lib ex_envelope \<lparr>public_bytes = ex_seed, private_raw = Some ex_seed\<rparr>
      = Inr ''aGQ.cGw.c2ln''"
    by (simp add: mint_envelope_def ex_envelope_def ENV_MAX_LIFETIME_SECONDS_def sign_jwt_def
        private_key_def ex_env_lib_def)
  moreover have "\<forall>i. as_int ex_env_lib (JInt i) = Some i" "pk_of_seed ex_env_lib ex_seed = ex_seed"
    "ed_load ex_env_lib ex_seed = Inr ()" "e_recipient ex_envelope = ''bob@corp.example''"
    "e_exp ex_envelope = 1200" "e_iat ex_envelope = 1000"
    by (simp_all add: ex_env_lib_def toy_lib_def ex_envelope_def)
  ultimately show ?thesis
    using mint_verify_envelope [of ex_env_lib ex_envelope _ _ ex_seed "\<lparr>public_bytes = ex_seed, private_raw = None\<rparr>" 1100 60]
      ex_envelope_wf ex_env_encodes by simp
qed

end
