(* ===== verification/A2a.thy ===== *)
theory A2a
  imports Complex_Main Envelope
begin

text \<open>
  The A2A binding, from \<open>python-sdk/src/shadownet/a2a.py\<close>: the message model, wire errors and their
  problem documents, building and signing an outbound message, sending it (once and with retries,
  synchronous and async), and the receiver's extraction of the envelope. Shown here: a built
  message is what the receiver takes apart again and its hash recomputes, problem documents carry
  the error class across the wire and nothing else by default, and the retry loop ends, stays
  within its budget and never retries an answer of the peer.
\<close>

section \<open>Messages\<close>

definition A2A_VERSION :: string where
  "A2A_VERSION = ''1.0''"

definition A2A_MEDIA_TYPE :: string where
  "A2A_MEDIA_TYPE = ''application/a2a+json''"

definition PROBLEM_JSON_MEDIA_TYPE :: string where
  "PROBLEM_JSON_MEDIA_TYPE = ''application/problem+json''"

record A2AMessage =
  message_id :: string
  role :: string
  parts :: "obj list"
  context_id :: "string option"
  task_id :: "string option"
  extensions :: "string list"
  metadata :: obj
  a_extra :: obj

definition v_A2AMessage :: "obj \<Rightarrow> A2AMessage fres" where
  "v_A2AMessage d =
     fap (fap (fap (fap (fap (fap (fap
       (FOk (\<lambda>m r p c t x g. \<lparr>message_id = m, role = r, parts = p, context_id = c, task_id = t,
           extensions = x, metadata = g,
           a_extra = extra_members d [[''messageId'', ''message_id''], [''role''], [''parts''],
             [''contextId'', ''context_id''], [''taskId'', ''task_id''], [''extensions''], [''metadata'']]\<rparr>))
       (required_field d [''messageId'', ''message_id''] v_str))
       (required_field d [''role''] v_str))
       (optional_field d [''parts''] [] (v_list v_obj)))
       (optional_field d [''contextId'', ''context_id''] None (v_optional v_str)))
       (optional_field d [''taskId'', ''task_id''] None (v_optional v_str)))
       (optional_field d [''extensions''] [] (v_list v_str)))
       (optional_field d [''metadata''] [] v_obj)"

definition A2AMessage_model_validate :: "lib \<Rightarrow> obj \<Rightarrow> A2AMessage res" where
  "A2AMessage_model_validate L d = validated L ''A2AMessage'' (JObj d) (v_A2AMessage d)"

text \<open>\<open>to_wire\<close>: the dump without \<open>None\<close>, then without empty lists except \<open>parts\<close>.\<close>

definition A2AMessage_dump :: "A2AMessage \<Rightarrow> obj" where
  "A2AMessage_dump m =
     dict_update
       ([(''messageId'', JStr (message_id m)), (''role'', JStr (role m)),
         (''parts'', JList (map JObj (parts m)))]
        @ opt_member ''contextId'' JStr (context_id m) @ opt_member ''taskId'' JStr (task_id m)
        @ [(''extensions'', JList (map JStr (extensions m))), (''metadata'', JObj (metadata m))])
       (not_none (a_extra m))"

definition to_wire :: "A2AMessage \<Rightarrow> obj" where
  "to_wire m = filter (\<lambda>(k, v). v \<noteq> JList [] \<or> k = ''parts'') (A2AMessage_dump m)"

record BuiltMessage =
  message :: obj
  envelope_jws :: string
  envelope_payload :: EnvelopePayload

section \<open>Wire errors\<close>

fun wire_code :: "wire_error \<Rightarrow> string" where
  "wire_code ShadownetWireError = ''''"
| "wire_code ParseError = ''parse_error''"
| "wire_code SignatureError = ''signature''"
| "wire_code CredsRequiredError = ''creds_required''"
| "wire_code CredsRejectedError = ''creds_rejected''"
| "wire_code PolicyError = ''policy''"
| "wire_code ReplayError = ''replay''"
| "wire_code UnknownRecipientError = ''unknown_recipient''"
| "wire_code RateLimitedError = ''rate_limited''"

fun http_status :: "wire_error \<Rightarrow> int" where
  "http_status ShadownetWireError = 500"
| "http_status ParseError = 400"
| "http_status SignatureError = 401"
| "http_status CredsRequiredError = 401"
| "http_status CredsRejectedError = 403"
| "http_status PolicyError = 403"
| "http_status ReplayError = 409"
| "http_status UnknownRecipientError = 404"
| "http_status RateLimitedError = 429"

text \<open>The docstring of each class, which is its title on the wire.\<close>

fun wire_doc :: "wire_error \<Rightarrow> string" where
  "wire_doc ShadownetWireError = ''Base for errors that map to a Shadownet RFC 7807 code.''"
| "wire_doc ParseError = ''A2A request, envelope JWS, payload, or msgHash invalid.''"
| "wire_doc SignatureError = ''Envelope signature does not validate.''"
| "wire_doc CredsRequiredError = ''No cached credentials for sender; sender SHOULD retry with creds.''"
| "wire_doc CredsRejectedError = ''Credentials present but none satisfy receiver policy.''"
| "wire_doc PolicyError = ''Receiver policy rejects this sender.''"
| "wire_doc ReplayError = ''(from, messageId) already seen.''"
| "wire_doc UnknownRecipientError = ''to is not served by this URL.''"
| "wire_doc RateLimitedError = ''Rate limit hit.''"

definition ERROR_URN :: string where
  "ERROR_URN = ''urn:shadownet:error:''"

definition problem_body :: "wire_error \<Rightarrow> string \<Rightarrow> string option \<Rightarrow> bool \<Rightarrow> obj" where
  "problem_body c msg detail include_detail =
     [(''type'', JStr (ERROR_URN @ wire_code c)), (''title'', JStr (strip (wire_doc c))),
      (''status'', JInt (http_status c))]
     @ (case detail of
          Some d \<Rightarrow> [(''detail'', JStr d)]
        | None \<Rightarrow> (if include_detail \<and> msg \<noteq> '''' then [(''detail'', JStr msg)] else []))"

definition REGISTERED :: "wire_error list" where
  "REGISTERED = [ParseError, SignatureError, CredsRequiredError, CredsRejectedError, PolicyError,
     ReplayError, UnknownRecipientError, RateLimitedError]"

definition WIRE_ERROR_REGISTRY :: "string \<Rightarrow> wire_error option" where
  "WIRE_ERROR_REGISTRY cd = map_of (map (\<lambda>c. (wire_code c, c)) REGISTERED) cd"

definition problem_response :: "wire_error \<Rightarrow> string \<Rightarrow> string option \<Rightarrow> bool \<Rightarrow> int \<times> obj \<times> headers" where
  "problem_response c msg detail include_detail =
     (http_status c, problem_body c msg detail include_detail,
      [(''Content-Type'', PROBLEM_JSON_MEDIA_TYPE), (''A2A-Extensions'', ENVELOPE_EXTENSION_URI)])"

definition wire_error_from_problem :: "obj \<Rightarrow> exn" where
  "wire_error_from_problem body =
     (let raw = (case dict_get body ''type'' of None \<Rightarrow> JStr '''' | Some v \<Rightarrow> v) in
      case raw of
        JStr t \<Rightarrow>
          (if \<not> prefix ERROR_URN t
           then Exn (Wire ParseError) (''unrecognized error type: '' @ repr_json raw)
           else
             (let cd = drop (length ERROR_URN) t in
              case WIRE_ERROR_REGISTRY cd of
                None \<Rightarrow> Exn (Wire ParseError) (''unknown error code: '' @ repr cd)
              | Some c \<Rightarrow>
                  Exn (Wire c) (case dict_get body ''detail'' of Some (JStr d) \<Rightarrow> d | _ \<Rightarrow> wire_doc c)))
      | _ \<Rightarrow> Exn (Wire ParseError) (''unrecognized error type: '' @ repr_json raw))"

section \<open>Sender\<close>

text \<open>\<open>_new_id()\<close> draws a fresh identifier; the callers below take it as an argument.\<close>

definition id_or_new :: "string option \<Rightarrow> string \<Rightarrow> string" where
  "id_or_new given fresh = (case given of Some i \<Rightarrow> (if i = '''' then fresh else i) | None \<Rightarrow> fresh)"

definition build_outbound_message ::
  "string \<Rightarrow> string option \<Rightarrow> string option \<Rightarrow> string option \<Rightarrow> obj option \<Rightarrow> string option \<Rightarrow> A2AMessage"
where
  "build_outbound_message fresh body_text ctx task extra_metadata mid =
     \<lparr>message_id = id_or_new mid fresh, role = ''ROLE_USER'',
      parts = (case body_text of None \<Rightarrow> [] | Some t \<Rightarrow> [[(''text'', JStr t)]]),
      context_id = ctx, task_id = task, extensions = [ENVELOPE_EXTENSION_URI],
      metadata = (case extra_metadata of None \<Rightarrow> [] | Some d \<Rightarrow> d), a_extra = []\<rparr>"

text \<open>\<open>dict(raw.get("metadata") or {})\<close>; a truthy value that is no mapping makes \<open>dict\<close> raise.\<close>

definition metadata_of :: "obj \<Rightarrow> obj res" where
  "metadata_of raw =
     (case dict_get raw ''metadata'' of
        None \<Rightarrow> Inr []
      | Some (JObj d) \<Rightarrow> Inr d
      | Some v \<Rightarrow> (if truthy v then raise (Builtin TypeError) ''cannot convert to a dictionary'' else Inr []))"

definition build_and_sign_message :: "lib \<Rightarrow> A2AMessage \<Rightarrow> EnvelopePayload \<Rightarrow> Ed25519KeyPair \<Rightarrow> BuiltMessage res" where
  "build_and_sign_message L msg payload_template sender_key =
     (let raw = to_wire msg in
      bind (compute_msg_hash L raw) (\<lambda>msg_hash.
        (let final_payload = payload_template\<lparr>e_msg_hash := msg_hash\<rparr> in
         bind (mint_envelope L final_payload sender_key) (\<lambda>jws.
         bind (metadata_of raw) (\<lambda>md.
         Inr \<lparr>message = dict_set ''metadata'' (JObj (dict_set ENVELOPE_EXTENSION_URI (JStr jws) md)) raw,
              envelope_jws = jws, envelope_payload = final_payload\<rparr>)))))"

type_synonym http_post = "string \<Rightarrow> json \<Rightarrow> headers \<Rightarrow> http_response res"

definition send_envelope_request :: "BuiltMessage \<Rightarrow> string \<Rightarrow> string \<times> json \<times> headers" where
  "send_envelope_request built agent_url =
     (rstrip (\<lambda>c. c = CHR ''/'') agent_url @ ''/message:send'',
      JObj [(''message'', JObj (message built))],
      [(''Content-Type'', A2A_MEDIA_TYPE), (''Accept'', A2A_MEDIA_TYPE), (''A2A-Version'', A2A_VERSION),
       (''A2A-Extensions'', ENVELOPE_EXTENSION_URI)])"

definition interpret_response :: "lib \<Rightarrow> http_response \<Rightarrow> string \<Rightarrow> A2AMessage res" where
  "interpret_response L response url =
     (if status_code response = 200 then
        bind (rewrap (resp_json response) (Builtin JSONDecodeError) (Wire ParseError)
                (\<lambda>m. ''response from '' @ repr url @ '' is not JSON: '' @ m)) (\<lambda>body.
          (case (case body of JObj d \<Rightarrow> dict_get d ''message'' | _ \<Rightarrow> None) of
             Some (JObj msg) \<Rightarrow>
               rewrap (A2AMessage_model_validate L msg) (Builtin PyException) (Wire ParseError)
                 (\<lambda>m. ''response message invalid: '' @ m)
           | _ \<Rightarrow> raise (Wire ParseError) (''response from '' @ repr url @ '' missing '' @ repr ''message'')))
      else if prefix PROBLEM_JSON_MEDIA_TYPE
                (case resp_header response ''Content-Type'' of None \<Rightarrow> '''' | Some t \<Rightarrow> t) then
        bind (rewrap (resp_json response) (Builtin JSONDecodeError) (Wire ParseError)
                (\<lambda>m. ''problem+json body unparseable: '' @ m)) (\<lambda>body.
          Inl (wire_error_from_problem (case body of JObj d \<Rightarrow> d | _ \<Rightarrow> [])))
      else raise (Wire ParseError)
             (repr url @ '' returned HTTP '' @ int_str (status_code response) @ '' without problem+json body''))"

definition send_envelope :: "lib \<Rightarrow> http_post \<Rightarrow> BuiltMessage \<Rightarrow> string \<Rightarrow> A2AMessage res" where
  "send_envelope L post built agent_url =
     (let (url, body, hdrs) = send_envelope_request built agent_url in
      bind (rewrap (post url body hdrs) (Lib HTTPError) (Sdk TransportError)
              (\<lambda>m. ''transport failed for '' @ repr url @ '': '' @ m)) (\<lambda>response.
      interpret_response L response url))"

definition asend_envelope ::
  "lib \<Rightarrow> (string \<Rightarrow> json \<Rightarrow> headers \<Rightarrow> ('s, http_response) task) \<Rightarrow> BuiltMessage \<Rightarrow> string \<Rightarrow> ('s, A2AMessage) task"
where
  "asend_envelope L apost built agent_url =
     (let (url, body, hdrs) = send_envelope_request built agent_url in
      tbind (trewrap (apost url body hdrs) (Lib HTTPError) (Sdk TransportError)
               (\<lambda>m. ''transport failed for '' @ repr url @ '': '' @ m)) (\<lambda>response.
      Ret (interpret_response L response url)))"

section \<open>Receiver\<close>

text \<open>\<open>message.get(k) or dflt\<close>.\<close>

definition get_or :: "obj \<Rightarrow> string \<Rightarrow> json \<Rightarrow> json" where
  "get_or d k dflt = (case dict_get d k of None \<Rightarrow> dflt | Some v \<Rightarrow> (if truthy v then v else dflt))"

definition extract_envelope_jws :: "json \<Rightarrow> (string \<times> obj) res" where
  "extract_envelope_jws request_body =
     (case (case request_body of JObj d \<Rightarrow> dict_get d ''message'' | _ \<Rightarrow> None) of
        Some (JObj msg) \<Rightarrow>
          (case get_or msg ''extensions'' (JList []) of
             JList exts \<Rightarrow>
               (if JStr ENVELOPE_EXTENSION_URI \<notin> set exts
                then raise (Wire ParseError) (''message.extensions must include '' @ repr ENVELOPE_EXTENSION_URI)
                else
                  (case get_or msg ''metadata'' (JObj []) of
                     JObj md \<Rightarrow>
                       (case dict_get md ENVELOPE_EXTENSION_URI of
                          Some (JStr env) \<Rightarrow>
                            (if count_list env (CHR ''.'') \<noteq> 2
                             then raise (Wire ParseError) (''message.metadata['' @ repr ENVELOPE_EXTENSION_URI
                                    @ ''] missing or not a JWS-compact string'')
                             else Inr (env, msg))
                        | _ \<Rightarrow> raise (Wire ParseError) (''message.metadata['' @ repr ENVELOPE_EXTENSION_URI
                                    @ ''] missing or not a JWS-compact string''))
                   | _ \<Rightarrow> raise (Wire ParseError) ''message.metadata must be an object''))
           | _ \<Rightarrow> raise (Wire ParseError) (''message.extensions must include '' @ repr ENVELOPE_EXTENSION_URI))
      | _ \<Rightarrow> raise (Wire ParseError) (''message:send body missing '' @ repr ''message''))"

definition build_acceptance_response :: "string \<Rightarrow> string option \<Rightarrow> string \<Rightarrow> string option \<Rightarrow> obj" where
  "build_acceptance_response fresh ctx text mid =
     [(''message'', JObj ([(''messageId'', JStr (id_or_new mid fresh)), (''role'', JStr ''ROLE_AGENT''),
         (''parts'', JList [JObj [(''text'', JStr text)]])] @ opt_member ''contextId'' JStr ctx))]"

definition acceptance_headers :: headers where
  "acceptance_headers = [(''Content-Type'', A2A_MEDIA_TYPE), (''A2A-Extensions'', ENVELOPE_EXTENSION_URI)]"

section \<open>Problem documents\<close>

lemma registry_code: "c \<noteq> ShadownetWireError \<Longrightarrow> WIRE_ERROR_REGISTRY (wire_code c) = Some c"
  by (cases c) (simp_all add: WIRE_ERROR_REGISTRY_def REGISTERED_def)

lemma problem_read:
  assumes "c \<noteq> ShadownetWireError"
  shows "wire_error_from_problem (problem_body c msg detail incl) =
    Exn (Wire c) (case dict_get (problem_body c msg detail incl) ''detail'' of Some (JStr d) \<Rightarrow> d | _ \<Rightarrow> wire_doc c)"
proof -
  have "drop (length ERROR_URN) (ERROR_URN @ wire_code c) = wire_code c"
    "prefix ERROR_URN (ERROR_URN @ wire_code c)" by simp_all
  then show ?thesis
    using registry_code [OF assms] by (auto simp: problem_body_def wire_error_from_problem_def Let_def)
qed

text \<open>
  A wire error survives the trip through its problem document, and by default takes nothing else
  along: whatever the detail settings, the peer reconstructs the same class (with the curated detail as
  text when there is one), the status belongs to the class, and without detail settings the
  document does not depend on the exception's message, which may name sender and message.
\<close>

theorem problem_roundtrip:
  assumes "c \<noteq> ShadownetWireError" "problem_response c msg detail incl = (status, body, hdrs)"
  shows "cls (wire_error_from_problem body) = Wire c \<and> status = http_status c
    \<and> (\<forall>d. detail = Some d \<longrightarrow> str_of (wire_error_from_problem body) = d)
    \<and> (detail = None \<and> \<not> incl \<longrightarrow> (\<forall>msg'. problem_response c msg' detail incl = (status, body, hdrs)))"
proof -
  have "body = problem_body c msg detail incl" using assms(2) by (simp add: problem_response_def)
  with problem_read [OF assms(1), of msg detail incl] show ?thesis
    using assms(2) by (auto simp: problem_response_def problem_body_def)
qed

theorem problem_roundtrip_witness:
  "cls (wire_error_from_problem (problem_body ReplayError ''(alice, m1) replayed'' None False)) = Wire ReplayError"
  using problem_roundtrip [of ReplayError "''(alice, m1) replayed''" None False]
  by (simp add: problem_response_def)

section \<open>What is sent is what is received\<close>

lemma dict_get_filter:
  assumes "distinct (map fst d)"
  shows "dict_get (filter (\<lambda>(k, v). P k v) d) k =
    (case dict_get d k of Some v \<Rightarrow> (if P k v then Some v else None) | None \<Rightarrow> None)"
  using assms
proof (induction d)
  case (Cons m d)
  obtain a b where m: "m = (a, b)" by force
  have "dict_get d a = None" using Cons.prems m by (simp add: map_of_eq_None_iff)
  with Cons m show ?case by auto
qed simp

lemma dict_update_distinct: "distinct (map fst d) \<Longrightarrow> distinct (map fst (dict_update d e))"
  unfolding dict_update_def by (induction e arbitrary: d) (auto intro: distinct_update)

lemma map_filter_cong: "(\<And>x. x \<in> set xs \<Longrightarrow> f x = g x) \<Longrightarrow> List.map_filter f xs = List.map_filter g xs"
proof (induction xs)
  case (Cons a xs)
  then have "f a = g a" "List.map_filter f xs = List.map_filter g xs" by simp_all
  then show ?case by (simp only: List.map_filter_simps)
qed (simp add: List.map_filter_simps)

lemma to_wire_metadata:
  "distinct ([''messageId'', ''role'', ''parts'', ''contextId'', ''taskId'', ''extensions'', ''metadata'']
      @ map fst (a_extra m)) \<Longrightarrow>
   dict_get (to_wire m) ''metadata'' = Some (JObj (metadata m))
   \<and> dict_get (to_wire m) ''extensions'' =
       (if extensions m = [] then None else Some (JList (map JStr (extensions m))))
   \<and> dict_get (to_wire m) ''messageId'' = Some (JStr (message_id m))
   \<and> dict_get (to_wire m) ''contextId'' = map_option JStr (context_id m)"
proof -
  assume "distinct ([''messageId'', ''role'', ''parts'', ''contextId'', ''taskId'', ''extensions'', ''metadata'']
      @ map fst (a_extra m))"
  then have d: "distinct (map fst (a_extra m))" "''metadata'' \<notin> fst ` set (a_extra m)"
    "''extensions'' \<notin> fst ` set (a_extra m)" "''messageId'' \<notin> fst ` set (a_extra m)"
    "''contextId'' \<notin> fst ` set (a_extra m)" by auto
  have nn: "fst ` set (not_none (a_extra m)) \<subseteq> fst ` set (a_extra m)" "distinct (map fst (not_none (a_extra m)))"
    using d(1) by (auto simp: not_none_def distinct_map_filter)
  have none: "dict_get (not_none (a_extra m)) ''metadata'' = None" "dict_get (not_none (a_extra m)) ''extensions'' = None"
    "dict_get (not_none (a_extra m)) ''messageId'' = None" "dict_get (not_none (a_extra m)) ''contextId'' = None"
    using d(2-5) nn(1) unfolding map_of_eq_None_iff by blast+
  have dis: "distinct (map fst (A2AMessage_dump m))"
    unfolding A2AMessage_dump_def
    by (rule dict_update_distinct) (cases "context_id m"; cases "task_id m"; simp add: opt_member_def)
  have "dict_get (A2AMessage_dump m) ''metadata'' = Some (JObj (metadata m))"
    "dict_get (A2AMessage_dump m) ''extensions'' = Some (JList (map JStr (extensions m)))"
    "dict_get (A2AMessage_dump m) ''messageId'' = Some (JStr (message_id m))"
    "dict_get (A2AMessage_dump m) ''contextId'' = map_option JStr (context_id m)"
    using none nn(2)
    by (auto simp: A2AMessage_dump_def dict_get_update opt_member_def split: option.splits)
  then show ?thesis using dict_get_filter [OF dis] by (cases "context_id m") (simp_all add: to_wire_def)
qed



lemma canonical_input_embed:
  assumes "dict_get raw ''metadata'' = Some (JObj md)"
  shows "canonical_input (dict_set ''metadata'' (JObj (dict_set ENVELOPE_EXTENSION_URI x md)) raw) = canonical_input raw"
proof -
  let ?raw = "dict_set ''metadata'' (JObj (dict_set ENVELOPE_EXTENSION_URI x md)) raw"
  have "List.map_filter (\<lambda>k. map_option (Pair k) (dict_get ?raw k)) HASHED_KEYS
      = List.map_filter (\<lambda>k. map_option (Pair k) (dict_get raw k)) HASHED_KEYS"
    using hashed_keys(2) by (intro map_filter_cong) auto
  then show ?thesis using assms by (simp add: canonical_input_def filter_dict_set)
qed

lemma built_message_parts:
  assumes b: "build_and_sign_message L msg template key = Inr built"
    and x: "ENVELOPE_EXTENSION_URI \<in> set (extensions msg)" and jws: "count_list (envelope_jws built) (CHR ''.'') = 2"
    and wf: "distinct ([''messageId'', ''role'', ''parts'', ''contextId'', ''taskId'', ''extensions'', ''metadata'']
      @ map fst (a_extra msg))"
  shows "extract_envelope_jws (JObj [(''message'', JObj (message built))]) = Inr (envelope_jws built, message built)
    \<and> compute_msg_hash L (message built) = Inr (e_msg_hash (envelope_payload built))
    \<and> mint_envelope L (envelope_payload built) key = Inr (envelope_jws built)"
  "\<exists>h. compute_msg_hash L (to_wire msg) = Inr h \<and> envelope_payload built = template\<lparr>e_msg_hash := h\<rparr>"
  "k \<noteq> ''metadata'' \<Longrightarrow> dict_get (message built) k = dict_get (to_wire msg) k"
proof -
  have md: "dict_get (to_wire msg) ''metadata'' = Some (JObj (metadata msg))"
    and ex: "dict_get (to_wire msg) ''extensions'' = Some (JList (map JStr (extensions msg)))"
    using to_wire_metadata [OF wf] x by auto
  obtain h where h: "compute_msg_hash L (to_wire msg) = Inr h"
    and m: "mint_envelope L (template\<lparr>e_msg_hash := h\<rparr>) key = Inr (envelope_jws built)"
    and msg: "message built = dict_set ''metadata''
      (JObj (dict_set ENVELOPE_EXTENSION_URI (JStr (envelope_jws built)) (metadata msg))) (to_wire msg)"
    and p: "envelope_payload built = template\<lparr>e_msg_hash := h\<rparr>"
    using b by (auto simp: build_and_sign_message_def bind_Inr_iff metadata_of_def md Let_def)
  have "compute_msg_hash L (message built) = Inr h"
    using h by (simp add: compute_msg_hash_def msg canonical_input_embed [OF md])
  moreover have "dict_set ENVELOPE_EXTENSION_URI v d \<noteq> []" for v and d :: obj
    by (cases d) auto
  then have "extract_envelope_jws (JObj [(''message'', JObj (message built))]) = Inr (envelope_jws built, message built)"
    using x jws by (auto simp: extract_envelope_jws_def get_or_def msg ex)
  ultimately show "extract_envelope_jws (JObj [(''message'', JObj (message built))]) = Inr (envelope_jws built, message built)
    \<and> compute_msg_hash L (message built) = Inr (e_msg_hash (envelope_payload built))
    \<and> mint_envelope L (envelope_payload built) key = Inr (envelope_jws built)"
    using m p by simp
  show "\<exists>h. compute_msg_hash L (to_wire msg) = Inr h \<and> envelope_payload built = template\<lparr>e_msg_hash := h\<rparr>"
    using h p by blast
  show "k \<noteq> ''metadata'' \<Longrightarrow> dict_get (message built) k = dict_get (to_wire msg) k"
    by (simp add: msg)
qed

text \<open>
  What the sender builds, the receiver takes apart: from the \<open>message:send\<close> body of a built message
  the receiver extracts exactly the signed envelope and the message, and the hash it recomputes from
  that message is the one the envelope claims, although the envelope was embedded after hashing.
\<close>

theorem built_message_received:
  assumes b: "build_and_sign_message L msg template key = Inr built"
    and x: "ENVELOPE_EXTENSION_URI \<in> set (extensions msg)" and jws: "count_list (envelope_jws built) (CHR ''.'') = 2"
    and wf: "distinct ([''messageId'', ''role'', ''parts'', ''contextId'', ''taskId'', ''extensions'', ''metadata'']
      @ map fst (a_extra msg))"
  shows "extract_envelope_jws (JObj [(''message'', JObj (message built))]) = Inr (envelope_jws built, message built)
    \<and> compute_msg_hash L (message built) = Inr (e_msg_hash (envelope_payload built))
    \<and> mint_envelope L (envelope_payload built) key = Inr (envelope_jws built)"
  using assms by (rule built_message_parts(1))

definition ex_outbound :: A2AMessage where
  "ex_outbound = build_outbound_message ''ID'' (Some ''hi'') (Some ''ctx'') None (Some [(''trace'', JInt 7)]) None"

theorem built_message_received_witness:
  "\<exists>built. build_and_sign_message ex_env_lib ex_outbound ex_envelope \<lparr>public_bytes = ex_seed, private_raw = Some ex_seed\<rparr> = Inr built
     \<and> extract_envelope_jws (JObj [(''message'', JObj (message built))]) = Inr (''aGQ.cGw.c2ln'', message built)"
proof -
  let ?k = "\<lparr>public_bytes = ex_seed, private_raw = Some ex_seed\<rparr>"
  have x: "ENVELOPE_EXTENSION_URI \<in> set (extensions ex_outbound)" "a_extra ex_outbound = []"
    "metadata ex_outbound = [(''trace'', JInt 7)]"
    by (simp_all add: ex_outbound_def build_outbound_message_def)
  have "\<exists>i. canonical_input (to_wire ex_outbound) = Inr i \<and> py_ok (py_of_json (JObj i))"
    by (simp add: canonical_input_def ex_outbound_def build_outbound_message_def to_wire_def A2AMessage_dump_def
        opt_member_def dict_update_def not_none_def id_or_new_def HASHED_KEYS_def List.map_filter_simps str_ok_def
        is_surrogate_def ENVELOPE_EXTENSION_URI_def)
  then obtain h where h: "compute_msg_hash ex_env_lib (to_wire ex_outbound) = Inr h"
    by (fastforce simp: compute_msg_hash_def jcs_def canonicalize_Inr_iff bind_Inr_iff)
  have "mint_envelope ex_env_lib (ex_envelope\<lparr>e_msg_hash := h\<rparr>) ?k = Inr ''aGQ.cGw.c2ln''"
    by (simp add: mint_envelope_def ex_envelope_def ENV_MAX_LIFETIME_SECONDS_def sign_jwt_def
        private_key_def ex_env_lib_def)
  then obtain built where b: "build_and_sign_message ex_env_lib ex_outbound ex_envelope ?k = Inr built"
      "envelope_jws built = ''aGQ.cGw.c2ln''"
    using h to_wire_metadata [of ex_outbound] x
    by (auto simp: build_and_sign_message_def metadata_of_def Let_def)
  then show ?thesis using built_message_received [OF b(1)] x by simp
qed

section \<open>Retries\<close>

text \<open>
  \<open>send_with_retries\<close>. Times are rational seconds. What the loop reads from outside is indexed by the
  number of the attempt: the message \<open>builder()\<close> returns, the answer to the POST, the reading of
  \<open>monotonic()\<close> after it (reading 0 is the one before the loop) and the draw of \<open>uniform\<close>. The outcome comes
  with the number of attempts and the waits handed to \<open>sleep\<close>. The loop may not end, so it is a
  partial function.
\<close>

record retry_env =
  builder :: "nat \<Rightarrow> BuiltMessage res"
  posting :: "nat \<Rightarrow> http_post"
  monotonic :: "nat \<Rightarrow> rat"
  uniform :: "nat \<Rightarrow> rat"

record retry_conf =
  initial_delay :: rat
  max_delay :: rat
  total_budget :: rat

definition RETRY_DEFAULTS :: retry_conf where
  "RETRY_DEFAULTS = \<lparr>initial_delay = 30, max_delay = 3600, total_budget = 24 * 3600\<rparr>"

text \<open>\<open>f"{x:.0f}"\<close>: to the nearest integer, ties to even.\<close>

definition fmt0 :: "rat \<Rightarrow> string" where
  "fmt0 x =
     (let f = \<lfloor>x\<rfloor>; r = x - of_int f in
      int_str (if r < 1/2 then f else if r > 1/2 then f + 1 else if even f then f else f + 1))"

definition retry_exhausted :: "rat \<Rightarrow> exn \<Rightarrow> 'a res" where
  "retry_exhausted elapsed last_error =
     raise (Sdk TransportRetryExhausted) ([CHR 0xA7] @ ''8.10 retry budget exhausted ('' @ fmt0 elapsed
       @ ''s); last error: '' @ str_of last_error)"

definition retry_wait :: "retry_conf \<Rightarrow> rat \<Rightarrow> rat \<Rightarrow> rat \<Rightarrow> rat" where
  "retry_wait C elapsed delay draw =
     (let jittered = delay * (1 + draw)
      in min (max jittered 0) (max 0 (total_budget C - elapsed)))"

partial_function (option) retry_loop ::
  "lib \<Rightarrow> retry_env \<Rightarrow> string \<Rightarrow> retry_conf \<Rightarrow> nat \<Rightarrow> rat \<Rightarrow> rat list \<Rightarrow> (A2AMessage res \<times> nat \<times> rat list) option"
where
  "retry_loop L E url C n delay waits =
     (case builder E n of
        Inl e \<Rightarrow> Some (Inl e, n, waits)
      | Inr built \<Rightarrow>
          (case send_envelope L (posting E n) built url of
             Inr m \<Rightarrow> Some (Inr m, Suc n, waits)
           | Inl e \<Rightarrow>
               (if is_a e (Wire ShadownetWireError) then Some (Inl e, Suc n, waits)
                else if is_a e (Sdk TransportError)
                then
                  (let elapsed = monotonic E (Suc n) - monotonic E 0 in
                     if elapsed \<ge> total_budget C then Some (retry_exhausted elapsed e, Suc n, waits)
                     else retry_loop L E url C (Suc n) (min (delay * 2) (max_delay C))
                            (waits @ [retry_wait C elapsed delay (uniform E n)]))
                else Some (Inl e, Suc n, waits))))"

definition send_with_retries ::
  "lib \<Rightarrow> retry_env \<Rightarrow> string \<Rightarrow> retry_conf \<Rightarrow> (A2AMessage res \<times> nat \<times> rat list) option"
where
  "send_with_retries L E url C = retry_loop L E url C 0 (initial_delay C) []"

subsection \<open>The loop ends\<close>

primrec delay_at :: "retry_conf \<Rightarrow> nat \<Rightarrow> rat" where
  "delay_at C 0 = initial_delay C"
| "delay_at C (Suc n) = min (delay_at C n * 2) (max_delay C)"

definition elapsed_at :: "retry_env \<Rightarrow> nat \<Rightarrow> rat" where
  "elapsed_at E n = monotonic E (Suc n) - monotonic E 0"

text \<open>\<open>sleep\<close> sleeps: the reading after the next attempt is later by at least the wait in between.\<close>

definition sleeps :: "retry_env \<Rightarrow> retry_conf \<Rightarrow> bool" where
  "sleeps E C =
     (0 \<le> elapsed_at E 0 \<and>
      (\<forall>n. elapsed_at E (Suc n) \<ge> elapsed_at E n + retry_wait C (elapsed_at E n) (delay_at C n) (uniform E n)))"

lemma delay_at_ge: "0 < initial_delay C \<Longrightarrow> 0 < max_delay C \<Longrightarrow> min (initial_delay C) (max_delay C) \<le> delay_at C n"
  by (induction n) (auto simp: min_le_iff_disj)

lemma elapsed_grows:
  assumes s: "sleeps E C" and d: "0 < initial_delay C" "0 < max_delay C" and j: "j < 1" "\<forall>n. - j \<le> uniform E n"
  shows "elapsed_at E n \<ge> total_budget C \<or> elapsed_at E n \<ge> of_nat n * (min (initial_delay C) (max_delay C) * (1 - j))"
proof (induction n)
  case 0
  then show ?case using s by (simp add: sleeps_def)
next
  case (Suc n)
  let ?w = "min (initial_delay C) (max_delay C) * (1 - j)"
  let ?wait = "retry_wait C (elapsed_at E n) (delay_at C n) (uniform E n)"
  have step: "elapsed_at E (Suc n) \<ge> elapsed_at E n + ?wait" using s by (simp add: sleeps_def)
  have w0: "0 \<le> ?wait" by (simp add: retry_wait_def Let_def)
  have "?w \<le> delay_at C n * (1 + uniform E n)"
    using j(1) j(2)[rule_format, of n] d delay_at_ge [OF d, of n] by (intro mult_mono) auto
  then have "?w \<le> ?wait \<or> total_budget C - elapsed_at E n \<le> ?wait"
    by (auto simp: retry_wait_def Let_def min_def max_def)
  with Suc step w0 show ?case by (auto simp: algebra_simps)
qed

lemma retry_loop_ends:
  assumes s: "sleeps E C" and d: "0 < initial_delay C" "0 < max_delay C" and j: "j < 1" "\<forall>n. - j \<le> uniform E n"
    and N: "total_budget C \<le> of_nat N * (min (initial_delay C) (max_delay C) * (1 - j))"
  shows "n \<le> N \<Longrightarrow> \<exists>out. retry_loop L E url C n (delay_at C n) waits = Some out"
proof (induction "N - n" arbitrary: n waits)
  case 0
  then have "elapsed_at E n \<ge> total_budget C" using elapsed_grows [OF s d j, of n] N by auto
  then show ?case
    by (subst retry_loop.simps) (auto simp: elapsed_at_def Let_def split: sum.splits)
next
  case (Suc k)
  then have "k = N - Suc n" "Suc n \<le> N" by simp_all
  then have "\<exists>out. retry_loop L E url C (Suc n) (delay_at C (Suc n)) ws = Some out" for ws by (rule Suc.hyps(1))
  then show ?case
    by (subst retry_loop.simps) (auto simp: Let_def split: sum.splits)
qed

text \<open>
  C39: the retry loop always ends: with positive delays, jitter below one, and a \<open>sleep\<close> that lets at
  least the requested time pass, \<open>send_with_retries\<close> returns a message or raises, whatever the peer,
  the network and the random draws do.
\<close>

theorem send_with_retries_ends:
  assumes "sleeps E C" "0 < initial_delay C" "0 < max_delay C" "j < 1" "\<forall>n. - j \<le> uniform E n"
  shows "\<exists>out. send_with_retries L E url C = Some out"
proof -
  have "0 < min (initial_delay C) (max_delay C) * (1 - j)" using assms(2-4) by simp
  then obtain N where "total_budget C < of_nat N * (min (initial_delay C) (max_delay C) * (1 - j))"
    using ex_less_of_nat_mult by blast
  then show ?thesis
    using retry_loop_ends [OF assms, of N 0 L url "[]"] by (simp add: send_with_retries_def)
qed

definition ex_retry_env :: retry_env where
  "ex_retry_env =
     \<lparr>builder = (\<lambda>_. Inr \<lparr>message = [], envelope_jws = ''a.b.c'', envelope_payload = ex_envelope\<rparr>),
      posting = (\<lambda>_ _ _ _. raise (Lib HTTPError) ''unreachable''),
      monotonic = (\<lambda>n. of_nat n * 4000), uniform = (\<lambda>_. 0)\<rparr>"

theorem send_with_retries_ends_witness:
  "\<exists>out. send_with_retries toy_lib ex_retry_env ''https://bob.example'' RETRY_DEFAULTS = Some out"
proof (rule send_with_retries_ends [where j = "1/4"])
  have "delay_at RETRY_DEFAULTS n \<le> 3600" for n
    by (cases n) (simp_all add: RETRY_DEFAULTS_def)
  then have "retry_wait RETRY_DEFAULTS x (delay_at RETRY_DEFAULTS n) 0 \<le> 4000" for x n
    by (auto simp: retry_wait_def Let_def min_def max_def intro: order_trans [of _ 3600])
  then show "sleeps ex_retry_env RETRY_DEFAULTS"
    by (auto simp: sleeps_def elapsed_at_def ex_retry_env_def algebra_simps)
qed (simp_all add: RETRY_DEFAULTS_def ex_retry_env_def)

subsection \<open>What the loop does\<close>

text \<open>Attempt \<open>i\<close> was built, did not reach the peer, and left time for another one.\<close>

definition transport_failure :: "lib \<Rightarrow> retry_env \<Rightarrow> string \<Rightarrow> retry_conf \<Rightarrow> nat \<Rightarrow> bool" where
  "transport_failure L E url C i =
     (\<exists>built e. builder E i = Inr built \<and> send_envelope L (posting E i) built url = Inl e
        \<and> is_a e (Sdk TransportError) \<and> \<not> is_a e (Wire ShadownetWireError) \<and> elapsed_at E i < total_budget C)"

text \<open>How the loop stops at attempt \<open>k\<close>: the builder raised, the attempt was decisive, or time is up.\<close>

definition stops :: "lib \<Rightarrow> retry_env \<Rightarrow> string \<Rightarrow> retry_conf \<Rightarrow> nat \<Rightarrow> A2AMessage res \<Rightarrow> nat \<Rightarrow> bool" where
  "stops L E url C k r posts =
     (case builder E k of
        Inl e \<Rightarrow> r = Inl e \<and> posts = k
      | Inr built \<Rightarrow> posts = Suc k \<and>
          (case send_envelope L (posting E k) built url of
             Inr m \<Rightarrow> r = Inr m
           | Inl e \<Rightarrow>
               (if is_a e (Wire ShadownetWireError) \<or> \<not> is_a e (Sdk TransportError) then r = Inl e
                else elapsed_at E k \<ge> total_budget C \<and> r = retry_exhausted (elapsed_at E k) e)))"

definition wait_at :: "retry_env \<Rightarrow> retry_conf \<Rightarrow> nat \<Rightarrow> rat" where
  "wait_at E C i = retry_wait C (elapsed_at E i) (delay_at C i) (uniform E i)"

definition retry_traced ::
  "lib \<Rightarrow> retry_env \<Rightarrow> string \<Rightarrow> retry_conf \<Rightarrow> nat \<Rightarrow> rat \<Rightarrow> rat list \<Rightarrow> A2AMessage res \<times> nat \<times> rat list \<Rightarrow> bool"
where
  "retry_traced L E url C n delay waits out =
     (delay = delay_at C n \<longrightarrow>
      (\<exists>k\<ge>n. (\<forall>i. n \<le> i \<and> i < k \<longrightarrow> transport_failure L E url C i)
         \<and> stops L E url C k (fst out) (fst (snd out)) \<and> snd (snd out) = waits @ map (wait_at E C) [n..<k]))"

lemma retry_loop_trace: "retry_loop L E url C n delay waits = Some out \<Longrightarrow> retry_traced L E url C n delay waits out"
proof (rule retry_loop.raw_induct [where P = retry_traced])
  fix loop :: "lib \<Rightarrow> retry_env \<Rightarrow> string \<Rightarrow> retry_conf \<Rightarrow> nat \<Rightarrow> rat \<Rightarrow> rat list \<Rightarrow> (A2AMessage res \<times> nat \<times> rat list) option"
  fix L E url C n delay waits out
  assume IH: "\<And>L E url C n delay waits out. loop L E url C n delay waits = Some out \<Longrightarrow> retry_traced L E url C n delay waits out"
    and body: "(case builder E n of
        Inl e \<Rightarrow> Some (Inl e, n, waits)
      | Inr built \<Rightarrow>
          (case send_envelope L (posting E n) built url of
             Inl e \<Rightarrow>
               (if is_a e (Wire ShadownetWireError) then Some (Inl e, Suc n, waits)
                else if is_a e (Sdk TransportError)
                then
                  (let elapsed = monotonic E (Suc n) - monotonic E 0 in
                     if elapsed \<ge> total_budget C then Some (retry_exhausted elapsed e, Suc n, waits)
                     else loop L E url C (Suc n) (min (delay * 2) (max_delay C))
                            (waits @ [retry_wait C elapsed delay (uniform E n)]))
                else Some (Inl e, Suc n, waits))
           | Inr m \<Rightarrow> Some (Inr m, Suc n, waits))) = Some out"
  show "retry_traced L E url C n delay waits out"
  proof (cases "delay = delay_at C n \<and> transport_failure L E url C n")
    case True
    then have d: "delay = delay_at C n" by simp
    from True obtain built e where b: "builder E n = Inr built" "send_envelope L (posting E n) built url = Inl e"
        "is_a e (Sdk TransportError)" "\<not> is_a e (Wire ShadownetWireError)" "elapsed_at E n < total_budget C"
      by (auto simp: transport_failure_def)
    then have "loop L E url C (Suc n) (delay_at C (Suc n)) (waits @ [wait_at E C n]) = Some out"
      using d body by (auto simp: elapsed_at_def wait_at_def Let_def)
    from IH [OF this] obtain k where k: "k \<ge> Suc n" "\<forall>i. Suc n \<le> i \<and> i < k \<longrightarrow> transport_failure L E url C i"
      "stops L E url C k (fst out) (fst (snd out))" "snd (snd out) = waits @ wait_at E C n # map (wait_at E C) [Suc n..<k]"
      by (auto simp: retry_traced_def)
    then have "map (wait_at E C) [n..<k] = wait_at E C n # map (wait_at E C) [Suc n..<k]"
      by (subst upt_conv_Cons) simp_all
    moreover have "\<forall>i. n \<le> i \<and> i < k \<longrightarrow> transport_failure L E url C i"
      using k(2) True by (metis Suc_leI le_neq_implies_less)
    ultimately show ?thesis
      unfolding retry_traced_def using k(1,3,4) by (intro impI exI [of _ k]) auto
  next
    case False
    then have "delay = delay_at C n \<Longrightarrow> stops L E url C n (fst out) (fst (snd out)) \<and> snd (snd out) = waits"
      using body by (auto simp: transport_failure_def stops_def elapsed_at_def Let_def split: sum.splits if_splits)
    then show ?thesis unfolding retry_traced_def by (intro impI exI [of _ n]) auto
  qed
qed

text \<open>
  How \<open>send_with_retries\<close> behaves whenever it returns: it makes fresh attempts \<open>0, 1, \<dots>, k\<close>, each with
  a message newly built for it; every attempt before the last failed to reach the peer with budget
  left; the last one was answered by the peer (a message or a wire error, which is never retried), or
  could not be built, or exhausted the budget. Between two attempts it waits the jittered,
  doubling delay, never a negative time and never beyond what was left of the budget.
\<close>

theorem send_with_retries_trace:
  assumes "send_with_retries L E url C = Some (r, posts, waits)"
  shows "\<exists>k. (\<forall>i<k. transport_failure L E url C i) \<and> stops L E url C k r posts
    \<and> waits = map (wait_at E C) [0..<k]
    \<and> (\<forall>i<k. 0 \<le> waits ! i \<and> elapsed_at E i + waits ! i \<le> total_budget C)"
proof -
  obtain k where k: "\<forall>i. i < k \<longrightarrow> transport_failure L E url C i" "stops L E url C k r posts"
    "waits = map (wait_at E C) [0..<k]"
    using retry_loop_trace [OF assms [unfolded send_with_retries_def]] by (auto simp: retry_traced_def)
  moreover have "0 \<le> waits ! i \<and> elapsed_at E i + waits ! i \<le> total_budget C" if "i < k" for i
  proof -
    have "elapsed_at E i < total_budget C" using k(1) that by (auto simp: transport_failure_def)
    then show ?thesis using that k(3) by (auto simp: wait_at_def retry_wait_def Let_def)
  qed
  ultimately show ?thesis by blast
qed

theorem send_with_retries_trace_witness:
  "\<exists>r. send_with_retries toy_lib (ex_retry_env\<lparr>monotonic := (\<lambda>n. of_nat n * 100000)\<rparr>) ''https://bob.example'' RETRY_DEFAULTS
     = Some (r, 1, []) \<and> (\<exists>k. stops toy_lib (ex_retry_env\<lparr>monotonic := (\<lambda>n. of_nat n * 100000)\<rparr>) ''https://bob.example'' RETRY_DEFAULTS k r 1)"
proof -
  let ?E = "ex_retry_env\<lparr>monotonic := (\<lambda>n. of_nat n * 100000)\<rparr>"
  let ?b = "\<lparr>message = [], envelope_jws = ''a.b.c'', envelope_payload = ex_envelope\<rparr>"
  obtain e where e: "send_envelope toy_lib (posting ?E 0) ?b ''https://bob.example'' = Inl e" "is_a e (Sdk TransportError)"
      "\<not> is_a e (Wire ShadownetWireError)"
    by (auto simp: ex_retry_env_def send_envelope_def send_envelope_request_def rewrap_def try_except_def
        raise_def is_a_eval)
  have "builder ?E 0 = Inr ?b" "monotonic ?E (Suc 0) - monotonic ?E 0 \<ge> total_budget RETRY_DEFAULTS"
    by (simp_all add: ex_retry_env_def RETRY_DEFAULTS_def)
  with e obtain r where r: "send_with_retries toy_lib ?E ''https://bob.example'' RETRY_DEFAULTS = Some (r, 1, [])"
    unfolding send_with_retries_def
    by (subst (asm) retry_loop.simps) (simp add: Let_def)
  then show ?thesis using send_with_retries_trace [OF r] by blast
qed

lemma run_asend_envelope [run_simps]:
  "(\<And>url body h. run (apost url body h) = sres (post url body h)) \<Longrightarrow>
     run (asend_envelope L apost built agent_url) = sres (send_envelope L post built agent_url)"
  by (simp add: asend_envelope_def send_envelope_def send_envelope_request_def run_simps)

lemma extract_envelope_jws_error: "extract_envelope_jws b = Inl e \<Longrightarrow> cls e = Wire ParseError"
  by (auto simp: extract_envelope_jws_def raise_def split: json.splits option.splits if_splits)

lemma extract_envelope_jws_Inr:
  assumes "extract_envelope_jws b = Inr (jws, msg)"
  shows "\<exists>d. b = JObj d \<and> dict_get d ''message'' = Some (JObj msg)" "count_list jws (CHR ''.'') = 2"
    "\<exists>md. dict_get msg ''metadata'' = Some (JObj md) \<and> dict_get md ENVELOPE_EXTENSION_URI = Some (JStr jws)"
  using assms
  by (auto simp: extract_envelope_jws_def raise_def get_or_def split: json.splits option.splits if_splits)

end
