(* ===== verification/Receiver.thy ===== *)
theory Receiver
  imports Stores Agentcard A2a
begin

text \<open>
  The receiver pipeline, from \<open>python-sdk/src/shadownet/receiver.py\<close>: RFC 0001 section 8.6 validation
  and section 9 classification for one subject, over any stores. Shown here:
  what an accepted request proves about its sender, that no envelope is accepted twice, that a
  contact's message is delivered, and how senders are classified. The async pipeline is in theory
  \<open>Receiver_Async\<close>.
\<close>

section \<open>Data\<close>

definition REPLAY_CACHE_RETENTION :: int where "REPLAY_CACHE_RETENTION = 10 * 60"

definition AUTO_ADD_LOOKBACK_DEFAULT :: int where "AUTO_ADD_LOOKBACK_DEFAULT = 7 * 24 * 60 * 60"

definition CREDENTIAL_CACHE_LEEWAY :: int where "CREDENTIAL_CACHE_LEEWAY = 60"

definition CREDENTIAL_CACHE_DEFAULT_TTL :: int where "CREDENTIAL_CACHE_DEFAULT_TTL = 30 * 24 * 60 * 60"

datatype Route = Inbox | StrangerReview

record AcceptedDecision =
  route :: Route
  d_sender :: string
  d_envelope :: EnvelopePayload
  auto_added_contact :: bool

record ReceiverConfig =
  subject :: string
  trust_store :: TrustStore
  policy :: AcceptancePolicy
  same_provider_org :: bool
  auto_add_lookback_seconds :: int
  leeway_seconds :: int

text \<open>
  A pipeline object. The network callbacks see the state (what the network answers may change over
  time) but do not write to the stores; \<open>now\<close> reads a clock.
\<close>

record 's ReceiverPipeline =
  config :: ReceiverConfig
  p_replay :: "'s replay_ops"
  p_contacts :: "'s contact_ops"
  p_credentials :: "'s credential_ops"
  p_provider_lookup :: "'s \<Rightarrow> string \<Rightarrow> ProviderRecord res"
  p_fetch_agent_card :: "'s \<Rightarrow> string \<Rightarrow> ProviderRecord \<Rightarrow> FetchedAgentCard res"
  p_revocation_check :: "'s \<Rightarrow> VerifiedCredential \<Rightarrow> unit res"
  p_now :: "('s, int) st"

definition default_agent_card_fetcher :: "lib \<Rightarrow> http_get \<Rightarrow> string \<Rightarrow> ProviderRecord \<Rightarrow> FetchedAgentCard res" where
  "default_agent_card_fetcher L get shadowname rcd = fetch_and_verify_agent_card L get shadowname rcd"

definition default_revocation_check :: "lib \<Rightarrow> http_get \<Rightarrow> VerifiedCredential \<Rightarrow> unit res" where
  "default_revocation_check L get credential = check_revocation L get credential None"

text \<open>\<open>__init__\<close>, for DNS, HTTP client and wall clock as they are in each state.\<close>

definition ReceiverPipeline_init ::
  "lib \<Rightarrow> ('s \<Rightarrow> resolver) \<Rightarrow> ('s \<Rightarrow> http_get) \<Rightarrow> ('s, int) st \<Rightarrow> ReceiverConfig \<Rightarrow> 's replay_ops
    \<Rightarrow> 's contact_ops \<Rightarrow> 's credential_ops \<Rightarrow> ('s \<Rightarrow> string \<Rightarrow> ProviderRecord res) option
    \<Rightarrow> ('s \<Rightarrow> string \<Rightarrow> ProviderRecord \<Rightarrow> FetchedAgentCard res) option
    \<Rightarrow> ('s \<Rightarrow> VerifiedCredential \<Rightarrow> unit res) option \<Rightarrow> ('s, int) st option \<Rightarrow> 's ReceiverPipeline"
where
  "ReceiverPipeline_init L dns get clk cfg replay contacts credentials provider_lookup agent_card_fetcher
     revocation_check now =
     \<lparr>config = cfg, p_replay = replay, p_contacts = contacts, p_credentials = credentials,
      p_provider_lookup = (case provider_lookup of Some f \<Rightarrow> f
                           | None \<Rightarrow> (\<lambda>s. lookup_provider_record L (dns s))),
      p_fetch_agent_card = (case agent_card_fetcher of Some f \<Rightarrow> f
                            | None \<Rightarrow> (\<lambda>s. default_agent_card_fetcher L (get s))),
      p_revocation_check = (case revocation_check of Some f \<Rightarrow> f
                            | None \<Rightarrow> (\<lambda>s. default_revocation_check L (get s))),
      p_now = (case now of Some f \<Rightarrow> f | None \<Rightarrow> clk)\<rparr>"

section \<open>The parts both pipelines share\<close>

text \<open>The claims \<open>from\<close> and \<open>to\<close>, which have to be strings.\<close>

definition from_and_to :: "obj \<Rightarrow> (string \<times> string) res" where
  "from_and_to unverified =
     (case (dict_get unverified ''from'', dict_get unverified ''to'') of
        (Some (JStr sender_raw), Some (JStr recipient_raw)) \<Rightarrow> Inr (sender_raw, recipient_raw)
      | _ \<Rightarrow> raise (Wire ParseError) (''envelope missing '' @ repr ''from'' @ '' or '' @ repr ''to''))"

text \<open>Pre-parsing: the envelope, the message and the canonical sender (\<open>receive\<close> up to step 4).\<close>

definition pre_parse :: "lib \<Rightarrow> ReceiverConfig \<Rightarrow> json \<Rightarrow> (string \<times> obj \<times> string) res" where
  "pre_parse L cfg request_body =
     bind (extract_envelope_jws request_body) (\<lambda>(envelope_jws, msg).
     bind (rewrap (bind (decode_header L envelope_jws) (\<lambda>header.
                   bind (decode_unverified_claims L envelope_jws) (\<lambda>unverified. Inr (header, unverified))))
             (Builtin PyException) (Wire ParseError) (\<lambda>m. ''envelope JWS unparseable: '' @ m))
       (\<lambda>(header, unverified).
     bind (from_and_to unverified) (\<lambda>(sender_raw, recipient_raw).
     if \<not> header_is header ''kid'' sender_raw
     then raise (Wire ParseError) (''envelope JWS kid does not match '' @ repr ''from'' @ '' claim'')
     else
     bind (rewrap (bind (canonicalize_identifier sender_raw) (\<lambda>sender.
                   bind (canonicalize_identifier recipient_raw) (\<lambda>recipient. Inr (sender, recipient))))
             (Builtin PyException) (Wire ParseError) (\<lambda>m. ''invalid identifier: '' @ m))
       (\<lambda>(sender, recipient).
     if recipient \<noteq> subject cfg
     then raise (Wire UnknownRecipientError) (''envelope to='' @ repr recipient @ '' not served at this URL'')
     else Inr (envelope_jws, msg, sender)))))"

text \<open>\<open>except EnvelopeError\<close> around \<open>verify_envelope\<close>.\<close>

definition map_envelope_error :: "'a res \<Rightarrow> 'a res" where
  "map_envelope_error r =
     try_except r (Sdk EnvelopeError) (\<lambda>e.
       if occurs_in ''signature'' (lower (str_of e)) then raise (Wire SignatureError) (str_of e)
       else raise (Wire ParseError) (str_of e))"

text \<open>Step 7 and the message id.\<close>

definition check_hash :: "lib \<Rightarrow> obj \<Rightarrow> EnvelopePayload \<Rightarrow> unit res" where
  "check_hash L msg envelope =
     bind (compute_msg_hash L msg) (\<lambda>recomputed.
       if recomputed \<noteq> e_msg_hash envelope
       then raise (Wire ParseError) (''msgHash mismatch: envelope claims '' @ repr (e_msg_hash envelope)
              @ '', computed '' @ repr recomputed)
       else Inr ())"

definition message_id_of :: "obj \<Rightarrow> string res" where
  "message_id_of msg =
     (case dict_get msg ''messageId'' of
        Some (JStr m) \<Rightarrow> (if m = '''' then raise (Wire ParseError) ''message.messageId missing'' else Inr m)
      | _ \<Rightarrow> raise (Wire ParseError) ''message.messageId missing'')"

definition context_id_of :: "obj \<Rightarrow> string option res" where
  "context_id_of msg =
     (case dict_get msg ''contextId'' of
        None \<Rightarrow> Inr None
      | Some JNull \<Rightarrow> Inr None
      | Some (JStr c) \<Rightarrow> Inr (Some c)
      | _ \<Rightarrow> raise (Wire ParseError) ''message.contextId must be a string when present'')"

definition replayed :: "string \<Rightarrow> string \<Rightarrow> string" where
  "replayed sender mid = ''('' @ repr sender @ '', '' @ repr mid @ '') replayed''"

text \<open>The shortcut for senders of the same provider.\<close>

definition same_provider :: "ReceiverConfig \<Rightarrow> ProviderRecord option \<Rightarrow> bool res" where
  "same_provider cfg sender_provider_record =
     (case sender_provider_record of
        None \<Rightarrow> Inr False
      | Some rcd \<Rightarrow>
          (if same_provider_org cfg \<and> is_shadowname (subject cfg)
           then bind (split_shadowname (subject cfg)) (\<lambda>(_, recipient_provider).
                  Inr (recipient_provider = domain rcd))
           else Inr False))"

text \<open>The stranger policy, once the sender is neither local, a contact, nor expected.\<close>

definition stranger_decision :: "ReceiverConfig \<Rightarrow> string \<Rightarrow> VerifiedCredential list \<Rightarrow> (Route \<times> bool) res" where
  "stranger_decision cfg sender creds =
     (let required = required_kinds (policy cfg) False in
        if required = [] then raise (Wire PolicyError) (''stranger '' @ repr sender @ '' rejected by policy'')
        else if \<not> satisfies_policy creds (trust_store cfg) required
        then (if creds \<noteq> []
              then raise (Wire CredsRejectedError)
                     (''no presented credential satisfies stranger policy for '' @ repr sender)
              else raise (Wire CredsRequiredError) (''stranger '' @ repr sender @ '' presented no credentials''))
        else Inr (StrangerReview, False))"

section \<open>The synchronous pipeline\<close>

text \<open>Step 5: the sender's signing key, and its provider record in Shadowname mode.\<close>

definition resolve_sender :: "lib \<Rightarrow> 's ReceiverPipeline \<Rightarrow> string \<Rightarrow> 's \<Rightarrow> (Ed25519KeyPair \<times> ProviderRecord option) res" where
  "resolve_sender L P sender s =
     (if is_public_key_identifier sender
      then bind (parse_public_key sender) (\<lambda>b. bind (from_public_bytes L b) (\<lambda>key. Inr (key, None)))
      else
        bind (rewrap (bind (split_shadowname sender) (\<lambda>(_, sender_provider). p_provider_lookup P s sender_provider))
                (Sdk ProviderResolutionError) (Wire SignatureError)
                (\<lambda>m. ''could not resolve sender provider: '' @ m)) (\<lambda>rcd.
        bind (rewrap (p_fetch_agent_card P s sender rcd) (Sdk AgentCardError) (Wire SignatureError)
                (\<lambda>m. ''sender AgentCard verification failed: '' @ m)) (\<lambda>crd.
        bind (parse_public_key (shadow_public_key crd)) (\<lambda>b.
        bind (from_public_bytes L b) (\<lambda>key. Inr (key, Some rcd))))))"

definition resolve_issuer_key :: "'s ReceiverPipeline \<Rightarrow> 's \<Rightarrow> string \<Rightarrow> string res" where
  "resolve_issuer_key P s iss =
     (if is_public_key_identifier iss then Inr iss
      else
        bind (rewrap (p_provider_lookup P s iss) (Sdk ProviderResolutionError) (Sdk CredentialError)
                (\<lambda>m. ''could not resolve issuer '' @ repr iss @ '': '' @ m)) (\<lambda>rcd.
          (case provider_keys rcd of
             [] \<Rightarrow> credential_error (''issuer '' @ repr iss @ '' has no provider key'')
           | k # _ \<Rightarrow> Inr k)))"

definition check_issuer_authorized_for_org :: "'s ReceiverPipeline \<Rightarrow> 's \<Rightarrow> string \<Rightarrow> string \<Rightarrow> unit res" where
  "check_issuer_authorized_for_org P s iss org =
     (if iss = org then Inr ()
      else if is_public_key_identifier iss \<or> is_public_key_identifier org
      then credential_error (keyed_issuer_message iss org)
      else
        bind (is_subdomain_of iss org) (\<lambda>sub.
          if sub then Inr ()
          else
            bind (rewrap (p_provider_lookup P s org) (Sdk ProviderResolutionError) (Sdk CredentialError)
                    (\<lambda>m. ''could not verify issuer authorization for '' @ repr org @ '': '' @ m))
              (\<lambda>org_record.
                if lower iss \<in> set (map lower (delegates org_record)) then Inr ()
                else credential_error (''issuer '' @ repr iss @ '' is not authorized to attest for org '' @ repr org))))"

definition cred_rejected :: "string \<Rightarrow> string" where
  "cred_rejected m = ''credential rejected: '' @ m"

definition cred_unverifiable :: "string \<Rightarrow> string" where
  "cred_unverifiable m = ''credential revoked or unverifiable: '' @ m"

text \<open>One round of the loop over \<open>envelope.creds\<close>; the clock argument of \<open>verify_credential\<close> is unused, as \<open>now\<close> is given.\<close>

definition validate_one :: "lib \<Rightarrow> 's ReceiverPipeline \<Rightarrow> string \<Rightarrow> string \<Rightarrow> ('s, VerifiedCredential) st" where
  "validate_one L P sender jws =
     sbind (p_now P) (\<lambda>now.
     sbind (srewrap (\<lambda>s. (verify_credential L (\<lambda>_. Inr []) 0 jws (Some now) (leeway_seconds (config P))
                            (Some (resolve_issuer_key P s)) (Some (check_issuer_authorized_for_org P s)), s))
              (Sdk CredentialError) (Wire CredsRejectedError) cred_rejected) (\<lambda>cred.
     sbind (srewrap (\<lambda>s. (p_revocation_check P s cred, s))
              (Sdk StatusListError) (Wire CredsRejectedError) cred_unverifiable) (\<lambda>_.
     sbind (p_now P) (\<lambda>now'.
     sbind (cache (p_credentials P) sender cred
              (min (c_exp (payload cred) - CREDENTIAL_CACHE_LEEWAY) (now' + CREDENTIAL_CACHE_DEFAULT_TTL))) (\<lambda>_.
     sret cred)))))"

fun validate_loop :: "lib \<Rightarrow> 's ReceiverPipeline \<Rightarrow> string \<Rightarrow> string list \<Rightarrow> ('s, VerifiedCredential list) st" where
  "validate_loop L P sender [] = sret []"
| "validate_loop L P sender (jws # rest) =
     sbind (validate_one L P sender jws) (\<lambda>cred.
     sbind (validate_loop L P sender rest) (\<lambda>creds. sret (cred # creds)))"

definition validate_creds :: "lib \<Rightarrow> 's ReceiverPipeline \<Rightarrow> EnvelopePayload \<Rightarrow> string \<Rightarrow> ('s, VerifiedCredential list) st" where
  "validate_creds L P envelope sender =
     (if e_creds envelope \<noteq> [] then validate_loop L P sender (e_creds envelope)
      else for_sender (p_credentials P) sender)"

definition classify ::
  "'s ReceiverPipeline \<Rightarrow> string \<Rightarrow> ProviderRecord option \<Rightarrow> VerifiedCredential list \<Rightarrow> string option \<Rightarrow> ('s, Route \<times> bool) st"
where
  "classify P sender sender_provider_record credentials cid =
     sbind (sres (same_provider (config P) sender_provider_record)) (\<lambda>same.
       if same then sret (Inbox, False)
       else
     sbind (is_contact (p_contacts P) sender) (\<lambda>contact.
       if contact then sret (Inbox, False)
       else
     sbind (case cid of
              None \<Rightarrow> sret False
            | Some ctx \<Rightarrow> (if ctx = '''' then sret False
                          else has_recent_outbound (p_contacts P) ctx sender (auto_add_lookback_seconds (config P))))
       (\<lambda>recent.
       if recent then sbind (add_contact (p_contacts P) sender) (\<lambda>_. sret (Inbox, True))
       else sres (stranger_decision (config P) sender credentials))))"

definition receive :: "lib \<Rightarrow> 's ReceiverPipeline \<Rightarrow> json \<Rightarrow> ('s, AcceptedDecision) st" where
  "receive L P request_body =
     sbind (sres (pre_parse L (config P) request_body)) (\<lambda>(envelope_jws, msg, sender).
     sbind (\<lambda>s. (resolve_sender L P sender s, s)) (\<lambda>(sender_key, sender_provider_record).
     sbind (p_now P) (\<lambda>now.
     sbind (sres (map_envelope_error (verify_envelope L 0 envelope_jws sender_key (subject (config P))
                                        (Some now) (leeway_seconds (config P))))) (\<lambda>envelope.
     sbind (sres (check_hash L msg envelope)) (\<lambda>_.
     sbind (sres (message_id_of msg)) (\<lambda>mid.
     sbind (seen (p_replay P) sender mid) (\<lambda>dup.
       if dup then sraise (Wire ReplayError) (replayed sender mid)
       else
     sbind (remember (p_replay P) sender mid REPLAY_CACHE_RETENTION) (\<lambda>_.
     sbind (validate_creds L P envelope sender) (\<lambda>sender_credentials.
     sbind (sres (context_id_of msg)) (\<lambda>cid.
     sbind (classify P sender sender_provider_record sender_credentials cid) (\<lambda>(rt, auto_added).
     sret \<lparr>route = rt, d_sender = sender, d_envelope = envelope, auto_added_contact = auto_added\<rparr>)))))))))))"

section \<open>The extension header\<close>

definition header_includes_extension :: "string option \<Rightarrow> bool" where
  "header_includes_extension a2a_extensions_header =
     (case a2a_extensions_header of
        None \<Rightarrow> False
      | Some h \<Rightarrow> ENVELOPE_EXTENSION_URI \<in> set (filter (\<lambda>t. t \<noteq> '''') (map strip (split_on (CHR '','') h))))"

definition ensure_extension_declared :: "string option \<Rightarrow> unit res" where
  "ensure_extension_declared h =
     (if header_includes_extension h then Inr ()
      else raise (Wire ParseError) (''A2A-Extensions header must include '' @ repr ENVELOPE_EXTENSION_URI))"

section \<open>What an accepted request has passed\<close>

lemma from_and_to_Inr_iff [res_simps]:
  "from_and_to d = Inr (x, y) \<longleftrightarrow> dict_get d ''from'' = Some (JStr x) \<and> dict_get d ''to'' = Some (JStr y)"
  by (auto simp: from_and_to_def raise_Inr_iff split: option.splits json.splits)

lemma pre_parse_Inr_iff:
  "pre_parse L cfg body = Inr (jws, msg, sender) \<longleftrightarrow>
     extract_envelope_jws body = Inr (jws, msg) \<and>
     (\<exists>header claims raw raw'. jwt_header L jws = Inr header \<and> jwt_claims L jws = Inr claims
        \<and> dict_get claims ''from'' = Some (JStr raw) \<and> dict_get claims ''to'' = Some (JStr raw')
        \<and> header_is header ''kid'' raw \<and> canonicalize_identifier raw = Inr sender
        \<and> canonicalize_identifier raw' = Inr (subject cfg))"
  by (auto simp: pre_parse_def bind_Inr_iff rewrap_Inr_iff decode_header_Inr_iff
      decode_unverified_claims_Inr_iff if_raise_Inr_iff from_and_to_Inr_iff)

lemma map_envelope_error_Inr_iff [res_simps]: "map_envelope_error r = Inr x \<longleftrightarrow> r = Inr x"
  by (cases r) (auto simp: map_envelope_error_def try_except_def raise_def)

lemma check_hash_Inr_iff [res_simps]:
  "check_hash L msg env = Inr r \<longleftrightarrow> compute_msg_hash L msg = Inr (e_msg_hash env)"
  by (auto simp: check_hash_def bind_Inr_iff raise_Inr_iff)

lemma message_id_of_Inr_iff [res_simps]:
  "message_id_of msg = Inr m \<longleftrightarrow> dict_get msg ''messageId'' = Some (JStr m) \<and> m \<noteq> ''''"
  by (auto simp: message_id_of_def raise_Inr_iff split: option.splits json.splits if_splits)

text \<open>The run of an accepted request, state by state.\<close>

lemma receive_accepted:
  assumes "receive L P body s = (Inr d, s')"
  obtains jws msg key rcd now s1 env mid s2 s3 creds s4 cid where
    "pre_parse L (config P) body = Inr (jws, msg, d_sender d)"
    "resolve_sender L P (d_sender d) s = Inr (key, rcd)"
    "p_now P s = (Inr now, s1)"
    "verify_envelope L 0 jws key (subject (config P)) (Some now) (leeway_seconds (config P)) = Inr (d_envelope d)"
    "compute_msg_hash L msg = Inr (e_msg_hash (d_envelope d))"
    "dict_get msg ''messageId'' = Some (JStr mid)" "mid \<noteq> ''''"
    "seen (p_replay P) (d_sender d) mid s1 = (Inr False, s2)"
    "remember (p_replay P) (d_sender d) mid REPLAY_CACHE_RETENTION s2 = (Inr (), s3)"
    "validate_creds L P (d_envelope d) (d_sender d) s3 = (Inr creds, s4)"
    "context_id_of msg = Inr cid"
    "classify P (d_sender d) rcd creds cid s4 = (Inr (route d, auto_added_contact d), s')"
  using assms
  by (auto simp: receive_def sbind_Inr_iff sres_Inr_iff sret_iff sraise_iff map_envelope_error_Inr_iff check_hash_Inr_iff
      message_id_of_Inr_iff split: if_splits)

section \<open>No envelope is accepted twice\<close>

text \<open>
  A running receiver: requests, accepted or not, and whatever else happens to the state between them.
\<close>

inductive server_step :: "lib \<Rightarrow> 's ReceiverPipeline \<Rightarrow> ('s \<Rightarrow> 's \<Rightarrow> bool) \<Rightarrow> 's \<Rightarrow> 's \<Rightarrow> bool"
  for L P other
where
  request: "receive L P body s = (r, s') \<Longrightarrow> server_step L P other s s'"
| other: "other s s' \<Longrightarrow> server_step L P other s s'"

text \<open>
  The contract of the environment: a replay cache, a clock that both it and the pipeline read, and
  stores and other activity that leave the replay cache alone.
\<close>

locale receiver =
  replay_store "p_replay P" deadline clock valid
  for P :: "'s ReceiverPipeline" and deadline :: "'s \<Rightarrow> string \<times> string \<Rightarrow> int option"
    and clock :: "'s \<Rightarrow> int" and valid :: "'s \<Rightarrow> bool" +
  fixes L :: lib and other :: "'s \<Rightarrow> 's \<Rightarrow> bool"
  assumes now_reads: "valid s \<Longrightarrow> p_now P s = (r, s') \<Longrightarrow> r = Inr (clock s)"
    and quiet_now: "quiet (p_now P)"
    and quiet_contacts: "quiet (is_contact (p_contacts P) a)" "quiet (has_recent_outbound (p_contacts P) c a n)"
      "quiet (add_contact (p_contacts P) a)"
    and quiet_credentials: "quiet (for_sender (p_credentials P) a)" "quiet (cache (p_credentials P) a vc n)"
    and quiet_other: "other s s' \<Longrightarrow> valid s \<Longrightarrow> valid s' \<and> deadline s' = deadline s \<and> clock s \<le> clock s'"
begin

lemmas keeps_stores = keeps_quiet [OF quiet_now] keeps_quiet [OF quiet_contacts(1)]
  keeps_quiet [OF quiet_contacts(2)] keeps_quiet [OF quiet_contacts(3)]
  keeps_quiet [OF quiet_credentials(1)] keeps_quiet [OF quiet_credentials(2)] keeps_seen keeps_remember

lemma keeps_look: "keeps Q (\<lambda>s. (f s, s))"
  by (simp add: keeps_def)

lemma keeps_validate_loop: "keeps (guarded n k d) (validate_loop L P sender jwss)"
  by (induction jwss) (auto simp: validate_one_def intro!: keeps_intros keeps_stores keeps_look)

lemma keeps_validate_creds: "keeps (guarded n k d) (validate_creds L P env sender)"
  by (auto simp: validate_creds_def intro!: keeps_validate_loop keeps_stores)

lemma keeps_classify: "keeps (guarded n k d) (classify P sender rcd creds cid)"
  unfolding classify_def by (intro keeps_intros keeps_stores)

lemma keeps_receive: "keeps (guarded REPLAY_CACHE_RETENTION k d) (receive L P body)"
  unfolding receive_def case_prod_unfold
  by (intro keeps_intros keeps_stores keeps_look keeps_validate_creds keeps_classify)

lemma guarded_steps:
  assumes "(server_step L P other)\<^sup>*\<^sup>* s s'" "guarded REPLAY_CACHE_RETENTION k d s"
  shows "guarded REPLAY_CACHE_RETENTION k d s'"
  using assms
proof (induction rule: rtranclp_induct)
  case (step s' s'')
  from step.hyps(2) show ?case
  proof cases
    case (request body r)
    then show ?thesis using keepsD [OF keeps_receive] step by blast
  next
    case other
    then show ?thesis using step quiet_other by (fastforce simp: guarded_def remembered_def)
  qed
qed

text \<open>After acceptance, the sender's message id stays remembered for the retention time.\<close>

lemma accepted_guarded:
  assumes "valid s" "receive L P body s = (Inr d, s')"
  obtains jws msg mid now where "pre_parse L (config P) body = Inr (jws, msg, d_sender d)"
    "dict_get msg ''messageId'' = Some (JStr mid)" "compute_msg_hash L msg = Inr (e_msg_hash (d_envelope d))"
    "e_iat (d_envelope d) \<le> now + leeway_seconds (config P)"
    "\<exists>claims. jwt_claims L jws = Inr claims \<and> EnvelopePayload_model_validate L claims = Inr (d_envelope d)"
    "guarded REPLAY_CACHE_RETENTION (d_sender d, mid) (now + REPLAY_CACHE_RETENTION) s'"
proof -
  from assms(2) obtain jws msg key rcd now s1 env mid s2 s3 creds s4 cid where
    pp: "pre_parse L (config P) body = Inr (jws, msg, d_sender d)"
    and now: "p_now P s = (Inr now, s1)"
    and ver: "verify_envelope L 0 jws key (subject (config P)) (Some now) (leeway_seconds (config P)) = Inr (d_envelope d)"
    and hash: "compute_msg_hash L msg = Inr (e_msg_hash (d_envelope d))"
    and mid: "dict_get msg ''messageId'' = Some (JStr mid)"
    and seen: "seen (p_replay P) (d_sender d) mid s1 = (Inr False, s2)"
    and rem: "remember (p_replay P) (d_sender d) mid REPLAY_CACHE_RETENTION s2 = (Inr (), s3)"
    and val: "validate_creds L P (d_envelope d) (d_sender d) s3 = (Inr creds, s4)"
    and cls: "classify P (d_sender d) rcd creds cid s4 = (Inr (route d, auto_added_contact d), s')"
    by (rule receive_accepted)
  have s1: "valid s1" "now \<le> clock s1"
    using quietD [OF quiet_now assms(1) now] now_reads [OF assms(1) now] by auto
  then have s2: "valid s2" "now \<le> clock s2" using seen_clock [OF _ seen] by auto
  then have "guarded REPLAY_CACHE_RETENTION (d_sender d, mid) (clock s2 + REPLAY_CACHE_RETENTION) s3"
    using remember_guarded [OF _ rem] by blast
  then have "guarded REPLAY_CACHE_RETENTION (d_sender d, mid) (clock s2 + REPLAY_CACHE_RETENTION) s'"
    using keepsD [OF keeps_validate_creds val] keepsD [OF keeps_classify cls] by blast
  then have "guarded REPLAY_CACHE_RETENTION (d_sender d, mid) (now + REPLAY_CACHE_RETENTION) s'"
    using s2(2) by (auto simp: guarded_def remembered_def)
  moreover obtain claims where "jwt_claims L jws = Inr claims" "EnvelopePayload_model_validate L claims = Inr (d_envelope d)"
    "e_iat (d_envelope d) \<le> now + leeway_seconds (config P)"
    using ver by (rule verify_envelope_Inr)
  ultimately show thesis using pp mid hash by (intro that) auto
qed

theorem accepted_once:
  assumes "valid s0" "receive L P body s0 = (Inr d, s1)" "(server_step L P other)\<^sup>*\<^sup>* s1 s2"
    and "receive L P body' s2 = (Inr d', s3)"
    and "extract_envelope_jws body = Inr (jws, msg)" "extract_envelope_jws body' = Inr (jws, msg')"
    and "json_wf (JObj msg)" "json_wf (JObj msg')" "no_collision L msg msg'"
    and prompt: "\<And>s r s'. valid s \<Longrightarrow> p_now P s = (r, s') \<Longrightarrow>
      clock s' < clock s + (REPLAY_CACHE_RETENTION - ENV_MAX_LIFETIME_SECONDS - 2 * leeway_seconds (config P))"
  shows False
proof -
  obtain jws1 msg1 mid now where parse1: "pre_parse L (config P) body = Inr (jws1, msg1, d_sender d)"
    and mid1: "dict_get msg1 ''messageId'' = Some (JStr mid)"
    and hash1: "compute_msg_hash L msg1 = Inr (e_msg_hash (d_envelope d))"
    and iat: "e_iat (d_envelope d) \<le> now + leeway_seconds (config P)"
    and claims1: "\<exists>claims. jwt_claims L jws1 = Inr claims \<and> EnvelopePayload_model_validate L claims = Inr (d_envelope d)"
    and g: "guarded REPLAY_CACHE_RETENTION (d_sender d, mid) (now + REPLAY_CACHE_RETENTION) s1"
    by (rule accepted_guarded [OF assms(1,2)])
  have "jws1 = jws" "msg1 = msg" using parse1 assms(5) by (auto simp: pre_parse_Inr_iff)
  note parse = parse1 [unfolded this] and mid = mid1 [unfolded this] and hash = hash1 [unfolded this]
    and claims = claims1 [unfolded this]
  from g have g2: "guarded REPLAY_CACHE_RETENTION (d_sender d, mid) (now + REPLAY_CACHE_RETENTION) s2"
    using guarded_steps [OF assms(3)] by blast
  from assms(4) obtain jws2 msg2 key2 rcd2 now2 t1 env2 mid2 t2 where
    parse2: "pre_parse L (config P) body' = Inr (jws2, msg2, d_sender d')"
    and now2: "p_now P s2 = (Inr now2, t1)"
    and ver2: "verify_envelope L 0 jws2 key2 (subject (config P)) (Some now2) (leeway_seconds (config P)) = Inr (d_envelope d')"
    and hash2: "compute_msg_hash L msg2 = Inr (e_msg_hash (d_envelope d'))"
    and mid2: "dict_get msg2 ''messageId'' = Some (JStr mid2)"
    and seen2: "seen (p_replay P) (d_sender d') mid2 t1 = (Inr False, t2)"
    by (rule receive_accepted)
  have same: "jws2 = jws" "msg2 = msg'" using parse2 assms(6) by (auto simp: pre_parse_Inr_iff)
  then have sender: "d_sender d' = d_sender d" using parse parse2 by (auto simp: pre_parse_Inr_iff)
  obtain cl where "jwt_claims L jws2 = Inr cl" "EnvelopePayload_model_validate L cl = Inr (d_envelope d')"
    and exp2: "e_exp (d_envelope d') - e_iat (d_envelope d') \<le> 300" "now2 - leeway_seconds (config P) \<le> e_exp (d_envelope d')"
    using ver2 by (rule verify_envelope_Inr)
  then have env: "d_envelope d' = d_envelope d" using claims same by auto
  then have "mid2 = mid"
    using same_hash_message_id [OF assms(7,8,9) hash _ mid] hash2 mid2 same by simp
  have v: "valid s2" using g2 by (simp add: guarded_def)
  have "guarded REPLAY_CACHE_RETENTION (d_sender d, mid) (now + REPLAY_CACHE_RETENTION) t1"
    using keepsD [OF keeps_quiet [OF quiet_now] now2 g2] .
  moreover have "clock t1 < now + REPLAY_CACHE_RETENTION"
    using prompt [OF v now2] now_reads [OF v now2] exp2 env iat by (simp add: ENV_MAX_LIFETIME_SECONDS_def)
  ultimately have "fst (seen (p_replay P) (d_sender d) mid t1) = Inr True"
    by (rule seen_guarded)
  then show False using seen2 sender \<open>mid2 = mid\<close> by simp
qed

end

subsection \<open>The in-memory receiver\<close>

definition memory_pipeline ::
  "lib \<Rightarrow> (process \<Rightarrow> resolver) \<Rightarrow> (process \<Rightarrow> http_get) \<Rightarrow> ReceiverConfig \<Rightarrow> process ReceiverPipeline"
where
  "memory_pipeline L dns get cfg =
     ReceiverPipeline_init L dns get time cfg memory_replay memory_contacts memory_credentials None None None None"

text \<open>What the owner of the process does between requests: let time pass, send, edit contacts.\<close>

inductive owner_step :: "process \<Rightarrow> process \<Rightarrow> bool" where
  idle: "owner_step s (s\<lparr>tick := tick s + n\<rparr>)"
| outbound: "contact_record_outbound c p s = (r, s') \<Longrightarrow> owner_step s s'"
| add: "contact_add_contact a s = (r, s') \<Longrightarrow> owner_step s s'"
| remove: "contact_remove_contact a s = (r, s') \<Longrightarrow> owner_step s s'"

lemmas store_defs = memory_contacts_def memory_credentials_def contact_is_contact_def contact_add_contact_def
  contact_remove_contact_def contact_record_outbound_def contact_has_recent_outbound_def
  credential_for_sender_def credential_cache_add_def

lemma owner_step_quiet:
  "owner_step s s' \<Longrightarrow> process_valid w s \<Longrightarrow>
     process_valid w s' \<and> process_deadline s' = process_deadline s \<and> process_clock s \<le> process_clock s'"
  by (induction rule: owner_step.induct)
    (auto simp: store_defs process_valid_def process_deadline_def process_clock_def sbind_def sthen_def
      time_def supd_def monoD fun_eq_iff)

lemma memory_quiet:
  "memory.quiet w time"
  "memory.quiet w (is_contact memory_contacts a)" "memory.quiet w (has_recent_outbound memory_contacts c a n)"
  "memory.quiet w (add_contact memory_contacts a)"
  "memory.quiet w (for_sender memory_credentials a)" "memory.quiet w (cache memory_credentials a vc n)"
  by (auto simp: memory.quiet_def store_defs process_valid_def process_deadline_def process_clock_def
      sbind_def sthen_def time_def supd_def sget_def sret_def monoD fun_eq_iff Let_def split: option.splits)

interpretation mem: receiver "memory_pipeline L dns get cfg" process_deadline process_clock "process_valid w"
  L owner_step for L dns get cfg w
proof -
  have P: "p_replay (memory_pipeline L dns get cfg) = memory_replay"
    "p_contacts (memory_pipeline L dns get cfg) = memory_contacts"
    "p_credentials (memory_pipeline L dns get cfg) = memory_credentials" "p_now (memory_pipeline L dns get cfg) = time"
    by (simp_all add: memory_pipeline_def ReceiverPipeline_init_def)
  show "receiver (memory_pipeline L dns get cfg) process_deadline process_clock (process_valid w) owner_step"
    by (intro receiver.intro receiver_axioms.intro)
      (use memory.replay_store_axioms memory_quiet owner_step_quiet in \<open>auto simp: P time_def process_clock_def\<close>)
qed

text \<open>
  C1: a receiver never accepts the same envelope twice, whatever requests arrive in between, however
  long it waits and whatever its owner does: once an envelope has been accepted by the in-memory
  receiver, every later request carrying the same envelope is refused. The replay cache forgets after
  ten minutes, but by then the envelope has expired. This needs a clock that does not run backwards,
  messages without duplicate members on which the hash does not collide, and less than
  \<open>300 - 2 * leeway\<close> seconds between checking the envelope's lifetime and looking up the replay cache.
\<close>

theorem no_envelope_accepted_twice:
  fixes L dns get cfg
  defines "P \<equiv> memory_pipeline L dns get cfg"
  assumes "process_valid w s0" "receive L P body s0 = (Inr d, s1)"
    and "(server_step L P owner_step)\<^sup>*\<^sup>* s1 s2"
    and "extract_envelope_jws body = Inr (jws, msg)" "extract_envelope_jws body' = Inr (jws, msg')"
    and "json_wf (JObj msg)" "json_wf (JObj msg')" "no_collision L msg msg'"
    and "\<forall>n. w (Suc n) < w n + (300 - 2 * leeway_seconds cfg)"
  shows "\<exists>e. fst (receive L P body' s2) = Inl e"
proof (cases "receive L P body' s2")
  case (Pair r s3)
  have "r \<noteq> Inr d'" for d'
  proof
    assume "r = Inr d'"
    then have "receive L P body' s2 = (Inr d', s3)" using Pair by simp
    moreover have "process_clock s' < process_clock s + (REPLAY_CACHE_RETENTION - ENV_MAX_LIFETIME_SECONDS
        - 2 * leeway_seconds (config P))" if "process_valid w s" "p_now P s = (r, s')" for s r s'
      using that assms(10)
      by (auto simp: P_def memory_pipeline_def ReceiverPipeline_init_def time_def process_clock_def
          process_valid_def REPLAY_CACHE_RETENTION_def ENV_MAX_LIFETIME_SECONDS_def)
    ultimately show False
      using mem.accepted_once [OF assms(2) assms(3) [unfolded P_def] assms(4) [unfolded P_def] _ assms(5-9)]
      unfolding P_def by blast
  qed
  then show ?thesis using Pair by (cases r) auto
qed

section \<open>A contact's message is delivered\<close>

lemma sbind_Inr: "m s = (Inr x, s') \<Longrightarrow> sbind m f s = f x s'"
  by (simp add: sbind_def sthen_def)

lemma sbind_Inl: "m s = (Inl e, s') \<Longrightarrow> sbind m f s = (Inl e, s')"
  by (simp add: sbind_def sthen_def sres_def)

lemma memory_pipeline_sel [simp]:
  "config (memory_pipeline L dns get cfg) = cfg" "p_replay (memory_pipeline L dns get cfg) = memory_replay"
  "p_contacts (memory_pipeline L dns get cfg) = memory_contacts"
  "p_credentials (memory_pipeline L dns get cfg) = memory_credentials" "p_now (memory_pipeline L dns get cfg) = time"
  by (simp_all add: memory_pipeline_def ReceiverPipeline_init_def)

text \<open>
  A request that passes every check up to the replay cache, from a contact or not, in terms of the
  outcome of the steps that follow.
\<close>

lemma receive_fresh:
  fixes L dns get cfg
  defines "P \<equiv> memory_pipeline L dns get cfg"
  assumes "process_valid w s" "pre_parse L cfg body = Inr (jws, msg, sender)"
    and "resolve_sender L P sender s = Inr (key, rcd)"
    and "verify_envelope L 0 jws key (subject cfg) (Some (process_clock s)) (leeway_seconds cfg) = Inr env"
    and "compute_msg_hash L msg = Inr (e_msg_hash env)"
    and "dict_get msg ''messageId'' = Some (JStr mid)" "mid \<noteq> ''''"
    and "process_deadline s (sender, mid) = None"
  obtains s' where "process_members s' = process_members s" "process_outbound s' = process_outbound s"
    "process_held s' = process_held s" "process_valid w s'"
    "process_deadline s' (sender, mid) \<noteq> None"
    "receive L P body s =
      sbind (validate_creds L P env sender) (\<lambda>creds.
      sbind (sres (context_id_of msg)) (\<lambda>cid.
      sbind (classify P sender rcd creds cid) (\<lambda>(rt, auto_added).
      sret \<lparr>route = rt, d_sender = sender, d_envelope = env, auto_added_contact = auto_added\<rparr>))) s'"
proof -
  let ?s1 = "s\<lparr>tick := Suc (tick s)\<rparr>"
  have now: "time s = (Inr (process_clock s), ?s1)" by (simp add: time_def process_clock_def)
  have v1: "process_valid w ?s1" "process_deadline ?s1 (sender, mid) = None"
    using assms(2,9) by (simp_all add: process_valid_def process_deadline_def)
  obtain s2 where seen: "replay_seen sender mid ?s1 = (Inr False, s2)"
    and s2: "process_members s2 = process_members s" "process_outbound s2 = process_outbound s" "process_held s2 = process_held s"
    using memory.seen_answer [OF v1(1), of sender mid] v1(2)
    by (auto simp: memory_replay_def replay_seen_eq Let_def process_members_def process_outbound_def process_held_def fun_eq_iff)
  have v2: "process_valid w s2"
    using memory.seen_clock [OF v1(1), of sender mid] seen by (simp add: memory_replay_def)
  obtain s3 where rem: "replay_remember sender mid REPLAY_CACHE_RETENTION s2 = (Inr (), s3)"
    and s3: "process_members s3 = process_members s" "process_outbound s3 = process_outbound s" "process_held s3 = process_held s"
    using s2 by (auto simp: replay_remember_eq process_members_def process_outbound_def process_held_def fun_eq_iff)
  have v3: "process_valid w s3" "process_deadline s3 (sender, mid) \<noteq> None"
    using memory.remember_ok [OF v2, of sender mid REPLAY_CACHE_RETENTION] rem by (simp_all add: memory_replay_def)
  have "map_envelope_error (Inr env) = Inr env" "check_hash L msg env = Inr ()" "message_id_of msg = Inr mid"
    using assms(6-8) by (simp_all add: res_simps)
  then show thesis
    using assms(3-5) now seen rem
    by (intro that [OF s3(1-3) v3])
      (simp add: receive_def P_def sbind_Inr [where m = time, OF now] sbind_Inr [where m = "replay_seen sender mid", OF seen]
        sbind_Inr [where m = "replay_remember sender mid REPLAY_CACHE_RETENTION", OF rem] sbind_Inr sres_Inr_iff memory_replay_def)
qed

lemma receive_contact:
  fixes L dns get cfg
  defines "P \<equiv> memory_pipeline L dns get cfg"
  assumes "process_valid w s" "pre_parse L cfg body = Inr (jws, msg, sender)"
    and "resolve_sender L P sender s = Inr (key, rcd)"
    and "verify_envelope L 0 jws key (subject cfg) (Some (process_clock s)) (leeway_seconds cfg) = Inr env"
    and "compute_msg_hash L msg = Inr (e_msg_hash env)"
    and "dict_get msg ''messageId'' = Some (JStr mid)" "mid \<noteq> ''''" "process_deadline s (sender, mid) = None"
    and "e_creds env = []" "context_id_of msg = Inr cid" "same_provider cfg rcd = Inr same" "sender \<in> process_members s"
  shows "\<exists>s'. receive L P body s =
      (Inr \<lparr>route = Inbox, d_sender = sender, d_envelope = env, auto_added_contact = False\<rparr>, s')"
proof -
  obtain s1 where mem: "process_members s1 = process_members s"
    and rcv: "receive L P body s =
      sbind (validate_creds L P env sender) (\<lambda>creds.
      sbind (sres (context_id_of msg)) (\<lambda>cid.
      sbind (classify P sender rcd creds cid) (\<lambda>(rt, auto_added).
      sret \<lparr>route = rt, d_sender = sender, d_envelope = env, auto_added_contact = auto_added\<rparr>))) s1"
    unfolding P_def
    by (rule receive_fresh [OF assms(2,3) assms(4) [unfolded P_def] assms(5-9)]) blast
  obtain creds s2 where val: "validate_creds L P env sender s1 = (Inr creds, s2)"
    and mem2: "process_members s2 = process_members s"
    using mem by (auto simp: validate_creds_def assms(10) P_def memory_credentials_def credential_for_sender_def
        sbind_def sthen_def time_def sget_def supd_def sret_def Let_def process_members_def)
  have "is_contact memory_contacts sender s2 = (Inr True, s2)"
    using memory.is_contact_ok [of sender s2] mem2 assms(13) by (cases "is_contact memory_contacts sender s2") auto
  then have "classify P sender rcd creds cid s2 = (Inr (Inbox, False), s2)"
    by (cases same)
      (simp_all add: classify_def P_def assms(12) sbind_def sthen_def sres_def sret_def)
  then show ?thesis
    using val by (simp add: rcv assms(11) sbind_def sthen_def sres_def sret_def)
qed

section \<open>The sender is authentic\<close>

lemma resolve_sender_authentic:
  assumes "resolve_sender L (memory_pipeline L dns get cfg) sender s = Inr (key, prec)"
  shows "if is_public_key_identifier sender then parse_public_key sender = Inr (public_bytes key)
    else \<exists>local rcd (crd :: FetchedAgentCard). parse_shadowname sender = Inr (local @ ''@'' @ domain rcd)
      \<and> lookup_provider_record L (dns s) (domain rcd) = Inr rcd
      \<and> card_signed L (raw crd) (provider_keys rcd) (''shadownet@'' @ domain rcd)
      \<and> dict_get (raw crd) ''shadownet:pk'' = Some (JStr (shadow_public_key crd))
      \<and> parse_public_key (shadow_public_key crd) = Inr (public_bytes key)"
proof (cases "is_public_key_identifier sender")
  case True
  then show ?thesis
    using assms by (auto simp: resolve_sender_def bind_Inr_iff from_public_bytes_Inr_iff)
next
  case False
  then obtain prov rcd fc where look: "lookup_provider_record L (dns s) prov = Inr rcd"
    and fetch: "fetch_and_verify_agent_card L (get s) sender rcd = Inr fc"
    and pk: "parse_public_key (shadow_public_key fc) = Inr (public_bytes key)"
    using assms
    by (auto simp: resolve_sender_def bind_Inr_iff rewrap_Inr_iff from_public_bytes_Inr_iff memory_pipeline_def
        ReceiverPipeline_init_def default_agent_card_fetcher_def)
  from fetch obtain crd verified where ver: "verify_agent_card L crd rcd sender = Inr verified"
    and fc: "raw fc = raw verified" "shadow_public_key fc = shadow_public_key verified"
    by (auto simp: fetch_and_verify_agent_card_def bind_Inr_iff attach_cache_headers_def)
  have "domain rcd = prov" using look by (rule lookup_provider_record_Inr)
  with look have "lookup_provider_record L (dns s) (domain rcd) = Inr rcd" by simp
  moreover from ver [unfolded verify_agent_card_Inr_iff] fc
  have "\<exists>local. parse_shadowname sender = Inr (local @ ''@'' @ domain rcd)"
    "card_signed L (raw fc) (provider_keys rcd) (''shadownet@'' @ domain rcd)"
    "dict_get (raw fc) ''shadownet:pk'' = Some (JStr (shadow_public_key fc))"
    by (auto simp: card_shape_def)
  ultimately show ?thesis using False pk by (simp only: if_False) blast
qed

text \<open>
  C2: the chain of trust behind every accepted request, with the default network callbacks: the request
  carries an envelope addressed to this subject, current within the leeway, whose hash is that of
  the message, signed by the sender's own key. For a direct-mode sender that key is its identifier;
  for a Shadowname it is the key of an AgentCard which the provider of the name's domain, as
  published in DNS, signed for it.
\<close>

theorem accepted_is_authentic:
  fixes L dns get cfg
  defines "P \<equiv> memory_pipeline L dns get cfg"
  assumes "receive L P body s = (Inr d, s')"
  shows "\<exists>jws msg pk.
    extract_envelope_jws body = Inr (jws, msg) \<and> signed_by L jws pk
    \<and> e_sender (d_envelope d) = d_sender d \<and> e_recipient (d_envelope d) = subject cfg
    \<and> compute_msg_hash L msg = Inr (e_msg_hash (d_envelope d))
    \<and> e_iat (d_envelope d) - leeway_seconds cfg \<le> process_clock s
    \<and> process_clock s \<le> e_exp (d_envelope d) + leeway_seconds cfg
    \<and> (if is_public_key_identifier (d_sender d) then parse_public_key (d_sender d) = Inr pk
       else \<exists>local rcd (crd :: FetchedAgentCard).
         parse_shadowname (d_sender d) = Inr (local @ ''@'' @ domain rcd)
         \<and> lookup_provider_record L (dns s) (domain rcd) = Inr rcd
         \<and> card_signed L (raw crd) (provider_keys rcd) (''shadownet@'' @ domain rcd)
         \<and> dict_get (raw crd) ''shadownet:pk'' = Some (JStr (shadow_public_key crd))
         \<and> parse_public_key (shadow_public_key crd) = Inr pk)"
proof -
  obtain jws msg key rcd now s1 env mid where
    pp: "pre_parse L cfg body = Inr (jws, msg, d_sender d)"
    and res: "resolve_sender L P (d_sender d) s = Inr (key, rcd)"
    and now: "time s = (Inr now, s1)"
    and ver: "verify_envelope L 0 jws key (subject cfg) (Some now) (leeway_seconds cfg) = Inr (d_envelope d)"
    and hash: "compute_msg_hash L msg = Inr (e_msg_hash (d_envelope d))"
    by (rule receive_accepted [OF assms(2)]) (simp add: P_def)
  obtain header where hd: "jwt_header L jws = Inr header" "header_is header ''kid'' (e_sender (d_envelope d))"
    and env: "e_recipient (d_envelope d) = subject cfg" "now - leeway_seconds cfg \<le> e_exp (d_envelope d)"
      "e_iat (d_envelope d) \<le> now + leeway_seconds cfg" "signed_by L jws (public_bytes key)"
    and cl: "\<exists>claims. jwt_claims L jws = Inr claims \<and> EnvelopePayload_model_validate L claims = Inr (d_envelope d)"
    using ver by (rule verify_envelope_Inr) blast
  have "d_sender d = e_sender (d_envelope d)"
  proof -
    obtain claims rw where "jwt_claims L jws = Inr claims" "dict_get claims ''from'' = Some (JStr rw)"
      "canonicalize_identifier rw = Inr (d_sender d)"
      using pp by (auto simp: pre_parse_Inr_iff)
    moreover from this cl have "v_Identifier (JStr rw) = FOk (e_sender (d_envelope d))"
      by (auto simp: EnvelopePayload_model_validate_def validated_Inr_iff v_EnvelopePayload_def fap_FOk_iff
          required_field_FOk_iff matched_key_def)
    ultimately show ?thesis by (simp add: v_Identifier_def res_simps)
  qed
  moreover have "now = process_clock s" using now by (simp add: time_def process_clock_def)
  moreover note resolve_sender_authentic [OF res [unfolded P_def]]
  ultimately show ?thesis
    using pp hash env by (intro exI [of _ jws] exI [of _ msg] exI [of _ "public_bytes key"])
      (auto simp: pre_parse_Inr_iff)
qed

section \<open>Direct mode, end to end\<close>

lemma public_key_canonical:
  assumes "parse_public_key v = Inr b"
  shows "is_public_key_identifier v" "canonicalize_identifier v = Inr v"
proof -
  have v: "length b = 32" "v = encode_multibase_z (ED25519_PUB_MULTICODEC @ b)"
    using assms by (simp_all add: parse_public_key_Inr_iff)
  have "set v \<subseteq> insert (CHR ''z'') (set BASE58_ALPHABET)"
    using b58_digits_less [of _ "from_bytes (ED25519_PUB_MULTICODEC @ b)"] alphabet_length
    by (auto simp: v(2) encode_multibase_z_def b58encode_digits dest!: in_set_replicate [THEN iffD1])
  moreover have "CHR ''@'' \<notin> insert (CHR ''z'') (set BASE58_ALPHABET)" by code_simp
  moreover have "prefix ''z6Mk'' v"
    using encode_multibase_z6Mk [OF v(1)] by (simp add: v(2) with_multicodec_def)
  ultimately have pk: "is_public_key_identifier v" by (auto simp: is_public_key_identifier_def)
  then show "is_public_key_identifier v" .
  show "canonicalize_identifier v = Inr v"
    using pk prefix_not_at [OF pk] v by (simp add: canonicalize_identifier_def) (auto simp: validate_multibase_pk_Inr_iff)
qed

lemma hash_pattern:
  assumes "compute_msg_hash L m = Inr h" "\<And>b. sha256 L b \<noteq> []"
  shows "msg_hash_pattern h"
proof -
  obtain t where h: "h = ''sha256:'' @ b64u (sha256 L t)"
    using assms(1) by (auto simp: compute_msg_hash_def bind_Inr_iff)
  have "is_alnum_ascii (b64_char i) \<or> b64_char i = CHR ''_'' \<or> b64_char i = CHR ''-''" if "i < 64" for i
    using that by (auto simp: b64_char_def is_alnum_ascii_def Let_def)
  then have "list_all (\<lambda>c. is_alnum_ascii c \<or> c = CHR ''_'' \<or> c = CHR ''-'') (b64u (sha256 L t))"
    using sextets_less [of "map unat (sha256 L t)"] by (auto simp: b64u_eq list_all_iff)
  then show ?thesis using assms(2) by (simp add: msg_hash_pattern_def h)
qed

lemma minted_message_received:
  fixes L dns get cfg
  defines "P \<equiv> memory_pipeline L dns get cfg"
  assumes b: "build_and_sign_message L msg template key = Inr built"
    and x: "ENVELOPE_EXTENSION_URI \<in> set (extensions msg)" "count_list (envelope_jws built) (CHR ''.'') = 2"
    and wf: "distinct ([''messageId'', ''role'', ''parts'', ''contextId'', ''taskId'', ''extensions'', ''metadata'']
      @ map fst (a_extra msg))"
    and key: "private_raw key = Some sk" "parse_public_key (e_sender template) = Inr (pk_of_seed L sk)"
      "ed_load L (pk_of_seed L sk) = Inr ()"
    and lib: "\<forall>i. as_int L (JInt i) = Some i" "\<forall>b. sha256 L b \<noteq> []"
      "jwt_encodes L (envelope_claims (envelope_payload built)) sk (envelope_header (envelope_payload built))"
    and env: "envelope_wf template" "e_recipient template = subject cfg" "e_creds template = []"
    and now: "process_valid w s" "process_clock s - leeway_seconds cfg \<le> e_exp template"
      "e_iat template \<le> process_clock s + leeway_seconds cfg"
    and fresh: "message_id msg \<noteq> ''''" "process_deadline s (e_sender template, message_id msg) = None"
    and contact: "e_sender template \<in> process_members s"
  shows "\<exists>s'. receive L P (JObj [(''message'', JObj (message built))]) s =
      (Inr \<lparr>route = Inbox, d_sender = e_sender template, d_envelope = envelope_payload built, auto_added_contact = False\<rparr>, s')"
proof -
  note parts = built_message_parts [OF b x wf]
  obtain h where h: "compute_msg_hash L (to_wire msg) = Inr h" and p: "envelope_payload built = template\<lparr>e_msg_hash := h\<rparr>"
    using parts(2) by blast
  have sel: "e_sender (envelope_payload built) = e_sender template" "e_recipient (envelope_payload built) = subject cfg"
    "e_exp (envelope_payload built) = e_exp template" "e_iat (envelope_payload built) = e_iat template"
    "e_creds (envelope_payload built) = []" using env p by simp_all
  have wfp: "envelope_wf (envelope_payload built)"
    using env(1) hash_pattern [OF h] lib(2) by (simp add: p envelope_wf_def)
  let ?vk = "\<lparr>public_bytes = pk_of_seed L sk, private_raw = None\<rparr>"
  have mint: "mint_envelope L (envelope_payload built) key = Inr (envelope_jws built)" using parts(1) by blast
  have ver: "verify_envelope L 0 (envelope_jws built) ?vk (subject cfg) (Some (process_clock s)) (leeway_seconds cfg)
      = Inr (envelope_payload built)"
    using minted_envelope_verifies [OF mint key(1) wfp lib(1,3), of ?vk "process_clock s" "leeway_seconds cfg" 0]
      key(3) now sel by simp
  note pk = public_key_canonical [OF key(2)]
  have "dict_get (envelope_claims (envelope_payload built)) ''from'' = Some (JStr (e_sender template))"
    "dict_get (envelope_claims (envelope_payload built)) ''to'' = Some (JStr (subject cfg))"
    using sel by (simp_all add: envelope_claims_eq [OF wfp] base_claims_def)
  moreover obtain hd where "jwt_header L (envelope_jws built) = Inr hd" "header_is hd ''kid'' (e_sender template)"
    "jwt_claims L (envelope_jws built) = Inr (envelope_claims (envelope_payload built))"
    using lib(3) mint_envelope_Inr(3) [OF mint key(1)] sel
    by (auto simp: jwt_encodes_def header_is_def envelope_header_def)
  moreover have "canonicalize_identifier (subject cfg) = Inr (subject cfg)"
    using env(1,2) by (simp add: envelope_wf_def)
  ultimately have parse: "pre_parse L cfg (JObj [(''message'', JObj (message built))])
      = Inr (envelope_jws built, message built, e_sender template)"
    using parts(1) pk(2) by (auto simp: pre_parse_Inr_iff)
  have res: "resolve_sender L P (e_sender template) s = Inr (?vk, None)"
    using pk(1) key parse_public_key_32 [OF key(2)] by (simp add: resolve_sender_def from_public_bytes_def)
  have ids: "dict_get (message built) ''messageId'' = Some (JStr (message_id msg))"
    "context_id_of (message built) = Inr (context_id msg)"
    using parts(3) to_wire_metadata [OF wf] by (auto simp: context_id_of_def split: option.splits)
  show ?thesis
    unfolding P_def
    by (rule receive_contact [OF now(1) parse res [unfolded P_def] ver _ ids(1) fresh sel(5) ids(2) _ contact,
          where same = False])
      (use parts(1) in \<open>simp_all add: same_provider_def\<close>)
qed

text \<open>
  C10: an honest message from a contact arrives: what a direct-mode contact builds and signs with its own
  key, addressed to this subject, and delivers while the envelope is current, is accepted into the
  inbox with exactly the envelope that was signed, unless that message id was received before.
\<close>

theorem contact_message_delivered:
  fixes L dns get cfg
  defines "P \<equiv> memory_pipeline L dns get cfg"
  assumes "build_and_sign_message L msg template key = Inr built"
    and "ENVELOPE_EXTENSION_URI \<in> set (extensions msg)" "count_list (envelope_jws built) (CHR ''.'') = 2"
    and "distinct ([''messageId'', ''role'', ''parts'', ''contextId'', ''taskId'', ''extensions'', ''metadata'']
      @ map fst (a_extra msg))"
    and "private_raw key = Some sk" "parse_public_key (e_sender template) = Inr (pk_of_seed L sk)"
      "ed_load L (pk_of_seed L sk) = Inr ()"
    and "\<forall>i. as_int L (JInt i) = Some i" "\<forall>b. sha256 L b \<noteq> []"
      "jwt_encodes L (envelope_claims (envelope_payload built)) sk (envelope_header (envelope_payload built))"
    and "envelope_wf template" "e_recipient template = subject cfg" "e_creds template = []"
    and "process_valid w s" "process_clock s - leeway_seconds cfg \<le> e_exp template"
      "e_iat template \<le> process_clock s + leeway_seconds cfg"
    and "message_id msg \<noteq> ''''" "process_deadline s (e_sender template, message_id msg) = None"
    and "e_sender template \<in> process_members s"
  shows "\<exists>s'. receive L P (JObj [(''message'', JObj (message built))]) s =
      (Inr \<lparr>route = Inbox, d_sender = e_sender template, d_envelope = envelope_payload built, auto_added_contact = False\<rparr>, s')"
  unfolding P_def by (rule minted_message_received [OF assms(2-)])

subsection \<open>A concrete run\<close>

definition ex_hash_lib :: lib where
  "ex_hash_lib = toy_lib\<lparr>sha256 := (\<lambda>b. 0 # b)\<rparr>"

definition ex_template :: EnvelopePayload where
  "ex_template = ex_envelope\<lparr>e_sender := ex_key\<rparr>"

definition ex_signed_env :: EnvelopePayload where
  "ex_signed_env = ex_template\<lparr>e_msg_hash := (case compute_msg_hash ex_hash_lib (to_wire ex_outbound) of Inr h \<Rightarrow> h | Inl _ \<Rightarrow> '''')\<rparr>"

definition ex_rcv_lib :: lib where
  "ex_rcv_lib =
     ex_hash_lib\<lparr>ed_verify := (\<lambda>pk sig m. pk = ex_seed \<and> m = map byte_of_char ''aGQ.cGw''),
                 jwt_encode := (\<lambda>c s h. Inr ''aGQ.cGw.c2ln''),
                 jwt_header := (\<lambda>_. Inr (envelope_header ex_signed_env)),
                 jwt_claims := (\<lambda>_. Inr (envelope_claims ex_signed_env))\<rparr>"

definition ex_config :: ReceiverConfig where
  "ex_config = \<lparr>subject = ''bob@corp.example'', trust_store = \<lparr>entries = []\<rparr>, policy = default_policy,
     same_provider_org = False, auto_add_lookback_seconds = AUTO_ADD_LOOKBACK_DEFAULT, leeway_seconds = 60\<rparr>"

definition ex_process :: process where
  "ex_process = (new_process (\<lambda>n. 1100 + int n))\<lparr>contact_graph := \<lparr>cg_contacts = {ex_key}, cg_outbound = []\<rparr>\<rparr>"

abbreviation ex_pipeline :: "process ReceiverPipeline" where
  "ex_pipeline \<equiv> memory_pipeline ex_rcv_lib (\<lambda>_ _. Inr []) (\<lambda>_ _ _. raise (Lib HTTPError) '''') ex_config"

lemma ex_process_valid: "process_valid (\<lambda>n. 1100 + int n) ex_process"
  by (simp add: ex_process_def new_process_def process_valid_def mono_def)

lemma ex_rcv_signed: "signed_by ex_rcv_lib ''aGQ.cGw.c2ln'' ex_seed"
  using ex_env_signed by (simp add: signed_by_def ex_rcv_lib_def ex_env_lib_def)

lemma ex_outbound_wf:
  "ENVELOPE_EXTENSION_URI \<in> set (extensions ex_outbound)" "a_extra ex_outbound = []"
  "metadata ex_outbound = [(''trace'', JInt 7)]" "message_id ex_outbound \<noteq> ''''" "json_wf (JObj (to_wire ex_outbound))"
  by (simp_all add: ex_outbound_def build_outbound_message_def to_wire_def A2AMessage_dump_def
        opt_member_def dict_update_def not_none_def id_or_new_def)

lemma ex_hash: "\<exists>h. compute_msg_hash ex_hash_lib (to_wire ex_outbound) = Inr h"
proof -
  have "\<exists>i. canonical_input (to_wire ex_outbound) = Inr i \<and> no_floats (JObj i)"
    by (simp add: canonical_input_def ex_outbound_def build_outbound_message_def to_wire_def A2AMessage_dump_def
        opt_member_def dict_update_def not_none_def id_or_new_def HASHED_KEYS_def List.map_filter_simps
        ENVELOPE_EXTENSION_URI_def)
  then show ?thesis using jcs_defined by (fastforce simp: compute_msg_hash_def bind_Inr_iff)
qed

lemma ex_built:
  obtains built where
    "build_and_sign_message ex_rcv_lib ex_outbound ex_template \<lparr>public_bytes = ex_seed, private_raw = Some ex_seed\<rparr> = Inr built"
    "envelope_jws built = ''aGQ.cGw.c2ln''" "envelope_payload built = ex_signed_env" "json_wf (JObj (message built))"
proof -
  let ?k = "\<lparr>public_bytes = ex_seed, private_raw = Some ex_seed\<rparr>"
  obtain h where h: "compute_msg_hash ex_hash_lib (to_wire ex_outbound) = Inr h" using ex_hash by blast
  then have h': "compute_msg_hash ex_rcv_lib (to_wire ex_outbound) = Inr h"
    by (simp add: compute_msg_hash_def ex_rcv_lib_def)
  have p: "ex_template\<lparr>e_msg_hash := h\<rparr> = ex_signed_env" by (simp add: ex_signed_env_def h)
  have mint: "mint_envelope ex_rcv_lib ex_signed_env ?k = Inr ''aGQ.cGw.c2ln''"
    by (simp add: mint_envelope_def ex_signed_env_def ex_template_def ex_envelope_def ENV_MAX_LIFETIME_SECONDS_def
        sign_jwt_def private_key_def ex_rcv_lib_def)
  have md: "dict_get (to_wire ex_outbound) ''metadata'' = Some (JObj [(''trace'', JInt 7)])"
    using to_wire_metadata [of ex_outbound] ex_outbound_wf by simp
  have "json_wf (JObj (dict_set ''metadata'' (JObj (dict_set ENVELOPE_EXTENSION_URI (JStr ''aGQ.cGw.c2ln'') [(''trace'', JInt 7)]))
      (to_wire ex_outbound)))"
    by (simp add: ex_outbound_def build_outbound_message_def to_wire_def A2AMessage_dump_def
        opt_member_def dict_update_def not_none_def id_or_new_def ENVELOPE_EXTENSION_URI_def)
  then show thesis
    using h' mint md p by (intro that) (auto simp: build_and_sign_message_def metadata_of_def Let_def)
qed

lemma ex_lib:
  "\<forall>i. as_int ex_rcv_lib (JInt i) = Some i" "\<forall>b. sha256 ex_rcv_lib b \<noteq> []" "pk_of_seed ex_rcv_lib ex_seed = ex_seed"
  "ed_load ex_rcv_lib ex_seed = Inr ()"
  "jwt_encodes ex_rcv_lib (envelope_claims ex_signed_env) ex_seed (envelope_header ex_signed_env)"
proof -
  show lib: "\<forall>i. as_int ex_rcv_lib (JInt i) = Some i" "\<forall>b. sha256 ex_rcv_lib b \<noteq> []" "pk_of_seed ex_rcv_lib ex_seed = ex_seed"
    "ed_load ex_rcv_lib ex_seed = Inr ()" by (simp_all add: ex_rcv_lib_def ex_hash_lib_def toy_lib_def)
  show "jwt_encodes ex_rcv_lib (envelope_claims ex_signed_env) ex_seed (envelope_header ex_signed_env)"
    using ex_rcv_signed lib(3) by (simp add: jwt_encodes_def) (simp add: ex_rcv_lib_def)
qed

lemma ex_template_facts:
  "envelope_wf ex_template" "e_sender ex_template = ex_key" "e_recipient ex_template = subject ex_config"
  "e_creds ex_template = []" "e_exp ex_template = 1200" "e_iat ex_template = 1000" "leeway_seconds ex_config = 60"
proof -
  show "envelope_wf ex_template"
    using ex_envelope_wf public_key_canonical [OF ex_key_parses] by (simp add: envelope_wf_def ex_template_def)
qed (simp_all add: ex_template_def ex_envelope_def ex_config_def)

lemma ex_process_facts:
  "process_clock ex_process = 1100" "process_deadline ex_process k = None" "ex_key \<in> process_members ex_process"
  by (simp_all add: ex_process_def new_process_def process_clock_def process_deadline_def process_members_def)

lemmas ex_facts = ex_outbound_wf(2) ex_key_parses ex_lib(3,4,5) ex_template_facts(2-) ex_process_facts

theorem contact_message_delivered_witness:
  "\<exists>(built :: BuiltMessage) s'. receive ex_rcv_lib ex_pipeline (JObj [(''message'', JObj (message built))]) ex_process =
      (Inr \<lparr>route = Inbox, d_sender = ex_key, d_envelope = ex_signed_env, auto_added_contact = False\<rparr>, s')"
proof -
  obtain built where built: "build_and_sign_message ex_rcv_lib ex_outbound ex_template \<lparr>public_bytes = ex_seed, private_raw = Some ex_seed\<rparr> = Inr built"
    "envelope_jws built = ''aGQ.cGw.c2ln''" "envelope_payload built = ex_signed_env" "json_wf (JObj (message built))"
    by (rule ex_built)
  have "\<exists>s'. receive ex_rcv_lib ex_pipeline (JObj [(''message'', JObj (message built))]) ex_process =
      (Inr \<lparr>route = Inbox, d_sender = e_sender ex_template, d_envelope = envelope_payload built, auto_added_contact = False\<rparr>, s')"
    by (rule contact_message_delivered [OF built(1) ex_outbound_wf(1) _ _ _ _ _ ex_lib(1,2) _
          ex_template_facts(1,3,4) ex_process_valid _ _ ex_outbound_wf(4), where sk = ex_seed])
      (simp_all add: built ex_facts)
  then show ?thesis by (auto simp: built ex_facts)
qed

lemma ex_delivered:
  obtains built :: BuiltMessage and s' where
    "receive ex_rcv_lib ex_pipeline (JObj [(''message'', JObj (message built))]) ex_process =
      (Inr \<lparr>route = Inbox, d_sender = ex_key, d_envelope = ex_signed_env, auto_added_contact = False\<rparr>, s')"
    "extract_envelope_jws (JObj [(''message'', JObj (message built))]) = Inr (''aGQ.cGw.c2ln'', message built)"
    "json_wf (JObj (message built))"
proof -
  obtain built where built: "build_and_sign_message ex_rcv_lib ex_outbound ex_template \<lparr>public_bytes = ex_seed, private_raw = Some ex_seed\<rparr> = Inr built"
    "envelope_jws built = ''aGQ.cGw.c2ln''" "envelope_payload built = ex_signed_env" "json_wf (JObj (message built))"
    by (rule ex_built)
  have "\<exists>s'. receive ex_rcv_lib ex_pipeline (JObj [(''message'', JObj (message built))]) ex_process =
      (Inr \<lparr>route = Inbox, d_sender = e_sender ex_template, d_envelope = envelope_payload built, auto_added_contact = False\<rparr>, s')"
    by (rule minted_message_received [OF built(1) ex_outbound_wf(1) _ _ _ _ _ ex_lib(1,2) _
          ex_template_facts(1,3,4) ex_process_valid _ _ ex_outbound_wf(4), where sk = ex_seed])
      (simp_all add: built ex_facts)
  moreover have "extract_envelope_jws (JObj [(''message'', JObj (message built))]) = Inr (''aGQ.cGw.c2ln'', message built)"
    using built_message_parts(1) [OF built(1) ex_outbound_wf(1)] by (simp add: built ex_facts)
  ultimately show thesis using that [OF _ _ built(4)] by (auto simp: built ex_facts)
qed

theorem no_envelope_accepted_twice_witness:
  "\<exists>(built :: BuiltMessage) d s1 e.
     receive ex_rcv_lib ex_pipeline (JObj [(''message'', JObj (message built))]) ex_process = (Inr d, s1)
     \<and> fst (receive ex_rcv_lib ex_pipeline (JObj [(''message'', JObj (message built))]) (s1\<lparr>tick := tick s1 + 5000\<rparr>)) = Inl e"
proof -
  obtain built :: BuiltMessage and s' where r: "receive ex_rcv_lib ex_pipeline (JObj [(''message'', JObj (message built))]) ex_process =
      (Inr \<lparr>route = Inbox, d_sender = ex_key, d_envelope = ex_signed_env, auto_added_contact = False\<rparr>, s')"
    and x: "extract_envelope_jws (JObj [(''message'', JObj (message built))]) = Inr (''aGQ.cGw.c2ln'', message built)"
    and wf: "json_wf (JObj (message built))"
    by (rule ex_delivered)
  have "(server_step ex_rcv_lib ex_pipeline owner_step)\<^sup>*\<^sup>* s' (s'\<lparr>tick := tick s' + 5000\<rparr>)"
    by (intro r_into_rtranclp server_step.other owner_step.idle)
  moreover have "no_collision ex_rcv_lib (message built) (message built)" by (auto simp: no_collision_def)
  moreover have "\<forall>n. 1100 + int (Suc n) < 1100 + int n + (300 - 2 * leeway_seconds ex_config)"
    by (simp add: ex_config_def)
  ultimately have "\<exists>e. fst (receive ex_rcv_lib ex_pipeline (JObj [(''message'', JObj (message built))]) (s'\<lparr>tick := tick s' + 5000\<rparr>)) = Inl e"
    by (intro no_envelope_accepted_twice [OF ex_process_valid r _ x x wf wf])
  with r show ?thesis by blast
qed

theorem accepted_is_authentic_witness:
  "parse_public_key (e_sender ex_signed_env) = Inr ex_seed \<and> e_recipient ex_signed_env = subject ex_config"
proof -
  obtain built :: BuiltMessage and s' where r: "receive ex_rcv_lib ex_pipeline (JObj [(''message'', JObj (message built))]) ex_process =
      (Inr \<lparr>route = Inbox, d_sender = ex_key, d_envelope = ex_signed_env, auto_added_contact = False\<rparr>, s')"
    by (rule ex_delivered)
  show ?thesis
    using accepted_is_authentic [OF r] public_key_canonical(1) [OF ex_key_parses] by (auto simp: ex_key_parses)
qed

section \<open>Classification\<close>

text \<open>The sender answers in a context in which this subject wrote to it within the look-back time.\<close>

definition expected_sender :: "ReceiverConfig \<Rightarrow> process \<Rightarrow> string option \<Rightarrow> string \<Rightarrow> bool" where
  "expected_sender cfg s cid sender =
     (case cid of
        None \<Rightarrow> False
      | Some c \<Rightarrow> c \<noteq> '''' \<and> (case process_outbound s (c, sender) of
                              None \<Rightarrow> False
                            | Some t \<Rightarrow> process_clock s - auto_add_lookback_seconds cfg \<le> t))"

lemma classify_memory:
  "classify (memory_pipeline L dns get cfg) sender rcd creds cid s = (r, s') \<Longrightarrow>
     r = bind (same_provider cfg rcd) (\<lambda>same.
           if same \<or> sender \<in> process_members s then Inr (Inbox, False)
           else if expected_sender cfg s cid sender then Inr (Inbox, True)
           else stranger_decision cfg sender creds)
     \<and> process_members s' = (if r = Inr (Inbox, True) then insert sender (process_members s) else process_members s)"
  by (cases "same_provider cfg rcd")
    (auto simp: classify_def expected_sender_def memory_contacts_def contact_is_contact_def contact_add_contact_def
      contact_has_recent_outbound_def process_members_def process_outbound_def process_clock_def
      stranger_decision_def Let_def raise_def sbind_def sthen_def sres_def sret_def sget_def supd_def time_def
      split: option.splits if_splits)

text \<open>
  The terms of the policy, stated without the code's own decisions: the sender's provider is the receiver's, where that is enabled; and
  one credential is of a kind that strangers may show, from an issuer that the trust store lists for that kind.
\<close>

definition own_provider :: "ReceiverConfig \<Rightarrow> ProviderRecord option \<Rightarrow> bool" where
  "own_provider cfg rcd =
     (same_provider_org cfg \<and> is_shadowname (subject cfg)
      \<and> (\<exists>p name. rcd = Some p \<and> split_shadowname (subject cfg) = Inr (name, domain p)))"

definition admitted_stranger :: "ReceiverConfig \<Rightarrow> VerifiedCredential list \<Rightarrow> bool" where
  "admitted_stranger cfg creds =
     (\<exists>c\<in>set creds. \<exists>target. \<exists>entry\<in>set (entries (trust_store cfg)).
        c_kind (payload c) \<in> set (from_stranger (policy cfg))
        \<and> canonicalize_issuer_or_org_identifier (c_iss (payload c)) = Inr target
        \<and> te_issuer entry = target \<and> c_kind (payload c) \<in> set (accept entry))"

lemma same_provider_own:
  "(is_shadowname (subject cfg) \<Longrightarrow> \<exists>name. validate_shadowname (subject cfg) = Inr name) \<Longrightarrow>
     same_provider cfg rcd = Inr (own_provider cfg rcd)"
  by (auto simp: same_provider_def own_provider_def split_shadowname_def bind_def split: option.split prod.split)

lemma stranger_decision_cases:
  "stranger_decision cfg sender creds =
     (if from_stranger (policy cfg) = [] then raise (Wire PolicyError) (''stranger '' @ repr sender @ '' rejected by policy'')
      else if admitted_stranger cfg creds then Inr (StrangerReview, False)
      else if creds \<noteq> []
      then raise (Wire CredsRejectedError) (''no presented credential satisfies stranger policy for '' @ repr sender)
      else raise (Wire CredsRequiredError) (''stranger '' @ repr sender @ '' presented no credentials''))"
  unfolding stranger_decision_def admitted_stranger_def required_kinds_def Let_def satisfies_policy_def satisfies_loop_iff
    is_credential_trusted_def accepts_iff by auto

text \<open>
  C14: who gets where, for every sender and every outcome, when the receiver's own name is well formed. A sender of the own
  provider (where enabled) and a contact reach the inbox and nothing is recorded. Any other sender that answers a
  recent outbound message reaches the inbox and becomes a contact. Everyone else is a stranger, who is let through to review exactly
  when one presented or cached credential is of a kind that strangers may show and comes from an issuer listed for that
  kind; a stranger is refused by policy exactly when no kind is admitted, for its credentials when it has some
  and none will do, and for lack of credentials when it has none. Nobody else becomes a contact.
\<close>

theorem classification:
  assumes "classify (memory_pipeline L dns get cfg) sender rcd creds cid s = (r, s')"
    and "is_shadowname (subject cfg) \<Longrightarrow> \<exists>name. validate_shadowname (subject cfg) = Inr name"
  shows "let known = (own_provider cfg rcd \<or> sender \<in> process_members s);
             expected = expected_sender cfg s cid sender;
             admitted = admitted_stranger cfg creds;
             kinds = from_stranger (policy cfg) in
    (r = Inr (Inbox, False) \<longleftrightarrow> known)
    \<and> (r = Inr (Inbox, True) \<longleftrightarrow> \<not> known \<and> expected)
    \<and> (r = Inr (StrangerReview, False) \<longleftrightarrow> \<not> known \<and> \<not> expected \<and> admitted)
    \<and> ((\<exists>m. r = Inl (Exn (Wire PolicyError) m)) \<longleftrightarrow> \<not> known \<and> \<not> expected \<and> kinds = [])
    \<and> ((\<exists>m. r = Inl (Exn (Wire CredsRejectedError) m)) \<longleftrightarrow> \<not> known \<and> \<not> expected \<and> kinds \<noteq> [] \<and> \<not> admitted \<and> creds \<noteq> [])
    \<and> ((\<exists>m. r = Inl (Exn (Wire CredsRequiredError) m)) \<longleftrightarrow> \<not> known \<and> \<not> expected \<and> kinds \<noteq> [] \<and> creds = [])
    \<and> process_members s' = (if \<not> known \<and> expected then insert sender (process_members s) else process_members s)"
proof -
  have r: "r = (if own_provider cfg rcd \<or> sender \<in> process_members s then Inr (Inbox, False)
      else if expected_sender cfg s cid sender then Inr (Inbox, True) else stranger_decision cfg sender creds)"
    and members: "process_members s' = (if r = Inr (Inbox, True) then insert sender (process_members s) else process_members s)"
    using classify_memory [OF assms(1)] same_provider_own [OF assms(2), of rcd] by simp_all
  have "admitted_stranger cfg creds \<Longrightarrow> from_stranger (policy cfg) \<noteq> [] \<and> creds \<noteq> []"
    by (auto simp: admitted_stranger_def)
  then show ?thesis
    unfolding Let_def members unfolding r stranger_decision_cases by (auto simp: raise_def)
qed

text \<open>A sender to whom the subject wrote in this context a moment ago.\<close>

definition ex_expecting :: process where
  "ex_expecting = (new_process (\<lambda>n. 1100 + int n))\<lparr>contact_graph := \<lparr>cg_contacts = {}, cg_outbound = [((''c1'', ex_key), 1090)]\<rparr>\<rparr>"

theorem classification_witness:
  "\<exists>s'. classify (memory_pipeline toy_lib (\<lambda>_ _. Inr []) (\<lambda>_ _ _. raise (Lib HTTPError) '''') ex_config) ex_key None [] (Some ''c1'') ex_expecting
          = (Inr (Inbox, True), s') \<and> process_members s' = {ex_key}"
proof -
  obtain r s' where c: "classify (memory_pipeline toy_lib (\<lambda>_ _. Inr []) (\<lambda>_ _ _. raise (Lib HTTPError) '''') ex_config) ex_key None []
      (Some ''c1'') ex_expecting = (r, s')"
    by force
  have "validate_shadowname (subject ex_config) = Inr ''bob@corp.example''" unfolding ex_config_def by code_simp
  then have "\<exists>name. validate_shadowname (subject ex_config) = Inr name" by blast
  note w = classification [OF c this, unfolded Let_def]
  have "\<not> own_provider ex_config None" by (simp add: own_provider_def)
  moreover have members: "process_members ex_expecting = {}"
    by (simp add: ex_expecting_def new_process_def process_members_def)
  moreover have "expected_sender ex_config ex_expecting (Some ''c1'') ex_key"
    by (simp add: expected_sender_def ex_expecting_def new_process_def process_outbound_def process_clock_def ex_config_def
        AUTO_ADD_LOOKBACK_DEFAULT_def)
  ultimately have "r = Inr (Inbox, True)" "process_members s' = {ex_key}" using w by simp_all
  with c show ?thesis by blast
qed

text \<open>
  The receiver never asks to whom a credential was issued: whether a presented credential is valid
  does not depend on the sender that presents it, and classification gives the same outcome for
  the same credentials issued to anyone else. A sender can present another subject's credential.
\<close>

theorem credential_subject_ignored:
  fixes L dns get cfg
  defines "P \<equiv> memory_pipeline L dns get cfg"
  shows "fst (validate_one L P sender jws s) = fst (validate_one L P sender' jws s)
    \<and> classify P sender rcd (map (\<lambda>c. c\<lparr>payload := (payload c)\<lparr>c_sub := other_subject\<rparr>\<rparr>) creds) cid
        = classify P sender rcd creds cid"
proof -
  have "fst (validate_one L P sender jws s) = fst (validate_one L P sender' jws s)"
    by (simp add: validate_one_def P_def memory_credentials_def credential_cache_add_def sbind_def sthen_def
        supd_def sret_def srewrap_def sres_def time_def split: sum.splits)
  note val = this
  have "satisfies_loop required ts (map (\<lambda>c. c\<lparr>payload := (payload c)\<lparr>c_sub := other_subject\<rparr>\<rparr>) creds)
      = satisfies_loop required ts creds" for required ts
    by (induction creds) (simp_all add: is_credential_trusted_def)
  then have "stranger_decision (config P) sender (map (\<lambda>c. c\<lparr>payload := (payload c)\<lparr>c_sub := other_subject\<rparr>\<rparr>) creds)
      = stranger_decision (config P) sender creds"
    by (simp add: stranger_decision_def Let_def satisfies_policy_def)
  then show ?thesis using val by (simp add: classify_def cong: if_cong)
qed

end
