(* ===== verification/Receiver_Async.thy ===== *)
theory Receiver_Async
  imports Receiver
begin

text \<open>
  \<open>AsyncReceiverPipeline\<close> and the async in-memory stores, from \<open>python-sdk/src/shadownet/receiver.py\<close>. Shown
  here: run alone, the async pipeline decides as the synchronous one; two concurrent runs over
  stores that suspend can both accept the same envelope.
\<close>

section \<open>The async pipeline\<close>

record 's AsyncReceiverPipeline =
  a_config :: ReceiverConfig
  a_seen :: "string \<Rightarrow> string \<Rightarrow> ('s, bool) task"
  a_remember :: "string \<Rightarrow> string \<Rightarrow> int \<Rightarrow> ('s, unit) task"
  a_is_contact :: "string \<Rightarrow> ('s, bool) task"
  a_has_recent_outbound :: "string \<Rightarrow> string \<Rightarrow> int \<Rightarrow> ('s, bool) task"
  a_add_contact :: "string \<Rightarrow> ('s, unit) task"
  a_for_sender :: "string \<Rightarrow> ('s, VerifiedCredential list) task"
  a_cache :: "string \<Rightarrow> VerifiedCredential \<Rightarrow> int \<Rightarrow> ('s, unit) task"
  a_provider_lookup :: "string \<Rightarrow> ('s, ProviderRecord) task"
  a_fetch_agent_card :: "string \<Rightarrow> ProviderRecord \<Rightarrow> ('s, FetchedAgentCard) task"
  a_revocation_check :: "VerifiedCredential \<Rightarrow> ('s, unit) task"
  a_now :: "('s, int) st"

definition aresolve_sender ::
  "lib \<Rightarrow> 's AsyncReceiverPipeline \<Rightarrow> string \<Rightarrow> ('s, Ed25519KeyPair \<times> ProviderRecord option) task"
where
  "aresolve_sender L A sender =
     (if is_public_key_identifier sender
      then Ret (bind (parse_public_key sender) (\<lambda>b. bind (from_public_bytes L b) (\<lambda>key. Inr (key, None))))
      else
        tbind (trewrap (tbind (Ret (split_shadowname sender)) (\<lambda>(_, sender_provider). a_provider_lookup A sender_provider))
                (Sdk ProviderResolutionError) (Wire SignatureError)
                (\<lambda>m. ''could not resolve sender provider: '' @ m)) (\<lambda>rcd.
        tbind (trewrap (a_fetch_agent_card A sender rcd) (Sdk AgentCardError) (Wire SignatureError)
                (\<lambda>m. ''sender AgentCard verification failed: '' @ m)) (\<lambda>crd.
        Ret (bind (parse_public_key (shadow_public_key crd)) (\<lambda>b.
             bind (from_public_bytes L b) (\<lambda>key. Inr (key, Some rcd)))))))"

definition aresolve_issuer_key :: "'s AsyncReceiverPipeline \<Rightarrow> string \<Rightarrow> ('s, string) task" where
  "aresolve_issuer_key A iss =
     (if is_public_key_identifier iss then Ret (Inr iss)
      else
        tbind (trewrap (a_provider_lookup A iss) (Sdk ProviderResolutionError) (Sdk CredentialError)
                 (\<lambda>m. ''could not resolve issuer '' @ repr iss @ '': '' @ m)) (\<lambda>rcd.
          (case provider_keys rcd of
             [] \<Rightarrow> Ret (credential_error (''issuer '' @ repr iss @ '' has no provider key''))
           | k # _ \<Rightarrow> Ret (Inr k))))"

definition acheck_issuer_authorized_for_org :: "'s AsyncReceiverPipeline \<Rightarrow> string \<Rightarrow> string \<Rightarrow> ('s, unit) task" where
  "acheck_issuer_authorized_for_org A iss org =
     (if iss = org then Ret (Inr ())
      else if is_public_key_identifier iss \<or> is_public_key_identifier org
      then Ret (credential_error (keyed_issuer_message iss org))
      else
        tbind (Ret (is_subdomain_of iss org)) (\<lambda>sub.
          if sub then Ret (Inr ())
          else
            tbind (trewrap (a_provider_lookup A org) (Sdk ProviderResolutionError) (Sdk CredentialError)
                     (\<lambda>m. ''could not verify issuer authorization for '' @ repr org @ '': '' @ m))
              (\<lambda>org_record.
                Ret (if lower iss \<in> set (map lower (delegates org_record)) then Inr ()
                     else credential_error (''issuer '' @ repr iss @ '' is not authorized to attest for org '' @ repr org)))))"

definition avalidate_one :: "lib \<Rightarrow> 's AsyncReceiverPipeline \<Rightarrow> string \<Rightarrow> string \<Rightarrow> ('s, VerifiedCredential) task" where
  "avalidate_one L A sender jws =
     tbind (atomic (a_now A)) (\<lambda>now.
     tbind (trewrap (averify_credential L (\<lambda>_. Ret (Inr [])) 0 jws (Some now) (leeway_seconds (a_config A))
                       (Some (aresolve_issuer_key A)) (Some (acheck_issuer_authorized_for_org A)))
              (Sdk CredentialError) (Wire CredsRejectedError) cred_rejected) (\<lambda>cred.
     tbind (trewrap (a_revocation_check A cred)
              (Sdk StatusListError) (Wire CredsRejectedError) cred_unverifiable) (\<lambda>_.
     tbind (atomic (a_now A)) (\<lambda>now'.
     tbind (a_cache A sender cred
              (min (c_exp (payload cred) - CREDENTIAL_CACHE_LEEWAY) (now' + CREDENTIAL_CACHE_DEFAULT_TTL))) (\<lambda>_.
     Ret (Inr cred))))))"

fun avalidate_loop :: "lib \<Rightarrow> 's AsyncReceiverPipeline \<Rightarrow> string \<Rightarrow> string list \<Rightarrow> ('s, VerifiedCredential list) task" where
  "avalidate_loop L A sender [] = Ret (Inr [])"
| "avalidate_loop L A sender (jws # rest) =
     tbind (avalidate_one L A sender jws) (\<lambda>cred.
     tbind (avalidate_loop L A sender rest) (\<lambda>creds. Ret (Inr (cred # creds))))"

definition avalidate_creds ::
  "lib \<Rightarrow> 's AsyncReceiverPipeline \<Rightarrow> EnvelopePayload \<Rightarrow> string \<Rightarrow> ('s, VerifiedCredential list) task"
where
  "avalidate_creds L A envelope sender =
     (if e_creds envelope \<noteq> [] then avalidate_loop L A sender (e_creds envelope)
      else a_for_sender A sender)"

definition aclassify ::
  "'s AsyncReceiverPipeline \<Rightarrow> string \<Rightarrow> ProviderRecord option \<Rightarrow> VerifiedCredential list \<Rightarrow> string option \<Rightarrow> ('s, Route \<times> bool) task"
where
  "aclassify A sender sender_provider_record credentials cid =
     tbind (Ret (same_provider (a_config A) sender_provider_record)) (\<lambda>same.
       if same then Ret (Inr (Inbox, False))
       else
     tbind (a_is_contact A sender) (\<lambda>contact.
       if contact then Ret (Inr (Inbox, False))
       else
     tbind (case cid of
              None \<Rightarrow> Ret (Inr False)
            | Some ctx \<Rightarrow> (if ctx = '''' then Ret (Inr False)
                          else a_has_recent_outbound A ctx sender (auto_add_lookback_seconds (a_config A))))
       (\<lambda>recent.
       if recent then tbind (a_add_contact A sender) (\<lambda>_. Ret (Inr (Inbox, True)))
       else Ret (stranger_decision (a_config A) sender credentials))))"

definition areceive :: "lib \<Rightarrow> 's AsyncReceiverPipeline \<Rightarrow> json \<Rightarrow> ('s, AcceptedDecision) task" where
  "areceive L A request_body =
     tbind (Ret (pre_parse L (a_config A) request_body)) (\<lambda>(envelope_jws, msg, sender).
     tbind (aresolve_sender L A sender) (\<lambda>(sender_key, sender_provider_record).
     tbind (atomic (a_now A)) (\<lambda>now.
     tbind (Ret (map_envelope_error (verify_envelope L 0 envelope_jws sender_key (subject (a_config A))
                                       (Some now) (leeway_seconds (a_config A))))) (\<lambda>envelope.
     tbind (Ret (check_hash L msg envelope)) (\<lambda>_.
     tbind (Ret (message_id_of msg)) (\<lambda>mid.
     tbind (a_seen A sender mid) (\<lambda>dup.
       if dup then Ret (raise (Wire ReplayError) (replayed sender mid))
       else
     tbind (a_remember A sender mid REPLAY_CACHE_RETENTION) (\<lambda>_.
     tbind (avalidate_creds L A envelope sender) (\<lambda>sender_credentials.
     tbind (Ret (context_id_of msg)) (\<lambda>cid.
     tbind (aclassify A sender sender_provider_record sender_credentials cid) (\<lambda>(rt, auto_added).
     Ret (Inr \<lparr>route = rt, d_sender = sender, d_envelope = envelope, auto_added_contact = auto_added\<rparr>))))))))))))"

definition default_async_agent_card_fetcher ::
  "lib \<Rightarrow> 's http_aget \<Rightarrow> string \<Rightarrow> ProviderRecord \<Rightarrow> ('s, FetchedAgentCard) task"
where
  "default_async_agent_card_fetcher L aget shadowname rcd = afetch_and_verify_agent_card L aget shadowname rcd"

definition default_async_revocation_check :: "lib \<Rightarrow> 's http_aget \<Rightarrow> VerifiedCredential \<Rightarrow> ('s, unit) task" where
  "default_async_revocation_check L aget credential = acheck_revocation L aget credential None"

subsection \<open>The async in-memory stores\<close>

text \<open>Their coroutines contain no \<open>await\<close>, so each call runs without suspending.\<close>

definition areplay_seen :: "string \<Rightarrow> string \<Rightarrow> (process, bool) task" where
  "areplay_seen sender mid = atomic (replay_seen sender mid)"

definition areplay_remember :: "string \<Rightarrow> string \<Rightarrow> int \<Rightarrow> (process, unit) task" where
  "areplay_remember sender mid retention_seconds = atomic (replay_remember sender mid retention_seconds)"

definition acontact_is_contact :: "string \<Rightarrow> (process, bool) task" where
  "acontact_is_contact shadowname = atomic (contact_is_contact shadowname)"

definition acontact_add_contact :: "string \<Rightarrow> (process, unit) task" where
  "acontact_add_contact shadowname = atomic (contact_add_contact shadowname)"

definition acontact_remove_contact :: "string \<Rightarrow> (process, unit) task" where
  "acontact_remove_contact shadowname = atomic (contact_remove_contact shadowname)"

definition acontact_record_outbound :: "string \<Rightarrow> string \<Rightarrow> (process, unit) task" where
  "acontact_record_outbound cid peer = atomic (contact_record_outbound cid peer)"

definition acontact_has_recent_outbound :: "string \<Rightarrow> string \<Rightarrow> int \<Rightarrow> (process, bool) task" where
  "acontact_has_recent_outbound cid peer lookback_seconds = atomic (contact_has_recent_outbound cid peer lookback_seconds)"

definition acredential_for_sender :: "string \<Rightarrow> (process, VerifiedCredential list) task" where
  "acredential_for_sender sender = atomic (credential_for_sender sender)"

definition acredential_cache_add :: "string \<Rightarrow> VerifiedCredential \<Rightarrow> int \<Rightarrow> (process, unit) task" where
  "acredential_cache_add sender credential expires_at = atomic (credential_cache_add sender credential expires_at)"

text \<open>\<open>__init__\<close> with these stores and the default network callbacks.\<close>

definition amemory_pipeline ::
  "lib \<Rightarrow> (string \<Rightarrow> (process, rdata list) task) \<Rightarrow> process http_aget \<Rightarrow> ReceiverConfig \<Rightarrow> process AsyncReceiverPipeline"
where
  "amemory_pipeline L adns aget cfg =
     \<lparr>a_config = cfg, a_seen = areplay_seen, a_remember = areplay_remember, a_is_contact = acontact_is_contact,
      a_has_recent_outbound = acontact_has_recent_outbound, a_add_contact = acontact_add_contact,
      a_for_sender = acredential_for_sender, a_cache = acredential_cache_add,
      a_provider_lookup = alookup_provider_record L adns,
      a_fetch_agent_card = default_async_agent_card_fetcher L aget,
      a_revocation_check = default_async_revocation_check L aget, a_now = time\<rparr>"

section \<open>The async pipeline agrees with the synchronous one\<close>

text \<open>Every async callable, run alone, does what its synchronous sibling does.\<close>

definition siblings :: "'s AsyncReceiverPipeline \<Rightarrow> 's ReceiverPipeline \<Rightarrow> bool" where
  "siblings A P \<longleftrightarrow>
     a_config A = config P \<and> a_now A = p_now P
     \<and> (\<forall>x y. run (a_seen A x y) = seen (p_replay P) x y) \<and> (\<forall>x y n. run (a_remember A x y n) = remember (p_replay P) x y n)
     \<and> (\<forall>x. run (a_is_contact A x) = is_contact (p_contacts P) x)
     \<and> (\<forall>c x n. run (a_has_recent_outbound A c x n) = has_recent_outbound (p_contacts P) c x n)
     \<and> (\<forall>x. run (a_add_contact A x) = add_contact (p_contacts P) x)
     \<and> (\<forall>x. run (a_for_sender A x) = for_sender (p_credentials P) x)
     \<and> (\<forall>x c n. run (a_cache A x c n) = cache (p_credentials P) x c n)
     \<and> (\<forall>i. run (a_provider_lookup A i) = (\<lambda>s. (p_provider_lookup P s i, s)))
     \<and> (\<forall>n r. run (a_fetch_agent_card A n r) = (\<lambda>s. (p_fetch_agent_card P s n r, s)))
     \<and> (\<forall>c. run (a_revocation_check A c) = (\<lambda>s. (p_revocation_check P s c, s)))"

text \<open>Code that only looks at the state.\<close>

lemma sbind_look: "sbind (\<lambda>s. (f s, s)) (\<lambda>x s. (g x s, s)) = (\<lambda>s. (bind (f s) (\<lambda>x. g x s), s))"
  by (auto simp: sbind_def sthen_def sres_def fun_eq_iff split: sum.splits)

lemma srewrap_look: "srewrap (\<lambda>s. (f s, s)) c d m = (\<lambda>s. (rewrap (f s) c d m, s))"
  by (simp add: srewrap_def sthen_def sres_def)

lemma run_look:
  "run (Ret r) = (\<lambda>s. (r, s))"
  "run t = (\<lambda>s. (f s, s)) \<Longrightarrow> (\<And>x. run (h x) = (\<lambda>s. (g x s, s))) \<Longrightarrow> run (tbind t h) = (\<lambda>s. (bind (f s) (\<lambda>x. g x s), s))"
  "run t = (\<lambda>s. (f s, s)) \<Longrightarrow> run (trewrap t c d m) = (\<lambda>s. (rewrap (f s) c d m, s))"
  "(b \<Longrightarrow> run t = (\<lambda>s. (f s, s))) \<Longrightarrow> (\<not> b \<Longrightarrow> run t' = (\<lambda>s. (f' s, s)))
     \<Longrightarrow> run (if b then t else t') = (\<lambda>s. (if b then f s else f' s, s))"
  by (simp_all add: run_simps sbind_look srewrap_look) (simp add: sres_def)

lemma run_aresolve_issuer_key:
  "siblings A P \<Longrightarrow> run (aresolve_issuer_key A i) = (\<lambda>s. (resolve_issuer_key P s i, s))"
  unfolding aresolve_issuer_key_def resolve_issuer_key_def
  by (intro run_look) (auto simp: siblings_def run_look(1) split: list.splits)

lemma run_acheck_issuer:
  "siblings A P \<Longrightarrow> run (acheck_issuer_authorized_for_org A i g) = (\<lambda>s. (check_issuer_authorized_for_org P s i g, s))"
  unfolding acheck_issuer_authorized_for_org_def check_issuer_authorized_for_org_def
  by (intro run_look) (auto simp: siblings_def)

lemma run_aresolve_sender:
  "siblings A P \<Longrightarrow> run (aresolve_sender L A sender) = (\<lambda>s. (resolve_sender L P sender s, s))"
  unfolding aresolve_sender_def resolve_sender_def case_prod_unfold
  by (intro run_look) (auto simp: siblings_def)

lemma run_averify_credential:
  "siblings A P \<Longrightarrow>
     run (averify_credential L (\<lambda>_. Ret (Inr [])) 0 jws (Some now) lw (Some (aresolve_issuer_key A))
            (Some (acheck_issuer_authorized_for_org A)))
     = (\<lambda>s. (verify_credential L (\<lambda>_. Inr []) 0 jws (Some now) lw (Some (resolve_issuer_key P s))
               (Some (check_issuer_authorized_for_org P s)), s))"
  unfolding averify_credential_def verify_credential_def Let_def option.case
  by (intro run_look run_aresolve_issuer_key run_acheck_issuer)

lemma run_case_option [run_simps]:
  "run (case v of None \<Rightarrow> t | Some x \<Rightarrow> f x) = (case v of None \<Rightarrow> run t | Some x \<Rightarrow> run (f x))"
  by (cases v) simp_all

lemma sret_sres: "sret x = sres (Inr x)"
  by (simp add: sret_def sres_def)

lemma run_avalidate_loop:
  assumes "siblings A P"
  shows "run (avalidate_loop L A sender jwss) = validate_loop L P sender jwss"
proof (induction jwss)
  case (Cons jws jwss)
  have "run (avalidate_one L A sender jws) = validate_one L P sender jws"
    using assms
    by (simp add: avalidate_one_def validate_one_def run_simps run_averify_credential [OF assms] sret_sres)
      (simp add: siblings_def)
  then show ?case using Cons by (simp add: run_simps sret_sres)
qed (simp add: run_simps sret_sres)

lemma run_avalidate_creds:
  "siblings A P \<Longrightarrow> run (avalidate_creds L A env sender) = validate_creds L P env sender"
  by (simp add: avalidate_creds_def validate_creds_def run_simps run_avalidate_loop) (simp add: siblings_def)

lemma run_aclassify: "siblings A P \<Longrightarrow> run (aclassify A sender rcd creds cid) = classify P sender rcd creds cid"
  by (simp add: aclassify_def classify_def run_simps sret_sres sraise_def siblings_def cong: run_congs)

lemma run_areceive:
  assumes "siblings A P"
  shows "run (areceive L A body) = receive L P body"
proof -
  have "a_config A = config P" "a_now A = p_now P" "\<And>x y. run (a_seen A x y) = seen (p_replay P) x y"
    "\<And>x y n. run (a_remember A x y n) = remember (p_replay P) x y n"
    using assms by (simp_all add: siblings_def)
  then show ?thesis
    unfolding areceive_def receive_def case_prod_unfold
    by (simp add: run_simps sret_sres sraise_def run_aresolve_sender [OF assms] run_avalidate_creds [OF assms]
        run_aclassify [OF assms] cong: run_congs)
qed

lemma amemory_siblings:
  assumes dns: "\<And>n. run (adns n) = (\<lambda>s. (dns s n, s))" and get: "\<And>url h. run (aget url h) = (\<lambda>s. (get s url h, s))"
  shows "siblings (amemory_pipeline L adns aget cfg) (memory_pipeline L dns get cfg)"
proof -
  have "run (alookup_provider_record L adns i) = (\<lambda>s. (lookup_provider_record L (dns s) i, s))" for i
    by (auto simp: alookup_provider_record_def lookup_provider_record_def Let_def run_tthen sthen_def dns
        run_look(1) fun_eq_iff split: sum.splits)
  moreover have "run (default_async_agent_card_fetcher L aget n r) = (\<lambda>s. (default_agent_card_fetcher L (get s) n r, s))" for n r
    unfolding default_async_agent_card_fetcher_def default_agent_card_fetcher_def afetch_and_verify_agent_card_def
      fetch_and_verify_agent_card_def afetch_agent_card_json_def fetch_agent_card_json_def case_prod_unfold
    by (intro run_look get)
  moreover have "run (default_async_revocation_check L aget c) = (\<lambda>s. (default_revocation_check L (get s) c, s))" for c
    unfolding default_async_revocation_check_def default_revocation_check_def acheck_revocation_def
      check_revocation_def afetch_status_list_def fetch_status_list_def Let_def option.case case_prod_unfold
    by (intro run_look get)
  ultimately show ?thesis
    by (simp add: siblings_def amemory_pipeline_def memory_pipeline_def ReceiverPipeline_init_def run_simps
        areplay_seen_def areplay_remember_def acontact_is_contact_def acontact_has_recent_outbound_def
        acontact_add_contact_def acredential_for_sender_def acredential_cache_add_def memory_replay_def
        memory_contacts_def memory_credentials_def)
qed

text \<open>
  C16: the async receiver, run alone, decides and records exactly as the synchronous one: same outcome,
  same exception, same stores afterwards, for a network that answers both alike.
\<close>

theorem areceive_agrees:
  assumes "\<And>n. run (adns n) = (\<lambda>s. (dns s n, s))" "\<And>url h. run (aget url h) = (\<lambda>s. (get s url h, s))"
  shows "run (areceive L (amemory_pipeline L adns aget cfg) body) = receive L (memory_pipeline L dns get cfg) body"
  by (rule run_areceive [OF amemory_siblings [OF assms]])

theorem areceive_agrees_witness:
  "run (areceive toy_lib (amemory_pipeline toy_lib (\<lambda>n. suspending (sres (Inr []))) (\<lambda>url h. suspending (sraise (Lib HTTPError) '''')) ex_config) JNull)
     = receive toy_lib (memory_pipeline toy_lib (\<lambda>_ _. Inr []) (\<lambda>_ _ _. raise (Lib HTTPError) '''') ex_config) JNull"
  by (rule areceive_agrees) (simp_all add: run_simps sres_def sraise_def)

section \<open>Concurrent runs\<close>

text \<open>The pipeline over stores whose replay operations suspend before they take effect, as those of a database do.\<close>

definition suspending_pipeline ::
  "lib \<Rightarrow> (string \<Rightarrow> (process, rdata list) task) \<Rightarrow> process http_aget \<Rightarrow> ReceiverConfig \<Rightarrow> process AsyncReceiverPipeline"
where
  "suspending_pipeline L adns aget cfg =
     (amemory_pipeline L adns aget cfg)
       \<lparr>a_seen := (\<lambda>x y. suspending (replay_seen x y)), a_remember := (\<lambda>x y n. suspending (replay_remember x y n))\<rparr>"

lemma turn_simps:
  "turn (Ret r) s = (Ret r, s)"
  "turn (tbind (Ret r) f) s = (case r of Inl e \<Rightarrow> (Ret (Inl e), s) | Inr x \<Rightarrow> turn (f x) s)"
  "turn (tbind (atomic m) f) s = (case m s of (Inl e, s') \<Rightarrow> (Ret (Inl e), s') | (Inr x, s') \<Rightarrow> turn (f x) s')"
  "turn (tbind (suspending m) f) s = (tbind (atomic m) f, s)"
  by (simp_all add: tbind_def atomic_def suspending_def split: sum.splits prod.splits)

lemma tthen_assoc: "tthen (tthen t f) g = tthen t (\<lambda>r. tthen (f r) g)"
proof (induction t)
  case (Act h)
  have "map_prod id (\<lambda>t. tthen t g) (map_prod id (\<lambda>t. tthen t f) (h s)) = map_prod id (\<lambda>t. tthen t (\<lambda>r. tthen (f r) g)) (h s)" for s
    using Act [of "h s" "snd (h s)", OF rangeI] by (cases "h s") (auto simp: snds.simps)
  then show ?case by (simp add: fun_eq_iff)
qed simp_all

lemma tbind_assoc: "tbind (tbind t f) g = tbind t (\<lambda>x. tbind (f x) g)"
  unfolding tbind_def tthen_assoc by (rule arg_cong [where f = "tthen t"]) (auto split: sum.splits)

lemma tbind_Ret: "tbind (Ret (Inr x)) f = f x"
  by (simp add: tbind_def)

text \<open>The rest of \<open>receive\<close> after the replay look-up, and after the message id was stored.\<close>

definition after_remember :: "lib \<Rightarrow> 's AsyncReceiverPipeline \<Rightarrow> string \<Rightarrow> obj \<Rightarrow> EnvelopePayload \<Rightarrow> unit \<Rightarrow> ('s, AcceptedDecision) task" where
  "after_remember L A sender msg env =
     (\<lambda>_. tbind (avalidate_creds L A env sender) (\<lambda>creds.
     tbind (Ret (context_id_of msg)) (\<lambda>cid.
     tbind (aclassify A sender None creds cid) (\<lambda>(rt, auto_added).
     Ret (Inr \<lparr>route = rt, d_sender = sender, d_envelope = env, auto_added_contact = auto_added\<rparr>)))))"

definition after_seen :: "lib \<Rightarrow> 's AsyncReceiverPipeline \<Rightarrow> string \<Rightarrow> string \<Rightarrow> obj \<Rightarrow> EnvelopePayload \<Rightarrow> bool \<Rightarrow> ('s, AcceptedDecision) task" where
  "after_seen L A sender mid msg env =
     (\<lambda>dup. if dup then Ret (raise (Wire ReplayError) (replayed sender mid))
            else tbind (a_remember A sender mid REPLAY_CACHE_RETENTION) (after_remember L A sender msg env))"

lemma suspending_sel [simp]:
  "a_config (suspending_pipeline L adns aget cfg) = cfg" "a_now (suspending_pipeline L adns aget cfg) = time"
  "a_seen (suspending_pipeline L adns aget cfg) x y = suspending (replay_seen x y)"
  "a_remember (suspending_pipeline L adns aget cfg) x y n = suspending (replay_remember x y n)"
  "a_is_contact (suspending_pipeline L adns aget cfg) x = atomic (contact_is_contact x)"
  "a_for_sender (suspending_pipeline L adns aget cfg) x = atomic (credential_for_sender x)"
  by (simp_all add: suspending_pipeline_def amemory_pipeline_def acontact_is_contact_def acredential_for_sender_def)

lemma turn_request:
  assumes "pre_parse L cfg body = Inr (jws, msg, sender)" "is_public_key_identifier sender"
    and "parse_public_key sender = Inr b" "from_public_bytes L b = Inr key"
    and "verify_envelope L 0 jws key (subject cfg) (Some (process_clock s)) (leeway_seconds cfg) = Inr env"
    and "compute_msg_hash L msg = Inr (e_msg_hash env)"
    and "dict_get msg ''messageId'' = Some (JStr mid)" "mid \<noteq> ''''"
  shows "turn (areceive L (suspending_pipeline L adns aget cfg) body) s =
    (tbind (atomic (replay_seen sender mid)) (after_seen L (suspending_pipeline L adns aget cfg) sender mid msg env),
     s\<lparr>tick := Suc (tick s)\<rparr>)"
proof -
  have "map_envelope_error (Inr env) = Inr env" "check_hash L msg env = Inr ()" "message_id_of msg = Inr mid"
    using assms(6-8) by (simp_all add: res_simps)
  then show ?thesis
    using assms(1-5)
    unfolding after_seen_def after_remember_def areceive_def aresolve_sender_def
    by (simp add: turn_simps time_def process_clock_def)
qed

lemma turn_seen:
  assumes "process_valid w s" "process_deadline s (sender, mid) = None"
  obtains s' where "turn (tbind (atomic (replay_seen sender mid))
      (after_seen L (suspending_pipeline L adns aget cfg) sender mid msg env)) s =
      (tbind (atomic (replay_remember sender mid REPLAY_CACHE_RETENTION))
        (after_remember L (suspending_pipeline L adns aget cfg) sender msg env), s')"
    "process_valid w s'" "process_deadline s' (sender, mid) = None" "process_members s' = process_members s"
proof -
  let ?s' = "s\<lparr>tick := Suc (tick s), replay_cache := prune (process_clock s) (replay_cache s)\<rparr>"
  have "distinct (map fst (rc_entries (replay_cache s)))" using assms(1) by (simp add: process_valid_def)
  then have d: "process_deadline ?s' (sender, mid) = None" and v: "process_valid w ?s'"
    using assms prune_entries by (simp_all add: process_deadline_def process_valid_def)
  show thesis
    by (rule that [OF _ v d])
      (simp_all add: turn_simps replay_seen_eq Let_def after_seen_def process_members_def d)
qed

lemma turn_remember:
  assumes "e_creds env = []" "context_id_of msg = Inr cid" "sender \<in> process_members s"
  obtains s' where "turn (tbind (atomic (replay_remember sender mid REPLAY_CACHE_RETENTION))
      (after_remember L (suspending_pipeline L adns aget cfg) sender msg env)) s =
      (Ret (Inr \<lparr>route = Inbox, d_sender = sender, d_envelope = env, auto_added_contact = False\<rparr>), s')"
    "process_members s' = process_members s"
proof -
  have "\<exists>s'. turn (tbind (atomic (replay_remember sender mid REPLAY_CACHE_RETENTION))
      (after_remember L (suspending_pipeline L adns aget cfg) sender msg env)) s =
      (Ret (Inr \<lparr>route = Inbox, d_sender = sender, d_envelope = env, auto_added_contact = False\<rparr>), s')
      \<and> process_members s' = process_members s"
    using assms
    by (simp add: turn_simps replay_remember_eq after_remember_def avalidate_creds_def aclassify_def
        same_provider_def contact_is_contact_def sget_def credential_for_sender_def sbind_def sthen_def time_def
        supd_def sret_def Let_def process_members_def tbind_assoc tbind_Ret)
  then show thesis using that by blast
qed

lemma double_acceptance:
  fixes L adns aget cfg body
  defines "T \<equiv> areceive L (suspending_pipeline L adns aget cfg) body"
  assumes v: "process_valid w s" and parse: "pre_parse L cfg body = Inr (jws, msg, sender)"
    and key: "is_public_key_identifier sender" "parse_public_key sender = Inr b" "from_public_bytes L b = Inr key"
    and ver: "\<forall>t\<in>{process_clock s, process_clock (s\<lparr>tick := Suc (tick s)\<rparr>)}.
      verify_envelope L 0 jws key (subject cfg) (Some t) (leeway_seconds cfg) = Inr env"
    and hash: "compute_msg_hash L msg = Inr (e_msg_hash env)"
    and mid: "dict_get msg ''messageId'' = Some (JStr mid)" "mid \<noteq> ''''" "process_deadline s (sender, mid) = None"
    and rest: "e_creds env = []" "context_id_of msg = Inr cid" "sender \<in> process_members s"
  defines "d \<equiv> \<lparr>route = Inbox, d_sender = sender, d_envelope = env, auto_added_contact = False\<rparr>"
  shows "\<exists>s'. interleaved [T, T] s [Inr d, Inr d] s'"
proof -
  let ?A = "suspending_pipeline L adns aget cfg"
  let ?T1 = "tbind (atomic (replay_seen sender mid)) (after_seen L ?A sender mid msg env)"
  let ?T2 = "tbind (atomic (replay_remember sender mid REPLAY_CACHE_RETENTION)) (after_remember L ?A sender msg env)"
  let ?s1 = "s\<lparr>tick := Suc (tick s)\<rparr>"
  let ?s2 = "?s1\<lparr>tick := Suc (tick ?s1)\<rparr>"
  have 1: "turn T s = (?T1, ?s1)" and 2: "turn T ?s1 = (?T1, ?s2)"
    unfolding T_def using ver by (intro turn_request [OF parse key _ hash mid(1,2)]; simp)+
  have "process_valid w ?s2" "process_deadline ?s2 (sender, mid) = None" "process_members ?s2 = process_members s"
    using v mid(3) by (simp_all add: process_valid_def process_deadline_def process_members_def)
  from turn_seen [OF this(1,2)] this(3) obtain s3 where 3: "turn ?T1 ?s2 = (?T2, s3)"
    and s3: "process_valid w s3" "process_deadline s3 (sender, mid) = None" "process_members s3 = process_members s"
    by metis
  from turn_seen [OF s3(1,2)] s3(3) obtain s4 where 4: "turn ?T1 s3 = (?T2, s4)" and "process_members s4 = process_members s"
    by metis
  then have "sender \<in> process_members s4" using rest by simp
  from turn_remember [OF rest(1,2) this] obtain s5 where 5: "turn ?T2 s4 = (Ret (Inr d), s5)" and "process_members s5 = process_members s4"
    unfolding d_def by metis
  then have "sender \<in> process_members s5" using \<open>sender \<in> process_members s4\<close> by simp
  from turn_remember [OF rest(1,2) this] obtain s6 where 6: "turn ?T2 s5 = (Ret (Inr d), s6)"
    unfolding d_def by metis
  have "interleaved [Ret (Inr d), Ret (Inr d)] s6 [Inr d, Inr d] s6"
    using interleaved.finished [of "[Inr d, Inr d]" s6] by simp
  then have "interleaved [Ret (Inr d), ?T2] s5 [Inr d, Inr d] s6"
    using 6 interleaved.turn [of "[Ret (Inr d), ?T2]" 1] by simp
  then have "interleaved [?T2, ?T2] s4 [Inr d, Inr d] s6"
    using 5 interleaved.turn [of "[?T2, ?T2]" 0] by simp
  then have "interleaved [?T2, ?T1] s3 [Inr d, Inr d] s6"
    using 4 interleaved.turn [of "[?T2, ?T1]" 1] by simp
  then have "interleaved [?T1, ?T1] ?s2 [Inr d, Inr d] s6"
    using 3 interleaved.turn [of "[?T1, ?T1]" 0] by simp
  then have "interleaved [?T1, T] ?s1 [Inr d, Inr d] s6"
    using 2 interleaved.turn [of "[?T1, T]" 1] by simp
  then have "interleaved [T, T] s [Inr d, Inr d] s6"
    using 1 interleaved.turn [of "[T, T]" 0] by simp
  then show ?thesis by blast
qed

text \<open>
  C17: the replay check of the async pipeline is not atomic: between \<open>await seen\<close> and \<open>await remember\<close> other
  tasks run, so that over stores that suspend, two requests with the same envelope, received
  concurrently, are both accepted. Run one after the other, the same two requests are told apart: the
  pipeline then agrees with the synchronous one.
\<close>

theorem concurrent_replay_accepted:
  "\<exists>(built :: BuiltMessage) d s'.
     interleaved
       [areceive ex_rcv_lib (suspending_pipeline ex_rcv_lib adns aget ex_config) (JObj [(''message'', JObj (message built))]),
        areceive ex_rcv_lib (suspending_pipeline ex_rcv_lib adns aget ex_config) (JObj [(''message'', JObj (message built))])]
       ex_process [Inr d, Inr d] s'"
proof -
  obtain built :: BuiltMessage and s' where r: "receive ex_rcv_lib ex_pipeline (JObj [(''message'', JObj (message built))]) ex_process =
      (Inr \<lparr>route = Inbox, d_sender = ex_key, d_envelope = ex_signed_env, auto_added_contact = False\<rparr>, s')"
    by (rule ex_delivered)
  obtain jws msg key rcd mid cid where
    parse: "pre_parse ex_rcv_lib ex_config (JObj [(''message'', JObj (message built))]) = Inr (jws, msg, ex_key)"
    and res: "resolve_sender ex_rcv_lib ex_pipeline ex_key ex_process = Inr (key, rcd)"
    and ver: "verify_envelope ex_rcv_lib 0 jws key (subject ex_config) (Some 1100) 60 = Inr ex_signed_env"
    and hash: "compute_msg_hash ex_rcv_lib msg = Inr (e_msg_hash ex_signed_env)"
    and mid: "dict_get msg ''messageId'' = Some (JStr mid)" "mid \<noteq> ''''" and cid: "context_id_of msg = Inr cid"
    by (rule receive_accepted [OF r]) (auto simp: time_def ex_facts process_clock_def [symmetric])
  have sel: "e_exp ex_signed_env = 1200" "e_iat ex_signed_env = 1000" "e_creds ex_signed_env = []"
    by (simp_all add: ex_signed_env_def ex_facts)
  have ver': "verify_envelope ex_rcv_lib 0 jws key (subject ex_config) (Some 1101) 60 = Inr ex_signed_env"
    using ver sel by (auto simp: verify_envelope_def res_simps Let_def)
  have key: "is_public_key_identifier ex_key" "parse_public_key ex_key = Inr ex_seed" "from_public_bytes ex_rcv_lib ex_seed = Inr key"
    using res public_key_canonical(1) [OF ex_key_parses] ex_key_parses by (auto simp: resolve_sender_def bind_Inr_iff)
  have "process_clock (ex_process\<lparr>tick := Suc (tick ex_process)\<rparr>) = 1101"
    by (simp add: process_clock_def ex_process_def new_process_def)
  then show ?thesis
    using double_acceptance [OF ex_process_valid parse key _ hash mid _ sel(3) cid, of adns aget] ver ver'
    by (simp add: ex_facts) blast
qed

end
