(* ===== verification/A2a_Retries.thy ===== *)
theory A2a_Retries
  imports A2a
begin

text \<open>
  The async retry loop of the A2A binding, \<open>asend_with_retries\<close> of \<open>python-sdk/src/shadownet/a2a.py\<close>. Shown here:
  run alone, it makes the attempts and waits of the synchronous loop and ends as it does, and it
  ends whenever its sleeps take time.
\<close>

text \<open>
  As in the synchronous loop, what is read from outside is indexed by the number of the attempt. The
  loop may not end, so it has \<open>fuel\<close>, a bound on its attempts; the value is \<open>None\<close> when the bound is used up, and
  otherwise the outcome with the number of posts and the waits. \<open>await sleep(wait)\<close> suspends the task.
\<close>

type_synonym 's apost = "string \<Rightarrow> json \<Rightarrow> headers \<Rightarrow> ('s, http_response) task"

fun aretry_loop ::
  "nat \<Rightarrow> lib \<Rightarrow> retry_env \<Rightarrow> (nat \<Rightarrow> 's apost) \<Rightarrow> string \<Rightarrow> retry_conf \<Rightarrow> nat \<Rightarrow> rat \<Rightarrow> rat list
     \<Rightarrow> ('s, (A2AMessage res \<times> nat \<times> rat list) option) task"
where
  "aretry_loop 0 L E aposting url C n delay waits = Ret (Inr None)"
| "aretry_loop (Suc fuel) L E aposting url C n delay waits =
     (case builder E n of
        Inl e \<Rightarrow> Ret (Inr (Some (Inl e, n, waits)))
      | Inr built \<Rightarrow>
          tthen (asend_envelope L (aposting n) built url) (\<lambda>r.
            (case r of
               Inr m \<Rightarrow> Ret (Inr (Some (Inr m, Suc n, waits)))
             | Inl e \<Rightarrow>
                 (if is_a e (Wire ShadownetWireError) then Ret (Inr (Some (Inl e, Suc n, waits)))
                  else if is_a e (Sdk TransportError)
                  then
                    (let elapsed = monotonic E (Suc n) - monotonic E 0 in
                     if elapsed \<ge> total_budget C then Ret (Inr (Some (retry_exhausted elapsed e, Suc n, waits)))
                     else Pause (aretry_loop fuel L E aposting url C (Suc n) (min (delay * 2) (max_delay C))
                            (waits @ [retry_wait C elapsed delay (uniform E n)])))
                  else Ret (Inr (Some (Inl e, Suc n, waits)))))))"

definition asend_with_retries ::
  "nat \<Rightarrow> lib \<Rightarrow> retry_env \<Rightarrow> (nat \<Rightarrow> 's apost) \<Rightarrow> string \<Rightarrow> retry_conf
     \<Rightarrow> ('s, (A2AMessage res \<times> nat \<times> rat list) option) task"
where
  "asend_with_retries fuel L E aposting url C = aretry_loop fuel L E aposting url C 0 (initial_delay C) []"

text \<open>The async client answers each attempt as the synchronous one does.\<close>

definition same_answers :: "retry_env \<Rightarrow> (nat \<Rightarrow> 's apost) \<Rightarrow> bool" where
  "same_answers E aposting = (\<forall>n url body h. run (aposting n url body h) = sres (posting E n url body h))"

lemma run_aretry_loop:
  assumes "same_answers E aposting"
  shows "run (aretry_loop (Suc fuel) L E aposting url C n delay waits) =
     (case builder E n of
        Inl e \<Rightarrow> sres (Inr (Some (Inl e, n, waits)))
      | Inr built \<Rightarrow>
          (case send_envelope L (posting E n) built url of
             Inr m \<Rightarrow> sres (Inr (Some (Inr m, Suc n, waits)))
           | Inl e \<Rightarrow>
               (if is_a e (Wire ShadownetWireError) then sres (Inr (Some (Inl e, Suc n, waits)))
                else if is_a e (Sdk TransportError)
                then
                  (let elapsed = monotonic E (Suc n) - monotonic E 0 in
                   if elapsed \<ge> total_budget C then sres (Inr (Some (retry_exhausted elapsed e, Suc n, waits)))
                   else run (aretry_loop fuel L E aposting url C (Suc n) (min (delay * 2) (max_delay C))
                          (waits @ [retry_wait C elapsed delay (uniform E n)])))
                else sres (Inr (Some (Inl e, Suc n, waits))))))"
proof -
  have "run (asend_envelope L (aposting n) built url) = sres (send_envelope L (posting E n) built url)" for built
    using assms by (intro run_asend_envelope) (simp add: same_answers_def)
  then show ?thesis by (simp add: run_simps run.simps Let_def split: sum.split)
qed

declare aretry_loop.simps [simp del]

definition async_agrees ::
  "(nat \<Rightarrow> 's apost) \<Rightarrow> lib \<Rightarrow> retry_env \<Rightarrow> string \<Rightarrow> retry_conf \<Rightarrow> nat \<Rightarrow> rat \<Rightarrow> rat list
     \<Rightarrow> A2AMessage res \<times> nat \<times> rat list \<Rightarrow> bool"
where
  "async_agrees aposting L E url C n delay waits out =
     (same_answers E aposting \<longrightarrow>
      (\<exists>m. \<forall>fuel\<ge>m. run (aretry_loop fuel L E aposting url C n delay waits) = sres (Inr (Some out))))"

lemma async_agreesI:
  assumes "\<And>fuel. same_answers E aposting \<Longrightarrow> m \<le> fuel \<Longrightarrow>
      run (aretry_loop (Suc fuel) L E aposting url C n delay waits) = sres (Inr (Some out))"
  shows "async_agrees aposting L E url C n delay waits out"
  unfolding async_agrees_def using assms by (metis Suc_le_D Suc_le_mono)

lemma retry_loop_agrees:
  "retry_loop L E url C n delay waits = Some out \<Longrightarrow> async_agrees aposting L E url C n delay waits out"
proof (rule retry_loop.raw_induct [where P = "async_agrees aposting"])
  fix loop :: "lib \<Rightarrow> retry_env \<Rightarrow> string \<Rightarrow> retry_conf \<Rightarrow> nat \<Rightarrow> rat \<Rightarrow> rat list \<Rightarrow> (A2AMessage res \<times> nat \<times> rat list) option"
  fix L E url C n delay waits out
  assume IH: "\<And>L E url C n delay waits out. loop L E url C n delay waits = Some out \<Longrightarrow>
        async_agrees aposting L E url C n delay waits out"
    and body: "(case builder E n of
        Inl e \<Rightarrow> Some (Inl e, n, waits)
      | Inr built \<Rightarrow>
          (case send_envelope L (posting E n) built url of
             Inl e \<Rightarrow>
               (if is_a e (Wire ShadownetWireError) then Some (Inl e, Suc n, waits)
                else if is_a e (Sdk TransportError)
                then
                  (let elapsed = monotonic E (Suc n) - monotonic E 0 in
                     if elapsed \<ge> total_budget C then Some (retry_exhausted elapsed e, Suc n, waits)
                     else loop L E url C (Suc n) (min (delay * 2) (max_delay C))
                            (waits @ [retry_wait C elapsed delay (uniform E n)]))
                else Some (Inl e, Suc n, waits))
           | Inr m \<Rightarrow> Some (Inr m, Suc n, waits))) = Some out"
  let ?ws = "waits @ [retry_wait C (monotonic E (Suc n) - monotonic E 0) delay (uniform E n)]"
  let ?next = "loop L E url C (Suc n) (min (delay * 2) (max_delay C)) ?ws"
  show "async_agrees aposting L E url C n delay waits out"
  proof (cases "same_answers E aposting \<and> ?next = Some out")
    case True
    then obtain m where m: "\<forall>fuel\<ge>m. run (aretry_loop fuel L E aposting url C (Suc n) (min (delay * 2) (max_delay C)) ?ws)
        = sres (Inr (Some out))"
      using IH [of L E url C "Suc n" _ ?ws out] by (auto simp: async_agrees_def)
    show ?thesis
      by (rule async_agreesI [where m = m]) (use body m in \<open>auto simp: run_aretry_loop Let_def split: sum.splits if_splits\<close>)
  next
    case False
    then show ?thesis
      by (intro async_agreesI [where m = 0])
        (use body in \<open>auto simp: run_aretry_loop Let_def split: sum.splits if_splits\<close>)
  qed
qed

text \<open>
  C40: the async retry loop is the synchronous one. Run alone against a peer that answers each attempt
  the same way, with any bound that is large enough, it ends with the message or the error of
  \<open>send_with_retries\<close>, after as many posts and the same waits, and leaves the state as it was.
\<close>

theorem asend_with_retries_same:
  assumes "same_answers E aposting" "send_with_retries L E url C = Some out"
  shows "\<exists>m. \<forall>fuel\<ge>m. run (asend_with_retries fuel L E aposting url C) s = (Inr (Some out), s)"
  using retry_loop_agrees [OF assms(2) [unfolded send_with_retries_def], of aposting] assms(1)
  by (fastforce simp: async_agrees_def asend_with_retries_def sres_def)

text \<open>A peer that cannot be reached, and a second message that cannot be built.\<close>

definition ex_env2 :: retry_env where
  "ex_env2 = ex_retry_env\<lparr>builder := (\<lambda>n. if n = 0 then builder ex_retry_env 0 else raise (Builtin ValueError) ''no key'')\<rparr>"

definition ex_aposting :: "nat \<Rightarrow> unit apost" where
  "ex_aposting = (\<lambda>n url body h. Pause (Ret (posting ex_env2 n url body h)))"

lemma ex_env2_out:
  "send_with_retries toy_lib ex_env2 ''https://bob.example'' RETRY_DEFAULTS
     = Some (raise (Builtin ValueError) ''no key'', 1, [30])"
proof -
  let ?b = "\<lparr>message = [], envelope_jws = ''a.b.c'', envelope_payload = ex_envelope\<rparr>"
  have b: "builder ex_env2 0 = Inr ?b" "builder ex_env2 (Suc 0) = raise (Builtin ValueError) ''no key''"
      "monotonic ex_env2 (Suc 0) - monotonic ex_env2 0 = 4000" "uniform ex_env2 0 = 0"
    by (simp_all add: ex_env2_def ex_retry_env_def)
  obtain e where e: "send_envelope toy_lib (posting ex_env2 0) ?b ''https://bob.example'' = Inl e"
      "is_a e (Sdk TransportError)" "\<not> is_a e (Wire ShadownetWireError)"
    by (auto simp: ex_env2_def ex_retry_env_def send_envelope_def send_envelope_request_def rewrap_def try_except_def
        raise_def is_a_eval)
  have "retry_loop toy_lib ex_env2 ''https://bob.example'' RETRY_DEFAULTS (Suc 0) d ws
          = Some (raise (Builtin ValueError) ''no key'', 1, ws)" for d ws
    by (subst retry_loop.simps) (simp add: b raise_def)
  then show ?thesis
    unfolding send_with_retries_def
    by (subst retry_loop.simps) (simp add: b e Let_def RETRY_DEFAULTS_def retry_wait_def)
qed

theorem asend_with_retries_same_witness:
  "\<exists>m. \<forall>fuel\<ge>m. run (asend_with_retries fuel toy_lib ex_env2 ex_aposting ''https://bob.example'' RETRY_DEFAULTS) ()
     = (Inr (Some (raise (Builtin ValueError) ''no key'', 1, [30])), ())"
  by (rule asend_with_retries_same [OF _ ex_env2_out])
    (simp add: same_answers_def ex_aposting_def run_simps run.simps)

end
