(* ===== verification/Csr.thy ===== *)
theory Csr
  imports Credential
begin

text \<open>
  Certificate signing requests, from \<open>python-sdk/src/shadownet/csr.py\<close>: the payload model, minting by the
  Subject, verification by the issuer, and submission, synchronous and async, with the interpretation
  of the issuer's answer. Shown here: exactly which requests an issuer accepts, that a minted request is
  accepted by the issuer it names, and what each answer of the issuer becomes.
\<close>

section \<open>Data\<close>

definition CSR_TYP :: string where
  "CSR_TYP = ''shadownet-csr+jwt''"

definition ISSUER_MEDIA_TYPE :: string where
  "ISSUER_MEDIA_TYPE = ''application/jose''"

definition MAX_CSR_LIFETIME_SECONDS :: int where
  "MAX_CSR_LIFETIME_SECONDS = 600"

abbreviation csr_error :: "string \<Rightarrow> 'a res" where
  "csr_error m \<equiv> raise (Sdk CsrError) m"

text \<open>\<open>CeremonyPendingError.__init__\<close>; its attribute \<open>next_url\<close> is the quoted URL of the message.\<close>

definition ceremony_pending :: "string \<Rightarrow> 'a res" where
  "ceremony_pending next_url = raise (Sdk CeremonyPendingError) (''ceremony pending; next='' @ repr next_url)"

record CsrRequest =
  q_kind :: string
  q_org :: string

record CsrPayload =
  q_iss :: string
  q_aud :: string
  q_iat :: int
  q_exp :: int
  q_req :: CsrRequest
  q_extra :: obj

record IssuanceResult =
  credential :: string

section \<open>The payload model\<close>

definition v_CsrRequest :: "json \<Rightarrow> CsrRequest fres" where
  "v_CsrRequest j =
     (case j of
        JObj d \<Rightarrow>
          forbid_extra d [[''kind''], [''org'']]
            (fap (fap (FOk CsrRequest.make)
               (required_field d [''kind''] (\<lambda>v. constrain kind_pattern (v_str v))))
               (required_field d [''org''] v_IssuerIdentifier))
      | _ \<Rightarrow> FErr)"

definition v_CsrPayload :: "lib \<Rightarrow> obj \<Rightarrow> CsrPayload fres" where
  "v_CsrPayload L d =
     fap (fap (fap (fap (fap
       (FOk (\<lambda>i a t x r. \<lparr>q_iss = i, q_aud = a, q_iat = t, q_exp = x, q_req = r,
           q_extra = extra_members d [[''iss''], [''aud''], [''iat''], [''exp''], [''req'']]\<rparr>))
       (required_field d [''iss''] v_Identifier))
       (required_field d [''aud''] v_IssuerIdentifier))
       (required_field d [''iat''] (\<lambda>v. constrain (\<lambda>i. 0 \<le> i) (v_int L v))))
       (required_field d [''exp''] (\<lambda>v. constrain (\<lambda>i. 0 \<le> i) (v_int L v))))
       (required_field d [''req''] v_CsrRequest)"

definition CsrPayload_model_validate :: "lib \<Rightarrow> obj \<Rightarrow> CsrPayload res" where
  "CsrPayload_model_validate L d = validated L ''CsrPayload'' (JObj d) (v_CsrPayload L d)"

definition CsrPayload_model_dump :: "CsrPayload \<Rightarrow> obj" where
  "CsrPayload_model_dump p =
     dict_update
       [(''iss'', JStr (q_iss p)), (''aud'', JStr (q_aud p)), (''iat'', JInt (q_iat p)), (''exp'', JInt (q_exp p)),
        (''req'', JObj [(''kind'', JStr (q_kind (q_req p))), (''org'', JStr (q_org (q_req p)))])]
       (q_extra p)"

section \<open>Minting and verification\<close>

definition mint_csr :: "lib \<Rightarrow> CsrPayload \<Rightarrow> Ed25519KeyPair \<Rightarrow> string res" where
  "mint_csr L p subject_key =
     (if q_exp p - q_iat p > MAX_CSR_LIFETIME_SECONDS
      then csr_error (''CSR lifetime exceeds '' @ int_str MAX_CSR_LIFETIME_SECONDS @ ''s (got ''
             @ int_str (q_exp p - q_iat p) @ ''s)'')
      else if q_exp p \<le> q_iat p then csr_error ''CSR exp must be greater than iat''
      else sign_jwt L (CsrPayload_model_dump p) subject_key (Some [(''typ'', JStr CSR_TYP)]))"

definition verify_csr ::
  "lib \<Rightarrow> int \<Rightarrow> string \<Rightarrow> Ed25519KeyPair \<Rightarrow> string \<Rightarrow> int option \<Rightarrow> int \<Rightarrow> CsrPayload res"
where
  "verify_csr L clock token subject_key expected_audience now lw =
     bind (rewrap (decode_header L token) (Sdk JWTError) (Sdk CsrError)
             (\<lambda>m. ''invalid JWS header: '' @ m)) (\<lambda>header.
     if \<not> header_is header ''typ'' CSR_TYP
     then csr_error (''typ must be '' @ repr CSR_TYP @ '', got '' @ repr_opt (dict_get header ''typ''))
     else if \<not> header_is header ''alg'' ''EdDSA''
     then csr_error (''alg must be EdDSA, got '' @ repr_opt (dict_get header ''alg''))
     else
     bind (rewrap (decode_unverified_claims L token) (Sdk JWTError) (Sdk CsrError)
             (\<lambda>m. ''unable to decode CSR claims: '' @ m)) (\<lambda>unverified.
     bind (rewrap (CsrPayload_model_validate L unverified) (Lib ValidationError) (Sdk CsrError)
             (\<lambda>m. ''CSR payload invalid: '' @ m)) (\<lambda>p.
     if q_aud p \<noteq> expected_audience
     then csr_error (''CSR aud='' @ repr (q_aud p) @ '' does not match issuer ('' @ repr expected_audience @ '')'')
     else if q_exp p - q_iat p > MAX_CSR_LIFETIME_SECONDS
     then csr_error (''CSR lifetime exceeds '' @ int_str MAX_CSR_LIFETIME_SECONDS @ ''s'')
     else
       (let current = (case now of None \<Rightarrow> clock | Some t \<Rightarrow> t) in
          if q_exp p < current - lw then csr_error ''CSR expired''
          else if q_iat p > current + lw then csr_error ''CSR iat in the future''
          else
            bind (rewrap (verify_jws_signature L token subject_key) (Sdk KeySignatureError) (Sdk CsrError)
                    (\<lambda>m. ''signature verification failed: '' @ m)) (\<lambda>_. Inr p)))))"

section \<open>Submission\<close>

definition build_issuer_url :: "string \<Rightarrow> string res" where
  "build_issuer_url issuer_domain =
     (if issuer_domain = '''' then csr_error ''issuer_domain required''
      else Inr (''https://'' @ issuer_domain @ ''/.well-known/shadownet/issue''))"

definition interpret_issuer_response :: "http_response \<Rightarrow> string \<Rightarrow> IssuanceResult res" where
  "interpret_issuer_response response url =
     (let status = status_code response in
      if status = 200 then
        (let body = strip (resp_text response) in
           if body = '''' \<or> count_list body (CHR ''.'') \<noteq> 2
           then csr_error (''issuer '' @ repr url @ '' 200 response is not a JWS-compact token'')
           else Inr \<lparr>credential = body\<rparr>)
      else if status = 409 then
        bind (rewrap (resp_json response) (Builtin JSONDecodeError) (Sdk CsrError)
                (\<lambda>m. ''issuer '' @ repr url @ '' 409 missing JSON body: '' @ m)) (\<lambda>data.
          (case (case data of JObj d \<Rightarrow> dict_get d ''next'' | _ \<Rightarrow> None) of
             Some (JStr next_url) \<Rightarrow>
               (if next_url = ''''
                then csr_error (''issuer '' @ repr url @ '' 409 missing '' @ repr ''next'' @ '' URL'')
                else ceremony_pending next_url)
           | _ \<Rightarrow> csr_error (''issuer '' @ repr url @ '' 409 missing '' @ repr ''next'' @ '' URL'')))
      else if status = 403
      then raise (Sdk CeremonyFailedError) (''issuer '' @ repr url @ '' returned 403 ceremony_failed'')
      else if status = 429
      then raise (Sdk CsrRateLimitedError) (''issuer '' @ repr url @ '' returned 429 rate_limited'')
      else csr_error (''issuer '' @ repr url @ '' returned unexpected HTTP '' @ int_str status))"

definition issuer_headers :: headers where
  "issuer_headers = [(''Content-Type'', ISSUER_MEDIA_TYPE), (''Accept'', ISSUER_MEDIA_TYPE)]"

text \<open>\<open>post\<close> is the \<open>post\<close> of the client, given or made for the call.\<close>

definition submit_csr :: "(string \<Rightarrow> bytes \<Rightarrow> headers \<Rightarrow> http_response res) \<Rightarrow> string \<Rightarrow> string \<Rightarrow> IssuanceResult res" where
  "submit_csr post csr_jws issuer_domain =
     bind (build_issuer_url issuer_domain) (\<lambda>url.
     bind (rewrap (bind (encode_ascii csr_jws) (\<lambda>content. post url content issuer_headers))
             (Lib HTTPError) (Sdk CsrError)
             (\<lambda>m. ''CSR submission failed for '' @ repr url @ '': '' @ m)) (\<lambda>response.
     interpret_issuer_response response url))"

definition asubmit_csr ::
  "(string \<Rightarrow> bytes \<Rightarrow> headers \<Rightarrow> ('s, http_response) task) \<Rightarrow> string \<Rightarrow> string \<Rightarrow> ('s, IssuanceResult) task"
where
  "asubmit_csr apost csr_jws issuer_domain =
     tbind (Ret (build_issuer_url issuer_domain)) (\<lambda>url.
     tbind (trewrap (tbind (Ret (encode_ascii csr_jws)) (\<lambda>content. apost url content issuer_headers))
              (Lib HTTPError) (Sdk CsrError)
              (\<lambda>m. ''CSR submission failed for '' @ repr url @ '': '' @ m)) (\<lambda>response.
     Ret (interpret_issuer_response response url)))"

section \<open>What an issuer accepts\<close>

text \<open>
  An issuer accepts a request exactly when it is a JWS of the request type signed with EdDSA by the
  key it was given for the Subject, its claims form a valid payload whose audience is this issuer, its
  lifetime is at most ten minutes, and it is neither expired nor from the future within the leeway.
  The result is that payload.
\<close>

theorem verify_csr_iff:
  "verify_csr L clock token key aud (Some t) lw = Inr p \<longleftrightarrow>
     (\<exists>header claims. jwt_header L token = Inr header \<and> header_is header ''typ'' CSR_TYP
        \<and> header_is header ''alg'' ''EdDSA'' \<and> jwt_claims L token = Inr claims
        \<and> CsrPayload_model_validate L claims = Inr p)
     \<and> q_aud p = aud \<and> q_exp p - q_iat p \<le> 600 \<and> t - lw \<le> q_exp p \<and> q_iat p \<le> t + lw
     \<and> ed_load L (public_bytes key) = Inr () \<and> signed_by L token (public_bytes key)"
  by (auto simp: verify_csr_def res_simps verify_jws_signature_Inr MAX_CSR_LIFETIME_SECONDS_def Let_def not_less)

section \<open>Minted requests are accepted\<close>

definition csr_fields :: "string list" where
  "csr_fields = [''iss'', ''aud'', ''iat'', ''exp'', ''req'']"

definition csr_wf :: "CsrPayload \<Rightarrow> bool" where
  "csr_wf p =
     (canonicalize_identifier (q_iss p) = Inr (q_iss p)
      \<and> canonicalize_issuer_or_org_identifier (q_aud p) = Inr (q_aud p) \<and> 0 \<le> q_iat p \<and> 0 \<le> q_exp p
      \<and> kind_pattern (q_kind (q_req p))
      \<and> canonicalize_issuer_or_org_identifier (q_org (q_req p)) = Inr (q_org (q_req p))
      \<and> distinct (csr_fields @ map fst (q_extra p)))"

lemma csr_dump_eq:
  "distinct (csr_fields @ map fst (q_extra p)) \<Longrightarrow>
   CsrPayload_model_dump p =
     [(''iss'', JStr (q_iss p)), (''aud'', JStr (q_aud p)), (''iat'', JInt (q_iat p)), (''exp'', JInt (q_exp p)),
      (''req'', JObj [(''kind'', JStr (q_kind (q_req p))), (''org'', JStr (q_org (q_req p)))])] @ q_extra p"
  unfolding CsrPayload_model_dump_def
  by (rule dict_update_append) (simp add: csr_fields_def)

lemma csr_validate_dump:
  assumes wf: "csr_wf p" and int: "\<forall>i. as_int L (JInt i) = Some i"
  shows "CsrPayload_model_validate L (CsrPayload_model_dump p) = Inr p"
proof -
  have dis: "distinct (csr_fields @ map fst (q_extra p))" using wf by (simp add: csr_wf_def)
  let ?r = "[(''kind'', JStr (q_kind (q_req p))), (''org'', JStr (q_org (q_req p)))]"
  let ?d = "CsrPayload_model_dump p"
  have "extra_members (?r @ []) (map (\<lambda>k. [k]) [''kind'', ''org'']) = []"
    by (rule extra_members_append) auto
  then have req: "v_CsrRequest (JObj ?r) = FOk (q_req p)"
    using wf by (simp add: v_CsrRequest_def csr_wf_def required_field_def matched_key_def
        constrain_def forbid_extra_def CsrRequest.make_def v_IssuerIdentifier_def)
  have "set csr_fields \<inter> set (map fst (q_extra p)) = {}"
    using dis by (simp only: distinct_append)
  then have "extra_members ?d (map (\<lambda>k. [k]) csr_fields) = q_extra p"
    unfolding csr_dump_eq [OF dis] by (intro extra_members_append) (simp_all add: csr_fields_def)
  then have ext: "extra_members ?d [[''iss''], [''aud''], [''iat''], [''exp''], [''req'']] = q_extra p"
    by (simp add: csr_fields_def)
  have get: "dict_get ?d ''iss'' = Some (JStr (q_iss p))" "dict_get ?d ''aud'' = Some (JStr (q_aud p))"
    "dict_get ?d ''iat'' = Some (JInt (q_iat p))" "dict_get ?d ''exp'' = Some (JInt (q_exp p))"
    "dict_get ?d ''req'' = Some (JObj ?r)"
    by (simp_all add: csr_dump_eq [OF dis])
  show ?thesis
    unfolding CsrPayload_model_validate_def v_CsrPayload_def ext
    using wf int req
    by (simp add: required_field_def matched_key_def get v_IssuerIdentifier_def v_Identifier_def
        csr_wf_def constrain_def v_int_def validated_def)
qed

text \<open>
  What \<open>mint_csr\<close> signs, the issuer it names accepts within its validity window and no other issuer
  ever does: verification with the Subject's public key returns the payload for the audience of the
  request, and fails for every other expected audience, whatever the time. The hypotheses on the
  libraries are that pydantic keeps integers and that PyJWT encodes this call faithfully.
\<close>

theorem mint_verify_csr:
  assumes mint: "mint_csr L p key = Inr token" and sk: "private_raw key = Some sk"
    and wf: "csr_wf p" and int: "\<forall>i. as_int L (JInt i) = Some i"
    and jwt: "jwt_encodes L (CsrPayload_model_dump p) sk [(''alg'', JStr ''EdDSA''), (''typ'', JStr CSR_TYP)]"
    and key: "public_bytes verifier = pk_of_seed L sk" "ed_load L (pk_of_seed L sk) = Inr ()"
    and window: "t - lw \<le> q_exp p" "q_iat p \<le> t + lw"
  shows "verify_csr L clock token verifier (q_aud p) (Some t) lw = Inr p
    \<and> (\<forall>aud t' q. aud \<noteq> q_aud p \<longrightarrow> verify_csr L clock token verifier aud (Some t') lw \<noteq> Inr q)"
proof -
  have life: "q_exp p - q_iat p \<le> 600"
    and enc: "jwt_encode L (CsrPayload_model_dump p) sk
                [(''alg'', JStr ''EdDSA''), (''typ'', JStr CSR_TYP)] = Inr token"
    using mint sk
    by (auto simp: mint_csr_def sign_jwt_def private_key_def DEFAULT_HEADER_def dict_update_def
        MAX_CSR_LIFETIME_SECONDS_def split: if_splits)
  obtain h where h: "jwt_header L token = Inr h"
      "\<forall>k. dict_get h k = dict_get [(''alg'', JStr ''EdDSA''), (''typ'', JStr CSR_TYP)] k"
    and c: "jwt_claims L token = Inr (CsrPayload_model_dump p)"
    and s: "signed_by L token (pk_of_seed L sk)"
    using jwt enc by (auto simp: jwt_encodes_def)
  have "header_is h ''typ'' CSR_TYP" "header_is h ''alg'' ''EdDSA''" using h(2) by (simp_all add: header_is_def)
  then show ?thesis
    using h(1) c s key life window csr_validate_dump [OF wf int] by (auto simp: verify_csr_iff)
qed

text \<open>Submission: what each answer becomes, and that the async sibling agrees.\<close>

lemma pending_not_Inr:
  "(case v of Some (JStr n) \<Rightarrow> (if n = '''' then csr_error a else ceremony_pending n) | _ \<Rightarrow> csr_error b) \<noteq> Inr res"
  by (auto simp: ceremony_pending_def split: option.splits json.splits)

lemma interpret_issuer_response_Inr_iff:
  "interpret_issuer_response response url = Inr res \<longleftrightarrow>
     status_code response = 200 \<and> count_list (credential res) (CHR ''.'') = 2
     \<and> res = \<lparr>credential = strip (resp_text response)\<rparr>"
  by (cases "strip (resp_text response) = []")
    (auto simp: interpret_issuer_response_def pending_not_Inr res_simps Let_def split: if_splits)

lemma submit_csr_Inr_iff:
  "submit_csr post csr_jws iss = Inr res \<longleftrightarrow>
     iss \<noteq> '''' \<and> (\<exists>content response. encode_ascii csr_jws = Inr content
        \<and> post (''https://'' @ iss @ ''/.well-known/shadownet/issue'') content issuer_headers = Inr response
        \<and> status_code response = 200 \<and> count_list (credential res) (CHR ''.'') = 2
        \<and> res = \<lparr>credential = strip (resp_text response)\<rparr>)"
  by (auto simp: submit_csr_def build_issuer_url_def interpret_issuer_response_Inr_iff res_simps)

lemma asubmit_csr_agrees:
  assumes "\<And>url b h. run (apost url b h) = sres (post url b h)"
  shows "run (asubmit_csr apost csr_jws iss) = sres (submit_csr post csr_jws iss)"
  by (simp add: asubmit_csr_def submit_csr_def run_simps assms)

section \<open>A concrete request\<close>

definition ex_csr :: CsrPayload where
  "ex_csr = \<lparr>q_iss = ''alice@sh4dow.org'', q_aud = ''acme.example'', q_iat = 1000, q_exp = 1500,
             q_req = \<lparr>q_kind = ''org_affiliation'', q_org = ''acme.example''\<rparr>, q_extra = []\<rparr>"

definition ex_csr_lib :: lib where
  "ex_csr_lib =
     toy_lib\<lparr>ed_verify := (\<lambda>pk sig m. pk = ex_seed \<and> m = map byte_of_char ''aGQ.cGw''),
             jwt_encode := (\<lambda>c s h. Inr ''aGQ.cGw.c2ln''),
             jwt_header := (\<lambda>_. Inr [(''alg'', JStr ''EdDSA''), (''typ'', JStr CSR_TYP)]),
             jwt_claims := (\<lambda>_. Inr (CsrPayload_model_dump ex_csr))\<rparr>"

lemma ex_csr_signed: "signed_by ex_csr_lib ''aGQ.cGw.c2ln'' ex_seed"
  using ex_signed by (simp add: signed_by_def ex_csr_lib_def ex_cred_lib_def)

lemma ex_csr_wf: "csr_wf ex_csr"
  by code_simp

theorem mint_verify_csr_witness:
  "verify_csr ex_csr_lib 0 ''aGQ.cGw.c2ln'' \<lparr>public_bytes = ex_seed, private_raw = None\<rparr> ''acme.example'' (Some 1200) 60
     = Inr ex_csr
   \<and> (\<forall>t' q. verify_csr ex_csr_lib 0 ''aGQ.cGw.c2ln'' \<lparr>public_bytes = ex_seed, private_raw = None\<rparr> ''other.example'' (Some t') 60 \<noteq> Inr q)"
proof -
  have mint: "mint_csr ex_csr_lib ex_csr \<lparr>public_bytes = ex_seed, private_raw = Some ex_seed\<rparr> = Inr ''aGQ.cGw.c2ln''"
    by (simp add: mint_csr_def ex_csr_def MAX_CSR_LIFETIME_SECONDS_def sign_jwt_def private_key_def ex_csr_lib_def)
  have "jwt_encodes ex_csr_lib (CsrPayload_model_dump ex_csr) ex_seed [(''alg'', JStr ''EdDSA''), (''typ'', JStr CSR_TYP)]"
    using ex_csr_signed by (simp add: jwt_encodes_def) (simp add: ex_csr_lib_def toy_lib_def)
  moreover have "\<forall>i. as_int ex_csr_lib (JInt i) = Some i" "pk_of_seed ex_csr_lib ex_seed = ex_seed"
    "ed_load ex_csr_lib ex_seed = Inr ()"
    by (simp_all add: ex_csr_lib_def toy_lib_def)
  moreover have "q_aud ex_csr = ''acme.example''" "q_iat ex_csr = 1000" "q_exp ex_csr = 1500"
    by (simp_all add: ex_csr_def)
  ultimately show ?thesis
    using mint_verify_csr [OF mint _ ex_csr_wf, where sk = ex_seed and t = 1200 and lw = 60
        and verifier = "\<lparr>public_bytes = ex_seed, private_raw = None\<rparr>"]
    by simp
qed

end
