(* ===== verification/X402_Stores.thy ===== *)
theory X402_Stores
  imports Complex_Main Status
begin

text \<open>
  The state of a resource server that charges for its answers, from
  \<open>shadownet-x402/src/shadownet_x402/nonce.py\<close> and \<open>budget.py\<close>: the protocols \<open>NonceStore\<close> and
  \<open>BudgetStore\<close> as records of operations, their contracts as locales, and the in-memory
  implementations with the proof that they meet the contracts.
\<close>

section \<open>Protocols\<close>

record 's nonce_ops =
  nonce_issue :: "int \<Rightarrow> string option \<Rightarrow> ('s, string) st"
  nonce_consume :: "string \<Rightarrow> string option \<Rightarrow> ('s, unit) st"

record 's budget_ops =
  budget_allowed :: "string \<Rightarrow> ('s, bool) st"
  budget_remaining :: "string \<Rightarrow> ('s, int) st"
  budget_reserve :: "string \<Rightarrow> int \<Rightarrow> ('s, unit) st"
  budget_record :: "string \<Rightarrow> int \<Rightarrow> ('s, unit) st"

section \<open>The process\<close>

text \<open>
  What the surroundings answer at one moment: \<open>time.time()\<close> (a float, here the rational it stands for),
  DNS, HTTP, and the token that \<open>secrets.token_urlsafe\<close> draws.
\<close>

record world =
  w_now :: rat
  w_dns :: resolver
  w_get :: http_get
  w_token :: string

record InMemoryNonceStore =
  nonce_entries :: "(string \<times> (string option \<times> rat)) list"

record InMemoryBudgetStore =
  budget_cap :: int
  budget_spent :: "(string \<times> int) list"
  budget_revoked :: "string set"

text \<open>
  The server's process: the two stores, the facilitator's own state, and the surroundings, of which
  the \<open>n\<close>-th look since the start finds \<open>outside n\<close>; \<open>looks\<close> counts the looks so far.
\<close>

record 'f shop =
  shop_nonces :: InMemoryNonceStore
  shop_budget :: InMemoryBudgetStore
  shop_facilitator :: 'f
  outside :: "nat \<Rightarrow> world"
  looks :: nat

definition observe :: "('f shop, world) st" where
  "observe = (\<lambda>s. (Inr (outside s (looks s)), s\<lparr>looks := Suc (looks s)\<rparr>))"

text \<open>\<open>__init__\<close> of the two stores, in a new process.\<close>

definition InMemoryNonceStore_init :: InMemoryNonceStore where
  "InMemoryNonceStore_init = \<lparr>nonce_entries = []\<rparr>"

definition InMemoryBudgetStore_init :: "int \<Rightarrow> InMemoryBudgetStore" where
  "InMemoryBudgetStore_init cap_micro = \<lparr>budget_cap = cap_micro, budget_spent = [], budget_revoked = {}\<rparr>"

definition new_shop :: "int \<Rightarrow> 'f \<Rightarrow> (nat \<Rightarrow> world) \<Rightarrow> 'f shop" where
  "new_shop cap_micro f w =
     \<lparr>shop_nonces = InMemoryNonceStore_init, shop_budget = InMemoryBudgetStore_init cap_micro,
      shop_facilitator = f, outside = w, looks = 0\<rparr>"

section \<open>\<open>InMemoryNonceStore\<close>\<close>

definition InMemoryNonceStore_issue :: "int \<Rightarrow> string option \<Rightarrow> ('f shop, string) st" where
  "InMemoryNonceStore_issue ttl identity_key =
     sbind observe (\<lambda>w1.
     sbind observe (\<lambda>w2.
     sbind (supd (\<lambda>s. s\<lparr>shop_nonces := (shop_nonces s)\<lparr>nonce_entries :=
       dict_set (w_token w1) (identity_key, w_now w2 + of_int ttl) (nonce_entries (shop_nonces s))\<rparr>\<rparr>)) (\<lambda>_.
     sret (w_token w1))))"

definition nonce_replay :: "string \<Rightarrow> ('s, 'a) st" where
  "nonce_replay m = sraise (X402 NonceReplayError) m"

definition InMemoryNonceStore_consume :: "string \<Rightarrow> string option \<Rightarrow> ('f shop, unit) st" where
  "InMemoryNonceStore_consume nonce identity_key =
     sbind (sget (\<lambda>s. dict_get (nonce_entries (shop_nonces s)) nonce)) (\<lambda>entry.
     sbind (supd (\<lambda>s. s\<lparr>shop_nonces := (shop_nonces s)\<lparr>nonce_entries :=
              AList.delete nonce (nonce_entries (shop_nonces s))\<rparr>\<rparr>)) (\<lambda>_.
     (case entry of
        None \<Rightarrow> nonce_replay ''unknown or already-used nonce''
      | Some (bound_identity, expiry) \<Rightarrow>
          sbind observe (\<lambda>w.
            if expiry < w_now w then nonce_replay ''nonce expired''
            else if bound_identity \<noteq> None \<and> bound_identity \<noteq> identity_key
            then nonce_replay ''nonce bound to a different identity''
            else sret ()))))"

definition memory_nonces :: "'f shop nonce_ops" where
  "memory_nonces = \<lparr>nonce_issue = InMemoryNonceStore_issue, nonce_consume = InMemoryNonceStore_consume\<rparr>"

section \<open>\<open>InMemoryBudgetStore\<close>\<close>

definition spent_by :: "InMemoryBudgetStore \<Rightarrow> string \<Rightarrow> int" where
  "spent_by b identity_key = (case dict_get (budget_spent b) identity_key of None \<Rightarrow> 0 | Some n \<Rightarrow> n)"

definition InMemoryBudgetStore_allowed :: "string \<Rightarrow> ('f shop, bool) st" where
  "InMemoryBudgetStore_allowed identity_key = sget (\<lambda>s. identity_key \<notin> budget_revoked (shop_budget s))"

definition InMemoryBudgetStore_remaining :: "string \<Rightarrow> ('f shop, int) st" where
  "InMemoryBudgetStore_remaining identity_key =
     sget (\<lambda>s. max 0 (budget_cap (shop_budget s) - spent_by (shop_budget s) identity_key))"

definition InMemoryBudgetStore_reserve :: "string \<Rightarrow> int \<Rightarrow> ('f shop, unit) st" where
  "InMemoryBudgetStore_reserve identity_key amount =
     sbind (InMemoryBudgetStore_allowed identity_key) (\<lambda>ok.
       if \<not> ok then sraise (X402 BudgetError) (''identity '' @ repr identity_key @ '' is revoked'')
       else
         sbind (sget (\<lambda>s. spent_by (shop_budget s) identity_key + amount > budget_cap (shop_budget s))) (\<lambda>over.
           if over then sraise (X402 BudgetError) ''payment would exceed the per-identity budget''
           else sret ()))"

definition InMemoryBudgetStore_record :: "string \<Rightarrow> int \<Rightarrow> ('f shop, unit) st" where
  "InMemoryBudgetStore_record identity_key amount =
     supd (\<lambda>s. s\<lparr>shop_budget := (shop_budget s)\<lparr>budget_spent :=
       dict_set identity_key (spent_by (shop_budget s) identity_key + amount) (budget_spent (shop_budget s))\<rparr>\<rparr>)"

definition InMemoryBudgetStore_revoke :: "string \<Rightarrow> ('f shop, unit) st" where
  "InMemoryBudgetStore_revoke identity_key =
     supd (\<lambda>s. s\<lparr>shop_budget := (shop_budget s)\<lparr>budget_revoked := insert identity_key (budget_revoked (shop_budget s))\<rparr>\<rparr>)"

definition InMemoryBudgetStore_restore :: "string \<Rightarrow> ('f shop, unit) st" where
  "InMemoryBudgetStore_restore identity_key =
     supd (\<lambda>s. s\<lparr>shop_budget := (shop_budget s)\<lparr>budget_revoked := budget_revoked (shop_budget s) - {identity_key}\<rparr>\<rparr>)"

definition memory_budget :: "'f shop budget_ops" where
  "memory_budget =
     \<lparr>budget_allowed = InMemoryBudgetStore_allowed, budget_remaining = InMemoryBudgetStore_remaining,
      budget_reserve = InMemoryBudgetStore_reserve, budget_record = InMemoryBudgetStore_record\<rparr>"

section \<open>Contracts\<close>

text \<open>
  A nonce store: \<open>entry s n\<close> is the identity a live nonce is bound to and its expiry, \<open>drawn s\<close> the tokens
  drawn so far, \<open>clock s\<close> the time of the next look.
\<close>

locale nonce_store =
  fixes ops :: "'s nonce_ops"
    and entry :: "'s \<Rightarrow> string \<Rightarrow> (string option \<times> rat) option"
    and drawn :: "'s \<Rightarrow> string set"
    and clock :: "'s \<Rightarrow> rat"
    and valid :: "'s \<Rightarrow> bool"
  assumes issue_ok: "valid s \<Longrightarrow> nonce_issue ops ttl ik s = (r, s') \<Longrightarrow>
      \<exists>n t. r = Inr n \<and> n \<notin> drawn s \<and> insert n (drawn s) \<subseteq> drawn s' \<and> clock s + of_int ttl \<le> t
        \<and> entry s' = (entry s)(n \<mapsto> (ik, t)) \<and> valid s'"
    and consume_ok: "valid s \<Longrightarrow> nonce_consume ops n ik s = (q, s') \<Longrightarrow>
      q = Inr () \<longleftrightarrow> (\<exists>b t. entry s n = Some (b, t) \<and> clock s \<le> t \<and> (b = None \<or> b = ik))"
    and consume_error: "valid s \<Longrightarrow> nonce_consume ops n ik s = (Inl e, s') \<Longrightarrow> cls e = X402 NonceReplayError"
    and consume_effect: "valid s \<Longrightarrow> nonce_consume ops n ik s = (q, s') \<Longrightarrow>
      entry s' = (entry s)(n := None) \<and> drawn s \<subseteq> drawn s' \<and> valid s'"
    and entry_drawn: "valid s \<Longrightarrow> entry s n = Some v \<Longrightarrow> n \<in> drawn s"
begin

text \<open>A nonce that was used: never live again.\<close>

definition burnt :: "string \<Rightarrow> 's \<Rightarrow> bool" where
  "burnt n s = (valid s \<and> n \<in> drawn s \<and> entry s n = None)"

lemma consume_burns:
  assumes v: "valid s" and c: "nonce_consume ops n ik s = (Inr x, s')"
  shows "burnt n s'"
proof -
  obtain b t where "entry s n = Some (b, t)" using consume_ok [OF v c] by auto
  then have "n \<in> drawn s" by (rule entry_drawn [OF v])
  with consume_effect [OF v c] show ?thesis by (auto simp: burnt_def)
qed

lemma burnt_refused: "burnt n s \<Longrightarrow> nonce_consume ops n ik s \<noteq> (Inr x, s')"
  using consume_ok [of s n ik "Inr x" s'] by (auto simp: burnt_def)

lemma keeps_burnt: "keeps (burnt n) (nonce_issue ops ttl ik)" "keeps (burnt n) (nonce_consume ops m ik)"
proof -
  show "keeps (burnt n) (nonce_issue ops ttl ik)"
    by (rule keepsI) (fastforce simp: burnt_def dest: issue_ok)
  show "keeps (burnt n) (nonce_consume ops m ik)"
    by (rule keepsI) (fastforce simp: burnt_def dest: consume_effect)
qed

end

text \<open>A budget store: a cap, what each identity has spent, and who is denied.\<close>

locale budget_store =
  fixes ops :: "'s budget_ops"
    and cap :: "'s \<Rightarrow> int"
    and spent :: "'s \<Rightarrow> string \<Rightarrow> int"
    and denied :: "'s \<Rightarrow> string set"
  assumes allowed_ok: "budget_allowed ops k s = (Inr (k \<notin> denied s), s)"
    and reserve_ok: "budget_reserve ops k a s = (q, s') \<Longrightarrow>
      s' = s \<and> (q = Inr () \<longleftrightarrow> k \<notin> denied s \<and> spent s k + a \<le> cap s) \<and> (\<forall>e. q = Inl e \<longrightarrow> cls e = X402 BudgetError)"
    and record_ok: "budget_record ops k a s = (q, s') \<Longrightarrow>
      q = Inr () \<and> spent s' = (spent s)(k := spent s k + a) \<and> cap s' = cap s \<and> denied s' = denied s"
begin

text \<open>Asking changes nothing.\<close>

lemma keeps_asking: "keeps Q (budget_allowed ops k)" "keeps Q (budget_reserve ops k a)"
  by (auto simp: keeps_def allowed_ok) (metis prod.collapse reserve_ok)

text \<open>Nobody is beyond the cap.\<close>

definition within_cap :: "'s \<Rightarrow> bool" where
  "within_cap s = (\<forall>k. spent s k \<le> cap s)"



end

section \<open>The in-memory stores meet them\<close>

definition shop_entry :: "'f shop \<Rightarrow> string \<Rightarrow> (string option \<times> rat) option" where
  "shop_entry s = map_of (nonce_entries (shop_nonces s))"

definition shop_clock :: "'f shop \<Rightarrow> rat" where
  "shop_clock s = w_now (outside s (looks s))"

definition shop_drawn :: "'f shop \<Rightarrow> string set" where
  "shop_drawn s = (\<lambda>i. w_token (outside s i)) ` {..<looks s}"

text \<open>
  The surroundings as the code relies on them: the clock does not run backwards, and
  \<open>secrets.token_urlsafe(16)\<close> does not repeat a token.
\<close>

definition world_ok :: "(nat \<Rightarrow> world) \<Rightarrow> bool" where
  "world_ok w = (mono (\<lambda>i. w_now (w i)) \<and> inj (\<lambda>i. w_token (w i)))"

definition shop_valid :: "'f shop \<Rightarrow> bool" where
  "shop_valid s = (world_ok (outside s) \<and> dom (shop_entry s) \<subseteq> shop_drawn s)"

lemma observe_eq: "observe s = (Inr (outside s (looks s)), s\<lparr>looks := Suc (looks s)\<rparr>)"
  by (simp add: observe_def)

lemma fresh_token:
  assumes "world_ok (outside s)" "looks s \<le> i"
  shows "w_token (outside s i) \<notin> shop_drawn s"
  using assms by (auto simp: world_ok_def shop_drawn_def dest: injD)

lemma issue_eq:
  "InMemoryNonceStore_issue ttl ik s =
     (let n = w_token (outside s (looks s)); t = w_now (outside s (Suc (looks s))) + of_int ttl
      in (Inr n, s\<lparr>looks := Suc (Suc (looks s)), shop_nonces := (shop_nonces s)\<lparr>nonce_entries :=
           dict_set n (ik, t) (nonce_entries (shop_nonces s))\<rparr>\<rparr>))"
  by (simp add: InMemoryNonceStore_issue_def sbind_def sthen_def observe_def supd_def sret_def Let_def)

lemmas consume_eqs = memory_nonces_def InMemoryNonceStore_consume_def sbind_def sthen_def sget_def supd_def
  observe_def nonce_replay_def sraise_def sres_def sret_def raise_def shop_entry_def shop_clock_def

lemma consume_state:
  assumes "nonce_consume memory_nonces n ik s = (q, s')"
  shows "shop_entry s' = (shop_entry s)(n := None)" "shop_drawn s \<subseteq> shop_drawn s'" "outside s' = outside s"
proof -
  let ?t = "s\<lparr>shop_nonces := (shop_nonces s)\<lparr>nonce_entries := AList.delete n (nonce_entries (shop_nonces s))\<rparr>\<rparr>"
  have "s' = ?t \<or> s' = ?t\<lparr>looks := Suc (looks s)\<rparr>"
    using assms by (auto simp: consume_eqs split: option.splits if_splits)
  then show "shop_entry s' = (shop_entry s)(n := None)" "shop_drawn s \<subseteq> shop_drawn s'" "outside s' = outside s"
    by (auto simp: shop_entry_def shop_drawn_def delete_conv')
qed

interpretation nonces: nonce_store memory_nonces shop_entry shop_drawn shop_clock shop_valid
proof
  fix s s' :: "'f shop" and ttl ik r
  assume v: "shop_valid s" and i: "nonce_issue memory_nonces ttl ik s = (r, s')"
  let ?n = "w_token (outside s (looks s))" and ?t = "w_now (outside s (Suc (looks s))) + of_int ttl"
  have s': "s' = s\<lparr>looks := Suc (Suc (looks s)), shop_nonces := (shop_nonces s)\<lparr>nonce_entries :=
           dict_set ?n (ik, ?t) (nonce_entries (shop_nonces s))\<rparr>\<rparr>" "r = Inr ?n"
    using i by (simp_all add: memory_nonces_def issue_eq Let_def)
  have "?n \<notin> shop_drawn s" using v fresh_token [of s "looks s"] by (simp add: shop_valid_def)
  moreover have d: "insert ?n (shop_drawn s) \<subseteq> shop_drawn s'" by (auto simp: s'(1) shop_drawn_def)
  moreover have "shop_clock s + of_int ttl \<le> ?t"
    using v by (simp add: shop_valid_def world_ok_def shop_clock_def mono_def)
  moreover have e: "shop_entry s' = (shop_entry s)(?n \<mapsto> (ik, ?t))"
    by (rule ext) (simp add: shop_entry_def s'(1))
  moreover have "shop_valid s'" using v d by (auto simp: shop_valid_def e) (simp add: s'(1))
  ultimately show "\<exists>n t. r = Inr n \<and> n \<notin> shop_drawn s \<and> insert n (shop_drawn s) \<subseteq> shop_drawn s'
      \<and> shop_clock s + of_int ttl \<le> t \<and> shop_entry s' = (shop_entry s)(n \<mapsto> (ik, t)) \<and> shop_valid s'"
    using s'(2) by blast
next
  fix s s' :: "'f shop" and n ik q
  assume v: "shop_valid s" and c: "nonce_consume memory_nonces n ik s = (q, s')"
  show "q = Inr () \<longleftrightarrow> (\<exists>b t. shop_entry s n = Some (b, t) \<and> shop_clock s \<le> t \<and> (b = None \<or> b = ik))"
    using c by (auto simp: consume_eqs split: option.splits if_splits)
  show "shop_entry s' = (shop_entry s)(n := None) \<and> shop_drawn s \<subseteq> shop_drawn s' \<and> shop_valid s'"
    using consume_state [OF c] v by (auto simp: shop_valid_def)
next
  fix s s' :: "'f shop" and n ik e
  assume "nonce_consume memory_nonces n ik s = (Inl e, s')"
  then show "cls e = X402 NonceReplayError"
    by (auto simp: consume_eqs split: option.splits if_splits)
next
  fix s :: "'f shop" and n v
  assume "shop_valid s" "shop_entry s n = Some v"
  then show "n \<in> shop_drawn s" by (auto simp: shop_valid_def)
qed

interpretation budget: budget_store memory_budget "\<lambda>s. budget_cap (shop_budget s)" "\<lambda>s. spent_by (shop_budget s)"
  "\<lambda>s. budget_revoked (shop_budget s)"
  by unfold_locales
    (auto simp: memory_budget_def InMemoryBudgetStore_allowed_def InMemoryBudgetStore_reserve_def
      InMemoryBudgetStore_record_def sbind_def sthen_def sget_def supd_def sraise_def sres_def sret_def raise_def
      spent_by_def split: if_splits)

end
