(* ===== verification/X402_Gate.thy ===== *)
theory X402_Gate
  imports X402_Stores Trust
begin

text \<open>
  What a paid request carries and how it is checked, from \<open>shadownet-x402/src/shadownet_x402\<close>:
  \<open>config.py\<close>, \<open>requirements.py\<close>, \<open>settlement.py\<close>, \<open>facilitator.py\<close>, \<open>pop.py\<close> and \<open>gate.py\<close>. Shown here: a stub payment parses
  to the terms it encodes, what an accepted proof of possession and an opened identity gate mean, and which error
  of a malformed payment escapes.
\<close>

section \<open>Settings and requirements\<close>

record Settings =
  facilitator_url :: string
  network_caip2 :: string
  asset_id :: int
  algod_url :: string
  algod_token :: string
  set_pay_to :: "string option"
  price_micro :: int
  budget_micro :: int
  nonce_ttl_seconds :: int
  pop_lifetime_seconds :: int
  wallet_mnemonic :: "string option"
  trust_store_path :: "string option"

record PaymentRequirements =
  pr_scheme :: string
  pr_network :: string
  pr_asset :: string
  pr_amount :: int
  pr_pay_to :: string
  pr_resource :: string
  pr_max_timeout_seconds :: int

definition build_payment_requirements :: "Settings \<Rightarrow> string \<Rightarrow> PaymentRequirements res" where
  "build_payment_requirements settings resource_url =
     (case set_pay_to settings of
        None \<Rightarrow> raise (X402 SettlementError) ''settings.pay_to is required to quote a payment''
      | Some payee \<Rightarrow>
          Inr \<lparr>pr_scheme = ''exact'', pr_network = network_caip2 settings, pr_asset = int_str (asset_id settings),
               pr_amount = price_micro settings, pr_pay_to = payee, pr_resource = resource_url,
               pr_max_timeout_seconds = 60\<rparr>)"

text \<open>\<open>PaymentRequirements.model_validate\<close> (aliases first, names too) and \<open>model_dump(by_alias=True)\<close>.\<close>

definition PaymentRequirements_model_validate :: "lib \<Rightarrow> json \<Rightarrow> PaymentRequirements res" where
  "PaymentRequirements_model_validate L j =
     validated L ''PaymentRequirements'' j
       (case j of
          JObj d \<Rightarrow>
            fap (fap (fap (fap (fap (fap (fap (FOk PaymentRequirements.make)
              (optional_field d [''scheme''] ''exact'' v_str))
              (required_field d [''network''] v_str))
              (required_field d [''asset''] v_str))
              (required_field d [''maxAmountRequired'', ''amount''] (v_int L)))
              (required_field d [''payTo'', ''pay_to''] v_str))
              (required_field d [''resource''] v_str))
              (optional_field d [''maxTimeoutSeconds'', ''max_timeout_seconds''] 60 (v_int L))
        | _ \<Rightarrow> FErr)"

definition PaymentRequirements_model_dump :: "PaymentRequirements \<Rightarrow> obj" where
  "PaymentRequirements_model_dump r =
     [(''scheme'', JStr (pr_scheme r)), (''network'', JStr (pr_network r)), (''asset'', JStr (pr_asset r)),
      (''maxAmountRequired'', JInt (pr_amount r)), (''payTo'', JStr (pr_pay_to r)),
      (''resource'', JStr (pr_resource r)), (''maxTimeoutSeconds'', JInt (pr_max_timeout_seconds r))]"

section \<open>Payments\<close>

text \<open>\<open>payer\<close> is whatever the payload holds, \<open>JNull\<close> for \<open>None\<close>.\<close>

record PaidTerms =
  pd_network :: string
  pd_asset :: string
  pd_amount :: int
  pd_pay_to :: string
  pd_payer :: json

record SettleOutcome =
  so_success :: bool
  so_transaction :: "string option"
  so_payer :: json
  so_network :: string
  so_error_reason :: "string option"

text \<open>\<open>json.dumps(value)\<close> with its default separators.\<close>

fun json_dumps_default :: "json \<Rightarrow> string" where
  "json_dumps_default (JList vs) = ''['' @ join_with '', '' (map json_dumps_default vs) @ '']''"
| "json_dumps_default (JObj ms) =
     ''{'' @ join_with '', '' (map (\<lambda>(k, v). json_quote k @ '': '' @ json_dumps_default v) ms) @ ''}''"
| "json_dumps_default v = json_dumps v"

definition x_payment_payload :: "PaidTerms \<Rightarrow> json" where
  "x_payment_payload terms =
     JObj [(''network'', JStr (pd_network terms)), (''asset'', JStr (pd_asset terms)), (''amount'', JInt (pd_amount terms)),
           (''payTo'', JStr (pd_pay_to terms)), (''payer'', pd_payer terms)]"

definition encode_x_payment :: "PaidTerms \<Rightarrow> string" where
  "encode_x_payment terms = b64u (encode_utf8 (json_dumps_default (x_payment_payload terms)))"

text \<open>\<open>data[k]\<close> for a decoded value and a string \<open>k\<close>.\<close>

definition subscript :: "json \<Rightarrow> string \<Rightarrow> json res" where
  "subscript data k =
     (case data of
        JObj d \<Rightarrow> (case dict_get d k of Some v \<Rightarrow> Inr v | None \<Rightarrow> raise (Builtin KeyError) (repr k))
      | JList _ \<Rightarrow> raise (Builtin TypeError) ''list indices must be integers or slices, not str''
      | JStr _ \<Rightarrow> raise (Builtin TypeError) (''string indices must be integers, not '' @ repr ''str'')
      | _ \<Rightarrow> raise (Builtin TypeError) (repr (type_name data) @ '' object is not subscriptable''))"

text \<open>\<open>except (KeyError, TypeError, ValueError)\<close>.\<close>

definition missing_fields :: "'a res \<Rightarrow> 'a res" where
  "missing_fields r =
     (case r of
        Inr x \<Rightarrow> Inr x
      | Inl e \<Rightarrow>
          (if is_a e (Builtin KeyError) \<or> is_a e (Builtin TypeError) \<or> is_a e (Builtin ValueError)
           then raise (X402 AmountMismatchError) (''X-PAYMENT missing required fields: '' @ str_of e)
           else Inl e))"

definition parse_x_payment :: "lib \<Rightarrow> string \<Rightarrow> PaidTerms res" where
  "parse_x_payment L x_payment =
     bind (rewrap (bind (b64u_decode x_payment) (json_loads L)) (Builtin ValueError) (X402 AmountMismatchError)
             (\<lambda>m. ''malformed X-PAYMENT: '' @ m)) (\<lambda>data.
     missing_fields
       (bind (subscript data ''network'') (\<lambda>network.
        bind (subscript data ''asset'') (\<lambda>asset.
        bind (bind (subscript data ''amount'') (int_json L)) (\<lambda>amount.
        bind (subscript data ''payTo'') (\<lambda>pay_to.
        Inr \<lparr>pd_network = str_json network, pd_asset = str_json asset, pd_amount = amount, pd_pay_to = str_json pay_to,
             pd_payer = (case data of JObj d \<Rightarrow> (case dict_get d ''payer'' of Some v \<Rightarrow> v | None \<Rightarrow> JNull) | _ \<Rightarrow> JNull)\<rparr>))))))"

definition enforce_agreed_equals_paid :: "PaidTerms \<Rightarrow> PaymentRequirements \<Rightarrow> unit res" where
  "enforce_agreed_equals_paid terms requirements =
     (let quoted = (pr_network requirements, pr_asset requirements, pr_amount requirements, pr_pay_to requirements)
      in if (pd_network terms, pd_asset terms, pd_amount terms, pd_pay_to terms) \<noteq> quoted
         then raise (X402 AmountMismatchError) ''signed payment does not match the agreed requirements''
         else Inr ())"

text \<open>\<open>FakeFacilitator.settle\<close>.\<close>

record FakeFacilitator =
  ff_transaction :: string
  ff_success :: bool

definition FakeFacilitator_settle :: "lib \<Rightarrow> FakeFacilitator \<Rightarrow> string \<Rightarrow> PaymentRequirements \<Rightarrow> SettleOutcome res" where
  "FakeFacilitator_settle L f x_payment requirements =
     (if \<not> ff_success f
      then Inr \<lparr>so_success = False, so_transaction = None, so_payer = JNull, so_network = pr_network requirements,
                so_error_reason = Some ''stub settlement failure''\<rparr>
      else
        bind (parse_x_payment L x_payment) (\<lambda>terms.
        Inr \<lparr>so_success = True, so_transaction = Some (ff_transaction f), so_payer = pd_payer terms,
             so_network = pr_network requirements, so_error_reason = None\<rparr>))"

section \<open>Proof of possession\<close>

definition POP_TYP :: string where
  "POP_TYP = ''shadownet-x402-pop+jwt''"

definition DEFAULT_POP_LIFETIME_SECONDS :: int where
  "DEFAULT_POP_LIFETIME_SECONDS = 120"

definition pop_claims :: "string \<Rightarrow> string \<Rightarrow> string \<Rightarrow> int \<Rightarrow> int \<Rightarrow> obj" where
  "pop_claims sub audience nonce issued lifetime =
     [(''sub'', JStr sub), (''aud'', JStr audience), (''nonce'', JStr nonce), (''iat'', JInt issued),
      (''exp'', JInt (issued + lifetime))]"

definition mint_pop ::
  "lib \<Rightarrow> int \<Rightarrow> Ed25519KeyPair \<Rightarrow> string \<Rightarrow> string \<Rightarrow> string \<Rightarrow> int option \<Rightarrow> int \<Rightarrow> string res"
where
  "mint_pop L clock key sub audience nonce now lifetime =
     (let issued = (case now of None \<Rightarrow> clock | Some t \<Rightarrow> t)
      in sign_jwt L (pop_claims sub audience nonce issued lifetime) key
           (Some [(''typ'', JStr POP_TYP), (''kid'', JStr sub)]))"

definition pop_error :: "string \<Rightarrow> 'a res" where
  "pop_error m = raise (X402 PoPError) m"

definition verify_pop ::
  "lib \<Rightarrow> string \<Rightarrow> string \<Rightarrow> string \<Rightarrow> string \<Rightarrow> (string \<Rightarrow> Ed25519KeyPair res) \<Rightarrow> int \<Rightarrow> unit res"
where
  "verify_pop L token expected_sub expected_audience expected_nonce resolve_subject_key lw =
     bind (rewrap (decode_header L token) (Sdk JWTError) (X402 PoPError)
             (\<lambda>m. ''invalid proof-of-possession header: '' @ m)) (\<lambda>header.
     if \<not> header_is header ''typ'' POP_TYP
     then pop_error (''typ must be '' @ repr POP_TYP @ '', got '' @ repr_opt (dict_get header ''typ''))
     else
     bind (resolve_subject_key expected_sub) (\<lambda>key.
     bind (rewrap (verify_jwt L token key (Some (JStr expected_audience)) None lw
                     (Some [''sub'', ''aud'', ''nonce'', ''iat'', ''exp'']) True)
             (Sdk JWTError) (X402 PoPError)
             (\<lambda>m. ''proof-of-possession did not verify: '' @ m)) (\<lambda>claims.
     if dict_get claims ''sub'' \<noteq> Some (JStr expected_sub)
     then pop_error ''proof-of-possession sub does not match the credential subject''
     else if dict_get claims ''nonce'' \<noteq> Some (JStr expected_nonce)
     then pop_error ''proof-of-possession nonce does not match the challenge''
     else Inr ())))"

section \<open>The identity gate\<close>

definition DEFAULT_REQUIRED_KINDS :: "string list" where
  "DEFAULT_REQUIRED_KINDS = [''org_affiliation'']"

record ShadowIdentity =
  si_sub :: string
  si_org :: string
  si_credential :: VerifiedCredential

definition default_resolve_subject_key :: "lib \<Rightarrow> string \<Rightarrow> Ed25519KeyPair res" where
  "default_resolve_subject_key L sub =
     (if \<not> is_public_key_identifier sub
      then raise (X402 GateError) (''cannot resolve a signing key for Shadowname '' @ repr sub @ ''; inject resolve_subject_key'')
      else rewrap (bind (parse_public_key sub) (from_public_bytes L)) (Sdk InvalidIdentifierError) (X402 GateError)
             (\<lambda>m. ''invalid subject key '' @ repr sub @ '': '' @ m))"

text \<open>
  The caller's choices that the gate and the paywall pass on. PyJWT's \<open>decode\<close> reads the clock itself:
  \<open>pyjwt t\<close> is its behaviour at time \<open>t\<close>.
\<close>

record gate_conf =
  g_lib :: lib
  g_pyjwt :: "rat \<Rightarrow> string \<Rightarrow> bytes \<Rightarrow> jwt_options \<Rightarrow> obj res"
  g_trust_store :: "TrustStore option"
  g_resolve_subject_key :: "(string \<Rightarrow> Ed25519KeyPair res) option"
  g_resolve_issuer_key :: "(string \<Rightarrow> string res) option"
  g_check_issuer_authorized_for_org :: "(string \<Rightarrow> string \<Rightarrow> unit res) option"
  g_check_revoked :: "(VerifiedCredential \<Rightarrow> unit res) option"

definition lib_at :: "gate_conf \<Rightarrow> world \<Rightarrow> lib" where
  "lib_at g w = (g_lib g)\<lparr>jwt_decode := g_pyjwt g (w_now w)\<rparr>"

definition gate_verify_credential :: "gate_conf \<Rightarrow> world \<Rightarrow> string \<Rightarrow> int option \<Rightarrow> int \<Rightarrow> VerifiedCredential res" where
  "gate_verify_credential g w token now lw =
     verify_credential (g_lib g) (w_dns w) \<lfloor>w_now w\<rfloor> token now lw (g_resolve_issuer_key g)
       (g_check_issuer_authorized_for_org g)"

definition revoke_check :: "gate_conf \<Rightarrow> world \<Rightarrow> VerifiedCredential \<Rightarrow> unit res" where
  "revoke_check g w credential =
     (case g_check_revoked g of
        Some f \<Rightarrow> f credential
      | None \<Rightarrow> check_revocation (g_lib g) (w_get w) credential None)"

definition run_identity_gate ::
  "('s, world) st \<Rightarrow> gate_conf \<Rightarrow> string \<Rightarrow> string \<Rightarrow> string \<Rightarrow> string \<Rightarrow> string list \<Rightarrow> int option \<Rightarrow> int
    \<Rightarrow> ('s, ShadowIdentity) st"
where
  "run_identity_gate look g credential_jws pop_jws resource_url nonce kinds now lw =
     sbind look (\<lambda>w1.
     sbind (sres (rewrap (gate_verify_credential g w1 credential_jws now lw) (Sdk CredentialError) (X402 GateError)
                    (\<lambda>m. ''credential rejected: '' @ m))) (\<lambda>credential.
     sbind (sguard (c_kind (payload credential) \<in> set kinds) (X402 GateError)
              (''credential kind '' @ repr (c_kind (payload credential)) @ '' not accepted'')) (\<lambda>_.
     sbind look (\<lambda>w2.
     sbind (sres (rewrap (revoke_check g w2 credential) (Sdk StatusListError) (X402 GateError)
                    (\<lambda>_. ''credential revoked''))) (\<lambda>_.
     sbind (sguard (case g_trust_store g of None \<Rightarrow> True | Some ts \<Rightarrow> satisfies_policy [credential] ts kinds)
              (X402 GateError) ''credential not accepted by trust policy'') (\<lambda>_.
     sbind look (\<lambda>w3.
     sbind (sres (verify_pop (lib_at g w3) pop_jws (c_sub (payload credential)) resource_url nonce
              (case g_resolve_subject_key g of Some f \<Rightarrow> f | None \<Rightarrow> default_resolve_subject_key (g_lib g)) lw)) (\<lambda>_.
     sret \<lparr>si_sub = c_sub (payload credential), si_org = c_org (payload credential), si_credential = credential\<rparr>))))))))"

section \<open>What the checks accept\<close>

lemma parse_encode_x_payment:
  assumes "json_loads L (encode_utf8 (json_dumps_default (x_payment_payload terms))) = Inr (x_payment_payload terms)"
  shows "parse_x_payment L (encode_x_payment terms) = Inr terms"
  using assms
  by (simp add: parse_x_payment_def encode_x_payment_def b64u_decode_b64u x_payment_payload_def subscript_def
      int_json_def missing_fields_def)

lemma enforce_agreed_Inr_iff [res_simps]:
  "enforce_agreed_equals_paid terms req = Inr u \<longleftrightarrow>
     pd_network terms = pr_network req \<and> pd_asset terms = pr_asset req \<and> pd_amount terms = pr_amount req
     \<and> pd_pay_to terms = pr_pay_to req"
  by (auto simp: enforce_agreed_equals_paid_def)

definition pop_options :: "string \<Rightarrow> int \<Rightarrow> jwt_options" where
  "pop_options aud lw =
     \<lparr>opt_verify_exp = True, opt_require = Some [''sub'', ''aud'', ''nonce'', ''iat'', ''exp''],
      opt_audience = Some (JStr aud), opt_issuer = None, opt_leeway = lw\<rparr>"

lemma verify_pop_Inr_iff:
  "verify_pop L token sub aud nonce resolve lw = Inr u \<longleftrightarrow>
     (\<exists>header key claims. jwt_header L token = Inr header \<and> header_is header ''typ'' POP_TYP
        \<and> resolve sub = Inr key \<and> ed_load L (public_bytes key) = Inr ()
        \<and> jwt_decode L token (public_bytes key) (pop_options aud lw) = Inr claims
        \<and> dict_get claims ''sub'' = Some (JStr sub) \<and> dict_get claims ''nonce'' = Some (JStr nonce))"
  by (auto simp: verify_pop_def verify_jwt_def pop_error_def pop_options_def res_simps)

text \<open>
  What PyJWT's \<open>decode\<close> promises at time \<open>t\<close>: it returns claims only for a token that carries exactly these
  claims under a signature of the key, unexpired, for the audience asked for, with all claims
  that were required (\<open>decode_sound\<close>); and it returns the claims of an EdDSA-signed proof of possession that is
  neither expired nor from the future (\<open>decode_complete\<close>).
\<close>

definition decode_sound :: "lib \<Rightarrow> (rat \<Rightarrow> string \<Rightarrow> bytes \<Rightarrow> jwt_options \<Rightarrow> obj res) \<Rightarrow> bool" where
  "decode_sound L pyjwt =
     (\<forall>t token pk aud lw claims. pyjwt t token pk (pop_options aud lw) = Inr claims \<longrightarrow>
        signed_by L token pk \<and> jwt_claims L token = Inr claims
        \<and> list_all (\<lambda>k. dict_get claims k \<noteq> None) [''sub'', ''aud'', ''nonce'', ''iat'', ''exp'']
        \<and> (\<forall>e. dict_get claims ''exp'' = Some (JInt e) \<longrightarrow> t - of_int lw < of_int e)
        \<and> (dict_get claims ''aud'' = Some (JStr aud) \<or> (\<exists>l. dict_get claims ''aud'' = Some (JList l) \<and> JStr aud \<in> set l)))"

definition decode_complete :: "lib \<Rightarrow> (rat \<Rightarrow> string \<Rightarrow> bytes \<Rightarrow> jwt_options \<Rightarrow> obj res) \<Rightarrow> bool" where
  "decode_complete L pyjwt =
     (\<forall>t token pk aud lw h sub nonce issued life.
        jwt_header L token = Inr h \<longrightarrow> header_is h ''alg'' ''EdDSA'' \<longrightarrow> signed_by L token pk \<longrightarrow>
        jwt_claims L token = Inr (pop_claims sub aud nonce issued life) \<longrightarrow>
        t - of_int lw < of_int (issued + life) \<longrightarrow> of_int issued \<le> t + of_int lw \<longrightarrow>
        pyjwt t token pk (pop_options aud lw) = Inr (pop_claims sub aud nonce issued life))"

lemma lib_at_fields [simp]:
  "jwt_header (lib_at g w) = jwt_header (g_lib g)" "jwt_decode (lib_at g w) = g_pyjwt g (w_now w)"
  "ed_load (lib_at g w) = ed_load (g_lib g)"
  by (simp_all add: lib_at_def)

abbreviation subject_resolver :: "gate_conf \<Rightarrow> string \<Rightarrow> Ed25519KeyPair res" where
  "subject_resolver g \<equiv>
     (case g_resolve_subject_key g of Some f \<Rightarrow> f | None \<Rightarrow> default_resolve_subject_key (g_lib g))"

text \<open>The gate opens exactly when every check passes, each in the surroundings it finds.\<close>

lemma run_identity_gate_Inr_iff:
  "run_identity_gate look g cred pop url nonce kinds now lw s = (Inr i, s') \<longleftrightarrow>
     (\<exists>w1 w2 w3 s1 s2 vc. look s = (Inr w1, s1) \<and> gate_verify_credential g w1 cred now lw = Inr vc
        \<and> c_kind (payload vc) \<in> set kinds \<and> look s1 = (Inr w2, s2) \<and> revoke_check g w2 vc = Inr ()
        \<and> (\<forall>ts. g_trust_store g = Some ts \<longrightarrow> satisfies_policy [vc] ts kinds)
        \<and> look s2 = (Inr w3, s')
        \<and> verify_pop (lib_at g w3) pop (c_sub (payload vc)) url nonce (subject_resolver g) lw = Inr ()
        \<and> i = \<lparr>si_sub = c_sub (payload vc), si_org = c_org (payload vc), si_credential = vc\<rparr>)"
proof -
  have ts: "(case g_trust_store g of None \<Rightarrow> True | Some ts \<Rightarrow> satisfies_policy [vc] ts kinds) \<longleftrightarrow>
      (\<forall>ts. g_trust_store g = Some ts \<longrightarrow> satisfies_policy [vc] ts kinds)" for vc
    by (cases "g_trust_store g") auto
  show ?thesis
    unfolding run_identity_gate_def ts
    by (simp add: sbind_Inr_iff sres_Inr_iff sguard_iff sret_iff rewrap_Inr_iff ex_simps(1,2) [symmetric] del: ex_simps) blast
qed

section \<open>An error that escapes\<close>

text \<open>
  \<open>int(data["amount"])\<close> raises \<open>OverflowError\<close> for an infinite float, which \<open>json.loads\<close> makes of \<open>1e999\<close>. It is
  neither a \<open>KeyError\<close> nor a \<open>TypeError\<close> or \<open>ValueError\<close>, so it leaves \<open>parse_x_payment\<close> as it is.
\<close>

theorem parse_x_payment_overflow:
  assumes "b64u_decode x = Inr b" "json_loads L b = Inr (JObj d)"
    and "dict_get d ''network'' = Some n" "dict_get d ''asset'' = Some a" "dict_get d ''amount'' = Some (JFloat t)"
    and "int_of_float L t = raise (Builtin OverflowError) m"
  shows "parse_x_payment L x = raise (Builtin OverflowError) m"
  using assms
  by (simp add: parse_x_payment_def subscript_def int_json_def missing_fields_def raise_def is_a_eval)

end
