(* ===== verification/Paywall.thy ===== *)
theory Paywall
  imports X402_Gate
begin

text \<open>
  The paywall, from \<open>shadownet-x402/src/shadownet_x402\<close>: \<open>server.py\<close> (challenge and settlement), its HTTP
  face \<open>asgi.py\<close> and the buyer's \<open>client.py\<close>. Shown here, for the server over its in-memory stores: what a
  settled request proves about its caller, that a nonce settles at most one payment, that the budget
  ledger counts exactly the settled payments and stays within the cap, and that an honest buyer's
  handshake ends with a settled payment.
\<close>

section \<open>The server\<close>

datatype PaywallResult =
    Challenge PaymentRequirements string
  | Settled ShadowIdentity SettleOutcome
  | Refused int string

record 's Paywall =
  pw_settings :: Settings
  pw_nonce :: "'s nonce_ops"
  pw_budget :: "'s budget_ops"
  pw_settle :: "string \<Rightarrow> PaymentRequirements \<Rightarrow> ('s, SettleOutcome) st"
  pw_gate :: gate_conf
  pw_look :: "('s, world) st"

text \<open>\<open>try: x = m except c as exc: return h(exc)\<close>, and then the rest of the body.\<close>

definition try_return :: "('s, 'a) st \<Rightarrow> excls \<Rightarrow> (exn \<Rightarrow> 'b) \<Rightarrow> ('a \<Rightarrow> ('s, 'b) st) \<Rightarrow> ('s, 'b) st" where
  "try_return m c h k =
     sthen m (\<lambda>r. case r of Inl e \<Rightarrow> (if is_a e c then sret (h e) else sres (Inl e)) | Inr x \<Rightarrow> k x)"

text \<open>\<open>not v\<close> for an optional string.\<close>

definition absent :: "string option \<Rightarrow> bool" where
  "absent v = (v = None \<or> v = Some '''')"

definition DEFAULT_LEEWAY :: int where
  "DEFAULT_LEEWAY = 60"

definition challenge :: "'s Paywall \<Rightarrow> string \<Rightarrow> string option \<Rightarrow> ('s, PaywallResult) st" where
  "challenge P resource_url credential =
     (if absent credential then sret (Refused 401 ''Shadow-Credential header required'')
      else
        sbind (pw_look P) (\<lambda>w1.
        try_return (sres (gate_verify_credential (pw_gate P) w1 (the credential) None DEFAULT_LEEWAY)) (Sdk CredentialError)
          (\<lambda>e. Refused 403 (''credential rejected: '' @ str_of e)) (\<lambda>verified.
        let sub = c_sub (payload verified) in
        sbind (budget_allowed (pw_budget P) sub) (\<lambda>ok.
        if \<not> ok then sret (Refused 403 ''identity revoked'')
        else
          sbind (pw_look P) (\<lambda>w2.
          try_return (sres (revoke_check (pw_gate P) w2 verified)) (Sdk StatusListError)
            (\<lambda>_. Refused 403 ''credential revoked'') (\<lambda>_.
          sbind (nonce_issue (pw_nonce P) (nonce_ttl_seconds (pw_settings P)) (Some sub)) (\<lambda>nonce.
          sbind (sres (build_payment_requirements (pw_settings P) resource_url)) (\<lambda>requirements.
          sret (Challenge requirements nonce)))))))))"

text \<open>\<open>str(claims.get("nonce", ""))\<close>.\<close>

definition claimed_nonce :: "obj \<Rightarrow> string" where
  "claimed_nonce claims = (case dict_get claims ''nonce'' of None \<Rightarrow> '''' | Some v \<Rightarrow> str_json v)"

definition settle :: "'s Paywall \<Rightarrow> string \<Rightarrow> string option \<Rightarrow> string option \<Rightarrow> string \<Rightarrow> ('s, PaywallResult) st" where
  "settle P resource_url credential pop x_payment =
     (if absent credential \<or> absent pop
      then sret (Refused 401 ''Shadow-Credential and Shadow-PoP headers required'')
      else
        try_return (sres (decode_unverified_claims (g_lib (pw_gate P)) (the pop))) (Sdk JWTError)
          (\<lambda>_. Refused 400 ''malformed proof-of-possession'') (\<lambda>claims.
        let nonce = claimed_nonce claims in
        try_return
          (run_identity_gate (pw_look P) (pw_gate P) (the credential) (the pop) resource_url nonce
             DEFAULT_REQUIRED_KINDS None DEFAULT_LEEWAY)
          (X402 GateError) (\<lambda>e. Refused 403 (''identity refused: '' @ str_of e)) (\<lambda>identity.
        try_return (nonce_consume (pw_nonce P) nonce (Some (si_sub identity))) (X402 NonceReplayError)
          (\<lambda>_. Refused 409 ''payment nonce reused or expired'') (\<lambda>_.
        sbind (sres (build_payment_requirements (pw_settings P) resource_url)) (\<lambda>requirements.
        try_return
          (sres (bind (parse_x_payment (g_lib (pw_gate P)) x_payment) (\<lambda>terms. enforce_agreed_equals_paid terms requirements)))
          (X402 AmountMismatchError) (\<lambda>e. Refused 402 (str_of e)) (\<lambda>_.
        try_return (budget_reserve (pw_budget P) (si_sub identity) (pr_amount requirements)) (X402 BudgetError)
          (\<lambda>e. Refused 402 (str_of e)) (\<lambda>_.
        try_return (pw_settle P x_payment requirements) (X402 SettlementError)
          (\<lambda>e. Refused 402 (str_of e)) (\<lambda>outcome.
        if \<not> so_success outcome
        then sret (Refused 402 (if absent (so_error_reason outcome) then ''settlement failed''
                                else the (so_error_reason outcome)))
        else
          sbind (budget_record (pw_budget P) (si_sub identity) (pr_amount requirements)) (\<lambda>_.
          sret (Settled identity outcome))))))))))"

text \<open>\<open>Paywall.process\<close>.\<close>

definition paywall_process ::
  "'s Paywall \<Rightarrow> string \<Rightarrow> string option \<Rightarrow> string option \<Rightarrow> string option \<Rightarrow> ('s, PaywallResult) st"
where
  "paywall_process P resource_url credential pop x_payment =
     (case x_payment of
        None \<Rightarrow> challenge P resource_url credential
      | Some x \<Rightarrow> settle P resource_url credential pop x)"

section \<open>HTTP\<close>

definition read_payment_headers :: "(string \<Rightarrow> string option) \<Rightarrow> string option \<times> string option \<times> string option" where
  "read_payment_headers get = (get ''Shadow-Credential'', get ''Shadow-PoP'', get ''X-PAYMENT'')"

record JSONResponse =
  jr_status :: int
  jr_content :: json
  jr_headers :: headers

definition json_opt :: "string option \<Rightarrow> json" where
  "json_opt v = (case v of None \<Rightarrow> JNull | Some s \<Rightarrow> JStr s)"

definition encode_receipt :: "SettleOutcome \<Rightarrow> string" where
  "encode_receipt outcome =
     b64u (encode_utf8 (json_dumps_default (JObj
       [(''success'', JBool (so_success outcome)), (''transaction'', json_opt (so_transaction outcome)),
        (''network'', JStr (so_network outcome)), (''payer'', so_payer outcome)])))"

definition to_response :: "PaywallResult \<Rightarrow> obj option \<Rightarrow> JSONResponse" where
  "to_response result body =
     (case result of
        Challenge requirements nonce \<Rightarrow>
          \<lparr>jr_status = 402,
           jr_content = JObj [(''x402Version'', JInt 1),
             (''accepts'', JList [JObj (PaymentRequirements_model_dump requirements)]),
             (''resource'', JStr (pr_resource requirements))],
           jr_headers = [(''Shadow-Nonce'', nonce)]\<rparr>
      | Refused status reason \<Rightarrow> \<lparr>jr_status = status, jr_content = JObj [(''error'', JStr reason)], jr_headers = []\<rparr>
      | Settled identity outcome \<Rightarrow>
          \<lparr>jr_status = 200, jr_content = JObj (case body of None \<Rightarrow> [] | Some b \<Rightarrow> b),
           jr_headers = (if so_transaction outcome = None then []
                         else [(''X-PAYMENT-RESPONSE'', encode_receipt outcome)])\<rparr>)"

section \<open>The buyer\<close>

record ShadowX402Client =
  shadow_key :: Ed25519KeyPair
  shadow_sub :: string
  client_credential :: string
  client_payer :: string
  client_build_payment :: "(PaymentRequirements \<Rightarrow> string) option"

definition stub_payment :: "ShadowX402Client \<Rightarrow> PaymentRequirements \<Rightarrow> string" where
  "stub_payment c requirements =
     encode_x_payment \<lparr>pd_network = pr_network requirements, pd_asset = pr_asset requirements,
       pd_amount = pr_amount requirements, pd_pay_to = pr_pay_to requirements, pd_payer = JStr (client_payer c)\<rparr>"

text \<open>\<open>data["accepts"][0]\<close>.\<close>

definition first_accepts :: "json \<Rightarrow> json res" where
  "first_accepts data =
     bind (subscript data ''accepts'') (\<lambda>v.
       (case v of
          JList (x # _) \<Rightarrow> Inr x
        | JList [] \<Rightarrow> raise (Builtin IndexError) ''list index out of range''
        | JStr (c # _) \<Rightarrow> Inr (JStr [c])
        | JStr [] \<Rightarrow> raise (Builtin IndexError) ''string index out of range''
        | JObj _ \<Rightarrow> raise (Builtin KeyError) ''0''
        | _ \<Rightarrow> raise (Builtin TypeError) (repr (type_name v) @ '' object is not subscriptable'')))"

text \<open>\<open>http\<close> is the \<open>get\<close> of the \<open>httpx.AsyncClient\<close>, \<open>clock\<close> what \<open>int(time.time())\<close> gives when the proof is minted.\<close>

definition ShadowX402Client_get ::
  "lib \<Rightarrow> ShadowX402Client \<Rightarrow> (string \<Rightarrow> headers \<Rightarrow> ('s, http_response) task) \<Rightarrow> ('s, int) st \<Rightarrow> string
    \<Rightarrow> ('s, http_response) task"
where
  "ShadowX402Client_get L c http clock url =
     tbind (http url [(''Shadow-Credential'', client_credential c)]) (\<lambda>answer.
     if status_code answer \<noteq> 402 then Ret (Inr answer)
     else
       (let nonce = (case resp_header answer ''Shadow-Nonce'' of None \<Rightarrow> '''' | Some n \<Rightarrow> n) in
        tbind (Ret (bind (bind (resp_json answer) first_accepts) (PaymentRequirements_model_validate L))) (\<lambda>requirements.
        tbind (atomic clock) (\<lambda>t.
        tbind (Ret (mint_pop L t (shadow_key c) (shadow_sub c) url nonce None DEFAULT_POP_LIFETIME_SECONDS)) (\<lambda>pop.
        (let x_payment = (case client_build_payment c of Some f \<Rightarrow> f requirements | None \<Rightarrow> stub_payment c requirements) in
        http url [(''Shadow-Credential'', client_credential c), (''Shadow-PoP'', pop), (''X-PAYMENT'', x_payment)]))))))"

section \<open>The server over its in-memory stores\<close>

definition memory_paywall ::
  "Settings \<Rightarrow> gate_conf \<Rightarrow> (string \<Rightarrow> PaymentRequirements \<Rightarrow> ('f, SettleOutcome) st) \<Rightarrow> 'f shop Paywall"
where
  "memory_paywall settings g facilitator =
     \<lparr>pw_settings = settings, pw_nonce = memory_nonces, pw_budget = memory_budget,
      pw_settle = (\<lambda>x req s. case facilitator x req (shop_facilitator s) of (r, f) \<Rightarrow> (r, s\<lparr>shop_facilitator := f\<rparr>)),
      pw_gate = g, pw_look = observe\<rparr>"

section \<open>How a request can end\<close>

lemma try_return_Inr_iff:
  "try_return m c h k s = (Inr y, s'') \<longleftrightarrow>
     (\<exists>x s'. m s = (Inr x, s') \<and> k x s' = (Inr y, s'')) \<or> (\<exists>e. m s = (Inl e, s'') \<and> is_a e c \<and> y = h e)"
  by (auto simp: try_return_def sthen_def sret_def sres_def split: prod.splits sum.splits)

lemma try_return_cases:
  assumes "try_return m c h k s = (r, s'')"
  obtains (returned) x s' where "m s = (Inr x, s')" "k x s' = (r, s'')"
  | (caught) e where "m s = (Inl e, s'')" "is_a e c" "r = Inr (h e)"
  | (escaped) e where "m s = (Inl e, s'')" "\<not> is_a e c" "r = Inl e"
  using assms by (cases "m s"; cases "fst (m s)") (auto simp: try_return_def sthen_def sret_def sres_def split: if_splits)

lemma keeps_try_return [keeps_intros]:
  "keeps Q m \<Longrightarrow> (\<And>x. keeps Q (k x)) \<Longrightarrow> keeps Q (try_return m c h k)"
  unfolding try_return_def by (intro keeps_sthen) (auto intro: keeps_sres split: sum.splits)

text \<open>The path of a settled request, step by step.\<close>

lemma settle_path:
  assumes "settle P url cred pop x s = (Inr (Settled i oc), s')"
  obtains claims req terms s1 s2 s3 s4 where
    "\<not> absent cred" "\<not> absent pop" "jwt_claims (g_lib (pw_gate P)) (the pop) = Inr claims"
    "run_identity_gate (pw_look P) (pw_gate P) (the cred) (the pop) url (claimed_nonce claims)
       DEFAULT_REQUIRED_KINDS None DEFAULT_LEEWAY s = (Inr i, s1)"
    "nonce_consume (pw_nonce P) (claimed_nonce claims) (Some (si_sub i)) s1 = (Inr (), s2)"
    "build_payment_requirements (pw_settings P) url = Inr req"
    "parse_x_payment (g_lib (pw_gate P)) x = Inr terms" "enforce_agreed_equals_paid terms req = Inr ()"
    "budget_reserve (pw_budget P) (si_sub i) (pr_amount req) s2 = (Inr (), s3)"
    "pw_settle P x req s3 = (Inr oc, s4)" "so_success oc"
    "budget_record (pw_budget P) (si_sub i) (pr_amount req) s4 = (Inr (), s')"
  using assms
  by (auto simp: settle_def try_return_Inr_iff sbind_Inr_iff sres_Inr_iff sret_iff bind_Inr_iff Let_def
      decode_unverified_claims_Inr_iff split: if_splits)

lemma challenge_not_Settled: "challenge P url cred s \<noteq> (Inr (Settled i oc), s')"
  by (auto simp: challenge_def try_return_Inr_iff sbind_Inr_iff sret_iff Let_def split: if_splits)

text \<open>Whether a request settled a payment of a given identity.\<close>

fun settled_for :: "string \<Rightarrow> PaywallResult res \<Rightarrow> bool" where
  "settled_for k (Inr (Settled i oc)) = (si_sub i = k)"
| "settled_for k _ = False"

section \<open>The contract between the paywall and its stores\<close>

text \<open>
  The two stores, and that neither the other store's operations nor the surroundings or the
  facilitator touch their contents.
\<close>

locale paywall =
  nonce_store nops entry drawn clock valid + budget_store bops cap spent denied
  for nops :: "'s nonce_ops" and entry :: "'s \<Rightarrow> string \<Rightarrow> (string option \<times> rat) option" and drawn :: "'s \<Rightarrow> string set"
    and clock :: "'s \<Rightarrow> rat" and valid :: "'s \<Rightarrow> bool" and bops :: "'s budget_ops" and cap :: "'s \<Rightarrow> int"
    and spent :: "'s \<Rightarrow> string \<Rightarrow> int" and denied :: "'s \<Rightarrow> string set" +
  fixes P :: "'s Paywall"
  assumes stores: "pw_nonce P = nops" "pw_budget P = bops"
    and look_frame: "pw_look P s = (rw, s') \<Longrightarrow> spent s' = spent s \<and> cap s' = cap s \<and> denied s' = denied s"
    and settle_frame: "pw_settle P x req s = (ro, s') \<Longrightarrow> spent s' = spent s \<and> cap s' = cap s \<and> denied s' = denied s"
    and issue_frame: "nonce_issue nops ttl ik s = (r, s') \<Longrightarrow> spent s' = spent s \<and> cap s' = cap s \<and> denied s' = denied s"
    and consume_frame: "nonce_consume nops n ik s = (q, s') \<Longrightarrow> spent s' = spent s \<and> cap s' = cap s \<and> denied s' = denied s"
    and look_nonces: "valid s \<Longrightarrow> pw_look P s = (rw, s') \<Longrightarrow> entry s' = entry s \<and> drawn s \<subseteq> drawn s' \<and> valid s'"
    and settle_nonces: "valid s \<Longrightarrow> pw_settle P x req s = (ro, s') \<Longrightarrow> entry s' = entry s \<and> drawn s \<subseteq> drawn s' \<and> valid s'"
    and record_nonces: "valid s \<Longrightarrow> budget_record bops k a s = (q, s') \<Longrightarrow> entry s' = entry s \<and> drawn s' = drawn s \<and> valid s'"
begin

text \<open>Code that spends nothing, and code that spends the price exactly when it settles.\<close>

definition frugal :: "('s, 'a) st \<Rightarrow> bool" where
  "frugal m = (\<forall>s r s'. m s = (r, s') \<longrightarrow> spent s' = spent s \<and> cap s' = cap s \<and> denied s' = denied s)"

definition accounted :: "('s, PaywallResult) st \<Rightarrow> bool" where
  "accounted m = (\<forall>s r s'. m s = (r, s') \<longrightarrow> cap s' = cap s \<and> denied s' = denied s \<and>
     (\<forall>k. spent s' k = spent s k + (if settled_for k r then price_micro (pw_settings P) else 0)))"

lemma frugalI: "(\<And>s r s'. m s = (r, s') \<Longrightarrow> spent s' = spent s \<and> cap s' = cap s \<and> denied s' = denied s) \<Longrightarrow> frugal m"
  by (simp add: frugal_def)

lemma frugal_pure [simp]: "frugal (sres r0)" "frugal (sret x)" "frugal (sguard b c m)"
  by (auto simp: frugal_def res_simps sguard_def sres_def)

lemma frugal_sbind: "frugal m \<Longrightarrow> (\<And>x. frugal (f x)) \<Longrightarrow> frugal (sbind m f)"
  by (fastforce simp: frugal_def sbind_def sthen_def sres_def split: prod.splits sum.splits)

lemma frugal_stores:
  "frugal (pw_look P)" "frugal (pw_settle P x req)" "frugal (nonce_issue nops ttl ik)" "frugal (nonce_consume nops n ik)"
  "frugal (budget_allowed bops k)" "frugal (budget_reserve bops k a)"
  by (rule frugalI; blast dest: look_frame settle_frame issue_frame consume_frame reserve_ok)+
    (auto simp: frugal_def allowed_ok dest: reserve_ok)

end

context paywall
begin

lemma frugal_gate: "frugal (run_identity_gate (pw_look P) g cred pop url n kinds now lw)"
  unfolding run_identity_gate_def by (intro frugal_sbind frugal_stores frugal_pure)

lemma accounted_unsettled:
  assumes "frugal m" "\<And>s r s' k. m s = (r, s') \<Longrightarrow> \<not> settled_for k r"
  shows "accounted m"
  using assms unfolding accounted_def frugal_def by simp

lemma accounted_pure: "accounted (sret (Refused c m))" "accounted (sret (Challenge req n))" "accounted (sres (Inl e))"
  by (rule accounted_unsettled; auto simp: sret_iff sres_iff)+

lemma accounted_sbind:
  assumes "frugal m" "\<And>s x s'. m s = (Inr x, s') \<Longrightarrow> accounted (f x)"
  shows "accounted (sbind m f)"
  unfolding accounted_def
proof (intro allI impI)
  fix s r s'
  assume r: "sbind m f s = (r, s')"
  then consider (raised) e where "m s = (Inl e, s')" "r = Inl e"
    | (returned) x s1 where "m s = (Inr x, s1)" "f x s1 = (r, s')"
    by (cases r) (auto simp: res_simps)
  then show "cap s' = cap s \<and> denied s' = denied s \<and>
     (\<forall>k. spent s' k = spent s k + (if settled_for k r then price_micro (pw_settings P) else 0))"
  proof cases
    case raised
    then show ?thesis using assms(1) by (simp add: frugal_def)
  next
    case returned
    then show ?thesis using assms(1) assms(2) [OF returned(1)] by (simp add: frugal_def accounted_def)
  qed
qed

lemma accounted_try_return:
  assumes "frugal m" "\<And>e k. \<not> settled_for k (Inr (h e))" "\<And>s x s'. m s = (Inr x, s') \<Longrightarrow> accounted (f x)"
  shows "accounted (try_return m c h f)"
  unfolding accounted_def
proof (intro allI impI)
  fix s r s'
  assume "try_return m c h f s = (r, s')"
  then show "cap s' = cap s \<and> denied s' = denied s \<and>
     (\<forall>k. spent s' k = spent s k + (if settled_for k r then price_micro (pw_settings P) else 0))"
  proof (cases rule: try_return_cases)
    case (returned x s1)
    then show ?thesis using assms(1) assms(3) [OF returned(1)] by (simp add: frugal_def accounted_def)
  qed (use assms(1,2) in \<open>auto simp: frugal_def\<close>)
qed

lemma accounted_record:
  assumes "a = price_micro (pw_settings P)"
  shows "accounted (sbind (budget_record bops (si_sub i) a) (\<lambda>_. sret (Settled i oc)))"
  unfolding accounted_def
proof (intro allI impI)
  fix s r s'
  assume r: "sbind (budget_record bops (si_sub i) a) (\<lambda>_. sret (Settled i oc)) s = (r, s')"
  obtain q s1 where c: "budget_record bops (si_sub i) a s = (q, s1)" by force
  from record_ok [OF c] r c have "r = Inr (Settled i oc)" "s' = s1" by (auto simp: sbind_def sthen_def sret_def)
  then show "cap s' = cap s \<and> denied s' = denied s \<and>
     (\<forall>k. spent s' k = spent s k + (if settled_for k r then price_micro (pw_settings P) else 0))"
    using record_ok [OF c] assms by simp
qed

lemma requirements_price: "build_payment_requirements cfg url = Inr req \<Longrightarrow> pr_amount req = price_micro cfg"
  by (auto simp: build_payment_requirements_def split: option.splits)

lemma accounted_if: "accounted m \<Longrightarrow> accounted n \<Longrightarrow> accounted (if b then m else n)"
  by simp

text \<open>Every request is accounted for: the ledger grows by the price exactly when it settles.\<close>

lemma accounted_process: "accounted (paywall_process P url cred pop x)"
proof (cases x)
  case None
  have "accounted (challenge P url cred)"
    unfolding challenge_def Let_def stores
    by (intro accounted_if accounted_sbind accounted_try_return accounted_pure frugal_stores frugal_pure) simp_all
  with None show ?thesis by (simp add: paywall_process_def)
next
  case (Some xp)
  have "accounted (settle P url cred pop xp)"
    unfolding settle_def Let_def stores
    by (intro accounted_if accounted_sbind accounted_try_return accounted_pure accounted_record frugal_stores
        frugal_pure frugal_gate) (simp_all add: sres_Inr_iff requirements_price)
  with Some show ?thesis by (simp add: paywall_process_def)
qed

text \<open>A used nonce stays used.\<close>

lemma keeps_burnt_ops:
  "keeps (burnt n) (pw_look P)" "keeps (burnt n) (pw_settle P x req)" "keeps (burnt n) (budget_record bops k a)"
  by (rule keepsI; fastforce simp: burnt_def dest: look_nonces settle_nonces record_nonces)+

lemma keeps_burnt_gate: "keeps (burnt n) (run_identity_gate (pw_look P) g cred pop url m kinds now lw)"
  unfolding run_identity_gate_def by (intro keeps_intros keeps_burnt_ops)

lemma keeps_burnt_process: "keeps (burnt n) (paywall_process P url cred pop x)"
  unfolding paywall_process_def challenge_def settle_def Let_def stores
  by (intro keeps_intros keeps_burnt keeps_burnt_ops keeps_burnt_gate keeps_asking)

lemma gate_nonces:
  assumes "run_identity_gate (pw_look P) g cred pop url m kinds now lw s = (r, s')" "valid s"
  shows "valid s' \<and> entry s' = entry s"
proof -
  have "keeps (\<lambda>s1. valid s1 \<and> entry s1 = entry s) (pw_look P)"
    by (rule keepsI) (metis look_nonces)
  then have "keeps (\<lambda>s1. valid s1 \<and> entry s1 = entry s) (run_identity_gate (pw_look P) g cred pop url m kinds now lw)"
    unfolding run_identity_gate_def by (intro keeps_intros)
  from keepsD [OF this assms(1)] assms(2) show ?thesis by simp
qed

lemma settled_burns:
  assumes "valid s" "settle P url cred pop x s = (Inr (Settled i oc), s')"
    "jwt_claims (g_lib (pw_gate P)) (the pop) = Inr claims"
  shows "burnt (claimed_nonce claims) s'"
proof -
  let ?n = "claimed_nonce claims"
  from assms(2) obtain req s1 s2 s3 s4 where
    1: "run_identity_gate (pw_look P) (pw_gate P) (the cred) (the pop) url ?n DEFAULT_REQUIRED_KINDS None DEFAULT_LEEWAY s
          = (Inr i, s1)"
    and 2: "nonce_consume nops ?n (Some (si_sub i)) s1 = (Inr (), s2)"
    and 3: "budget_reserve bops (si_sub i) (pr_amount req) s2 = (Inr (), s3)"
    and 4: "pw_settle P x req s3 = (Inr oc, s4)"
    and 5: "budget_record bops (si_sub i) (pr_amount req) s4 = (Inr (), s')"
    by (rule settle_path) (use assms(3) in \<open>auto simp: stores\<close>)
  have "burnt ?n s2" using consume_burns gate_nonces [OF 1 assms(1)] 2 by blast
  then show ?thesis
    using keepsD [OF keeps_asking(2) 3] keepsD [OF keeps_burnt_ops(2) 4] keepsD [OF keeps_burnt_ops(3) 5] by blast
qed

lemma burnt_not_settled:
  assumes "burnt (claimed_nonce claims) s" "jwt_claims (g_lib (pw_gate P)) (the pop) = Inr claims"
  shows "settle P url cred pop x s \<noteq> (Inr (Settled i oc), s')"
proof
  assume "settle P url cred pop x s = (Inr (Settled i oc), s')"
  then obtain s1 s2 where
    1: "run_identity_gate (pw_look P) (pw_gate P) (the cred) (the pop) url (claimed_nonce claims) DEFAULT_REQUIRED_KINDS None DEFAULT_LEEWAY s
          = (Inr i, s1)"
    and 2: "nonce_consume nops (claimed_nonce claims) (Some (si_sub i)) s1 = (Inr (), s2)"
    by (rule settle_path) (use assms(2) in \<open>auto simp: stores\<close>)
  show False using keepsD [OF keeps_burnt_gate 1 assms(1)] burnt_refused 2 by blast
qed

end

context paywall
begin

lemma keeps_valid_process: "keeps valid (paywall_process P url cred pop x)"
proof -
  have ops: "keeps valid (pw_look P)" "keeps valid (pw_settle P x req)" "keeps valid (nonce_issue nops ttl ik)"
      "keeps valid (nonce_consume nops n ik)" "keeps valid (budget_record bops k a)"
      for x req ttl ik n k a
    by (rule keepsI, drule (1) look_nonces settle_nonces issue_ok consume_effect record_nonces, blast)+
  then show ?thesis
    unfolding paywall_process_def challenge_def settle_def run_identity_gate_def Let_def stores
    by (intro keeps_intros ops keeps_asking)
qed

lemma settled_within_cap:
  assumes "settle P url cred pop x s = (Inr (Settled i oc), s')"
  shows "spent s (si_sub i) + price_micro (pw_settings P) \<le> cap s \<and> si_sub i \<notin> denied s"
proof -
  from assms obtain n req s1 s2 s3 where
    1: "run_identity_gate (pw_look P) (pw_gate P) (the cred) (the pop) url n DEFAULT_REQUIRED_KINDS None DEFAULT_LEEWAY s
          = (Inr i, s1)"
    and 2: "nonce_consume nops n (Some (si_sub i)) s1 = (Inr (), s2)"
    and req: "build_payment_requirements (pw_settings P) url = Inr req"
    and 3: "budget_reserve bops (si_sub i) (pr_amount req) s2 = (Inr (), s3)"
    by (rule settle_path) (auto simp: stores)
  from frugal_gate 1 consume_frame [OF 2] have "spent s2 = spent s" "cap s2 = cap s" "denied s2 = denied s"
    unfolding frugal_def by metis+
  with reserve_ok [OF 3] requirements_price [OF req] show ?thesis by simp
qed

lemma keeps_within_cap: "keeps within_cap (paywall_process P url cred pop x)"
proof (rule keepsI)
  fix s r s'
  assume w: "within_cap s" and r: "paywall_process P url cred pop x s = (r, s')"
  from accounted_process r have a: "cap s' = cap s"
    "\<And>k. spent s' k = spent s k + (if settled_for k r then price_micro (pw_settings P) else 0)"
    unfolding accounted_def by blast+
  have "spent s k + price_micro (pw_settings P) \<le> cap s" if k: "settled_for k r" for k
  proof -
    obtain i oc where i: "r = Inr (Settled i oc)" "si_sub i = k" using k by (cases "(k, r)" rule: settled_for.cases) auto
    with r obtain xp where "settle P url cred pop xp s = (Inr (Settled i oc), s')"
      by (auto simp: paywall_process_def challenge_not_Settled split: option.splits)
    from settled_within_cap [OF this] i show ?thesis by simp
  qed
  with w a show "within_cap s'" by (simp add: within_cap_def)
qed

end

lemma shop_looks [simp]:
  "shop_entry (s\<lparr>looks := k\<rparr>) = shop_entry s" "shop_entry (s\<lparr>shop_facilitator := f\<rparr>) = shop_entry s"
  "shop_entry (s\<lparr>shop_budget := b\<rparr>) = shop_entry s" "shop_drawn (s\<lparr>shop_facilitator := f\<rparr>) = shop_drawn s"
  "shop_drawn (s\<lparr>shop_budget := b\<rparr>) = shop_drawn s"
  by (auto simp: shop_entry_def shop_drawn_def)

lemma shop_drawn_looks: "shop_drawn s \<subseteq> shop_drawn (s\<lparr>looks := Suc (looks s)\<rparr>)"
  by (auto simp: shop_drawn_def)

interpretation shop: paywall memory_nonces shop_entry shop_drawn shop_clock shop_valid memory_budget
  "\<lambda>s. budget_cap (shop_budget s)" "\<lambda>s. spent_by (shop_budget s)" "\<lambda>s. budget_revoked (shop_budget s)"
  "memory_paywall settings g facilitator"
proof
  let ?P = "memory_paywall settings g facilitator"
  show "pw_nonce ?P = memory_nonces" "pw_budget ?P = memory_budget" by (simp_all add: memory_paywall_def)
  fix s s' :: "'a shop"
  fix rw assume l: "pw_look ?P s = (rw, s')"
  then have s': "s' = s\<lparr>looks := Suc (looks s)\<rparr>" by (auto simp: memory_paywall_def observe_eq)
  then show "spent_by (shop_budget s') = spent_by (shop_budget s) \<and> budget_cap (shop_budget s') = budget_cap (shop_budget s)
      \<and> budget_revoked (shop_budget s') = budget_revoked (shop_budget s)" by simp
  assume "shop_valid s"
  then show "shop_entry s' = shop_entry s \<and> shop_drawn s \<subseteq> shop_drawn s' \<and> shop_valid s'"
    using shop_drawn_looks [of s] by (auto simp: s' shop_valid_def)
next
  let ?P = "memory_paywall settings g facilitator"
  fix s s' :: "'a shop"
  fix x req ro assume "pw_settle ?P x req s = (ro, s')"
  then obtain f where s': "s' = s\<lparr>shop_facilitator := f\<rparr>" by (auto simp: memory_paywall_def split: prod.splits)
  then show "spent_by (shop_budget s') = spent_by (shop_budget s) \<and> budget_cap (shop_budget s') = budget_cap (shop_budget s)
      \<and> budget_revoked (shop_budget s') = budget_revoked (shop_budget s)" by simp
  assume "shop_valid s"
  then show "shop_entry s' = shop_entry s \<and> shop_drawn s \<subseteq> shop_drawn s' \<and> shop_valid s'"
    by (simp add: s' shop_valid_def)
next
  fix s s' :: "'a shop" and ttl ik r
  assume "nonce_issue memory_nonces ttl ik s = (r, s')"
  then show "spent_by (shop_budget s') = spent_by (shop_budget s) \<and> budget_cap (shop_budget s') = budget_cap (shop_budget s)
      \<and> budget_revoked (shop_budget s') = budget_revoked (shop_budget s)"
    by (auto simp: memory_nonces_def issue_eq Let_def)
next
  fix s s' :: "'a shop" and n ik q
  assume "nonce_consume memory_nonces n ik s = (q, s')"
  then show "spent_by (shop_budget s') = spent_by (shop_budget s) \<and> budget_cap (shop_budget s') = budget_cap (shop_budget s)
      \<and> budget_revoked (shop_budget s') = budget_revoked (shop_budget s)"
    by (auto simp: consume_eqs split: option.splits if_splits)
next
  fix s s' :: "'a shop" and k a q
  assume v: "shop_valid s" and "budget_record memory_budget k a s = (q, s')"
  then obtain b where "s' = s\<lparr>shop_budget := b\<rparr>"
    by (auto simp: memory_budget_def InMemoryBudgetStore_record_def supd_def)
  with v show "shop_entry s' = shop_entry s \<and> shop_drawn s' = shop_drawn s \<and> shop_valid s'"
    by (simp add: shop_valid_def)
qed

section \<open>Runs of the server\<close>

text \<open>
  Requests in the order the server takes them (\<open>process\<close> does not suspend), and the operator's kill switch
  between them. The log keeps, for every request, its proof of possession and how it ended; a request
  that raises leaves the state as it was at that point.
\<close>

datatype shop_event =
    Request string "string option" "string option" "string option"
  | Revoke string
  | Restore string

type_synonym shop_log = "(string option \<times> PaywallResult res) list"

fun shop_run :: "'f shop Paywall \<Rightarrow> shop_event list \<Rightarrow> 'f shop \<Rightarrow> shop_log \<times> 'f shop" where
  "shop_run P [] s = ([], s)"
| "shop_run P (Request url cred pop x # es) s =
     (case paywall_process P url cred pop x s of (r, s1) \<Rightarrow> map_prod (\<lambda>l. (pop, r) # l) id (shop_run P es s1))"
| "shop_run P (Revoke k # es) s = shop_run P es (snd (InMemoryBudgetStore_revoke k s))"
| "shop_run P (Restore k # es) s = shop_run P es (snd (InMemoryBudgetStore_restore k s))"

lemma switch_frame:
  "s' = snd (InMemoryBudgetStore_revoke k s) \<or> s' = snd (InMemoryBudgetStore_restore k s) \<Longrightarrow>
     spent_by (shop_budget s') = spent_by (shop_budget s) \<and> budget_cap (shop_budget s') = budget_cap (shop_budget s)
     \<and> shop_valid s' = shop_valid s \<and> nonces.burnt n s' = nonces.burnt n s"
  by (elim disjE) (simp_all add: InMemoryBudgetStore_revoke_def InMemoryBudgetStore_restore_def supd_def
      spent_by_def [abs_def] shop_valid_def nonces.burnt_def)

definition settled_count :: "string \<Rightarrow> shop_log \<Rightarrow> nat" where
  "settled_count k hist = length (filter (\<lambda>(pop, r). settled_for k r) hist)"

lemma run_ledger:
  assumes "shop_run (memory_paywall settings g facilitator) es s = (hist, s')" "budget.within_cap s"
  shows "budget.within_cap s' \<and> budget_cap (shop_budget s') = budget_cap (shop_budget s)
    \<and> (\<forall>k. spent_by (shop_budget s') k = spent_by (shop_budget s) k + price_micro settings * int (settled_count k hist))"
  using assms
proof (induction es arbitrary: s hist)
  case Nil
  then show ?case by (simp add: settled_count_def)
next
  case (Cons e es)
  let ?P = "memory_paywall settings g facilitator"
  show ?case
  proof (cases e)
    case (Request url cred pop x)
    obtain r s1 where r: "paywall_process ?P url cred pop x s = (r, s1)" by force
    with Cons.prems Request obtain hist1 where l: "shop_run ?P es s1 = (hist1, s')" "hist = (pop, r) # hist1"
      by (auto simp: map_prod_def split: prod.splits)
    have "budget.within_cap s1" using keepsD [OF shop.keeps_within_cap r] Cons.prems(2) by simp
    from Cons.IH [OF l(1) this] shop.accounted_process [unfolded shop.accounted_def, rule_format, OF r]
    show ?thesis by (auto simp: l(2) settled_count_def memory_paywall_def algebra_simps)
  next
    case (Revoke k)
    let ?s = "snd (InMemoryBudgetStore_revoke k s)"
    have "budget.within_cap ?s" using Cons.prems(2) switch_frame [of ?s k s] by (simp add: budget.within_cap_def)
    with Cons.IH [of ?s hist] Cons.prems(1) switch_frame [of ?s k s] Revoke show ?thesis by simp
  next
    case (Restore k)
    let ?s = "snd (InMemoryBudgetStore_restore k s)"
    have "budget.within_cap ?s" using Cons.prems(2) switch_frame [of ?s k s] by (simp add: budget.within_cap_def)
    with Cons.IH [of ?s hist] Cons.prems(1) switch_frame [of ?s k s] Restore show ?thesis by simp
  qed
qed

text \<open>
  C4: the budget is a ledger of the settled payments: after any sequence of requests, good or bad, and
  any use of the kill switch, what the store has recorded for an identity is the price times the
  number of requests that it settled, and no identity is ever beyond the cap. Requests that are
  refused or fail after the reservation cost nothing.
\<close>

theorem budget_ledger:
  assumes "shop_run (memory_paywall settings g facilitator) es (new_shop cap_micro f w) = (hist, s')" "0 \<le> cap_micro"
  shows "spent_by (shop_budget s') k = price_micro settings * int (settled_count k hist)
    \<and> spent_by (shop_budget s') k \<le> cap_micro"
proof -
  have "spent_by (shop_budget (new_shop cap_micro f w)) = (\<lambda>_. 0)" "budget_cap (shop_budget (new_shop cap_micro f w)) = cap_micro"
    by (auto simp: new_shop_def spent_by_def InMemoryBudgetStore_init_def)
  with run_ledger [OF assms(1)] assms(2) show ?thesis by (auto simp: budget.within_cap_def)
qed

lemma run_burnt:
  assumes "shop_run (memory_paywall settings g facilitator) es s = (hist, s')" "nonces.burnt n s"
    "(Some p, Inr (Settled i oc)) \<in> set hist" "jwt_claims (g_lib g) p = Inr claims"
  shows "claimed_nonce claims \<noteq> n"
  using assms(1,2,3)
proof (induction es arbitrary: s hist)
  case (Cons e es)
  let ?P = "memory_paywall settings g facilitator"
  show ?case
  proof (cases e)
    case (Request url cred pop x)
    obtain r s1 where r: "paywall_process ?P url cred pop x s = (r, s1)" by force
    with Cons.prems(1) Request obtain hist1 where l: "shop_run ?P es s1 = (hist1, s')" "hist = (pop, r) # hist1"
      by (auto simp: map_prod_def split: prod.splits)
    have b: "nonces.burnt n s1" using keepsD [OF shop.keeps_burnt_process r] Cons.prems(2) by simp
    show ?thesis
    proof (cases "(Some p, Inr (Settled i oc)) \<in> set hist1")
      case True
      then show ?thesis using Cons.IH [OF l(1) b] by simp
    next
      case False
      with Cons.prems(3) l(2) have "pop = Some p" "r = Inr (Settled i oc)" by auto
      with r obtain xp where "settle ?P url cred (Some p) xp s = (Inr (Settled i oc), s1)"
        by (auto simp: paywall_process_def challenge_not_Settled split: option.splits)
      with shop.burnt_not_settled [of claims s settings g facilitator "Some p" url cred xp i oc s1] Cons.prems(2) assms(4)
      show ?thesis by (auto simp: memory_paywall_def)
    qed
  next
    case (Revoke k)
    then show ?thesis using Cons.IH [of "snd (InMemoryBudgetStore_revoke k s)" hist] Cons.prems switch_frame [of _ k s] by simp
  next
    case (Restore k)
    then show ?thesis using Cons.IH [of "snd (InMemoryBudgetStore_restore k s)" hist] Cons.prems switch_frame [of _ k s] by simp
  qed
qed simp

lemma run_nonces:
  assumes "shop_run (memory_paywall settings g facilitator) es s = (hist, s')" "shop_valid s"
    "i < j" "j < length hist" "hist ! i = (Some p, Inr (Settled a oa))" "hist ! j = (Some q, Inr (Settled b ob))"
    "jwt_claims (g_lib g) p = Inr cp" "jwt_claims (g_lib g) q = Inr cq"
  shows "claimed_nonce cp \<noteq> claimed_nonce cq"
  using assms(1-6)
proof (induction es arbitrary: s hist i j)
  case (Cons e es)
  let ?P = "memory_paywall settings g facilitator"
  show ?case
  proof (cases e)
    case (Request url cred pop x)
    obtain r s1 where r: "paywall_process ?P url cred pop x s = (r, s1)" by force
    with Cons.prems(1) Request obtain hist1 where l: "shop_run ?P es s1 = (hist1, s')" "hist = (pop, r) # hist1"
      by (auto simp: map_prod_def split: prod.splits)
    have v: "shop_valid s1" using keepsD [OF shop.keeps_valid_process r] Cons.prems(2) by simp
    obtain j' where j: "j = Suc j'" using Cons.prems(3) by (cases j) auto
    show ?thesis
    proof (cases i)
      case 0
      with Cons.prems(5) l(2) have pr: "pop = Some p" "r = Inr (Settled a oa)" by simp_all
      with r obtain xp where "settle ?P url cred (Some p) xp s = (Inr (Settled a oa), s1)"
        by (auto simp: paywall_process_def challenge_not_Settled split: option.splits)
      with shop.settled_burns [OF Cons.prems(2)] assms(7) have "nonces.burnt (claimed_nonce cp) s1"
        by (simp add: memory_paywall_def)
      moreover have "(Some q, Inr (Settled b ob)) \<in> set hist1"
        using Cons.prems(4,6) l(2) j by (metis Suc_less_eq length_Cons nth_Cons_Suc nth_mem)
      ultimately show ?thesis using run_burnt [OF l(1)] assms(8) by metis
    next
      case (Suc i')
      with Cons.IH [OF l(1) v, of i' j'] Cons.prems(3-6) l(2) j show ?thesis by simp
    qed
  next
    case (Revoke k)
    then show ?thesis
      using Cons.IH [of "snd (InMemoryBudgetStore_revoke k s)" hist i j] Cons.prems switch_frame [of _ k s] by simp
  next
    case (Restore k)
    then show ?thesis
      using Cons.IH [of "snd (InMemoryBudgetStore_restore k s)" hist i j] Cons.prems switch_frame [of _ k s] by simp
  qed
qed simp

text \<open>
  C5: a nonce settles at most one payment: in any run of a fresh server, two settled requests carry
  proofs of possession with different nonces, whoever sent them and whatever happened in between,
  provided that the clock does not run backwards and the token generator does not repeat itself.
\<close>

theorem nonce_settles_once:
  assumes "shop_run (memory_paywall settings g facilitator) es (new_shop cap_micro f w) = (hist, s')" "world_ok w"
    "i < j" "j < length hist" "hist ! i = (Some p, Inr (Settled a oa))" "hist ! j = (Some q, Inr (Settled b ob))"
    "jwt_claims (g_lib g) p = Inr cp" "jwt_claims (g_lib g) q = Inr cq"
  shows "claimed_nonce cp \<noteq> claimed_nonce cq"
proof -
  have "shop_valid (new_shop cap_micro f w)"
    using assms(2) by (simp add: shop_valid_def new_shop_def shop_entry_def InMemoryNonceStore_init_def)
  from run_nonces [OF assms(1) this assms(3-8)] show ?thesis .
qed

section \<open>What a settled request proves\<close>

lemma look_eq: "pw_look (memory_paywall settings g facilitator) s = (Inr w, s') \<longleftrightarrow>
    w = outside s (looks s) \<and> s' = s\<lparr>looks := Suc (looks s)\<rparr>"
  by (auto simp: memory_paywall_def observe_eq)

text \<open>The gate takes three looks.\<close>

lemma shop_gate_iff:
  "run_identity_gate (pw_look (memory_paywall settings g facilitator)) g cred pop url nonce kinds now lw s = (Inr i, s') \<longleftrightarrow>
     (\<exists>vc. gate_verify_credential g (outside s (looks s)) cred now lw = Inr vc \<and> c_kind (payload vc) \<in> set kinds
        \<and> revoke_check g (outside s (Suc (looks s))) vc = Inr ()
        \<and> (\<forall>ts. g_trust_store g = Some ts \<longrightarrow> satisfies_policy [vc] ts kinds)
        \<and> verify_pop (lib_at g (outside s (Suc (Suc (looks s))))) pop (c_sub (payload vc)) url nonce (subject_resolver g) lw = Inr ()
        \<and> i = \<lparr>si_sub = c_sub (payload vc), si_org = c_org (payload vc), si_credential = vc\<rparr>
        \<and> s' = s\<lparr>looks := Suc (Suc (Suc (looks s)))\<rparr>)"
  unfolding run_identity_gate_Inr_iff look_eq by auto

text \<open>What an opened gate proves, given what PyJWT promises.\<close>

lemma open_gate:
  assumes dec: "decode_sound (g_lib g) (g_pyjwt g)" and claims: "jwt_claims (g_lib g) p = Inr claims"
    and gate: "run_identity_gate (pw_look (memory_paywall settings g facilitator)) g c p url n DEFAULT_REQUIRED_KINDS
      None DEFAULT_LEEWAY s = (Inr i, s1)"
  obtains vc key where
    "gate_verify_credential g (outside s (looks s)) c None 60 = Inr vc" "revoke_check g (outside s (Suc (looks s))) vc = Inr ()"
    "i = \<lparr>si_sub = c_sub (payload vc), si_org = c_org (payload vc), si_credential = vc\<rparr>"
    "c_kind (payload vc) = ''org_affiliation''" "\<forall>ts. g_trust_store g = Some ts \<longrightarrow> is_credential_trusted vc ts"
    "subject_resolver g (si_sub i) = Inr key" "signed_by (g_lib g) p (public_bytes key)"
    "dict_get claims ''sub'' = Some (JStr (si_sub i))" "dict_get claims ''nonce'' = Some (JStr n)"
    "dict_get claims ''aud'' = Some (JStr url) \<or> (\<exists>l. dict_get claims ''aud'' = Some (JList l) \<and> JStr url \<in> set l)"
    "s1 = s\<lparr>looks := Suc (Suc (Suc (looks s)))\<rparr>"
proof -
  let ?w3 = "outside s (Suc (Suc (looks s)))"
  from gate obtain vc where
    vc: "gate_verify_credential g (outside s (looks s)) c None 60 = Inr vc" "c_kind (payload vc) \<in> set DEFAULT_REQUIRED_KINDS"
      "revoke_check g (outside s (Suc (looks s))) vc = Inr ()"
      "\<forall>ts. g_trust_store g = Some ts \<longrightarrow> satisfies_policy [vc] ts DEFAULT_REQUIRED_KINDS"
    and popv: "verify_pop (lib_at g ?w3) p (c_sub (payload vc)) url n (subject_resolver g) 60 = Inr ()"
    and i: "i = \<lparr>si_sub = c_sub (payload vc), si_org = c_org (payload vc), si_credential = vc\<rparr>"
    and s1: "s1 = s\<lparr>looks := Suc (Suc (Suc (looks s)))\<rparr>"
    unfolding shop_gate_iff DEFAULT_LEEWAY_def by blast
  have trusted: "\<forall>ts. g_trust_store g = Some ts \<longrightarrow> is_credential_trusted vc ts"
    using vc(4) by (auto simp: satisfies_policy_def DEFAULT_REQUIRED_KINDS_def split: if_splits)
  from popv obtain key claims' where key: "subject_resolver g (si_sub i) = Inr key"
      "g_pyjwt g (w_now ?w3) p (public_bytes key) (pop_options url 60) = Inr claims'"
    and sub: "dict_get claims' ''sub'' = Some (JStr (si_sub i))" "dict_get claims' ''nonce'' = Some (JStr n)"
    unfolding verify_pop_Inr_iff by (auto simp: i)
  have "claims' = claims" "signed_by (g_lib g) p (public_bytes key)"
      "dict_get claims ''aud'' = Some (JStr url) \<or> (\<exists>l. dict_get claims ''aud'' = Some (JList l) \<and> JStr url \<in> set l)"
    using dec [unfolded decode_sound_def, rule_format, OF key(2)] claims by auto
  then show thesis
    using that [OF vc(1,3) i _ trusted key(1)] vc(2) sub s1 by (simp add: DEFAULT_REQUIRED_KINDS_def)
qed

text \<open>
  C3: what a settled payment proves, for a server over its in-memory stores and a PyJWT that checks what it
  promises: the credential verified, is of the accepted kind, was not revoked and satisfies the trust
  policy; its subject's key signed a proof of possession whose claims name that subject and
  this resource; the nonce in that proof was live and bound to nobody else; the payment was for the
  quoted network, asset, payee and price; the subject was neither on the deny-list nor about to
  exceed the cap; and the facilitator reported success. The identity handed on is the one of the credential.
\<close>

theorem settled_is_authorized:
  assumes dec: "decode_sound (g_lib g) (g_pyjwt g)" and v: "shop_valid s"
    and run: "paywall_process (memory_paywall settings g facilitator) url cred pop x s = (Inr (Settled i oc), s')"
  shows "\<exists>c p xp vc w1 w2 key claims bound t terms.
      cred = Some c \<and> pop = Some p \<and> x = Some xp \<and> {w1, w2} \<subseteq> range (outside s)
    \<and> gate_verify_credential g w1 c None 60 = Inr vc \<and> revoke_check g w2 vc = Inr ()
    \<and> i = \<lparr>si_sub = c_sub (payload vc), si_org = c_org (payload vc), si_credential = vc\<rparr>
    \<and> c_kind (payload vc) = ''org_affiliation''
    \<and> (\<forall>ts. g_trust_store g = Some ts \<longrightarrow> is_credential_trusted vc ts)
    \<and> subject_resolver g (si_sub i) = Inr key \<and> signed_by (g_lib g) p (public_bytes key)
    \<and> jwt_claims (g_lib g) p = Inr claims \<and> dict_get claims ''sub'' = Some (JStr (si_sub i))
    \<and> (dict_get claims ''aud'' = Some (JStr url) \<or> (\<exists>l. dict_get claims ''aud'' = Some (JList l) \<and> JStr url \<in> set l))
    \<and> dict_get claims ''nonce'' = Some (JStr (claimed_nonce claims))
    \<and> shop_entry s (claimed_nonce claims) = Some (bound, t) \<and> bound \<in> {None, Some (si_sub i)} \<and> shop_clock s \<le> t
    \<and> parse_x_payment (g_lib g) xp = Inr terms \<and> pd_network terms = network_caip2 settings
    \<and> pd_asset terms = int_str (asset_id settings) \<and> Some (pd_pay_to terms) = set_pay_to settings
    \<and> pd_amount terms = price_micro settings
    \<and> si_sub i \<notin> budget_revoked (shop_budget s)
    \<and> spent_by (shop_budget s) (si_sub i) + price_micro settings \<le> budget_cap (shop_budget s)
    \<and> so_success oc"
proof -
  let ?P = "memory_paywall settings g facilitator" and ?L = "g_lib g"
  have P: "pw_gate ?P = g" "pw_settings ?P = settings" "pw_nonce ?P = memory_nonces"
    by (simp_all add: memory_paywall_def)
  from run obtain xp where x: "x = Some xp" and st: "settle ?P url cred pop xp s = (Inr (Settled i oc), s')"
    by (auto simp: paywall_process_def challenge_not_Settled split: option.splits)
  from st obtain c p where cp: "cred = Some c" "pop = Some p"
    by (rule settle_path) (auto simp: absent_def)
  from st obtain claims req terms s1 s2 where
    claims: "jwt_claims ?L p = Inr claims"
    and gate: "run_identity_gate (pw_look ?P) g c p url (claimed_nonce claims) DEFAULT_REQUIRED_KINDS None DEFAULT_LEEWAY s
       = (Inr i, s1)"
    and nonce: "nonce_consume memory_nonces (claimed_nonce claims) (Some (si_sub i)) s1 = (Inr (), s2)"
    and req: "build_payment_requirements settings url = Inr req"
    and terms: "parse_x_payment ?L xp = Inr terms" "enforce_agreed_equals_paid terms req = Inr ()"
    and ok: "so_success oc"
    by (rule settle_path) (use cp in \<open>auto simp: P\<close>)
  let ?w1 = "outside s (looks s)" and ?w2 = "outside s (Suc (looks s))"
  from dec claims gate obtain vc key where
    vc: "gate_verify_credential g ?w1 c None 60 = Inr vc" "revoke_check g ?w2 vc = Inr ()"
    and i: "i = \<lparr>si_sub = c_sub (payload vc), si_org = c_org (payload vc), si_credential = vc\<rparr>"
    and kind: "c_kind (payload vc) = ''org_affiliation''"
      "\<forall>ts. g_trust_store g = Some ts \<longrightarrow> is_credential_trusted vc ts"
    and key: "subject_resolver g (si_sub i) = Inr key" "signed_by ?L p (public_bytes key)"
      "dict_get claims ''sub'' = Some (JStr (si_sub i))" "dict_get claims ''nonce'' = Some (JStr (claimed_nonce claims))"
      "dict_get claims ''aud'' = Some (JStr url) \<or> (\<exists>l. dict_get claims ''aud'' = Some (JList l) \<and> JStr url \<in> set l)"
    and s1: "s1 = s\<lparr>looks := Suc (Suc (Suc (looks s)))\<rparr>"
    by (rule open_gate)
  have g: "shop_valid s1" "shop_entry s1 = shop_entry s"
    using shop.gate_nonces gate v by blast+
  have clock: "shop_clock s \<le> shop_clock s1"
    using v by (simp add: s1 shop_valid_def world_ok_def shop_clock_def mono_def)
  obtain bound t where b: "shop_entry s (claimed_nonce claims) = Some (bound, t)" "shop_clock s1 \<le> t" "bound \<in> {None, Some (si_sub i)}"
    using nonces.consume_ok [OF g(1) nonce] g(2) by auto
  have cap: "spent_by (shop_budget s) (si_sub i) + price_micro settings \<le> budget_cap (shop_budget s)"
      "si_sub i \<notin> budget_revoked (shop_budget s)"
    using shop.settled_within_cap [OF st] by (simp_all add: P)
  have "pd_network terms = network_caip2 settings \<and> pd_asset terms = int_str (asset_id settings)
      \<and> Some (pd_pay_to terms) = set_pay_to settings \<and> pd_amount terms = price_micro settings"
    using terms(2) req by (auto simp: enforce_agreed_Inr_iff build_payment_requirements_def split: option.splits)
  then show ?thesis
    using cp x vc i kind key claims b clock terms(1) cap ok
    by (intro exI [of _ c] exI [of _ p] exI [of _ xp] exI [of _ vc] exI [of _ ?w1] exI [of _ ?w2] exI [of _ key]
        exI [of _ claims] exI [of _ bound] exI [of _ t] exI [of _ terms]) simp
qed

section \<open>An honest buyer is served\<close>

text \<open>One HTTP exchange with the server, as an ASGI application calls it.\<close>

definition serve ::
  "'s Paywall \<Rightarrow> obj option \<Rightarrow> (JSONResponse \<Rightarrow> http_response) \<Rightarrow> string \<Rightarrow> headers \<Rightarrow> ('s, http_response) st"
where
  "serve P body deliver url hs =
     (case read_payment_headers (map_of hs) of
        (credential, pop, x_payment) \<Rightarrow>
          sbind (paywall_process P url credential pop x_payment) (\<lambda>r. sret (deliver (to_response r body))))"

text \<open>The response arrives as it was sent.\<close>

definition faithful_delivery :: "(JSONResponse \<Rightarrow> http_response) \<Rightarrow> bool" where
  "faithful_delivery deliver =
     (\<forall>r. status_code (deliver r) = jr_status r \<and> resp_json (deliver r) = Inr (jr_content r)
        \<and> (\<forall>h. resp_header (deliver r) h = map_of (jr_headers r) h))"

definition client_clock :: "('f shop, int) st" where
  "client_clock = sbind observe (\<lambda>w. sret \<lfloor>w_now w\<rfloor>)"

definition quote_of :: "Settings \<Rightarrow> string \<Rightarrow> string \<Rightarrow> PaymentRequirements" where
  "quote_of settings payee url =
     \<lparr>pr_scheme = ''exact'', pr_network = network_caip2 settings, pr_asset = int_str (asset_id settings),
      pr_amount = price_micro settings, pr_pay_to = payee, pr_resource = url, pr_max_timeout_seconds = 60\<rparr>"

lemma requirements_quote: "set_pay_to settings = Some payee \<Longrightarrow> build_payment_requirements settings url = Inr (quote_of settings payee url)"
  by (simp add: build_payment_requirements_def quote_of_def)

lemma validate_quote:
  assumes "\<forall>i. as_int L (JInt i) = Some i"
  shows "PaymentRequirements_model_validate L (JObj (PaymentRequirements_model_dump r)) = Inr r"
  using assms by (simp add: PaymentRequirements_model_validate_def PaymentRequirements_model_dump_def optional_field_def
      required_field_def matched_key_def v_int_def validated_def PaymentRequirements.make_def)

lemma challenge_ok:
  assumes "c \<noteq> ''''" "gate_verify_credential g (outside s (looks s)) c None 60 = Inr vc"
    "revoke_check g (outside s (Suc (looks s))) vc = Inr ()" "c_sub (payload vc) \<notin> budget_revoked (shop_budget s)"
    "set_pay_to settings = Some payee"
  shows "challenge (memory_paywall settings g facilitator) url (Some c) s =
    (Inr (Challenge (quote_of settings payee url) (w_token (outside s (Suc (Suc (looks s)))))),
     s\<lparr>looks := looks s + 4, shop_nonces := (shop_nonces s)\<lparr>nonce_entries :=
        dict_set (w_token (outside s (Suc (Suc (looks s)))))
          (Some (c_sub (payload vc)), w_now (outside s (Suc (Suc (Suc (looks s))))) + of_int (nonce_ttl_seconds settings))
          (nonce_entries (shop_nonces s))\<rparr>\<rparr>)"
  using assms
  by (simp add: challenge_def absent_def memory_paywall_def DEFAULT_LEEWAY_def sbind_def sthen_def observe_eq try_return_def
      sres_def sret_def budget.allowed_ok memory_nonces_def issue_eq requirements_quote Let_def numeral_eq_Suc)

lemma settle_ok:
  assumes "c \<noteq> ''''" "p \<noteq> ''''" "jwt_claims (g_lib g) p = Inr claims"
    and gate: "run_identity_gate (pw_look (memory_paywall settings g facilitator)) g c p url (claimed_nonce claims)
      DEFAULT_REQUIRED_KINDS None 60 s = (Inr i, s1)"
    and nonce: "nonce_consume memory_nonces (claimed_nonce claims) (Some (si_sub i)) s1 = (Inr (), s2)"
    and "set_pay_to settings = Some payee" "parse_x_payment (g_lib g) x = Inr terms"
      "enforce_agreed_equals_paid terms (quote_of settings payee url) = Inr ()"
    and "si_sub i \<notin> budget_revoked (shop_budget s2)"
      "spent_by (shop_budget s2) (si_sub i) + price_micro settings \<le> budget_cap (shop_budget s2)"
    and "facilitator x (quote_of settings payee url) (shop_facilitator s2) = (Inr oc, f)" "so_success oc"
  shows "settle (memory_paywall settings g facilitator) url (Some c) (Some p) x s =
    (Inr (Settled i oc), snd (budget_record memory_budget (si_sub i) (price_micro settings) (s2\<lparr>shop_facilitator := f\<rparr>)))"
proof -
  let ?P = "memory_paywall settings g facilitator"
  have P: "pw_gate ?P = g" "pw_settings ?P = settings" "pw_nonce ?P = memory_nonces" "pw_budget ?P = memory_budget"
    "pw_settle ?P x req t = (case facilitator x req (shop_facilitator t) of (r, f) \<Rightarrow> (r, t\<lparr>shop_facilitator := f\<rparr>))" for req t
    by (simp_all add: memory_paywall_def)
  have amount: "pr_amount (quote_of settings payee url) = price_micro settings" by (simp add: quote_of_def)
  obtain q s3 where "budget_reserve memory_budget (si_sub i) (price_micro settings) s2 = (q, s3)" by force
  with budget.reserve_ok [OF this] assms(9,10)
  have res: "budget_reserve memory_budget (si_sub i) (price_micro settings) s2 = (Inr (), s2)" by simp
  obtain q' s4 where "budget_record memory_budget (si_sub i) (price_micro settings) (s2\<lparr>shop_facilitator := f\<rparr>) = (q', s4)" by force
  with budget.record_ok [OF this]
  have rec: "budget_record memory_budget (si_sub i) (price_micro settings) (s2\<lparr>shop_facilitator := f\<rparr>) = (Inr (), s4)" by simp
  show ?thesis
    using assms(1-3) assms(6-8) assms(11,12) gate nonce
    by (simp add: settle_def absent_def P try_return_def sthen_def sbind_def sres_def sret_def DEFAULT_LEEWAY_def
        decode_unverified_claims_Inr_iff [THEN iffD2] requirements_quote amount res rec Let_def)
qed

definition pop_headers :: "string \<Rightarrow> obj" where
  "pop_headers sub = [(''alg'', JStr ''EdDSA''), (''typ'', JStr POP_TYP), (''kid'', JStr sub)]"

lemma signed_nonempty: "signed_by L token pk \<Longrightarrow> token \<noteq> ''''"
  by (auto simp: signed_by_def)

text \<open>A proof that the subject's key signed for this resource and nonce passes, while it is fresh.\<close>

lemma minted_pop:
  assumes sk: "private_raw k = Some sk"
    and enc: "jwt_encode L (pop_claims sub url nonce t life) sk (pop_headers sub) = Inr pop"
    and jwt: "jwt_encodes L (pop_claims sub url nonce t life) sk (pop_headers sub)"
  shows "mint_pop L t k sub url nonce None life = Inr pop" "jwt_claims L pop = Inr (pop_claims sub url nonce t life)"
    "pop \<noteq> ''''"
    and "decode_complete L (g_pyjwt g) \<Longrightarrow> g_lib g = L \<Longrightarrow> subject_resolver g sub = Inr key \<Longrightarrow>
      public_bytes key = pk_of_seed L sk \<Longrightarrow> ed_load L (pk_of_seed L sk) = Inr () \<Longrightarrow>
      w_now w - of_int lw < of_int (t + life) \<Longrightarrow> of_int t \<le> w_now w + of_int lw \<Longrightarrow>
      verify_pop (lib_at g w) pop sub url nonce (subject_resolver g) lw = Inr ()"
proof -
  show "mint_pop L t k sub url nonce None life = Inr pop"
    using sk enc by (simp add: mint_pop_def sign_jwt_def private_key_def DEFAULT_HEADER_def dict_update_def pop_headers_def)
  obtain h where h: "jwt_header L pop = Inr h" "\<forall>k. dict_get h k = dict_get (pop_headers sub) k"
    and c: "jwt_claims L pop = Inr (pop_claims sub url nonce t life)" and s: "signed_by L pop (pk_of_seed L sk)"
    using jwt enc by (auto simp: jwt_encodes_def)
  show "jwt_claims L pop = Inr (pop_claims sub url nonce t life)" by (rule c)
  show "pop \<noteq> ''''" using s by (rule signed_nonempty)
  have hd: "header_is h ''typ'' POP_TYP" "header_is h ''alg'' ''EdDSA''" using h(2) by (simp_all add: header_is_def pop_headers_def)
  assume dec: "decode_complete L (g_pyjwt g)" and g: "g_lib g = L" "subject_resolver g sub = Inr key"
      "public_bytes key = pk_of_seed L sk" "ed_load L (pk_of_seed L sk) = Inr ()"
      and w: "w_now w - of_int lw < of_int (t + life)" "of_int t \<le> w_now w + of_int lw"
  have "g_pyjwt g (w_now w) pop (pk_of_seed L sk) (pop_options url lw) = Inr (pop_claims sub url nonce t life)"
    using dec h(1) hd(2) s c w unfolding decode_complete_def by blast
  then show "verify_pop (lib_at g w) pop sub url nonce (subject_resolver g) lw = Inr ()"
    using h(1) hd(1) g by (subst verify_pop_Inr_iff) (auto simp: pop_claims_def)
qed

lemma consume_live:
  assumes "dict_get (nonce_entries (shop_nonces s)) n = Some (Some k, t)" "w_now (outside s (looks s)) \<le> t"
  shows "nonce_consume memory_nonces n (Some k) s =
    (Inr (), s\<lparr>shop_nonces := (shop_nonces s)\<lparr>nonce_entries := AList.delete n (nonce_entries (shop_nonces s))\<rparr>, looks := Suc (looks s)\<rparr>)"
  using assms by (simp add: consume_eqs)

text \<open>
  What the surroundings have to be like for a purchase that starts in state \<open>s\<close>: during the nine looks it takes, no
  more than a minute passes, and the credential verifies and is not revoked.
\<close>

definition calm :: "gate_conf \<Rightarrow> 'f shop \<Rightarrow> string \<Rightarrow> VerifiedCredential \<Rightarrow> rat \<Rightarrow> bool" where
  "calm g s c vc T =
     (\<forall>i\<in>{looks s..looks s + 8}. T \<le> w_now (outside s i) \<and> w_now (outside s i) \<le> T + 60
        \<and> gate_verify_credential g (outside s i) c None 60 = Inr vc \<and> revoke_check g (outside s i) vc = Inr ())"

lemma calmD:
  "calm g s c vc T \<Longrightarrow> looks s \<le> i \<Longrightarrow> i \<le> looks s + 8 \<Longrightarrow>
     T \<le> w_now (outside s i) \<and> w_now (outside s i) \<le> T + 60
     \<and> gate_verify_credential g (outside s i) c None 60 = Inr vc \<and> revoke_check g (outside s i) vc = Inr ()"
  by (simp add: calm_def)

text \<open>The second request of a purchase, after a challenge and at most one look of the buyer's.\<close>

lemma purchase_settles:
  fixes s :: "'f shop" and facilitator and g :: gate_conf and settings :: Settings
  defines "P \<equiv> memory_paywall settings g facilitator"
  assumes calm: "calm g s c vc T" and c: "c \<noteq> ''''" and kind: "c_kind (payload vc) = ''org_affiliation''"
    and trust: "\<forall>ts. g_trust_store g = Some ts \<longrightarrow> is_credential_trusted vc ts"
    and ch: "challenge P url (Some c) s = (Inr (Challenge (quote_of settings payee url) n), s0)"
    and pay: "set_pay_to settings = Some payee" "60 \<le> nonce_ttl_seconds settings"
    and bud: "c_sub (payload vc) \<notin> budget_revoked (shop_budget s)"
      "spent_by (shop_budget s) (c_sub (payload vc)) + price_micro settings \<le> budget_cap (shop_budget s)"
    and d: "s1 = s0\<lparr>looks := looks s0 + d\<rparr>" "d \<le> 1"
    and pop: "pop \<noteq> ''''" "jwt_claims (g_lib g) pop = Inr claims" "claimed_nonce claims = n"
      "\<And>i. looks s \<le> i \<Longrightarrow> i \<le> looks s + 8 \<Longrightarrow>
         verify_pop (lib_at g (outside s i)) pop (c_sub (payload vc)) url n (subject_resolver g) 60 = Inr ()"
    and terms: "parse_x_payment (g_lib g) x = Inr terms" "enforce_agreed_equals_paid terms (quote_of settings payee url) = Inr ()"
    and fac: "facilitator x (quote_of settings payee url) (shop_facilitator s) = (Inr oc, f)" "so_success oc"
  shows "\<exists>s'. settle P url (Some c) (Some pop) x s1 =
      (Inr (Settled \<lparr>si_sub = c_sub (payload vc), si_org = c_org (payload vc), si_credential = vc\<rparr> oc), s')
    \<and> looks s' = looks s1 + 4 \<and> outside s' = outside s \<and> shop_facilitator s' = f
    \<and> budget_revoked (shop_budget s') = budget_revoked (shop_budget s) \<and> budget_cap (shop_budget s') = budget_cap (shop_budget s)
    \<and> spent_by (shop_budget s') = (spent_by (shop_budget s))(c_sub (payload vc) := spent_by (shop_budget s) (c_sub (payload vc)) + price_micro settings)"
proof -
  let ?sub = "c_sub (payload vc)" and ?k = "looks s"
  let ?i = "\<lparr>si_sub = ?sub, si_org = c_org (payload vc), si_credential = vc\<rparr>"
  let ?e = "w_now (outside s (Suc (Suc (Suc ?k)))) + of_int (nonce_ttl_seconds settings)"
  from challenge_ok [OF c, of g s vc settings payee facilitator url] calmD [OF calm, of ?k] calmD [OF calm, of "Suc ?k"] bud(1) pay(1) ch
  have n: "n = w_token (outside s (Suc (Suc ?k)))"
    and s0: "s0 = s\<lparr>looks := ?k + 4, shop_nonces := (shop_nonces s)\<lparr>nonce_entries := dict_set n (Some ?sub, ?e) (nonce_entries (shop_nonces s))\<rparr>\<rparr>"
    by (auto simp: P_def)
  have s1: "outside s1 = outside s" "looks s1 = ?k + 4 + d" "shop_budget s1 = shop_budget s" "shop_facilitator s1 = shop_facilitator s"
    "shop_nonces s1 = (shop_nonces s)\<lparr>nonce_entries := dict_set n (Some ?sub, ?e) (nonce_entries (shop_nonces s))\<rparr>"
    by (simp_all add: d s0)
  let ?s2 = "s1\<lparr>looks := Suc (Suc (Suc (looks s1)))\<rparr>"
  have gate: "run_identity_gate (pw_look P) g c pop url n DEFAULT_REQUIRED_KINDS None 60 s1 = (Inr ?i, ?s2)"
    unfolding P_def shop_gate_iff s1(1)
    using calmD [OF calm, of "looks s1"] calmD [OF calm, of "Suc (looks s1)"] pop(4) [of "Suc (Suc (looks s1))"] kind trust d(2)
    by (auto simp: s1 DEFAULT_REQUIRED_KINDS_def satisfies_policy_def)
  let ?s3 = "?s2\<lparr>shop_nonces := (shop_nonces ?s2)\<lparr>nonce_entries := AList.delete n (nonce_entries (shop_nonces ?s2))\<rparr>, looks := Suc (looks ?s2)\<rparr>"
  have "w_now (outside s (?k + 4 + d + 3)) \<le> T + 60" "T \<le> w_now (outside s (Suc (Suc (Suc ?k))))"
    using calmD [OF calm, of "?k + 4 + d + 3"] calmD [OF calm, of "Suc (Suc (Suc ?k))"] d(2) by auto
  moreover have "(60 :: rat) \<le> of_int (nonce_ttl_seconds settings)" using pay(2) by (metis of_int_le_iff of_int_numeral)
  ultimately have "w_now (outside s (?k + 4 + d + 3)) \<le> ?e" by linarith
  then have nonce: "nonce_consume memory_nonces n (Some (si_sub ?i)) ?s2 = (Inr (), ?s3)"
    by (subst consume_live [where t = ?e]) (simp_all add: s1 numeral_eq_Suc)
  have b3: "shop_budget ?s3 = shop_budget s" "shop_facilitator ?s3 = shop_facilitator s" by (simp_all add: s1)
  let ?s4 = "?s3\<lparr>shop_facilitator := f\<rparr>"
  obtain q s' where r: "budget_record memory_budget ?sub (price_micro settings) ?s4 = (q, s')" by force
  have "settle P url (Some c) (Some pop) x s1 = (Inr (Settled ?i oc), snd (budget_record memory_budget (si_sub ?i) (price_micro settings) ?s4))"
    unfolding P_def
    by (rule settle_ok [where claims = claims and payee = payee, OF c pop(1) pop(2)])
      (use gate nonce pay(1) terms bud fac b3 pop(3) in \<open>simp_all add: P_def\<close>)
  moreover have "looks s' = looks s1 + 4" "outside s' = outside s" "shop_facilitator s' = f"
    using r by (auto simp: memory_budget_def InMemoryBudgetStore_record_def supd_def s1)
  ultimately show ?thesis using budget.record_ok [OF r] r b3 by (auto simp: s1)
qed

text \<open>The client against a server that challenges it and then takes its payment.\<close>

lemma client_run:
  assumes http: "faithful_delivery deliver" and int: "\<forall>i. as_int L (JInt i) = Some i"
    and ch: "paywall_process P url (Some (client_credential cl)) None None s = (Inr (Challenge q n), s0)"
    and none: "client_build_payment cl = None"
    and tick: "clock s0 = (Inr t, s1)"
    and pop: "mint_pop L t (shadow_key cl) (shadow_sub cl) url n None DEFAULT_POP_LIFETIME_SECONDS = Inr pop"
    and st: "paywall_process P url (Some (client_credential cl)) (Some pop) (Some (stub_payment cl q)) s1 = (Inr res, s')"
  shows "run (ShadowX402Client_get L cl (\<lambda>u h. atomic (serve P body deliver u h)) clock url) s =
    (Inr (deliver (to_response res body)), s')"
proof -
  let ?r = "deliver (to_response (Challenge q n) body)"
  have first: "serve P body deliver url [(''Shadow-Credential'', client_credential cl)] s = (Inr ?r, s0)"
    and second: "serve P body deliver url [(''Shadow-Credential'', client_credential cl), (''Shadow-PoP'', pop),
        (''X-PAYMENT'', stub_payment cl q)] s1 = (Inr (deliver (to_response res body)), s')"
    using ch st by (simp_all add: serve_def read_payment_headers_def sbind_def sthen_def sret_def)
  have r: "status_code ?r = 402" "resp_header ?r ''Shadow-Nonce'' = Some n"
      "resp_json ?r = Inr (JObj [(''x402Version'', JInt 1), (''accepts'', JList [JObj (PaymentRequirements_model_dump q)]),
             (''resource'', JStr (pr_resource q))])"
    using http by (simp_all add: faithful_delivery_def to_response_def)
  have "bind (bind (resp_json ?r) first_accepts) (PaymentRequirements_model_validate L) = Inr q"
    unfolding r(3) by (simp add: first_accepts_def subscript_def validate_quote [OF int])
  then show ?thesis
    using first second r(1,2) tick pop none
    by (simp add: ShadowX402Client_get_def run_simps sbind_def sthen_def sres_def Let_def)
qed

text \<open>
  C13: an honest buyer is served: the client's \<open>get\<close>, run against the server through faithful HTTP, presents
  its credential, answers the challenge with a proof of possession and a stub payment for exactly the
  quoted terms, and ends with status 200 and the resource, the price added to its account. Assumed are
  a credential that verifies, is of the accepted kind, trusted and not revoked, during a
  purchase of at most a minute (the nonce has to live that long), the key of its subject, room in its budget, a facilitator that settles this payment, and of the
  libraries that pydantic keeps integers, that PyJWT encodes the proof and decodes it, and
  that \<open>json.loads\<close> inverts \<open>json.dumps\<close> on the payment.
\<close>

theorem handshake_settles:
  fixes s :: "'f shop" and settings :: Settings and cl :: ShadowX402Client
  assumes http: "faithful_delivery deliver"
    and cred: "calm g s (client_credential cl) vc T" "client_credential cl \<noteq> ''''"
      "c_kind (payload vc) = ''org_affiliation''" "\<forall>ts. g_trust_store g = Some ts \<longrightarrow> is_credential_trusted vc ts"
      "c_sub (payload vc) = shadow_sub cl"
    and pay: "set_pay_to settings = Some payee" "60 \<le> nonce_ttl_seconds settings" "client_build_payment cl = None"
    and bud: "shadow_sub cl \<notin> budget_revoked (shop_budget s)"
      "spent_by (shop_budget s) (shadow_sub cl) + price_micro settings \<le> budget_cap (shop_budget s)"
    and key: "private_raw (shadow_key cl) = Some sk" "subject_resolver g (shadow_sub cl) = Inr key"
      "public_bytes key = pk_of_seed L sk" "ed_load L (pk_of_seed L sk) = Inr ()"
    and claims: "claims = pop_claims (shadow_sub cl) url (w_token (outside s (looks s + 2))) \<lfloor>w_now (outside s (looks s + 4))\<rfloor> 120"
    and jwt: "jwt_encode L claims sk (pop_headers (shadow_sub cl)) = Inr pop" "jwt_encodes L claims sk (pop_headers (shadow_sub cl))"
      "decode_complete L (g_pyjwt g)"
    and L: "g_lib g = L" "\<forall>i. as_int L (JInt i) = Some i"
    and terms: "terms = \<lparr>pd_network = network_caip2 settings, pd_asset = int_str (asset_id settings),
        pd_amount = price_micro settings, pd_pay_to = payee, pd_payer = JStr (client_payer cl)\<rparr>"
      "json_loads L (encode_utf8 (json_dumps_default (x_payment_payload terms))) = Inr (x_payment_payload terms)"
    and fac: "facilitator (encode_x_payment terms) (quote_of settings payee url) (shop_facilitator s) = (Inr oc, f)" "so_success oc"
  shows "\<exists>resp s'. run (ShadowX402Client_get L cl (\<lambda>u h. atomic (serve (memory_paywall settings g facilitator) body deliver u h))
        client_clock url) s = (Inr resp, s')
    \<and> status_code resp = 200 \<and> resp_json resp = Inr (JObj (case body of None \<Rightarrow> [] | Some b \<Rightarrow> b))
    \<and> spent_by (shop_budget s') (shadow_sub cl) = spent_by (shop_budget s) (shadow_sub cl) + price_micro settings"
proof -
  let ?P = "memory_paywall settings g facilitator" and ?c = "client_credential cl" and ?sub = "shadow_sub cl"
  let ?q = "quote_of settings payee url" and ?n = "w_token (outside s (looks s + 2))"
  let ?t = "\<lfloor>w_now (outside s (looks s + 4))\<rfloor>" and ?x = "encode_x_payment terms"
  obtain s0 where ch: "challenge ?P url (Some ?c) s = (Inr (Challenge ?q ?n), s0)" and s0: "looks s0 = looks s + 4" "outside s0 = outside s"
    using challenge_ok [OF cred(2), of g s vc settings payee facilitator url] calmD [OF cred(1), of "looks s"]
      calmD [OF cred(1), of "Suc (looks s)"] bud(1) pay(1) cred(5) by simp
  let ?s1 = "s0\<lparr>looks := looks s0 + 1\<rparr>"
  note mint = minted_pop [OF key(1) jwt(1) [unfolded claims] jwt(2) [unfolded claims]]
  have now: "T \<le> w_now (outside s (looks s + 4))" "w_now (outside s (looks s + 4)) \<le> T + 60"
    using calmD [OF cred(1), of "looks s + 4"] by auto
  have popv: "verify_pop (lib_at g (outside s i)) pop ?sub url ?n (subject_resolver g) 60 = Inr ()"
    if i: "looks s \<le> i" "i \<le> looks s + 8" for i
  proof (rule mint(4) [OF jwt(3) L(1) key(2,3,4)])
    have "T \<le> w_now (outside s i)" "w_now (outside s i) \<le> T + 60" using calmD [OF cred(1) i] by auto
    with now show "w_now (outside s i) - of_int 60 < of_int (?t + 120)" "of_int ?t \<le> w_now (outside s i) + of_int 60"
      by (simp_all, linarith+)
  qed
  have "parse_x_payment (g_lib g) ?x = Inr terms" using parse_encode_x_payment [OF terms(2)] L(1) by simp
  moreover have "enforce_agreed_equals_paid terms ?q = Inr ()" by (simp add: enforce_agreed_Inr_iff terms(1) quote_of_def)
  moreover have "claimed_nonce claims = ?n" by (simp add: claims claimed_nonce_def pop_claims_def)
  ultimately obtain i s' where st: "settle ?P url (Some ?c) (Some pop) ?x ?s1 = (Inr (Settled i oc), s')"
    and sp: "spent_by (shop_budget s') = (spent_by (shop_budget s))(?sub := spent_by (shop_budget s) ?sub + price_micro settings)"
    using purchase_settles [OF cred(1,2,3,4) ch pay(1,2) _ _ refl _ mint(3) _ _ _ _ _ fac, of 1 claims terms] bud popv mint(2)
    by (auto simp: claims L(1) cred(5))
  have stub: "stub_payment cl ?q = ?x" by (simp add: stub_payment_def quote_of_def terms(1))
  have tick: "client_clock s0 = (Inr ?t, ?s1)" by (simp add: client_clock_def sbind_def sthen_def observe_eq sret_def s0)
  have proc: "paywall_process ?P url (Some ?c) None None s = (Inr (Challenge ?q ?n), s0)"
      "paywall_process ?P url (Some ?c) (Some pop) (Some (stub_payment cl ?q)) ?s1 = (Inr (Settled i oc), s')"
    using ch st by (simp_all add: paywall_process_def stub)
  have "run (ShadowX402Client_get L cl (\<lambda>u h. atomic (serve ?P body deliver u h)) client_clock url) s =
      (Inr (deliver (to_response (Settled i oc) body)), s')"
    by (rule client_run [where clock = client_clock, OF http L(2) proc(1) pay(3) tick mint(1) [folded DEFAULT_POP_LIFETIME_SECONDS_def] proc(2)])
  then show ?thesis using http sp by (auto simp: faithful_delivery_def to_response_def)
qed

section \<open>A concrete shop\<close>

definition ex_cred_jws :: string where "ex_cred_jws = ''aGQ.cGw.c2ln''"
definition ex_pop1 :: string where "ex_pop1 = ''cDE.cGw.c2ln''"
definition ex_pop2 :: string where "ex_pop2 = ''cDI.cGw.c2ln''"
definition ex_url :: string where "ex_url = ''https://shop.example/r''"
definition ex_n1 :: string where "ex_n1 = replicate 2 (CHR ''n'')"
definition ex_n2 :: string where "ex_n2 = replicate 10 (CHR ''n'')"

definition ex_settings :: Settings where
  "ex_settings =
     \<lparr>facilitator_url = '''', network_caip2 = ''net'', asset_id = 7, algod_url = '''', algod_token = '''',
      set_pay_to = Some ''SELLER'', price_micro = 5000, budget_micro = 10000, nonce_ttl_seconds = 300,
      pop_lifetime_seconds = 120, wallet_mnemonic = None, trust_store_path = None\<rparr>"

definition ex_terms :: PaidTerms where
  "ex_terms = \<lparr>pd_network = ''net'', pd_asset = ''7'', pd_amount = 5000, pd_pay_to = ''SELLER'', pd_payer = JStr ''BUYER''\<rparr>"

definition ex_claims :: "string \<Rightarrow> obj" where
  "ex_claims n = pop_claims (c_sub ex_payload) ex_url n 1100 120"

definition ex_shop_lib :: lib where
  "ex_shop_lib =
     toy_lib\<lparr>ed_verify := (\<lambda>pk sig m. pk = ex_seed), jwt_encode := (\<lambda>c sk h. Inr ex_pop1),
             jwt_header := (\<lambda>t. if t = ex_cred_jws then Inr [(''alg'', JStr ''EdDSA''), (''typ'', JStr CREDENTIAL_TYP)]
                                else Inr (pop_headers (c_sub ex_payload))),
             jwt_claims := (\<lambda>t. if t = ex_cred_jws then Inr (CredentialPayload_model_dump ex_payload)
                                else if t = ex_pop1 then Inr (ex_claims ex_n1)
                                else if t = ex_pop2 then Inr (ex_claims ex_n2) else raise (Lib PyJWTError) ''''),
             json_loads := (\<lambda>_. Inr (x_payment_payload ex_terms))\<rparr>"

definition ex_pyjwt :: "rat \<Rightarrow> string \<Rightarrow> bytes \<Rightarrow> jwt_options \<Rightarrow> obj res" where
  "ex_pyjwt t token pk opts =
     (if token \<in> {ex_pop1, ex_pop2} \<and> pk = ex_seed \<and> opt_audience opts = Some (JStr ex_url)
         \<and> t - of_int (opt_leeway opts) < 1220
      then jwt_claims ex_shop_lib token else raise (Lib PyJWTError) '''')"

definition ex_gate :: gate_conf where
  "ex_gate =
     \<lparr>g_lib = ex_shop_lib, g_pyjwt = ex_pyjwt, g_trust_store = None,
      g_resolve_subject_key = Some (\<lambda>_. Inr \<lparr>public_bytes = ex_seed, private_raw = None\<rparr>),
      g_resolve_issuer_key = Some (\<lambda>_. Inr ex_key), g_check_issuer_authorized_for_org = Some (\<lambda>_ _. Inr ()),
      g_check_revoked = Some (\<lambda>_. Inr ())\<rparr>"

definition ex_world :: "nat \<Rightarrow> world" where
  "ex_world i = \<lparr>w_now = 1100, w_dns = (\<lambda>_. Inr []), w_get = (\<lambda>_ _. raise (Lib HTTPError) ''''), w_token = replicate i (CHR ''n'')\<rparr>"

definition ex_vc :: VerifiedCredential where
  "ex_vc = \<lparr>payload = ex_payload, issuer_key = ex_key, raw_jws = ex_cred_jws\<rparr>"

definition ex_outcome :: SettleOutcome where
  "ex_outcome = \<lparr>so_success = True, so_transaction = Some ''TX'', so_payer = JStr ''BUYER'', so_network = ''net'', so_error_reason = None\<rparr>"

definition ex_facilitator :: "string \<Rightarrow> PaymentRequirements \<Rightarrow> (unit, SettleOutcome) st" where
  "ex_facilitator x req = sres (FakeFacilitator_settle ex_shop_lib \<lparr>ff_transaction = ''TX'', ff_success = True\<rparr> x req)"

abbreviation ex_paywall :: "unit shop Paywall" where
  "ex_paywall \<equiv> memory_paywall ex_settings ex_gate ex_facilitator"

abbreviation ex_identity :: ShadowIdentity where
  "ex_identity \<equiv> \<lparr>si_sub = c_sub ex_payload, si_org = c_org ex_payload, si_credential = ex_vc\<rparr>"

lemma ex_world_ok: "world_ok ex_world"
proof -
  have "inj (\<lambda>i. replicate i (CHR ''n''))" by (auto simp: inj_def)
  then show ?thesis by (simp add: world_ok_def ex_world_def mono_def)
qed

lemma ex_tokens_distinct: "ex_pop1 \<noteq> ex_cred_jws" "ex_pop2 \<noteq> ex_cred_jws" "ex_pop1 \<noteq> ex_pop2" "ex_pop1 \<noteq> ''''" "ex_pop2 \<noteq> ''''" "ex_cred_jws \<noteq> ''''"
  by (simp_all add: ex_pop1_def ex_pop2_def ex_cred_jws_def)

lemma ex_shop_signed: "token \<in> {ex_cred_jws, ex_pop1, ex_pop2} \<Longrightarrow> signed_by ex_shop_lib token ex_seed"
proof -
  assume "token \<in> {ex_cred_jws, ex_pop1, ex_pop2}"
  moreover have "split_on (CHR ''.'') ''aGQ.cGw.c2ln'' = [''aGQ'', ''cGw'', ''c2ln'']"
    "split_on (CHR ''.'') ''cDE.cGw.c2ln'' = [''cDE'', ''cGw'', ''c2ln'']"
    "split_on (CHR ''.'') ''cDI.cGw.c2ln'' = [''cDI'', ''cGw'', ''c2ln'']"
    "encode_ascii (''aGQ'' @ ''.'' @ ''cGw'') = Inr (map byte_of_char ''aGQ.cGw'')"
    "encode_ascii (''cDE'' @ ''.'' @ ''cGw'') = Inr (map byte_of_char ''cDE.cGw'')"
    "encode_ascii (''cDI'' @ ''.'' @ ''cGw'') = Inr (map byte_of_char ''cDI.cGw'')"
    "b64u_decode ''c2ln'' = Inr (map byte_of_char ''sig'')"
    by code_simp+
  ultimately show ?thesis
    by (auto simp: signed_by_def ex_shop_lib_def ex_cred_jws_def ex_pop1_def ex_pop2_def)
qed

lemma ex_lib_fields:
  "\<forall>i. as_int ex_shop_lib (JInt i) = Some i" "pk_of_seed ex_shop_lib k = k" "ed_load ex_shop_lib k = Inr ()"
  "jwt_claims ex_shop_lib ex_pop1 = Inr (ex_claims ex_n1)" "jwt_claims ex_shop_lib ex_pop2 = Inr (ex_claims ex_n2)"
  "jwt_claims ex_shop_lib ex_cred_jws = Inr (CredentialPayload_model_dump ex_payload)"
  "jwt_header ex_shop_lib ex_pop1 = Inr (pop_headers (c_sub ex_payload))"
  "jwt_header ex_shop_lib ex_pop2 = Inr (pop_headers (c_sub ex_payload))"
  "jwt_header ex_shop_lib ex_cred_jws = Inr [(''alg'', JStr ''EdDSA''), (''typ'', JStr CREDENTIAL_TYP)]"
  "json_loads ex_shop_lib b = Inr (x_payment_payload ex_terms)"
  using ex_tokens_distinct by (simp_all add: ex_shop_lib_def toy_lib_def)

lemma ex_gate_credential: "gate_verify_credential ex_gate (ex_world i) ex_cred_jws None 60 = Inr ex_vc"
proof -
  have "valid_claims ex_shop_lib ex_cred_jws 1100 60 ex_payload"
    using model_validate_dump [OF ex_payload_wf ex_lib_fields(1)]
    by (auto simp: valid_claims_def ex_lib_fields header_is_def)
      (simp_all add: ex_payload_def ORG_AFFILIATION_def CRED_MAX_LIFETIME_SECONDS_def)
  then have "credential_checks ex_shop_lib ex_cred_jws 1100 60 = Inr ex_payload" by (simp add: credential_checks_Inr_iff)
  moreover have "credential_signature ex_shop_lib ex_cred_jws ex_key = Inr ()"
    using ex_key_parses ex_shop_signed by (auto simp: credential_signature_Inr_iff ex_lib_fields)
  ultimately show ?thesis
    by (simp add: gate_verify_credential_def ex_gate_def ex_world_def verify_credential_def ex_vc_def)
qed

lemma ex_calm: "outside s = ex_world \<Longrightarrow> calm ex_gate s ex_cred_jws ex_vc 1100"
  by (simp add: calm_def ex_gate_credential) (simp add: ex_world_def revoke_check_def ex_gate_def)

lemma ex_sub: "c_sub (payload ex_vc) = c_sub ex_payload" "c_org (payload ex_vc) = c_org ex_payload"
    "c_kind (payload ex_vc) = ''org_affiliation''"
  by (simp_all add: ex_vc_def) (simp add: ex_payload_def)

lemma ex_decode_sound: "decode_sound (g_lib ex_gate) (g_pyjwt ex_gate)"
proof -
  have "claims = ex_claims ex_n1 \<or> claims = ex_claims ex_n2"
      "pk = ex_seed" "token \<in> {ex_pop1, ex_pop2}" "aud = ex_url" "t - of_int lw < 1220"
      "jwt_claims ex_shop_lib token = Inr claims"
    if "ex_pyjwt t token pk (pop_options aud lw) = Inr claims" for t token pk aud lw claims
    using that by (auto simp: ex_pyjwt_def pop_options_def ex_lib_fields split: if_splits)
  note facts = this
  show ?thesis
    unfolding decode_sound_def ex_gate_def gate_conf.simps
  proof (intro allI impI)
    fix t token pk aud lw claims
    assume e: "ex_pyjwt t token pk (pop_options aud lw) = Inr claims"
    have "signed_by ex_shop_lib token pk" using facts(2,3) [OF e] ex_shop_signed by blast
    with facts(1,4,5,6) [OF e]
    show "signed_by ex_shop_lib token pk \<and> jwt_claims ex_shop_lib token = Inr claims
        \<and> list_all (\<lambda>k. dict_get claims k \<noteq> None) [''sub'', ''aud'', ''nonce'', ''iat'', ''exp'']
        \<and> (\<forall>e. dict_get claims ''exp'' = Some (JInt e) \<longrightarrow> t - of_int lw < of_int e)
        \<and> (dict_get claims ''aud'' = Some (JStr aud) \<or> (\<exists>l. dict_get claims ''aud'' = Some (JList l) \<and> JStr aud \<in> set l))"
      by (auto simp: ex_claims_def pop_claims_def)
  qed
qed

lemma ex_claims_inj: "ex_claims n = pop_claims sub aud m i l \<Longrightarrow> sub = c_sub ex_payload \<and> aud = ex_url \<and> m = n \<and> i = 1100 \<and> l = 120"
  by (simp add: ex_claims_def pop_claims_def)

lemma ex_decode_complete: "decode_complete ex_shop_lib ex_pyjwt"
  unfolding decode_complete_def
proof (intro allI impI)
  fix t :: rat and token pk aud lw h sub nonce issued life
  assume s: "signed_by ex_shop_lib token pk" and c: "jwt_claims ex_shop_lib token = Inr (pop_claims sub aud nonce issued life)"
    and t: "t - of_int lw < of_int (issued + life)"
  have pk: "pk = ex_seed" using s by (auto simp: signed_by_def ex_shop_lib_def)
  have "CredentialPayload_model_dump ex_payload \<noteq> pop_claims sub aud nonce issued life"
    by (simp add: CredentialPayload_model_dump_def pop_claims_def dict_update_def ex_payload_def)
  with c have tok: "token \<in> {ex_pop1, ex_pop2}" by (auto simp: ex_shop_lib_def split: if_splits)
  then obtain n where "ex_claims n = pop_claims sub aud nonce issued life" using c by (auto simp: ex_lib_fields)
  from ex_claims_inj [OF this] show "ex_pyjwt t token pk (pop_options aud lw) = Inr (pop_claims sub aud nonce issued life)"
    using tok pk c t by (simp add: ex_pyjwt_def pop_options_def)
qed

lemma ex_payment:
  "parse_x_payment ex_shop_lib (encode_x_payment ex_terms) = Inr ex_terms"
  "enforce_agreed_equals_paid ex_terms (quote_of ex_settings ''SELLER'' url) = Inr ()"
  "ex_facilitator (encode_x_payment ex_terms) (quote_of ex_settings ''SELLER'' url) f = (Inr ex_outcome, ())"
proof -
  show p: "parse_x_payment ex_shop_lib (encode_x_payment ex_terms) = Inr ex_terms"
    by (rule parse_encode_x_payment) (simp add: ex_lib_fields)
  have "int_str 7 = ''7''" by code_simp
  then show "enforce_agreed_equals_paid ex_terms (quote_of ex_settings ''SELLER'' url) = Inr ()"
    by (simp add: enforce_agreed_Inr_iff ex_terms_def quote_of_def ex_settings_def)
  show "ex_facilitator (encode_x_payment ex_terms) (quote_of ex_settings ''SELLER'' url) f = (Inr ex_outcome, ())"
    by (simp add: ex_facilitator_def FakeFacilitator_settle_def p sres_def quote_of_def ex_settings_def ex_outcome_def)
      (simp add: ex_terms_def)
qed

lemma ex_pop_passes:
  assumes "pop = ex_pop1 \<and> n = ex_n1 \<or> pop = ex_pop2 \<and> n = ex_n2"
  shows "verify_pop (lib_at ex_gate (ex_world i)) pop (c_sub ex_payload) ex_url n (subject_resolver ex_gate) 60 = Inr ()"
    "jwt_claims ex_shop_lib pop = Inr (ex_claims n)" "claimed_nonce (ex_claims n) = n" "pop \<noteq> ''''"
proof -
  show c: "jwt_claims ex_shop_lib pop = Inr (ex_claims n)" "pop \<noteq> ''''" using assms ex_lib_fields ex_tokens_distinct by auto
  show "claimed_nonce (ex_claims n) = n" by (simp add: claimed_nonce_def ex_claims_def pop_claims_def)
  have "ex_pyjwt 1100 pop ex_seed (pop_options ex_url 60) = Inr (ex_claims n)"
    using assms c by (auto simp: ex_pyjwt_def pop_options_def)
  moreover have "jwt_header ex_shop_lib pop = Inr (pop_headers (c_sub ex_payload))" using assms ex_lib_fields by auto
  ultimately show "verify_pop (lib_at ex_gate (ex_world i)) pop (c_sub ex_payload) ex_url n (subject_resolver ex_gate) 60 = Inr ()"
    by (subst verify_pop_Inr_iff)
      (auto simp: ex_gate_def ex_lib_fields header_is_def pop_headers_def ex_world_def ex_claims_def pop_claims_def)
qed

text \<open>One purchase in the concrete shop.\<close>

lemma ex_purchase:
  fixes s :: "unit shop"
  assumes o: "outside s = ex_world" and b: "budget_revoked (shop_budget s) = {}" "budget_cap (shop_budget s) = 10000"
      "spent_by (shop_budget s) (c_sub ex_payload) \<le> 5000"
    and pop: "pop = ex_pop1 \<and> looks s = 0 \<or> pop = ex_pop2 \<and> looks s = 8"
  obtains req n s0 s' where
    "paywall_process ex_paywall ex_url (Some ex_cred_jws) None None s = (Inr (Challenge req n), s0)"
    "paywall_process ex_paywall ex_url (Some ex_cred_jws) (Some pop) (Some (encode_x_payment ex_terms)) s0
       = (Inr (Settled ex_identity ex_outcome), s')"
    "outside s' = ex_world" "budget_revoked (shop_budget s') = {}" "budget_cap (shop_budget s') = 10000" "looks s' = looks s + 8"
    "spent_by (shop_budget s') (c_sub ex_payload) = spent_by (shop_budget s) (c_sub ex_payload) + 5000"
proof -
  let ?n = "w_token (outside s (Suc (Suc (looks s))))"
  have n: "pop = ex_pop1 \<and> ?n = ex_n1 \<or> pop = ex_pop2 \<and> ?n = ex_n2"
    using pop o by (auto simp: ex_world_def ex_n1_def ex_n2_def numeral_eq_Suc)
  have set: "set_pay_to ex_settings = Some ''SELLER''" "60 \<le> nonce_ttl_seconds ex_settings" "price_micro ex_settings = 5000"
    by (simp_all add: ex_settings_def)
  note calm = ex_calm [OF o]
  obtain s0 where ch: "challenge ex_paywall ex_url (Some ex_cred_jws) s = (Inr (Challenge (quote_of ex_settings ''SELLER'' ex_url) ?n), s0)"
      and s0: "looks s0 = looks s + 4"
    using challenge_ok [OF ex_tokens_distinct(6), of ex_gate s ex_vc ex_settings "''SELLER''" ex_facilitator ex_url]
      calmD [OF calm, of "looks s"] calmD [OF calm, of "Suc (looks s)"] b(1) set(1) by simp
  have lib: "g_lib ex_gate = ex_shop_lib" "g_trust_store ex_gate = None" by (simp_all add: ex_gate_def)
  have "\<exists>s'. settle ex_paywall ex_url (Some ex_cred_jws) (Some pop) (encode_x_payment ex_terms) s0 =
      (Inr (Settled \<lparr>si_sub = c_sub (payload ex_vc), si_org = c_org (payload ex_vc), si_credential = ex_vc\<rparr> ex_outcome), s')
    \<and> looks s' = looks s0 + 4 \<and> outside s' = outside s \<and> shop_facilitator s' = ()
    \<and> budget_revoked (shop_budget s') = budget_revoked (shop_budget s) \<and> budget_cap (shop_budget s') = budget_cap (shop_budget s)
    \<and> spent_by (shop_budget s') = (spent_by (shop_budget s))(c_sub (payload ex_vc) := spent_by (shop_budget s) (c_sub (payload ex_vc)) + price_micro ex_settings)"
    by (rule purchase_settles [OF calm ex_tokens_distinct(6) ex_sub(3) _ ch set(1,2), where d = 0 and claims = "ex_claims ?n" and terms = ex_terms])
      (use b set ex_pop_passes [OF n] ex_payment in \<open>simp_all add: lib ex_sub o ex_outcome_def\<close>)
  then obtain s' where st: "settle ex_paywall ex_url (Some ex_cred_jws) (Some pop) (encode_x_payment ex_terms) s0 =
      (Inr (Settled ex_identity ex_outcome), s')" "looks s' = looks s0 + 4" "outside s' = outside s"
    "budget_revoked (shop_budget s') = budget_revoked (shop_budget s)" "budget_cap (shop_budget s') = budget_cap (shop_budget s)"
    "spent_by (shop_budget s') = (spent_by (shop_budget s))(c_sub ex_payload := spent_by (shop_budget s) (c_sub ex_payload) + 5000)"
    by (auto simp: ex_sub set)
  show thesis
  proof (rule that)
    show "paywall_process ex_paywall ex_url (Some ex_cred_jws) None None s =
        (Inr (Challenge (quote_of ex_settings ''SELLER'' ex_url) ?n), s0)"
      "paywall_process ex_paywall ex_url (Some ex_cred_jws) (Some pop) (Some (encode_x_payment ex_terms)) s0
        = (Inr (Settled ex_identity ex_outcome), s')"
      using ch st(1) by (simp_all add: paywall_process_def)
    show "spent_by (shop_budget s') (c_sub ex_payload) = spent_by (shop_budget s) (c_sub ex_payload) + 5000"
      "looks s' = looks s + 8"
      unfolding st(2,6) s0 by simp_all
  qed (use st(3-5) o b in simp_all)
qed

abbreviation ex_buy :: "string \<Rightarrow> shop_event list" where
  "ex_buy pop \<equiv> [Request ex_url (Some ex_cred_jws) None None,
                 Request ex_url (Some ex_cred_jws) (Some pop) (Some (encode_x_payment ex_terms))]"

abbreviation ex_shop :: "unit shop" where
  "ex_shop \<equiv> new_shop 10000 () ex_world"

text \<open>Two purchases use up the budget; a third proof has no nonce.\<close>

lemma ex_two_purchases:
  obtains r1 n1 r2 n2 s' where "shop_run ex_paywall (ex_buy ex_pop1 @ ex_buy ex_pop2) ex_shop =
     ([(None, Inr (Challenge r1 n1)), (Some ex_pop1, Inr (Settled ex_identity ex_outcome)),
       (None, Inr (Challenge r2 n2)), (Some ex_pop2, Inr (Settled ex_identity ex_outcome))], s')"
proof -
  have 0: "outside ex_shop = ex_world" "budget_revoked (shop_budget ex_shop) = {}" "budget_cap (shop_budget ex_shop) = 10000"
    "spent_by (shop_budget ex_shop) (c_sub ex_payload) = 0" "looks ex_shop = 0"
    by (simp_all add: new_shop_def InMemoryBudgetStore_init_def spent_by_def)
  obtain r1 n1 s1 s2 where
    1: "paywall_process ex_paywall ex_url (Some ex_cred_jws) None None ex_shop = (Inr (Challenge r1 n1), s1)"
      "paywall_process ex_paywall ex_url (Some ex_cred_jws) (Some ex_pop1) (Some (encode_x_payment ex_terms)) s1
         = (Inr (Settled ex_identity ex_outcome), s2)"
    and s2: "outside s2 = ex_world" "budget_revoked (shop_budget s2) = {}" "budget_cap (shop_budget s2) = 10000" "looks s2 = 8"
      "spent_by (shop_budget s2) (c_sub ex_payload) = 5000"
    by (rule ex_purchase [of ex_shop ex_pop1]) (use 0 in auto)
  obtain r2 n2 s3 s4 where
    2: "paywall_process ex_paywall ex_url (Some ex_cred_jws) None None s2 = (Inr (Challenge r2 n2), s3)"
      "paywall_process ex_paywall ex_url (Some ex_cred_jws) (Some ex_pop2) (Some (encode_x_payment ex_terms)) s3
         = (Inr (Settled ex_identity ex_outcome), s4)"
    by (rule ex_purchase [of s2 ex_pop2]) (use s2 in auto)
  from 1 2 that show thesis by simp
qed

theorem budget_ledger_witness:
  "\<exists>hist s'. shop_run ex_paywall (ex_buy ex_pop1 @ ex_buy ex_pop2) ex_shop = (hist, s')
     \<and> spent_by (shop_budget s') (c_sub ex_payload) = 10000"
proof -
  obtain r1 n1 r2 n2 s' where run: "shop_run ex_paywall (ex_buy ex_pop1 @ ex_buy ex_pop2) ex_shop =
     ([(None, Inr (Challenge r1 n1)), (Some ex_pop1, Inr (Settled ex_identity ex_outcome)),
       (None, Inr (Challenge r2 n2)), (Some ex_pop2, Inr (Settled ex_identity ex_outcome))], s')"
    by (rule ex_two_purchases)
  from budget_ledger [OF run] have "spent_by (shop_budget s') (c_sub ex_payload) = 10000"
    by (simp add: settled_count_def ex_settings_def)
  with run show ?thesis by blast
qed

theorem nonce_settles_once_witness:
  "\<exists>r1 n1 r2 n2 s'. shop_run ex_paywall (ex_buy ex_pop1 @ ex_buy ex_pop2) ex_shop =
     ([(None, Inr (Challenge r1 n1)), (Some ex_pop1, Inr (Settled ex_identity ex_outcome)),
       (None, Inr (Challenge r2 n2)), (Some ex_pop2, Inr (Settled ex_identity ex_outcome))], s')
   \<and> claimed_nonce (ex_claims ex_n1) \<noteq> claimed_nonce (ex_claims ex_n2)"
proof -
  obtain r1 n1 r2 n2 s' where run: "shop_run ex_paywall (ex_buy ex_pop1 @ ex_buy ex_pop2) ex_shop =
     ([(None, Inr (Challenge r1 n1)), (Some ex_pop1, Inr (Settled ex_identity ex_outcome)),
       (None, Inr (Challenge r2 n2)), (Some ex_pop2, Inr (Settled ex_identity ex_outcome))], s')"
    by (rule ex_two_purchases)
  have "g_lib ex_gate = ex_shop_lib" by (simp add: ex_gate_def)
  with nonce_settles_once [OF run ex_world_ok, of 1 3 ex_pop1 ex_identity ex_outcome ex_pop2 ex_identity ex_outcome "ex_claims ex_n1" "ex_claims ex_n2"]
  have "claimed_nonce (ex_claims ex_n1) \<noteq> claimed_nonce (ex_claims ex_n2)"
    by (simp add: ex_lib_fields numeral_eq_Suc)
  with run show ?thesis by blast
qed

theorem settled_is_authorized_witness:
  "\<exists>(s :: unit shop) s' bound t.
     paywall_process ex_paywall ex_url (Some ex_cred_jws) (Some ex_pop1) (Some (encode_x_payment ex_terms)) s
       = (Inr (Settled ex_identity ex_outcome), s')
     \<and> shop_entry s (claimed_nonce (ex_claims ex_n1)) = Some (bound, t) \<and> bound \<in> {None, Some (c_sub ex_payload)}"
proof -
  have 0: "outside ex_shop = ex_world" "budget_revoked (shop_budget ex_shop) = {}" "budget_cap (shop_budget ex_shop) = 10000"
    "spent_by (shop_budget ex_shop) (c_sub ex_payload) = 0" "looks ex_shop = 0"
    by (simp_all add: new_shop_def InMemoryBudgetStore_init_def spent_by_def)
  obtain r1 n1 s1 s2 where
    1: "paywall_process ex_paywall ex_url (Some ex_cred_jws) None None ex_shop = (Inr (Challenge r1 n1), s1)"
      "paywall_process ex_paywall ex_url (Some ex_cred_jws) (Some ex_pop1) (Some (encode_x_payment ex_terms)) s1
         = (Inr (Settled ex_identity ex_outcome), s2)"
    by (rule ex_purchase [of ex_shop ex_pop1]) (use 0 in auto)
  have "shop_valid ex_shop" using ex_world_ok by (simp add: shop_valid_def new_shop_def shop_entry_def InMemoryNonceStore_init_def)
  then have v: "shop_valid s1" using keepsD [OF shop.keeps_valid_process 1(1)] by simp
  have "jwt_claims (g_lib ex_gate) ex_pop1 = Inr (ex_claims ex_n1)" by (simp add: ex_gate_def ex_lib_fields)
  with settled_is_authorized [OF ex_decode_sound v 1(2)] obtain bound t where
    "shop_entry s1 (claimed_nonce (ex_claims ex_n1)) = Some (bound, t)" "bound \<in> {None, Some (c_sub ex_payload)}"
    by auto
  with 1(2) show ?thesis by blast
qed

definition ex_client :: ShadowX402Client where
  "ex_client =
     \<lparr>shadow_key = \<lparr>public_bytes = ex_seed, private_raw = Some ex_seed\<rparr>, shadow_sub = c_sub ex_payload,
      client_credential = ex_cred_jws, client_payer = ''BUYER'', client_build_payment = None\<rparr>"

definition ex_deliver :: "JSONResponse \<Rightarrow> http_response" where
  "ex_deliver r = \<lparr>status_code = jr_status r, resp_text = '''', resp_content = [], resp_header = map_of (jr_headers r),
                   resp_json = Inr (jr_content r)\<rparr>"

theorem handshake_settles_witness:
  "\<exists>resp s'. run (ShadowX402Client_get ex_shop_lib ex_client (\<lambda>u h. atomic (serve ex_paywall (Some [(''ok'', JBool True)]) ex_deliver u h))
        client_clock ex_url) ex_shop = (Inr resp, s')
    \<and> status_code resp = 200 \<and> resp_json resp = Inr (JObj [(''ok'', JBool True)])
    \<and> spent_by (shop_budget s') (c_sub ex_payload) = 5000"
proof -
  let ?c = "pop_claims (shadow_sub ex_client) ex_url (w_token (outside ex_shop (looks ex_shop + 2))) \<lfloor>w_now (outside ex_shop (looks ex_shop + 4))\<rfloor> 120"
  have c: "?c = ex_claims ex_n1"
    by (simp add: ex_claims_def ex_client_def new_shop_def ex_world_def ex_n1_def numeral_eq_Suc)
  have shop: "outside ex_shop = ex_world" "spent_by (shop_budget ex_shop) k = 0" "budget_revoked (shop_budget ex_shop) = {}"
    "budget_cap (shop_budget ex_shop) = 10000" for k
    by (simp_all add: new_shop_def InMemoryBudgetStore_init_def spent_by_def)
  have cl: "shadow_sub ex_client = c_sub ex_payload" "client_credential ex_client = ex_cred_jws" "client_payer ex_client = ''BUYER''"
    "client_build_payment ex_client = None" "private_raw (shadow_key ex_client) = Some ex_seed" by (simp_all add: ex_client_def)
  have t: "ex_terms = \<lparr>pd_network = network_caip2 ex_settings, pd_asset = int_str (asset_id ex_settings),
        pd_amount = price_micro ex_settings, pd_pay_to = ''SELLER'', pd_payer = JStr (client_payer ex_client)\<rparr>"
  proof -
    have "int_str 7 = ''7''" by code_simp
    then show ?thesis by (simp add: ex_terms_def ex_settings_def cl)
  qed
  have set: "set_pay_to ex_settings = Some ''SELLER''" "60 \<le> nonce_ttl_seconds ex_settings" "price_micro ex_settings = 5000"
    by (simp_all add: ex_settings_def)
  have g: "g_lib ex_gate = ex_shop_lib" "g_trust_store ex_gate = None" "g_pyjwt ex_gate = ex_pyjwt"
    "subject_resolver ex_gate (shadow_sub ex_client) = Inr \<lparr>public_bytes = ex_seed, private_raw = None\<rparr>" by (simp_all add: ex_gate_def)
  have "faithful_delivery ex_deliver" by (simp add: faithful_delivery_def ex_deliver_def)
  moreover have enc: "jwt_encode ex_shop_lib (ex_claims ex_n1) ex_seed (pop_headers (shadow_sub ex_client)) = Inr ex_pop1"
    by (simp add: ex_shop_lib_def)
  moreover have "jwt_encodes ex_shop_lib (ex_claims ex_n1) ex_seed (pop_headers (shadow_sub ex_client))"
    using ex_shop_signed [of ex_pop1] enc by (auto simp: jwt_encodes_def ex_lib_fields cl)
  ultimately show ?thesis
    using handshake_settles [where deliver = ex_deliver and g = ex_gate and s = ex_shop and cl = ex_client and vc = ex_vc
        and T = 1100 and settings = ex_settings and payee = "''SELLER''" and sk = ex_seed and L = ex_shop_lib
        and key = "\<lparr>public_bytes = ex_seed, private_raw = None\<rparr>" and url = ex_url and claims = "ex_claims ex_n1"
        and pop = ex_pop1 and terms = ex_terms and facilitator = ex_facilitator and oc = ex_outcome and f = "()"
        and body = "Some [(''ok'', JBool True)]"]
      ex_calm [OF shop(1)] ex_tokens_distinct ex_sub g set shop cl t c ex_decode_complete ex_lib_fields ex_payment(3)
    by (simp add: ex_outcome_def)
qed

end
