(* ===== verification/Uri.thy ===== *)
theory Uri
  imports Jcs Identifiers
begin

text \<open>
  The part of Python's \<open>urllib.parse\<close> (and of \<open>ipaddress\<close>) that the address and onboarding parsers rest
  on: \<open>urlparse\<close> with its components and its \<open>ValueError\<close>s, \<open>unquote\<close> and the strict form of \<open>parse_qsl\<close>.
  A URI is a \<^typ>\<open>string\<close>; percent-decoding yields UTF-8, so decoded text is a list of code points
  (\<^typ>\<open>ustr\<close>). Shown here: a text that is percent-encoded and put into a query comes back unchanged, and
  a URI put together from a scheme, an authority, a query and a fragment is taken apart into them.
\<close>

section \<open>Splitting a URI\<close>

definition value_error :: "string \<Rightarrow> 'a res" where
  "value_error m = raise (Builtin ValueError) m"

definition is_alpha_ascii :: "char \<Rightarrow> bool" where
  "is_alpha_ascii c = (let n = code c in 65 \<le> n \<and> n \<le> 90 \<or> 97 \<le> n \<and> n \<le> 122)"

definition is_hex :: "char \<Rightarrow> bool" where
  "is_hex c = (let n = code c in 48 \<le> n \<and> n \<le> 57 \<or> 65 \<le> n \<and> n \<le> 70 \<or> 97 \<le> n \<and> n \<le> 102)"

definition hex_value :: "char \<Rightarrow> nat" where
  "hex_value c = (let n = code c in if n \<le> 57 then n - 48 else if n \<le> 70 then n - 55 else n - 87)"

text \<open>\<open>lstrip\<close> of \<open>_WHATWG_C0_CONTROL_OR_SPACE\<close> and the removal of \<open>_UNSAFE_URL_BYTES_TO_REMOVE\<close>.\<close>

definition clean_url :: "string \<Rightarrow> string" where
  "clean_url url = filter (\<lambda>c. code c \<notin> {9, 10, 13}) (lstrip (\<lambda>c. code c \<le> 32) url)"

definition scheme_char :: "char \<Rightarrow> bool" where
  "scheme_char c = (is_alnum_ascii c \<or> c = CHR ''+'' \<or> c = CHR ''-'' \<or> c = CHR ''.'')"

definition split_scheme :: "string \<Rightarrow> string \<times> string" where
  "split_scheme url =
     (let (before, after) = partition_on (CHR '':'') url in
        if CHR '':'' \<in> set url \<and> before \<noteq> [] \<and> is_alpha_ascii (hd before) \<and> list_all scheme_char before
        then (lower before, after) else ([], url))"

definition netloc_end :: "char \<Rightarrow> bool" where
  "netloc_end c = (c = CHR ''/'' \<or> c = CHR ''?'' \<or> c = CHR ''#'')"

definition split_netloc :: "string \<Rightarrow> string \<times> string" where
  "split_netloc url =
     (if take 2 url = ''//''
      then (takeWhile (\<lambda>c. \<not> netloc_end c) (drop 2 url), dropWhile (\<lambda>c. \<not> netloc_end c) (drop 2 url))
      else ([], url))"

text \<open>\<open>s.rpartition(c)\<close>: the text before the last \<open>c\<close>, \<open>None\<close> when there is none, and the text after it.\<close>

definition rpartition_on :: "char \<Rightarrow> string \<Rightarrow> string option \<times> string" where
  "rpartition_on c s =
     (if c \<in> set s
      then (Some (rev (drop 1 (dropWhile (\<lambda>x. x \<noteq> c) (rev s)))), rev (takeWhile (\<lambda>x. x \<noteq> c) (rev s)))
      else (None, s))"

subsection \<open>Bracketed hosts\<close>

text \<open>
  \<open>ipaddress.ip_address\<close>: the texts \<open>IPv4Address\<close> and \<open>IPv6Address\<close> accept. Four decimal octets without
  leading zeros; eight groups of up to four hexadecimal digits, of which one run may be left out as \<open>::\<close>,
  the last two also as an IPv4 address, with an optional zone after \<open>%\<close>.
\<close>

definition is_octet :: "string \<Rightarrow> bool" where
  "is_octet s =
     (s \<noteq> [] \<and> list_all is_digit s \<and> length s \<le> 3 \<and> (s = ''0'' \<or> hd s \<noteq> CHR ''0'') \<and> digits_nat s \<le> 255)"

definition is_ipv4 :: "string \<Rightarrow> bool" where
  "is_ipv4 s = (let octets = split_on (CHR ''.'') s in length octets = 4 \<and> list_all is_octet octets)"

definition is_hextet :: "string \<Rightarrow> bool" where
  "is_hextet s = (s \<noteq> [] \<and> list_all is_hex s \<and> length s \<le> 4)"

definition ipv6_groups :: "string list \<Rightarrow> bool" where
  "ipv6_groups ps =
     (let n = length ps;
          gaps = filter (\<lambda>i. ps ! i = []) [1..<n - 1] in
      3 \<le> n \<and> n \<le> 9 \<and>
      (case gaps of
         [] \<Rightarrow> n = 8 \<and> list_all is_hextet ps
       | [i] \<Rightarrow>
           (let hi = (if hd ps = [] then i - 1 else i);
                lo = (if last ps = [] then n - i - 2 else n - i - 1) in
            (hd ps = [] \<longrightarrow> hi = 0) \<and> (last ps = [] \<longrightarrow> lo = 0) \<and> hi + lo < 8
            \<and> list_all is_hextet (take hi ps) \<and> list_all is_hextet (drop (n - lo) ps))
       | _ \<Rightarrow> False))"

definition is_ipv6 :: "string \<Rightarrow> bool" where
  "is_ipv6 s =
     (let (addr, zone) = partition_on (CHR ''%'') s;
          ps = split_on (CHR '':'') addr in
      CHR ''/'' \<notin> set s \<and> (CHR ''%'' \<in> set s \<longrightarrow> zone \<noteq> [] \<and> CHR ''%'' \<notin> set zone)
      \<and> 3 \<le> length ps
      \<and> (if CHR ''.'' \<in> set (last ps) then is_ipv4 (last ps) \<and> ipv6_groups (butlast ps @ [''0'', ''0''])
         else ipv6_groups ps))"

text \<open>\<open>_check_bracketed_host\<close>, with the pattern \<open>\Av[a-fA-F0-9]+\..+\Z\<close> of IPvFuture literals.\<close>

definition ipvfuture :: "string \<Rightarrow> bool" where
  "ipvfuture s =
     (let digits = takeWhile is_hex (drop 1 s); rest = drop (Suc (length digits)) s in
        digits \<noteq> [] \<and> (case rest of [] \<Rightarrow> False | c # cs \<Rightarrow> c = CHR ''.'' \<and> cs \<noteq> [] \<and> CHR ''\<newline>'' \<notin> set cs))"

definition check_bracketed_host :: "string \<Rightarrow> unit res" where
  "check_bracketed_host hostname =
     (if prefix ''v'' hostname
      then (if ipvfuture hostname then Inr () else value_error ''IPvFuture address is invalid'')
      else if is_ipv4 hostname then value_error ''An IPv4 address cannot be in brackets''
      else if is_ipv6 hostname then Inr ()
      else value_error (repr hostname @ '' does not appear to be an IPv4 or IPv6 address''))"

text \<open>\<open>_check_bracketed_netloc\<close>.\<close>

definition check_bracketed_netloc :: "string \<Rightarrow> unit res" where
  "check_bracketed_netloc netloc =
     (let host_and_port = snd (rpartition_on (CHR ''@'') netloc);
          (before, bracketed) = partition_on (CHR ''['') host_and_port in
      if CHR ''['' \<in> set host_and_port
      then if before \<noteq> [] then value_error ''Invalid IPv6 URL''
           else (let (hostname, port) = partition_on (CHR '']'') bracketed in
                   if port \<noteq> [] \<and> \<not> prefix '':'' port then value_error ''Invalid IPv6 URL''
                   else check_bracketed_host hostname)
      else check_bracketed_host (fst (partition_on (CHR '':'') host_and_port)))"

subsection \<open>The result\<close>

record ParseResult =
  url_scheme :: string
  url_netloc :: string
  url_path :: string
  url_query :: string
  url_fragment :: string

text \<open>
  \<open>urlparse(url)\<close>. The test of \<open>_checknetloc\<close> passes for code points below 256. For the schemes in
  \<open>uses_params\<close> the path would also lose its parameters; neither caller reads the path of such a URI.
\<close>

definition urlparse :: "string \<Rightarrow> ParseResult res" where
  "urlparse url =
     (let (scheme, rest) = split_scheme (clean_url url);
          (netloc, rest) = split_netloc rest;
          (rest, fragment) = partition_on (CHR ''#'') rest;
          (path, query) = partition_on (CHR ''?'') rest;
          opened = CHR ''['' \<in> set netloc; closed = CHR '']'' \<in> set netloc in
      if opened \<noteq> closed then value_error ''Invalid IPv6 URL''
      else
      bind (if opened then check_bracketed_netloc netloc else Inr ()) (\<lambda>_.
        Inr \<lparr>url_scheme = scheme, url_netloc = netloc, url_path = path, url_query = query,
             url_fragment = fragment\<rparr>))"

definition url_userinfo :: "ParseResult \<Rightarrow> string option \<times> string option" where
  "url_userinfo p =
     (case fst (rpartition_on (CHR ''@'') (url_netloc p)) of
        None \<Rightarrow> (None, None)
      | Some userinfo \<Rightarrow>
          (let (user, pass) = partition_on (CHR '':'') userinfo in
             (Some user, if CHR '':'' \<in> set userinfo then Some pass else None)))"

definition url_username :: "ParseResult \<Rightarrow> string option" where
  "url_username p = fst (url_userinfo p)"

definition url_password :: "ParseResult \<Rightarrow> string option" where
  "url_password p = snd (url_userinfo p)"

definition url_hostinfo :: "ParseResult \<Rightarrow> string \<times> string" where
  "url_hostinfo p =
     (let hostinfo = snd (rpartition_on (CHR ''@'') (url_netloc p)) in
        if CHR ''['' \<in> set hostinfo
        then (let (host, rest) = partition_on (CHR '']'') (snd (partition_on (CHR ''['') hostinfo))
              in (host, snd (partition_on (CHR '':'') rest)))
        else partition_on (CHR '':'') hostinfo)"

text \<open>\<open>hostname\<close>: lower case up to the zone of a scoped address; \<open>None\<close> when empty.\<close>

definition url_hostname :: "ParseResult \<Rightarrow> string option" where
  "url_hostname p =
     (let h = fst (url_hostinfo p) in
        if h = [] then None
        else (let n = length (takeWhile (\<lambda>c. c \<noteq> CHR ''%'') h) in Some (lower (take n h) @ drop n h)))"

definition url_port :: "ParseResult \<Rightarrow> int option res" where
  "url_port p =
     (let port = snd (url_hostinfo p) in
        if port = [] then Inr None
        else if \<not> list_all is_digit port
        then value_error (''Port could not be cast to integer value as '' @ repr port)
        else if digits_nat port > 65535 then value_error ''Port out of range 0-65535''
        else Inr (Some (int (digits_nat port))))"

section \<open>Percent-decoding and queries\<close>

text \<open>\<open>unquote_to_bytes\<close> on ASCII text: a \<open>%\<close> without two hexadecimal digits stays.\<close>

fun unpercent :: "string \<Rightarrow> nat list" where
  "unpercent (CHR ''%'' # a # b # cs) =
     (if is_hex a \<and> is_hex b then (16 * hex_value a + hex_value b) # unpercent cs
      else 37 # unpercent (a # b # cs))"
| "unpercent (c # cs) = code c # unpercent cs"
| "unpercent [] = []"

text \<open>
  \<open>bytes.decode("utf-8", "replace")\<close>. \<open>utf8_second b\<close> is the range of the byte after the lead byte \<open>b\<close>; a
  sequence that breaks off is replaced, as a whole, by U+FFFD and decoding goes on at the byte that broke
  it.
\<close>

definition cont :: "nat \<Rightarrow> bool" where
  "cont b = (0x80 \<le> b \<and> b \<le> 0xBF)"

definition utf8_second :: "nat \<Rightarrow> nat \<Rightarrow> bool" where
  "utf8_second lead b =
     (if lead = 0xE0 then 0xA0 \<le> b \<and> b \<le> 0xBF
      else if lead = 0xED then 0x80 \<le> b \<and> b \<le> 0x9F
      else if lead = 0xF0 then 0x90 \<le> b \<and> b \<le> 0xBF
      else if lead = 0xF4 then 0x80 \<le> b \<and> b \<le> 0x8F
      else cont b)"

definition utf8_length :: "nat \<Rightarrow> nat" where
  "utf8_length lead =
     (if lead < 0x80 then 1
      else if 0xC2 \<le> lead \<and> lead \<le> 0xDF then 2
      else if 0xE0 \<le> lead \<and> lead \<le> 0xEF then 3
      else if 0xF0 \<le> lead \<and> lead \<le> 0xF4 then 4
      else 0)"

text \<open>How many of the bytes after the lead byte continue its sequence.\<close>

definition utf8_valid :: "nat \<Rightarrow> nat list \<Rightarrow> nat" where
  "utf8_valid lead bs =
     (if utf8_length lead \<le> 1 \<or> bs = [] \<or> \<not> utf8_second lead (hd bs) then 0
      else Suc (length (takeWhile cont (take (utf8_length lead - 2) (drop 1 bs)))))"

function utf8_replace :: "nat list \<Rightarrow> ustr" where
  "utf8_replace [] = []"
| "utf8_replace (b # bs) =
     (let k = utf8_valid b bs in
        (if utf8_length b = Suc k then fst (un_utf8 (b # take k bs)) else 0xFFFD)
          # utf8_replace (drop k bs))"
  by pat_completeness auto
termination
  by (relation "measure length") (auto simp: Let_def)

text \<open>
  \<open>unquote\<close>: runs of ASCII characters are percent-decoded and read as UTF-8, other characters stay. (A
  text without \<open>%\<close> is returned as it is, which is what this computes too.)
\<close>

definition ascii_char :: "char \<Rightarrow> bool" where
  "ascii_char c = (code c < 128)"

function unquote :: "string \<Rightarrow> ustr" where
  "unquote [] = []"
| "unquote (c # cs) =
     (if ascii_char c
      then utf8_replace (unpercent (c # takeWhile ascii_char cs)) @ unquote (dropWhile ascii_char cs)
      else code c # unquote cs)"
  by pat_completeness auto
termination
  by (relation "measure length") (auto simp: le_imp_less_Suc length_dropWhile_le)

text \<open>\<open>parse_qsl(qs, keep_blank_values=False, strict_parsing=True)\<close>.\<close>

definition plus_to_space :: "string \<Rightarrow> string" where
  "plus_to_space = map (\<lambda>c. if c = CHR ''+'' then CHR '' '' else c)"

definition query_field :: "string \<Rightarrow> (ustr \<times> ustr) option res" where
  "query_field name_value =
     (if CHR ''='' \<notin> set name_value then value_error (''bad query field: '' @ repr name_value)
      else (let (name, v) = partition_on (CHR ''='') name_value in
              Inr (if v = [] then None else Some (unquote (plus_to_space name), unquote (plus_to_space v)))))"

definition parse_qsl :: "string \<Rightarrow> (ustr \<times> ustr) list res" where
  "parse_qsl qs =
     (if qs = [] then Inr []
      else bind (map_res query_field (split_on (CHR ''&'') qs)) (\<lambda>r. Inr (List.map_filter id r)))"

section \<open>Percent-encoding comes back\<close>

text \<open>
  \<open>urllib.parse.quote(s, safe="")\<close>, as the tools that print URIs write a parameter: letters, digits and
  \<open>_.-~\<close> stand for themselves, every other byte of the UTF-8 form becomes \<open>%XY\<close>.
\<close>

definition unreserved :: "char \<Rightarrow> bool" where
  "unreserved c = (is_alnum_ascii c \<or> c \<in> {CHR ''_'', CHR ''.'', CHR ''-'', CHR ''~''})"

definition upper_hex :: "nat \<Rightarrow> char" where
  "upper_hex d = (if d < 10 then char_of (d + 48) else char_of (d + 55))"

definition quote_byte :: "nat \<Rightarrow> string" where
  "quote_byte b =
     (if unreserved (char_of b) then [char_of b] else [CHR ''%'', upper_hex (b div 16), upper_hex (b mod 16)])"

definition quote :: "ustr \<Rightarrow> string" where
  "quote s = concat (map quote_byte (utf8 s))"

definition scalar :: "nat \<Rightarrow> bool" where
  "scalar cp = (cp < 0x110000 \<and> \<not> is_surrogate cp)"

lemma upper_hex_facts:
  assumes "d < 16"
  shows "is_hex (upper_hex d)" "hex_value (upper_hex d) = d"
  using assms by (auto simp: upper_hex_def is_hex_def hex_value_def Let_def)

lemma unpercent_other: "c \<noteq> CHR ''%'' \<Longrightarrow> unpercent (c # cs) = code c # unpercent cs"
  by (cases "c # cs" rule: unpercent.cases) auto

lemma unreserved_not_percent: "unreserved c \<Longrightarrow> c \<noteq> CHR ''%''"
  by (auto simp: unreserved_def is_alnum_ascii_def Let_def)

lemma unpercent_quote_byte: "b < 256 \<Longrightarrow> unpercent (quote_byte b @ cs) = b # unpercent cs"
proof (cases "unreserved (char_of b)")
  case True
  moreover assume "b < 256"
  moreover have "(char_of b :: char) \<noteq> CHR ''%''"
    using True by (rule unreserved_not_percent)
  ultimately show ?thesis by (simp add: quote_byte_def unpercent_other)
next
  case False
  moreover assume "b < 256"
  ultimately show ?thesis by (simp add: quote_byte_def upper_hex_facts)
qed

lemma unpercent_quote: "code_points s \<Longrightarrow> unpercent (quote s) = utf8 s"
proof -
  have "unpercent (concat (map quote_byte bs)) = bs" if "\<forall>b\<in>set bs. b < 256" for bs
    using that by (induction bs) (simp_all add: unpercent_quote_byte)
  moreover assume "code_points s"
  then have "\<forall>b\<in>set (utf8 s). b < 256"
    by (auto simp: utf8_def code_points_def list_all_iff dest: utf8_bytes_range)
  ultimately show ?thesis by (simp add: quote_def)
qed

lemma quote_byte_chars: "b < 256 \<Longrightarrow> c \<in> set (quote_byte b) \<Longrightarrow> unreserved c \<or> c = CHR ''%''"
  by (auto simp: quote_byte_def unreserved_def upper_hex_def is_alnum_ascii_def split: if_splits)

lemma quote_chars: "code_points s \<Longrightarrow> c \<in> set (quote s) \<Longrightarrow> unreserved c \<or> c = CHR ''%''"
  by (auto simp: quote_def utf8_def code_points_def list_all_iff dest!: quote_byte_chars [rotated]
      dest: utf8_bytes_range)

lemma unreserved_code: "unreserved c \<or> c = CHR ''%'' \<Longrightarrow> 37 \<le> code c \<and> code c < 128 \<and> code c \<notin> {35, 38, 43, 47, 58, 61, 63, 91, 93}"
  by (auto simp: unreserved_def is_alnum_ascii_def Let_def)

subsection \<open>UTF-8\<close>

lemma cont_digit: "cont (0x80 + n mod 0x40)"
  by (simp add: cont_def less_Suc_eq_le [symmetric])

lemma mod_in_block: "(n :: nat) div 64 = q \<Longrightarrow> n < 64 * q + k \<Longrightarrow> n mod 64 < k"
  using div_mult_mod_eq [of n 64] by linarith

lemma utf8_lead:
  assumes "scalar cp" "utf8_bytes cp = b # bs"
  shows "utf8_length b = Suc (length bs)" "utf8_valid b (bs @ x) = length bs"
proof -
  have len: "utf8_length b = Suc (length bs) \<and> utf8_valid b (bs @ x) = length bs"
  proof (cases "cp < 0x800")
    case True
    then have "cp div 64 < 32" by simp
    with True assms show ?thesis
      by (auto simp: utf8_bytes_def utf8_length_def utf8_valid_def utf8_second_def cont_digit split: if_splits)
  next
    case False
    show ?thesis
    proof (cases "cp < 0x10000")
      case True
      have d: "cp div 4096 \<le> 15" "cp div 4096 = 0 \<Longrightarrow> 0x20 \<le> cp div 64 mod 64"
        using True False by simp_all
      have "cp div 64 mod 64 < 32" if "cp div 4096 = 13"
      proof (rule mod_in_block)
        show "cp div 64 div 64 = 13" using that by (simp add: div_mult2_eq [symmetric])
        show "cp div 64 < 64 * 13 + 32"
          using assms(1) that by (auto simp: scalar_def is_surrogate_def)
      qed
      then have "cp div 4096 = 13 \<Longrightarrow> cp div 64 mod 64 \<le> 31" by simp
      note d = d this
      from True False assms(2) have "b = 0xE0 + cp div 4096" "bs = [0x80 + cp div 64 mod 64, 0x80 + cp mod 64]"
        by (auto simp: utf8_bytes_def)
      with d show ?thesis
        by (auto simp: utf8_length_def utf8_valid_def utf8_second_def cont_digit)
    next
      case big: False
      have d: "cp div 262144 \<le> 4" "cp div 262144 = 0 \<Longrightarrow> 0x10 \<le> cp div 4096 mod 64"
        using big assms(1) by (auto simp: scalar_def)
      have "cp div 4096 mod 64 < 16" if "cp div 262144 = 4"
      proof (rule mod_in_block)
        show "cp div 4096 div 64 = 4" using that by (simp add: div_mult2_eq [symmetric])
        show "cp div 4096 < 64 * 4 + 16" using assms(1) by (auto simp: scalar_def)
      qed
      then have "cp div 262144 = 4 \<Longrightarrow> cp div 4096 mod 64 \<le> 15" by simp
      note d = d this
      from big assms(2) have "b = 0xF0 + cp div 262144"
        "bs = [0x80 + cp div 4096 mod 64, 0x80 + cp div 64 mod 64, 0x80 + cp mod 64]"
        by (auto simp: utf8_bytes_def)
      with d show ?thesis
        by (auto simp: utf8_length_def utf8_valid_def utf8_second_def cont_digit)
    qed
  qed
  then show "utf8_length b = Suc (length bs)" "utf8_valid b (bs @ x) = length bs" by simp_all
qed

lemma utf8_replace_bytes: "scalar cp \<Longrightarrow> utf8_replace (utf8_bytes cp @ x) = cp # utf8_replace x"
proof -
  assume cp: "scalar cp"
  obtain b bs where b: "utf8_bytes cp = b # bs" by (meson neq_Nil_conv utf8_bytes_not_Nil)
  moreover have "un_utf8 (b # bs) = (cp, [])" using un_utf8_bytes [of cp "[]"] b by simp
  ultimately show ?thesis using utf8_lead [OF cp b] by simp
qed

lemma utf8_replace_utf8: "list_all scalar s \<Longrightarrow> utf8_replace (utf8 s) = s"
  by (induction s) (simp_all add: utf8_def utf8_replace_bytes)

lemma scalar_code_points: "list_all scalar s \<Longrightarrow> code_points s"
  by (auto simp: scalar_def code_points_def list_all_iff)

lemma unquote_ascii: "list_all ascii_char s \<Longrightarrow> unquote s = utf8_replace (unpercent s)"
proof (cases s)
  case (Cons c cs)
  moreover assume "list_all ascii_char s"
  ultimately have "ascii_char c" "takeWhile ascii_char cs = cs" "dropWhile ascii_char cs = []"
    by (simp_all add: list_all_iff takeWhile_eq_all_conv)
  then show ?thesis
    unfolding Cons unquote.simps(2) by (simp only: if_True unquote.simps(1) append_Nil2)
qed simp

lemma unquote_quote:
  assumes "list_all scalar s"
  shows "unquote (plus_to_space (quote s)) = s"
proof -
  have q: "\<forall>c\<in>set (quote s). ascii_char c \<and> c \<noteq> CHR ''+''"
  proof
    fix c
    assume "c \<in> set (quote s)"
    then have "code c < 128 \<and> code c \<noteq> 43"
      using unreserved_code quote_chars [OF scalar_code_points [OF assms]] by blast
    then show "ascii_char c \<and> c \<noteq> CHR ''+''" by (auto simp: ascii_char_def)
  qed
  then have "plus_to_space (quote s) = quote s"
    unfolding plus_to_space_def by (intro map_idI) auto
  moreover have "unquote (quote s) = utf8_replace (unpercent (quote s))"
    using q by (intro unquote_ascii) (simp add: list_all_iff)
  ultimately show ?thesis
    using assms by (simp add: unpercent_quote scalar_code_points utf8_replace_utf8)
qed

section \<open>Taking an assembled URI apart\<close>

lemma clean_url_id: "\<forall>c\<in>set s. 32 < code c \<Longrightarrow> clean_url s = s"
  unfolding clean_url_def by (subst lstrip_id) (auto intro!: filter_True simp: neq_Nil_conv)

lemma partition_on_absent: "c \<notin> set s \<Longrightarrow> partition_on c s = (s, [])"
  by (induction s) (auto simp: partition_on_def)

lemma rpartition_on_append: "c \<notin> set t \<Longrightarrow> rpartition_on c (s @ c # t) = (Some s, t)"
proof -
  assume c: "c \<notin> set t"
  then have "takeWhile (\<lambda>x. x \<noteq> c) (rev t @ c # rev s) = rev t"
    "dropWhile (\<lambda>x. x \<noteq> c) (rev t @ c # rev s) = c # rev s"
    by (simp_all add: takeWhile_append dropWhile_append)
  then show ?thesis by (simp add: rpartition_on_def)
qed

lemma split_netloc_assembled:
  assumes "\<forall>c\<in>set netloc. \<not> netloc_end c" "rest = [] \<or> netloc_end (hd rest)"
  shows "split_netloc (''//'' @ netloc @ rest) = (netloc, rest)"
proof -
  have "takeWhile (\<lambda>c. \<not> netloc_end c) (netloc @ rest) = netloc @ takeWhile (\<lambda>c. \<not> netloc_end c) rest"
    "dropWhile (\<lambda>c. \<not> netloc_end c) (netloc @ rest) = dropWhile (\<lambda>c. \<not> netloc_end c) rest"
    using assms(1) by (simp_all add: takeWhile_append2 dropWhile_append2)
  then show ?thesis using assms(2) by (cases rest) (auto simp: split_netloc_def)
qed

text \<open>The optional part of a URI after its separator.\<close>

definition url_part :: "char \<Rightarrow> string \<Rightarrow> string" where
  "url_part sep s = (if s = [] then [] else sep # s)"

lemma partition_url_part: "c \<notin> set s \<Longrightarrow> partition_on c (s @ url_part c t) = (s, t)"
  by (simp add: url_part_def partition_on_append partition_on_absent)

lemma urlparse_assembled:
  assumes netloc: "\<forall>c\<in>set netloc. \<not> netloc_end c"
    and printable: "\<forall>c\<in>set (netloc @ query @ fragment). 32 < code c"
    and query: "CHR ''#'' \<notin> set query"
    and brackets: "CHR ''['' \<in> set netloc \<longleftrightarrow> CHR '']'' \<in> set netloc"
      "CHR ''['' \<in> set netloc \<Longrightarrow> check_bracketed_netloc netloc = Inr ()"
  shows "urlparse (''shadow://'' @ netloc @ url_part (CHR ''?'') query @ url_part (CHR ''#'') fragment) =
    Inr \<lparr>url_scheme = ''shadow'', url_netloc = netloc, url_path = [], url_query = query, url_fragment = fragment\<rparr>"
proof -
  let ?rest = "url_part (CHR ''?'') query @ url_part (CHR ''#'') fragment"
  have "clean_url (''shadow://'' @ netloc @ ?rest) = ''shadow://'' @ netloc @ ?rest"
    using printable by (intro clean_url_id) (auto simp: url_part_def)
  moreover have "split_scheme (''shadow'' @ CHR '':'' # ''//'' @ netloc @ ?rest) = (''shadow'', ''//'' @ netloc @ ?rest)"
    unfolding split_scheme_def
    by (subst partition_on_append)
      (simp_all add: is_alpha_ascii_def scheme_char_def is_alnum_ascii_def lower_def lower_char_def char_of_def)
  moreover have "split_netloc (''//'' @ netloc @ ?rest) = (netloc, ?rest)"
    using netloc by (intro split_netloc_assembled) (auto simp: url_part_def netloc_end_def)
  moreover have "partition_on (CHR ''#'') ?rest = (url_part (CHR ''?'') query, fragment)"
    using query by (intro partition_url_part) (auto simp: url_part_def)
  moreover have "partition_on (CHR ''?'') (url_part (CHR ''?'') query) = ([], query)"
    using partition_url_part [of "CHR ''?''" "[]"] by simp
  ultimately show ?thesis using brackets by (auto simp: urlparse_def)
qed

section \<open>Exceptions\<close>

lemma check_bracketed_host_error: "check_bracketed_host h = Inl e \<Longrightarrow> cls e = Builtin ValueError"
  by (auto simp: check_bracketed_host_def value_error_def raise_Inl_iff split: if_splits)

lemma check_bracketed_netloc_error: "check_bracketed_netloc n = Inl e \<Longrightarrow> cls e = Builtin ValueError"
  unfolding check_bracketed_netloc_def Let_def
  by (cases "partition_on (CHR ''['') (snd (rpartition_on (CHR ''@'') n))")
    (auto simp: value_error_def raise_Inl_iff split: prod.splits if_splits dest: check_bracketed_host_error)

lemma urlparse_error: "urlparse s = Inl e \<Longrightarrow> cls e = Builtin ValueError"
  unfolding urlparse_def Let_def case_prod_beta
  by (auto simp: value_error_def bind_Inl_iff raise_Inl_iff split: if_splits dest: check_bracketed_netloc_error)

lemma url_port_error: "url_port ps = Inl e \<Longrightarrow> cls e = Builtin ValueError"
  by (auto simp: url_port_def Let_def value_error_def raise_Inl_iff split: if_splits)

end
