(* ===== verification/Tls.thy ===== *)
theory Tls
  imports Complex_Main Keys Effects
begin

text \<open>
  TLS pinning for direct-mode connections, from \<open>python-sdk/src/shadownet/tls.py\<close> (and the dataclass
  \<open>DirectAddress\<close> of \<open>addressing.py\<close>): the pin store protocol with its in-memory implementation, the
  verification policy, and the httpx transports that apply it, synchronous and async. Shown here:
  exactly when a pinned client returns a response and what it does otherwise, and that trust on first
  use holds for clients that share a store, also when their requests interleave.
\<close>

section \<open>Addresses and pin stores\<close>

record DirectAddress =
  da_public_key :: string
  da_host :: string
  da_port :: int
  tls_pin_sha256 :: "string option"

definition DirectAddress_endpoint :: "DirectAddress \<Rightarrow> string" where
  "DirectAddress_endpoint a =
     (let host_part = (if CHR '':'' \<in> set (da_host a) then ''['' @ da_host a @ '']'' else da_host a)
      in ''https://'' @ host_part @ '':'' @ int_str (da_port a))"

text \<open>The protocol \<open>TLSPinStore\<close>, over any state in which the store lives.\<close>

record 's pin_ops =
  pin_get :: "string \<Rightarrow> ('s, string option) st"
  pin_record :: "string \<Rightarrow> string \<Rightarrow> ('s, unit) st"

record InMemoryTLSPinStore =
  pins :: "(string \<times> string) list"

text \<open>
  The process: the pin stores it has created, each known by its position, and the connections, a state
  of the HTTP library that the pin stores do not see and that does not see them.
\<close>

record 'c tls_process =
  pin_stores :: "InMemoryTLSPinStore list"
  conns :: 'c

definition InMemoryTLSPinStore_init :: "('c tls_process, nat) st" where
  "InMemoryTLSPinStore_init =
     (\<lambda>s. (Inr (length (pin_stores s)), s\<lparr>pin_stores := pin_stores s @ [\<lparr>pins = []\<rparr>]\<rparr>))"

definition InMemoryTLSPinStore_get :: "nat \<Rightarrow> string \<Rightarrow> ('c tls_process, string option) st" where
  "InMemoryTLSPinStore_get ref host_port = sget (\<lambda>s. dict_get (pins (pin_stores s ! ref)) host_port)"

definition InMemoryTLSPinStore_record :: "nat \<Rightarrow> string \<Rightarrow> string \<Rightarrow> ('c tls_process, unit) st" where
  "InMemoryTLSPinStore_record ref host_port fingerprint =
     supd (\<lambda>s. s\<lparr>pin_stores := (pin_stores s)[ref := (pin_stores s ! ref)\<lparr>pins :=
       dict_set host_port fingerprint (pins (pin_stores s ! ref))\<rparr>]\<rparr>)"

definition InMemoryTLSPinStore_len :: "nat \<Rightarrow> ('c tls_process, nat) st" where
  "InMemoryTLSPinStore_len ref = sget (\<lambda>s. length (pins (pin_stores s ! ref)))"

definition memory_pins :: "nat \<Rightarrow> 'c tls_process pin_ops" where
  "memory_pins ref = \<lparr>pin_get = InMemoryTLSPinStore_get ref, pin_record = InMemoryTLSPinStore_record ref\<rparr>"

section \<open>Verification\<close>

definition compute_cert_fingerprint :: "lib \<Rightarrow> bytes \<Rightarrow> string" where
  "compute_cert_fingerprint L der_bytes = b64u (sha256 L der_bytes)"

definition pin_mismatch :: "string \<Rightarrow> ('s, 'a) st" where
  "pin_mismatch m = sraise (Sdk TLSPinMismatchError) m"

definition verify_tls_pin :: "lib \<Rightarrow> bytes \<Rightarrow> string option \<Rightarrow> 's pin_ops \<Rightarrow> string \<Rightarrow> ('s, string) st" where
  "verify_tls_pin L peer_cert_der expected_pin tofu_store host_port =
     (let actual = compute_cert_fingerprint L peer_cert_der in
      (case expected_pin of
         Some pin \<Rightarrow>
           (if actual \<noteq> pin
            then pin_mismatch (''peer cert fingerprint '' @ repr actual @ '' does not match URI pin ''
                   @ repr pin @ '' for '' @ repr host_port)
            else sret actual)
       | None \<Rightarrow>
           sbind (pin_get tofu_store host_port) (\<lambda>recorded.
             (case recorded of
                Some pin \<Rightarrow>
                  (if actual \<noteq> pin
                   then pin_mismatch (''peer cert fingerprint '' @ repr actual
                          @ '' does not match recorded TOFU pin '' @ repr pin @ '' for '' @ repr host_port)
                   else sret actual)
              | None \<Rightarrow> sbind (pin_record tofu_store host_port actual) (\<lambda>_. sret actual)))))"

section \<open>The transports\<close>

text \<open>
  A response as the transport sees it. \<open>network_stream\<close> is \<open>None\<close> without the extension, then
  \<open>get_extra_info("ssl_object")\<close>, then \<open>getpeercert(binary_form=True)\<close>, each possibly \<open>None\<close>.
\<close>

record tls_response =
  tls_http :: http_response
  network_stream :: "bytes option option option"

record 's PinnedTransport =
  pt_host_port :: string
  pt_expected_pin :: "string option"
  pt_tofu_store :: "'s pin_ops"
  pt_timeout :: rat

text \<open>The body of the \<open>try\<close> in \<open>handle_request\<close> and in \<open>handle_async_request\<close>.\<close>

definition check_peer :: "lib \<Rightarrow> 's PinnedTransport \<Rightarrow> tls_response \<Rightarrow> ('s, unit) st" where
  "check_peer L t response =
     (case network_stream response of
        None \<Rightarrow> pin_mismatch ''network_stream extension unavailable; cannot verify TLS pin''
      | Some None \<Rightarrow> pin_mismatch ''SSL object unavailable; cannot verify TLS pin''
      | Some (Some None) \<Rightarrow> pin_mismatch ''peer certificate unavailable; cannot verify TLS pin''
      | Some (Some (Some peer_cert_der)) \<Rightarrow>
          (if peer_cert_der = []
           then pin_mismatch ''peer certificate unavailable; cannot verify TLS pin''
           else sbind (verify_tls_pin L peer_cert_der (pt_expected_pin t) (pt_tofu_store t) (pt_host_port t))
                  (\<lambda>_. sret ())))"

text \<open>
  \<open>send\<close> is \<open>httpx.HTTPTransport.handle_request\<close>, \<open>close\<close> the \<open>close\<close> of the response.
\<close>

definition handle_request ::
  "lib \<Rightarrow> ('q \<Rightarrow> ('s, tls_response) st) \<Rightarrow> (tls_response \<Rightarrow> ('s, unit) st) \<Rightarrow> 's PinnedTransport \<Rightarrow> 'q
    \<Rightarrow> ('s, tls_response) st"
where
  "handle_request L send close t request =
     sbind (send request) (\<lambda>response.
     sthen (check_peer L t response) (\<lambda>r.
       (case r of
          Inr _ \<Rightarrow> sret response
        | Inl e \<Rightarrow>
            (if is_a e (Sdk TLSPinMismatchError) then sbind (close response) (\<lambda>_. sres (Inl e))
             else sres (Inl e)))))"

definition handle_async_request ::
  "lib \<Rightarrow> ('q \<Rightarrow> ('s, tls_response) task) \<Rightarrow> (tls_response \<Rightarrow> ('s, unit) task) \<Rightarrow> 's PinnedTransport \<Rightarrow> 'q
    \<Rightarrow> ('s, tls_response) task"
where
  "handle_async_request L asend aclose t request =
     tbind (asend request) (\<lambda>response.
     tthen (atomic (check_peer L t response)) (\<lambda>r.
       (case r of
          Inr _ \<Rightarrow> Ret (Inr response)
        | Inl e \<Rightarrow>
            (if is_a e (Sdk TLSPinMismatchError) then tbind (aclose response) (\<lambda>_. Ret (Inl e))
             else Ret (Inl e)))))"

text \<open>\<open>host_port\<close> and the transport of both constructors; the client is its transport.\<close>

definition pinned_transport :: "DirectAddress \<Rightarrow> nat \<Rightarrow> rat \<Rightarrow> 'c tls_process PinnedTransport" where
  "pinned_transport a ref timeout =
     \<lparr>pt_host_port = da_host a @ '':'' @ int_str (da_port a), pt_expected_pin = tls_pin_sha256 a,
      pt_tofu_store = memory_pins ref, pt_timeout = timeout\<rparr>"

definition make_pinned_httpx_client ::
  "DirectAddress \<Rightarrow> nat option \<Rightarrow> rat \<Rightarrow> ('c tls_process, 'c tls_process PinnedTransport) st"
where
  "make_pinned_httpx_client direct_address tofu_store timeout =
     (case tofu_store of
        None \<Rightarrow> sbind InMemoryTLSPinStore_init (\<lambda>ref. sret (pinned_transport direct_address ref timeout))
      | Some ref \<Rightarrow> sret (pinned_transport direct_address ref timeout))"

definition make_pinned_httpx_async_client ::
  "DirectAddress \<Rightarrow> nat option \<Rightarrow> rat \<Rightarrow> ('c tls_process, 'c tls_process PinnedTransport) st"
where
  "make_pinned_httpx_async_client direct_address tofu_store timeout =
     (case tofu_store of
        None \<Rightarrow> sbind InMemoryTLSPinStore_init (\<lambda>ref. sret (pinned_transport direct_address ref timeout))
      | Some ref \<Rightarrow> sret (pinned_transport direct_address ref timeout))"

text \<open>The library's part of a step acts on the connections alone.\<close>

definition on_conns :: "('c, 'a) st \<Rightarrow> ('c tls_process, 'a) st" where
  "on_conns m = (\<lambda>s. case m (conns s) of (r, c) \<Rightarrow> (r, s\<lparr>conns := c\<rparr>))"

primrec on_conns_task :: "('c, 'a) task \<Rightarrow> ('c tls_process, 'a) task" where
  "on_conns_task (Ret r) = Ret r"
| "on_conns_task (Act g) = Act (\<lambda>s. map_prod (\<lambda>c. s\<lparr>conns := c\<rparr>) on_conns_task (g (conns s)))"
| "on_conns_task (Pause t) = Pause (on_conns_task t)"

section \<open>What a pin store promises\<close>

locale pin_store =
  fixes ops :: "'s pin_ops"
    and pinned :: "'s \<Rightarrow> string \<Rightarrow> string option"
    and valid :: "'s \<Rightarrow> bool"
  assumes get_ok: "valid s \<Longrightarrow> pin_get ops hp s = (r, s') \<Longrightarrow> r = Inr (pinned s hp) \<and> s' = s"
    and record_ok: "valid s \<Longrightarrow> pin_record ops hp fp s = (q, s') \<Longrightarrow>
      q = Inr () \<and> pinned s' = (pinned s)(hp \<mapsto> fp) \<and> valid s'"
begin

lemma get_eq: "valid s \<Longrightarrow> pin_get ops hp s = (Inr (pinned s hp), s)"
  by (cases "pin_get ops hp s") (use get_ok in blast)

text \<open>The policy: a pin in the address decides alone; else the recorded pin; else first use.\<close>

lemma verify_tls_pin_Inr_iff:
  assumes "valid s"
  shows "verify_tls_pin L der pin ops hp s = (Inr f, s') \<longleftrightarrow>
     f = compute_cert_fingerprint L der \<and>
     (case pin of
        Some p \<Rightarrow> f = p \<and> s' = s
      | None \<Rightarrow> (case pinned s hp of Some p \<Rightarrow> f = p \<and> s' = s | None \<Rightarrow> pin_record ops hp f s = (Inr (), s')))"
  by (auto simp: verify_tls_pin_def Let_def pin_mismatch_def res_simps get_eq [OF assms] split: option.splits)

lemma verify_tls_pin_Inl:
  assumes "valid s" "verify_tls_pin L der pin ops hp s = (Inl e, s')"
  shows "cls e = Sdk TLSPinMismatchError \<and> s' = s \<and>
     compute_cert_fingerprint L der \<noteq> (case pin of Some p \<Rightarrow> p | None \<Rightarrow> the (pinned s hp)) \<and>
     (pin = None \<longrightarrow> pinned s hp \<noteq> None)"
  using assms(2) record_ok [OF assms(1)]
  by (auto simp: verify_tls_pin_def Let_def pin_mismatch_def res_simps get_eq [OF assms(1)]
      split: option.splits if_splits)

text \<open>Recorded pins are never changed, and an accepted first-use certificate is recorded.\<close>

lemma verify_tls_pin_extends:
  assumes "valid s" "verify_tls_pin L der pin ops hp s = (r, s')"
  shows "valid s' \<and> pinned s \<subseteq>\<^sub>m pinned s'
    \<and> (\<forall>f. pin = None \<longrightarrow> r = Inr f \<longrightarrow> pinned s' hp = Some (compute_cert_fingerprint L der))"
proof (cases r)
  case (Inl e)
  then show ?thesis using assms verify_tls_pin_Inl by fastforce
next
  case (Inr f)
  with assms have f: "f = compute_cert_fingerprint L der" and
    p: "case pin of Some p \<Rightarrow> f = p \<and> s' = s
      | None \<Rightarrow> (case pinned s hp of Some p \<Rightarrow> f = p \<and> s' = s | None \<Rightarrow> pin_record ops hp f s = (Inr (), s'))"
    using verify_tls_pin_Inr_iff by blast+
  show ?thesis
    using p f assms(1) record_ok [OF assms(1), of hp f "Inr ()" s']
    by (auto simp: Inr map_le_def split: option.splits)
qed

end

section \<open>The in-memory store\<close>

definition recorded_pin :: "'c tls_process \<Rightarrow> nat \<Rightarrow> string \<Rightarrow> string option" where
  "recorded_pin s ref = map_of (pins (pin_stores s ! ref))"

interpretation memory_pin: pin_store "memory_pins ref" "\<lambda>s. recorded_pin s ref" "\<lambda>s. ref < length (pin_stores s)"
  by unfold_locales
    (auto simp: memory_pins_def InMemoryTLSPinStore_get_def InMemoryTLSPinStore_record_def recorded_pin_def
      res_simps)

text \<open>Writing to one store leaves the others and the connections alone.\<close>

lemma record_frame:
  "pin_record (memory_pins ref) hp fp s = (r, s') \<Longrightarrow>
     conns s' = conns s \<and> length (pin_stores s') = length (pin_stores s)
     \<and> (\<forall>ref'. ref' \<noteq> ref \<longrightarrow> pin_stores s' ! ref' = pin_stores s ! ref')"
  by (auto simp: memory_pins_def InMemoryTLSPinStore_record_def res_simps)

section \<open>What a pinned client accepts\<close>

text \<open>The fingerprint of the certificate that came with a response, if there was one.\<close>

definition peer_fingerprint :: "lib \<Rightarrow> tls_response \<Rightarrow> string option" where
  "peer_fingerprint L response =
     (case network_stream response of
        Some (Some (Some der)) \<Rightarrow> (if der = [] then None else Some (compute_cert_fingerprint L der))
      | _ \<Rightarrow> None)"

abbreviation host_port_of :: "DirectAddress \<Rightarrow> string" where
  "host_port_of a \<equiv> da_host a @ '':'' @ int_str (da_port a)"

lemma check_peer_cases:
  "(\<exists>m. peer_fingerprint L response = None \<and> check_peer L t response = pin_mismatch m) \<or>
   (\<exists>der. peer_fingerprint L response = Some (compute_cert_fingerprint L der) \<and>
      check_peer L t response =
         sbind (verify_tls_pin L der (pt_expected_pin t) (pt_tofu_store t) (pt_host_port t)) (\<lambda>_. sret ()))"
proof -
  consider "network_stream response = None" | "network_stream response = Some None"
    | "network_stream response = Some (Some None)" | der where "network_stream response = Some (Some (Some der))"
    by (metis option.exhaust)
  then show ?thesis by cases (auto simp: peer_fingerprint_def check_peer_def)
qed

text \<open>The pin that decides in a state, and whether a response passes it.\<close>

definition wanted_pin :: "'c tls_process \<Rightarrow> DirectAddress \<Rightarrow> nat \<Rightarrow> string option" where
  "wanted_pin s a ref =
     (case tls_pin_sha256 a of Some p \<Rightarrow> Some p | None \<Rightarrow> recorded_pin s ref (host_port_of a))"

definition passes :: "lib \<Rightarrow> 'c tls_process \<Rightarrow> DirectAddress \<Rightarrow> nat \<Rightarrow> tls_response \<Rightarrow> bool" where
  "passes L s a ref response =
     (\<exists>fp. peer_fingerprint L response = Some fp \<and> wanted_pin s a ref \<in> {None, Some fp})"

lemma pinned_transport_fields:
  "pt_expected_pin (pinned_transport a ref tmo) = tls_pin_sha256 a"
  "pt_tofu_store (pinned_transport a ref tmo) = memory_pins ref"
  "pt_host_port (pinned_transport a ref tmo) = host_port_of a"
  by (simp_all add: pinned_transport_def)

lemma check_peer_outcome:
  fixes s :: "'c tls_process"
  assumes ref: "ref < length (pin_stores s)"
    and c: "check_peer L (pinned_transport a ref tmo) response s = (r, s')"
  shows "if passes L s a ref response
    then r = Inr () \<and> conns s' = conns s \<and> length (pin_stores s') = length (pin_stores s)
      \<and> (\<forall>hp. recorded_pin s' ref hp =
            (if hp = host_port_of a \<and> wanted_pin s a ref = None then peer_fingerprint L response
             else recorded_pin s ref hp))
      \<and> (\<forall>ref'. ref' \<noteq> ref \<longrightarrow> pin_stores s' ! ref' = pin_stores s ! ref')
    else (\<exists>m. r = Inl (Exn (Sdk TLSPinMismatchError) m)) \<and> s' = s"
proof -
  let ?t = "pinned_transport a ref tmo :: 'c tls_process PinnedTransport"
  from check_peer_cases [of L response ?t, unfolded pinned_transport_fields]
  show ?thesis
  proof (elim disjE exE conjE)
    fix m
    assume "peer_fingerprint L response = None" "check_peer L ?t response = pin_mismatch m"
    then show ?thesis using c by (auto simp: passes_def pin_mismatch_def res_simps)
  next
    fix der
    assume peer: "peer_fingerprint L response = Some (compute_cert_fingerprint L der)"
        "check_peer L ?t response =
           sbind (verify_tls_pin L der (tls_pin_sha256 a) (memory_pins ref) (host_port_of a)) (\<lambda>_. sret ())"
    let ?fp = "compute_cert_fingerprint L der" and ?hp = "host_port_of a"
    show ?thesis
    proof (cases r)
      case (Inr x)
      with c peer have v: "verify_tls_pin L der (tls_pin_sha256 a) (memory_pins ref) ?hp s = (Inr ?fp, s')"
        by (auto simp: res_simps memory_pin.verify_tls_pin_Inr_iff [OF ref])
      then show ?thesis
        using peer ref record_frame [of ref ?hp ?fp s "Inr ()" s'] memory_pin.record_ok [OF ref, of ?hp ?fp "Inr ()" s'] Inr
        by (auto simp: memory_pin.verify_tls_pin_Inr_iff [OF ref] passes_def wanted_pin_def split: option.splits)
    next
      case (Inl e)
      with c peer have v: "verify_tls_pin L der (tls_pin_sha256 a) (memory_pins ref) ?hp s = (Inl e, s')"
        by (auto simp: res_simps)
      from memory_pin.verify_tls_pin_Inl [OF ref v] show ?thesis
        using peer Inl by (cases e) (auto simp: passes_def wanted_pin_def split: option.splits)
    qed
  qed
qed

text \<open>
  What a pinned client does with the answer of the network, for a client made for an address over
  a store in memory: it returns the response exactly when the connection shows a certificate whose
  fingerprint is the pin of the address, or, without one, the pin recorded for host and port, or when
  none is recorded yet, which records it and changes no other pin. Otherwise it closes the response and raises
  \<open>TLSPinMismatchError\<close>, with every store unchanged.
\<close>

theorem handle_request_outcome:
  assumes ref: "ref < length (pin_stores s)"
    and send: "send q (conns s) = (Inr response, c)" and close: "close response c = (Inr (), c')"
    and run: "handle_request L (\<lambda>q. on_conns (send q)) (\<lambda>x. on_conns (close x)) (pinned_transport a ref tmo) q s = (r, s')"
  shows "if passes L s a ref response
    then r = Inr response \<and> conns s' = c
      \<and> (\<forall>hp. recorded_pin s' ref hp =
            (if hp = host_port_of a \<and> wanted_pin s a ref = None then peer_fingerprint L response
             else recorded_pin s ref hp))
      \<and> (\<forall>ref'. ref' \<noteq> ref \<longrightarrow> pin_stores s' ! ref' = pin_stores s ! ref')
    else (\<exists>m. r = Inl (Exn (Sdk TLSPinMismatchError) m)) \<and> s' = s\<lparr>conns := c'\<rparr>"
proof -
  let ?s = "s\<lparr>conns := c\<rparr>"
  obtain r1 s1 where c1: "check_peer L (pinned_transport a ref tmo) response ?s = (r1, s1)" by force
  have same: "recorded_pin ?s ref' = recorded_pin s ref'" "passes L ?s a ref response = passes L s a ref response"
      "wanted_pin ?s a ref = wanted_pin s a ref" for ref'
    by (simp_all add: recorded_pin_def passes_def wanted_pin_def cong: option.case_cong)
  have "on_conns (send q) s = (Inr response, ?s)" using send by (simp add: on_conns_def)
  then have "handle_request L (\<lambda>q. on_conns (send q)) (\<lambda>x. on_conns (close x)) (pinned_transport a ref tmo) q s =
      (case r1 of Inr _ \<Rightarrow> (Inr response, s1)
       | Inl e \<Rightarrow> if is_a e (Sdk TLSPinMismatchError) then sbind (on_conns (close response)) (\<lambda>_. sres (Inl e)) s1
                  else (Inl e, s1))"
    using c1 by (simp add: handle_request_def sbind_def sthen_def sret_def sres_def split: sum.splits)
  then show ?thesis
    using run check_peer_outcome [OF _ c1] ref close
    by (auto simp: same on_conns_def sbind_def sthen_def sres_def split: if_splits)
qed

section \<open>Trust on first use under concurrency\<close>

definition pins_le :: "'c tls_process \<Rightarrow> 'c tls_process \<Rightarrow> bool" where
  "pins_le s s' =
     (length (pin_stores s) \<le> length (pin_stores s')
      \<and> (\<forall>ref<length (pin_stores s). recorded_pin s ref \<subseteq>\<^sub>m recorded_pin s' ref))"

interpretation pin_rely: rely pins_le
proof
  fix s t u :: "'c tls_process"
  show "pins_le s s" by (simp add: pins_le_def)
  assume "pins_le s t" "pins_le t u"
  then show "pins_le s u" unfolding pins_le_def
    by (meson order.trans map_le_trans order_less_le_trans)
qed

lemma conns_pins_le [simp]: "pins_le s (s\<lparr>conns := c\<rparr>)"
  by (simp add: pins_le_def recorded_pin_def)

lemma safe_on_conns:
  assumes "pin_rely.stable B"
  shows "pin_rely.safe (\<lambda>_. B) B (on_conns_task t)"
proof (induction t)
  case (Act g)
  have "pin_rely.safe (\<lambda>_. B) B (on_conns_task (snd (g c)))" for c
    using Act [of "g c" "snd (g c)"] by (metis rangeI snds.intros)
  moreover have "B (s\<lparr>conns := c\<rparr>)" if "B s" for s c
    using pin_rely.stableD [OF assms that conns_pins_le] .
  ultimately show ?case using assms by (auto intro!: pin_rely.safe.Act)
qed (auto intro: pin_rely.safe.Ret pin_rely.safe.Pause)

lemma check_peer_pins_le:
  assumes ref: "ref < length (pin_stores s)"
    and c: "check_peer L (pinned_transport a ref tmo) response s = (r, s')"
  shows "pins_le s s'"
proof (cases "passes L s a ref response")
  case True
  with check_peer_outcome [OF ref c] have len: "length (pin_stores s') = length (pin_stores s)"
    and same: "\<And>hp. recorded_pin s' ref hp =
            (if hp = host_port_of a \<and> wanted_pin s a ref = None then peer_fingerprint L response
             else recorded_pin s ref hp)"
    and other: "\<And>ref'. ref' \<noteq> ref \<Longrightarrow> pin_stores s' ! ref' = pin_stores s ! ref'" by auto
  have "recorded_pin s ref \<subseteq>\<^sub>m recorded_pin s' ref"
    by (auto simp: map_le_def same wanted_pin_def split: option.splits)
  moreover have "recorded_pin s' ref' = recorded_pin s ref'" if "ref' \<noteq> ref" for ref'
    using other [OF that] by (simp add: recorded_pin_def)
  ultimately show ?thesis unfolding pins_le_def len by (metis map_le_refl order_refl)
next
  case False
  with check_peer_outcome [OF ref c] show ?thesis by (simp add: pin_rely.le_refl)
qed

text \<open>What an accepted response means for the pins, from then on.\<close>

definition trusted_since ::
  "lib \<Rightarrow> 'c tls_process \<Rightarrow> DirectAddress \<Rightarrow> nat \<Rightarrow> tls_response res \<Rightarrow> 'c tls_process \<Rightarrow> bool"
where
  "trusted_since L s0 a ref r s =
     (pins_le s0 s \<and> (\<forall>response. r = Inr response \<longrightarrow>
        (\<exists>fp. peer_fingerprint L response = Some fp \<and> wanted_pin s a ref = Some fp)))"

lemma stable_le: "pin_rely.stable (pins_le s0)"
  by (rule pin_rely.stableI) (rule pin_rely.le_trans)

lemma stable_trusted:
  assumes "ref < length (pin_stores s0)"
  shows "pin_rely.stable (trusted_since L s0 a ref r)"
proof -
  have same: "wanted_pin s' a ref = wanted_pin s a ref"
    if "pins_le s0 s" "pins_le s s'" "wanted_pin s a ref \<noteq> None" for s s'
  proof -
    have "recorded_pin s ref \<subseteq>\<^sub>m recorded_pin s' ref" using that assms by (simp add: pins_le_def)
    then show ?thesis using that(3) by (auto simp: wanted_pin_def map_le_def dom_def split: option.splits)
  qed
  show ?thesis
  proof (rule pin_rely.stableI)
    fix s s'
    assume t: "trusted_since L s0 a ref r s" and le: "pins_le s s'"
    then show "trusted_since L s0 a ref r s'"
      using same [of s s'] pin_rely.le_trans [of s0 s s'] unfolding trusted_since_def by fastforce
  qed
qed

lemma safe_handle_async_request:
  fixes s0 :: "'c tls_process"
  assumes ref: "ref < length (pin_stores s0)"
  shows "pin_rely.safe (trusted_since L s0 a ref) (pins_le s0)
    (handle_async_request L (\<lambda>q. on_conns_task (asend q)) (\<lambda>x. on_conns_task (aclose x)) (pinned_transport a ref tmo) q)"
  unfolding handle_async_request_def
proof (rule pin_rely.safe_tbind [OF safe_on_conns [OF stable_le]])
  fix response
  let ?Q = "\<lambda>(r :: unit res) s. pins_le s0 s \<and> (r = Inr () \<longrightarrow> trusted_since L s0 a ref (Inr response) s)"
  show "pin_rely.safe (trusted_since L s0 a ref) (pins_le s0)
    (tthen (atomic (check_peer L (pinned_transport a ref tmo) response)) (\<lambda>r.
       case r of Inl e \<Rightarrow> if is_a e (Sdk TLSPinMismatchError)
                          then tbind (on_conns_task (aclose response)) (\<lambda>_. Ret (Inl e)) else Ret (Inl e)
       | Inr _ \<Rightarrow> Ret (Inr response)))"
  proof (rule pin_rely.safe_tthen [where Q = ?Q])
    show "pin_rely.safe ?Q (pins_le s0) (atomic (check_peer L (pinned_transport a ref tmo) response))"
    proof (rule pin_rely.safe_atomic)
      fix s r s'
      assume le: "pins_le s0 s" and c: "check_peer L (pinned_transport a ref tmo) response s = (r, s')"
      have r: "ref < length (pin_stores s)" using le ref by (simp add: pins_le_def)
      have "trusted_since L s0 a ref (Inr response) s'" if "r = Inr ()"
        using check_peer_outcome [OF r c] that pin_rely.le_trans [OF le check_peer_pins_le [OF r c]]
        by (auto simp: trusted_since_def passes_def wanted_pin_def split: if_splits option.splits)
      then show "pins_le s s' \<and> ?Q r s'"
        using check_peer_pins_le [OF r c] pin_rely.le_trans [OF le] by blast
    next
      fix r
      show "pin_rely.stable (?Q r)"
        by (intro pin_rely.stable_conj stable_le stable_trusted ref)
    qed
  next
    fix r :: "unit res"
    have "pin_rely.safe (trusted_since L s0 a ref) (pins_le s0) (tbind (on_conns_task (aclose response)) (\<lambda>_. Ret (Inl e)))" for e
      by (rule pin_rely.safe_tbind [OF safe_on_conns [OF stable_le]])
        (auto simp: trusted_since_def intro: pin_rely.safe.Ret)
    moreover have "pin_rely.safe (trusted_since L s0 a ref) (trusted_since L s0 a ref (Inr response)) (Ret (Inr response))"
      by (intro pin_rely.safe.Ret) simp
    moreover have "pin_rely.safe (trusted_since L s0 a ref) (pins_le s0) (Ret (Inl e))" for e
      by (intro pin_rely.safe.Ret) (simp add: trusted_since_def)
    ultimately show "pin_rely.safe (trusted_since L s0 a ref) (?Q r)
       (case r of Inl e \<Rightarrow> if is_a e (Sdk TLSPinMismatchError)
                          then tbind (on_conns_task (aclose response)) (\<lambda>_. Ret (Inl e)) else Ret (Inl e)
       | Inr _ \<Rightarrow> Ret (Inr response))"
      by (cases r) (auto elim: pin_rely.safe_weaken)
  qed
qed (simp add: trusted_since_def)

text \<open>Run alone, the async transport is the synchronous one.\<close>

lemma run_on_conns_task: "run (on_conns_task t) = on_conns (run t)"
proof (induction t)
  case (Act g)
  show ?case
  proof
    fix s :: "'a tls_process"
    obtain c t where g: "g (conns s) = (c, t)" by force
    then have "run (on_conns_task t) = on_conns (run t)"
      using Act [of "(c, t)" t] by (metis rangeI snds.intros snd_conv)
    with g show "run (on_conns_task (Act g)) s = on_conns (run (Act g)) s"
      by (simp add: on_conns_def run.simps split: prod.splits)
  qed
qed (auto simp: on_conns_def run.simps)

lemma run_handle_async_request:
  "run (handle_async_request L (\<lambda>q. on_conns_task (asend q)) (\<lambda>x. on_conns_task (aclose x)) t q) =
     handle_request L (\<lambda>q. on_conns (run (asend q))) (\<lambda>x. on_conns (run (aclose x))) t q"
  by (simp add: handle_async_request_def handle_request_def run_simps run_on_conns_task sres_def sret_def
      cong: run_congs)

text \<open>
  C6: trust on first use survives concurrency: let any number of async requests run through clients
  over stores in memory, suspending and resuming in any order. Then two accepted responses for the
  same host and port, through clients that share a store and carry no pin in their address, show
  certificates with the same fingerprint; it is the one recorded at the end, and the one recorded at
  the start if there was one.
\<close>

theorem tofu_under_interleaving:
  assumes pool: "interleaved (map (\<lambda>(a, ref, q). handle_async_request L (\<lambda>q. on_conns_task (asend q))
      (\<lambda>x. on_conns_task (aclose x)) (pinned_transport a ref tmo) q) reqs) s rs s'"
    and refs: "\<forall>(a, ref, q)\<in>set reqs. ref < length (pin_stores s)"
    and ij: "i < length reqs" "j < length reqs" "reqs ! i = (a, ref, q)" "reqs ! j = (b, ref, q')"
    and same: "host_port_of a = host_port_of b" "tls_pin_sha256 a = None" "tls_pin_sha256 b = None"
    and ok: "rs ! i = Inr ri" "rs ! j = Inr rj"
  shows "\<exists>fp. peer_fingerprint L ri = Some fp \<and> peer_fingerprint L rj = Some fp
    \<and> recorded_pin s' ref (host_port_of a) = Some fp \<and> recorded_pin s ref (host_port_of a) \<in> {None, Some fp}"
proof -
  let ?T = "\<lambda>(a, ref, q). handle_async_request L (\<lambda>q. on_conns_task (asend q))
      (\<lambda>x. on_conns_task (aclose x)) (pinned_transport a ref tmo) q"
  let ?P = "\<lambda>i. case reqs ! i of (a, ref, q) \<Rightarrow> trusted_since L s a ref"
  have "\<exists>A. pin_rely.stable A \<and> A s \<and> pin_rely.safe (?P k) A (map ?T reqs ! k)" if "k < length (map ?T reqs)" for k
  proof -
    obtain a ref q where k: "reqs ! k = (a, ref, q)" by (cases "reqs ! k")
    moreover have "reqs ! k \<in> set reqs" using that by simp
    ultimately have "ref < length (pin_stores s)" using refs by auto
    from safe_handle_async_request [OF this] show ?thesis
      using that k stable_le [of s] pin_rely.le_refl [of s] by (intro exI [of _ "pins_le s"]) simp
  qed
  with pin_rely.interleaved_safe [OF pool, of ?P] ij(1,2)
  have "?P i (rs ! i) s'" "?P j (rs ! j) s'" by simp_all
  then have t: "trusted_since L s a ref (Inr ri) s'" "trusted_since L s b ref (Inr rj) s'"
    using ij ok by simp_all
  have "(a, ref, q) \<in> set reqs" using ij by (metis nth_mem)
  then have "ref < length (pin_stores s)" using refs by auto
  with t(1) have "recorded_pin s ref \<subseteq>\<^sub>m recorded_pin s' ref" by (simp add: trusted_since_def pins_le_def)
  then have "recorded_pin s ref (host_port_of b) \<in> {None, recorded_pin s' ref (host_port_of b)}"
    by (cases "recorded_pin s ref (host_port_of b)") (auto simp: map_le_def dom_def)
  with t same show ?thesis by (auto simp: trusted_since_def wanted_pin_def)
qed

section \<open>Concrete runs\<close>

definition ex_address :: DirectAddress where
  "ex_address = \<lparr>da_public_key = '''', da_host = ''h'', da_port = 443, tls_pin_sha256 = None\<rparr>"

definition ex_tls_response :: tls_response where
  "ex_tls_response =
     \<lparr>tls_http = \<lparr>status_code = 200, resp_text = '''', resp_content = [], resp_header = (\<lambda>_. None), resp_json = Inr JNull\<rparr>,
      network_stream = Some (Some (Some [7, 8, 9]))\<rparr>"

definition ex_tls_process :: "unit tls_process" where
  "ex_tls_process = \<lparr>pin_stores = [\<lparr>pins = []\<rparr>], conns = ()\<rparr>"

lemma ex_passes:
  "da_host ex_address @ CHR '':'' # int_str (da_port ex_address) = ''h:443''" "wanted_pin ex_tls_process ex_address 0 = None"
  "peer_fingerprint toy_lib ex_tls_response = Some ''BwgJ''"
proof -
  show "da_host ex_address @ CHR '':'' # int_str (da_port ex_address) = ''h:443''"
    by (simp add: ex_address_def) code_simp
  show "wanted_pin ex_tls_process ex_address 0 = None"
    by (simp add: wanted_pin_def ex_address_def ex_tls_process_def recorded_pin_def)
  show "peer_fingerprint toy_lib ex_tls_response = Some ''BwgJ''"
    by (simp add: peer_fingerprint_def ex_tls_response_def compute_cert_fingerprint_def toy_lib_def) code_simp
qed

theorem handle_request_outcome_witness:
  "\<exists>s'. handle_request toy_lib (\<lambda>q. on_conns (sret ex_tls_response)) (\<lambda>x. on_conns (sret ()))
       (pinned_transport ex_address 0 10) () ex_tls_process = (Inr ex_tls_response, s')
     \<and> recorded_pin s' 0 ''h:443'' = Some ''BwgJ''"
proof -
  obtain r s' where run: "handle_request toy_lib (\<lambda>q. on_conns (sret ex_tls_response)) (\<lambda>x. on_conns (sret ()))
       (pinned_transport ex_address 0 10) () ex_tls_process = (r, s')" by force
  have "passes toy_lib ex_tls_process ex_address 0 ex_tls_response" by (simp add: passes_def ex_passes)
  moreover have "0 < length (pin_stores ex_tls_process)" by (simp add: ex_tls_process_def)
  ultimately show ?thesis
    using handle_request_outcome [of 0 ex_tls_process "\<lambda>q. sret ex_tls_response" "()" ex_tls_response "()" "\<lambda>x. sret ()" "()" toy_lib ex_address 10 r s'] run
    by (auto simp: ex_passes sret_def)
qed

text \<open>Two requests, both suspended in the network before either is checked.\<close>

theorem tofu_under_interleaving_witness:
  "\<exists>s'. interleaved (map (\<lambda>(a, ref, q). handle_async_request toy_lib (\<lambda>q :: unit. on_conns_task (Pause (Ret (Inr ex_tls_response))))
        (\<lambda>x. on_conns_task (Ret (Inr ()))) (pinned_transport a ref 10) q) [(ex_address, 0, ()), (ex_address, 0, ())])
        ex_tls_process [Inr ex_tls_response, Inr ex_tls_response] s'
     \<and> recorded_pin s' 0 ''h:443'' = peer_fingerprint toy_lib ex_tls_response"
proof -
  let ?t = "pinned_transport ex_address 0 10 :: unit tls_process PinnedTransport"
  let ?T = "handle_async_request toy_lib (\<lambda>q :: unit. on_conns_task (Pause (Ret (Inr ex_tls_response))))
        (\<lambda>x. on_conns_task (Ret (Inr ()))) ?t ()"
  let ?U = "handle_async_request toy_lib (\<lambda>q :: unit. on_conns_task (Ret (Inr ex_tls_response)))
        (\<lambda>x. on_conns_task (Ret (Inr ()))) ?t ()"
  have pause: "turn ?T s = (?U, s)" for s by (simp add: handle_async_request_def tbind_def)
  have check: "\<exists>s'. turn ?U s = (Ret (Inr ex_tls_response), s') \<and> passes toy_lib s' ex_address 0 ex_tls_response
      \<and> 0 < length (pin_stores s')"
    if p: "passes toy_lib s ex_address 0 ex_tls_response" "0 < length (pin_stores s)" for s
  proof -
    obtain r s' where c: "check_peer toy_lib ?t ex_tls_response s = (r, s')" by force
    then have r: "r = Inr ()" using check_peer_outcome [OF p(2) c] p(1) by simp
    then have "turn ?U s = (Ret (Inr ex_tls_response), s')"
      using c by (simp add: handle_async_request_def tbind_def atomic_def)
    moreover have "passes toy_lib s' ex_address 0 ex_tls_response" "0 < length (pin_stores s')"
      using check_peer_outcome [OF p(2) c] p
      by (auto simp: passes_def wanted_pin_def split: option.splits if_splits)
    ultimately show ?thesis by blast
  qed
  have p0: "passes toy_lib ex_tls_process ex_address 0 ex_tls_response" "0 < length (pin_stores ex_tls_process)"
    by (simp_all add: passes_def ex_passes) (simp add: ex_tls_process_def)
  obtain s1 where 1: "turn ?U ex_tls_process = (Ret (Inr ex_tls_response), s1)"
      "passes toy_lib s1 ex_address 0 ex_tls_response" "0 < length (pin_stores s1)"
    using check [OF p0] by blast
  obtain s2 where 2: "turn ?U s1 = (Ret (Inr ex_tls_response), s2)" using check [OF 1(2,3)] by blast
  let ?R = "Ret (Inr ex_tls_response) :: (unit tls_process, tls_response) task"
  have "interleaved [?R, ?R] s2 [Inr ex_tls_response, Inr ex_tls_response] s2"
    using interleaved.finished [of "[Inr ex_tls_response, Inr ex_tls_response]" s2] by simp
  then have "interleaved [?R, ?U] s1 [Inr ex_tls_response, Inr ex_tls_response] s2"
    using 2 interleaved.turn [of "[?R, ?U]" 1] by simp
  then have "interleaved [?U, ?U] ex_tls_process [Inr ex_tls_response, Inr ex_tls_response] s2"
    using 1 interleaved.turn [of "[?U, ?U]" 0] by simp
  then have "interleaved [?U, ?T] ex_tls_process [Inr ex_tls_response, Inr ex_tls_response] s2"
    using pause interleaved.turn [of "[?U, ?T]" 1] by simp
  then have i: "interleaved (map (\<lambda>(a, ref, q). handle_async_request toy_lib (\<lambda>q :: unit. on_conns_task (Pause (Ret (Inr ex_tls_response))))
        (\<lambda>x. on_conns_task (Ret (Inr ()))) (pinned_transport a ref 10) q) [(ex_address, 0, ()), (ex_address, 0, ())])
        ex_tls_process [Inr ex_tls_response, Inr ex_tls_response] s2"
    using pause interleaved.turn [of "[?T, ?T]" 0] by simp
  have "tls_pin_sha256 ex_address = None" "0 < length (pin_stores ex_tls_process)"
    by (simp_all add: ex_address_def ex_tls_process_def)
  from tofu_under_interleaving [OF i, of 0 1 ex_address 0 "()" ex_address "()" ex_tls_response ex_tls_response] this i
  have "recorded_pin s2 0 ''h:443'' = peer_fingerprint toy_lib ex_tls_response" by (auto simp: ex_passes)
  with i show ?thesis by blast
qed

end
