(* ===== verification/Onboarding.thy ===== *)
theory Onboarding
  imports Complex_Main Uri Externals Effects
begin

text \<open>
  Onboarding, from \<open>python-sdk/src/shadownet/onboarding.py\<close>: the \<open>shadow://connect\<close> URI by which an agent
  learns its MCP endpoint and its token, the redemption of handoff codes and the refresh of access
  tokens, synchronous and async, with the HTTP client that is made and closed per call. Text that comes
  out of a query is Unicode, so it is a list of code points here. Shown here: exactly which URIs are
  accepted and what they yield; that a URI assembled for an endpoint and a token is read back; the
  outcome of a redemption for every response; that a client made for a call never outlives it.
\<close>

section \<open>The code\<close>

subsection \<open>Connect URIs\<close>

definition CONNECT_SCHEME :: string where
  "CONNECT_SCHEME = ''shadow''"

definition CONNECT_AUTHORITY :: string where
  "CONNECT_AUTHORITY = ''connect''"

definition HANDOFF_PATH :: string where
  "HANDOFF_PATH = ''/.well-known/shadownet/onboard/handoff/''"

definition REFRESH_PATH :: string where
  "REFRESH_PATH = ''/.well-known/shadownet/onboard/refresh''"

definition DEFAULT_HANDOFF_TIMEOUT :: rat where
  "DEFAULT_HANDOFF_TIMEOUT = 10"

definition DEFAULT_REFRESH_TIMEOUT :: rat where
  "DEFAULT_REFRESH_TIMEOUT = 10"

text \<open>\<open>_HANDOFF_PATTERN.match\<close>, \<open>^[A-Za-z0-9._-]{16,128}$\<close>: the \<open>$\<close> also matches before a final newline.\<close>

definition handoff_cp :: "nat \<Rightarrow> bool" where
  "handoff_cp cp = (cp < 256 \<and> (let c = char_of cp in is_alnum_ascii c \<or> c \<in> {CHR ''.'', CHR ''_'', CHR ''-''}))"

definition HANDOFF_PATTERN :: "ustr \<Rightarrow> bool" where
  "HANDOFF_PATTERN s =
     (let t = (if s \<noteq> [] \<and> last s = 10 then butlast s else s)
      in list_all handoff_cp t \<and> 16 \<le> length t \<and> length t \<le> 128)"

definition LOOPBACK_PREFIXES :: "string list" where
  "LOOPBACK_PREFIXES = [''http://localhost'', ''http://127.0.0.1'', ''http://[::1]'']"

record ConnectURI =
  mcp_endpoint :: ustr
  access_token :: "ustr option"
  handoff_code :: "ustr option"

definition ConnectURI_is_inline :: "ConnectURI \<Rightarrow> bool" where
  "ConnectURI_is_inline c = (access_token c \<noteq> None)"

definition ConnectURI_is_handoff :: "ConnectURI \<Rightarrow> bool" where
  "ConnectURI_is_handoff c = (handoff_code c \<noteq> None)"

definition connect_error :: "string \<Rightarrow> 'a res" where
  "connect_error m = raise (Sdk ConnectURIError) m"

text \<open>
  \<open>repr\<close> of decoded text, for messages, which are strings here: a code point from 256 on is shown by
  its escape, as \<open>ascii\<close> shows it.
\<close>

definition hex_digits :: "nat \<Rightarrow> nat \<Rightarrow> string" where
  "hex_digits n cp = map (\<lambda>i. hex_char (cp div 16 ^ i mod 16)) (rev [0..<n])"

definition ascii_cp :: "nat \<Rightarrow> string" where
  "ascii_cp cp =
     (if cp < 256 then [char_of cp]
      else if cp < 0x10000 then CHR 0x5C # CHR ''u'' # hex_digits 4 cp
      else CHR 0x5C # CHR ''U'' # hex_digits 8 cp)"

definition repr_u :: "ustr \<Rightarrow> string" where
  "repr_u s =
     (let q = (if 0x27 \<in> set s \<and> 0x22 \<notin> set s then CHR 0x22 else CHR 0x27) in
        q # concat (map (\<lambda>cp. if cp < 256 then repr_char q (char_of cp) else ascii_cp cp) s) @ [q])"

text \<open>The loop that collects the parameters.\<close>

fun collect_params :: "(ustr \<times> ustr) list \<Rightarrow> (ustr \<times> ustr) list \<Rightarrow> (ustr \<times> ustr) list res" where
  "collect_params acc [] = Inr acc"
| "collect_params acc ((key, v) # rest) =
     (if dict_get acc key \<noteq> None then connect_error (''duplicate query parameter '' @ repr_u key)
      else collect_params (dict_set key v acc) rest)"

definition endpoint_allowed :: "ustr \<Rightarrow> bool" where
  "endpoint_allowed e =
     (prefix (u ''https://'') e \<or> list_ex (\<lambda>p. prefix (u p) e) LOOPBACK_PREFIXES)"

text \<open>The checks on the collected parameters, the rest of the function.\<close>

definition connect_of_params :: "(ustr \<times> ustr) list \<Rightarrow> ConnectURI res" where
  "connect_of_params params =
     (case dict_get params (u ''mcp'') of
        None \<Rightarrow> connect_error (''missing required parameter '' @ repr ''mcp'')
      | Some endpt \<Rightarrow>
          (let tok = dict_get params (u ''token''); hand = dict_get params (u ''handoff'') in
           if endpt = [] then connect_error (''missing required parameter '' @ repr ''mcp'')
           else if \<not> endpoint_allowed endpt
           then connect_error (''mcp endpoint must be https:// (or loopback http://), got '' @ repr_u endpt)
           else if (tok = None) = (hand = None)
           then connect_error (''exactly one of '' @ repr ''token'' @ '' or '' @ repr ''handoff''
                  @ '' MUST be present (got both or neither)'')
           else if hand \<noteq> None \<and> \<not> HANDOFF_PATTERN (the hand)
           then connect_error (''handoff code does not match 16*128(ALPHA / DIGIT / '' @ repr ''._-''
                  @ ''): '' @ repr_u (the hand))
           else Inr \<lparr>mcp_endpoint = endpt, access_token = tok, handoff_code = hand\<rparr>))"

definition parse_connect_uri :: "string \<Rightarrow> ConnectURI res" where
  "parse_connect_uri uri =
     bind (urlparse uri) (\<lambda>ps.
     if url_scheme ps \<noteq> CONNECT_SCHEME
     then connect_error (''URI scheme must be '' @ repr CONNECT_SCHEME @ '', got '' @ repr (url_scheme ps))
     else if url_netloc ps \<noteq> CONNECT_AUTHORITY
     then connect_error (''URI authority must be '' @ repr CONNECT_AUTHORITY @ '', got '' @ repr (url_netloc ps))
     else if url_path ps \<notin> {[], ''/''}
     then connect_error (''URI path must be empty or '' @ repr ''/'' @ '', got '' @ repr (url_path ps))
     else if url_fragment ps \<noteq> [] then connect_error ''URI MUST NOT carry a fragment''
     else
     bind (parse_qsl (url_query ps)) (\<lambda>raw_pairs.
     bind (collect_params [] raw_pairs) (\<lambda>params.
     connect_of_params params)))"

subsection \<open>Redemption and refresh\<close>

text \<open>
  The HTTP library: making a client with a timeout, posting through one and closing one, over the state
  \<open>'s\<close> it keeps.
\<close>

record 's httpx =
  new_client :: "rat \<Rightarrow> ('s, nat) st"
  client_post :: "nat \<Rightarrow> ustr \<Rightarrow> json \<Rightarrow> headers \<Rightarrow> ('s, http_response) st"
  client_close :: "nat \<Rightarrow> ('s, unit) st"

text \<open>\<open>try: m finally: f\<close>; an exception of \<open>f\<close> takes the place of the outcome.\<close>

definition sfinally :: "('s, 'a) st \<Rightarrow> ('s, unit) st \<Rightarrow> ('s, 'a) st" where
  "sfinally m f = sthen m (\<lambda>r. sbind f (\<lambda>_. sres r))"

definition transport_failed :: "ustr \<Rightarrow> string \<Rightarrow> string" where
  "transport_failed url m = ''transport failed for '' @ repr_u url @ '': '' @ m"

definition request_headers :: "headers \<Rightarrow> headers" where
  "request_headers hdrs = dict_update [(''Content-Type'', ''application/json'')] hdrs"

definition post ::
  "'s httpx \<Rightarrow> ustr \<Rightarrow> json \<Rightarrow> nat option \<Rightarrow> rat \<Rightarrow> excls \<Rightarrow> headers \<Rightarrow> ('s, http_response) st"
where
  "post H url body client timeout error_cls hdrs =
     (case client of
        Some c \<Rightarrow> srewrap (client_post H c url body (request_headers hdrs)) (Lib HTTPError) error_cls (transport_failed url)
      | None \<Rightarrow>
          sbind (srewrap (new_client H timeout) (Lib HTTPError) error_cls (transport_failed url)) (\<lambda>owned.
            sfinally
              (srewrap (client_post H owned url body (request_headers hdrs)) (Lib HTTPError) error_cls
                (transport_failed url))
              (client_close H owned)))"

definition json_body :: "http_response \<Rightarrow> excls \<Rightarrow> json res" where
  "json_body response error_cls =
     rewrap (resp_json response) (Builtin ValueError) error_cls (\<lambda>m. ''non-JSON body: '' @ m)"

record HandoffResponse =
  ho_access_token :: string
  ho_expires_at :: "string option"
  ho_refresh_token :: "string option"
  ho_extra :: obj

record RefreshResponse =
  rf_access_token :: string
  rf_expires_at :: "string option"
  rf_refresh_token :: "string option"
  rf_extra :: obj

definition access_token_keys :: "string list" where
  "access_token_keys = [''accessToken'', ''access_token'']"

definition expires_at_keys :: "string list" where
  "expires_at_keys = [''expiresAt'', ''expires_at'']"

definition refresh_token_keys :: "string list" where
  "refresh_token_keys = [''refreshToken'', ''refresh_token'']"

definition token_fields ::
  "(string \<Rightarrow> string option \<Rightarrow> string option \<Rightarrow> obj \<Rightarrow> 'r) \<Rightarrow> json \<Rightarrow> 'r fres"
where
  "token_fields mk j =
     (case j of
        JObj d \<Rightarrow>
          fap (fap (fap (FOk (\<lambda>a e r. mk a e r (extra_members d [access_token_keys, expires_at_keys, refresh_token_keys])))
                 (required_field d access_token_keys v_str))
              (optional_field d expires_at_keys None (v_optional v_str)))
            (optional_field d refresh_token_keys None (v_optional v_str))
      | _ \<Rightarrow> FErr)"

definition HandoffResponse_model_validate :: "lib \<Rightarrow> json \<Rightarrow> HandoffResponse res" where
  "HandoffResponse_model_validate L j =
     validated L ''HandoffResponse'' j (token_fields (\<lambda>a e r x.
       \<lparr>ho_access_token = a, ho_expires_at = e, ho_refresh_token = r, ho_extra = x\<rparr>) j)"

definition RefreshResponse_model_validate :: "lib \<Rightarrow> json \<Rightarrow> RefreshResponse res" where
  "RefreshResponse_model_validate L j =
     validated L ''RefreshResponse'' j (token_fields (\<lambda>a e r x.
       \<lparr>rf_access_token = a, rf_expires_at = e, rf_refresh_token = r, rf_extra = x\<rparr>) j)"

definition interpret_handoff_response :: "lib \<Rightarrow> http_response \<Rightarrow> ustr \<Rightarrow> HandoffResponse res" where
  "interpret_handoff_response L response url =
     (let status = status_code response in
      if status = 200 then
        bind (json_body response (Sdk HandoffError)) (\<lambda>body.
          rewrap (HandoffResponse_model_validate L body) (Builtin PyException) (Sdk HandoffError)
            (\<lambda>m. ''malformed handoff response: '' @ m))
      else if status = 404
      then raise (Sdk HandoffUnknownError) (''handoff code unknown or already redeemed: '' @ repr_u url)
      else if status = 410 then raise (Sdk HandoffExpiredError) (''handoff code expired: '' @ repr_u url)
      else if status = 429 then raise (Sdk HandoffRateLimitedError) (''handoff rate-limited: '' @ repr_u url)
      else raise (Sdk HandoffError) (''handoff redemption returned HTTP '' @ int_str status))"

definition interpret_refresh_response :: "lib \<Rightarrow> http_response \<Rightarrow> ustr \<Rightarrow> RefreshResponse res" where
  "interpret_refresh_response L response url =
     (let status = status_code response in
      if status = 200 then
        bind (json_body response (Sdk RefreshError)) (\<lambda>body.
          rewrap (RefreshResponse_model_validate L body) (Builtin PyException) (Sdk RefreshError)
            (\<lambda>m. ''malformed refresh response: '' @ m))
      else if status = 401
      then raise (Sdk RefreshInvalidError) (''refresh token invalid or revoked: '' @ repr_u url)
      else if status = 429 then raise (Sdk RefreshRateLimitedError) (''refresh rate-limited: '' @ repr_u url)
      else raise (Sdk RefreshError) (''refresh returned HTTP '' @ int_str status))"

definition rstrip_slash :: "ustr \<Rightarrow> ustr" where
  "rstrip_slash s = rstrip (\<lambda>cp. cp = 47) s"

definition handoff_url :: "ustr \<Rightarrow> ustr \<Rightarrow> ustr res" where
  "handoff_url mcp_origin hcode =
     (if \<not> HANDOFF_PATTERN hcode
      then raise (Sdk HandoffError) (''handoff code does not match the grammar: '' @ repr_u hcode)
      else Inr (rstrip_slash mcp_origin @ u HANDOFF_PATH @ hcode))"

definition refresh_url :: "ustr \<Rightarrow> ustr" where
  "refresh_url mcp_origin = rstrip_slash mcp_origin @ u REFRESH_PATH"

definition redeem_handoff ::
  "lib \<Rightarrow> 's httpx \<Rightarrow> ustr \<Rightarrow> ustr \<Rightarrow> nat option \<Rightarrow> rat \<Rightarrow> ('s, HandoffResponse) st"
where
  "redeem_handoff L H mcp_origin hcode client timeout =
     sbind (sres (handoff_url mcp_origin hcode)) (\<lambda>url.
     sbind (post H url (JObj []) client timeout (Sdk HandoffError) []) (\<lambda>response.
     sres (interpret_handoff_response L response url)))"

definition refresh_access_token ::
  "lib \<Rightarrow> 's httpx \<Rightarrow> ustr \<Rightarrow> string \<Rightarrow> nat option \<Rightarrow> rat \<Rightarrow> ('s, RefreshResponse) st"
where
  "refresh_access_token L H mcp_origin refresh_token client timeout =
     (let url = refresh_url mcp_origin in
      sbind (post H url (JObj []) client timeout (Sdk RefreshError)
               [(''Authorization'', ''Bearer '' @ refresh_token)]) (\<lambda>response.
      sres (interpret_refresh_response L response url)))"

subsection \<open>The async siblings\<close>

record 's async_httpx =
  new_async_client :: "rat \<Rightarrow> ('s, nat) st"
  aclient_post :: "nat \<Rightarrow> ustr \<Rightarrow> json \<Rightarrow> headers \<Rightarrow> ('s, http_response) task"
  aclient_aclose :: "nat \<Rightarrow> ('s, unit) task"

definition tfinally :: "('s, 'a) task \<Rightarrow> ('s, unit) task \<Rightarrow> ('s, 'a) task" where
  "tfinally t f = tthen t (\<lambda>r. tbind f (\<lambda>_. Ret r))"

definition apost ::
  "'s async_httpx \<Rightarrow> ustr \<Rightarrow> json \<Rightarrow> nat option \<Rightarrow> rat \<Rightarrow> excls \<Rightarrow> headers \<Rightarrow> ('s, http_response) task"
where
  "apost H url body client timeout error_cls hdrs =
     (case client of
        Some c \<Rightarrow> trewrap (aclient_post H c url body (request_headers hdrs)) (Lib HTTPError) error_cls (transport_failed url)
      | None \<Rightarrow>
          tbind (trewrap (atomic (new_async_client H timeout)) (Lib HTTPError) error_cls (transport_failed url)) (\<lambda>owned.
            tfinally
              (trewrap (aclient_post H owned url body (request_headers hdrs)) (Lib HTTPError) error_cls
                (transport_failed url))
              (aclient_aclose H owned)))"

definition aredeem_handoff ::
  "lib \<Rightarrow> 's async_httpx \<Rightarrow> ustr \<Rightarrow> ustr \<Rightarrow> nat option \<Rightarrow> rat \<Rightarrow> ('s, HandoffResponse) task"
where
  "aredeem_handoff L H mcp_origin hcode client timeout =
     tbind (Ret (handoff_url mcp_origin hcode)) (\<lambda>url.
     tbind (apost H url (JObj []) client timeout (Sdk HandoffError) []) (\<lambda>response.
     Ret (interpret_handoff_response L response url)))"

definition arefresh_access_token ::
  "lib \<Rightarrow> 's async_httpx \<Rightarrow> ustr \<Rightarrow> string \<Rightarrow> nat option \<Rightarrow> rat \<Rightarrow> ('s, RefreshResponse) task"
where
  "arefresh_access_token L H mcp_origin refresh_token client timeout =
     (let url = refresh_url mcp_origin in
      tbind (apost H url (JObj []) client timeout (Sdk RefreshError)
               [(''Authorization'', ''Bearer '' @ refresh_token)]) (\<lambda>response.
      Ret (interpret_refresh_response L response url)))"

section \<open>Which URIs are accepted\<close>

lemma collect_params_Inr_iff:
  "collect_params acc pairs = Inr params \<longleftrightarrow>
     distinct (map fst pairs) \<and> fst ` set pairs \<inter> fst ` set acc = {} \<and> params = acc @ pairs"
proof (induction acc pairs rule: collect_params.induct)
  case (2 acc key v rest)
  have new: "dict_set key v acc = acc @ [(key, v)]" if "key \<notin> fst ` set acc"
    using that by (induction acc) auto
  show ?case
  proof (cases "key \<in> fst ` set acc")
    case True
    then show ?thesis by (auto simp: connect_error_def map_of_eq_None_iff)
  next
    case False
    then have "dict_get acc key = None" by (simp add: map_of_eq_None_iff)
    with 2 False show ?thesis by (auto simp: new)
  qed
qed auto

definition connect_params :: "string \<Rightarrow> (ustr \<times> ustr) list \<Rightarrow> bool" where
  "connect_params uri pairs =
     (\<exists>ps. urlparse uri = Inr ps \<and> url_scheme ps = ''shadow'' \<and> url_netloc ps = ''connect''
        \<and> url_path ps \<in> {[], ''/''} \<and> url_fragment ps = [] \<and> parse_qsl (url_query ps) = Inr pairs
        \<and> distinct (map fst pairs))"

definition connect_outcome :: "(ustr \<times> ustr) list \<Rightarrow> ConnectURI \<Rightarrow> bool" where
  "connect_outcome pairs c =
     (dict_get pairs (u ''mcp'') = Some (mcp_endpoint c) \<and> endpoint_allowed (mcp_endpoint c)
      \<and> access_token c = dict_get pairs (u ''token'') \<and> handoff_code c = dict_get pairs (u ''handoff'')
      \<and> ConnectURI_is_inline c \<noteq> ConnectURI_is_handoff c
      \<and> (\<forall>h. handoff_code c = Some h \<longrightarrow> HANDOFF_PATTERN h))"

lemma endpoint_allowed_nonempty: "endpoint_allowed e \<Longrightarrow> e \<noteq> []"
  by (auto simp: endpoint_allowed_def LOOPBACK_PREFIXES_def)

lemma connect_of_params_Inr_iff: "connect_of_params params = Inr c \<longleftrightarrow> connect_outcome params c"
proof (cases "dict_get params (u ''mcp'')")
  case None
  then show ?thesis by (simp add: connect_of_params_def connect_error_def connect_outcome_def)
next
  case (Some e)
  then show ?thesis
    by (cases c)
      (auto simp: connect_of_params_def connect_error_def connect_outcome_def Let_def
        ConnectURI_is_inline_def ConnectURI_is_handoff_def dest: endpoint_allowed_nonempty)
qed

text \<open>
  C23: \<open>parse_connect_uri\<close> accepts a text exactly when it is a \<open>shadow://connect\<close> URI with an empty path,
  no fragment and a query of distinct parameters, among them \<open>mcp\<close> with an endpoint that starts with
  \<open>https://\<close> or with one of the loopback prefixes, and exactly one of \<open>token\<close> and \<open>handoff\<close>, the latter of
  the handoff grammar; and it returns what these parameters say, percent-decoded.
\<close>

theorem parse_connect_uri_iff:
  "parse_connect_uri uri = Inr c \<longleftrightarrow> (\<exists>pairs. connect_params uri pairs \<and> connect_outcome pairs c)"
  unfolding parse_connect_uri_def CONNECT_SCHEME_def CONNECT_AUTHORITY_def connect_params_def
  by (auto simp: bind_Inr_iff if_raise_Inr_iff connect_error_def collect_params_Inr_iff connect_of_params_Inr_iff)

theorem parse_connect_uri_loopback_prefix:
  "parse_connect_uri ''shadow://connect?mcp=http://localhost.evil.example/mcp&token=t'' =
     Inr \<lparr>mcp_endpoint = u ''http://localhost.evil.example/mcp'', access_token = Some (u ''t''), handoff_code = None\<rparr>"
  by code_simp

lemma parse_connect_uri_params:
  "connect_params uri pairs \<Longrightarrow> parse_connect_uri uri = connect_of_params pairs"
  by (auto simp: connect_params_def parse_connect_uri_def CONNECT_SCHEME_def CONNECT_AUTHORITY_def
      collect_params_Inr_iff [where acc = "[]", THEN iffD2])

section \<open>Writing a connect URI and reading it back\<close>

text \<open>The URI that hands over an endpoint together with a token or a handoff code, each percent-encoded.\<close>

definition connect_uri :: "ustr \<Rightarrow> string \<Rightarrow> ustr \<Rightarrow> string" where
  "connect_uri e name v =
     ''shadow://'' @ ''connect'' @ url_part (CHR ''?'') (''mcp='' @ quote e @ ''&'' @ name @ ''='' @ quote v)
       @ url_part (CHR ''#'') []"

lemma quote_nonempty: "s \<noteq> [] \<Longrightarrow> quote s \<noteq> []"
proof -
  assume "s \<noteq> []"
  then have "utf8 s \<noteq> []" by (cases s) (simp_all add: utf8_def)
  moreover have "quote_byte b \<noteq> []" for b by (simp add: quote_byte_def)
  ultimately show ?thesis by (auto simp: quote_def neq_Nil_conv)
qed

lemma quote_plain:
  assumes "list_all scalar s" "c \<in> set (quote s)"
  shows "32 < code c" "c \<notin> {CHR ''#'', CHR ''&'', CHR ''=''}"
  using unreserved_code [OF quote_chars [OF scalar_code_points [OF assms(1)] assms(2)]] by auto

lemma query_field_quoted:
  assumes "list_all scalar v" "v \<noteq> []" "CHR ''='' \<notin> set name" "unquote (plus_to_space name) = key"
  shows "query_field (name @ CHR ''='' # quote v) = Inr (Some (key, v))"
  using assms quote_nonempty [of v] unquote_quote [of v]
  by (simp add: query_field_def partition_on_append)

lemma parse_qsl_two:
  assumes "list_all scalar e" "e \<noteq> []" "list_all scalar v" "v \<noteq> []" "name \<in> {''token'', ''handoff''}"
  shows "parse_qsl (''mcp='' @ quote e @ ''&'' @ name @ ''='' @ quote v) = Inr [(u ''mcp'', e), (u name, v)]"
proof -
  let ?a = "''mcp'' @ CHR ''='' # quote e" and ?b = "name @ CHR ''='' # quote v"
  have amp: "CHR ''&'' \<notin> set ?a" "CHR ''&'' \<notin> set ?b"
    using assms(5) quote_plain(2) [OF assms(1)] quote_plain(2) [OF assms(3)] by auto
  have "split_on (CHR ''&'') (?a @ CHR ''&'' # ?b) = [?a, ?b]"
    unfolding split_on_append [OF amp(1)] split_on_single [OF amp(2)] by (rule refl)
  moreover have "unquote (plus_to_space n) = u n" if "n \<in> {''mcp'', ''token'', ''handoff''}" for n
    using that by (elim insertE emptyE) (simp_all only:, code_simp+)
  then have keys: "unquote (plus_to_space ''mcp'') = u ''mcp''" "unquote (plus_to_space name) = u name"
    using assms(5) by blast+
  moreover have "CHR ''='' \<notin> set ''mcp''" "CHR ''='' \<notin> set name" using assms(5) by auto
  then have "query_field ?a = Inr (Some (u ''mcp'', e))" "query_field ?b = Inr (Some (u name, v))"
    using query_field_quoted [OF assms(1,2) _ keys(1)] query_field_quoted [OF assms(3,4) _ keys(2)] by blast+
  ultimately have "parse_qsl (?a @ CHR ''&'' # ?b) = Inr [(u ''mcp'', e), (u name, v)]"
    by (simp add: parse_qsl_def map_filter_simps)
  then show ?thesis by simp
qed

lemma urlparse_connect:
  assumes "list_all scalar e" "list_all scalar v" "name \<in> {''token'', ''handoff''}"
  shows "urlparse (connect_uri e name v) =
    Inr \<lparr>url_scheme = ''shadow'', url_netloc = ''connect'', url_path = [],
         url_query = ''mcp='' @ quote e @ ''&'' @ name @ ''='' @ quote v, url_fragment = []\<rparr>"
  unfolding connect_uri_def
proof (rule urlparse_assembled)
  show "\<forall>c\<in>set (''connect'' @ (''mcp='' @ quote e @ ''&'' @ name @ ''='' @ quote v) @ []). 32 < code c"
    using assms(3) quote_plain(1) [OF assms(1)] quote_plain(1) [OF assms(2)] by auto
  show "CHR ''#'' \<notin> set (''mcp='' @ quote e @ ''&'' @ name @ ''='' @ quote v)"
    using assms(3) quote_plain(2) [OF assms(1)] quote_plain(2) [OF assms(2)] by auto
qed (simp_all add: netloc_end_def)

text \<open>
  A connect URI that is assembled by percent-encoding is read back: for every endpoint of
  Unicode text that is allowed, and every non-empty token, or every handoff code of the grammar,
  \<open>parse_connect_uri\<close> returns exactly that endpoint and that token or code. No delimiter inside the
  endpoint or the token (\<open>&\<close>, \<open>=\<close>, \<open>#\<close>, \<open>+\<close>, \<open>%\<close> or white space) is lost or splits the parameter.
\<close>

theorem connect_uri_read:
  assumes e: "list_all scalar e" "endpoint_allowed e" and v: "list_all scalar v" "v \<noteq> []"
    and name: "name = ''token'' \<or> name = ''handoff'' \<and> HANDOFF_PATTERN v"
  shows "parse_connect_uri (connect_uri e name v) =
    Inr (if name = ''token'' then \<lparr>mcp_endpoint = e, access_token = Some v, handoff_code = None\<rparr>
         else \<lparr>mcp_endpoint = e, access_token = None, handoff_code = Some v\<rparr>)"
proof -
  have "name \<in> {''token'', ''handoff''}" using name by auto
  moreover have "e \<noteq> []" using e(2) by (rule endpoint_allowed_nonempty)
  ultimately have "connect_params (connect_uri e name v) [(u ''mcp'', e), (u name, v)]"
    using e(1) v urlparse_connect [of e v name] parse_qsl_two [of e v name]
    by (auto simp: connect_params_def)
  then show ?thesis
    using name e(2) \<open>e \<noteq> []\<close>
    by (auto simp: parse_connect_uri_params connect_of_params_def Let_def)
qed

definition ex_endpoint :: ustr where
  "ex_endpoint = u ''https://a.example/mcp?x=1&y=%41#z''"

theorem connect_uri_read_witness:
  "parse_connect_uri (connect_uri ex_endpoint ''token'' [0x2603, 0x1F600, 0x26]) =
     Inr \<lparr>mcp_endpoint = ex_endpoint, access_token = Some [0x2603, 0x1F600, 0x26], handoff_code = None\<rparr>"
proof -
  have "list_all scalar ex_endpoint \<and> endpoint_allowed ex_endpoint"
    by (simp add: ex_endpoint_def scalar_def is_surrogate_def endpoint_allowed_def)
  moreover have "list_all scalar [0x2603, 0x1F600, 0x26]"
    by (simp add: scalar_def is_surrogate_def)
  ultimately show ?thesis using connect_uri_read [of ex_endpoint _ "''token''"] by simp
qed

section \<open>Redemption and refresh\<close>

text \<open>
  What the HTTP library promises of the clients that are open, \<open>opens\<close>: a new client is a fresh one, making one opens no other,
  posting opens and closes nothing, and closing closes that client. Nothing is assumed of the exceptions that it raises.
\<close>

definition http_ok :: "'s httpx \<Rightarrow> ('s \<Rightarrow> nat set) \<Rightarrow> bool" where
  "http_ok H opens =
     ((\<forall>t s c s'. new_client H t s = (Inr c, s') \<longrightarrow> c \<notin> opens s \<and> opens s' = insert c (opens s))
      \<and> (\<forall>t s e s'. new_client H t s = (Inl e, s') \<longrightarrow> opens s' = opens s)
      \<and> (\<forall>c url b h s r s'. client_post H c url b h s = (r, s') \<longrightarrow> opens s' = opens s)
      \<and> (\<forall>c s r s'. client_close H c s = (r, s') \<longrightarrow> opens s' = opens s - {c}))"

lemma http_okD:
  assumes "http_ok H opens"
  shows "new_client H t s = (Inr c, s') \<Longrightarrow> c \<notin> opens s \<and> opens s' = insert c (opens s)"
    "new_client H t s = (Inl e, s') \<Longrightarrow> opens s' = opens s"
    "client_post H c url b h s = (r, s') \<Longrightarrow> opens s' = opens s"
    "client_close H c s = (q, s') \<Longrightarrow> opens s' = opens s - {c}"
  using assms unfolding http_ok_def by meson+

text \<open>
  The exceptions that no handler of the code is for: those of the library that are no \<open>HTTPError\<close> (\<open>InvalidURL\<close>, the
  encoding errors of a header), those of reading the body that are no \<open>ValueError\<close>, and those of closing a client.
\<close>

definition unhandled :: "'s httpx \<Rightarrow> exn \<Rightarrow> bool" where
  "unhandled H e =
     ((\<exists>t s s'. new_client H t s = (Inl e, s') \<and> \<not> is_a e (Lib HTTPError))
      \<or> (\<exists>c url b h s s'. client_post H c url b h s = (Inl e, s') \<and> \<not> is_a e (Lib HTTPError))
      \<or> (\<exists>c url b h s p s'. client_post H c url b h s = (Inr p, s') \<and> resp_json p = Inl e \<and> \<not> is_a e (Builtin ValueError))
      \<or> (\<exists>c s s'. client_close H c s = (Inl e, s')))"

lemma sfinally_iff:
  "sfinally m f s = (r, s'') \<longleftrightarrow>
     (\<exists>q s'. m s = (q, s') \<and> (f s' = (Inr (), s'') \<and> r = q \<or> (\<exists>e. f s' = (Inl e, s'') \<and> r = Inl e)))"
  by (auto simp: sfinally_def sthen_def sbind_def sres_def split: prod.splits sum.splits)

definition request ::
  "'s httpx \<Rightarrow> nat \<Rightarrow> ustr \<Rightarrow> json \<Rightarrow> excls \<Rightarrow> headers \<Rightarrow> ('s, http_response) st"
where
  "request H c url b ec hdrs =
     srewrap (client_post H c url b (request_headers hdrs)) (Lib HTTPError) ec (transport_failed url)"

text \<open>The outcome of a request: it leaks no client, fails with the given class or for want of a handler, and so does reading its body.\<close>

definition request_ok :: "'s httpx \<Rightarrow> ('s \<Rightarrow> nat set) \<Rightarrow> excls \<Rightarrow> 's \<Rightarrow> http_response res \<times> 's \<Rightarrow> bool" where
  "request_ok H opens ec s out =
     (opens (snd out) = opens s \<and> (\<forall>e. fst out = Inl e \<longrightarrow> cls e = ec \<or> unhandled H e)
      \<and> (\<forall>p e. fst out = Inr p \<longrightarrow> resp_json p = Inl e \<longrightarrow> is_a e (Builtin ValueError) \<or> unhandled H e))"

lemma request_outcome:
  assumes ok: "http_ok H opens"
  shows "request_ok H opens ec s (request H c url b ec hdrs s)"
proof -
  obtain r s' where r: "request H c url b ec hdrs s = (r, s')" by force
  show ?thesis
  proof (cases r)
    case (Inl e)
    with r obtain e' where e': "client_post H c url b (request_headers hdrs) s = (Inl e', s')"
      "if is_a e' (Lib HTTPError) then e = Exn ec (transport_failed url (str_of e')) else e = e'"
      by (auto simp: request_def srewrap_Inl_iff)
    then have "cls e = ec \<or> (\<not> is_a e (Lib HTTPError) \<and> client_post H c url b (request_headers hdrs) s = (Inl e, s'))"
      by (auto split: if_splits)
    then have "cls e = ec \<or> unhandled H e" unfolding unhandled_def by blast
    with Inl r show ?thesis using http_okD(3) [OF ok e'(1)] by (simp add: request_ok_def)
  next
    case (Inr p)
    with r have p: "client_post H c url b (request_headers hdrs) s = (Inr p, s')"
      by (simp add: request_def srewrap_Inr_iff)
    then have "is_a e (Builtin ValueError) \<or> unhandled H e" if "resp_json p = Inl e" for e
      using that unfolding unhandled_def by blast
    with Inr r show ?thesis using http_okD(3) [OF ok p] by (simp add: request_ok_def)
  qed
qed

text \<open>The same holds when the client is made for the call, because it is closed on every path.\<close>

lemma post_outcome:
  assumes ok: "http_ok H opens"
  shows "request_ok H opens ec s (post H url b client t ec hdrs s)"
proof (cases client)
  case (Some c)
  then show ?thesis using request_outcome [OF ok] by (simp add: post_def request_def)
next
  case None
  obtain q s1 where n: "new_client H t s = (q, s1)" by force
  show ?thesis
  proof (cases q)
    case (Inl e)
    then have "is_a e (Lib HTTPError) \<or> unhandled H e" using n unfolding unhandled_def by blast
    with None n Inl show ?thesis
      using http_okD(2) [OF ok, of t s e s1]
      by (auto simp: request_ok_def post_def sbind_def sthen_def srewrap_def sres_def rewrap_def try_except_def raise_def)
  next
    case (Inr c)
    obtain r s2 where r: "request H c url b ec hdrs s1 = (r, s2)" by force
    obtain q' s3 where c: "client_close H c s2 = (q', s3)" by force
    then have closed: "opens s3 = opens s2 - {c}" "\<And>e. q' = Inl e \<Longrightarrow> unhandled H e"
      using http_okD(4) [OF ok] by (blast, auto simp: unhandled_def)
    have "post H url b client t ec hdrs s = (case q' of Inl e \<Rightarrow> Inl e | Inr _ \<Rightarrow> r, s3)"
      using None n Inr r c
      by (simp add: post_def request_def sfinally_def sbind_def sthen_def srewrap_def [of "new_client H t"] sres_def split: sum.split)
    then show ?thesis
      using request_outcome [OF ok, of ec s1 c url b hdrs] http_okD(1) [OF ok, of t s c s1] n Inr r closed
      by (auto simp: request_ok_def split: sum.splits)
  qed
qed

text \<open>The class of the exception by which a status other than 200 is reported.\<close>

definition handoff_class :: "int \<Rightarrow> excls" where
  "handoff_class status =
     Sdk (if status = 404 then HandoffUnknownError else if status = 410 then HandoffExpiredError
          else if status = 429 then HandoffRateLimitedError else HandoffError)"

definition refresh_class :: "int \<Rightarrow> excls" where
  "refresh_class status =
     Sdk (if status = 401 then RefreshInvalidError else if status = 429 then RefreshRateLimitedError
          else RefreshError)"

lemma class_is_a:
  "is_a (Exn (handoff_class n) m) (Sdk HandoffError)" "is_a (Exn (refresh_class n) m) (Sdk RefreshError)"
  by (auto simp: handoff_class_def refresh_class_def is_a_eval)

lemma interpret_error:
  shows "interpret_handoff_response L p url = Inl e \<Longrightarrow>
      cls e = (if status_code p = 200 then Sdk HandoffError else handoff_class (status_code p))
      \<or> resp_json p = Inl e \<and> \<not> is_a e (Builtin ValueError)"
    "interpret_refresh_response L p url = Inl e' \<Longrightarrow>
      cls e' = (if status_code p = 200 then Sdk RefreshError else refresh_class (status_code p))
      \<or> resp_json p = Inl e' \<and> \<not> is_a e' (Builtin ValueError)"
proof -
  have body: "cls e = c \<or> resp_json p = Inl e \<and> \<not> is_a e (Builtin ValueError)" if "json_body p c = Inl e" for c e
    using that unfolding json_body_def rewrap_Inl_iff by (metis exn.sel(1))
  have model: "cls e = c" if "rewrap m (Builtin PyException) c f = Inl e" for m c f e
    using that by (rule rewrap_cls) simp
  show "interpret_handoff_response L p url = Inl e \<Longrightarrow>
      cls e = (if status_code p = 200 then Sdk HandoffError else handoff_class (status_code p))
      \<or> resp_json p = Inl e \<and> \<not> is_a e (Builtin ValueError)"
    by (auto simp: interpret_handoff_response_def handoff_class_def Let_def raise_Inl_iff bind_Inl_iff
        split: if_splits dest: body model)
  show "interpret_refresh_response L p url = Inl e' \<Longrightarrow>
      cls e' = (if status_code p = 200 then Sdk RefreshError else refresh_class (status_code p))
      \<or> resp_json p = Inl e' \<and> \<not> is_a e' (Builtin ValueError)"
    by (auto simp: interpret_refresh_response_def refresh_class_def Let_def raise_Inl_iff bind_Inl_iff
        split: if_splits dest: body model)
qed

lemma after_request:
  assumes ok: "http_ok H opens"
    and run: "sbind (post H url b client t ec hdrs) (\<lambda>p. sres (f p)) s = (r, s')"
    and f: "\<And>p e. f p = Inl e \<Longrightarrow> is_a e ec \<or> resp_json p = Inl e \<and> \<not> is_a e (Builtin ValueError)"
  shows "opens s' = opens s \<and> (\<forall>e. r = Inl e \<longrightarrow> is_a e ec \<or> unhandled H e)"
proof -
  obtain q s1 where q: "post H url b client t ec hdrs s = (q, s1)" by force
  with post_outcome [OF ok, of ec s url b client t hdrs] have ok: "request_ok H opens ec s (q, s1)" by simp
  show ?thesis
  proof (cases q)
    case (Inl e)
    with q run ok show ?thesis
      by (auto simp: sbind_def sthen_def sres_def request_ok_def is_a_def)
  next
    case (Inr p)
    with q run have "r = f p" "s' = s1" by (auto simp: sbind_def sthen_def sres_def)
    moreover have "is_a e (Builtin ValueError) \<or> unhandled H e" if "resp_json p = Inl e" for e
      using ok Inr that by (simp add: request_ok_def)
    ultimately show ?thesis using ok f [of p] by (auto simp: request_ok_def)
  qed
qed

lemma interpret_is_a:
  shows "interpret_handoff_response L p url = Inl e \<Longrightarrow>
      is_a e (Sdk HandoffError) \<or> resp_json p = Inl e \<and> \<not> is_a e (Builtin ValueError)"
    "interpret_refresh_response L p url = Inl e' \<Longrightarrow>
      is_a e' (Sdk RefreshError) \<or> resp_json p = Inl e' \<and> \<not> is_a e' (Builtin ValueError)"
  using interpret_error [where L = L and url = url] class_is_a
  by (fastforce simp: is_a_def split: if_splits)+


text \<open>
  Such an exception is within reach: a code with a newline at its end matches the pattern and becomes the end of the URL, and what the library
  raises about that URL, if it is no \<open>HTTPError\<close>, is what the caller gets.
\<close>

theorem redeem_escape:
  assumes "HANDOFF_PATTERN hcode" "last hcode \<noteq> 10" "\<not> is_a e (Lib HTTPError)"
    and "client_post H c (rstrip_slash mcp_origin @ u HANDOFF_PATH @ hcode @ [10]) (JObj []) [(''Content-Type'', ''application/json'')] s = (Inl e, s')"
  shows "redeem_handoff L H mcp_origin (hcode @ [10]) (Some c) t s = (Inl e, s')"
proof -
  have "HANDOFF_PATTERN (hcode @ [10])" using assms(1,2) by (simp add: HANDOFF_PATTERN_def Let_def)
  then show ?thesis
    using assms(3,4)
    by (simp add: redeem_handoff_def handoff_url_def post_def request_headers_def dict_update_def sbind_def sthen_def sres_def
        srewrap_def rewrap_def try_except_def)
qed

text \<open>A library that keeps the list of its open clients and whose requests all fail.\<close>

definition ex_http :: "nat list httpx" where
  "ex_http =
     \<lparr>new_client = (\<lambda>_ s. (Inr (Suc (sum_list s)), Suc (sum_list s) # s)),
      client_post = (\<lambda>_ _ _ _ s. (raise (Lib HTTPError) ''unreachable'', s)),
      client_close = (\<lambda>c s. (Inr (), filter (\<lambda>x. x \<noteq> c) s))\<rparr>"

lemma ex_http_ok: "http_ok ex_http set"
proof -
  have "Suc (sum_list s) \<notin> set s" for s :: "nat list"
    using member_le_sum_list [of "Suc (sum_list s)" s] by auto
  then show ?thesis by (auto simp: http_ok_def ex_http_def raise_def)
qed


section \<open>Async\<close>

definition async_matches :: "'s async_httpx \<Rightarrow> 's httpx \<Rightarrow> bool" where
  "async_matches A H =
     (new_async_client A = new_client H
      \<and> (\<forall>c url b h. run (aclient_post A c url b h) = client_post H c url b h)
      \<and> (\<forall>c. run (aclient_aclose A c) = client_close H c))"

lemma run_tfinally [run_simps]: "run (tfinally t f) = sfinally (run t) (run f)"
  by (simp add: tfinally_def sfinally_def run_tthen run_tbind run_Ret)

lemma run_apost:
  "async_matches A H \<Longrightarrow> run (apost A url b client t ec hdrs) = post H url b client t ec hdrs"
  by (cases client) (simp_all add: async_matches_def apost_def post_def run_simps)

text \<open>
  The async siblings do what the synchronous functions do: run alone, over a client library
  with the same effects, \<open>aredeem_handoff\<close> and \<open>arefresh_access_token\<close> have the outcome and leave the state
  of \<open>redeem_handoff\<close> and \<open>refresh_access_token\<close>.
\<close>

theorem async_token_calls_agree:
  assumes "async_matches A H"
  shows "run (aredeem_handoff L A mcp_origin hcode client t) = redeem_handoff L H mcp_origin hcode client t
    \<and> run (arefresh_access_token L A mcp_origin token client t) = refresh_access_token L H mcp_origin token client t"
  using run_apost [OF assms]
  by (simp add: aredeem_handoff_def redeem_handoff_def arefresh_access_token_def refresh_access_token_def
      Let_def run_tbind run_Ret)

text \<open>The async library over the synchronous one, suspending before each effect.\<close>

definition ex_async_http :: "nat list async_httpx" where
  "ex_async_http =
     \<lparr>new_async_client = new_client ex_http,
      aclient_post = (\<lambda>c url b h. suspending (client_post ex_http c url b h)),
      aclient_aclose = (\<lambda>c. suspending (client_close ex_http c))\<rparr>"

theorem async_token_calls_agree_witness:
  "run (aredeem_handoff toy_lib ex_async_http (u ''https://a.example'') (u ''abcdefghijklmnop'') None 10) =
     redeem_handoff toy_lib ex_http (u ''https://a.example'') (u ''abcdefghijklmnop'') None 10"
proof -
  have "async_matches ex_async_http ex_http"
    by (simp add: async_matches_def ex_async_http_def run_suspending)
  then show ?thesis using async_token_calls_agree by blast
qed

section \<open>Exceptions of the parser\<close>

lemma collect_params_error: "collect_params acc pairs = Inl e \<Longrightarrow> cls e = Sdk ConnectURIError"
  by (induction acc pairs rule: collect_params.induct)
    (auto simp: connect_error_def raise_Inl_iff split: if_splits)

lemma connect_of_params_error: "connect_of_params params = Inl e \<Longrightarrow> cls e = Sdk ConnectURIError"
  by (cases "dict_get params (u ''mcp'')")
    (auto simp: connect_of_params_def Let_def connect_error_def raise_Inl_iff split: if_splits)

lemma query_fields_error: "map_res query_field fs = Inl e \<Longrightarrow> cls e = Builtin ValueError"
  by (induction fs)
    (auto simp: bind_Inl_iff query_field_def value_error_def raise_Inl_iff split: if_splits prod.splits)

lemma parse_qsl_error: "parse_qsl q = Inl e \<Longrightarrow> cls e = Builtin ValueError"
  by (auto simp: parse_qsl_def bind_Inl_iff split: if_splits dest: query_fields_error)

text \<open>
  When \<open>parse_connect_uri\<close> refuses a text, it raises \<open>ConnectURIError\<close>, unless \<open>urlparse\<close> rejects the
  authority or the strict query parser meets a field without \<open>=\<close>: their \<open>ValueError\<close>, which is no
  \<open>ConnectURIError\<close>, reaches the caller.
\<close>

theorem parse_connect_uri_errors:
  assumes "parse_connect_uri uri = Inl e"
  shows "cls e = Sdk ConnectURIError \<or>
    cls e = Builtin ValueError \<and>
      (urlparse uri = Inl e \<or> (\<exists>ps. urlparse uri = Inr ps \<and> parse_qsl (url_query ps) = Inl e))"
proof (cases "urlparse uri")
  case (Inl e')
  with assms show ?thesis by (auto simp: parse_connect_uri_def dest: urlparse_error)
next
  case (Inr ps)
  with assms have "cls e = Sdk ConnectURIError \<or> parse_qsl (url_query ps) = Inl e"
    by (auto simp: parse_connect_uri_def connect_error_def raise_Inl_iff bind_Inl_iff split: if_splits
        dest: collect_params_error connect_of_params_error)
  with Inr show ?thesis by (auto dest: parse_qsl_error)
qed

theorem parse_connect_uri_errors_witness:
  "\<exists>e. parse_connect_uri ''shadow://connect?mcp'' = Inl e \<and> cls e = Builtin ValueError
     \<and> \<not> is_a e (Sdk ConnectURIError)"
proof -
  have p: "parse_connect_uri ''shadow://connect?mcp'' =
      Inl (Exn (Builtin ValueError) (''bad query field: '' @ repr ''mcp''))"
    by code_simp
  then show ?thesis using parse_connect_uri_errors [OF p] by (auto simp: is_a_eval)
qed

section \<open>From the URI to the redemption\<close>

text \<open>
  A code that a URI handed over passes the check of the redemption, which therefore always asks the
  server, at the path of that code.
\<close>

lemma parsed_code_redeemable:
  assumes "connect_outcome pairs c" "handoff_code c = Some h"
  shows "handoff_url mcp_origin h = Inr (rstrip_slash mcp_origin @ u HANDOFF_PATH @ h)"
  using assms by (simp add: connect_outcome_def handoff_url_def)

end
