(* ===== verification/Mcp.thy ===== *)
theory Mcp
  imports Externals Effects
begin

text \<open>
  The MCP control surface, from \<open>python-sdk/src/shadownet/mcp/\<close>: the models of the tools' inputs and
  outputs (\<open>tools.py\<close>), of the notifications (\<open>notifications.py\<close>) and of the coordination intents
  (\<open>intents.py\<close>), and the typed client over an MCP session (\<open>client.py\<close>). An input model is the record that
  the caller builds, with its \<open>model_dump(by_alias=True, exclude_none=True)\<close>; an output model is a record with
  its \<open>model_validate\<close>. Shown here: what a call of a tool returns or raises, for every answer of the
  session; and that the values that travel in both directions (bodies and contact profiles) survive
  the wire.
\<close>

section \<open>Fields\<close>

text \<open>\<open>model_validate\<close> of a value that is no object fails; \<open>extra="forbid"\<close> refuses members that no field took.\<close>

definition on_obj :: "(obj \<Rightarrow> 'a fres) \<Rightarrow> json \<Rightarrow> 'a fres" where
  "on_obj f j = (case j of JObj d \<Rightarrow> f d | _ \<Rightarrow> FErr)"

definition no_extra :: "obj \<Rightarrow> string list list \<Rightarrow> 'a fres \<Rightarrow> 'a fres" where
  "no_extra d fs r = (if extra_members d fs = [] then r else FErr)"

definition v_literal :: "string list \<Rightarrow> json \<Rightarrow> string fres" where
  "v_literal options j = constrain (\<lambda>s. s \<in> set options) (v_str j)"

definition v_true :: "json \<Rightarrow> bool fres" where
  "v_true j = (if j = JBool True then FOk True else FErr)"

text \<open>\<open>dict[str, tuple[str, ...]]\<close>.\<close>

fun v_members :: "(json \<Rightarrow> 'a fres) \<Rightarrow> obj \<Rightarrow> (string \<times> 'a) list fres" where
  "v_members f [] = FOk []"
| "v_members f ((k, j) # ms) = fap (fap (FOk (\<lambda>v vs. (k, v) # vs)) (f j)) (v_members f ms)"

definition v_str_lists :: "json \<Rightarrow> (string \<times> string list) list fres" where
  "v_str_lists = on_obj (v_members (v_list v_str))"

section \<open>Values that travel both ways\<close>

text \<open>\<open>exclude_none\<close>: a member that is \<open>None\<close> is left out.\<close>

definition opt_field :: "string \<Rightarrow> ('a \<Rightarrow> json) \<Rightarrow> 'a option \<Rightarrow> obj" where
  "opt_field k f v = (case v of None \<Rightarrow> [] | Some x \<Rightarrow> [(k, f x)])"

definition str_list :: "string list \<Rightarrow> json" where
  "str_list ss = JList (map JStr ss)"

record BodySlot =
  body_text :: "string option"
  body_intent :: "string option"
  body_data :: "obj option"
  body_extra :: obj

definition BodySlot_fields :: "string list list" where
  "BodySlot_fields = [[''text''], [''intent''], [''data'']]"

definition v_BodySlot :: "json \<Rightarrow> BodySlot fres" where
  "v_BodySlot = on_obj (\<lambda>d.
     fap (fap (fap (FOk (\<lambda>t i b. \<lparr>body_text = t, body_intent = i, body_data = b,
                                body_extra = extra_members d BodySlot_fields\<rparr>))
       (optional_field d [''text''] None (v_optional v_str)))
       (optional_field d [''intent''] None (v_optional v_str)))
       (optional_field d [''data''] None (v_optional v_obj)))"

definition dump_BodySlot :: "BodySlot \<Rightarrow> json" where
  "dump_BodySlot b =
     JObj (opt_field ''text'' JStr (body_text b) @ opt_field ''intent'' JStr (body_intent b)
           @ opt_field ''data'' JObj (body_data b) @ filter (\<lambda>(k, v). v \<noteq> JNull) (body_extra b))"

record ContactProfile =
  prof_notes :: "string option"
  prof_priority :: "string option"
  prof_tags :: "string list"
  prof_expires_at :: "string option"

definition NOTES_MAX_LENGTH :: nat where
  "NOTES_MAX_LENGTH = 4096"

definition v_ContactProfile :: "json \<Rightarrow> ContactProfile fres" where
  "v_ContactProfile = on_obj (\<lambda>d.
     no_extra d [[''notes''], [''priority''], [''tags''], [''expiresAt'', ''expires_at'']]
       (fap (fap (fap (fap (FOk (\<lambda>n p t e. \<lparr>prof_notes = n, prof_priority = p, prof_tags = t, prof_expires_at = e\<rparr>))
         (optional_field d [''notes''] None
            (v_optional (\<lambda>j. constrain (\<lambda>s. length s \<le> NOTES_MAX_LENGTH) (v_str j)))))
         (optional_field d [''priority''] None (v_optional (v_literal [''low'', ''normal'', ''high'']))))
         (optional_field d [''tags''] [] (v_list v_str)))
         (optional_field d [''expiresAt'', ''expires_at''] None (v_optional v_str))))"

definition dump_ContactProfile :: "ContactProfile \<Rightarrow> json" where
  "dump_ContactProfile p =
     JObj (opt_field ''notes'' JStr (prof_notes p) @ opt_field ''priority'' JStr (prof_priority p)
           @ [(''tags'', str_list (prof_tags p))] @ opt_field ''expiresAt'' JStr (prof_expires_at p))"

section \<open>Inputs\<close>

record ResolveInput =
  ri_name :: string

record ContactsInput =
  ci_query :: "string option"

record ContactDetailInput =
  cdi_name :: string

record AddContactInput =
  aci_name :: string
  aci_display_name :: "string option"
  aci_grants :: "string list"
  aci_profile :: "ContactProfile option"

record GrantInput =
  gi_name :: string
  gi_grant :: string
  gi_allowed :: bool

record SetContactProfileInput =
  scp_name :: string
  scp_profile :: ContactProfile

record SendInput =
  si_to :: string
  si_body :: BodySlot
  si_context_id :: "string option"

record RespondInput =
  rsi_context_id :: string
  rsi_body :: BodySlot

record InboxInput =
  ii_since :: "string option"
  ii_contact :: "string option"
  ii_intent :: "string option"
  ii_include_review :: bool
  ii_limit :: int

record InboxWaitInput =
  iw_timeout_seconds :: "int option"
  iw_last_event_id :: "string option"

definition dump_ResolveInput :: "ResolveInput \<Rightarrow> obj" where
  "dump_ResolveInput a = [(''name'', JStr (ri_name a))]"

definition dump_ContactsInput :: "ContactsInput \<Rightarrow> obj" where
  "dump_ContactsInput a = opt_field ''query'' JStr (ci_query a)"

definition dump_ContactDetailInput :: "ContactDetailInput \<Rightarrow> obj" where
  "dump_ContactDetailInput a = [(''name'', JStr (cdi_name a))]"

definition dump_AddContactInput :: "AddContactInput \<Rightarrow> obj" where
  "dump_AddContactInput a =
     [(''name'', JStr (aci_name a))] @ opt_field ''displayName'' JStr (aci_display_name a)
       @ [(''grants'', str_list (aci_grants a))] @ opt_field ''profile'' dump_ContactProfile (aci_profile a)"

definition dump_GrantInput :: "GrantInput \<Rightarrow> obj" where
  "dump_GrantInput a =
     [(''name'', JStr (gi_name a)), (''grant'', JStr (gi_grant a)), (''allowed'', JBool (gi_allowed a))]"

definition dump_SetContactProfileInput :: "SetContactProfileInput \<Rightarrow> obj" where
  "dump_SetContactProfileInput a =
     [(''name'', JStr (scp_name a)), (''profile'', dump_ContactProfile (scp_profile a))]"

definition dump_SendInput :: "SendInput \<Rightarrow> obj" where
  "dump_SendInput a =
     [(''to'', JStr (si_to a)), (''body'', dump_BodySlot (si_body a))] @ opt_field ''contextId'' JStr (si_context_id a)"

definition dump_RespondInput :: "RespondInput \<Rightarrow> obj" where
  "dump_RespondInput a = [(''contextId'', JStr (rsi_context_id a)), (''body'', dump_BodySlot (rsi_body a))]"

definition dump_InboxInput :: "InboxInput \<Rightarrow> obj" where
  "dump_InboxInput a =
     opt_field ''since'' JStr (ii_since a) @ opt_field ''contact'' JStr (ii_contact a)
       @ opt_field ''intent'' JStr (ii_intent a)
       @ [(''includeReview'', JBool (ii_include_review a)), (''limit'', JInt (ii_limit a))]"

definition dump_InboxWaitInput :: "InboxWaitInput \<Rightarrow> obj" where
  "dump_InboxWaitInput a =
     opt_field ''timeout_seconds'' JInt (iw_timeout_seconds a)
       @ opt_field ''last_event_id'' JStr (iw_last_event_id a)"

text \<open>The defaults of the fields.\<close>

definition ContactsInput_default :: ContactsInput where
  "ContactsInput_default = \<lparr>ci_query = None\<rparr>"

definition InboxInput_default :: InboxInput where
  "InboxInput_default =
     \<lparr>ii_since = None, ii_contact = None, ii_intent = None, ii_include_review = False, ii_limit = 50\<rparr>"

definition InboxWaitInput_default :: InboxWaitInput where
  "InboxWaitInput_default = \<lparr>iw_timeout_seconds = None, iw_last_event_id = None\<rparr>"

definition AddContactInput_of :: "string \<Rightarrow> AddContactInput" where
  "AddContactInput_of nm =
     \<lparr>aci_name = nm, aci_display_name = None, aci_grants = [''messaging''], aci_profile = None\<rparr>"

section \<open>Outputs\<close>

record CredentialSummary =
  cs_kind :: string
  cs_issuer :: string
  cs_org :: string
  cs_expires_at :: string

definition v_CredentialSummary :: "json \<Rightarrow> CredentialSummary fres" where
  "v_CredentialSummary = on_obj (\<lambda>d.
     no_extra d [[''kind''], [''issuer''], [''org''], [''expiresAt'', ''expires_at'']]
       (fap (fap (fap (fap (FOk (\<lambda>k i g e. \<lparr>cs_kind = k, cs_issuer = i, cs_org = g, cs_expires_at = e\<rparr>))
         (optional_field d [''kind''] ''org_affiliation'' (v_literal [''org_affiliation''])))
         (required_field d [''issuer''] v_str))
         (required_field d [''org''] v_str))
         (required_field d [''expiresAt'', ''expires_at''] v_str)))"

record ContactSummary =
  cts_shadowname :: string
  cts_display_name :: "string option"
  cts_grants :: "string list"
  cts_last_seen :: "string option"

definition v_ContactSummary :: "json \<Rightarrow> ContactSummary fres" where
  "v_ContactSummary = on_obj (\<lambda>d.
     no_extra d [[''shadowname''], [''displayName'', ''display_name''], [''grants''], [''lastSeen'', ''last_seen'']]
       (fap (fap (fap (fap (FOk (\<lambda>n dn g l. \<lparr>cts_shadowname = n, cts_display_name = dn, cts_grants = g, cts_last_seen = l\<rparr>))
         (required_field d [''shadowname''] v_str))
         (optional_field d [''displayName'', ''display_name''] None (v_optional v_str)))
         (optional_field d [''grants''] [] (v_list v_str)))
         (optional_field d [''lastSeen'', ''last_seen''] None (v_optional v_str))))"

record IdentityOutput =
  id_shadowname :: string
  id_pk :: string
  id_credentials :: "CredentialSummary list"

definition v_IdentityOutput :: "json \<Rightarrow> IdentityOutput fres" where
  "v_IdentityOutput = on_obj (\<lambda>d.
     no_extra d [[''shadowname''], [''pk''], [''credentials'']]
       (fap (fap (fap (FOk (\<lambda>n p c. \<lparr>id_shadowname = n, id_pk = p, id_credentials = c\<rparr>))
         (required_field d [''shadowname''] v_str))
         (required_field d [''pk''] v_str))
         (optional_field d [''credentials''] [] (v_list v_CredentialSummary))))"

record ResolveOutput =
  ro_shadowname :: string
  ro_pk :: string
  ro_endpoint :: string

definition v_ResolveOutput :: "json \<Rightarrow> ResolveOutput fres" where
  "v_ResolveOutput = on_obj (\<lambda>d.
     no_extra d [[''shadowname''], [''pk''], [''endpoint'']]
       (fap (fap (fap (FOk (\<lambda>n p e. \<lparr>ro_shadowname = n, ro_pk = p, ro_endpoint = e\<rparr>))
         (required_field d [''shadowname''] v_str))
         (required_field d [''pk''] v_str))
         (required_field d [''endpoint''] v_str)))"

record ContactsOutput =
  co_contacts :: "ContactSummary list"

definition v_ContactsOutput :: "json \<Rightarrow> ContactsOutput fres" where
  "v_ContactsOutput = on_obj (\<lambda>d.
     no_extra d [[''contacts'']]
       (fap (FOk (\<lambda>c. \<lparr>co_contacts = c\<rparr>))
         (optional_field d [''contacts''] [] (v_list v_ContactSummary))))"

record ContactDetailOutput =
  cd_shadowname :: string
  cd_display_name :: "string option"
  cd_pk :: string
  cd_endpoint :: string
  cd_grants :: "string list"
  cd_credentials :: "CredentialSummary list"
  cd_profile :: "ContactProfile option"
  cd_added_at :: string
  cd_last_seen :: "string option"

definition v_ContactDetailOutput :: "json \<Rightarrow> ContactDetailOutput fres" where
  "v_ContactDetailOutput = on_obj (\<lambda>d.
     no_extra d [[''shadowname''], [''displayName'', ''display_name''], [''pk''], [''endpoint''], [''grants''],
         [''credentials''], [''profile''], [''addedAt'', ''added_at''], [''lastSeen'', ''last_seen'']]
       (fap (fap (fap (fap (fap (fap (fap (fap (fap (FOk (\<lambda>n dn p e g c pr a l.
           \<lparr>cd_shadowname = n, cd_display_name = dn, cd_pk = p, cd_endpoint = e, cd_grants = g,
            cd_credentials = c, cd_profile = pr, cd_added_at = a, cd_last_seen = l\<rparr>))
         (required_field d [''shadowname''] v_str))
         (optional_field d [''displayName'', ''display_name''] None (v_optional v_str)))
         (required_field d [''pk''] v_str))
         (required_field d [''endpoint''] v_str))
         (optional_field d [''grants''] [] (v_list v_str)))
         (optional_field d [''credentials''] [] (v_list v_CredentialSummary)))
         (optional_field d [''profile''] None (v_optional v_ContactProfile)))
         (required_field d [''addedAt'', ''added_at''] v_str))
         (optional_field d [''lastSeen'', ''last_seen''] None (v_optional v_str))))"

record AddContactOutput =
  ac_shadowname :: string
  ac_trust_warning :: "(string \<times> string list) list option"

definition v_AddContactOutput :: "json \<Rightarrow> AddContactOutput fres" where
  "v_AddContactOutput = on_obj (\<lambda>d.
     no_extra d [[''shadowname''], [''trustWarning'', ''trust_warning'']]
       (fap (fap (FOk (\<lambda>n w. \<lparr>ac_shadowname = n, ac_trust_warning = w\<rparr>))
         (required_field d [''shadowname''] v_str))
         (optional_field d [''trustWarning'', ''trust_warning''] None (v_optional v_str_lists))))"

record GrantOutput =
  go_ok :: bool

definition v_GrantOutput :: "json \<Rightarrow> GrantOutput fres" where
  "v_GrantOutput = on_obj (\<lambda>d.
     no_extra d [[''ok'']] (fap (FOk (\<lambda>b. \<lparr>go_ok = b\<rparr>)) (optional_field d [''ok''] True v_true)))"

record SetContactProfileOutput =
  sco_ok :: bool

definition v_SetContactProfileOutput :: "json \<Rightarrow> SetContactProfileOutput fres" where
  "v_SetContactProfileOutput = on_obj (\<lambda>d.
     no_extra d [[''ok'']] (fap (FOk (\<lambda>b. \<lparr>sco_ok = b\<rparr>)) (optional_field d [''ok''] True v_true)))"

record SendOutput =
  so_message_id :: string
  so_context_id :: string
  so_status :: string
  so_error :: "string option"

definition v_SendOutput :: "json \<Rightarrow> SendOutput fres" where
  "v_SendOutput = on_obj (\<lambda>d.
     no_extra d [[''messageId'', ''message_id''], [''contextId'', ''context_id''], [''status''], [''error'']]
       (fap (fap (fap (fap (FOk (\<lambda>m c s e. \<lparr>so_message_id = m, so_context_id = c, so_status = s, so_error = e\<rparr>))
         (required_field d [''messageId'', ''message_id''] v_str))
         (required_field d [''contextId'', ''context_id''] v_str))
         (required_field d [''status''] (v_literal [''accepted'', ''rejected''])))
         (optional_field d [''error''] None (v_optional v_str))))"

record RespondOutput =
  rso_message_id :: string
  rso_status :: string
  rso_error :: "string option"

definition v_RespondOutput :: "json \<Rightarrow> RespondOutput fres" where
  "v_RespondOutput = on_obj (\<lambda>d.
     no_extra d [[''messageId'', ''message_id''], [''status''], [''error'']]
       (fap (fap (fap (FOk (\<lambda>m s e. \<lparr>rso_message_id = m, rso_status = s, rso_error = e\<rparr>))
         (required_field d [''messageId'', ''message_id''] v_str))
         (required_field d [''status''] (v_literal [''accepted'', ''rejected''])))
         (optional_field d [''error''] None (v_optional v_str))))"

record InboxItem =
  it_message_id :: string
  it_context_id :: string
  it_sender :: string
  it_received_at :: string
  it_status :: string
  it_body :: BodySlot
  it_extra :: obj

definition v_InboxItem :: "json \<Rightarrow> InboxItem fres" where
  "v_InboxItem = on_obj (\<lambda>d.
     fap (fap (fap (fap (fap (fap (FOk (\<lambda>m c f r s b.
         \<lparr>it_message_id = m, it_context_id = c, it_sender = f, it_received_at = r, it_status = s, it_body = b,
          it_extra = extra_members d [[''messageId'', ''message_id''], [''contextId'', ''context_id''],
            [''from'', ''sender''], [''receivedAt'', ''received_at''], [''status''], [''body'']]\<rparr>))
       (required_field d [''messageId'', ''message_id''] v_str))
       (required_field d [''contextId'', ''context_id''] v_str))
       (required_field d [''from'', ''sender''] v_str))
       (required_field d [''receivedAt'', ''received_at''] v_str))
       (required_field d [''status''] (v_literal [''inbox'', ''stranger_review''])))
       (required_field d [''body''] v_BodySlot))"

record InboxOutput =
  io_items :: "InboxItem list"
  io_next_since :: "string option"

definition v_InboxOutput :: "json \<Rightarrow> InboxOutput fres" where
  "v_InboxOutput = on_obj (\<lambda>d.
     no_extra d [[''items''], [''nextSince'', ''next_since'']]
       (fap (fap (FOk (\<lambda>i n. \<lparr>io_items = i, io_next_since = n\<rparr>))
         (optional_field d [''items''] [] (v_list v_InboxItem)))
         (optional_field d [''nextSince'', ''next_since''] None (v_optional v_str))))"

record InboxWaitOutput =
  wo_events :: "obj list"
  wo_next_event_id :: "string option"
  wo_extra :: obj

definition v_InboxWaitOutput :: "json \<Rightarrow> InboxWaitOutput fres" where
  "v_InboxWaitOutput = on_obj (\<lambda>d.
     fap (fap (FOk (\<lambda>e n. \<lparr>wo_events = e, wo_next_event_id = n,
                        wo_extra = extra_members d [[''events''], [''next_event_id'']]\<rparr>))
       (optional_field d [''events''] [] (v_list v_obj)))
       (optional_field d [''next_event_id''] None (v_optional v_str)))"

section \<open>Notifications\<close>

definition NOTIFICATION_NAMESPACE :: string where
  "NOTIFICATION_NAMESPACE = ''notifications/shadownet/''"

record InboxMessageEvent =
  me_event_id :: string
  me_message_id :: string
  me_context_id :: string
  me_sender :: string
  me_intent :: "string option"
  me_status :: string
  me_extra :: obj

definition v_InboxMessageEvent :: "json \<Rightarrow> InboxMessageEvent fres" where
  "v_InboxMessageEvent = on_obj (\<lambda>d.
     fap (fap (fap (fap (fap (fap (FOk (\<lambda>e m c f i s.
         \<lparr>me_event_id = e, me_message_id = m, me_context_id = c, me_sender = f, me_intent = i, me_status = s,
          me_extra = extra_members d [[''eventId'', ''event_id''], [''messageId'', ''message_id''],
            [''contextId'', ''context_id''], [''from'', ''sender''], [''intent''], [''status'']]\<rparr>))
       (required_field d [''eventId'', ''event_id''] v_str))
       (required_field d [''messageId'', ''message_id''] v_str))
       (required_field d [''contextId'', ''context_id''] v_str))
       (required_field d [''from'', ''sender''] v_str))
       (optional_field d [''intent''] None (v_optional v_str)))
       (required_field d [''status''] v_str))"

record TaskUpdateEvent =
  te_event_id :: string
  te_context_id :: string
  te_task_id :: string
  te_status :: string
  te_extra :: obj

definition v_TaskUpdateEvent :: "json \<Rightarrow> TaskUpdateEvent fres" where
  "v_TaskUpdateEvent = on_obj (\<lambda>d.
     fap (fap (fap (fap (FOk (\<lambda>e c t s.
         \<lparr>te_event_id = e, te_context_id = c, te_task_id = t, te_status = s,
          te_extra = extra_members d [[''eventId'', ''event_id''], [''contextId'', ''context_id''],
            [''taskId'', ''task_id''], [''status'']]\<rparr>))
       (required_field d [''eventId'', ''event_id''] v_str))
       (required_field d [''contextId'', ''context_id''] v_str))
       (required_field d [''taskId'', ''task_id''] v_str))
       (required_field d [''status''] v_str))"

record InboxWaitEvent =
  we_event_id :: string
  we_event :: string
  we_occurred_at :: int
  we_data :: obj
  we_extra :: obj

definition v_InboxWaitEvent :: "lib \<Rightarrow> json \<Rightarrow> InboxWaitEvent fres" where
  "v_InboxWaitEvent L = on_obj (\<lambda>d.
     fap (fap (fap (fap (FOk (\<lambda>i e oc a.
         \<lparr>we_event_id = i, we_event = e, we_occurred_at = oc, we_data = a,
          we_extra = extra_members d [[''eventId'', ''event_id''], [''event''], [''occurredAt'', ''occurred_at''],
            [''data'']]\<rparr>))
       (required_field d [''eventId'', ''event_id''] v_str))
       (required_field d [''event''] v_str))
       (required_field d [''occurredAt'', ''occurred_at''] (v_int L)))
       (required_field d [''data''] v_obj))"

section \<open>Coordination intents\<close>

definition COORDINATE_V1_URI :: string where
  "COORDINATE_V1_URI = ''urn:shadownet:intent:coordinate_v1''"

definition PROPOSE_PLAN_V1_URI :: string where
  "PROPOSE_PLAN_V1_URI = ''urn:shadownet:intent:propose_plan_v1''"

definition CONFIRM_PLAN_V1_URI :: string where
  "CONFIRM_PLAN_V1_URI = ''urn:shadownet:intent:confirm_plan_v1''"

definition ACCEPT_PLAN_V1_URI :: string where
  "ACCEPT_PLAN_V1_URI = ''urn:shadownet:intent:accept_plan_v1''"

text \<open>
  \<open>as_float\<close> is pydantic's conversion to \<open>float\<close>, whose value is the text that \<open>repr\<close> gives for it, as
  everywhere in this library; \<open>None\<close> when it refuses.
\<close>

definition v_float :: "(json \<Rightarrow> string option) \<Rightarrow> json \<Rightarrow> string fres" where
  "v_float as_float j = (case as_float j of Some t \<Rightarrow> FOk t | None \<Rightarrow> FErr)"

record GeoCoordinate =
  geo_lat :: string
  geo_lon :: string

definition v_GeoCoordinate :: "(json \<Rightarrow> string option) \<Rightarrow> json \<Rightarrow> GeoCoordinate fres" where
  "v_GeoCoordinate F = on_obj (\<lambda>d.
     no_extra d [[''lat''], [''lon'']]
       (fap (fap (FOk (\<lambda>a b. \<lparr>geo_lat = a, geo_lon = b\<rparr>))
         (required_field d [''lat''] (v_float F)))
         (required_field d [''lon''] (v_float F))))"

record PlanWhere =
  pw_city :: "string option"
  pw_type :: "string option"
  pw_address :: "string option"
  pw_name :: "string option"
  pw_geo :: "GeoCoordinate option"

definition v_PlanWhere :: "(json \<Rightarrow> string option) \<Rightarrow> json \<Rightarrow> PlanWhere fres" where
  "v_PlanWhere F = on_obj (\<lambda>d.
     no_extra d [[''city''], [''type''], [''address''], [''name''], [''geo'']]
       (fap (fap (fap (fap (fap (FOk (\<lambda>c t a n g.
           \<lparr>pw_city = c, pw_type = t, pw_address = a, pw_name = n, pw_geo = g\<rparr>))
         (optional_field d [''city''] None (v_optional v_str)))
         (optional_field d [''type''] None (v_optional v_str)))
         (optional_field d [''address''] None (v_optional v_str)))
         (optional_field d [''name''] None (v_optional v_str)))
         (optional_field d [''geo''] None (v_optional (v_GeoCoordinate F)))))"

text \<open>\<open>PlanObject\<close>, of which \<open>ProposePlanV1Data\<close> and \<open>ConfirmPlanV1Data\<close> are subclasses without fields of their own.\<close>

record PlanObject =
  po_activity :: string
  po_when :: string
  po_where :: PlanWhere
  po_participants :: "string list"
  po_notes :: "string option"

definition PlanWhere_default :: PlanWhere where
  "PlanWhere_default = \<lparr>pw_city = None, pw_type = None, pw_address = None, pw_name = None, pw_geo = None\<rparr>"

definition v_PlanObject :: "(json \<Rightarrow> string option) \<Rightarrow> json \<Rightarrow> PlanObject fres" where
  "v_PlanObject F = on_obj (\<lambda>d.
     no_extra d [[''activity''], [''when''], [''where''], [''participants''], [''notes'']]
       (fap (fap (fap (fap (fap (FOk (\<lambda>a w p q n.
           \<lparr>po_activity = a, po_when = w, po_where = p, po_participants = q, po_notes = n\<rparr>))
         (required_field d [''activity''] v_str))
         (required_field d [''when''] v_str))
         (optional_field d [''where''] PlanWhere_default (v_PlanWhere F)))
         (required_field d [''participants''] (v_list v_str)))
         (optional_field d [''notes''] None (v_optional v_str))))"

record CoordinateV1Data =
  cv_activity :: string
  cv_details :: "string option"

definition v_CoordinateV1Data :: "json \<Rightarrow> CoordinateV1Data fres" where
  "v_CoordinateV1Data = on_obj (\<lambda>d.
     no_extra d [[''activity''], [''details'']]
       (fap (fap (FOk (\<lambda>a t. \<lparr>cv_activity = a, cv_details = t\<rparr>))
         (required_field d [''activity''] v_str))
         (optional_field d [''details''] None (v_optional v_str))))"

text \<open>This model is not populated by name: only the alias is read.\<close>

record AcceptPlanV1Data =
  ap_accepts_message_id :: string

definition v_AcceptPlanV1Data :: "json \<Rightarrow> AcceptPlanV1Data fres" where
  "v_AcceptPlanV1Data = on_obj (\<lambda>d.
     no_extra d [[''acceptsMessageId'']]
       (fap (FOk (\<lambda>m. \<lparr>ap_accepts_message_id = m\<rparr>)) (required_field d [''acceptsMessageId''] v_str)))"

section \<open>The client\<close>

text \<open>
  What \<open>session.call_tool\<close> returns, as far as the client reads it: the error flag, the structured content
  (\<open>None\<close> when missing) and the texts of the content blocks (\<open>None\<close> for a block without text, and for
  content that is no list).
\<close>

record tool_result =
  isError :: bool
  structuredContent :: "json option"
  content_texts :: "string option list option"

type_synonym 's session = "string \<Rightarrow> obj \<Rightarrow> ('s, tool_result) task"

definition describe_error :: "tool_result \<Rightarrow> string" where
  "describe_error result =
     (case content_texts result of
        Some (Some t # _) \<Rightarrow> (if t \<noteq> [] then t else ''tool call failed (no further detail)'')
      | _ \<Rightarrow> ''tool call failed (no further detail)'')"

definition read_result :: "lib \<Rightarrow> string \<Rightarrow> string \<Rightarrow> (json \<Rightarrow> 'r fres) \<Rightarrow> tool_result \<Rightarrow> 'r res" where
  "read_result L name model v result =
     (if isError result then raise (Sdk ToolError) (describe_error result)
      else
      (case structuredContent result of
         None \<Rightarrow> raise (Sdk ToolError) (''tool '' @ repr name @ '' returned no structuredContent'')
       | Some structured \<Rightarrow>
           rewrap (validated L model structured (v structured)) (Lib ValidationError) (Sdk ToolError)
             (\<lambda>m. ''tool '' @ repr name @ '' returned malformed result: '' @ m)))"

definition call ::
  "lib \<Rightarrow> 's session \<Rightarrow> string \<Rightarrow> obj \<Rightarrow> string \<Rightarrow> (json \<Rightarrow> 'r fres) \<Rightarrow> ('s, 'r) task"
where
  "call L S name args model v = tbind (S name args) (\<lambda>result. Ret (read_result L name model v result))"

definition client_identity :: "lib \<Rightarrow> 's session \<Rightarrow> ('s, IdentityOutput) task" where
  "client_identity L S = call L S ''identity'' [] ''IdentityOutput'' v_IdentityOutput"

definition client_resolve :: "lib \<Rightarrow> 's session \<Rightarrow> ResolveInput \<Rightarrow> ('s, ResolveOutput) task" where
  "client_resolve L S a = call L S ''resolve'' (dump_ResolveInput a) ''ResolveOutput'' v_ResolveOutput"

definition client_contacts :: "lib \<Rightarrow> 's session \<Rightarrow> ContactsInput option \<Rightarrow> ('s, ContactsOutput) task" where
  "client_contacts L S a =
     call L S ''contacts'' (dump_ContactsInput (case a of Some x \<Rightarrow> x | None \<Rightarrow> ContactsInput_default))
       ''ContactsOutput'' v_ContactsOutput"

definition client_contact_detail :: "lib \<Rightarrow> 's session \<Rightarrow> ContactDetailInput \<Rightarrow> ('s, ContactDetailOutput) task" where
  "client_contact_detail L S a =
     call L S ''contact_detail'' (dump_ContactDetailInput a) ''ContactDetailOutput'' v_ContactDetailOutput"

definition client_add_contact :: "lib \<Rightarrow> 's session \<Rightarrow> AddContactInput \<Rightarrow> ('s, AddContactOutput) task" where
  "client_add_contact L S a =
     call L S ''add_contact'' (dump_AddContactInput a) ''AddContactOutput'' v_AddContactOutput"

definition client_grant :: "lib \<Rightarrow> 's session \<Rightarrow> GrantInput \<Rightarrow> ('s, GrantOutput) task" where
  "client_grant L S a = call L S ''grant'' (dump_GrantInput a) ''GrantOutput'' v_GrantOutput"

definition client_set_contact_profile ::
  "lib \<Rightarrow> 's session \<Rightarrow> SetContactProfileInput \<Rightarrow> ('s, SetContactProfileOutput) task"
where
  "client_set_contact_profile L S a =
     call L S ''set_contact_profile'' (dump_SetContactProfileInput a) ''SetContactProfileOutput''
       v_SetContactProfileOutput"

definition client_send :: "lib \<Rightarrow> 's session \<Rightarrow> SendInput \<Rightarrow> ('s, SendOutput) task" where
  "client_send L S a = call L S ''send'' (dump_SendInput a) ''SendOutput'' v_SendOutput"

definition client_respond :: "lib \<Rightarrow> 's session \<Rightarrow> RespondInput \<Rightarrow> ('s, RespondOutput) task" where
  "client_respond L S a = call L S ''respond'' (dump_RespondInput a) ''RespondOutput'' v_RespondOutput"

definition client_inbox :: "lib \<Rightarrow> 's session \<Rightarrow> InboxInput option \<Rightarrow> ('s, InboxOutput) task" where
  "client_inbox L S a =
     call L S ''inbox'' (dump_InboxInput (case a of Some x \<Rightarrow> x | None \<Rightarrow> InboxInput_default))
       ''InboxOutput'' v_InboxOutput"

definition client_inbox_wait :: "lib \<Rightarrow> 's session \<Rightarrow> InboxWaitInput option \<Rightarrow> ('s, InboxWaitOutput) task" where
  "client_inbox_wait L S a =
     call L S ''inbox_wait'' (dump_InboxWaitInput (case a of Some x \<Rightarrow> x | None \<Rightarrow> InboxWaitInput_default))
       ''InboxWaitOutput'' v_InboxWaitOutput"

section \<open>Calls and their outcomes\<close>

text \<open>A model without validator functions collects its errors and lets nothing through.\<close>

definition collects :: "(json \<Rightarrow> 'a fres) \<Rightarrow> bool" where
  "collects v = (\<forall>j e. v j \<noteq> FRaise e)"

lemma collects_field:
  "(\<And>j e. f j \<noteq> FRaise e) \<Longrightarrow> required_field d ks f \<noteq> FRaise e"
  "(\<And>j e. f j \<noteq> FRaise e) \<Longrightarrow> optional_field d ks x f \<noteq> FRaise e"
  by (auto dest: required_field_FRaise optional_field_FRaise)

lemma collects_optional: "(\<And>j e. f j \<noteq> FRaise e) \<Longrightarrow> v_optional f j \<noteq> FRaise e"
  by (auto simp: v_optional_def dest: fap_FRaise)

lemma collects_list: "(\<And>j e. f j \<noteq> FRaise e) \<Longrightarrow> v_list f j \<noteq> FRaise e"
  by (cases j) (auto simp: v_all_no_raise)

lemma collects_members: "(\<And>j e. f j \<noteq> FRaise e) \<Longrightarrow> v_members f ms \<noteq> FRaise e"
  by (induction f ms rule: v_members.induct) (auto dest!: fap_FRaise)

lemma collects_obj: "(\<And>d. f d \<noteq> FRaise e) \<Longrightarrow> on_obj f j \<noteq> FRaise e"
  by (cases j) (auto simp: on_obj_def)

lemma collects_no_extra: "r \<noteq> FRaise e \<Longrightarrow> no_extra d fs r \<noteq> FRaise e"
  by (simp add: no_extra_def)

lemma collects_fap: "r \<noteq> FRaise e \<Longrightarrow> q \<noteq> FRaise e \<Longrightarrow> fap r q \<noteq> FRaise e"
  by (auto dest: fap_FRaise)

lemma collects_literal: "v_literal xs j \<noteq> FRaise e" "v_true j \<noteq> FRaise e" "FOk x \<noteq> FRaise e"
  by (simp_all add: v_literal_def v_true_def constrain_FRaise)

lemma collects_constrained: "v j \<noteq> FRaise e \<Longrightarrow> constrain p (v j) \<noteq> FRaise e"
  by (simp add: constrain_FRaise)

lemmas collects_rules = collects_obj collects_no_extra collects_fap collects_field collects_optional
  collects_list collects_members collects_literal collects_constrained v_no_raise

lemma collects_models:
  "collects v_BodySlot" "collects v_ContactProfile" "collects v_CredentialSummary" "collects v_ContactSummary"
  "collects v_str_lists"
  unfolding collects_def v_BodySlot_def v_ContactProfile_def v_CredentialSummary_def v_ContactSummary_def v_str_lists_def
  by (intro allI collects_rules)+

lemmas collects_modelsD = collects_models [unfolded collects_def, rule_format]

lemma collects_item: "v_InboxItem j \<noteq> FRaise e"
  unfolding v_InboxItem_def by (intro collects_rules collects_modelsD)

lemma collects_outputs:
  "collects v_IdentityOutput" "collects v_ResolveOutput" "collects v_ContactsOutput" "collects v_ContactDetailOutput"
  "collects v_AddContactOutput" "collects v_GrantOutput" "collects v_SetContactProfileOutput" "collects v_SendOutput"
  "collects v_RespondOutput" "collects v_InboxOutput" "collects v_InboxWaitOutput"
  unfolding collects_def v_IdentityOutput_def v_ResolveOutput_def v_ContactsOutput_def v_ContactDetailOutput_def
    v_AddContactOutput_def v_GrantOutput_def v_SetContactProfileOutput_def v_SendOutput_def v_RespondOutput_def
    v_InboxOutput_def v_InboxWaitOutput_def
  by (intro allI collects_rules collects_modelsD collects_item)+

lemma read_result_Inr_iff:
  "read_result L name model v result = Inr out \<longleftrightarrow>
     \<not> isError result \<and> (\<exists>j. structuredContent result = Some j \<and> v j = FOk out)"
  by (auto simp: read_result_def rewrap_Inr_iff validated_Inr_iff split: option.splits)

lemma read_result_error:
  "collects v \<Longrightarrow> read_result L name model v result = Inl e \<Longrightarrow> cls e = Sdk ToolError"
  by (auto simp: read_result_def raise_Inl_iff rewrap_Inl_iff validated_Inl_iff collects_def is_a_def
      split: option.splits if_splits)

lemma run_call: "run (call L S name args model v) = sbind (run (S name args)) (\<lambda>p. sres (read_result L name model v p))"
  by (simp add: call_def run_tbind run_Ret)

text \<open>
  What a tool call comes to: if the session answers, the call returns a value exactly when the
  answer is no error and its structured content is an instance of the output model, and raises
  \<open>ToolError\<close> otherwise; if the session raises, that exception is the outcome. Stated for every output
  model of the client, whose tools differ only in name, argument and model.
\<close>

theorem call_outcome:
  assumes v: "collects v" and s: "run (S name args) s = (q, s')"
  shows "\<exists>r. run (call L S name args model v) s = (r, s') \<and>
    (case q of
       Inl e \<Rightarrow> r = Inl e
     | Inr result \<Rightarrow>
         (\<forall>out. r = Inr out \<longleftrightarrow> \<not> isError result \<and> (\<exists>j. structuredContent result = Some j \<and> v j = FOk out))
         \<and> (\<forall>e. r = Inl e \<longrightarrow> cls e = Sdk ToolError))"
  using s by (cases q) (auto simp: run_call sbind_def sthen_def sres_def read_result_Inr_iff dest: read_result_error [OF v])

theorem call_outcome_witness:
  "run (client_grant toy_lib (\<lambda>_ _. Ret (Inr \<lparr>isError = False, structuredContent = Some (JObj [(''ok'', JBool True)]),
       content_texts = None\<rparr>)) \<lparr>gi_name = ''bob'', gi_grant = ''messaging'', gi_allowed = True\<rparr>) ()
     = (Inr \<lparr>go_ok = True\<rparr>, ())"
proof -
  let ?p = "\<lparr>isError = False, structuredContent = Some (JObj [(''ok'', JBool True)]), content_texts = None\<rparr>"
  let ?S = "\<lambda>_ _. Ret (Inr ?p) :: (unit, tool_result) task"
  let ?a = "\<lparr>gi_name = ''bob'', gi_grant = ''messaging'', gi_allowed = True\<rparr>"
  have q: "run (?S ''grant'' (dump_GrantInput ?a)) () = (Inr ?p, ())"
    by (simp add: run_Ret sres_def)
  have "v_GrantOutput (JObj [(''ok'', JBool True)]) = FOk \<lparr>go_ok = True\<rparr>"
    by code_simp
  then have "r = Inr \<lparr>go_ok = True\<rparr>"
    if "\<forall>out. r = Inr out \<longleftrightarrow> \<not> isError ?p \<and> (\<exists>j. structuredContent ?p = Some j \<and> v_GrantOutput j = FOk out)" for r
    using that by simp
  then show ?thesis
    using call_outcome [where S = ?S and name = "''grant''" and args = "dump_GrantInput ?a",
        OF collects_outputs(6) q, of toy_lib "''GrantOutput''"]
    unfolding client_grant_def by auto
qed

text \<open>
  What a caller may expect of the method of a tool, for the tool's name, the argument on the wire and the output model: it calls this tool
  with this argument and does nothing else, so that it leaves the state in which that one call leaves it; an exception of the session is its
  outcome; it returns a value exactly when the answer is no error and its structured content is an instance of the model, which is then
  the value; every other answer is a \<open>ToolError\<close>, which carries the server's own text when the answer is an error with one.
\<close>

definition tool_contract :: "'s session \<Rightarrow> string \<Rightarrow> obj \<Rightarrow> (json \<Rightarrow> 'r fres) \<Rightarrow> ('s, 'r) task \<Rightarrow> bool" where
  "tool_contract S name args v method =
     (\<forall>s q s'. run (S name args) s = (q, s') \<longrightarrow>
       (case q of
          Inl e \<Rightarrow> run method s = (Inl e, s')
        | Inr result \<Rightarrow>
            (if isError result
             then \<exists>m. run method s = (Inl (Exn (Sdk ToolError) m), s')
                    \<and> (\<forall>t ts. content_texts result = Some (Some t # ts) \<and> t \<noteq> [] \<longrightarrow> m = t)
             else
             (case structuredContent result of
                None \<Rightarrow> \<exists>m. run method s = (Inl (Exn (Sdk ToolError) m), s')
              | Some j \<Rightarrow>
                  (case v j of
                     FOk out \<Rightarrow> run method s = (Inr out, s')
                   | _ \<Rightarrow> \<exists>m. run method s = (Inl (Exn (Sdk ToolError) m), s'))))))"

lemma tool_contract_call: "collects v \<Longrightarrow> tool_contract S name args v (call L S name args model v)"
  by (auto simp: tool_contract_def run_call sbind_def sthen_def sres_def read_result_def describe_error_def raise_def collects_def
      validated_def rewrap_def try_except_def is_a_def split: sum.split option.split fres.split)

text \<open>
  C26: each of the eleven methods of the typed client keeps this contract for the tool of its name. It calls that tool once, with the
  members of its argument (an empty object for \<open>identity\<close>, the defaults where an optional argument is left out), and reads the answer with the model
  that it promises to return.
\<close>

theorem typed_client_calls:
  "tool_contract S ''identity'' [] v_IdentityOutput (client_identity L S)
   \<and> tool_contract S ''resolve'' (dump_ResolveInput a1) v_ResolveOutput (client_resolve L S a1)
   \<and> tool_contract S ''contacts'' (dump_ContactsInput a2) v_ContactsOutput (client_contacts L S (Some a2))
   \<and> tool_contract S ''contacts'' (dump_ContactsInput ContactsInput_default) v_ContactsOutput (client_contacts L S None)
   \<and> tool_contract S ''contact_detail'' (dump_ContactDetailInput a3) v_ContactDetailOutput (client_contact_detail L S a3)
   \<and> tool_contract S ''add_contact'' (dump_AddContactInput a4) v_AddContactOutput (client_add_contact L S a4)
   \<and> tool_contract S ''grant'' (dump_GrantInput a5) v_GrantOutput (client_grant L S a5)
   \<and> tool_contract S ''set_contact_profile'' (dump_SetContactProfileInput a6) v_SetContactProfileOutput (client_set_contact_profile L S a6)
   \<and> tool_contract S ''send'' (dump_SendInput a7) v_SendOutput (client_send L S a7)
   \<and> tool_contract S ''respond'' (dump_RespondInput a8) v_RespondOutput (client_respond L S a8)
   \<and> tool_contract S ''inbox'' (dump_InboxInput a9) v_InboxOutput (client_inbox L S (Some a9))
   \<and> tool_contract S ''inbox'' (dump_InboxInput InboxInput_default) v_InboxOutput (client_inbox L S None)
   \<and> tool_contract S ''inbox_wait'' (dump_InboxWaitInput a10) v_InboxWaitOutput (client_inbox_wait L S (Some a10))
   \<and> tool_contract S ''inbox_wait'' (dump_InboxWaitInput InboxWaitInput_default) v_InboxWaitOutput (client_inbox_wait L S None)"
  by (simp add: client_identity_def client_resolve_def client_contacts_def client_contact_detail_def client_add_contact_def
      client_grant_def client_set_contact_profile_def client_send_def client_respond_def client_inbox_def client_inbox_wait_def
      tool_contract_call collects_outputs)

section \<open>What the models guarantee\<close>

definition profile_ok :: "ContactProfile \<Rightarrow> bool" where
  "profile_ok p =
     ((\<forall>n. prof_notes p = Some n \<longrightarrow> length n \<le> NOTES_MAX_LENGTH)
      \<and> (\<forall>q. prof_priority p = Some q \<longrightarrow> q \<in> {''low'', ''normal'', ''high''}))"

lemma v_optional_FOk_iff [res_simps]:
  "v_optional f j = FOk r \<longleftrightarrow> (if j = JNull then r = None else (\<exists>x. f j = FOk x \<and> r = Some x))"
  by (auto simp: v_optional_def fap_FOk_iff)

lemma v_literal_FOk_iff [res_simps]: "v_literal xs j = FOk s \<longleftrightarrow> j = JStr s \<and> s \<in> set xs"
  by (auto simp: v_literal_def constrain_FOk_iff v_str_FOk_iff)

lemma on_obj_FOk_iff [res_simps]: "on_obj f j = FOk x \<longleftrightarrow> (\<exists>d. j = JObj d \<and> f d = FOk x)"
  by (cases j) (auto simp: on_obj_def)

lemma no_extra_FOk_iff [res_simps]: "no_extra d fs r = FOk x \<longleftrightarrow> extra_members d fs = [] \<and> r = FOk x"
  by (auto simp: no_extra_def)

lemma optional_field_FOk: "optional_field d ks x f = FOk y \<Longrightarrow> y = x \<or> (\<exists>j. f j = FOk y)"
  by (auto simp: optional_field_def split: option.splits)

lemma required_field_FOk: "required_field d ks f = FOk y \<Longrightarrow> \<exists>j. f j = FOk y"
  by (auto simp: required_field_def split: option.splits)

lemma optional_None: "optional_field d ks None (v_optional f) = FOk (Some y) \<Longrightarrow> \<exists>j. f j = FOk y"
  by (auto simp: v_optional_FOk_iff split: if_splits dest!: optional_field_FOk)

lemma v_ContactProfile_ok: "v_ContactProfile j = FOk p \<Longrightarrow> profile_ok p"
  unfolding v_ContactProfile_def profile_ok_def
  by (auto simp: on_obj_FOk_iff no_extra_FOk_iff fap_FOk_iff dest!: optional_None
      simp: constrain_FOk_iff v_literal_FOk_iff)

lemma v_SendOutput_status: "v_SendOutput j = FOk out \<Longrightarrow> so_status out \<in> {''accepted'', ''rejected''}"
  unfolding v_SendOutput_def
  by (auto simp: on_obj_FOk_iff no_extra_FOk_iff fap_FOk_iff v_literal_FOk_iff dest!: required_field_FOk)

lemma v_RespondOutput_status: "v_RespondOutput j = FOk out \<Longrightarrow> rso_status out \<in> {''accepted'', ''rejected''}"
  unfolding v_RespondOutput_def
  by (auto simp: on_obj_FOk_iff no_extra_FOk_iff fap_FOk_iff v_literal_FOk_iff dest!: required_field_FOk)

lemma v_InboxItem_status: "v_InboxItem j = FOk it \<Longrightarrow> it_status it \<in> {''inbox'', ''stranger_review''}"
  unfolding v_InboxItem_def
  by (auto simp: on_obj_FOk_iff fap_FOk_iff v_literal_FOk_iff dest!: required_field_FOk [where f = "v_literal _"])

lemma v_list_FOk: "v_list f j = FOk xs \<Longrightarrow> x \<in> set xs \<Longrightarrow> \<exists>i. f i = FOk x"
  by (cases j) (auto simp: v_all_FOk_iff list_all2_conv_all_nth in_set_conv_nth)

lemma v_InboxOutput_status:
  "v_InboxOutput j = FOk out \<Longrightarrow> it \<in> set (io_items out) \<Longrightarrow> it_status it \<in> {''inbox'', ''stranger_review''}"
  unfolding v_InboxOutput_def
  by (auto simp: on_obj_FOk_iff no_extra_FOk_iff fap_FOk_iff dest!: optional_field_FOk [where f = "v_list _"] v_list_FOk
      dest: v_InboxItem_status)

lemma v_ContactDetailOutput_profile:
  "v_ContactDetailOutput j = FOk out \<Longrightarrow> cd_profile out = Some p \<Longrightarrow> profile_ok p"
  unfolding v_ContactDetailOutput_def
  by (auto simp: on_obj_FOk_iff no_extra_FOk_iff fap_FOk_iff dest!: optional_None [where f = v_ContactProfile]
      dest: v_ContactProfile_ok)

lemma run_call_Inr: "run (call L S name args model v) s = (Inr out, s') \<Longrightarrow> \<exists>j. v j = FOk out"
  by (auto simp: run_call sbind_Inr_iff sres_Inr_iff read_result_Inr_iff)


definition ex_body :: BodySlot where
  "ex_body = \<lparr>body_text = Some ''hi'', body_intent = None, body_data = Some [(''n'', JNull)], body_extra = [(''x'', JInt 1)]\<rparr>"

definition ex_send :: SendInput where
  "ex_send = \<lparr>si_to = ''bob@b.example'', si_body = ex_body, si_context_id = None\<rparr>"

definition ex_sent :: SendOutput where
  "ex_sent = \<lparr>so_message_id = ''m1'', so_context_id = ''c1'', so_status = ''accepted'', so_error = None\<rparr>"

definition ex_session :: "unit session" where
  "ex_session name args =
     Ret (Inr \<lparr>isError = False, structuredContent = Some (JObj
       [(''messageId'', JStr ''m1''), (''contextId'', JStr ''c1''), (''status'', JStr ''accepted'')]), content_texts = None\<rparr>)"


section \<open>Values on the wire\<close>

lemma v_all_strs [simp]: "v_all v_str (map JStr ss) = FOk ss"
  by (induction ss) simp_all

lemmas wire_simps = on_obj_def no_extra_def extra_members_def matched_key_def map_filter_simps
  optional_field_def required_field_def v_optional_def opt_field_def str_list_def v_literal_def constrain_def

text \<open>
  A contact profile that is set through the client and read back by another one is the same
  profile, and exactly the profiles that keep the limits (notes of at most 4096 characters, a known
  priority) come back at all.
\<close>

theorem profile_wire_iff: "v_ContactProfile (dump_ContactProfile p) = FOk p \<longleftrightarrow> profile_ok p"
proof
  assume "v_ContactProfile (dump_ContactProfile p) = FOk p"
  then show "profile_ok p" by (rule v_ContactProfile_ok)
next
  assume "profile_ok p"
  then show "v_ContactProfile (dump_ContactProfile p) = FOk p"
    by (cases "prof_notes p"; cases "prof_priority p"; cases "prof_expires_at p")
      (auto simp: v_ContactProfile_def dump_ContactProfile_def profile_ok_def wire_simps)
qed

text \<open>Bodies whose further members do not hide a field; a member that is \<open>None\<close> would not be sent.\<close>

definition body_ok :: "BodySlot \<Rightarrow> bool" where
  "body_ok b =
     (\<forall>(k, v)\<in>set (body_extra b). k \<notin> {''text'', ''intent'', ''data''} \<and> v \<noteq> JNull)"

lemma body_wire:
  assumes "body_ok b"
  shows "v_BodySlot (dump_BodySlot b) = FOk b"
proof -
  have keep: "filter (\<lambda>(k, v). v \<noteq> JNull) (body_extra b) = body_extra b"
    using assms by (intro filter_True) (auto simp: body_ok_def)
  have none: "dict_get (body_extra b) k = None" if "k \<in> {''text'', ''intent'', ''data''}" for k
    using assms that by (auto simp: body_ok_def map_of_eq_None_iff)
  have read: "v_BodySlot (dump_BodySlot b) =
      FOk (b\<lparr>body_extra := filter (\<lambda>(k, v). k \<notin> set (List.map_filter
        (matched_key (opt_field ''text'' JStr (body_text b) @ opt_field ''intent'' JStr (body_intent b)
           @ opt_field ''data'' JObj (body_data b) @ body_extra b)) BodySlot_fields)) (body_extra b)\<rparr>)"
    by (cases "body_text b"; cases "body_intent b"; cases "body_data b")
      (simp_all add: v_BodySlot_def dump_BodySlot_def BodySlot_fields_def wire_simps keep none)
  have "filter (\<lambda>(k, v). k \<notin> set (List.map_filter (matched_key d) BodySlot_fields)) (body_extra b) = body_extra b" for d
    using assms
    by (intro filter_True)
      (auto simp: body_ok_def BodySlot_fields_def map_filter_def matched_key_single split: if_splits)
  then show ?thesis unfolding read by simp
qed

text \<open>
  The body that \<open>send\<close> and \<open>respond\<close> put on the wire is the body the caller gave: the argument of the
  tool holds a \<open>body\<close> that the model of a body reads back unchanged, text, intent, data and further
  members included.
\<close>

theorem sent_body_read_back:
  assumes "body_ok (si_body a)" "body_ok (rsi_body b)"
  shows "(\<exists>j. dict_get (dump_SendInput a) ''body'' = Some j \<and> v_BodySlot j = FOk (si_body a))
    \<and> (\<exists>j. dict_get (dump_RespondInput b) ''body'' = Some j \<and> v_BodySlot j = FOk (rsi_body b))"
  using assms by (simp add: dump_SendInput_def dump_RespondInput_def body_wire)

theorem sent_body_read_back_witness:
  "\<exists>j. dict_get (dump_SendInput ex_send) ''body'' = Some j \<and> v_BodySlot j = FOk ex_body"
proof -
  have "body_ok ex_body" by (simp add: body_ok_def ex_body_def)
  then show ?thesis
    using sent_body_read_back [of ex_send "\<lparr>rsi_context_id = ''c'', rsi_body = ex_body\<rparr>"]
    by (simp add: ex_send_def)
qed

end
