(* ===== verification/Plugin_Base.thy ===== *)
theory Plugin_Base
  imports Onboarding Mcp
begin

text \<open>
  What the plug-ins for host agents share: the process environment, the reading of loosely typed
  events, the printing of JSON and the cursor of the inbox loop.
\<close>

text \<open>\<open>os.environ\<close>.\<close>

type_synonym environ = "string \<Rightarrow> string option"

text \<open>\<open>d.get(k) or dflt\<close>.\<close>

definition get_or_else :: "obj \<Rightarrow> string \<Rightarrow> json \<Rightarrow> json" where
  "get_or_else d k dflt = (case dict_get d k of Some v \<Rightarrow> (if truthy v then v else dflt) | None \<Rightarrow> dflt)"

text \<open>\<open>result.next_event_id or last_event_id\<close>.\<close>

definition next_cursor :: "string option \<Rightarrow> string option \<Rightarrow> string option" where
  "next_cursor nxt cursor = (case nxt of Some (c # cs) \<Rightarrow> Some (c # cs) | _ \<Rightarrow> cursor)"

text \<open>
  \<open>json.dumps(..., ensure_ascii=False)\<close> with the default separators, as code points: inside a string only
  the quote, the backslash and the control characters are escaped.
\<close>

definition dumps_cp :: "nat \<Rightarrow> ustr" where
  "dumps_cp cp =
     (if cp = 34 \<or> cp = 92 then [92, cp]
      else if cp = 8 then u (CHR 0x5C # ''b'')
      else if cp = 9 then u (CHR 0x5C # ''t'')
      else if cp = 10 then u (CHR 0x5C # ''n'')
      else if cp = 12 then u (CHR 0x5C # ''f'')
      else if cp = 13 then u (CHR 0x5C # ''r'')
      else if cp < 32 then u (CHR 0x5C # ''u'' @ hex_digits 4 cp)
      else [cp])"

definition dumps_str :: "ustr \<Rightarrow> ustr" where
  "dumps_str s = [34] @ concat (map dumps_cp s) @ [34]"

fun dumps :: "json \<Rightarrow> ustr" where
  "dumps JNull = u ''null''"
| "dumps (JBool b) = (if b then u ''true'' else u ''false'')"
| "dumps (JInt i) = u (int_str i)"
| "dumps (JFloat t) = u t"
| "dumps (JStr s) = dumps_str (u s)"
| "dumps (JList vs) = u ''['' @ join_with (u '', '') (map dumps vs) @ u '']''"
| "dumps (JObj ms) =
     u ''{'' @ join_with (u '', '') (map (\<lambda>(k, v). dumps_str (u k) @ u '': '' @ dumps v) ms) @ u ''}''"

definition nl :: ustr where "nl = [10]"

text \<open>\<open>json.dumps(v, indent=2)\<close>; \<open>n\<close> is the depth of \<open>v\<close>.\<close>

definition new_line :: "nat \<Rightarrow> ustr" where
  "new_line n = nl @ replicate (2 * n) 32"

fun dumps_indent :: "nat \<Rightarrow> json \<Rightarrow> ustr" where
  "dumps_indent n (JList vs) =
     (if vs = [] then u ''[]''
      else u ''['' @ new_line (Suc n) @ join_with (u '','' @ new_line (Suc n)) (map (dumps_indent (Suc n)) vs)
           @ new_line n @ u '']'')"
| "dumps_indent n (JObj ms) =
     (if ms = [] then u ''{}''
      else u ''{'' @ new_line (Suc n)
           @ join_with (u '','' @ new_line (Suc n))
               (map (\<lambda>(k, v). u (json_quote k) @ u '': '' @ dumps_indent (Suc n) v) ms)
           @ new_line n @ u ''}'')"
| "dumps_indent n v = u (json_dumps v)"

end
