(* ===== verification/Claude_Monitor.thy ===== *)
theory Claude_Monitor
  imports Plugin_Base
begin

text \<open>
  The inbound monitor of the Claude Code plug-in, from
  \<open>integrations/plugins/claude-code/monitors/inbound.py\<close>: configuration from the environment, the
  long-poll loop over the sidecar's inbox, one JSON line on standard output per message and one desktop
  notification. Shown here: what the loop prints and which cursor it polls with, for every sequence of
  answers and failures of the sidecar; that a line is one line; that the notification's text cannot
  leave its AppleScript literal, and that it can leave it on Windows; and what switches the monitor off.
\<close>

section \<open>Configuration\<close>

definition KEYRING_SERVICE :: string where
  "KEYRING_SERVICE = ''shadownet-claude-code-plugin''"

text \<open>\<open>os.environ.get(name)\<close>, skipping empty values.\<close>

fun env_first :: "environ \<Rightarrow> string list \<Rightarrow> string \<Rightarrow> string" where
  "env_first env [] dflt = dflt"
| "env_first env (name # rest) dflt =
     (case env name of
        Some v \<Rightarrow> (if v \<noteq> [] then v else env_first env rest dflt)
      | None \<Rightarrow> env_first env rest dflt)"

text \<open>\<open>keyring.get_password\<close> of the optional module \<open>keyring\<close>, over the state in which its entries live.\<close>

type_synonym 's get_password = "string \<Rightarrow> ustr \<Rightarrow> ('s, ustr option) st"

definition cached_access_token :: "'s get_password option \<Rightarrow> ustr \<Rightarrow> ('s, ustr option) st" where
  "cached_access_token keyring hcode =
     (case keyring of
        None \<Rightarrow> sret None
      | Some get_password \<Rightarrow>
          sthen (get_password KEYRING_SERVICE hcode) (\<lambda>r. case r of Inl _ \<Rightarrow> sret None | Inr t \<Rightarrow> sret t))"

definition config_error :: "string \<Rightarrow> ('s, 'a) st" where
  "config_error m = sraise (Builtin RuntimeError) m"

text \<open>The endpoint and the token, from the connect URL or from their own variables.\<close>

definition monitor_credentials :: "environ \<Rightarrow> 's get_password option \<Rightarrow> ('s, ustr \<times> ustr) st" where
  "monitor_credentials env keyring =
     (let connect_url = env_first env [''CLAUDE_PLUGIN_OPTION_CONNECT_URL'', ''SHADOWNET_CONNECT_URL''] '''' in
      if connect_url \<noteq> [] then
        sbind (sres (parse_connect_uri connect_url)) (\<lambda>parsed.
          (case access_token parsed of
             Some token \<Rightarrow> sret (mcp_endpoint parsed, token)
           | None \<Rightarrow>
               (case handoff_code parsed of
                  None \<Rightarrow> sraise (Builtin AssertionError) ''''
                | Some hcode \<Rightarrow>
                    sbind (cached_access_token keyring hcode) (\<lambda>cached.
                      (case cached of
                         Some (c # cs) \<Rightarrow> sret (mcp_endpoint parsed, c # cs)
                       | _ \<Rightarrow> config_error
                           (''Handoff URI present but no cached access token. Open Claude ''
                             @ ''Code once (which spawns the MCP proxy) so the handoff is ''
                             @ ''redeemed and cached, then this monitor can read the token.''))))))
      else sret (u (env_first env [''SHADOWNET_MCP_ENDPOINT''] ''''), u (env_first env [''SHADOWNET_TOKEN''] '''')))"

definition resolve_endpoint_and_token ::
  "environ \<Rightarrow> 's get_password option \<Rightarrow> ('s, ustr \<times> ustr \<times> int \<times> bool) st"
where
  "resolve_endpoint_and_token env keyring =
     sbind (monitor_credentials env keyring) (\<lambda>(endpt, token).
     if token = []
     then config_error
            (''No access token. Paste a shadow:// connect URL into the plugin''
              @ CHR 0x27 # ''s ''
              @ CHR 0x60 # ''connect_url'' @ CHR 0x60 # '' prompt at install time, or export ''
              @ ''SHADOWNET_CONNECT_URL / (SHADOWNET_TOKEN + SHADOWNET_MCP_ENDPOINT) ''
              @ ''in your shell. Mint a connect URL at https://<your-sidecar>/connect/claude-code.'')
     else if endpt = []
     then config_error
            (''No MCP endpoint resolved. Set SHADOWNET_MCP_ENDPOINT or use a ''
              @ ''SHADOWNET_CONNECT_URL that carries the mcp= parameter.'')
     else
       (case int_of_str (env_first env [''SHADOWNET_LONG_POLL_TIMEOUT''] ''30'') of
          None \<Rightarrow> config_error ''SHADOWNET_LONG_POLL_TIMEOUT must be an integer''
        | Some n \<Rightarrow>
            sret (endpt, token, max 1 n, env_first env [''SHADOWNET_OS_NOTIFICATIONS''] ''1'' = ''1'')))"

definition FALSY_OVERRIDES :: "string list" where
  "FALSY_OVERRIDES = [''0'', ''false'', ''no'', ''off'']"

definition inbound_enabled :: "environ \<Rightarrow> bool" where
  "inbound_enabled env =
     (\<forall>var\<in>set [''CLAUDE_PLUGIN_OPTION_INBOUND_ENABLED'', ''SHADOWNET_INBOUND''].
        lower (strip (case env var of Some v \<Rightarrow> v | None \<Rightarrow> '''')) \<notin> set FALSY_OVERRIDES)"

section \<open>Notifications\<close>

text \<open>
  \<open>_truncate(text, limit)\<close> on whatever the event carries: only a value with a length is accepted, and only a
  string can be cut, to the limit with an ellipsis (U+2026) as its last character.
\<close>

definition truncate_text :: "ustr \<Rightarrow> nat \<Rightarrow> ustr" where
  "truncate_text s limit = (if length s \<le> limit then s else take (limit - 1) s @ [0x2026])"

fun truncate_json :: "json \<Rightarrow> nat \<Rightarrow> ustr res" where
  "truncate_json (JStr s) limit = Inr (dumps_str (truncate_text (u s) limit))"
| "truncate_json (JList vs) limit =
     (if length vs \<le> limit then Inr (dumps (JList vs)) else raise (Builtin TypeError) '''')"
| "truncate_json (JObj ms) limit =
     (if length ms \<le> limit then Inr (dumps (JObj ms)) else raise (Builtin KeyError) '''')"
| "truncate_json _ limit = raise (Builtin TypeError) ''''"

definition notification_line :: "json \<Rightarrow> json \<Rightarrow> json \<Rightarrow> ustr res" where
  "notification_line event_id sender body =
     bind (truncate_json body 200) (\<lambda>summary.
       Inr (u ''{'' @ dumps_str (u ''type'') @ u '': '' @ dumps_str (u ''shadownet.inbox.message'')
            @ u '', '' @ dumps_str (u ''event_id'') @ u '': '' @ dumps event_id
            @ u '', '' @ dumps_str (u ''from'') @ u '': '' @ dumps sender
            @ u '', '' @ dumps_str (u ''summary'') @ u '': '' @ summary @ u ''}''))"

text \<open>\<open>s.replace(c, r)\<close> for one character.\<close>

definition replace_cp :: "nat \<Rightarrow> ustr \<Rightarrow> ustr \<Rightarrow> ustr" where
  "replace_cp c r s = concat (map (\<lambda>x. if x = c then r else [x]) s)"

definition escape_for_applescript :: "ustr \<Rightarrow> ustr" where
  "escape_for_applescript s = replace_cp 34 [92, 34] (replace_cp 92 [92, 92] s)"

definition escape_for_powershell :: "ustr \<Rightarrow> ustr" where
  "escape_for_powershell s = replace_cp 34 [96, 34] (replace_cp 96 [96, 96] s)"

text \<open>
  The command that \<open>_fire_os_notification\<close> starts, if any: \<open>platform\<close> is \<open>sys.platform\<close> and \<open>which\<close> tells whether
  a program is found. A summary that is no string makes every branch fail, which is caught.
\<close>

definition quoted_by :: "(ustr \<Rightarrow> ustr) \<Rightarrow> ustr \<Rightarrow> ustr" where
  "quoted_by esc s = [34] @ esc s @ [34]"

definition powershell_script :: "ustr \<Rightarrow> ustr \<Rightarrow> ustr" where
  "powershell_script title summary =
     u ''[Windows.UI.Notifications.ToastNotificationManager,Windows.UI.Notifications,''
       @ u ''ContentType=WindowsRuntime] > $null; ''
       @ u ''$title = '' @ quoted_by escape_for_powershell title @ u ''; ''
       @ u ''$body = '' @ quoted_by escape_for_powershell summary @ u ''; ''
       @ u ''Write-Host '' @ [34] @ u ''$title : $body'' @ [34]"

definition os_command :: "string \<Rightarrow> (string \<Rightarrow> bool) \<Rightarrow> json \<Rightarrow> json \<Rightarrow> ustr list option" where
  "os_command platform which sender body =
     (let title = u ''Shadownet '' @ [0x2014] @ u '' message from '' @ u (str_json sender) in
      (case body of
         JStr b \<Rightarrow>
           (let summary = truncate_text (u b) 200 in
            if platform = ''darwin'' \<and> which ''osascript''
            then Some [u ''osascript'', u ''-e'',
                   u ''display notification '' @ quoted_by escape_for_applescript summary
                     @ u '' with title '' @ quoted_by escape_for_applescript title]
            else if prefix ''linux'' platform \<and> which ''notify-send''
            then Some [u ''notify-send'', title, summary]
            else if platform = ''win32'' \<and> which ''powershell''
            then Some [u ''powershell'', u ''-NoProfile'', u ''-Command'', powershell_script title summary]
            else None)
       | _ \<Rightarrow> None))"

section \<open>The loop\<close>

text \<open>
  The state of a running monitor: the cursor, the lines printed, the commands started, the number of
  pauses after a failed poll, and the sidecar behind the session.
\<close>

record 's monitor =
  m_last_event_id :: "string option"
  m_lines :: "ustr list"
  m_commands :: "ustr list list"
  m_sleeps :: nat
  m_sidecar :: 's

record monitor_config =
  mc_timeout :: int
  mc_os_notif :: bool
  mc_platform :: string
  mc_which :: "string \<Rightarrow> bool"

definition on_event :: "monitor_config \<Rightarrow> obj \<Rightarrow> ('s monitor, unit) st" where
  "on_event C event =
     (if dict_get event ''event'' \<noteq> Some (JStr ''inbox.message'') then sret ()
      else
      (case get_or_else event ''data'' (JObj []) of
         JObj data \<Rightarrow>
           (let sender = get_or_else data ''from'' (JStr ''unknown'');
                summary = get_or_else data ''intent'' (JStr ''(new message)'');
                event_id = get_or_else event ''eventId'' (get_or_else event ''event_id'' (JStr '''')) in
            sbind (sres (notification_line event_id sender summary)) (\<lambda>line.
            sbind (supd (\<lambda>s. s\<lparr>m_lines := m_lines s @ [line]\<rparr>)) (\<lambda>_.
            if \<not> mc_os_notif C then sret ()
            else
              (case os_command (mc_platform C) (mc_which C) sender summary of
                 None \<Rightarrow> sret ()
               | Some cmd \<Rightarrow> supd (\<lambda>s. s\<lparr>m_commands := m_commands s @ [cmd]\<rparr>)))))
       | _ \<Rightarrow> sraise (Builtin AttributeError) ''object has no attribute get''))"

fun on_events :: "monitor_config \<Rightarrow> obj list \<Rightarrow> ('s monitor, unit) st" where
  "on_events C [] = sret ()"
| "on_events C (e # es) = sbind (on_event C e) (\<lambda>_. on_events C es)"

text \<open>The sidecar's part of the state, through which the session acts.\<close>

definition through_sidecar :: "('s, 'a) st \<Rightarrow> ('s monitor, 'a) st" where
  "through_sidecar m = (\<lambda>s. case m (m_sidecar s) of (r, w) \<Rightarrow> (r, s\<lparr>m_sidecar := w\<rparr>))"

definition poll :: "lib \<Rightarrow> 's session \<Rightarrow> monitor_config \<Rightarrow> string option \<Rightarrow> ('s, InboxWaitOutput) st" where
  "poll L S C cursor =
     run (client_inbox_wait L S (Some \<lparr>iw_timeout_seconds = Some (mc_timeout C), iw_last_event_id = cursor\<rparr>))"

text \<open>One round of \<open>while True\<close>: an exception of the poll is logged and followed by a pause.\<close>

definition monitor_round :: "lib \<Rightarrow> 's session \<Rightarrow> monitor_config \<Rightarrow> ('s monitor, unit) st" where
  "monitor_round L S C =
     sbind (sget m_last_event_id) (\<lambda>cursor.
     sthen (through_sidecar (poll L S C cursor)) (\<lambda>r.
       (case r of
          Inl _ \<Rightarrow> supd (\<lambda>s. s\<lparr>m_sleeps := Suc (m_sleeps s)\<rparr>)
        | Inr result \<Rightarrow>
            sbind (supd (\<lambda>s. s\<lparr>m_last_event_id := next_cursor (wo_next_event_id result) cursor\<rparr>)) (\<lambda>_.
            on_events C (wo_events result)))))"

text \<open>
  The loop runs until the process is stopped; \<open>n\<close> is the number of rounds it has run by then. It
  ends earlier only by an exception.
\<close>

fun monitor_loop :: "nat \<Rightarrow> lib \<Rightarrow> 's session \<Rightarrow> monitor_config \<Rightarrow> ('s monitor, unit) st" where
  "monitor_loop 0 L S C = sret ()"
| "monitor_loop (Suc n) L S C = sbind (monitor_round L S C) (\<lambda>_. monitor_loop n L S C)"

text \<open>
  \<open>_run_monitor\<close>: \<open>connect\<close> is \<open>ShadownetMCPClient.connect\<close>, which yields a session for an endpoint and a
  token or raises; the identity is asked for once before the loop.
\<close>

definition run_monitor ::
  "nat \<Rightarrow> lib \<Rightarrow> (ustr \<Rightarrow> ustr \<Rightarrow> 's session res) \<Rightarrow> ustr \<Rightarrow> ustr \<Rightarrow> monitor_config \<Rightarrow> ('s monitor, unit) st"
where
  "run_monitor n L connect endpt token C =
     sbind (sres (connect endpt token)) (\<lambda>S.
     sbind (through_sidecar (run (client_identity L S))) (\<lambda>_.
     sbind (supd (\<lambda>s. s\<lparr>m_last_event_id := None\<rparr>)) (\<lambda>_.
     monitor_loop n L S C)))"

text \<open>
  \<open>_resolve_and_run\<close>: the exit status, or the exception that ends the process; \<open>None\<close> stands for a loop
  that is still running after \<open>n\<close> rounds.
\<close>

definition resolve_and_run ::
  "nat \<Rightarrow> lib \<Rightarrow> environ \<Rightarrow> 's get_password option \<Rightarrow> (ustr \<Rightarrow> ustr \<Rightarrow> 's session res) \<Rightarrow> string \<Rightarrow> (string \<Rightarrow> bool)
     \<Rightarrow> ('s monitor, int option) st"
where
  "resolve_and_run n L env keyring connect platform which =
     sthen (through_sidecar (resolve_endpoint_and_token env keyring)) (\<lambda>r.
       (case r of
          Inl e \<Rightarrow>
            (if is_a e (Builtin RuntimeError) \<or> is_a e (Sdk ConnectURIError) then sret (Some 1) else sres (Inl e))
        | Inr (endpt, token, timeout, os_notif) \<Rightarrow>
            sbind (run_monitor n L connect endpt token
                     \<lparr>mc_timeout = timeout, mc_os_notif = os_notif, mc_platform = platform, mc_which = which\<rparr>)
              (\<lambda>_. sret None)))"

text \<open>\<open>main\<close>, up to the interrupt that stops a running loop with status 0.\<close>

definition monitor_main ::
  "nat \<Rightarrow> lib \<Rightarrow> environ \<Rightarrow> 's get_password option \<Rightarrow> (ustr \<Rightarrow> ustr \<Rightarrow> 's session res) \<Rightarrow> string \<Rightarrow> (string \<Rightarrow> bool)
     \<Rightarrow> ('s monitor, int option) st"
where
  "monitor_main n L env keyring connect platform which =
     (if \<not> inbound_enabled env then sret (Some 0)
      else resolve_and_run n L env keyring connect platform which)"

section \<open>What the loop does\<close>

text \<open>
  What the loop should do, stated on the answers of the sidecar alone. The cursor that a list of answers leaves is the last non-empty one
  that an answer gave, \<open>c0\<close> when none did; the answers to \<open>n\<close> more polls come from polling with the cursor that all answers so far leave.
\<close>

definition given :: "string option \<Rightarrow> InboxWaitOutput res list \<Rightarrow> string option" where
  "given c0 rs =
     (let cs = filter (\<lambda>c. c \<noteq> []) (List.map_filter (case_sum (\<lambda>_. None) wo_next_event_id) rs)
      in if cs = [] then c0 else Some (last cs))"

fun polls ::
  "nat \<Rightarrow> lib \<Rightarrow> 's session \<Rightarrow> monitor_config \<Rightarrow> string option \<Rightarrow> InboxWaitOutput res list \<Rightarrow> 's
     \<Rightarrow> InboxWaitOutput res list \<times> 's"
where
  "polls 0 L S C c0 rs w = (rs, w)"
| "polls (Suc n) L S C c0 rs w =
     (let (r, w') = poll L S C (given c0 rs) w in polls n L S C c0 (rs @ [r]) w')"

text \<open>
  The line of a message: its identifier, its sender and its intent, cut to 200 characters. A message has none when its data is no object
  or its intent cannot be shown.
\<close>

definition is_message :: "obj \<Rightarrow> bool" where
  "is_message event = (dict_get event ''event'' = Some (JStr ''inbox.message''))"

definition shown_intent :: "json \<Rightarrow> ustr option" where
  "shown_intent intent =
     (case intent of
        JStr t \<Rightarrow> Some (dumps_str (if length t \<le> 200 then u t else take 199 (u t) @ [0x2026]))
      | JList vs \<Rightarrow> (if length vs \<le> 200 then Some (dumps intent) else None)
      | JObj ms \<Rightarrow> (if length ms \<le> 200 then Some (dumps intent) else None)
      | _ \<Rightarrow> None)"

definition shown_line :: "obj \<Rightarrow> ustr option" where
  "shown_line event =
     (case get_or_else event ''data'' (JObj []) of
        JObj d \<Rightarrow>
          map_option (\<lambda>summary.
            u ''{'' @ dumps_str (u ''type'') @ u '': '' @ dumps_str (u ''shadownet.inbox.message'')
            @ u '', '' @ dumps_str (u ''event_id'') @ u '': ''
            @ dumps (get_or_else event ''eventId'' (get_or_else event ''event_id'' (JStr '''')))
            @ u '', '' @ dumps_str (u ''from'') @ u '': '' @ dumps (get_or_else d ''from'' (JStr ''unknown''))
            @ u '', '' @ dumps_str (u ''summary'') @ u '': '' @ summary @ u ''}'')
          (shown_intent (get_or_else d ''intent'' (JStr ''(new message)'')))
      | _ \<Rightarrow> None)"

definition event_ok :: "obj \<Rightarrow> bool" where
  "event_ok event = (is_message event \<longrightarrow> shown_line event \<noteq> None)"

text \<open>The lines of a list of events, up to the first message that has none.\<close>

definition event_lines :: "obj list \<Rightarrow> ustr list" where
  "event_lines es = map (the \<circ> shown_line) (filter is_message (takeWhile event_ok es))"

definition lines_of :: "InboxWaitOutput res \<Rightarrow> ustr list" where
  "lines_of r = (case r of Inl _ \<Rightarrow> [] | Inr out \<Rightarrow> event_lines (wo_events out))"

definition answer_ok :: "InboxWaitOutput res \<Rightarrow> bool" where
  "answer_ok r = (case r of Inl _ \<Rightarrow> True | Inr out \<Rightarrow> list_all event_ok (wo_events out))"

definition failed :: "InboxWaitOutput res list \<Rightarrow> nat" where
  "failed rs = length (filter isl rs)"

text \<open>The answers that the loop gets to see: up to the first that carries a message without a line.\<close>

definition taken :: "InboxWaitOutput res list \<Rightarrow> InboxWaitOutput res list" where
  "taken rs = take (Suc (length (takeWhile answer_ok rs))) rs"

lemma taken_Cons: "taken (r # rs) = r # (if answer_ok r then taken rs else [])"
  by (simp add: taken_def)

lemma given_snoc: "given c0 (rs @ [r]) = (case r of Inl _ \<Rightarrow> given c0 rs | Inr out \<Rightarrow> next_cursor (wo_next_event_id out) (given c0 rs))"
  by (auto simp: given_def Let_def map_filter_def next_cursor_def split: sum.split option.split list.split)

lemma polls_extend: "\<exists>rs'. fst (polls n L S C c0 rs w) = rs @ rs'"
proof (induction n arbitrary: rs w)
  case (Suc n)
  obtain r w' where "poll L S C (given c0 rs) w = (r, w')" by force
  then show ?case using Suc [of "rs @ [r]" w'] by auto
qed simp

text \<open>What a step may change of the state: the lines it adds, and never the cursor or the sidecar.\<close>

definition prints :: "'s monitor \<Rightarrow> ustr list \<Rightarrow> 's monitor \<Rightarrow> bool" where
  "prints s ls s' =
     (m_lines s' = m_lines s @ ls \<and> m_last_event_id s' = m_last_event_id s \<and> m_sidecar s' = m_sidecar s
      \<and> m_sleeps s' = m_sleeps s)"

text \<open>The outcome of a step: it goes on exactly when \<open>ok\<close>, and otherwise raises one of the exceptions of a value of the wrong shape.\<close>

definition goes_on :: "unit res \<Rightarrow> bool \<Rightarrow> bool" where
  "goes_on q ok =
     (if ok then q = Inr ()
      else \<exists>e. q = Inl e \<and> cls e \<in> {Builtin AttributeError, Builtin TypeError, Builtin KeyError})"

lemma truncate_json_shown:
  "case shown_intent j of
     Some summary \<Rightarrow> truncate_json j 200 = Inr summary
   | None \<Rightarrow> \<exists>e. truncate_json j 200 = Inl e \<and> cls e \<in> {Builtin TypeError, Builtin KeyError}"
  by (cases j) (auto simp: shown_intent_def truncate_text_def raise_def)

lemma on_event_prints:
  "\<exists>q s'. on_event C e s = (q, s') \<and> goes_on q (event_ok e)
     \<and> prints s (if is_message e \<and> event_ok e then [the (shown_line e)] else []) s'"
proof (cases "is_message e \<and> (\<exists>d. get_or_else e ''data'' (JObj []) = JObj d)")
  case False
  then show ?thesis
    by (cases "get_or_else e ''data'' (JObj [])")
      (auto simp: on_event_def is_message_def prints_def goes_on_def event_ok_def shown_line_def sret_def sraise_def sres_def raise_def)
next
  case True
  then obtain d where d: "get_or_else e ''data'' (JObj []) = JObj d" by blast
  let ?intent = "get_or_else d ''intent'' (JStr ''(new message)'')"
  let ?cmd = "os_command (mc_platform C) (mc_which C) (get_or_else d ''from'' (JStr ''unknown'')) ?intent"
  from True d truncate_json_shown [of ?intent] show ?thesis
    by (cases "shown_intent ?intent"; cases "mc_os_notif C"; cases ?cmd)
      (auto simp: on_event_def is_message_def shown_line_def event_ok_def goes_on_def notification_line_def prints_def sbind_def
        sthen_def sres_def supd_def sret_def Let_def)
qed

lemma on_events_prints:
  "\<exists>q s'. on_events C es s = (q, s') \<and> goes_on q (list_all event_ok es) \<and> prints s (event_lines es) s'"
proof (induction es arbitrary: s)
  case Nil
  then show ?case by (simp add: prints_def sret_def goes_on_def event_lines_def)
next
  case (Cons e es)
  obtain q1 s1 where s1: "on_event C e s = (q1, s1)" "goes_on q1 (event_ok e)"
    "prints s (if is_message e \<and> event_ok e then [the (shown_line e)] else []) s1"
    using on_event_prints by metis
  obtain q2 s2 where "on_events C es s1 = (q2, s2)" "goes_on q2 (list_all event_ok es)" "prints s1 (event_lines es) s2"
    using Cons.IH by metis
  with s1 show ?case
    by (cases "event_ok e") (auto simp: prints_def goes_on_def event_lines_def sbind_def sthen_def sres_def)
qed

lemma monitor_round_step:
  assumes p: "poll L S C (m_last_event_id s) (m_sidecar s) = (r, w)" and cursor: "m_last_event_id s = given c0 rs"
  shows "\<exists>q s'. monitor_round L S C s = (q, s') \<and> goes_on q (answer_ok r) \<and> m_lines s' = m_lines s @ lines_of r
    \<and> m_last_event_id s' = given c0 (rs @ [r]) \<and> m_sidecar s' = w \<and> m_sleeps s' = m_sleeps s + failed [r]"
proof (cases r)
  case (Inl e)
  with p cursor show ?thesis
    by (simp add: monitor_round_def sbind_def sthen_def sget_def supd_def through_sidecar_def lines_of_def answer_ok_def
        given_snoc failed_def goes_on_def)
next
  case (Inr out)
  let ?s = "s\<lparr>m_sidecar := w, m_last_event_id := given c0 (rs @ [r])\<rparr>"
  obtain q s' where "on_events C (wo_events out) ?s = (q, s')" "goes_on q (list_all event_ok (wo_events out))"
    "prints ?s (event_lines (wo_events out)) s'"
    using on_events_prints by metis
  with p cursor Inr show ?thesis
    by (auto simp: monitor_round_def sbind_def sthen_def sget_def supd_def through_sidecar_def lines_of_def
        given_snoc failed_def prints_def answer_ok_def)
qed

lemma monitor_loop_polls:
  assumes "polls n L S C c0 rs (m_sidecar s) = (rs @ rs', w)" "m_last_event_id s = given c0 rs"
  shows "\<exists>q s'. monitor_loop n L S C s = (q, s') \<and> goes_on q (list_all answer_ok rs')
    \<and> m_lines s' = m_lines s @ concat (map lines_of (taken rs')) \<and> m_last_event_id s' = given c0 (rs @ taken rs')
    \<and> m_sleeps s' = m_sleeps s + failed (taken rs')
    \<and> m_sidecar s' = snd (polls (length (taken rs')) L S C c0 rs (m_sidecar s))"
  using assms
proof (induction n arbitrary: s rs rs')
  case 0
  then show ?case by (simp add: sret_def failed_def goes_on_def taken_def)
next
  case (Suc n)
  obtain r w1 where p: "poll L S C (given c0 rs) (m_sidecar s) = (r, w1)" by force
  with Suc.prems(1) have rest: "polls n L S C c0 (rs @ [r]) w1 = (rs @ rs', w)" by simp
  with polls_extend [of n L S C c0 "rs @ [r]" w1] obtain ts where rs': "rs' = r # ts" by auto
  obtain q1 s1 where s1: "monitor_round L S C s = (q1, s1)" "goes_on q1 (answer_ok r)" "m_lines s1 = m_lines s @ lines_of r"
      "m_last_event_id s1 = given c0 (rs @ [r])" "m_sidecar s1 = w1" "m_sleeps s1 = m_sleeps s + failed [r]"
    using monitor_round_step [of L S C s r w1 c0 rs] p Suc.prems(2) by auto
  show ?case
  proof (cases "answer_ok r")
    case False
    with s1 p show ?thesis by (auto simp: rs' taken_Cons goes_on_def sbind_def sthen_def sres_def)
  next
    case True
    moreover obtain q s2 where "monitor_loop n L S C s1 = (q, s2)" "goes_on q (list_all answer_ok ts)"
      "m_lines s2 = m_lines s1 @ concat (map lines_of (taken ts))" "m_last_event_id s2 = given c0 ((rs @ [r]) @ taken ts)"
      "m_sleeps s2 = m_sleeps s1 + failed (taken ts)"
      "m_sidecar s2 = snd (polls (length (taken ts)) L S C c0 (rs @ [r]) (m_sidecar s1))"
      using Suc.IH [of "rs @ [r]" s1 ts] rest rs' s1(4,5) by auto
    ultimately show ?thesis using s1 p by (auto simp: rs' taken_Cons goes_on_def failed_def sbind_def sthen_def)
  qed
qed


text \<open>A sidecar that fails, then delivers a message, then has nothing new.\<close>

definition ex_event :: obj where
  "ex_event = [(''event'', JStr ''inbox.message''), (''eventId'', JStr ''e7''), (''data'', JObj [(''from'', JStr ''bob@b.example'')])]"

definition ex_sidecar :: "nat session" where
  "ex_sidecar name args =
     atomic (\<lambda>k. if k = 0 then (raise (Lib HTTPError) ''down'', 1)
       else (Inr \<lparr>isError = False, structuredContent = Some (JObj
         (if k = 1 then [(''events'', JList [JObj ex_event]), (''next_event_id'', JStr ''e7'')] else [])),
         content_texts = None\<rparr>, Suc k))"

definition ex_monitor :: "nat monitor" where
  "ex_monitor = \<lparr>m_last_event_id = None, m_lines = [], m_commands = [], m_sleeps = 0, m_sidecar = 0\<rparr>"

definition ex_monitor_config :: monitor_config where
  "ex_monitor_config = \<lparr>mc_timeout = 30, mc_os_notif = False, mc_platform = ''linux'', mc_which = (\<lambda>_. False)\<rparr>"

definition ex_out :: "obj list \<Rightarrow> string option \<Rightarrow> InboxWaitOutput" where
  "ex_out es c = \<lparr>wo_events = es, wo_next_event_id = c, wo_extra = []\<rparr>"

lemma ex_polls:
  "polls 3 toy_lib ex_sidecar ex_monitor_config None [] 0 =
     ([raise (Lib HTTPError) ''down'', Inr (ex_out [ex_event] (Some ''e7'')), Inr (ex_out [] None)], 3)"
proof -
  have "v_InboxWaitOutput (JObj [(''events'', JList [JObj ex_event]), (''next_event_id'', JStr ''e7'')]) =
      FOk (ex_out [ex_event] (Some ''e7''))" "v_InboxWaitOutput (JObj []) = FOk (ex_out [] None)"
    by code_simp+
  then have "poll toy_lib ex_sidecar ex_monitor_config c k =
      (if k = 0 then (raise (Lib HTTPError) ''down'', 1)
       else (Inr (if k = 1 then ex_out [ex_event] (Some ''e7'') else ex_out [] None), Suc k))" for c k
    by (simp add: poll_def client_inbox_wait_def run_call ex_sidecar_def run_atomic read_result_def validated_def
        sbind_def sthen_def sres_def raise_def)
  then show ?thesis
    by (simp add: numeral_eq_Suc ex_out_def raise_def)
qed


section \<open>A line is one line\<close>

text \<open>The text of a float, as \<open>repr\<close> writes it, has no line break.\<close>

fun floats_plain :: "json \<Rightarrow> bool" where
  "floats_plain (JFloat t) = (CHR ''\<newline>'' \<notin> set t)"
| "floats_plain (JList vs) = list_all floats_plain vs"
| "floats_plain (JObj ms) = list_all (\<lambda>(k, v). floats_plain v) ms"
| "floats_plain _ = True"

lemma hex_char_code: "d < 16 \<Longrightarrow> code (hex_char d) \<noteq> 10"
  by (simp add: hex_char_def)

lemma hex_digits_no_newline: "10 \<notin> set (u (hex_digits n cp))"
proof
  assume "10 \<in> set (u (hex_digits n cp))"
  then obtain i where "code (hex_char (cp div 16 ^ i mod 16)) = 10" by (auto simp: hex_digits_def)
  then show False using hex_char_code [of "cp div 16 ^ i mod 16"] by simp
qed

lemma dumps_cp_no_newline: "10 \<notin> set (dumps_cp cp)"
  using hex_digits_no_newline [of 4 cp] by (simp add: dumps_cp_def)

lemma dumps_str_no_newline: "10 \<notin> set (dumps_str s)"
  using dumps_cp_no_newline by (auto simp: dumps_str_def)

lemma join_no_newline: "10 \<notin> set sep \<Longrightarrow> \<forall>t\<in>set ts. 10 \<notin> set t \<Longrightarrow> 10 \<notin> set (join_with sep ts)"
  by (induction sep ts rule: join_with.induct) auto

lemma int_str_no_newline: "10 \<notin> set (u (int_str i))"
proof
  assume "10 \<in> set (u (int_str i))"
  then obtain c where "c \<in> set (int_str i)" "code c = 10" by auto
  then show False using int_str_chars [of c i] by (auto simp: is_digit_def)
qed

lemma dumps_no_newline: "floats_plain j \<Longrightarrow> 10 \<notin> set (dumps j)"
proof (induction j rule: dumps.induct)
  case (4 t)
  have "c = CHR ''\<newline>''" if "code c = 10" for c :: char
    using that by (metis newline_code)
  with 4 show ?case by auto
next
  case (6 vs)
  then show ?case using join_no_newline [of "u '', ''" "map dumps vs"] by (auto simp: list_all_iff)
next
  case (7 ms)
  then have "\<forall>t\<in>set (map (\<lambda>(k, v). dumps_str (u k) @ u '': '' @ dumps v) ms). 10 \<notin> set t"
    using dumps_str_no_newline by (fastforce simp: list_all_iff)
  then have "10 \<notin> set (join_with (u '', '') (map (\<lambda>(k, v). dumps_str (u k) @ u '': '' @ dumps v) ms))"
    by (intro join_no_newline) auto
  then show ?case by simp
qed (simp_all add: int_str_no_newline dumps_str_no_newline del: set_map)

text \<open>
  A notification is one line of standard output whatever the event carries: no line break of
  the sender's name, of the intent or of the event's identifier survives in the line, so an event
  cannot forge a second notification.
\<close>

theorem notification_is_one_line:
  assumes "notification_line event_id sender body = Inr line" "list_all floats_plain [event_id, sender, body]"
  shows "10 \<notin> set line"
proof -
  obtain summary where s: "truncate_json body 200 = Inr summary"
    using assms(1) by (auto simp: notification_line_def bind_Inr_iff)
  have "10 \<notin> set summary"
  proof (cases body)
    case (JStr b)
    with s show ?thesis by (auto simp: dumps_str_no_newline)
  next
    case (JList vs)
    with s assms(2) show ?thesis using dumps_no_newline [of body] by (auto split: if_splits)
  next
    case (JObj ms)
    with s assms(2) show ?thesis using dumps_no_newline [of body] by (auto split: if_splits)
  qed (use s in auto)
  moreover have "10 \<notin> set (dumps event_id)" "10 \<notin> set (dumps sender)"
    using assms(2) dumps_no_newline by auto
  ultimately show ?thesis
    using assms(1) s dumps_str_no_newline by (auto simp: notification_line_def)
qed

theorem notification_is_one_line_witness:
  "\<exists>line. notification_line (JStr ''e1'') (JStr ''bob'') (JStr [CHR ''a'', CHR ''\<newline>'', CHR ''b'']) = Inr line
     \<and> 10 \<notin> set line"
proof -
  obtain line where l: "notification_line (JStr ''e1'') (JStr ''bob'') (JStr [CHR ''a'', CHR ''\<newline>'', CHR ''b'']) = Inr line"
    by (simp add: notification_line_def)
  then show ?thesis using notification_is_one_line [OF l] by auto
qed

section \<open>Text inside string literals\<close>

text \<open>
  How a script language with the escape character \<open>e\<close> reads the rest of a double-quoted literal: the text
  after the closing quote, \<open>None\<close> when the literal never ends.
\<close>

fun literal_rest :: "nat \<Rightarrow> ustr \<Rightarrow> ustr option" where
  "literal_rest e [] = None"
| "literal_rest e (c # cs) =
     (if c = 34 then Some cs
      else if c = e then (case cs of [] \<Rightarrow> None | _ # ds \<Rightarrow> literal_rest e ds)
      else literal_rest e cs)"

lemma literal_rest_escaped:
  "e \<noteq> 34 \<Longrightarrow> literal_rest e (replace_cp 34 [e, 34] (replace_cp e [e, e] s) @ [34] @ rest) = Some rest"
  by (induction s) (auto simp: replace_cp_def)

lemmas applescript_literal = literal_rest_escaped [of 92, folded escape_for_applescript_def]
lemmas powershell_literal = literal_rest_escaped [of 96, folded escape_for_powershell_def]

text \<open>
  On macOS the notification's script is what it is meant to be whatever the sender and the
  message are: a \<open>display notification\<close> of one string literal with one string literal as its title. No
  quote or backslash of the text ends a literal early, so the text is never read as AppleScript.
\<close>

theorem applescript_text_contained:
  assumes "os_command ''darwin'' which sender body = Some cmd"
  shows "\<exists>script after_body. cmd = [u ''osascript'', u ''-e'', u ''display notification '' @ [34] @ script]
    \<and> literal_rest 92 script = Some (u '' with title '' @ [34] @ after_body) \<and> literal_rest 92 after_body = Some []"
proof -
  let ?title = "escape_for_applescript (u ''Shadownet '' @ [0x2014] @ u '' message from '' @ u (str_json sender)) @ [34]"
  obtain b where cmd: "cmd = [u ''osascript'', u ''-e'', u ''display notification '' @ [34]
      @ (escape_for_applescript (truncate_text (u b) 200) @ [34] @ u '' with title '' @ [34] @ ?title)]"
    using assms by (auto simp: os_command_def Let_def quoted_by_def split: json.splits if_splits)
  show ?thesis
    using applescript_literal [of "truncate_text (u b) 200" "u '' with title '' @ [34] @ ?title"]
      applescript_literal [of "u ''Shadownet '' @ [0x2014] @ u '' message from '' @ u (str_json sender)" "[]"]
    unfolding cmd by (intro exI conjI) auto
qed

theorem applescript_text_contained_witness:
  "\<exists>cmd. os_command ''darwin'' (\<lambda>_. True) (JStr ''eve'') (JStr [CHR 0x22, CHR ''&'', CHR 0x5C]) = Some cmd \<and> length cmd = 3"
proof -
  obtain cmd where c: "os_command ''darwin'' (\<lambda>_. True) (JStr ''eve'') (JStr [CHR 0x22, CHR ''&'', CHR 0x5C]) = Some cmd"
    by (simp add: os_command_def Let_def)
  then show ?thesis using applescript_text_contained [OF c] by auto
qed

text \<open>
  On Windows the text stays inside its literal, too, but a PowerShell literal in double quotes
  is expanded: the escaping leaves \<open>$(...)\<close> as it is, so an intent chosen by the sender of a message reaches
  the script as a subexpression, which PowerShell evaluates.
\<close>

theorem powershell_subexpression_kept:
  "\<exists>script. os_command ''win32'' (\<lambda>p. p = ''powershell'') (JStr ''eve@e.example'') (JStr ''$(calc.exe)'') =
       Some [u ''powershell'', u ''-NoProfile'', u ''-Command'', script]
     \<and> sublist (u ''$body = '' @ [34] @ u ''$(calc.exe)'' @ [34]) script"
proof -
  have esc: "quoted_by escape_for_powershell (u ''$(calc.exe)'') = [34] @ u ''$(calc.exe)'' @ [34]"
    by (simp add: quoted_by_def escape_for_powershell_def replace_cp_def)
  have "sublist (u ''$body = '' @ quoted_by escape_for_powershell summary) (powershell_script title summary)"
    for title summary
    using sublist_appendI [of "u ''$body = '' @ quoted_by escape_for_powershell summary"
        "u ''[Windows.UI.Notifications.ToastNotificationManager,Windows.UI.Notifications,''
         @ u ''ContentType=WindowsRuntime] > $null; '' @ u ''$title = '' @ quoted_by escape_for_powershell title @ u ''; ''"]
    unfolding powershell_script_def append_assoc .
  from this [of "u ''$(calc.exe)''"] show ?thesis
    unfolding esc by (simp add: os_command_def Let_def truncate_text_def)
qed

section \<open>What stops the monitor\<close>

text \<open>Switched off, it does nothing at all.\<close>

lemma monitor_disabled:
  "\<not> inbound_enabled env \<Longrightarrow> monitor_main n L env keyring connect platform which s = (Inr (Some 0), s)"
  by (simp add: monitor_main_def sret_def)

text \<open>
  A connect URL whose query the strict parser refuses ends the process with the \<open>ValueError\<close>, not with
  the exit status 1 of a configuration error.
\<close>

theorem monitor_bad_url_escapes:
  "monitor_main n L (\<lambda>v. if v = ''SHADOWNET_CONNECT_URL'' then Some ''shadow://connect?mcp'' else None) keyring connect
     platform which s
   = (Inl (Exn (Builtin ValueError) (''bad query field: '' @ repr ''mcp'')), s)"
proof -
  let ?env = "\<lambda>v. if v = ''SHADOWNET_CONNECT_URL'' then Some ''shadow://connect?mcp'' else None"
  have "parse_connect_uri ''shadow://connect?mcp'' = Inl (Exn (Builtin ValueError) (''bad query field: '' @ repr ''mcp''))"
    by code_simp
  then have "resolve_endpoint_and_token ?env keyring t =
      (Inl (Exn (Builtin ValueError) (''bad query field: '' @ repr ''mcp'')), t)" for t
    by (simp add: resolve_endpoint_and_token_def monitor_credentials_def sbind_def sthen_def sres_def)
  moreover have "inbound_enabled ?env" by code_simp
  ultimately show ?thesis
    by (simp add: monitor_main_def resolve_and_run_def through_sidecar_def sthen_def sres_def is_a_eval)
qed

text \<open>A message whose intent is a number ends the loop: nothing around the dispatch catches the \<open>TypeError\<close>.\<close>

theorem monitor_bad_intent_escapes:
  "on_event C [(''event'', JStr ''inbox.message''), (''data'', JObj [(''intent'', JInt 5)])] s =
     (Inl (Exn (Builtin TypeError) ''''), s)"
  by (simp add: on_event_def get_or_else_def notification_line_def sbind_def sthen_def sres_def raise_def Let_def)

end
