(* ===== verification/Claude_Proxy.thy ===== *)
theory Claude_Proxy
  imports Claude_Monitor
begin

text \<open>
  The MCP proxy of the Claude Code plug-in, from
  \<open>integrations/plugins/claude-code/bin/mcp-shadownet-proxy.py\<close>: it turns the connect URL into an endpoint and
  a token, redeeming a handoff code once and caching the token in the keyring, and forwards messages in
  both directions. Shown here: once its token is in a readable keyring, a handoff code is not redeemed again, and the monitor, which
  never redeems, finds the same token; what happens when the keyring cannot be read or written; the exit status for every failure; and
  where a redemption is sent.
\<close>

section \<open>The code\<close>

record 's keyring =
  get_password :: "'s get_password"
  set_password :: "string \<Rightarrow> ustr \<Rightarrow> ustr \<Rightarrow> ('s, unit) st"

definition proxy_cached_access_token :: "'s keyring \<Rightarrow> ustr \<Rightarrow> ('s, ustr option) st" where
  "proxy_cached_access_token K hcode =
     sthen (get_password K KEYRING_SERVICE hcode) (\<lambda>r. case r of Inl _ \<Rightarrow> sret None | Inr t \<Rightarrow> sret t)"

definition cache_access_token :: "'s keyring \<Rightarrow> ustr \<Rightarrow> ustr \<Rightarrow> ('s, unit) st" where
  "cache_access_token K hcode token =
     sthen (set_password K KEYRING_SERVICE hcode token) (\<lambda>r. sret ())"

text \<open>\<open>_pump\<close>: \<open>msgs\<close> are what the source yields until it closes; every exception ends the pump quietly.\<close>

fun forward :: "('m \<Rightarrow> ('s, unit) task) \<Rightarrow> 'm list \<Rightarrow> ('s, unit) task" where
  "forward send [] = Ret (Inr ())"
| "forward send (m # ms) = tbind (send m) (\<lambda>_. forward send ms)"

definition pump :: "('m \<Rightarrow> ('s, unit) task) \<Rightarrow> 'm list \<Rightarrow> ('s, unit) task" where
  "pump send msgs = tthen (forward send msgs) (\<lambda>r. Ret (Inr ()))"

text \<open>The redemption; its client lives as long as the \<open>async with\<close> block.\<close>

definition proxy_redeem :: "lib \<Rightarrow> 's async_httpx \<Rightarrow> ConnectURI \<Rightarrow> ustr \<Rightarrow> ('s, HandoffResponse) task" where
  "proxy_redeem L A parsed hcode =
     tbind (atomic (new_async_client A 30)) (\<lambda>http.
     tfinally (aredeem_handoff L A (mcp_endpoint parsed) hcode (Some http) DEFAULT_HANDOFF_TIMEOUT) (aclient_aclose A http))"

definition proxy_resolve ::
  "lib \<Rightarrow> 's async_httpx \<Rightarrow> 's keyring \<Rightarrow> string \<Rightarrow> ('s, ustr \<times> ustr) task"
where
  "proxy_resolve L A K connect_url =
     tbind (Ret (parse_connect_uri connect_url)) (\<lambda>parsed.
     (case access_token parsed of
        Some token \<Rightarrow> Ret (Inr (mcp_endpoint parsed, token))
      | None \<Rightarrow>
          (case handoff_code parsed of
             None \<Rightarrow> Ret (raise (Builtin AssertionError) '''')
           | Some hcode \<Rightarrow>
               tbind (atomic (proxy_cached_access_token K hcode)) (\<lambda>cached.
               (case cached of
                  Some (c # cs) \<Rightarrow> Ret (Inr (mcp_endpoint parsed, c # cs))
                | _ \<Rightarrow>
                    tbind (proxy_redeem L A parsed hcode) (\<lambda>response.
                    tbind (atomic (cache_access_token K hcode (u (ho_access_token response)))) (\<lambda>_.
                    Ret (Inr (mcp_endpoint parsed, u (ho_access_token response))))))))))"

text \<open>
  \<open>_run\<close>: the exit status; \<open>bridge\<close> stands for the session that forwards messages between the two sides,
  which ends in an exception or when its streams close.
\<close>

definition proxy_url :: "environ \<Rightarrow> string" where
  "proxy_url env =
     (let get = (\<lambda>v. strip (case env v of Some x \<Rightarrow> x | None \<Rightarrow> ''''));
          a = get ''CLAUDE_PLUGIN_OPTION_CONNECT_URL'' in
      if a \<noteq> [] then a else get ''SHADOWNET_CONNECT_URL'')"

definition proxy_run ::
  "lib \<Rightarrow> environ \<Rightarrow> 's async_httpx \<Rightarrow> 's keyring \<Rightarrow> (ustr \<Rightarrow> ustr \<Rightarrow> ('s, unit) task) \<Rightarrow> ('s, int) task"
where
  "proxy_run L env A K bridge =
     (let url = proxy_url env in
      if url = [] then Ret (Inr 1)
      else
      tthen (proxy_resolve L A K url) (\<lambda>r.
        (case r of
           Inl e \<Rightarrow>
             (if is_a e (Sdk ConnectURIError) then Ret (Inr 2)
              else if is_a e (Sdk HandoffError) then Ret (Inr 3)
              else Ret (Inl e))
         | Inr (endpt, token) \<Rightarrow> tbind (bridge endpt token) (\<lambda>_. Ret (Inr 0)))))"

section \<open>Handoff codes are redeemed once\<close>

text \<open>
  What the keyring does: \<open>kept s\<close> are the tokens stored for handoff codes in the state \<open>s\<close>. Where the keyring is \<open>readable\<close>, a read returns the
  stored token, elsewhere it raises; where it is \<open>writable\<close>, a write stores the token, elsewhere it raises and stores nothing. No
  read changes anything.
\<close>

definition keyring_ok :: "'s keyring \<Rightarrow> ('s \<Rightarrow> ustr \<Rightarrow> ustr option) \<Rightarrow> ('s \<Rightarrow> bool) \<Rightarrow> ('s \<Rightarrow> bool) \<Rightarrow> bool" where
  "keyring_ok K kept readable writable =
     ((\<forall>h s. \<exists>e. get_password K KEYRING_SERVICE h s = (if readable s then Inr (kept s h) else Inl e, s))
      \<and> (\<forall>h t s. \<exists>e s'. set_password K KEYRING_SERVICE h t s = (if writable s then Inr () else Inl e, s')
           \<and> kept s' = (if writable s then (kept s)(h := Some t) else kept s)))"

text \<open>The token that a start finds: a read that fails counts as no token, and so does an empty token.\<close>

definition found :: "('s \<Rightarrow> ustr \<Rightarrow> ustr option) \<Rightarrow> ('s \<Rightarrow> bool) \<Rightarrow> 's \<Rightarrow> ustr \<Rightarrow> ustr option" where
  "found kept readable s h = (if readable s \<and> kept s h \<noteq> Some [] then kept s h else None)"

lemma cached_read:
  assumes "keyring_ok K kept readable writable"
  shows "proxy_cached_access_token K h s = (Inr (if readable s then kept s h else None), s)"
    and "cached_access_token (Some (get_password K)) h s = (Inr (if readable s then kept s h else None), s)"
proof -
  from assms obtain e where "get_password K KEYRING_SERVICE h s = (if readable s then Inr (kept s h) else Inl e, s)"
    unfolding keyring_ok_def by blast
  then show "proxy_cached_access_token K h s = (Inr (if readable s then kept s h else None), s)"
    and "cached_access_token (Some (get_password K)) h s = (Inr (if readable s then kept s h else None), s)"
    by (simp_all add: proxy_cached_access_token_def cached_access_token_def sthen_def sret_def)
qed

lemma cached_write:
  assumes "keyring_ok K kept readable writable"
  shows "\<exists>s'. cache_access_token K h t s = (Inr (), s') \<and> kept s' = (if writable s then (kept s)(h := Some t) else kept s)"
proof -
  from assms obtain r s' where "set_password K KEYRING_SERVICE h t s = (r, s')"
    "kept s' = (if writable s then (kept s)(h := Some t) else kept s)"
    unfolding keyring_ok_def by blast
  then show ?thesis by (simp add: cache_access_token_def sthen_def sret_def)
qed

text \<open>A start that finds a token in the keyring uses it and does nothing else; so does the monitor.\<close>

lemma proxy_resolve_found:
  assumes "keyring_ok K kept readable writable" "parse_connect_uri url = Inr c" "access_token c = None" "handoff_code c = Some h"
    "found kept readable s h = Some t"
  shows "run (proxy_resolve L A K url) s = (Inr (mcp_endpoint c, t), s)"
  using assms cached_read(1) [OF assms(1), of h s]
  by (cases t) (simp_all add: proxy_resolve_def found_def run_simps sbind_def sthen_def sres_def split: if_splits)

text \<open>A start that finds none and returns has redeemed the code, and has tried to store the token.\<close>

lemma proxy_resolve_missed:
  assumes K: "keyring_ok K kept readable writable" and c: "parse_connect_uri url = Inr c" "access_token c = None" "handoff_code c = Some h"
    and run: "run (proxy_resolve L A K url) s = (Inr (e, t), s')" and missed: "found kept readable s h = None"
  shows "e = mcp_endpoint c \<and> (\<exists>resp s1. run (proxy_redeem L A c h) s = (Inr resp, s1) \<and> t = u (ho_access_token resp)
    \<and> kept s' = (if writable s1 then (kept s1)(h := Some t) else kept s1))"
proof -
  have "(if readable s then kept s h else None) \<in> {None, Some []}" using missed by (auto simp: found_def split: if_splits)
  then obtain resp s1 where r: "e = mcp_endpoint c" "t = u (ho_access_token resp)" "run (proxy_redeem L A c h) s = (Inr resp, s1)"
    "cache_access_token K h t s1 = (Inr (), s')"
    using run c cached_read(1) [OF K, of h s]
    by (auto simp: proxy_resolve_def run_simps sbind_def sthen_def sres_def split: prod.splits sum.splits)
  then show ?thesis using cached_write [OF K, of h t s1] by auto
qed

lemma monitor_reads:
  assumes "keyring_ok K kept readable writable" "parse_connect_uri url = Inr c" "access_token c = None" "handoff_code c = Some h"
    and env: "env_first env [''CLAUDE_PLUGIN_OPTION_CONNECT_URL'', ''SHADOWNET_CONNECT_URL''] '''' = url" "url \<noteq> []"
  shows "case found kept readable s h of
      Some t \<Rightarrow> monitor_credentials env (Some (get_password K)) s = (Inr (mcp_endpoint c, t), s)
    | None \<Rightarrow> \<exists>m. monitor_credentials env (Some (get_password K)) s = (Inl (Exn (Builtin RuntimeError) m), s)"
  using cached_read(2) [OF assms(1), of h s] assms(2-4) env
  by (cases "kept s h")
    (auto simp: monitor_credentials_def found_def config_error_def sraise_def raise_def sbind_def sthen_def sres_def sret_def Let_def
      split: list.split)


text \<open>
  A keyring that keeps its entries in a list, a server that grants every request, and a handoff URI whose
  endpoint has a path.
\<close>

definition ex_keyring :: "(ustr \<times> ustr) list keyring" where
  "ex_keyring = \<lparr>get_password = (\<lambda>_ h s. (Inr (map_of s h), s)), set_password = (\<lambda>_ h t s. (Inr (), dict_set h t s))\<rparr>"

definition ex_granting :: "(ustr \<times> ustr) list async_httpx" where
  "ex_granting =
     \<lparr>new_async_client = (\<lambda>_. sret 0),
      aclient_post = (\<lambda>_ _ _ _. suspending (sret \<lparr>status_code = 200, resp_text = '''', resp_content = [],
        resp_header = (\<lambda>_. None), resp_json = Inr (JObj [(''accessToken'', JStr ''tok'')])\<rparr>)),
      aclient_aclose = (\<lambda>_. suspending (sret ()))\<rparr>"

definition ex_handoff_url :: string where
  "ex_handoff_url = ''shadow://connect?mcp=https://app.example/mcp/alice&handoff=abcdefghijklmnop''"

definition ex_connect :: ConnectURI where
  "ex_connect = \<lparr>mcp_endpoint = u ''https://app.example/mcp/alice'', access_token = None,
     handoff_code = Some (u ''abcdefghijklmnop'')\<rparr>"

lemma ex_parsed: "parse_connect_uri ex_handoff_url = Inr ex_connect"
  by code_simp

lemma ex_keyring_ok: "keyring_ok ex_keyring map_of (\<lambda>_. True) (\<lambda>_. True)"
  by (auto simp: keyring_ok_def ex_keyring_def update_conv')

lemma ex_first_start:
  "run (proxy_resolve toy_lib ex_granting ex_keyring ex_handoff_url) [] =
     (Inr (u ''https://app.example/mcp/alice'', u ''tok''), [(u ''abcdefghijklmnop'', u ''tok'')])"
proof -
  have v: "HandoffResponse_model_validate toy_lib (JObj [(''accessToken'', JStr ''tok'')]) =
      Inr \<lparr>ho_access_token = ''tok'', ho_expires_at = None, ho_refresh_token = None, ho_extra = []\<rparr>"
    by code_simp
  have h: "HANDOFF_PATTERN (u ''abcdefghijklmnop'')" by code_simp
  show ?thesis
    by (simp add: proxy_resolve_def proxy_redeem_def ex_parsed ex_connect_def run_simps aredeem_handoff_def apost_def handoff_url_def
        h [simplified]
        ex_granting_def ex_keyring_def proxy_cached_access_token_def cache_access_token_def sfinally_def
        interpret_handoff_response_def json_body_def v sbind_def sthen_def sres_def sret_def srewrap_def)
qed


text \<open>
  Where the redemption is sent: \<open>redeem_handoff\<close> takes the origin of the MCP endpoint, but the proxy hands
  it the endpoint, so the well-known path ends up below the endpoint's path.
\<close>

theorem proxy_redeems_below_the_endpoint:
  "handoff_url (mcp_endpoint ex_connect) (u ''abcdefghijklmnop'') =
     Inr (u ''https://app.example/mcp/alice/.well-known/shadownet/onboard/handoff/abcdefghijklmnop'')"
  by code_simp

section \<open>Exit status\<close>

text \<open>
  The exit status of the proxy tells the cause: 1 if and only if no URL is configured, 2 if the URL
  is refused with \<open>ConnectURIError\<close>, 3 if the redemption fails with \<open>HandoffError\<close>; in these cases no
  message is forwarded. Status 0 means that a session was opened with the resolved endpoint and token.
\<close>

theorem proxy_exit_status:
  assumes "run (proxy_run L env A K bridge) s = (Inr st, s')"
  shows "(st = 1 \<longleftrightarrow> proxy_url env = []) \<and> st \<in> {0, 1, 2, 3}
    \<and> (st = 0 \<longrightarrow> (\<exists>endpt token s1. run (proxy_resolve L A K (proxy_url env)) s = (Inr (endpt, token), s1)
          \<and> run (bridge endpt token) s1 = (Inr (), s')))
    \<and> (st \<in> {2, 3} \<longrightarrow> (\<exists>e. run (proxy_resolve L A K (proxy_url env)) s = (Inl e, s')
          \<and> is_a e (Sdk (if st = 2 then ConnectURIError else HandoffError))))"
proof (cases "proxy_url env = []")
  case True
  with assms show ?thesis by (auto simp: proxy_run_def run_simps sres_def)
next
  case False
  obtain r s1 where r: "run (proxy_resolve L A K (proxy_url env)) s = (r, s1)" by force
  show ?thesis
  proof (cases r)
    case (Inl e)
    with False r assms show ?thesis
      by (auto simp: proxy_run_def run_simps sthen_def sres_def Let_def split: if_splits)
  next
    case (Inr p)
    then obtain endpt token where "p = (endpt, token)" by force
    with False r assms Inr show ?thesis
      by (auto simp: proxy_run_def run_simps sthen_def sbind_def sres_def Let_def split: prod.splits sum.splits)
  qed
qed

theorem proxy_exit_status_witness:
  "run (proxy_run toy_lib (\<lambda>_. None) ex_granting ex_keyring (\<lambda>_ _. Ret (Inr ()))) [] = (Inr 1, [])
     \<and> proxy_url (\<lambda>_. None) = []"
proof -
  have r: "run (proxy_run toy_lib (\<lambda>_. None) ex_granting ex_keyring (\<lambda>_ _. Ret (Inr ()))) [] = (Inr 1, [])"
    by (simp add: proxy_run_def proxy_url_def strip_def rstrip_def lstrip_def run_simps sres_def)
  with proxy_exit_status [OF r] show ?thesis by simp
qed

end
