(* ===== verification/Hermes_Text.thy ===== *)
theory Hermes_Text
  imports Plugin_Base
begin

text \<open>
  The texts that the Hermes plug-in puts into the user's chat session, from
  \<open>integrations/plugins/hermes-agent/shadownet_hermes_plugin/_adapter.py\<close>: they are the instructions by which the
  agent acts on what other agents sent, so they are kept word for word. Values that come out of a
  decoded event or body can be anything JSON can carry and are printed as an f-string prints them.
\<close>

section \<open>Printing\<close>

definition dq :: ustr where "dq = [34]"

definition sq :: ustr where "sq = [39]"

definition dash :: ustr where "dash = [0x2014]"

definition arrow :: ustr where "arrow = [0x2192]"

definition fstr :: "json \<Rightarrow> ustr" where
  "fstr j = u (str_json j)"

section \<open>Plans\<close>

text \<open>
  \<open>read_iso\<close> stands for \<open>datetime.fromisoformat(s).strftime("%A, %B %-d at %-I:%M %p")\<close>, \<open>None\<close> for a \<open>ValueError\<close>; only a
  string is parsed, every other value raises \<open>TypeError\<close>.
\<close>

definition format_when :: "(string \<Rightarrow> string option) \<Rightarrow> json \<Rightarrow> json" where
  "format_when read_iso v =
     (if \<not> truthy v then JStr ''''
      else
      (case v of
         JStr s \<Rightarrow> (case read_iso s of Some t \<Rightarrow> JStr t | None \<Rightarrow> v)
       | _ \<Rightarrow> v))"

definition summarize_plan :: "(string \<Rightarrow> string option) \<Rightarrow> json \<Rightarrow> ustr \<Rightarrow> ustr" where
  "summarize_plan read_iso plan fallback =
     (case plan of
        JObj d \<Rightarrow>
          (let activity = get_or_else d ''activity'' (JStr '''');
               when_raw = get_or_else d ''when'' (JStr '''');
               when_text = (if truthy when_raw then format_when read_iso when_raw else JStr '''');
               where_label = (case get_or_else d ''where'' (JObj []) of
                   JObj w \<Rightarrow> get_or_else w ''name'' (get_or_else w ''address'' (get_or_else w ''city'' (JStr '''')))
                 | _ \<Rightarrow> JStr '''');
               parts = (if truthy activity then [fstr activity] else [])
                 @ (if truthy where_label then [u ''at '' @ fstr where_label] else [])
                 @ (if truthy when_text then [u ''on '' @ fstr when_text] else [])
           in if parts = [] then take 300 (u (json_dumps plan)) else join_with (u '' '') parts)
      | _ \<Rightarrow> (if fallback \<noteq> [] then take 300 fallback else u ''<no details>''))"

text \<open>\<open>body_data.get(k, "") if isinstance(body_data, dict) else ""\<close>.\<close>

definition data_item :: "json \<Rightarrow> string \<Rightarrow> json" where
  "data_item v k = (case v of JObj d \<Rightarrow> (case dict_get d k of Some x \<Rightarrow> x | None \<Rightarrow> JStr '''') | _ \<Rightarrow> JStr '''')"

section \<open>Injected texts\<close>

definition coordinate_text :: "ustr \<Rightarrow> ustr \<Rightarrow> ustr \<Rightarrow> ustr \<Rightarrow> json \<Rightarrow> ustr" where
  "coordinate_text sender_name ctx mid btext data =
     (let activity = data_item data ''activity'';
          details = data_item data ''details'';
          details_line = (if truthy details then nl @ u ''Details: '' @ fstr details else [])
      in concat [u ''[SHADOWNET COORDINATION REQUEST from '', sender_name, u '']'', nl, u ''context_id: '', ctx, nl,
        u ''message_id: '', mid, nl, u ''Activity: '', fstr activity, details_line, nl, u ''Message: '',
        btext, nl, nl, u ''INSTRUCTIONS: '', sender_name, u '' wants to coordinate '', dq, fstr activity,
        dq, u ''. You MUST propose a concrete plan IMMEDIATELY and AUTONOMOUSLY '', dash,
        u '' do NOT ask your user for input.'', nl, nl,
        u ''1. Check your user's calendar/availability if you have access. If not, assume they '',
        u ''are free.'', nl, u ''2. Determine your user's city from memory/profile.'', nl,
        u ''3. Search the web for a real, specific venue that fits the activity (e.g. a popular '',
        u ''cafe for coffee, a well-reviewed restaurant for dinner). Never use '', dq, u ''TBD'', dq,
        u '' or placeholders.'', nl, u ''4. Interpret the timing from the details (e.g. '', dq,
        u ''Sunday morning'', dq, u '' '', arrow,
        u '' next Sunday 10:00 AM). Pick a concrete ISO datetime.'', nl, nl,
        u ''Then call mcp_shadownet_respond with:'', nl, u ''  contextId='', dq, ctx, dq, nl,
        u ''  body={'', nl, u ''    '', dq, u ''text'', dq, u '': '', dq,
        u ''<activity> at <venue> on <date/time>'', dq, u '','', nl, u ''    '', dq, u ''intent'', dq,
        u '': '', dq, u ''urn:shadownet:intent:propose_plan_v1'', dq, u '','', nl, u ''    '', dq,
        u ''data'', dq, u '': {'', nl, u ''      '', dq, u ''activity'', dq, u '': '', dq, fstr activity,
        dq, u '','', nl, u ''      '', dq, u ''when'', dq, u '': '', dq, u ''<ISO datetime you chose>'', dq,
        u '','', nl, u ''      '', dq, u ''where'', dq, u '': {'', dq, u ''name'', dq, u '': '', dq,
        u ''<real venue>'', dq, u '', '', dq, u ''city'', dq, u '': '', dq, u ''<city>'', dq, u ''},'', nl,
        u ''      '', dq, u ''participants'', dq, u '': []'', nl, u ''    }'', nl, u ''  }'', nl, nl,
        u ''After calling respond, say only: '', dq, u ''Replying to '', sender_name, sq, u ''s agent.'',
        dq, nl, u ''Do not reveal proposal details '', dash,
        u '' this step is autonomous. Do not call respond more than once.''])"

definition propose_text :: "ustr \<Rightarrow> ustr \<Rightarrow> ustr \<Rightarrow> ustr \<Rightarrow> ustr \<Rightarrow> ustr" where
  "propose_text sender_name ctx mid plan_summary plan_json =
      concat [u ''[SHADOWNET PLAN PROPOSED by '', sender_name, u '']'', nl, u ''context_id: '', ctx, nl,
        u ''message_id: '', mid, nl, u ''Plan: '', plan_summary, nl, u ''PlanObject:'', nl, plan_json, nl,
        nl, u ''INSTRUCTIONS: '', sender_name,
        u '' proposed a plan. Present it to the user in a friendly, natural way and ask them to '',
        u ''confirm. Use '', dq, sender_name, dq,
        u '' when referring to the contact. Never show raw identifiers, ISO timestamps, or JSON '',
        u ''to the user.'', nl]
      @ concat [u ''When they say yes/confirm/ok, call mcp_shadownet_send with:'', nl,
        u ''  to='', dq, sender_name, dq, nl, u ''  contextId='', dq, ctx, dq, nl, u ''  body={'', nl,
        u ''    '', dq, u ''text'', dq, u '': '', dq, u ''Confirmed.'', dq, u '','', nl, u ''    '', dq,
        u ''intent'', dq, u '': '', dq, u ''urn:shadownet:intent:confirm_plan_v1'', dq, u '','', nl,
        u ''    '', dq, u ''data'', dq, u '': '', plan_json, nl, u ''  }'', nl,
        u ''After sending, tell the user: '', dq, u ''Sent confirmation to '', sender_name, u '' '', dash,
        u '' waiting for them to accept.'', dq, u '' Do NOT say the plan is confirmed or finalized yet.'',
        nl, u ''If they decline, just say you'll let '', sender_name, u '' know.'']"

definition confirm_text :: "ustr \<Rightarrow> ustr \<Rightarrow> ustr \<Rightarrow> ustr \<Rightarrow> json \<Rightarrow> ustr" where
  "confirm_text sender_name ctx mid plan_summary activity =
      concat [u ''[SHADOWNET PLAN from '', sender_name, u '']'', nl, u ''context_id: '', ctx, nl,
        u ''message_id: '', mid, nl, u ''Plan: '', plan_summary, nl, nl, u ''INSTRUCTIONS: '', sender_name,
        u '' wants to meet up with your user. Your agent already proposed a plan and '', sender_name,
        u '' agreed. Present this to your user as: '', dq, sender_name, u '' wants to '',
        (if truthy activity then fstr activity else u ''meet up''), u '' with you '', dash,
        u '' <plan details in natural language>. Would you like to accept?'', dq, nl,
        u ''Give the user full context '', dash,
        u '' they have NOT seen this plan before. Never show raw identifiers, ISO timestamps, '',
        u ''or JSON.'', nl, u ''Do NOT call respond yet '', dash, u '' wait for the user to say yes.'', nl,
        u ''When the user confirms, call mcp_shadownet_respond with:'', nl, u ''  contextId='', dq, ctx, dq,
        nl, u ''  body={'', nl, u ''    '', dq, u ''text'', dq, u '': '', dq, u ''Accepted.'', dq, u '','',
        nl, u ''    '', dq, u ''intent'', dq, u '': '', dq, u ''urn:shadownet:intent:accept_plan_v1'', dq,
        u '','', nl, u ''    '', dq, u ''data'', dq, u '': {'', dq, u ''acceptsMessageId'', dq, u '': '',
        dq, mid, dq, u ''}'', nl, u ''  }'', nl, u ''If they decline, just say you'll let '', sender_name,
        u '' know.'']"

definition accept_text :: "ustr \<Rightarrow> ustr \<Rightarrow> ustr \<Rightarrow> ustr" where
  "accept_text sender_name ctx mid =
      concat [u ''[SHADOWNET PLAN ACCEPTED by '', sender_name, u '']'', nl, u ''context_id: '', ctx, nl,
        u ''message_id: '', mid, nl, u ''The plan is fully confirmed by both sides.'', nl, nl,
        u ''INSTRUCTIONS: Tell your user the plan is confirmed '', dash, u '' '', sender_name,
        u '' accepted. Be brief and celebratory. Never show raw identifiers or ISO timestamps. '',
        u ''No tool calls needed.'']"

text \<open>
  \<open>_build_coordination_inject\<close>, with the parameter \<open>sender\<close>, which appears in none of the texts.
\<close>

definition build_coordination_inject ::
  "(string \<Rightarrow> string option) \<Rightarrow> ustr \<Rightarrow> ustr \<Rightarrow> ustr \<Rightarrow> ustr \<Rightarrow> string \<Rightarrow> ustr \<Rightarrow> json \<Rightarrow> ustr"
where
  "build_coordination_inject read_iso sender sender_name ctx mid intent btext data =
     (if intent = COORDINATE_V1_URI then coordinate_text sender_name ctx mid btext data
      else if intent = PROPOSE_PLAN_V1_URI
      then propose_text sender_name ctx mid (summarize_plan read_iso data btext) (dumps_indent 0 data)
      else if intent = CONFIRM_PLAN_V1_URI
      then confirm_text sender_name ctx mid (summarize_plan read_iso data btext) (data_item data ''activity'')
      else if intent = ACCEPT_PLAN_V1_URI then accept_text sender_name ctx mid
      else concat [u ''[SHADOWNET message from '', sender_name, u '']'', nl, u ''context_id: '', ctx, nl, btext])"

definition build_task_update_inject :: "ustr \<Rightarrow> ustr \<Rightarrow> ustr \<Rightarrow> ustr" where
  "build_task_update_inject ctx task status =
      concat [u ''[SHADOWNET TASK UPDATE]'', nl, u ''context_id: '', ctx, nl, u ''task_id: '', task, nl,
        u ''status: '', status, nl, nl,
        u ''INSTRUCTIONS: A task's state changed. If this is the first time the user is hearing '',
        u ''about this status (or it's a terminal state like 'completed', 'failed', or 'canceled'), '',
        u ''tell them concisely. Otherwise stay silent '', dash,
        u '' no tool calls, no acknowledgement. Reference the context_id above if the user asks '',
        u ''for more detail.'']"

text \<open>The text of \<open>_inject_free_form\<close> and that of \<open>_surface_inbound_message\<close>.\<close>

definition free_form_text :: "ustr \<Rightarrow> ustr \<Rightarrow> ustr \<Rightarrow> ustr \<Rightarrow> ustr" where
  "free_form_text sender ctx mid btext =
      concat [u ''[SHADOWNET MESSAGE from '', sender, u '']'', nl, u ''context_id: '', ctx, nl,
        u ''message_id: '', mid, nl, btext, nl, nl,
        u ''INSTRUCTIONS: Surface this message to the user. If they want to reply, use '',
        u ''mcp_shadownet_respond with the context_id above.'']"

definition surface_text :: "ustr \<Rightarrow> ustr \<Rightarrow> ustr \<Rightarrow> ustr \<Rightarrow> ustr" where
  "surface_text sender ctx mid btext =
      concat [u ''[SHADOWNET MESSAGE from '', sender, u '']'', nl, u ''context_id: '', ctx, nl,
        u ''message_id: '', mid, nl, nl, btext]"

end
