(* ===== verification/Turns.thy ===== *)
theory Turns
  imports Effects
begin

text \<open>
  Invariants of a pool of tasks that hold whenever a turn ends, and not after each of its atomic actions: between two
  suspension points a task may break the invariant and restore it, because no other task runs in between.
\<close>

text \<open>
  \<open>turnwise Q M t P\<close>: started in a state of which \<open>M\<close> holds, \<open>t\<close> satisfies \<open>Q\<close> whenever it suspends, relies on \<open>Q\<close> when it
  goes on, and ends with an outcome and a state of which \<open>P\<close> holds.
\<close>

inductive turnwise :: "('s \<Rightarrow> bool) \<Rightarrow> ('s \<Rightarrow> bool) \<Rightarrow> ('s, 'a) task \<Rightarrow> ('a res \<Rightarrow> 's \<Rightarrow> bool) \<Rightarrow> bool" for Q where
  Ret: "(\<forall>s. M s \<longrightarrow> P r s) \<Longrightarrow> turnwise Q M (Ret r) P"
| Pause: "(\<forall>s. M s \<longrightarrow> Q s) \<Longrightarrow> turnwise Q Q t P \<Longrightarrow> turnwise Q M (Pause t) P"
| Act: "(\<forall>s. M s \<longrightarrow> (\<exists>M'. M' (fst (g s)) \<and> turnwise Q M' (snd (g s)) P)) \<Longrightarrow> turnwise Q M (Act g) P"

lemma turnwise_weaken: "turnwise Q M t P \<Longrightarrow> (\<And>s. M' s \<Longrightarrow> M s) \<Longrightarrow> turnwise Q M' t P"
proof (induction arbitrary: M' rule: turnwise.induct)
  case (Act M g P)
  then show ?case by (intro turnwise.Act) blast
qed (auto intro: turnwise.intros)

lemma turnwise_tthen: "turnwise Q M t R \<Longrightarrow> (\<And>r. turnwise Q (R r) (k r) P) \<Longrightarrow> turnwise Q M (tthen t k) P"
proof (induction rule: turnwise.induct)
  case (Ret M R r)
  then show ?case using turnwise_weaken [of Q "R r" "k r" P M] by simp
next
  case (Act M g R)
  have "\<exists>M'. M' (fst (map_prod id (\<lambda>t. tthen t k) (g s))) \<and> turnwise Q M' (snd (map_prod id (\<lambda>t. tthen t k) (g s))) P" if "M s" for s
    using Act.IH that Act.prems by (cases "g s") fastforce
  then show ?case by (auto intro: turnwise.Act)
qed (auto intro: turnwise.Pause)

lemma turnwise_tbind:
  assumes "turnwise Q M t R" "\<And>x. turnwise Q (R (Inr x)) (f x) P" "\<And>e s. R (Inl e) s \<Longrightarrow> P (Inl e) s"
  shows "turnwise Q M (tbind t f) P"
  unfolding tbind_def
proof (rule turnwise_tthen [OF assms(1)])
  fix r
  show "turnwise Q (R r) (case r of Inl e \<Rightarrow> Ret (Inl e) | Inr x \<Rightarrow> f x) P"
    using assms(2,3) by (cases r) (auto intro: turnwise.Ret)
qed

lemma turnwise_atomic: "(\<And>s r s'. M s \<Longrightarrow> m s = (r, s') \<Longrightarrow> P r s') \<Longrightarrow> turnwise Q M (atomic m) P"
  unfolding atomic_def
proof (rule turnwise.Act, intro allI impI)
  fix s
  assume M: "\<And>s r s'. M s \<Longrightarrow> m s = (r, s') \<Longrightarrow> P r s'" and "M s"
  obtain r s' where "m s = (r, s')" by force
  moreover from this M \<open>M s\<close> have "turnwise Q (\<lambda>t. t = s') (Ret r) P" by (auto intro: turnwise.Ret)
  ultimately show "\<exists>M'. M' (fst (case m s of (r, s') \<Rightarrow> (s', Ret r))) \<and> turnwise Q M' (snd (case m s of (r, s') \<Rightarrow> (s', Ret r))) P"
    by (intro exI [of _ "\<lambda>t. t = s'"]) simp
qed

text \<open>A task that keeps the invariant at every action keeps it at every turn.\<close>

lemma turnwise_tkeeps: "tkeeps Q t \<Longrightarrow> turnwise Q Q t (\<lambda>_. Q)"
proof (induction rule: tkeeps.induct)
  case (Act g)
  then show ?case by (intro turnwise.Act) blast
qed (auto intro: turnwise.intros)

abbreviation keeps_turns :: "('s \<Rightarrow> bool) \<Rightarrow> ('s, 'a) task \<Rightarrow> bool" where
  "keeps_turns Q t \<equiv> turnwise Q Q t (\<lambda>_. Q)"

named_theorems turn_intros \<open>tasks that keep an invariant at the end of their turns\<close>

lemma keeps_turns_Ret [turn_intros]: "keeps_turns Q (Ret r)"
  by (simp add: turnwise.Ret)

lemma keeps_turns_tthen [turn_intros]: "keeps_turns Q t \<Longrightarrow> (\<And>r. keeps_turns Q (k r)) \<Longrightarrow> keeps_turns Q (tthen t k)"
  by (rule turnwise_tthen)

lemma keeps_turns_tbind [turn_intros]: "keeps_turns Q t \<Longrightarrow> (\<And>x. keeps_turns Q (f x)) \<Longrightarrow> keeps_turns Q (tbind t f)"
  by (rule turnwise_tbind)

lemma keeps_turns_atomic [turn_intros]: "keeps Q m \<Longrightarrow> keeps_turns Q (atomic m)"
  by (intro turnwise_tkeeps tkeeps_atomic)

lemma keeps_turns_suspending [turn_intros]: "keeps Q m \<Longrightarrow> keeps_turns Q (suspending m)"
  by (intro turnwise_tkeeps tkeeps_suspending)

lemma keeps_turns_cases [turn_intros]:
  "(b \<Longrightarrow> keeps_turns Q t) \<Longrightarrow> (\<not> b \<Longrightarrow> keeps_turns Q v) \<Longrightarrow> keeps_turns Q (if b then t else v)"
  "keeps_turns Q t \<Longrightarrow> (\<And>x. keeps_turns Q (f x)) \<Longrightarrow> keeps_turns Q (case w of None \<Rightarrow> t | Some x \<Rightarrow> f x)"
  "(\<And>e. keeps_turns Q (g e)) \<Longrightarrow> (\<And>x. keeps_turns Q (h x)) \<Longrightarrow> keeps_turns Q (case r of Inl e \<Rightarrow> g e | Inr x \<Rightarrow> h x)"
  by (simp, cases w, simp_all, cases r, simp_all)

inductive_cases turnwise_RetE: "turnwise Q M (Ret r) P"

lemma turn_turnwise: "turnwise Q M t P \<Longrightarrow> M s \<Longrightarrow> turn t s = (t', s') \<Longrightarrow>
    (\<exists>r. t' = Ret r \<and> P r s') \<or> Q s' \<and> turnwise Q Q t' P"
proof (induction arbitrary: s rule: turnwise.induct)
  case (Act M g P)
  obtain u c where g: "g s = (u, c)" by force
  with Act.IH Act.prems obtain M' where "M' u"
    "turn c u = (t', s') \<longrightarrow> (\<exists>r. t' = Ret r \<and> P r s') \<or> Q s' \<and> turnwise Q Q t' P" by fastforce
  with g Act.prems(2) show ?case by auto
qed auto

lemma interleaved_turns: "interleaved ts s rs s' \<Longrightarrow> Q s \<Longrightarrow> list_all (keeps_turns Q) ts \<Longrightarrow> Q s'"
proof (induction rule: interleaved.induct)
  case (turn ts i t' s' rs s'' s)
  then have "keeps_turns Q (ts ! i)" by (simp add: list_all_length)
  then have "Q s' \<and> keeps_turns Q t'"
    using turn_turnwise [of Q Q "ts ! i" "\<lambda>_. Q" s t' s'] turn by (auto intro: turnwise.Ret)
  with turn show ?case by (auto simp: list_all_length nth_list_update)
qed simp

end
