(* ===== verification/Hermes_Adapter.thy ===== *)
theory Hermes_Adapter
  imports Complex_Main Hermes_Text Turns
begin

text \<open>
  The platform adapter of the Hermes plug-in, from
  \<open>integrations/plugins/hermes-agent/shadownet_hermes_plugin/_adapter.py\<close>: sending with a cooldown per contact, the
  inbox loop, the routing of events into the user's chat session with a cooldown per thread, the
  configuration, and the opening and closing of the session. The host (its gateway, its other
  adapters, \<open>handle_message\<close>) and the MCP session are parameters. Methods of the adapter are tasks, because sends
  of the host run between the turns of the inbox loop.
\<close>

section \<open>The host\<close>

text \<open>A \<open>SessionSource\<close>, built by its constructor or by the host's \<open>build_source\<close>, with the arguments given.\<close>

datatype chat_source =
    SessionSource (src_platform: string) (src_chat: string) (src_user: string) (src_user_name: string)
  | BuildSource (bs_chat: json) (bs_chat_type: string) (bs_user: json) (bs_user_name: json)

text \<open>\<open>MessageEvent\<close>; \<open>None\<close> for an argument that is left to its default.\<close>

record MessageEvent =
  ev_text :: ustr
  ev_source :: chat_source
  ev_internal :: "bool option"
  ev_raw_message :: obj
  ev_auto_skill :: "string option"

type_synonym 'w handler = "MessageEvent \<Rightarrow> ('w, unit) task"

record 'w gateway =
  gw_Platform :: "string \<Rightarrow> string res"
  gw_adapters :: "string \<Rightarrow> 'w handler option"

section \<open>The adapter\<close>

text \<open>What stays fixed while the adapter is connected.\<close>

record 'w adapter =
  ad_environ :: environ
  ad_client :: "'w session"
  ad_gateway :: "'w gateway option"
  ad_handle_message :: "'w handler"
  ad_long_poll_timeout :: int
  ad_read_iso :: "string \<Rightarrow> string option"

text \<open>
  Its state: the two dictionaries of timestamps, the cursor of the inbox loop, the number of its
  pauses and of the events whose dispatch failed, the clock, whose \<open>n\<close>-th reading is \<open>h_wall n\<close>, and the surroundings on
  which the session and the host act. \<open>h_sent\<close> and \<open>h_notified\<close> are histories, which the code does not keep: the recipient of
  every \<open>send\<close> call that the adapter makes on its client, with the time \<open>now\<close> at which the adapter decided on it, and every event that
  it gives to a \<open>handle_message\<close>, with the key and the time of the cooldown it has passed, if there was one.
\<close>

type_synonym stamps = "(string \<times> rat) list"

record 'w hermes =
  send_timestamps :: stamps
  notify_timestamps :: stamps
  h_last_event_id :: "string option"
  h_sleeps :: nat
  h_failures :: nat
  h_wall :: "nat \<Rightarrow> rat"
  h_tick :: nat
  h_sent :: stamps
  h_notified :: "((string \<times> rat) option \<times> MessageEvent) list"
  h_world :: 'w

text \<open>\<open>time.time()\<close>.\<close>

definition hermes_time :: "('w hermes, rat) st" where
  "hermes_time = (\<lambda>s. (Inr (h_wall s (h_tick s)), s\<lparr>h_tick := Suc (h_tick s)\<rparr>))"

text \<open>An awaited call of the session or of the host, which acts on the surroundings only.\<close>

primrec in_world :: "('w, 'a) task \<Rightarrow> ('w hermes, 'a) task" where
  "in_world (Ret r) = Ret r"
| "in_world (Act g) = Act (\<lambda>s. map_prod (\<lambda>w. s\<lparr>h_world := w\<rparr>) in_world (g (h_world s)))"
| "in_world (Pause t) = Pause (in_world t)"

definition env_get :: "environ \<Rightarrow> string \<Rightarrow> string \<Rightarrow> string" where
  "env_get env name dflt = (case env name of Some v \<Rightarrow> v | None \<Rightarrow> dflt)"

subsection \<open>Cooldowns\<close>

text \<open>
  \<open>_evict_stale_timestamps\<close>. It is called with one of the two dictionaries, given here by its field (\<open>get\<close>) and
  the update of that field (\<open>upd\<close>).
\<close>

definition stale :: "rat \<Rightarrow> int \<Rightarrow> stamps \<Rightarrow> string list" where
  "stale now max_age ts = map fst (filter (\<lambda>(k, v). now - v > of_int max_age) ts)"

definition evict_stale_timestamps ::
  "('w hermes \<Rightarrow> stamps) \<Rightarrow> ((stamps \<Rightarrow> stamps) \<Rightarrow> 'w hermes \<Rightarrow> 'w hermes) \<Rightarrow> int \<Rightarrow> ('w hermes, unit) st"
where
  "evict_stale_timestamps get upd max_age =
     sbind hermes_time (\<lambda>now. supd (\<lambda>s. upd (fold AList.delete (stale now max_age (get s))) s))"

text \<open>
  The check that \<open>send\<close> makes for a contact and the injections make for a thread: whether the key may
  pass at the time \<open>now\<close>; if so, the time is recorded and old entries are evicted.
\<close>

definition throttle ::
  "('w hermes \<Rightarrow> stamps) \<Rightarrow> ((stamps \<Rightarrow> stamps) \<Rightarrow> 'w hermes \<Rightarrow> 'w hermes) \<Rightarrow> string \<Rightarrow> int \<Rightarrow> rat \<Rightarrow> ('w hermes, bool) st"
where
  "throttle get upd key cooldown now =
     sbind (sget (\<lambda>s. case dict_get (get s) key of Some t \<Rightarrow> t | None \<Rightarrow> 0)) (\<lambda>last.
     if now - last < of_int cooldown then sret False
     else
       sbind (supd (upd (dict_set key now))) (\<lambda>_.
       sbind (evict_stale_timestamps get upd (cooldown * 2)) (\<lambda>_.
       sret True)))"

definition int_env :: "environ \<Rightarrow> string \<Rightarrow> string \<Rightarrow> int res" where
  "int_env env name dflt =
     (case int_of_str (env_get env name dflt) of
        Some n \<Rightarrow> Inr n
      | None \<Rightarrow> raise (Builtin ValueError) (''invalid literal for int() with base 10: '' @ repr (env_get env name dflt)))"

definition send_cooldown :: "'w adapter \<Rightarrow> int res" where
  "send_cooldown A = int_env (ad_environ A) ''SHADOWNET_SEND_COOLDOWN_SECONDS'' ''120''"

definition notify_cooldown :: "'w adapter \<Rightarrow> int res" where
  "notify_cooldown A = int_env (ad_environ A) ''SHADOWNET_NOTIFY_COOLDOWN_SECONDS'' ''60''"

text \<open>The checks of \<open>send\<close> and of the injections: the local \<open>now\<close> when the key passes, \<open>None\<close> when it is suppressed.\<close>

definition admit_send :: "'w adapter \<Rightarrow> string \<Rightarrow> ('w hermes, rat option) st" where
  "admit_send A chat_id =
     sbind (sres (send_cooldown A)) (\<lambda>cooldown.
     sbind hermes_time (\<lambda>now.
     sbind (throttle send_timestamps send_timestamps_update chat_id cooldown now) (\<lambda>passes.
     sret (if passes then Some now else None))))"

definition admit_notify :: "'w adapter \<Rightarrow> string \<Rightarrow> ('w hermes, rat option) st" where
  "admit_notify A key =
     sbind hermes_time (\<lambda>now.
     sbind (sres (notify_cooldown A)) (\<lambda>cooldown.
     sbind (throttle notify_timestamps notify_timestamps_update key cooldown now) (\<lambda>passes.
     sret (if passes then Some now else None))))"

subsection \<open>\<open>send\<close>\<close>

definition text_message :: "string \<Rightarrow> string \<Rightarrow> SendInput" where
  "text_message chat_id content =
     \<lparr>si_to = chat_id,
      si_body = \<lparr>body_text = Some content, body_intent = None, body_data = None, body_extra = []\<rparr>,
      si_context_id = None\<rparr>"

text \<open>\<open>await self._client.send(...)\<close>, decided on at \<open>now\<close>: the history has every such call.\<close>

definition send_call :: "lib \<Rightarrow> 'w adapter \<Rightarrow> rat \<Rightarrow> SendInput \<Rightarrow> ('w hermes, SendOutput) task" where
  "send_call L A now msg =
     tbind (atomic (supd (\<lambda>s. s\<lparr>h_sent := h_sent s @ [(si_to msg, now)]\<rparr>))) (\<lambda>_.
     in_world (client_send L (ad_client A) msg))"

text \<open>The value is the \<open>success\<close> of the \<open>SendResult\<close>.\<close>

definition hermes_send :: "lib \<Rightarrow> 'w adapter \<Rightarrow> string \<Rightarrow> string \<Rightarrow> ('w hermes, bool) task" where
  "hermes_send L A chat_id content =
     tbind (atomic (admit_send A chat_id)) (\<lambda>admitted.
     (case admitted of
        None \<Rightarrow> Ret (Inr True)
      | Some now \<Rightarrow>
          tbind (send_call L A now (text_message chat_id content)) (\<lambda>_.
          Ret (Inr True))))"

subsection \<open>Injecting into a chat session\<close>

text \<open>\<open>_resolve_notify_target\<close>: the platform, the chat and the \<open>handle_message\<close> of that platform's adapter.\<close>

definition resolve_notify_target :: "'w adapter \<Rightarrow> string \<Rightarrow> (string \<times> string \<times> 'w handler) option res" where
  "resolve_notify_target A target =
     (if CHR '':'' \<notin> set target then Inr None
      else
      (let (platform_name, chat_id) = partition_on CHR '':'' target in
       (case ad_gateway A of
          None \<Rightarrow> Inr None
        | Some gateway \<Rightarrow>
            bind (gw_Platform gateway platform_name) (\<lambda>platform.
              (case gw_adapters gateway platform of
                 None \<Rightarrow> Inr None
               | Some handle \<Rightarrow> Inr (Some (platform, chat_id, handle)))))))"

text \<open>
  \<open>await adapter.handle_message(event)\<close> in a \<open>try\<close> whose \<open>except Exception\<close> only logs. The history has every such call; \<open>stamp\<close> is the
  key and the time of the cooldown that the event has passed.
\<close>

definition deliver :: "(string \<times> rat) option \<Rightarrow> 'w handler \<Rightarrow> MessageEvent \<Rightarrow> ('w hermes, unit) task" where
  "deliver stamp handle event =
     tbind (atomic (supd (\<lambda>s. s\<lparr>h_notified := h_notified s @ [(stamp, event)]\<rparr>))) (\<lambda>_.
     tthen (in_world (handle event)) (\<lambda>_. Ret (Inr ())))"

definition user_session :: "string \<Rightarrow> string \<Rightarrow> chat_source" where
  "user_session platform chat_id = SessionSource platform chat_id chat_id ''shadownet''"

text \<open>What follows the cooldown of an injection: the target is resolved and the event built for it is delivered.\<close>

definition inject_to ::
  "(string \<times> rat) option \<Rightarrow> 'w adapter \<Rightarrow> string \<Rightarrow> (chat_source \<Rightarrow> MessageEvent) \<Rightarrow> ('w hermes, unit) task"
where
  "inject_to stamp A target event =
     tbind (Ret (resolve_notify_target A target)) (\<lambda>t.
       (case t of
          None \<Rightarrow> Ret (Inr ())
        | Some (platform, chat_id, handle) \<Rightarrow> deliver stamp handle (event (user_session platform chat_id))))"

definition coordination_event ::
  "'w adapter \<Rightarrow> json \<Rightarrow> json \<Rightarrow> json \<Rightarrow> json \<Rightarrow> string \<Rightarrow> string \<Rightarrow> obj \<Rightarrow> chat_source \<Rightarrow> MessageEvent"
where
  "coordination_event A sender sender_name ctx mid intent btext bdata source =
     \<lparr>ev_text = build_coordination_inject (ad_read_iso A) (fstr sender) (fstr sender_name) (fstr ctx) (fstr mid) intent
        (u btext) (JObj bdata),
      ev_source = source, ev_internal = Some True,
      ev_raw_message = [(''intent'', JStr intent), (''context_id'', ctx), (''message_id'', mid)],
      ev_auto_skill = Some ''shadownet-coordinate''\<rparr>"

definition coordination_key :: "json \<Rightarrow> string \<Rightarrow> json \<Rightarrow> string" where
  "coordination_key sender intent ctx = str_json sender @ '':'' @ intent @ '':'' @ str_json ctx"

definition inject_coordination_event ::
  "'w adapter \<Rightarrow> json \<Rightarrow> json \<Rightarrow> json \<Rightarrow> json \<Rightarrow> string \<Rightarrow> string \<Rightarrow> obj \<Rightarrow> string \<Rightarrow> ('w hermes, unit) task"
where
  "inject_coordination_event A sender sender_name ctx mid intent btext bdata target =
     (if target = [] then Ret (Inr ())
      else
        (let key = coordination_key sender intent ctx in
         tbind (atomic (admit_notify A key)) (\<lambda>admitted.
           (case admitted of
              None \<Rightarrow> Ret (Inr ())
            | Some now \<Rightarrow>
                inject_to (Some (key, now)) A target (coordination_event A sender sender_name ctx mid intent btext bdata)))))"

definition free_form_event :: "json \<Rightarrow> json \<Rightarrow> json \<Rightarrow> string \<Rightarrow> chat_source \<Rightarrow> MessageEvent" where
  "free_form_event sender ctx mid btext source =
     \<lparr>ev_text = free_form_text (fstr sender) (fstr ctx) (fstr mid) (u btext),
      ev_source = source, ev_internal = Some True,
      ev_raw_message = [(''context_id'', ctx), (''message_id'', mid)],
      ev_auto_skill = Some ''shadownet-inbox''\<rparr>"

definition inject_free_form :: "'w adapter \<Rightarrow> json \<Rightarrow> json \<Rightarrow> json \<Rightarrow> string \<Rightarrow> string \<Rightarrow> ('w hermes, unit) task" where
  "inject_free_form A sender ctx mid btext target = inject_to None A target (free_form_event sender ctx mid btext)"

definition surface_event :: "json \<Rightarrow> json \<Rightarrow> json \<Rightarrow> json \<Rightarrow> string \<Rightarrow> json \<Rightarrow> MessageEvent" where
  "surface_event sender sender_name ctx mid btext event_id =
     \<lparr>ev_text = surface_text (fstr sender) (fstr ctx) (fstr mid) (u btext),
      ev_source = BuildSource sender ''dm'' sender (if truthy sender_name then sender_name else sender),
      ev_internal = None,
      ev_raw_message = [(''event_id'', event_id), (''context_id'', ctx), (''message_id'', mid)],
      ev_auto_skill = Some ''shadownet-inbox''\<rparr>"

definition surface_inbound_message ::
  "'w adapter \<Rightarrow> json \<Rightarrow> json \<Rightarrow> json \<Rightarrow> json \<Rightarrow> string \<Rightarrow> json \<Rightarrow> ('w hermes, unit) task"
where
  "surface_inbound_message A sender sender_name ctx mid btext event_id =
     deliver None (ad_handle_message A) (surface_event sender sender_name ctx mid btext event_id)"

definition task_update_event :: "json \<Rightarrow> json \<Rightarrow> json \<Rightarrow> chat_source \<Rightarrow> MessageEvent" where
  "task_update_event ctx task status source =
     \<lparr>ev_text = build_task_update_inject (fstr ctx) (fstr task) (fstr status),
      ev_source = source, ev_internal = Some True,
      ev_raw_message = [(''context_id'', ctx), (''task_id'', task), (''status'', status), (''event_type'', JStr ''task.update'')],
      ev_auto_skill = None\<rparr>"

definition task_update_key :: "json \<Rightarrow> json \<Rightarrow> string" where
  "task_update_key ctx status = ''task.update:'' @ str_json ctx @ '':'' @ str_json status"

definition no_get :: "('s, 'a) task" where
  "no_get = Ret (raise (Builtin AttributeError) ''object has no attribute get'')"

definition inject_task_update :: "'w adapter \<Rightarrow> json \<Rightarrow> string \<Rightarrow> ('w hermes, unit) task" where
  "inject_task_update A data target =
     (case data of
        JObj d \<Rightarrow>
          (let ctx = get_or_else d ''contextId'' (JStr '''');
               task = get_or_else d ''taskId'' (JStr '''');
               status = get_or_else d ''status'' (JStr ''unknown'') in
           if \<not> truthy ctx then Ret (Inr ())
           else if target = [] then Ret (Inr ())
           else
             (let key = task_update_key ctx status in
              tbind (atomic (admit_notify A key)) (\<lambda>admitted.
                (case admitted of
                   None \<Rightarrow> Ret (Inr ())
                 | Some now \<Rightarrow> inject_to (Some (key, now)) A target (task_update_event ctx task status)))))
      | _ \<Rightarrow> no_get)"

subsection \<open>Routing\<close>

definition fetch_inbox_item :: "lib \<Rightarrow> 'w adapter \<Rightarrow> json \<Rightarrow> ('w hermes, InboxItem option) task" where
  "fetch_inbox_item L A mid =
     (if \<not> truthy mid then Ret (Inr None)
      else
        tthen (in_world (client_inbox L (ad_client A) (Some (InboxInput_default\<lparr>ii_limit := 50\<rparr>)))) (\<lambda>r.
          (case r of
             Inl _ \<Rightarrow> Ret (Inr None)
           | Inr result \<Rightarrow> Ret (Inr (List.find (\<lambda>item. JStr (it_message_id item) = mid) (io_items result))))))"

definition coordination_intents :: "string list" where
  "coordination_intents = [COORDINATE_V1_URI, PROPOSE_PLAN_V1_URI, CONFIRM_PLAN_V1_URI, ACCEPT_PLAN_V1_URI]"

text \<open>\<open>(body.text if body is not None else "") or ""\<close> and \<open>(body.data if body is not None else None) or {}\<close>.\<close>

definition item_text :: "InboxItem option \<Rightarrow> string" where
  "item_text item = (case item of None \<Rightarrow> '''' | Some i \<Rightarrow> (case body_text (it_body i) of None \<Rightarrow> '''' | Some t \<Rightarrow> t))"

definition item_data :: "InboxItem option \<Rightarrow> obj" where
  "item_data item = (case item of None \<Rightarrow> [] | Some i \<Rightarrow> (case body_data (it_body i) of None \<Rightarrow> [] | Some d \<Rightarrow> d))"

text \<open>A message that is no coordination intent goes to the user's chat, or to a chat of its own.\<close>

definition plain_message ::
  "'w adapter \<Rightarrow> json \<Rightarrow> json \<Rightarrow> json \<Rightarrow> json \<Rightarrow> string \<Rightarrow> json \<Rightarrow> string \<Rightarrow> ('w hermes, unit) task"
where
  "plain_message A sender sender_name ctx mid btext event_id target =
     (if target \<noteq> [] \<and> btext \<noteq> [] then inject_free_form A sender_name ctx mid btext target
      else if btext \<noteq> [] then surface_inbound_message A sender sender_name ctx mid btext event_id
      else Ret (Inr ()))"

definition on_inbox_message :: "lib \<Rightarrow> 'w adapter \<Rightarrow> obj \<Rightarrow> json \<Rightarrow> string \<Rightarrow> ('w hermes, unit) task" where
  "on_inbox_message L A d event_id target =
     (let sender = get_or_else d ''from'' (JStr '''');
          sender_name = get_or_else d ''fromName'' sender;
          ctx = get_or_else d ''contextId'' (JStr '''');
          mid = get_or_else d ''messageId'' (JStr '''');
          intent = get_or_else d ''intent'' (JStr '''') in
      tbind (fetch_inbox_item L A mid) (\<lambda>item.
        (let btext = item_text item; bdata = item_data item in
         (case intent of
            JStr i \<Rightarrow>
              (if i \<in> set coordination_intents
               then inject_coordination_event A sender sender_name ctx mid i btext bdata target
               else plain_message A sender sender_name ctx mid btext event_id target)
          | JList _ \<Rightarrow> Ret (raise (Builtin TypeError) ''unhashable type'')
          | JObj _ \<Rightarrow> Ret (raise (Builtin TypeError) ''unhashable type'')
          | _ \<Rightarrow> plain_message A sender sender_name ctx mid btext event_id target))))"

definition notify_target :: "'w adapter \<Rightarrow> string" where
  "notify_target A = env_get (ad_environ A) ''SHADOWNET_NOTIFY_CHAT'' ''''"

definition hermes_on_event :: "lib \<Rightarrow> 'w adapter \<Rightarrow> obj \<Rightarrow> ('w hermes, unit) task" where
  "hermes_on_event L A event =
     (let target = notify_target A;
          data = get_or_else event ''data'' (JObj []);
          event_id = get_or_else event ''eventId'' (get_or_else event ''event_id'' (JStr '''')) in
      if dict_get event ''event'' = Some (JStr ''task.update'') then inject_task_update A data target
      else if dict_get event ''event'' \<noteq> Some (JStr ''inbox.message'') then Ret (Inr ())
      else
      (case data of
         JObj d \<Rightarrow> on_inbox_message L A d event_id target
       | _ \<Rightarrow> no_get))"

subsection \<open>The inbox loop\<close>

text \<open>The events of one answer; an exception of the dispatch of one is logged and the next is taken.\<close>

fun dispatch :: "lib \<Rightarrow> 'w adapter \<Rightarrow> obj list \<Rightarrow> ('w hermes, unit) task" where
  "dispatch L A [] = Ret (Inr ())"
| "dispatch L A (event # events) =
     tbind (tthen (hermes_on_event L A event) (\<lambda>r.
         (case r of
            Inl _ \<Rightarrow> atomic (supd (\<lambda>s. s\<lparr>h_failures := Suc (h_failures s)\<rparr>))
          | Inr _ \<Rightarrow> Ret (Inr ())))) (\<lambda>_.
     dispatch L A events)"

definition wait_input :: "'w adapter \<Rightarrow> string option \<Rightarrow> InboxWaitInput" where
  "wait_input A cursor = \<lparr>iw_timeout_seconds = Some (ad_long_poll_timeout A), iw_last_event_id = cursor\<rparr>"

definition inbox_round :: "lib \<Rightarrow> 'w adapter \<Rightarrow> ('w hermes, unit) task" where
  "inbox_round L A =
     tbind (atomic (sget h_last_event_id)) (\<lambda>cursor.
     tthen (in_world (client_inbox_wait L (ad_client A) (Some (wait_input A cursor)))) (\<lambda>r.
       (case r of
          Inl _ \<Rightarrow> suspending (supd (\<lambda>s. s\<lparr>h_sleeps := Suc (h_sleeps s)\<rparr>))
        | Inr result \<Rightarrow>
            tbind (atomic (supd (\<lambda>s. s\<lparr>h_last_event_id := next_cursor (wo_next_event_id result) cursor\<rparr>))) (\<lambda>_.
            dispatch L A (wo_events result)))))"

text \<open>The loop runs until it is cancelled; \<open>n\<close> is the number of rounds it has begun by then.\<close>

fun inbox_loop :: "nat \<Rightarrow> lib \<Rightarrow> 'w adapter \<Rightarrow> ('w hermes, unit) task" where
  "inbox_loop 0 L A = Ret (Inr ())"
| "inbox_loop (Suc n) L A = tbind (inbox_round L A) (\<lambda>_. inbox_loop n L A)"

section \<open>Calls of the session and the host\<close>

lemma run_in_world [run_simps]:
  "run (in_world t) s = (case run t (h_world s) of (r, w) \<Rightarrow> (r, s\<lparr>h_world := w\<rparr>))"
proof (induction t arbitrary: s)
  case (Act g)
  obtain w t where g: "g (h_world s) = (w, t)" by force
  have "run (in_world t) s' = (case run t (h_world s') of (r, w) \<Rightarrow> (r, s'\<lparr>h_world := w\<rparr>))" for s'
    using Act [of "(w, t)" t s'] g by (metis rangeI snds.intros snd_conv)
  with g show ?case by (simp add: run.simps)
qed (simp_all add: run.simps)

lemma tkeeps_in_world: "(\<And>s w. Q s \<Longrightarrow> Q (s\<lparr>h_world := w\<rparr>)) \<Longrightarrow> tkeeps Q (in_world t)"
proof (induction t)
  case (Act g)
  have "tkeeps Q (in_world (snd (g w)))" for w
    using Act.IH [of "g w" "snd (g w)"] Act.prems by (metis prod.collapse rangeI snds.intros)
  with Act.prems show ?case by (auto intro!: tkeeps.Act)
qed (auto intro: tkeeps.intros)

section \<open>Cooldowns hold under every interleaving\<close>

definition h_clock :: "'w hermes \<Rightarrow> rat" where
  "h_clock s = h_wall s (h_tick s)"

text \<open>Entries of the same key are at least \<open>cooldown\<close> seconds apart, in the order of the history.\<close>

fun spaced :: "int \<Rightarrow> stamps \<Rightarrow> bool" where
  "spaced cooldown [] = True"
| "spaced cooldown ((k, t) # h) = (list_all (\<lambda>(k', t'). k' = k \<longrightarrow> of_int cooldown \<le> t' - t) h \<and> spaced cooldown h)"

lemma spaced_snoc:
  "spaced c (h @ [(k, now)]) \<longleftrightarrow> spaced c h \<and> (\<forall>t. (k, t) \<in> set h \<longrightarrow> of_int c \<le> now - t)"
  by (induction h) (auto simp: list_all_iff)

text \<open>
  The dictionary of one cooldown, as a field of the state: what the proofs need of it is that it is independent of the clock.
\<close>

locale cooldown_field =
  fixes get :: "'w hermes \<Rightarrow> stamps"
    and upd :: "(stamps \<Rightarrow> stamps) \<Rightarrow> 'w hermes \<Rightarrow> 'w hermes"
  assumes get_upd [simp]: "get (upd f s) = f (get s)"
    and wall_upd [simp]: "h_wall (upd f s) = h_wall s"
    and tick_upd [simp]: "h_tick (upd f s) = h_tick s"
    and get_tick [simp]: "get (s\<lparr>h_tick := n\<rparr>) = get s"
begin

text \<open>
  The invariant, for a history \<open>h\<close>: it is spaced, no entry lies in the future, and the dictionary still holds an
  entry at least as recent as every entry of the history that is inside its cooldown.
\<close>

definition remembers :: "int \<Rightarrow> stamps \<Rightarrow> 'w hermes \<Rightarrow> bool" where
  "remembers cooldown h s =
     (\<forall>(k, t)\<in>set h. t \<le> h_clock s
        \<and> ((\<exists>t'. dict_get (get s) k = Some t' \<and> t \<le> t') \<or> of_int cooldown \<le> h_clock s - t))"

definition limited :: "int \<Rightarrow> stamps \<Rightarrow> 'w hermes \<Rightarrow> bool" where
  "limited cooldown h s =
     (mono (h_wall s) \<and> distinct (map fst (get s)) \<and> spaced cooldown h \<and> remembers cooldown h s)"

lemma remembersD:
  "remembers c h s \<Longrightarrow> (k, t) \<in> set h \<Longrightarrow>
     t \<le> h_clock s \<and> ((\<exists>t'. dict_get (get s) k = Some t' \<and> t \<le> t') \<or> of_int c \<le> h_clock s - t)"
  unfolding remembers_def by blast

lemma clock_tick: "mono (h_wall s) \<Longrightarrow> h_clock s \<le> h_clock (s\<lparr>h_tick := Suc (h_tick s)\<rparr>)"
  by (simp add: h_clock_def mono_def)

lemma remembers_mono: "remembers c h s \<Longrightarrow> h_clock s \<le> h_clock s' \<Longrightarrow> get s' = get s \<Longrightarrow> remembers c h s'"
  unfolding remembers_def by fastforce

lemma limited_tick: "limited c h s \<Longrightarrow> limited c h (s\<lparr>h_tick := Suc (h_tick s)\<rparr>)"
  using clock_tick [of s] by (auto simp: limited_def intro: remembers_mono)

lemma limited_frame:
  assumes "limited c h s" "get s' = get s" "h_wall s' = h_wall s" "h_tick s \<le> h_tick s'"
  shows "limited c h s'"
proof -
  have "h_clock s \<le> h_clock s'" using assms by (auto simp: limited_def h_clock_def mono_def)
  with assms show ?thesis by (auto simp: limited_def intro: remembers_mono)
qed

lemma limited_butlast: "limited c (h @ [x]) s \<Longrightarrow> limited c h s"
  by (cases x) (fastforce simp: limited_def remembers_def spaced_snoc)

lemma stale_entry: "distinct (map fst d) \<Longrightarrow> k \<in> set (stale now a d) \<longleftrightarrow> (\<exists>v. dict_get d k = Some v \<and> of_int a < now - v)"
  by (force simp: stale_def dest: map_of_SomeD)

lemma limited_evict:
  assumes l: "limited c h s" and now: "now \<le> h_clock s"
  shows "limited c h (upd (fold AList.delete (stale now (c * 2) (get s))) s)"
proof -
  let ?s = "upd (fold AList.delete (stale now (c * 2) (get s))) s"
  have "t \<le> h_clock ?s \<and> ((\<exists>t'. dict_get (get ?s) k = Some t' \<and> t \<le> t') \<or> of_int c \<le> h_clock ?s - t)"
    if m: "(k, t) \<in> set h" for k t
  proof -
    have clock: "h_clock ?s = h_clock s" by (simp add: h_clock_def)
    from m l have t: "t \<le> h_clock s"
      and alt: "(\<exists>t'. dict_get (get s) k = Some t' \<and> t \<le> t') \<or> of_int c \<le> h_clock s - t"
      using remembersD [of c h s k t] by (auto simp: limited_def)
    have "of_int c \<le> h_clock s - t" if "dict_get (get s) k = Some t'" "t \<le> t'" "of_int (c * 2) < now - t'" for t'
    proof (cases "0 \<le> c")
      case True
      then have "(of_int c :: rat) \<le> of_int (c * 2)" by (simp only: of_int_le_iff)
      with that now show ?thesis by linarith
    next
      case False
      then have "(of_int c :: rat) < 0" by simp
      with t show ?thesis by linarith
    qed
    then have "k \<in> set (stale now (c * 2) (get s)) \<Longrightarrow> of_int c \<le> h_clock s - t"
      using alt l by (metis limited_def option.inject stale_entry)
    with t alt show ?thesis unfolding clock get_upd fold_delete(1) by auto
  qed
  then have "remembers c h ?s" unfolding remembers_def by blast
  with l show ?thesis by (simp add: limited_def fold_delete)
qed

lemma keeps_evict: "keeps (limited c h) (evict_stale_timestamps get upd (c * 2))"
proof (rule keepsI)
  fix s r s'
  assume "limited c h s" "evict_stale_timestamps get upd (c * 2) s = (r, s')"
  then show "limited c h s'"
    using limited_evict [OF limited_tick, of c h s "h_clock s"] clock_tick [of s]
    by (auto simp: evict_stale_timestamps_def hermes_time_def sbind_def sthen_def supd_def h_clock_def limited_def)
qed

lemma limited_pass:
  assumes l: "limited c h s" and now: "now \<le> h_clock s"
    and old: "\<not> now - (case dict_get (get s) k of Some t \<Rightarrow> t | None \<Rightarrow> 0) < of_int c"
    and before: "\<And>t. (k, t) \<in> set h \<Longrightarrow> (\<exists>t'. dict_get (get s) k = Some t' \<and> t \<le> t') \<or> of_int c \<le> now - t"
    and past: "\<And>k t. (k, t) \<in> set h \<Longrightarrow> t \<le> now"
  shows "limited c (h @ [(k, now)]) (upd (dict_set k now) s)"
proof -
  have "of_int c \<le> now - t" if "(k, t) \<in> set h" for t
    using before [OF that] old by auto
  then have "spaced c (h @ [(k, now)])" using l by (simp add: spaced_snoc limited_def)
  moreover have "t \<le> h_clock s \<and> ((\<exists>t'. dict_get (dict_set k now (get s)) k' = Some t' \<and> t \<le> t') \<or> of_int c \<le> h_clock s - t)"
    if "(k', t) \<in> set (h @ [(k, now)])" for k' t
  proof (cases "k' = k")
    case True
    with that past now show ?thesis by (fastforce simp: update_conv)
  next
    case False
    with that l show ?thesis using remembersD [of c h s k' t] by (simp add: limited_def update_conv)
  qed
  then have "remembers c (h @ [(k, now)]) (upd (dict_set k now) s)"
    unfolding remembers_def h_clock_def by simp blast
  ultimately show ?thesis using l by (simp add: limited_def distinct_update)
qed

text \<open>What a check gives to the code behind it: when the key passes, a call of this key at this time may enter the history.\<close>

lemma throttle_limits:
  assumes l: "limited c h s" and run: "throttle get upd k c (h_clock s) (s\<lparr>h_tick := Suc (h_tick s)\<rparr>) = (r, s')"
  shows "limited c h s' \<and> (\<exists>b. r = Inr b \<and> (b \<longrightarrow> limited c (h @ [(k, h_clock s)]) s'))"
proof -
  let ?s = "s\<lparr>h_tick := Suc (h_tick s)\<rparr>"
  let ?t = "upd (dict_set k (h_clock s)) ?s"
  have l': "limited c h ?s" and now: "h_clock s \<le> h_clock ?s"
    using l limited_tick clock_tick by (auto simp: limited_def)
  show ?thesis
  proof (cases "h_clock s - (case dict_get (get s) k of Some t \<Rightarrow> t | None \<Rightarrow> 0) < of_int c")
    case True
    then have "r = Inr False" "s' = ?s" using run by (simp_all add: throttle_def sbind_def sthen_def sget_def sret_def)
    with l' show ?thesis by auto
  next
    case False
    have "limited c (h @ [(k, h_clock s)]) ?t"
      by (rule limited_pass [OF l' now]) (use False l remembersD [of c h s] in \<open>auto simp: limited_def\<close>)
    moreover have "r = Inr True" "snd (evict_stale_timestamps get upd (c * 2) ?t) = s'"
      using False run
      by (simp_all add: throttle_def hermes_time_def sbind_def sthen_def sget_def supd_def sret_def evict_stale_timestamps_def)
    ultimately show ?thesis using keeps_evict [of c "h @ [(k, h_clock s)]"] limited_butlast by (auto simp: keeps_def)
  qed
qed

text \<open>After a key has passed, no entry of the dictionary is older than twice the cooldown.\<close>

lemma throttle_bounds:
  assumes "throttle get upd k c now s = (Inr True, s')" "(k', t) \<in> set (get s')" "distinct (map fst (get s))"
  shows "h_clock s - t \<le> of_int (c * 2)"
proof -
  let ?d = "dict_set k now (get s)"
  have get': "get s' = fold AList.delete (stale (h_clock s) (c * 2) ?d) ?d"
    using assms(1)
    by (auto simp: throttle_def evict_stale_timestamps_def hermes_time_def sbind_def sthen_def sget_def supd_def sret_def
        h_clock_def split: if_splits)
  have d: "distinct (map fst ?d)" using assms(3) by (simp add: distinct_update)
  then have "dict_get (get s') k' = Some t" using assms(2) get' by (metis fold_delete(2) map_of_is_SomeI)
  then show ?thesis
    using stale_entry [OF d, of k' "h_clock s" "c * 2"] by (auto simp: get' fold_delete(1) split: if_splits)
qed

end

interpretation sends: cooldown_field send_timestamps send_timestamps_update
  by unfold_locales simp_all

interpretation notifications: cooldown_field notify_timestamps notify_timestamps_update
  by unfold_locales simp_all

text \<open>
  What the adapter may give to a \<open>handle_message\<close>. An event that carries a stamp is a coordination event or a task update, and the key of
  the stamp is made of the thread that the event is about; any other event is a plain message for the inbox skill.
\<close>

definition stamped_ok :: "(string \<times> rat) option \<times> MessageEvent \<Rightarrow> bool" where
  "stamped_ok n =
     (case n of
        (None, ev) \<Rightarrow> ev_auto_skill ev = Some ''shadownet-inbox''
      | (Some (key, t), ev) \<Rightarrow>
          (\<exists>sender intent ctx mid. key = str_json sender @ '':'' @ intent @ '':'' @ str_json ctx
             \<and> ev_raw_message ev = [(''intent'', JStr intent), (''context_id'', ctx), (''message_id'', mid)])
          \<or> (\<exists>ctx task status. key = ''task.update:'' @ str_json ctx @ '':'' @ str_json status
             \<and> ev_raw_message ev = [(''context_id'', ctx), (''task_id'', task), (''status'', status), (''event_type'', JStr ''task.update'')]))"

definition notify_stamps :: "((string \<times> rat) option \<times> MessageEvent) list \<Rightarrow> stamps" where
  "notify_stamps ns = List.map_filter fst ns"

lemma notify_stamps_snoc:
  "notify_stamps (ns @ [(w, ev)]) = notify_stamps ns @ (case w of None \<Rightarrow> [] | Some x \<Rightarrow> [x])"
  by (simp add: notify_stamps_def map_filter_def split: option.split)

text \<open>Both cooldowns together: each operation works on one of them and leaves the other's fields alone.\<close>

definition rate_limited :: "int \<Rightarrow> int \<Rightarrow> 'w hermes \<Rightarrow> bool" where
  "rate_limited cs cn s =
     (sends.limited cs (h_sent s) s \<and> notifications.limited cn (notify_stamps (h_notified s)) s
      \<and> list_all stamped_ok (h_notified s))"

lemma admit_send_eq:
  "send_cooldown A = Inr cs \<Longrightarrow>
     admit_send A k s =
       sbind (throttle send_timestamps send_timestamps_update k cs (h_clock s)) (\<lambda>b. sret (if b then Some (h_clock s) else None))
         (s\<lparr>h_tick := Suc (h_tick s)\<rparr>)"
  by (simp add: admit_send_def hermes_time_def h_clock_def [symmetric] sbind_def sthen_def sres_def)

lemma admit_notify_eq:
  "notify_cooldown A = Inr cn \<Longrightarrow>
     admit_notify A k s =
       sbind (throttle notify_timestamps notify_timestamps_update k cn (h_clock s)) (\<lambda>b. sret (if b then Some (h_clock s) else None))
         (s\<lparr>h_tick := Suc (h_tick s)\<rparr>)"
  by (simp add: admit_notify_def hermes_time_def h_clock_def [symmetric] sbind_def sthen_def sres_def)

lemmas throttle_eqs = throttle_def evict_stale_timestamps_def hermes_time_def sbind_def sthen_def sget_def supd_def sret_def

lemma admit_send_frame:
  assumes "send_cooldown A = Inr cs" "admit_send A k s = (r, s')"
  shows "notify_timestamps s' = notify_timestamps s \<and> h_notified s' = h_notified s \<and> h_sent s' = h_sent s
    \<and> h_wall s' = h_wall s \<and> h_tick s \<le> h_tick s'"
  using assms by (auto simp: admit_send_eq throttle_eqs split: if_splits)

lemma admit_notify_frame:
  assumes "notify_cooldown A = Inr cn" "admit_notify A k s = (r, s')"
  shows "send_timestamps s' = send_timestamps s \<and> h_notified s' = h_notified s \<and> h_sent s' = h_sent s
    \<and> h_wall s' = h_wall s \<and> h_tick s \<le> h_tick s'"
  using assms by (auto simp: admit_notify_eq throttle_eqs split: if_splits)

lemma rate_limited_admit_send:
  assumes "send_cooldown A = Inr cs" "rate_limited cs cn s" and run: "admit_send A k s = (r, s')"
  shows "rate_limited cs cn s' \<and> (\<forall>now. r = Inr (Some now) \<longrightarrow> rate_limited cs cn (s'\<lparr>h_sent := h_sent s' @ [(k, now)]\<rparr>))"
proof -
  have frame: "notify_timestamps s' = notify_timestamps s" "h_notified s' = h_notified s" "h_sent s' = h_sent s"
    "h_wall s' = h_wall s" "h_tick s \<le> h_tick s'"
    using admit_send_frame [OF assms(1,3)] by blast+
  have "notifications.limited cn (notify_stamps (h_notified s')) s'"
    using assms(2) frame by (auto simp: rate_limited_def intro: notifications.limited_frame)
  moreover have "sends.limited cs (h_sent s) s' \<and> (\<forall>now. r = Inr (Some now) \<longrightarrow> sends.limited cs (h_sent s @ [(k, now)]) s')"
    using run assms(2) sends.throttle_limits [of cs "h_sent s" s k]
    by (auto simp: admit_send_eq [OF assms(1)] rate_limited_def sbind_def sthen_def sres_def sret_def split: prod.splits sum.splits if_splits)
  ultimately show ?thesis
    using assms(2) frame
    by (auto simp: rate_limited_def intro: sends.limited_frame [of _ _ s'] notifications.limited_frame [of _ _ s'])
qed

lemma rate_limited_admit_notify:
  assumes "notify_cooldown A = Inr cn" "rate_limited cs cn s" and run: "admit_notify A k s = (r, s')"
  shows "rate_limited cs cn s' \<and>
    (\<forall>now. r = Inr (Some now) \<longrightarrow> notifications.limited cn (notify_stamps (h_notified s') @ [(k, now)]) s')"
proof -
  have frame: "send_timestamps s' = send_timestamps s" "h_notified s' = h_notified s" "h_sent s' = h_sent s"
    "h_wall s' = h_wall s" "h_tick s \<le> h_tick s'"
    using admit_notify_frame [OF assms(1,3)] by blast+
  have "sends.limited cs (h_sent s') s'"
    using assms(2) frame by (auto simp: rate_limited_def intro: sends.limited_frame)
  moreover have "notifications.limited cn (notify_stamps (h_notified s)) s'
      \<and> (\<forall>now. r = Inr (Some now) \<longrightarrow> notifications.limited cn (notify_stamps (h_notified s) @ [(k, now)]) s')"
    using run assms(2) notifications.throttle_limits [of cn "notify_stamps (h_notified s)" s k]
    by (auto simp: admit_notify_eq [OF assms(1)] rate_limited_def sbind_def sthen_def sres_def sret_def split: prod.splits sum.splits if_splits)
  ultimately show ?thesis using assms(2) frame by (simp add: rate_limited_def)
qed

lemma rate_limited_fields:
  "rate_limited cs cn s \<Longrightarrow> rate_limited cs cn (s\<lparr>h_world := w\<rparr>)"
  "rate_limited cs cn s \<Longrightarrow> rate_limited cs cn (s\<lparr>h_failures := n\<rparr>)"
  "rate_limited cs cn s \<Longrightarrow> rate_limited cs cn (s\<lparr>h_sleeps := n\<rparr>)"
  "rate_limited cs cn s \<Longrightarrow> rate_limited cs cn (s\<lparr>h_last_event_id := c\<rparr>)"
  by (auto simp: rate_limited_def intro: sends.limited_frame notifications.limited_frame)

lemma rate_limited_notified:
  assumes "rate_limited cs cn s" "stamped_ok (w, ev)"
    and "\<And>x. w = Some x \<Longrightarrow> notifications.limited cn (notify_stamps (h_notified s) @ [x]) s"
  shows "rate_limited cs cn (s\<lparr>h_notified := h_notified s @ [(w, ev)]\<rparr>)"
  using assms
  by (auto simp: rate_limited_def notify_stamps_snoc intro: sends.limited_frame [of _ _ s] notifications.limited_frame [of _ _ s]
      split: option.split)

lemma keeps_fields [keeps_intros]:
  "keeps (rate_limited cs cn) (supd (\<lambda>s. s\<lparr>h_failures := f s\<rparr>))"
  "keeps (rate_limited cs cn) (supd (\<lambda>s. s\<lparr>h_sleeps := f s\<rparr>))"
  "keeps (rate_limited cs cn) (supd (\<lambda>s. s\<lparr>h_last_event_id := g s\<rparr>))"
  by (simp_all add: keeps_def supd_def rate_limited_fields)

text \<open>
  Every operation of the adapter keeps both limits at the end of each of its turns. A call enters the history in the turn of its check:
  there is no suspension in between.
\<close>

lemma turns_in_world: "keeps_turns (rate_limited cs cn) (in_world t)"
  by (intro turnwise_tkeeps tkeeps_in_world rate_limited_fields(1))

lemmas turns_adapter = turn_intros keeps_intros turns_in_world

lemma turns_hermes_send:
  assumes "send_cooldown A = Inr cs"
  shows "keeps_turns (rate_limited cs cn) (hermes_send L A chat_id content)"
  unfolding hermes_send_def
proof (rule turnwise_tbind)
  let ?Q = "rate_limited cs cn"
  let ?R = "\<lambda>r s. ?Q s \<and> (\<forall>now. r = Inr (Some now) \<longrightarrow> ?Q (s\<lparr>h_sent := h_sent s @ [(chat_id, now)]\<rparr>))"
  show "turnwise ?Q ?Q (atomic (admit_send A chat_id)) ?R"
    by (rule turnwise_atomic) (rule rate_limited_admit_send [OF assms])
  fix admitted
  have "turnwise ?Q (?R (Inr (Some now))) (send_call L A now (text_message chat_id content)) (\<lambda>_. ?Q)" for now
    unfolding send_call_def
    by (rule turnwise_tbind [where R = "\<lambda>_. ?Q"], rule turnwise_atomic)
      (auto simp: supd_def text_message_def intro: turns_in_world)
  then show "turnwise ?Q (?R (Inr admitted)) (case admitted of None \<Rightarrow> Ret (Inr True)
      | Some now \<Rightarrow> tbind (send_call L A now (text_message chat_id content)) (\<lambda>_. Ret (Inr True))) (\<lambda>_. ?Q)"
    by (cases admitted) (auto intro!: turnwise.Ret turnwise_tbind [where R = "\<lambda>_. ?Q"])
qed simp

lemma turns_deliver:
  assumes "stamped_ok (w, ev)"
  shows "turnwise (rate_limited cs cn)
    (\<lambda>s. rate_limited cs cn s \<and> (\<forall>x. w = Some x \<longrightarrow> notifications.limited cn (notify_stamps (h_notified s) @ [x]) s))
    (deliver w handle ev) (\<lambda>_. rate_limited cs cn)"
  unfolding deliver_def
  by (rule turnwise_tbind [where R = "\<lambda>_. rate_limited cs cn"], rule turnwise_atomic)
    (auto simp: supd_def assms intro: rate_limited_notified turns_adapter)

lemma turns_inject_to:
  assumes "\<And>src. stamped_ok (w, event src)"
  shows "turnwise (rate_limited cs cn)
    (\<lambda>s. rate_limited cs cn s \<and> (\<forall>x. w = Some x \<longrightarrow> notifications.limited cn (notify_stamps (h_notified s) @ [x]) s))
    (inject_to w A target event) (\<lambda>_. rate_limited cs cn)"
  unfolding inject_to_def tbind_def
  using turns_deliver [OF assms] by (auto intro!: turnwise.Ret split: sum.split option.split)

lemma turns_admitted:
  assumes "notify_cooldown A = Inr cn" "\<And>now src. stamped_ok (Some (key, now), event src)"
  shows "keeps_turns (rate_limited cs cn) (tbind (atomic (admit_notify A key)) (\<lambda>admitted.
    case admitted of None \<Rightarrow> Ret (Inr ()) | Some now \<Rightarrow> inject_to (Some (key, now)) A target event))"
proof (rule turnwise_tbind)
  let ?Q = "rate_limited cs cn"
  let ?R = "\<lambda>r s. ?Q s \<and> (\<forall>now. r = Inr (Some now) \<longrightarrow> notifications.limited cn (notify_stamps (h_notified s) @ [(key, now)]) s)"
  show "turnwise ?Q ?Q (atomic (admit_notify A key)) ?R"
    by (rule turnwise_atomic) (rule rate_limited_admit_notify [OF assms(1)])
  fix admitted
  show "turnwise ?Q (?R (Inr admitted)) (case admitted of None \<Rightarrow> Ret (Inr ())
      | Some now \<Rightarrow> inject_to (Some (key, now)) A target event) (\<lambda>_. ?Q)"
    by (cases admitted) (auto intro: turnwise.Ret turnwise_weaken [OF turns_inject_to] assms(2))
qed simp

lemma turns_on_event:
  assumes "notify_cooldown A = Inr cn"
  shows "keeps_turns (rate_limited cs cn) (hermes_on_event L A event)"
proof -
  have "keeps_turns (rate_limited cs cn) (inject_task_update A data target)" for data target
    unfolding inject_task_update_def no_get_def Let_def
    by (cases data) (auto intro!: turn_intros turns_admitted [OF assms] simp: stamped_ok_def task_update_key_def task_update_event_def)
  moreover have "keeps_turns (rate_limited cs cn) (inject_coordination_event A a b c d i t m target)" for a b c d i t m target
    unfolding inject_coordination_event_def Let_def
    by (auto intro!: turn_intros turns_admitted [OF assms] simp: stamped_ok_def coordination_key_def coordination_event_def)
  moreover have "keeps_turns (rate_limited cs cn) (plain_message A a b c d t e target)" for a b c d t e target
    unfolding plain_message_def inject_free_form_def surface_inbound_message_def
    by (auto intro!: turn_intros turnwise_weaken [OF turns_inject_to] turnwise_weaken [OF turns_deliver]
        simp: stamped_ok_def free_form_event_def surface_event_def)
  moreover have "keeps_turns (rate_limited cs cn) (fetch_inbox_item L A m)" for m
    unfolding fetch_inbox_item_def by (intro turns_adapter)
  ultimately show ?thesis
    unfolding hermes_on_event_def on_inbox_message_def no_get_def Let_def
    by (auto intro!: turns_adapter split: json.split)
qed

lemma turns_inbox_loop:
  assumes "notify_cooldown A = Inr cn"
  shows "keeps_turns (rate_limited cs cn) (inbox_loop n L A)"
proof -
  have "keeps_turns (rate_limited cs cn) (dispatch L A events)" for events
    by (induction events) (auto intro!: turns_adapter turns_on_event [OF assms])
  then have "keeps_turns (rate_limited cs cn) (inbox_round L A)"
    unfolding inbox_round_def by (auto intro!: turns_adapter)
  then show ?thesis by (induction n) (auto intro: turns_adapter)
qed

text \<open>\<open>__init__\<close>, with the clock and the surroundings it finds.\<close>

definition hermes_init :: "(nat \<Rightarrow> rat) \<Rightarrow> 'w \<Rightarrow> 'w hermes" where
  "hermes_init wall w =
     \<lparr>send_timestamps = [], notify_timestamps = [], h_last_event_id = None, h_sleeps = 0, h_failures = 0,
      h_wall = wall, h_tick = 0, h_sent = [], h_notified = [], h_world = w\<rparr>"

lemma rate_limited_init: "mono wall \<Longrightarrow> rate_limited cs cn (hermes_init wall w)"
  by (simp add: notify_stamps_def map_filter_def rate_limited_def sends.limited_def notifications.limited_def sends.remembers_def
      notifications.remembers_def hermes_init_def)

text \<open>What runs on the host's event loop: sends, and the inbox loop for some number of rounds.\<close>

datatype host_op = HostSend string string | InboxLoop nat

fun op_task :: "lib \<Rightarrow> 'w adapter \<Rightarrow> host_op \<Rightarrow> ('w hermes, unit) task" where
  "op_task L A (HostSend chat_id content) = tbind (hermes_send L A chat_id content) (\<lambda>_. Ret (Inr ()))"
| "op_task L A (InboxLoop n) = inbox_loop n L A"

lemma turns_op_task:
  "send_cooldown A = Inr cs \<Longrightarrow> notify_cooldown A = Inr cn \<Longrightarrow> keeps_turns (rate_limited cs cn) (op_task L A p)"
  by (cases p) (auto intro!: turns_hermes_send turns_inbox_loop turn_intros)


text \<open>A host that sends to the same contact twice within seconds.\<close>

definition ex_adapter :: "unit adapter" where
  "ex_adapter = \<lparr>ad_environ = (\<lambda>_. None), ad_client = ex_session, ad_gateway = None,
     ad_handle_message = (\<lambda>_. Ret (Inr ())), ad_long_poll_timeout = 30, ad_read_iso = (\<lambda>_. None)\<rparr>"

definition ex_wall :: "nat \<Rightarrow> rat" where
  "ex_wall n = 1000 + 10 * of_nat n"

definition ex_hermes :: "unit hermes" where
  "ex_hermes = hermes_init ex_wall ()"

definition ex_hermes_sent :: "unit hermes" where
  "ex_hermes_sent = ex_hermes\<lparr>send_timestamps := [(''bob@b.example'', 1000)], h_tick := 2, h_sent := [(''bob@b.example'', 1000)]\<rparr>"

lemma ex_wall_mono: "mono ex_wall"
  by (simp add: mono_def ex_wall_def)

lemma ex_cooldowns: "send_cooldown ex_adapter = Inr 120" "notify_cooldown ex_adapter = Inr 60"
proof -
  have "int_of_str ''120'' = Some 120" "int_of_str ''60'' = Some 60" by code_simp+
  then show "send_cooldown ex_adapter = Inr 120" "notify_cooldown ex_adapter = Inr 60"
    by (simp_all add: send_cooldown_def notify_cooldown_def int_env_def env_get_def ex_adapter_def)
qed

lemma ex_admit:
  "admit_send ex_adapter ''bob@b.example'' ex_hermes = (Inr (Some 1000), ex_hermes_sent\<lparr>h_sent := []\<rparr>)"
  "admit_send ex_adapter ''bob@b.example'' ex_hermes_sent = (Inr None, ex_hermes_sent\<lparr>h_tick := 3\<rparr>)"
  by (simp_all add: admit_send_eq [OF ex_cooldowns(1)] throttle_eqs stale_def ex_hermes_sent_def ex_hermes_def hermes_init_def
      h_clock_def ex_wall_def numeral_eq_Suc)

lemma ex_client_send: "\<exists>q. client_send toy_lib ex_session m = Ret (Inr q)"
proof -
  have "v_SendOutput (JObj [(''messageId'', JStr ''m1''), (''contextId'', JStr ''c1''), (''status'', JStr ''accepted'')]) =
      FOk ex_sent"
    by code_simp
  then show ?thesis
    by (simp add: client_send_def call_def tbind_def ex_session_def read_result_def validated_def)
qed


section \<open>Sending\<close>

definition suppressed :: "int \<Rightarrow> string \<Rightarrow> 'w hermes \<Rightarrow> bool" where
  "suppressed cooldown chat_id s =
     (h_clock s - (case dict_get (send_timestamps s) chat_id of Some t \<Rightarrow> t | None \<Rightarrow> 0) < of_int cooldown)"

text \<open>
  What \<open>send\<close> does in each case, for every session. A cooldown that is no integer is a \<open>ValueError\<close> and changes
  nothing. A send inside the cooldown reports success and reaches nobody. Any other send calls the tool
  once, with this recipient and this text, and reports success exactly when the call succeeded; its
  time is recorded either way, and no timestamp older than twice the cooldown is left.
\<close>

theorem hermes_send_outcome:
  assumes "distinct (map fst (send_timestamps s))" and "run (hermes_send L A chat_id content) s = (r, s')"
  shows "case send_cooldown A of
      Inl e \<Rightarrow> r = Inl e \<and> s' = s
    | Inr cooldown \<Rightarrow>
        (if suppressed cooldown chat_id s
         then r = Inr True \<and> s' = s\<lparr>h_tick := Suc (h_tick s)\<rparr>
         else \<exists>q. run (client_send L (ad_client A) (text_message chat_id content)) (h_world s) = (q, h_world s')
           \<and> (case q of Inl e \<Rightarrow> r = Inl e | Inr _ \<Rightarrow> r = Inr True)
           \<and> h_sent s' = h_sent s @ [(chat_id, h_clock s)]
           \<and> (\<forall>(k, t)\<in>set (send_timestamps s'). h_wall s (Suc (h_tick s)) - t \<le> of_int (cooldown * 2)))"
proof (cases "send_cooldown A")
  case (Inl e)
  with assms(2) show ?thesis
    by (simp add: hermes_send_def run_simps admit_send_def sbind_def sthen_def sres_def)
next
  case (Inr cooldown)
  let ?s = "s\<lparr>h_tick := Suc (h_tick s)\<rparr>"
  let ?admit = "throttle send_timestamps send_timestamps_update chat_id cooldown (h_clock s) ?s"
  have run: "run (hermes_send L A chat_id content) s =
      (case ?admit of (Inl e, t) \<Rightarrow> (Inl e, t)
       | (Inr False, t) \<Rightarrow> (Inr True, t)
       | (Inr True, t) \<Rightarrow> (case run (client_send L (ad_client A) (text_message chat_id content)) (h_world t) of
           (q, w) \<Rightarrow> (map_sum id (\<lambda>_. True) q, t\<lparr>h_sent := h_sent t @ [(chat_id, h_clock s)], h_world := w\<rparr>)))"
    by (simp add: hermes_send_def send_call_def run_simps admit_send_eq [OF Inr] sbind_def sthen_def sres_def sret_def supd_def
        text_message_def split: prod.split sum.split bool.split)
  show ?thesis
  proof (cases "suppressed cooldown chat_id s")
    case True
    then have "?admit = (Inr False, ?s)" by (simp add: throttle_eqs suppressed_def)
    with True Inr run assms(2) show ?thesis by simp
  next
    case False
    then obtain t where admit: "?admit = (Inr True, t)" and t: "h_world t = h_world s" "h_sent t = h_sent s"
      by (simp add: throttle_eqs suppressed_def)
    have "\<forall>(k, v)\<in>set (send_timestamps t). h_wall s (Suc (h_tick s)) - v \<le> of_int (cooldown * 2)"
      using sends.throttle_bounds [OF admit] assms(1) by (auto simp: h_clock_def)
    with False Inr run assms(2) admit t show ?thesis by (auto split: prod.splits sum.splits)
  qed
qed

theorem hermes_send_outcome_witness:
  "fst (run (hermes_send toy_lib ex_adapter ''bob@b.example'' ''again'') ex_hermes_sent) = Inr True
   \<and> h_world (snd (run (hermes_send toy_lib ex_adapter ''bob@b.example'' ''again'') ex_hermes_sent)) = ()
   \<and> h_sent (snd (run (hermes_send toy_lib ex_adapter ''bob@b.example'' ''again'') ex_hermes_sent)) = [(''bob@b.example'', 1000)]"
proof -
  have "distinct (map fst (send_timestamps ex_hermes_sent))" "suppressed 120 ''bob@b.example'' ex_hermes_sent"
    by (simp_all add: ex_hermes_sent_def suppressed_def h_clock_def ex_hermes_def hermes_init_def ex_wall_def)
  then have "fst (run (hermes_send toy_lib ex_adapter ''bob@b.example'' ''again'') ex_hermes_sent) = Inr True
      \<and> snd (run (hermes_send toy_lib ex_adapter ''bob@b.example'' ''again'') ex_hermes_sent)
          = ex_hermes_sent\<lparr>h_tick := Suc (h_tick ex_hermes_sent)\<rparr>"
    using hermes_send_outcome [OF _ prod.collapse [symmetric], of ex_hermes_sent toy_lib ex_adapter "''bob@b.example''" "''again''"]
    by (simp add: ex_cooldowns)
  then show ?thesis by (simp add: ex_hermes_sent_def)
qed

text \<open>
  A send that fails is recorded all the same: until the cooldown is over, a second attempt reports
  success without a call, so the host takes a message for delivered that never left.
\<close>

theorem failed_send_then_reported_sent:
  assumes "send_cooldown A = Inr c" "\<not> suppressed c k s" "distinct (map fst (send_timestamps s))"
    and first: "run (hermes_send L A k m) s = (Inl e, s')"
    and soon: "h_wall s (Suc (h_tick s)) - h_clock s \<le> of_int (c * 2)" "h_clock s' - h_clock s < of_int c"
  shows "run (hermes_send L A k m) s' = (Inr True, s'\<lparr>h_tick := Suc (h_tick s')\<rparr>)"
proof -
  let ?s = "s\<lparr>h_tick := Suc (h_tick s)\<rparr>"
  let ?ts = "dict_set k (h_clock s) (send_timestamps s)"
  have "distinct (map fst ?ts)" using assms(3) by (simp add: distinct_update)
  then have kept: "k \<notin> set (stale (h_wall s (Suc (h_tick s))) (c * 2) ?ts)"
    using soon(1) by (simp add: sends.stale_entry update_conv)
  have "send_timestamps s' = fold AList.delete (stale (h_wall s (Suc (h_tick s))) (c * 2) ?ts) ?ts"
    using first assms(1,2)
    by (auto simp: hermes_send_def send_call_def run_simps admit_send_eq throttle_eqs sres_def suppressed_def h_clock_def
        split: prod.splits sum.splits)
  then have "dict_get (send_timestamps s') k = Some (h_clock s)"
    using kept by (simp add: fold_delete update_conv)
  then have "suppressed c k s'" using soon(2) by (simp add: suppressed_def)
  then show ?thesis
    using assms(1)
    by (simp add: hermes_send_def run_simps admit_send_eq throttle_eqs sres_def suppressed_def h_clock_def)
qed

section \<open>The inbox loop survives\<close>

text \<open>Tasks of which nothing is known but how they end, whatever other tasks do in between.\<close>

interpretation anything: rely "\<lambda>(s :: 'w hermes) s'. True"
  by unfold_locales simp_all

abbreviation ends :: "('a res \<Rightarrow> bool) \<Rightarrow> ('w hermes, 'a) task \<Rightarrow> bool" where
  "ends P \<equiv> anything.safe (\<lambda>r _. P r) (\<lambda>_. True)"

lemma ends_any: "ends (\<lambda>_. True) t"
proof (induction t)
  case (Act g)
  have "ends (\<lambda>_. True) (snd (g s))" for s
    using Act [of "g s" "snd (g s)"] by (metis prod.collapse rangeI snds.intros)
  then show ?case by (auto intro!: anything.safe.Act anything.stableI exI [of _ "\<lambda>_. True"])
qed (auto intro: anything.safe.Ret anything.safe.Pause)

lemma ends_tthen: "(\<And>r. ends P (k r)) \<Longrightarrow> ends P (tthen t k)"
  using anything.safe_tthen [OF ends_any] by blast

lemma ends_tbind: "ends (\<lambda>r. \<not> isl r) t \<Longrightarrow> (\<And>x. ends P (f x)) \<Longrightarrow> ends P (tbind t f)"
  unfolding tbind_def
  by (rule anything.safe_tthen [where Q = "\<lambda>r _. \<not> isl r"])
    (auto intro: anything.safe_weaken anything.safe.Ret split: sum.split)

lemma ends_atomic: "(\<And>s. P (fst (m s))) \<Longrightarrow> ends P (atomic m)"
  by (rule anything.safe_atomic) (metis fst_conv, simp add: anything.stable_def)

lemma ends_supd: "ends (\<lambda>r. \<not> isl r) (atomic (supd f))" "ends (\<lambda>r. \<not> isl r) (suspending (supd f))"
  by (auto simp: suspending_def supd_def intro!: ends_atomic anything.safe.Pause)

lemma ends_Ret: "P r \<Longrightarrow> ends P (Ret r)"
  by (auto intro: anything.safe.Ret)

lemma ends_dispatch: "ends (\<lambda>r. \<not> isl r) (dispatch L A events)"
proof (induction events)
  case (Cons e es)
  then show ?case
    unfolding dispatch.simps by (intro ends_tbind ends_tthen) (auto intro: ends_supd ends_Ret split: sum.split)
qed (auto intro: ends_Ret)

lemma ends_inbox_round: "ends (\<lambda>r. \<not> isl r) (inbox_round L A)"
  unfolding inbox_round_def
  by (rule ends_tbind, simp add: ends_atomic sget_def, rule ends_tthen)
    (auto intro: ends_supd ends_tbind ends_dispatch split: sum.split)

lemma ends_inbox_loop: "ends (\<lambda>r. \<not> isl r) (inbox_loop n L A)"
  by (induction n) (auto intro: ends_Ret ends_tbind ends_inbox_round)

text \<open>
  C20: the inbox loop of the Hermes adapter is never ended by an exception: not by a failing poll, not by a malformed
  event, not by a misconfigured cooldown or target, not by a handler of the host that raises, and
  whatever the host sends in between, in every interleaving of the event loop.
\<close>

theorem inbox_loop_survives:
  assumes "interleaved (map (op_task L A) ops) s rs s'" "i < length ops" "ops ! i = InboxLoop n"
  shows "rs ! i = Inr ()"
proof -
  let ?P = "\<lambda>j r (s :: 'w hermes). \<forall>n. ops ! j = InboxLoop n \<longrightarrow> \<not> isl r"
  have "\<exists>B. anything.stable B \<and> B s \<and> anything.safe (?P j) B (map (op_task L A) ops ! j)"
    if j: "j < length (map (op_task L A) ops)" for j
  proof (cases "ops ! j")
    case (HostSend c t)
    with j show ?thesis using ends_any [of "op_task L A (ops ! j)"]
      by (auto simp: anything.stable_def intro!: exI [of _ "\<lambda>_. True"])
  next
    case (InboxLoop m)
    with j show ?thesis using ends_inbox_loop [of m L A]
      by (auto simp: anything.stable_def intro!: exI [of _ "\<lambda>_. True"])
  qed
  then have "\<not> isl (rs ! i)" using anything.interleaved_safe [OF assms(1), of ?P] assms(2,3) by auto
  then show ?thesis by (cases "rs ! i") simp_all
qed

text \<open>A sidecar whose answer carries an event that the adapter cannot read.\<close>

definition ex_bad_event :: obj where
  "ex_bad_event = [(''event'', JStr ''inbox.message''), (''data'', JStr ''hello'')]"

definition ex_bad_adapter :: "unit adapter" where
  "ex_bad_adapter = ex_adapter\<lparr>ad_client := (\<lambda>name args. Ret (Inr \<lparr>isError = False,
     structuredContent = Some (JObj [(''events'', JList [JObj ex_bad_event])]), content_texts = None\<rparr>))\<rparr>"

theorem inbox_loop_survives_witness:
  "\<exists>rs s'. interleaved (map (op_task toy_lib ex_bad_adapter) [InboxLoop 1]) ex_hermes rs s' \<and> rs ! 0 = Inr () \<and> h_failures s' = 1"
proof -
  let ?out = "\<lparr>wo_events = [ex_bad_event], wo_next_event_id = None, wo_extra = []\<rparr>"
  have "v_InboxWaitOutput (JObj [(''events'', JList [JObj ex_bad_event])]) = FOk ?out" by code_simp
  then have "client_inbox_wait toy_lib (ad_client ex_bad_adapter) q = Ret (Inr ?out)" for q
    by (simp add: client_inbox_wait_def call_def tbind_def ex_bad_adapter_def read_result_def validated_def)
  moreover have "hermes_on_event toy_lib ex_bad_adapter ex_bad_event = Ret (raise (Builtin AttributeError) ''object has no attribute get'')"
    by (simp add: hermes_on_event_def ex_bad_event_def get_or_else_def no_get_def)
  ultimately have "turn (inbox_loop 1 toy_lib ex_bad_adapter) ex_hermes = (Ret (Inr ()), ex_hermes\<lparr>h_failures := 1\<rparr>)"
    by (simp add: inbox_round_def tbind_def atomic_def sget_def supd_def next_cursor_def ex_hermes_def hermes_init_def raise_def)
  moreover have "interleaved [Ret (Inr ())] (ex_hermes\<lparr>h_failures := 1\<rparr>) [Inr ()] (ex_hermes\<lparr>h_failures := 1\<rparr>)"
    using interleaved.finished [of "[Inr ()]"] by simp
  ultimately have i: "interleaved (map (op_task toy_lib ex_bad_adapter) [InboxLoop 1]) ex_hermes [Inr ()] (ex_hermes\<lparr>h_failures := 1\<rparr>)"
    using interleaved.turn [of "[inbox_loop 1 toy_lib ex_bad_adapter]" 0] by simp
  then have "[Inr ()] ! 0 = (Inr () :: unit res)" by (rule inbox_loop_survives [where n = 1]) simp_all
  with i show ?thesis by (metis hermes.select_convs(5) hermes.surjective hermes.update_convs(5))
qed

section \<open>Routing of messages\<close>

text \<open>A message event with these parts, whose intent is none of the coordination intents.\<close>

definition plain_event :: "obj \<Rightarrow> obj \<Rightarrow> bool" where
  "plain_event event d =
     (dict_get event ''event'' = Some (JStr ''inbox.message'') \<and> dict_get event ''data'' = Some (JObj d) \<and> d \<noteq> []
      \<and> (case get_or_else d ''intent'' (JStr '''') of
           JStr i \<Rightarrow> i \<notin> set coordination_intents | JList _ \<Rightarrow> False | JObj _ \<Rightarrow> False | _ \<Rightarrow> True))"

text \<open>
  A plain message with a text is put before the user, each time, with no cooldown and whatever the
  handler does: when the adapter has no bridge to another chat, as a chat with its sender; with a
  bridge, in that chat. It is lost only when the bridge is configured and cannot be resolved: then
  nothing is delivered, and an exception of the platform's name is the only trace.
\<close>

theorem plain_message_routed:
  assumes "plain_event event d" "dict_get d ''messageId'' = Some (JStr m)" "m \<noteq> []"
    and inbox: "run (client_inbox L (ad_client A) (Some (InboxInput_default\<lparr>ii_limit := 50\<rparr>))) (h_world s) = (Inr out, w)"
    and item: "List.find (\<lambda>i. it_message_id i = m) (io_items out) = Some item"
    and t: "body_text (it_body item) = Some t" "t \<noteq> []"
  defines "sender \<equiv> get_or_else d ''from'' (JStr '''')"
    and "ctx \<equiv> get_or_else d ''contextId'' (JStr '''')"
    and "event_id \<equiv> get_or_else event ''eventId'' (get_or_else event ''event_id'' (JStr ''''))"
  defines "sender_name \<equiv> get_or_else d ''fromName'' sender"
  shows "run (hermes_on_event L A event) s =
    (if notify_target A = []
     then (Inr (), s\<lparr>h_world := snd (run (ad_handle_message A (surface_event sender sender_name ctx (JStr m) t event_id)) w),
         h_notified := h_notified s @ [(None, surface_event sender sender_name ctx (JStr m) t event_id)]\<rparr>)
     else
     (case resolve_notify_target A (notify_target A) of
        Inl e \<Rightarrow> (Inl e, s\<lparr>h_world := w\<rparr>)
      | Inr None \<Rightarrow> (Inr (), s\<lparr>h_world := w\<rparr>)
      | Inr (Some (platform, chat_id, handle)) \<Rightarrow>
          (let ev = free_form_event sender_name ctx (JStr m) t (user_session platform chat_id) in
           (Inr (), s\<lparr>h_world := snd (run (handle ev) w), h_notified := h_notified s @ [(None, ev)]\<rparr>))))"
proof -
  have data: "get_or_else event ''data'' (JObj []) = JObj d" "dict_get event ''event'' = Some (JStr ''inbox.message'')"
    using assms(1) by (auto simp: plain_event_def get_or_else_def)
  have mid: "get_or_else d ''messageId'' (JStr '''') = JStr m" using assms(2,3) by (simp add: get_or_else_def)
  have fetch: "run (fetch_inbox_item L A (JStr m)) s = (Inr (Some item), s\<lparr>h_world := w\<rparr>)"
    using inbox item assms(3) by (simp add: fetch_inbox_item_def run_simps sthen_def sres_def)
  have plain: "run (hermes_on_event L A event) s =
      run (plain_message A sender sender_name ctx (JStr m) t event_id (notify_target A)) (s\<lparr>h_world := w\<rparr>)"
    using assms(1) fetch t
    by (auto simp: hermes_on_event_def on_inbox_message_def data mid Let_def run_simps sbind_def sthen_def plain_event_def
        item_text_def sender_def sender_name_def ctx_def event_id_def split: json.splits)
  show ?thesis
    unfolding plain plain_message_def inject_free_form_def inject_to_def surface_inbound_message_def deliver_def
    using t(2) by (auto simp: run_simps sbind_def sthen_def sres_def supd_def Let_def split: prod.splits sum.splits option.splits)
qed

text \<open>A message of Bob, and a host that keeps the texts of the events it is given.\<close>

definition ex_item :: InboxItem where
  "ex_item = \<lparr>it_message_id = ''m1'', it_context_id = ''c1'', it_sender = ''bob@b.example'', it_received_at = ''now'',
     it_status = ''inbox'', it_body = \<lparr>body_text = Some ''hi'', body_intent = None, body_data = None, body_extra = []\<rparr>,
     it_extra = []\<rparr>"

definition ex_inbox :: json where
  "ex_inbox = JObj [(''items'', JList [JObj [(''messageId'', JStr ''m1''), (''contextId'', JStr ''c1''),
     (''from'', JStr ''bob@b.example''), (''receivedAt'', JStr ''now''), (''status'', JStr ''inbox''),
     (''body'', JObj [(''text'', JStr ''hi'')])]])]"

definition ex_chat_adapter :: "ustr list adapter" where
  "ex_chat_adapter = \<lparr>ad_environ = (\<lambda>_. None),
     ad_client = (\<lambda>name args. Ret (Inr \<lparr>isError = False, structuredContent = Some ex_inbox, content_texts = None\<rparr>)),
     ad_gateway = None, ad_handle_message = (\<lambda>ev. atomic (supd (\<lambda>w. w @ [ev_text ev]))),
     ad_long_poll_timeout = 30, ad_read_iso = (\<lambda>_. None)\<rparr>"

definition ex_message_data :: obj where
  "ex_message_data = [(''from'', JStr ''bob@b.example''), (''contextId'', JStr ''c1''), (''messageId'', JStr ''m1'')]"

definition ex_message :: obj where
  "ex_message = [(''event'', JStr ''inbox.message''), (''eventId'', JStr ''e1''), (''data'', JObj ex_message_data)]"

definition ex_surfaced :: MessageEvent where
  "ex_surfaced = surface_event (JStr ''bob@b.example'') (JStr ''bob@b.example'') (JStr ''c1'') (JStr ''m1'') ''hi'' (JStr ''e1'')"

theorem plain_message_routed_witness:
  "run (hermes_on_event toy_lib ex_chat_adapter ex_message) (hermes_init ex_wall []) =
     (Inr (), (hermes_init ex_wall [])\<lparr>h_world := [surface_text (u ''bob@b.example'') (u ''c1'') (u ''m1'') (u ''hi'')],
        h_notified := [(None, ex_surfaced)]\<rparr>)"
proof -
  have "v_InboxOutput ex_inbox = FOk \<lparr>io_items = [ex_item], io_next_since = None\<rparr>" by code_simp
  then have inbox: "run (client_inbox toy_lib (ad_client ex_chat_adapter) (Some (InboxInput_default\<lparr>ii_limit := 50\<rparr>)))
      (h_world (hermes_init ex_wall [])) = (Inr \<lparr>io_items = [ex_item], io_next_since = None\<rparr>, [])"
    by (simp add: client_inbox_def run_call ex_chat_adapter_def read_result_def validated_def run_Ret sbind_def sthen_def sres_def
        hermes_init_def)
  have plain: "plain_event ex_message ex_message_data"
    by (simp add: plain_event_def ex_message_def ex_message_data_def get_or_else_def coordination_intents_def
        COORDINATE_V1_URI_def PROPOSE_PLAN_V1_URI_def CONFIRM_PLAN_V1_URI_def ACCEPT_PLAN_V1_URI_def)
  have "notify_target ex_chat_adapter = []" by (simp add: notify_target_def env_get_def ex_chat_adapter_def)
  then show ?thesis
    using plain_message_routed [OF plain _ _ inbox, of "''m1''" ex_item "''hi''"]
    by (simp add: ex_message_data_def ex_message_def ex_item_def ex_surfaced_def get_or_else_def surface_event_def fstr_def
        ex_chat_adapter_def run_simps supd_def hermes_init_def)
qed

text \<open>
  A proposed plan is shown under the display name that its sender gave, whoever the sender is, and
  the agent is told to send the confirmation to that name.
\<close>

theorem confirmation_goes_to_display_name:
  "ev_text (coordination_event A sender name ctx mid PROPOSE_PLAN_V1_URI t d src) =
     ev_text (coordination_event A sender' name ctx mid PROPOSE_PLAN_V1_URI t d src)"
  "\<exists>before after. ev_text (coordination_event A sender name ctx mid PROPOSE_PLAN_V1_URI t d src) =
     before @ u ''When they say yes/confirm/ok, call mcp_shadownet_send with:'' @ nl @ u ''  to='' @ dq @ fstr name @ dq @ after"
proof -
  show "ev_text (coordination_event A sender name ctx mid PROPOSE_PLAN_V1_URI t d src) =
     ev_text (coordination_event A sender' name ctx mid PROPOSE_PLAN_V1_URI t d src)"
    by (simp add: coordination_event_def build_coordination_inject_def)
  have built: "ev_text (coordination_event A sender name ctx mid PROPOSE_PLAN_V1_URI t d src) =
      propose_text (fstr name) (fstr ctx) (fstr mid) (summarize_plan (ad_read_iso A) (JObj d) (u t)) (dumps_indent 0 (JObj d))"
    by (simp add: coordination_event_def build_coordination_inject_def COORDINATE_V1_URI_def PROPOSE_PLAN_V1_URI_def)
  show "\<exists>before after. ev_text (coordination_event A sender name ctx mid PROPOSE_PLAN_V1_URI t d src) =
     before @ u ''When they say yes/confirm/ok, call mcp_shadownet_send with:'' @ nl @ u ''  to='' @ dq @ fstr name @ dq @ after"
    unfolding built propose_text_def by (intro exI, rule arg_cong2 [where f = append, OF refl]) (simp only: concat.simps)
qed

end
