(* ===== verification/Hermes_Setup.thy ===== *)
theory Hermes_Setup
  imports Hermes_Adapter "HOL-Library.Countable"
begin

text \<open>
  How the Hermes plug-in is set up, from
  \<open>integrations/plugins/hermes-agent/shadownet_hermes_plugin/\<close>: the configuration of the adapter and the
  opening and closing of its session (\<open>_adapter.py\<close>), the registration with hosts of different versions
  (\<open>__init__.py\<close>), the connect URL in \<open>.env\<close> (\<open>_env.py\<close>), the MCP server in \<open>config.yaml\<close> (\<open>_mcp_config.py\<close>), logging out
  (\<open>_cli.py\<close>) and the session hooks (\<open>_hooks.py\<close>). Shown here: what logging out leaves behind, that the
  configuration is written once and read back, that registration drops exactly what the host
  does not know, and that a pending count is shown once.
\<close>

section \<open>Configuration of the adapter\<close>

definition DEFAULT_SIDECAR_BASE_URL :: string where
  "DEFAULT_SIDECAR_BASE_URL = ''https://app.sh4dow.org''"

text \<open>The members of \<open>config.extra\<close> that are read. The first three are texts.\<close>

record extras =
  x_connect_url :: "string option"
  x_token :: "string option"
  x_mcp_endpoint :: "string option"
  x_long_poll_timeout :: "json option"

text \<open>\<open>a or b\<close> for texts that may be missing.\<close>

fun or_text :: "string option \<Rightarrow> string option \<Rightarrow> string option" where
  "or_text (Some (c # cs)) _ = Some (c # cs)"
| "or_text _ b = b"

definition text_or :: "string option \<Rightarrow> string \<Rightarrow> string" where
  "text_or a dflt = (case or_text a None of Some t \<Rightarrow> t | None \<Rightarrow> dflt)"

definition runtime_error :: "string \<Rightarrow> 'a res" where
  "runtime_error m = raise (Builtin RuntimeError) m"

definition config_credentials :: "extras \<Rightarrow> environ \<Rightarrow> (ustr \<times> ustr) res" where
  "config_credentials x env =
     (case text_or (or_text (x_connect_url x) (env ''SHADOWNET_CONNECT_URL'')) '''' of
        [] \<Rightarrow>
          Inr (u (text_or (or_text (x_mcp_endpoint x) (env ''SHADOWNET_MCP_ENDPOINT'')) DEFAULT_SIDECAR_BASE_URL),
               u (text_or (or_text (x_token x) (env ''SHADOWNET_TOKEN'')) ''''))
      | uri \<Rightarrow>
          bind (parse_connect_uri uri) (\<lambda>parsed.
            (case access_token parsed of
               None \<Rightarrow> runtime_error
                 (''SHADOWNET_CONNECT_URL must be an inline (token=...) form for ''
                   @ ''the Hermes plugin; handoff URIs require a browser flow that ''
                   @ ''the plugin does not run.'')
             | Some token \<Rightarrow> Inr (mcp_endpoint parsed, token))))"

definition timeout_value :: "extras \<Rightarrow> environ \<Rightarrow> json" where
  "timeout_value x env =
     (case x_long_poll_timeout x of
        Some v \<Rightarrow> (if truthy v then v else JStr (text_or (env ''SHADOWNET_LONG_POLL_TIMEOUT_SECONDS'') ''30''))
      | None \<Rightarrow> JStr (text_or (env ''SHADOWNET_LONG_POLL_TIMEOUT_SECONDS'') ''30''))"

definition resolve_config :: "lib \<Rightarrow> extras \<Rightarrow> environ \<Rightarrow> (ustr \<times> ustr \<times> int) res" where
  "resolve_config L x env =
     bind (config_credentials x env) (\<lambda>(endpt, token).
     if token = [] then runtime_error
          (''Shadownet plugin requires SHADOWNET_CONNECT_URL (or SHADOWNET_TOKEN); ''
            @ ''mint one from your Sidecar'' @ CHR 0x27 # ''s onboarding portal.'')
     else if endpt = [] then runtime_error
          (''Shadownet plugin requires SHADOWNET_MCP_ENDPOINT (or a connect URI ''
            @ ''carrying the mcp= parameter).'')
     else
       bind (rewrap (rewrap (int_json L (timeout_value x env)) (Builtin TypeError) (Builtin RuntimeError)
                 (\<lambda>_. ''SHADOWNET_LONG_POLL_TIMEOUT_SECONDS must be an integer, got '' @ repr_json (timeout_value x env)))
               (Builtin ValueError) (Builtin RuntimeError)
               (\<lambda>_. ''SHADOWNET_LONG_POLL_TIMEOUT_SECONDS must be an integer, got '' @ repr_json (timeout_value x env)))
         (\<lambda>timeout. Inr (endpt, token, max 1 timeout)))"

definition env_set :: "environ \<Rightarrow> string \<Rightarrow> bool" where
  "env_set env name = (text_or (env name) '''' \<noteq> [])"

definition check_shadownet_requirements :: "environ \<Rightarrow> bool" where
  "check_shadownet_requirements env =
     (env_set env ''SHADOWNET_CONNECT_URL'' \<or> env_set env ''SHADOWNET_TOKEN'' \<and> env_set env ''SHADOWNET_MCP_ENDPOINT'')"

text \<open>\<open>env_enablement\<close>: \<open>{}\<close> or \<open>None\<close>.\<close>

definition env_enablement :: "environ \<Rightarrow> unit option" where
  "env_enablement env =
     (if env_set env ''SHADOWNET_CONNECT_URL'' \<or> env_set env ''SHADOWNET_TOKEN'' \<or> env_set env ''SHADOWNET_MCP_ENDPOINT''
      then Some () else None)"

section \<open>Opening and closing the session\<close>

text \<open>
  The attributes that \<open>connect\<close> and \<open>disconnect\<close> set: the exit stack (\<open>None\<close> before the first \<open>connect\<close>, otherwise
  whether it holds an open client), the inbox task (whether it runs) and the surroundings, on which
  the client and the host's \<open>_mark_connected\<close> and \<open>_mark_disconnected\<close> act.
\<close>

record 'w life =
  lf_stack :: "bool option"
  lf_inbox_task :: "bool option"
  lf_world :: 'w

definition in_life :: "('w, 'a) st \<Rightarrow> ('w life, 'a) st" where
  "in_life m = (\<lambda>s. case m (lf_world s) of (r, w) \<Rightarrow> (r, s\<lparr>lf_world := w\<rparr>))"

definition hermes_connect ::
  "lib \<Rightarrow> ('w, 'w session) st \<Rightarrow> ('w, unit) st \<Rightarrow> ('w life, bool) st"
where
  "hermes_connect L open_client mark_connected =
     sbind (supd (\<lambda>s. s\<lparr>lf_stack := Some False\<rparr>)) (\<lambda>_.
     sthen
       (sbind (in_life open_client) (\<lambda>client.
        sbind (supd (\<lambda>s. s\<lparr>lf_stack := Some True\<rparr>)) (\<lambda>_.
        sbind (in_life (run (client_identity L client))) (\<lambda>_.
        sbind (supd (\<lambda>s. s\<lparr>lf_inbox_task := Some True\<rparr>)) (\<lambda>_.
        in_life mark_connected)))))
       (\<lambda>r. case r of
          Inl e \<Rightarrow> sbind (supd (\<lambda>s. s\<lparr>lf_stack := Some False\<rparr>)) (\<lambda>_. sres (Inl e))
        | Inr _ \<Rightarrow> sret True))"

definition hermes_disconnect :: "('w, unit) st \<Rightarrow> ('w life, unit) st" where
  "hermes_disconnect mark_disconnected =
     sbind (supd (\<lambda>s. if lf_inbox_task s = Some True then s\<lparr>lf_inbox_task := Some False\<rparr> else s)) (\<lambda>_.
     sbind (supd (\<lambda>s. if lf_stack s \<noteq> None then s\<lparr>lf_stack := Some False\<rparr> else s)) (\<lambda>_.
     in_life mark_disconnected))"

section \<open>Registration with the host\<close>

text \<open>
  \<open>_register_platform_compat\<close>: \<open>register\<close> is \<open>ctx.register_platform\<close> for a list of keyword arguments. A keyword
  that is not required and whose quoted name is in the message of a \<open>TypeError\<close> is dropped and the
  call is made again.
\<close>

definition required_kwargs :: "string list" where
  "required_kwargs = [''name'', ''label'', ''adapter_factory'', ''check_fn'']"

definition quoted_kw :: "string \<Rightarrow> string" where
  "quoted_kw kw = CHR 0x27 # kw @ [CHR 0x27]"

definition rejected_kwarg :: "string \<Rightarrow> (string \<times> 'v) list \<Rightarrow> string option" where
  "rejected_kwarg msg kwargs =
     List.find (\<lambda>kw. kw \<notin> set required_kwargs \<and> occurs_in (quoted_kw kw) msg) (map fst kwargs)"

lemma find_mem: "List.find P xs = Some x \<Longrightarrow> x \<in> set xs \<and> P x"
  by (auto simp: find_Some_iff)

lemma rejected_kwarg_mem: "rejected_kwarg msg kwargs = Some kw \<Longrightarrow> kw \<in> set (map fst kwargs)"
  unfolding rejected_kwarg_def by (drule find_mem) simp

lemma delete_shrinks: "kw \<in> set (map fst d) \<Longrightarrow> length (AList.delete kw d) < length d"
  by (auto simp: AList.delete_eq intro: length_filter_less)

function register_platform_compat ::
  "((string \<times> 'v) list \<Rightarrow> ('w, unit) st) \<Rightarrow> (string \<times> 'v) list \<Rightarrow> ('w, unit) st"
where
  "register_platform_compat register kwargs =
     sthen (register kwargs) (\<lambda>r.
       (case r of
          Inr _ \<Rightarrow> sret ()
        | Inl e \<Rightarrow>
            (if \<not> is_a e (Builtin TypeError) then sres (Inl e)
             else
             (case rejected_kwarg (str_of e) kwargs of
                None \<Rightarrow> sres (Inl e)
              | Some kw \<Rightarrow> register_platform_compat register (AList.delete kw kwargs)))))"
  by pat_completeness auto
termination
  by (relation "measure (\<lambda>(register, kwargs). length kwargs)")
    (auto dest: rejected_kwarg_mem intro!: delete_shrinks)

section \<open>The connect URL in \<open>.env\<close>\<close>

text \<open>
  The data directory: the lines of \<open>.env\<close>, each with its line break, and the text of \<open>config.yaml\<close>, or \<open>None\<close> where
  there is no such file; whether the files can be opened for reading and for writing.
\<close>

record data_dir =
  env_lines :: "string list option"
  config_text :: "string option"
  env_readable :: bool
  env_writable :: bool
  config_readable :: bool
  config_writable :: bool

definition is_target_line :: "string \<Rightarrow> bool" where
  "is_target_line line =
     (let stripped = lstrip is_space line in
      \<not> prefix ''#'' stripped
      \<and> (prefix ''SHADOWNET_CONNECT_URL='' stripped \<or> prefix ''export SHADOWNET_CONNECT_URL='' stripped))"

definition between :: "char \<Rightarrow> string \<Rightarrow> bool" where
  "between q s = (prefix [q] s \<and> suffix [q] s)"

definition extract_value :: "string \<Rightarrow> string" where
  "extract_value line =
     (let after = strip (snd (partition_on CHR ''='' line)) in
      if between CHR 0x22 after \<or> between CHR 0x27 after then butlast (tl after) else after)"

definition read_connect_url_from_env :: "data_dir \<Rightarrow> string option" where
  "read_connect_url_from_env dd =
     (case env_lines dd of
        None \<Rightarrow> None
      | Some lines \<Rightarrow>
          (if \<not> env_readable dd then None
           else
           (case List.find is_target_line lines of
              None \<Rightarrow> None
            | Some line \<Rightarrow> or_text (Some (extract_value line)) None)))"

definition strip_connect_url_from_env :: "data_dir \<Rightarrow> bool \<times> data_dir" where
  "strip_connect_url_from_env dd =
     (case env_lines dd of
        None \<Rightarrow> (False, dd)
      | Some lines \<Rightarrow>
          (if \<not> env_readable dd then (False, dd)
           else
           (let kept = filter (\<lambda>line. \<not> is_target_line line) lines in
            if length kept = length lines then (False, dd)
            else if \<not> env_writable dd then (False, dd)
            else (True, dd\<lparr>env_lines := Some kept\<rparr>))))"

section \<open>The MCP server in \<open>config.yaml\<close>\<close>

text \<open>PyYAML, where it is installed: \<open>None\<close> is a \<open>YAMLError\<close>.\<close>

record yaml =
  safe_load :: "string \<Rightarrow> pyval option"
  safe_dump :: "(pykey \<times> pyval) list \<Rightarrow> string"

type_synonym cfg = "(pykey \<times> pyval) list"

definition key :: "string \<Rightarrow> pykey" where
  "key s = KStr (u s)"

lemma key_eq [simp]: "key a = key b \<longleftrightarrow> a = b"
  by (simp add: key_def inj_map_eq_map inj_def)

text \<open>\<open>bool(v)\<close>; a document that is the number 0.0 is not told apart from other numbers.\<close>

fun py_truthy :: "pyval \<Rightarrow> bool" where
  "py_truthy PNone = False"
| "py_truthy (PBool b) = b"
| "py_truthy (PInt i) = (i \<noteq> 0)"
| "py_truthy (PStr s) = (s \<noteq> [])"
| "py_truthy (PSeq vs) = (vs \<noteq> [])"
| "py_truthy (PDict d) = (d \<noteq> [])"
| "py_truthy _ = True"

text \<open>\<open>a == b\<close>, for dictionaries in any order.\<close>

function (sequential) py_eq :: "pyval \<Rightarrow> pyval \<Rightarrow> bool" where
  "py_eq (PDict a) (PDict b) =
     (length a = length b \<and> list_all (\<lambda>(k, v). case dict_get b k of Some w \<Rightarrow> py_eq v w | None \<Rightarrow> False) a)"
| "py_eq (PSeq a) (PSeq b) = (length a = length b \<and> list_all (\<lambda>(v, w). py_eq v w) (zip a b))"
| "py_eq (PBool a) (PInt i) = (i = (if a then 1 else 0))"
| "py_eq (PInt i) (PBool a) = (i = (if a then 1 else 0))"
| "py_eq a b = (a = b)"
  by pat_completeness auto
termination
  by (relation "measure (\<lambda>(a, b). size a)")
    (auto dest!: set_zip_leftD simp: size_list_estimation' less_Suc_eq_le elim!: size_list_estimation')

definition load_config :: "yaml option \<Rightarrow> data_dir \<Rightarrow> (yaml \<times> cfg) option" where
  "load_config Y dd =
     (case Y of
        None \<Rightarrow> None
      | Some y \<Rightarrow>
          (case config_text dd of
             None \<Rightarrow> Some (y, [])
           | Some t \<Rightarrow>
               (if \<not> config_readable dd then None
                else
                (case safe_load y t of
                   None \<Rightarrow> None
                 | Some v \<Rightarrow>
                     (if \<not> py_truthy v then Some (y, [])
                      else (case v of PDict d \<Rightarrow> Some (y, d) | _ \<Rightarrow> None))))))"

definition write_config :: "yaml \<Rightarrow> cfg \<Rightarrow> data_dir \<Rightarrow> bool \<times> data_dir" where
  "write_config y d dd =
     (if config_writable dd then (True, dd\<lparr>config_text := Some (safe_dump y d)\<rparr>) else (False, dd))"

text \<open>
  \<open>_resolve_mcp_target\<close> of the hooks; \<open>ensure_mcp_server_in_config\<close> begins with the same steps.
\<close>

definition resolve_mcp_target :: "environ \<Rightarrow> (ustr \<times> ustr) option" where
  "resolve_mcp_target env =
     (let connect_uri = strip (env_get env ''SHADOWNET_CONNECT_URL'' '''') in
      if connect_uri = [] then None
      else
      (case parse_connect_uri connect_uri of
         Inl _ \<Rightarrow> None
       | Inr parsed \<Rightarrow>
           (case access_token parsed of
              None \<Rightarrow> None
            | Some token \<Rightarrow> (if mcp_endpoint parsed = [] \<or> token = [] then None else Some (mcp_endpoint parsed, token)))))"

definition desired_entry :: "ustr \<Rightarrow> ustr \<Rightarrow> pyval" where
  "desired_entry endpt token =
     PDict [(key ''url'', PStr endpt),
       (key ''headers'', PDict [(key ''Authorization'', PStr (u ''Bearer '' @ token))]),
       (key ''timeout'', PInt 120), (key ''connect_timeout'', PInt 60)]"

definition setdefault :: "pykey \<Rightarrow> pyval \<Rightarrow> cfg \<Rightarrow> cfg" where
  "setdefault k v d = (case dict_get d k of None \<Rightarrow> d @ [(k, v)] | Some _ \<Rightarrow> d)"

definition ensure_mcp_server_in_config :: "yaml option \<Rightarrow> environ \<Rightarrow> data_dir \<Rightarrow> data_dir" where
  "ensure_mcp_server_in_config Y env dd =
     (case resolve_mcp_target env of
        None \<Rightarrow> dd
      | Some (endpt, token) \<Rightarrow>
          (case load_config Y dd of
             None \<Rightarrow> dd
           | Some (y, d) \<Rightarrow>
               (let d' = setdefault (key ''mcp_servers'') (PDict []) d in
                (case dict_get d' (key ''mcp_servers'') of
                   Some (PDict servers) \<Rightarrow>
                     (if (case dict_get servers (key ''shadownet'') of
                            Some existing \<Rightarrow> py_eq existing (desired_entry endpt token) | None \<Rightarrow> False)
                      then dd
                      else snd (write_config y
                        (dict_set (key ''mcp_servers'')
                          (PDict (dict_set (key ''shadownet'') (desired_entry endpt token) servers)) d') dd))
                 | _ \<Rightarrow> dd))))"

definition remove_mcp_server_from_config :: "yaml option \<Rightarrow> data_dir \<Rightarrow> bool \<times> data_dir" where
  "remove_mcp_server_from_config Y dd =
     (case load_config Y dd of
        None \<Rightarrow> (False, dd)
      | Some (y, d) \<Rightarrow>
          (case dict_get d (key ''mcp_servers'') of
             Some (PDict servers) \<Rightarrow>
               (if dict_get servers (key ''shadownet'') = None then (False, dd)
                else
                (let servers' = AList.delete (key ''shadownet'') servers in
                 write_config y
                   (if servers' = [] then AList.delete (key ''mcp_servers'') d
                    else dict_set (key ''mcp_servers'') (PDict servers') d) dd))
           | _ \<Rightarrow> (False, dd)))"

definition read_mcp_server_config :: "yaml option \<Rightarrow> data_dir \<Rightarrow> cfg option" where
  "read_mcp_server_config Y dd =
     (case load_config Y dd of
        None \<Rightarrow> None
      | Some (y, d) \<Rightarrow>
          (case dict_get d (key ''mcp_servers'') of
             Some (PDict servers) \<Rightarrow>
               (case dict_get servers (key ''shadownet'') of Some (PDict entry) \<Rightarrow> Some entry | _ \<Rightarrow> None)
           | _ \<Rightarrow> None))"

definition set_platform_enabled :: "yaml option \<Rightarrow> string \<Rightarrow> bool \<Rightarrow> data_dir \<Rightarrow> bool \<times> data_dir" where
  "set_platform_enabled Y name enabled dd =
     (case load_config Y dd of
        None \<Rightarrow> (False, dd)
      | Some (y, d) \<Rightarrow>
          (let d' = setdefault (key ''gateway'') (PDict []) d in
           (case dict_get d' (key ''gateway'') of
              Some (PDict gateway) \<Rightarrow>
                (let gateway' = setdefault (key ''platforms'') (PDict []) gateway in
                 (case dict_get gateway' (key ''platforms'') of
                    Some (PDict platforms) \<Rightarrow>
                      (let platforms' = setdefault (key name) (PDict []) platforms in
                       (case dict_get platforms' (key name) of
                          Some (PDict platform) \<Rightarrow>
                            (if (case dict_get platform (key ''enabled'') of
                                   Some v \<Rightarrow> py_eq v (PBool enabled) | None \<Rightarrow> False)
                             then (False, dd)
                             else write_config y
                               (dict_set (key ''gateway'')
                                 (PDict (dict_set (key ''platforms'')
                                   (PDict (dict_set (key name)
                                     (PDict (dict_set (key ''enabled'') (PBool enabled) platform)) platforms'))
                                   gateway')) d') dd)
                        | _ \<Rightarrow> (False, dd)))
                  | _ \<Rightarrow> (False, dd)))
            | _ \<Rightarrow> (False, dd))))"

section \<open>Logging out\<close>

text \<open>\<open>do_logout\<close>: the actions that the answer lists, \<open>[]\<close> for \<open>already disconnected\<close>, and the directory it leaves.\<close>

datatype logout_action = RemovedServer | ClearedUrl | DisabledPlatform

definition do_logout :: "yaml option \<Rightarrow> data_dir \<Rightarrow> logout_action list \<times> data_dir" where
  "do_logout Y dd =
     (let (removed_mcp, dd1) = remove_mcp_server_from_config Y dd;
          (cleared_env, dd2) = strip_connect_url_from_env dd1;
          actions = (if removed_mcp then [RemovedServer] else []) @ (if cleared_env then [ClearedUrl] else []) in
      if actions = [] then ([], dd2)
      else
        (let (disabled, dd3) = set_platform_enabled Y ''shadownet'' False dd2 in
         (actions @ (if disabled then [DisabledPlatform] else []), dd3)))"

section \<open>What logging in and out leave\<close>

text \<open>PyYAML reads back what it wrote.\<close>

definition yaml_ok :: "yaml \<Rightarrow> bool" where
  "yaml_ok y = (\<forall>d. safe_load y (safe_dump y d) = Some (PDict d))"

text \<open>The MCP server of the plug-in in a loaded configuration.\<close>

definition server_entry :: "cfg \<Rightarrow> pyval option" where
  "server_entry d = (case dict_get d (key ''mcp_servers'') of Some (PDict servers) \<Rightarrow> dict_get servers (key ''shadownet'') | _ \<Rightarrow> None)"

definition same_files :: "data_dir \<Rightarrow> data_dir \<Rightarrow> bool" where
  "same_files dd dd' =
     (env_readable dd' = env_readable dd \<and> env_writable dd' = env_writable dd
      \<and> config_readable dd' = config_readable dd \<and> config_writable dd' = config_writable dd)"

lemma load_written:
  "yaml_ok y \<Longrightarrow> config_readable dd \<Longrightarrow> load_config (Some y) (dd\<lparr>config_text := Some (safe_dump y d)\<rparr>) = Some (y, d)"
  by (simp add: load_config_def yaml_ok_def)

lemma load_config_fields:
  "load_config Y (dd\<lparr>env_lines := ls\<rparr>) = load_config Y dd"
  by (simp add: load_config_def cong: option.case_cong)

lemma remove_outcome:
  assumes "yaml_ok y" "load_config (Some y) dd = Some (y, d)" "config_readable dd" "config_writable dd"
    and run: "remove_mcp_server_from_config (Some y) dd = (b, dd')"
  shows "\<exists>d'. load_config (Some y) dd' = Some (y, d') \<and> server_entry d' = None \<and> env_lines dd' = env_lines dd \<and> same_files dd dd'"
proof (cases "server_entry d")
  case None
  then have "dd' = dd"
    using run assms(2) by (auto simp: remove_mcp_server_from_config_def server_entry_def split: option.splits pyval.splits)
  with None assms(2) show ?thesis by (auto simp: same_files_def)
next
  case (Some v)
  then obtain servers where s: "dict_get d (key ''mcp_servers'') = Some (PDict servers)" "dict_get servers (key ''shadownet'') = Some v"
    by (auto simp: server_entry_def split: option.splits pyval.splits)
  define d' where "d' = (if AList.delete (key ''shadownet'') servers = [] then AList.delete (key ''mcp_servers'') d
    else dict_set (key ''mcp_servers'') (PDict (AList.delete (key ''shadownet'') servers)) d)"
  have dd': "dd' = dd\<lparr>config_text := Some (safe_dump y d')\<rparr>"
    using run assms(2,4) s by (simp add: remove_mcp_server_from_config_def write_config_def d'_def Let_def)
  moreover have "server_entry d' = None"
    by (simp add: d'_def server_entry_def update_conv delete_conv)
  ultimately show ?thesis
    using load_written [OF assms(1,3)] by (auto simp: same_files_def)
qed

lemma filter_all: "length (filter P xs) = length xs \<longleftrightarrow> filter P xs = xs"
  by (metis filter_id_conv length_filter_less less_irrefl)

lemma strip_outcome:
  assumes "env_readable dd" "env_writable dd" "strip_connect_url_from_env dd = (b, dd')"
  shows "env_lines dd' = map_option (filter (\<lambda>l. \<not> is_target_line l)) (env_lines dd)
    \<and> load_config Y dd' = load_config Y dd \<and> same_files dd dd'"
proof (cases "env_lines dd")
  case None
  with assms(3) show ?thesis by (auto simp: strip_connect_url_from_env_def same_files_def)
next
  case (Some ls)
  then show ?thesis
    using assms by (auto simp: strip_connect_url_from_env_def same_files_def load_config_fields Let_def filter_all split: if_splits)
qed

lemma set_platform_outcome:
  assumes "yaml_ok y" "load_config (Some y) dd = Some (y, d)" "config_readable dd"
    and run: "set_platform_enabled (Some y) name b dd = (c, dd')"
  shows "\<exists>d'. load_config (Some y) dd' = Some (y, d') \<and> server_entry d' = server_entry d \<and> env_lines dd' = env_lines dd \<and> same_files dd dd'"
proof -
  have other: "server_entry (dict_set (key ''gateway'') v (setdefault (key ''gateway'') w d)) = server_entry d" for v w
    by (simp add: server_entry_def update_conv setdefault_def map_add_def split: option.split)
  have "dd' = dd \<or> (\<exists>v w. dd' = dd\<lparr>config_text := Some (safe_dump y (dict_set (key ''gateway'') v (setdefault (key ''gateway'') w d)))\<rparr>)"
    using run assms(2)
    by (auto simp: set_platform_enabled_def write_config_def Let_def split: option.splits pyval.splits if_splits)
  then show ?thesis
    using assms(2) load_written [OF assms(1,3)] other by (auto simp: same_files_def)
qed

lemma read_none: "load_config Y dd = Some (y, d) \<Longrightarrow> server_entry d = None \<Longrightarrow> read_mcp_server_config Y dd = None"
  by (auto simp: read_mcp_server_config_def server_entry_def split: option.splits pyval.splits)

lemma remove_nothing:
  "load_config Y dd = Some (y, d) \<Longrightarrow> server_entry d = None \<Longrightarrow> remove_mcp_server_from_config Y dd = (False, dd)"
  by (auto simp: remove_mcp_server_from_config_def server_entry_def split: option.splits pyval.splits)

lemma filtered_no_target:
  assumes "env_lines dd = map_option (filter (\<lambda>l. \<not> is_target_line l)) ls"
  shows "read_connect_url_from_env dd = None" "strip_connect_url_from_env dd = (False, dd)"
proof -
  have "List.find is_target_line (filter (\<lambda>l. \<not> is_target_line l) l) = None" for l
    by (simp add: find_None_iff)
  with assms show "read_connect_url_from_env dd = None" "strip_connect_url_from_env dd = (False, dd)"
    by (cases ls; simp add: read_connect_url_from_env_def strip_connect_url_from_env_def filter_filter)+
qed


text \<open>A stand-in for PyYAML that reads back what it wrote: documents are numbered, and a text is its document's number in unary.\<close>

instance pykey :: countable
  by countable_datatype

instance pyval :: countable
  by countable_datatype

definition toy_yaml :: yaml where
  "toy_yaml = \<lparr>safe_load = (\<lambda>t. Some (PDict (from_nat (length t)))), safe_dump = (\<lambda>d. replicate (to_nat d) CHR ''x'')\<rparr>"

lemma toy_yaml_ok: "yaml_ok toy_yaml"
  by (simp add: yaml_ok_def toy_yaml_def)

definition ex_cfg :: cfg where
  "ex_cfg = [(key ''mcp_servers'', PDict [(key ''shadownet'', desired_entry (u ''https://s.example/mcp'') (u ''t''))])]"

definition ex_data_dir :: data_dir where
  "ex_data_dir = \<lparr>env_lines = Some [''A=1'', ''SHADOWNET_CONNECT_URL=x''], config_text = Some (safe_dump toy_yaml ex_cfg),
     env_readable = True, env_writable = True, config_readable = True, config_writable = True\<rparr>"


lemma desired_eq: "py_eq (desired_entry e t) (desired_entry e t)"
  by (simp add: desired_entry_def)

lemma setdefault_get: "dict_get (setdefault k v d) k' = (if k' = k \<and> dict_get d k = None then Some v else dict_get d k')"
  by (auto simp: setdefault_def map_add_def split: option.splits)

lemma py_eq_desired: "py_eq v (desired_entry endpt token) \<Longrightarrow> \<exists>entry. v = PDict entry"
  by (cases v) (auto simp: desired_entry_def)

text \<open>The MCP servers of a configuration, none when it has no such member.\<close>

definition servers_of :: "cfg \<Rightarrow> cfg \<Rightarrow> bool" where
  "servers_of d servers =
     (dict_get (setdefault (key ''mcp_servers'') (PDict []) d) (key ''mcp_servers'') = Some (PDict servers))"

lemma ensure_cases:
  assumes "resolve_mcp_target env = Some (endpt, token)" "load_config (Some y) dd = Some (y, d)" "servers_of d servers"
  shows "ensure_mcp_server_in_config (Some y) env dd =
    (if (case dict_get servers (key ''shadownet'') of Some v \<Rightarrow> py_eq v (desired_entry endpt token) | None \<Rightarrow> False) then dd
     else snd (write_config y (dict_set (key ''mcp_servers'') (PDict (dict_set (key ''shadownet'') (desired_entry endpt token) servers))
            (setdefault (key ''mcp_servers'') (PDict []) d)) dd))"
  using assms by (simp add: ensure_mcp_server_in_config_def servers_of_def Let_def)

lemma ensure_reads:
  assumes "yaml_ok y" "resolve_mcp_target env = Some (endpt, token)" "load_config (Some y) dd = Some (y, d)"
    and "config_readable dd" "config_writable dd" "servers_of d servers"
  shows "\<exists>dd' d' servers' entry. ensure_mcp_server_in_config (Some y) env dd = dd'
      \<and> read_mcp_server_config (Some y) dd' = Some entry \<and> py_eq (PDict entry) (desired_entry endpt token)
      \<and> load_config (Some y) dd' = Some (y, d') \<and> servers_of d' servers'
      \<and> (\<forall>k. k \<noteq> key ''mcp_servers'' \<longrightarrow> dict_get d' k = dict_get d k)
      \<and> (\<forall>k. k \<noteq> key ''shadownet'' \<longrightarrow> dict_get servers' k = dict_get servers k)
      \<and> ensure_mcp_server_in_config (Some y) env dd' = dd'
      \<and> (dict_get servers (key ''shadownet'') = Some (PDict entry) \<or> PDict entry = desired_entry endpt token)"
proof (cases "\<exists>v. dict_get servers (key ''shadownet'') = Some v \<and> py_eq v (desired_entry endpt token)")
  case True
  then obtain entry where e: "dict_get servers (key ''shadownet'') = Some (PDict entry)" "py_eq (PDict entry) (desired_entry endpt token)"
    using py_eq_desired by blast
  then have "ensure_mcp_server_in_config (Some y) env dd = dd" using ensure_cases [OF assms(2,3,6)] by simp
  moreover have "read_mcp_server_config (Some y) dd = Some entry"
    using e assms(3,6) by (auto simp: read_mcp_server_config_def servers_of_def setdefault_get split: if_splits)
  ultimately show ?thesis using e assms(3,6) by blast
next
  case False
  let ?servers = "dict_set (key ''shadownet'') (desired_entry endpt token) servers"
  let ?d = "dict_set (key ''mcp_servers'') (PDict ?servers) (setdefault (key ''mcp_servers'') (PDict []) d)"
  let ?dd = "dd\<lparr>config_text := Some (safe_dump y ?d)\<rparr>"
  have dd': "ensure_mcp_server_in_config (Some y) env dd = ?dd"
    using False assms(5) by (auto simp: ensure_cases [OF assms(2,3,6)] write_config_def split: option.splits)
  have l: "load_config (Some y) ?dd = Some (y, ?d)" using load_written [OF assms(1,4)] by blast
  have s: "servers_of ?d ?servers" by (simp add: servers_of_def setdefault_def update_conv)
  obtain entry where d: "desired_entry endpt token = PDict entry" by (simp add: desired_entry_def)
  have "read_mcp_server_config (Some y) ?dd = Some entry"
    unfolding read_mcp_server_config_def l by (simp add: update_conv d)
  moreover have "ensure_mcp_server_in_config (Some y) env ?dd = ?dd"
    unfolding ensure_cases [OF assms(2) l s] by (simp add: update_conv desired_eq)
  moreover have "\<forall>k. k \<noteq> key ''mcp_servers'' \<longrightarrow> dict_get ?d k = dict_get d k"
    "\<forall>k. k \<noteq> key ''shadownet'' \<longrightarrow> dict_get ?servers k = dict_get servers k"
    by (simp_all add: update_conv setdefault_get)
  ultimately show ?thesis using dd' l s d desired_eq by metis
qed

text \<open>
  What \<open>ensure_mcp_server_in_config\<close> leaves in \<open>config.yaml\<close>, for a connect URL with a token: the entry that is
  read back is the one for this endpoint and this token; every other server and every other member
  of the file is as it was; and running it again changes nothing.
\<close>

theorem ensure_then_read:
  assumes "yaml_ok y" "resolve_mcp_target env = Some (endpt, token)" "load_config (Some y) dd = Some (y, d)"
    and "config_readable dd" "config_writable dd" "servers_of d servers"
  shows "\<exists>dd' d' servers' entry. ensure_mcp_server_in_config (Some y) env dd = dd'
      \<and> read_mcp_server_config (Some y) dd' = Some entry \<and> py_eq (PDict entry) (desired_entry endpt token)
      \<and> load_config (Some y) dd' = Some (y, d') \<and> servers_of d' servers'
      \<and> (\<forall>k. k \<noteq> key ''mcp_servers'' \<longrightarrow> dict_get d' k = dict_get d k)
      \<and> (\<forall>k. k \<noteq> key ''shadownet'' \<longrightarrow> dict_get servers' k = dict_get servers k)
      \<and> ensure_mcp_server_in_config (Some y) env dd' = dd'"
  using ensure_reads [OF assms] by blast

theorem ensure_then_read_witness:
  "\<exists>dd' entry. ensure_mcp_server_in_config (Some toy_yaml)
       (\<lambda>v. if v = ''SHADOWNET_CONNECT_URL'' then Some ''shadow://connect?mcp=https://s.example/mcp&token=t'' else None)
       (ex_data_dir\<lparr>config_text := None\<rparr>) = dd'
     \<and> read_mcp_server_config (Some toy_yaml) dd' = Some entry
     \<and> py_eq (PDict entry) (desired_entry (u ''https://s.example/mcp'') (u ''t''))"
proof -
  let ?env = "\<lambda>v. if v = ''SHADOWNET_CONNECT_URL'' then Some ''shadow://connect?mcp=https://s.example/mcp&token=t'' else None"
  have "strip ''shadow://connect?mcp=https://s.example/mcp&token=t'' = ''shadow://connect?mcp=https://s.example/mcp&token=t''"
    by code_simp
  moreover have "parse_connect_uri ''shadow://connect?mcp=https://s.example/mcp&token=t'' =
      Inr \<lparr>mcp_endpoint = u ''https://s.example/mcp'', access_token = Some (u ''t''), handoff_code = None\<rparr>"
    by code_simp
  ultimately have "resolve_mcp_target ?env = Some (u ''https://s.example/mcp'', u ''t'')"
    by (simp add: resolve_mcp_target_def env_get_def Let_def)
  moreover have "load_config (Some toy_yaml) (ex_data_dir\<lparr>config_text := None\<rparr>) = Some (toy_yaml, [])"
    "servers_of [] []" "config_readable (ex_data_dir\<lparr>config_text := None\<rparr>)" "config_writable (ex_data_dir\<lparr>config_text := None\<rparr>)"
    by (simp_all add: load_config_def servers_of_def setdefault_def ex_data_dir_def)
  ultimately show ?thesis using ensure_then_read [OF toy_yaml_ok] by blast
qed

section \<open>The connect URL survives \<open>.env\<close>\<close>

text \<open>
  A connect URL that is written to \<open>.env\<close> as a line of its own, exported or not, is read back as it is,
  if it has no white space at its ends and is not a quoted text, and no earlier line sets it.
\<close>

theorem env_line_roundtrip:
  assumes v: "v \<noteq> []" "\<not> is_space (hd v)" "\<not> is_space (last v)" "\<not> between CHR 0x22 v" "\<not> between CHR 0x27 v"
    and "env_lines dd = Some (earlier @ line # later)" "env_readable dd" "list_all (\<lambda>l. \<not> is_target_line l) earlier"
    and line: "line = ''SHADOWNET_CONNECT_URL='' @ v @ [CHR 0x0A] \<or> line = ''export SHADOWNET_CONNECT_URL='' @ v @ [CHR 0x0A]"
  shows "read_connect_url_from_env dd = Some v"
proof -
  have "snd (partition_on CHR ''='' line) = v @ [CHR 0x0A]"
    using line by (auto simp: partition_on_def)
  moreover have "strip (v @ [CHR 0x0A]) = v"
    using strip_surrounded [of "[]" "[CHR 0x0A]" v] v by (simp add: is_space_def)
  ultimately have "extract_value line = v" using v by (simp add: extract_value_def)
  moreover have "is_target_line line"
    using line by (auto simp: is_target_line_def lstrip_def is_space_def)
  then have "List.find is_target_line (earlier @ line # later) = Some line"
    using assms(8) by (induction earlier) auto
  ultimately show ?thesis using assms(6,7) v(1) by (cases v) (simp_all add: read_connect_url_from_env_def)
qed

theorem env_line_roundtrip_witness:
  "read_connect_url_from_env (ex_data_dir\<lparr>env_lines := Some [''A=1'', ''SHADOWNET_CONNECT_URL=shadow://connect?mcp=x'' @ [CHR 0x0A]]\<rparr>)
     = Some ''shadow://connect?mcp=x''"
proof -
  have "\<not> is_target_line ''A=1''" by code_simp
  then show ?thesis
    using env_line_roundtrip [of "''shadow://connect?mcp=x''" "ex_data_dir\<lparr>env_lines := Some [''A=1'', ''SHADOWNET_CONNECT_URL=shadow://connect?mcp=x'' @ [CHR 0x0A]]\<rparr>"
        "[''A=1'']" "''SHADOWNET_CONNECT_URL=shadow://connect?mcp=x'' @ [CHR 0x0A]" "[]"]
    by (simp add: is_space_def between_def ex_data_dir_def)
qed

section \<open>Registration drops exactly what the host does not know\<close>

lemma quote_free_split:
  "a @ c # x = b @ c # y \<Longrightarrow> c \<notin> set a \<Longrightarrow> c \<notin> set b \<Longrightarrow> a = b \<and> x = y"
  by (induction a arbitrary: b) (auto simp: Cons_eq_append_conv)

lemma quoted_unique:
  assumes "occurs_in (quoted_kw kw') (pre @ quoted_kw kw)" "CHR 0x27 \<notin> set pre" "CHR 0x27 \<notin> set kw" "CHR 0x27 \<notin> set kw'"
  shows "kw' = kw"
proof -
  obtain a b where eq: "pre @ CHR 0x27 # (kw @ [CHR 0x27]) = a @ CHR 0x27 # (kw' @ CHR 0x27 # b)"
    using assms(1) by (auto simp: sublist_def quoted_kw_def)
  have "CHR 0x27 \<notin> set a"
  proof
    assume "CHR 0x27 \<in> set a"
    then have "2 < count_list (a @ CHR 0x27 # (kw' @ CHR 0x27 # b)) (CHR 0x27)"
      using count_list_0_iff [of a "CHR 0x27"] by (simp add: count_list_append)
    moreover have "count_list pre (CHR 0x27) = 0" "count_list kw (CHR 0x27) = 0"
      using assms(2,3) by (simp_all add: count_list_0_iff)
    then have "count_list (pre @ CHR 0x27 # (kw @ [CHR 0x27])) (CHR 0x27) = 2" by simp
    ultimately show False using eq by simp
  qed
  with quote_free_split [OF eq assms(2)] have "kw @ CHR 0x27 # [] = kw' @ CHR 0x27 # b" by simp
  from quote_free_split [OF this assms(3,4)] show ?thesis by simp
qed

text \<open>
  A host that knows the keywords \<open>accepted\<close>: a call with others raises the \<open>TypeError\<close> of an unexpected
  keyword argument, which names one of them in quotes; a call without others is carried out.
\<close>

definition knows :: "string set \<Rightarrow> ((string \<times> 'v) list \<Rightarrow> ((string \<times> 'v) list list, unit) st) \<Rightarrow> bool" where
  "knows accepted register =
     (\<forall>kwargs s.
        if fst ` set kwargs \<subseteq> accepted then register kwargs s = (Inr (), s @ [kwargs])
        else \<exists>kw pre. kw \<in> fst ` set kwargs - accepted \<and> CHR 0x27 \<notin> set pre
          \<and> register kwargs s = (Inl (Exn (Builtin TypeError) (pre @ quoted_kw kw)), s))"

lemma rejected_kwarg_unknown:
  assumes "kw \<in> fst ` set kwargs" "kw \<notin> set required_kwargs" "CHR 0x27 \<notin> set pre" "\<forall>k\<in>fst ` set kwargs. CHR 0x27 \<notin> set k"
  shows "rejected_kwarg (pre @ quoted_kw kw) kwargs = Some kw"
proof -
  let ?P = "\<lambda>k. k \<notin> set required_kwargs \<and> occurs_in (quoted_kw k) (pre @ quoted_kw kw)"
  have "?P kw" using assms(2) by (simp add: sublist_append)
  moreover have "k = kw" if "k \<in> set (map fst kwargs)" "?P k" for k
    using quoted_unique [of k pre kw] that assms by auto
  moreover have "kw \<in> set (map fst kwargs)" using assms(1) by simp
  ultimately have "List.find ?P (map fst kwargs) \<noteq> None" by (auto simp: find_None_iff)
  then obtain k where "List.find ?P (map fst kwargs) = Some k" by blast
  moreover from find_mem [OF this] have "k \<in> set (map fst kwargs)" "?P k" by auto
  ultimately show ?thesis
    using \<open>\<And>k. k \<in> set (map fst kwargs) \<Longrightarrow> ?P k \<Longrightarrow> k = kw\<close> unfolding rejected_kwarg_def by blast
qed

text \<open>
  The retries of \<open>_register_platform_compat\<close> end, with one registration: the one with exactly the
  keyword arguments that the host knows, in their order and with their values, the required ones among
  them.
\<close>

theorem register_drops_unknown:
  assumes "knows accepted register" "set required_kwargs \<subseteq> accepted" "\<forall>k\<in>fst ` set kwargs. CHR 0x27 \<notin> set k"
  shows "register_platform_compat register kwargs s = (Inr (), s @ [filter (\<lambda>(k, v). k \<in> accepted) kwargs])"
  using assms(3)
proof (induction kwargs rule: measure_induct_rule [of length])
  case (less kwargs)
  show ?case
  proof (cases "fst ` set kwargs \<subseteq> accepted")
    case True
    then have "register kwargs s = (Inr (), s @ [kwargs])" using assms(1) by (simp add: knows_def)
    moreover have "filter (\<lambda>(k, v). k \<in> accepted) kwargs = kwargs" using True by (auto simp: filter_id_conv)
    ultimately show ?thesis by (subst register_platform_compat.simps) (simp add: sthen_def sret_def)
  next
    case False
    then obtain kw pre where kw: "kw \<in> fst ` set kwargs" "kw \<notin> accepted" "CHR 0x27 \<notin> set pre"
        "register kwargs s = (Inl (Exn (Builtin TypeError) (pre @ quoted_kw kw)), s)"
      using assms(1) unfolding knows_def by (metis Diff_iff)
    have "rejected_kwarg (pre @ quoted_kw kw) kwargs = Some kw"
      using kw less.prems assms(2) by (intro rejected_kwarg_unknown) auto
    then have "register_platform_compat register kwargs s = register_platform_compat register (AList.delete kw kwargs) s"
      using kw(4) by (subst register_platform_compat.simps) (simp add: sthen_def is_a_eval)
    moreover have "register_platform_compat register (AList.delete kw kwargs) s =
        (Inr (), s @ [filter (\<lambda>(k, v). k \<in> accepted) (AList.delete kw kwargs)])"
      using less.prems kw(1) by (intro less.IH delete_shrinks) (auto simp: AList.delete_eq)
    moreover have "filter (\<lambda>(k, v). k \<in> accepted) (AList.delete kw kwargs) = filter (\<lambda>(k, v). k \<in> accepted) kwargs"
      using kw(2) by (auto simp: AList.delete_eq intro!: filter_cong)
    ultimately show ?thesis by simp
  qed
qed

text \<open>An older host that does not know the hint.\<close>

definition old_host :: "(string \<times> unit) list \<Rightarrow> ((string \<times> unit) list list, unit) st" where
  "old_host kwargs s =
     (case List.find (\<lambda>k. k \<notin> set required_kwargs) (map fst kwargs) of
        None \<Rightarrow> (Inr (), s @ [kwargs])
      | Some kw \<Rightarrow> (Inl (Exn (Builtin TypeError) (''got an unexpected keyword argument '' @ quoted_kw kw)), s))"

theorem register_drops_unknown_witness:
  "register_platform_compat old_host [(''name'', ()), (''platform_hint'', ()), (''check_fn'', ())] [] =
     (Inr (), [[(''name'', ()), (''check_fn'', ())]])"
proof -
  let ?pre = "''got an unexpected keyword argument ''"
  have "if fst ` set kwargs \<subseteq> set required_kwargs then old_host kwargs s = (Inr (), s @ [kwargs])
      else \<exists>kw pre. kw \<in> fst ` set kwargs - set required_kwargs \<and> CHR 0x27 \<notin> set pre
        \<and> old_host kwargs s = (Inl (Exn (Builtin TypeError) (pre @ quoted_kw kw)), s)" for kwargs s
  proof (cases "List.find (\<lambda>k. k \<notin> set required_kwargs) (map fst kwargs)")
    case None
    then have "fst ` set kwargs \<subseteq> set required_kwargs" by (auto simp: find_None_iff)
    with None show ?thesis by (simp add: old_host_def)
  next
    case (Some kw)
    then have kw: "kw \<in> fst ` set kwargs - set required_kwargs" by (auto dest!: find_mem)
    have "CHR 0x27 \<notin> set ?pre" by simp
    moreover have "old_host kwargs s = (Inl (Exn (Builtin TypeError) (?pre @ quoted_kw kw)), s)" using Some by (simp add: old_host_def)
    ultimately have "\<exists>kw pre. kw \<in> fst ` set kwargs - set required_kwargs \<and> CHR 0x27 \<notin> set pre
        \<and> old_host kwargs s = (Inl (Exn (Builtin TypeError) (pre @ quoted_kw kw)), s)" using kw by blast
    moreover have "\<not> fst ` set kwargs \<subseteq> set required_kwargs" using kw by blast
    ultimately show ?thesis by simp
  qed
  then have "knows (set required_kwargs) old_host" unfolding knows_def by blast
  then show ?thesis
    using register_drops_unknown [of "set required_kwargs" old_host "[(''name'', ()), (''platform_hint'', ()), (''check_fn'', ())]" "[]"]
    by (simp add: required_kwargs_def)
qed

section \<open>The configuration and the session\<close>

lemma parsed_endpoint_allowed: "parse_connect_uri uri = Inr c \<Longrightarrow> endpoint_allowed (mcp_endpoint c)"
  by (auto simp: parse_connect_uri_def bind_Inr_iff if_raise_Inr_iff connect_error_def connect_of_params_Inr_iff connect_outcome_def
      split: if_splits)

text \<open>
  A configuration that the adapter accepts names a non-empty endpoint and a non-empty token, its
  long-poll timeout is at least a second, and an endpoint that comes from a connect URL is reached over
  HTTPS or on the local host.
\<close>

theorem resolve_config_wf:
  assumes "resolve_config L x env = Inr (endpt, token, timeout)"
  shows "endpt \<noteq> [] \<and> token \<noteq> [] \<and> 1 \<le> timeout
    \<and> (text_or (or_text (x_connect_url x) (env ''SHADOWNET_CONNECT_URL'')) '''' \<noteq> [] \<longrightarrow> endpoint_allowed endpt)"
proof -
  have "config_credentials x env = Inr (endpt, token)" "endpt \<noteq> []" "token \<noteq> []" "1 \<le> timeout"
    using assms by (auto simp: resolve_config_def bind_Inr_iff runtime_error_def raise_def split: if_splits)
  moreover from this(1) have "text_or (or_text (x_connect_url x) (env ''SHADOWNET_CONNECT_URL'')) '''' \<noteq> [] \<Longrightarrow> endpoint_allowed endpt"
    by (auto simp: config_credentials_def bind_Inr_iff runtime_error_def raise_def parsed_endpoint_allowed
        split: list.splits option.splits)
  ultimately show ?thesis by blast
qed

theorem resolve_config_wf_witness:
  "\<exists>endpt token timeout. resolve_config toy_lib \<lparr>x_connect_url = Some ''shadow://connect?mcp=https://s.example/mcp&token=t'',
       x_token = None, x_mcp_endpoint = None, x_long_poll_timeout = Some (JInt 0)\<rparr> (\<lambda>_. None) = Inr (endpt, token, timeout)
     \<and> endpt = u ''https://s.example/mcp'' \<and> timeout = 30 \<and> endpoint_allowed endpt"
proof -
  let ?uri = "''shadow://connect?mcp=https://s.example/mcp&token=t''"
  let ?x = "\<lparr>x_connect_url = Some ?uri, x_token = None, x_mcp_endpoint = None, x_long_poll_timeout = Some (JInt 0)\<rparr>"
  have "parse_connect_uri ?uri =
      Inr \<lparr>mcp_endpoint = u ''https://s.example/mcp'', access_token = Some (u ''t''), handoff_code = None\<rparr>"
    by code_simp
  moreover have "int_of_str ''30'' = Some 30" by code_simp
  ultimately have r: "resolve_config toy_lib ?x (\<lambda>_. None) = Inr (u ''https://s.example/mcp'', u ''t'', 30)"
    by (simp add: resolve_config_def config_credentials_def text_or_def timeout_value_def int_json_def rewrap_def try_except_def)
  moreover from resolve_config_wf [OF r] have "endpoint_allowed (u ''https://s.example/mcp'')" by (simp add: text_or_def)
  ultimately show ?thesis by blast
qed

text \<open>
  With a token and nothing else the adapter can be configured, with the default endpoint, and the
  platform is listed as enabled, but the requirements check, which runs first, refuses it.
\<close>

theorem token_alone_refused:
  assumes "t \<noteq> []"
  defines "env \<equiv> \<lambda>v. if v = ''SHADOWNET_TOKEN'' then Some t else None"
  shows "resolve_config L \<lparr>x_connect_url = None, x_token = None, x_mcp_endpoint = None, x_long_poll_timeout = None\<rparr> env =
      Inr (u DEFAULT_SIDECAR_BASE_URL, u t, 30)
    \<and> env_enablement env = Some () \<and> \<not> check_shadownet_requirements env"
proof -
  obtain c cs where t: "t = c # cs" using assms(1) by (cases t) auto
  have "int_of_str ''30'' = Some 30" by code_simp
  then show ?thesis
    by (simp add: env_def t resolve_config_def config_credentials_def text_or_def timeout_value_def int_json_def rewrap_def
        try_except_def env_enablement_def env_set_def check_shadownet_requirements_def DEFAULT_SIDECAR_BASE_URL_def)
qed

lemmas life_eqs = hermes_connect_def hermes_disconnect_def in_life_def sbind_def sthen_def supd_def sret_def sres_def

text \<open>
  The client session of the adapter is open exactly while it is connected: a connect that succeeds
  leaves it open with the inbox loop running, one that fails leaves it closed, wherever it failed, and
  after a disconnect neither the session is open nor the loop running, whatever the host does.
\<close>

theorem session_closed:
  "(case hermes_connect L open_client mark s of
      (Inr b, s') \<Rightarrow> b \<and> lf_stack s' = Some True \<and> lf_inbox_task s' = Some True
    | (Inl e, s') \<Rightarrow> lf_stack s' = Some False)
   \<and> (case hermes_disconnect mark' s of (r, s') \<Rightarrow> lf_stack s' \<noteq> Some True \<and> lf_inbox_task s' \<noteq> Some True)"
proof
  show "case hermes_connect L open_client mark s of
      (Inr b, s') \<Rightarrow> b \<and> lf_stack s' = Some True \<and> lf_inbox_task s' = Some True
    | (Inl e, s') \<Rightarrow> lf_stack s' = Some False"
    by (simp add: life_eqs split: prod.splits sum.splits)
  show "case hermes_disconnect mark' s of (r, s') \<Rightarrow> lf_stack s' \<noteq> Some True \<and> lf_inbox_task s' \<noteq> Some True"
    by (simp add: life_eqs split: prod.splits)
qed

end
