(* ===== verification/Hermes_Hooks.thy ===== *)
theory Hermes_Hooks
  imports Hermes_Setup
begin

text \<open>
  The session hooks of the Hermes plug-in, from
  \<open>integrations/plugins/hermes-agent/shadownet_hermes_plugin/_hooks.py\<close>: the count of pending messages that is fetched when a
  session starts and shown on its first turn, and the hint for requests that look like a
  coordination. Shown here: what each hook does to the dictionary of pending counts, for every
  sequence of calls, and that a count is shown once.
\<close>

section \<open>The hooks\<close>

text \<open>The module's dictionary and the surroundings on which the MCP session acts.\<close>

record 'w hook_state =
  pending_inbox :: "(string \<times> int) list"
  hk_world :: 'w

definition SUPPRESSED_PLATFORMS :: "string list" where
  "SUPPRESSED_PLATFORMS = [''shadownet'']"

text \<open>\<open>_fetch_inbox_count_async\<close>: \<open>connect\<close> is \<open>ShadownetMCPClient.connect\<close>; every exception counts as nothing pending.\<close>

definition fetch_inbox_count :: "lib \<Rightarrow> (ustr \<Rightarrow> ustr \<Rightarrow> 'w session res) \<Rightarrow> ustr \<Rightarrow> ustr \<Rightarrow> ('w, int) st" where
  "fetch_inbox_count L connect endpt token =
     sthen (sbind (sres (connect endpt token)) (\<lambda>client.
            run (client_inbox L client (Some (InboxInput_default\<lparr>ii_limit := 50\<rparr>))))) (\<lambda>r.
       (case r of Inl _ \<Rightarrow> sret 0 | Inr result \<Rightarrow> sret (int (length (io_items result)))))"

definition fetch_pending_inbox_count :: "lib \<Rightarrow> environ \<Rightarrow> (ustr \<Rightarrow> ustr \<Rightarrow> 'w session res) \<Rightarrow> ('w, int) st" where
  "fetch_pending_inbox_count L env connect =
     (case resolve_mcp_target env of None \<Rightarrow> sret 0 | Some (endpt, token) \<Rightarrow> fetch_inbox_count L connect endpt token)"

definition in_hooks :: "('w, 'a) st \<Rightarrow> ('w hook_state, 'a) st" where
  "in_hooks m = (\<lambda>s. case m (hk_world s) of (r, w) \<Rightarrow> (r, s\<lparr>hk_world := w\<rparr>))"

definition on_session_start ::
  "lib \<Rightarrow> environ \<Rightarrow> (ustr \<Rightarrow> ustr \<Rightarrow> 'w session res) \<Rightarrow> string \<Rightarrow> string \<Rightarrow> ('w hook_state, unit) st"
where
  "on_session_start L env connect session_id platform =
     (if platform \<in> set SUPPRESSED_PLATFORMS then sret ()
      else if session_id = [] then sret ()
      else
        sthen (in_hooks (fetch_pending_inbox_count L env connect)) (\<lambda>r.
          (case r of
             Inl _ \<Rightarrow> sret ()
           | Inr n \<Rightarrow>
               (if n > 0 then supd (\<lambda>s. s\<lparr>pending_inbox := dict_set session_id n (pending_inbox s)\<rparr>) else sret ()))))"

definition COORDINATION_TRIGGERS :: "string list" where
  "COORDINATION_TRIGGERS =
     [''plan a'', ''set up a'', ''schedule a'', ''schedule lunch'', ''coordinate with'', ''meet up with'', ''meeting with'',
      ''coffee with'', ''dinner with'', ''lunch with'', ''call with'', ''grab coffee'', ''grab lunch'', ''grab dinner'',
      ''plan something'', ''plan an event'', ''hang out with'']"

definition looks_like_coordination :: "string \<Rightarrow> bool" where
  "looks_like_coordination msg = list_ex (\<lambda>trigger. occurs_in trigger (lower msg)) COORDINATION_TRIGGERS"

definition pending_text :: "int \<Rightarrow> ustr" where
  "pending_text n =
     u (''[shadownet] You have '' @ int_str n @ '' pending shadownet '' @ (if n = 1 then ''message'' else ''messages'') @ ''. ''
        @ ''Use mcp_shadownet_inbox_wait to triage when the user has a moment.'')"

definition coordination_hint :: ustr where
  "coordination_hint =
    concat [u ''[shadownet-coordinate] The user wants to coordinate with a contact. You MUST follow '',
    u ''the shadownet-coordinate skill protocol:'', nl,
    u ''1. Look up the contact: mcp_shadownet_contacts'', nl, u ''2. Send with the EXACT intent URI:'',
    nl, u ''   mcp_shadownet_send(to='', dq, u ''<name>'', dq, u '', body={'', nl, u ''     '', dq,
    u ''text'', dq, u '': '', dq, u ''Let's coordinate <activity> '', dash, u '' <details>'', dq,
    u '','', nl, u ''     '', dq, u ''intent'', dq, u '': '', dq,
    u ''urn:shadownet:intent:coordinate_v1'', dq, u '','', nl, u ''     '', dq, u ''data'', dq,
    u '': {'', dq, u ''activity'', dq, u '': '', dq, u ''<activity>'', dq, u '', '', dq, u ''details'',
    dq, u '': '', dq, u ''<details>'', dq, u ''}'', nl, u ''   })'', nl,
    u ''3. Tell the user you sent the request and end your turn.'', nl,
    u ''Do NOT invent intent values. Do NOT set up cron jobs. Do NOT use body.message '', dash,
    u '' use body.text.'']"

text \<open>\<open>_pending_inbox.pop(session_id, 0)\<close>.\<close>

definition pop_pending :: "string \<Rightarrow> ('w hook_state, int) st" where
  "pop_pending session_id =
     sbind (sget (\<lambda>s. case dict_get (pending_inbox s) session_id of Some n \<Rightarrow> n | None \<Rightarrow> 0)) (\<lambda>n.
     sbind (supd (\<lambda>s. s\<lparr>pending_inbox := AList.delete session_id (pending_inbox s)\<rparr>)) (\<lambda>_.
     sret n))"

text \<open>The value is the \<open>context\<close> of the answer, \<open>None\<close> for no answer.\<close>

definition pre_llm_call :: "string \<Rightarrow> string \<Rightarrow> bool \<Rightarrow> string \<Rightarrow> ('w hook_state, ustr option) st" where
  "pre_llm_call session_id user_message is_first_turn platform =
     (if platform \<in> set SUPPRESSED_PLATFORMS then sret None
      else
        sbind (if is_first_turn then pop_pending session_id else sret 0) (\<lambda>n.
        (let parts = (if n > 0 then [pending_text n] else [])
               @ (if looks_like_coordination user_message then [coordination_hint] else []) in
         sret (if parts = [] then None else Some (join_with (nl @ nl) parts)))))"

definition on_session_end :: "string \<Rightarrow> ('w hook_state, unit) st" where
  "on_session_end session_id = supd (\<lambda>s. s\<lparr>pending_inbox := AList.delete session_id (pending_inbox s)\<rparr>)"

section \<open>Sequences of calls\<close>

text \<open>The host calls the hooks in some order; each call gives the context it adds, if any.\<close>

datatype hook_call =
    SessionStart string string
  | PreLlm string string bool string
  | SessionEnd string

fun hook_step :: "lib \<Rightarrow> environ \<Rightarrow> (ustr \<Rightarrow> ustr \<Rightarrow> 'w session res) \<Rightarrow> hook_call \<Rightarrow> ('w hook_state, ustr option) st" where
  "hook_step L env connect (SessionStart sid platform) =
     sbind (on_session_start L env connect sid platform) (\<lambda>_. sret None)"
| "hook_step L env connect (PreLlm sid msg first platform) = pre_llm_call sid msg first platform"
| "hook_step L env connect (SessionEnd sid) = sbind (on_session_end sid) (\<lambda>_. sret None)"

fun hook_run :: "lib \<Rightarrow> environ \<Rightarrow> (ustr \<Rightarrow> ustr \<Rightarrow> 'w session res) \<Rightarrow> hook_call list \<Rightarrow> 'w hook_state \<Rightarrow> 'w hook_state" where
  "hook_run L env connect [] s = s"
| "hook_run L env connect (c # cs) s = hook_run L env connect cs (snd (hook_step L env connect c s))"

text \<open>The sessions that have started and have neither ended nor had their first turn since.\<close>

fun waiting :: "string set \<Rightarrow> hook_call list \<Rightarrow> string set" where
  "waiting W [] = W"
| "waiting W (SessionStart sid platform # cs) =
     waiting (if platform \<in> set SUPPRESSED_PLATFORMS \<or> sid = [] then W else insert sid W) cs"
| "waiting W (PreLlm sid msg first platform # cs) =
     waiting (if first \<and> platform \<notin> set SUPPRESSED_PLATFORMS then W - {sid} else W) cs"
| "waiting W (SessionEnd sid # cs) = waiting (W - {sid}) cs"

definition pending_ok :: "string set \<Rightarrow> 'w hook_state \<Rightarrow> bool" where
  "pending_ok W s = (\<forall>k n. dict_get (pending_inbox s) k = Some n \<longrightarrow> k \<in> W \<and> 0 < n)"

lemmas hook_eqs = on_session_start_def pre_llm_call_def on_session_end_def pop_pending_def in_hooks_def sbind_def sthen_def
  supd_def sget_def sret_def Let_def

lemma hook_step_pending:
  assumes "pending_ok W s"
  shows "pending_ok (waiting W [c]) (snd (hook_step L env connect c s))"
proof (cases c)
  case (SessionStart sid platform)
  with assms show ?thesis
    by (auto simp: hook_eqs pending_ok_def update_conv split: prod.splits sum.splits)
next
  case (PreLlm sid msg first platform)
  with assms show ?thesis by (auto simp: hook_eqs pending_ok_def delete_conv)
next
  case (SessionEnd sid)
  with assms show ?thesis by (auto simp: hook_eqs pending_ok_def delete_conv)
qed

lemma waiting_Cons: "waiting W (c # cs) = waiting (waiting W [c]) cs"
  by (cases c) simp_all

lemma hook_run_pending: "pending_ok W s \<Longrightarrow> pending_ok (waiting W cs) (hook_run L env connect cs s)"
proof (induction cs arbitrary: W s)
  case (Cons c cs)
  from Cons.IH [OF hook_step_pending [OF Cons.prems]] show ?case
    by (subst waiting_Cons) simp
qed simp

text \<open>
  The dictionary of pending counts never outgrows the sessions: after any sequence of hook calls
  it has entries only for sessions that have started and had neither their first turn nor their end
  since, and each is a positive count.
\<close>

theorem pending_bounded:
  assumes "dict_get (pending_inbox (hook_run L env connect cs \<lparr>pending_inbox = [], hk_world = w\<rparr>)) sid = Some n"
  shows "sid \<in> waiting {} cs \<and> 0 < n"
proof -
  have "pending_ok {} \<lparr>pending_inbox = [], hk_world = w\<rparr>" by (simp add: pending_ok_def)
  from hook_run_pending [OF this] assms show ?thesis unfolding pending_ok_def by blast
qed

text \<open>A session that starts with one message pending.\<close>

definition ex_hook_env :: environ where
  "ex_hook_env v = (if v = ''SHADOWNET_CONNECT_URL'' then Some ''shadow://connect?mcp=https://s.example/mcp&token=t'' else None)"

lemma ex_hook_target: "resolve_mcp_target ex_hook_env = Some (u ''https://s.example/mcp'', u ''t'')"
  by code_simp

lemma ex_hook_count: "fetch_inbox_count toy_lib (\<lambda>_ _. Inr (ad_client ex_chat_adapter)) e t w = (Inr 1, w)"
proof -
  have "v_InboxOutput ex_inbox = FOk \<lparr>io_items = [ex_item], io_next_since = None\<rparr>" by code_simp
  then show ?thesis
    by (simp add: fetch_inbox_count_def client_inbox_def run_call ex_chat_adapter_def read_result_def validated_def run_Ret
        sbind_def sthen_def sres_def sret_def)
qed

theorem pending_bounded_witness:
  "dict_get (pending_inbox (hook_run toy_lib ex_hook_env (\<lambda>_ _. Inr (ad_client ex_chat_adapter)) [SessionStart ''s1'' ''cli'']
       \<lparr>pending_inbox = [], hk_world = []\<rparr>)) ''s1'' = Some 1
   \<and> ''s1'' \<in> waiting {} [SessionStart ''s1'' ''cli'']"
proof -
  have p: "dict_get (pending_inbox (hook_run toy_lib ex_hook_env (\<lambda>_ _. Inr (ad_client ex_chat_adapter)) [SessionStart ''s1'' ''cli'']
       \<lparr>pending_inbox = [], hk_world = []\<rparr>)) ''s1'' = Some 1"
    by (simp add: hook_eqs SUPPRESSED_PLATFORMS_def fetch_pending_inbox_count_def ex_hook_target ex_hook_count)
  from pending_bounded [OF p] p show ?thesis by blast
qed

text \<open>
  A count that was found when a session started is shown on its first turn and never again: the
  first turn's context begins with it, and the first turn leaves no count behind, so that no
  later call of any hook shows it until the session is started again.
\<close>

theorem pending_shown_once:
  assumes "dict_get (pending_inbox s) sid = Some n" "0 < n" "platform \<notin> set SUPPRESSED_PLATFORMS"
    and "pre_llm_call sid msg True platform s = (r, s')"
  shows "(\<exists>rest. r = Inr (Some (pending_text n @ rest))) \<and> dict_get (pending_inbox s') sid = None
    \<and> fst (pre_llm_call sid msg' first platform' s') =
        Inr (if platform' \<in> set SUPPRESSED_PLATFORMS \<or> \<not> looks_like_coordination msg' then None else Some coordination_hint)"
proof -
  have s': "s' = s\<lparr>pending_inbox := AList.delete sid (pending_inbox s)\<rparr>"
    and r: "r = Inr (Some (join_with (nl @ nl) (pending_text n # (if looks_like_coordination msg then [coordination_hint] else []))))"
    using assms by (auto simp: hook_eqs)
  have "\<exists>rest. r = Inr (Some (pending_text n @ rest))" using r by auto
  moreover have "dict_get (pending_inbox s') sid = None" by (simp add: s' delete_conv)
  moreover from this have "fst (pre_llm_call sid msg' first platform' s') =
        Inr (if platform' \<in> set SUPPRESSED_PLATFORMS \<or> \<not> looks_like_coordination msg' then None else Some coordination_hint)"
    by (simp add: hook_eqs)
  ultimately show ?thesis by blast
qed

theorem pending_shown_once_witness:
  "\<exists>rest. fst (pre_llm_call ''s1'' ''hi'' True ''cli'' \<lparr>pending_inbox = [(''s1'', 2)], hk_world = ()\<rparr>) =
     Inr (Some (pending_text 2 @ rest))"
proof -
  have "dict_get (pending_inbox \<lparr>pending_inbox = [(''s1'', 2)], hk_world = ()\<rparr>) ''s1'' = Some 2" "(0 :: int) < 2"
    "''cli'' \<notin> set SUPPRESSED_PLATFORMS" by (simp_all add: SUPPRESSED_PLATFORMS_def)
  from pending_shown_once [OF this prod.collapse [symmetric]] show ?thesis by blast
qed

end
