(* ===== verification/Py_Fs.thy ===== *)
theory Py_Fs
  imports Effects Jcs
begin

text \<open>
  The file system as \<open>pathlib\<close> and \<open>shutil\<close> show it to the conformance tools and the plug-ins: files with
  their bytes, directories, and the entries that the process may not create, change or remove. Links,
  modes and times are left out. Shown here: the operations keep the tree a tree, a file reads back as it
  was written, and which entries an operation leaves alone.
\<close>

section \<open>Paths\<close>

text \<open>
  A path is the list of its parts, as \<open>PurePosixPath.parts\<close> has them: the root, if any, and the names; empty
  names and single dots are dropped. \<open>parent\<close> of a path with no parts is the path itself.
\<close>

type_synonym path = "string list"

definition path_of :: "string \<Rightarrow> path" where
  "path_of s =
     (if prefix ''//'' s \<and> \<not> prefix ''///'' s then [''//''] else if prefix ''/'' s then [''/''] else [])
     @ filter (\<lambda>p. p \<noteq> '''' \<and> p \<noteq> ''.'') (split_on (CHR ''/'') s)"

definition path_str :: "path \<Rightarrow> string" where
  "path_str p =
     (case p of
        [] \<Rightarrow> ''.''
      | r # names \<Rightarrow> (if r = ''/'' \<or> r = ''//'' then r @ join_with ''/'' names else join_with ''/'' p))"

abbreviation path_parent :: "path \<Rightarrow> path" where
  "path_parent \<equiv> butlast"

section \<open>The file system\<close>

record fs =
  files :: "(path \<times> bytes) list"
  dirs :: "path list"
  denied :: "path list"

definition is_file :: "fs \<Rightarrow> path \<Rightarrow> bool" where
  "is_file s p = (dict_get (files s) p \<noteq> None)"

definition is_dir :: "fs \<Rightarrow> path \<Rightarrow> bool" where
  "is_dir s p = (p \<in> set (dirs s))"

definition fs_wf :: "fs \<Rightarrow> bool" where
  "fs_wf s =
     (is_dir s []
      \<and> (\<forall>p\<in>set (dirs s). is_dir s (butlast p) \<and> \<not> is_file s p)
      \<and> (\<forall>p\<in>set (map fst (files s)). p \<noteq> [] \<and> is_dir s (butlast p)))"

definition os_error :: "path \<Rightarrow> 'a res" where
  "os_error p = raise (Builtin OSError) (''cannot access '' @ repr (path_str p))"

text \<open>\<open>p.mkdir(parents=True, exist_ok=True)\<close> makes the missing directories from the top down, as far as it gets.\<close>

definition mkdir1 :: "path \<Rightarrow> (fs, unit) st" where
  "mkdir1 p s =
     (if is_dir s p then (Inr (), s)
      else if is_file s p \<or> p \<in> set (denied s) then (os_error p, s)
      else (Inr (), s\<lparr>dirs := dirs s @ [p]\<rparr>))"

fun mkdirs_below :: "path \<Rightarrow> string list \<Rightarrow> (fs, unit) st" where
  "mkdirs_below p [] = sret ()"
| "mkdirs_below p (x # xs) = sbind (mkdir1 (p @ [x])) (\<lambda>_. mkdirs_below (p @ [x]) xs)"

definition mkdir_parents :: "path \<Rightarrow> (fs, unit) st" where
  "mkdir_parents p = mkdirs_below [] p"

definition write_file :: "path \<Rightarrow> bytes \<Rightarrow> (fs, unit) st" where
  "write_file p bs s =
     (if p = [] \<or> is_dir s p \<or> \<not> is_dir s (butlast p) \<or> p \<in> set (denied s) then (os_error p, s)
      else (Inr (), s\<lparr>files := dict_set p bs (files s)\<rparr>))"

definition read_file :: "path \<Rightarrow> (fs, bytes) st" where
  "read_file p s = ((case dict_get (files s) p of Some bs \<Rightarrow> Inr bs | None \<Rightarrow> os_error p), s)"

text \<open>Writing at the end of a file that is opened for appending.\<close>

definition append_file :: "path \<Rightarrow> bytes \<Rightarrow> (fs, unit) st" where
  "append_file p bs s = write_file p (case dict_get (files s) p of Some old \<Rightarrow> old @ bs | None \<Rightarrow> bs) s"

text \<open>The entries of a directory, in no particular order in Python; here in the order of the lists.\<close>

definition iterdir :: "fs \<Rightarrow> path \<Rightarrow> path list" where
  "iterdir s p = filter (\<lambda>q. q \<noteq> [] \<and> butlast q = p) (map fst (files s) @ dirs s)"

text \<open>
  \<open>shutil.copy2\<close> copies into the target where it is a directory, and refuses to copy a file onto itself;
  \<open>shutil.Error\<close> is an \<open>OSError\<close>.
\<close>

definition copy_onto :: "path \<Rightarrow> path \<Rightarrow> (fs, unit) st" where
  "copy_onto a b = (if a = b then sres (os_error a) else sbind (read_file a) (write_file b))"

definition copy2 :: "path \<Rightarrow> path \<Rightarrow> (fs, unit) st" where
  "copy2 a b = sbind (sget (\<lambda>s. is_dir s b)) (\<lambda>d. copy_onto a (if d then b @ [last a] else b))"

text \<open>
  \<open>shutil.rmtree(p, ignore_errors=True)\<close> removes what it may: every file below that is not denied, and every
  directory that is not denied and holds nothing that stays.
\<close>

definition rmtree :: "path \<Rightarrow> (fs, unit) st" where
  "rmtree p s =
     (let stays = filter (\<lambda>q. prefix p q \<and> q \<in> set (denied s)) (map fst (files s) @ dirs s) in
      (Inr (), s\<lparr>files := filter (\<lambda>(q, _). prefix p q \<longrightarrow> q \<in> set stays) (files s),
                 dirs := filter (\<lambda>q. prefix p q \<longrightarrow> list_ex (prefix q) stays) (dirs s)\<rparr>))"

section \<open>Facts\<close>

lemma is_file_iff: "is_file s p \<longleftrightarrow> p \<in> set (map fst (files s))"
  by (simp add: is_file_def map_of_eq_None_iff)

lemma fs_wfD:
  assumes "fs_wf s"
  shows "is_dir s []" "is_dir s p \<Longrightarrow> is_dir s (butlast p)" "is_dir s p \<Longrightarrow> \<not> is_file s p"
    "is_file s p \<Longrightarrow> p \<noteq> [] \<and> is_dir s (butlast p)"
  using assms by (auto simp: fs_wf_def is_file_iff is_dir_def)

lemma fs_wfI:
  assumes "is_dir s []" "\<And>p. is_dir s p \<Longrightarrow> is_dir s (butlast p) \<and> \<not> is_file s p"
    "\<And>p. is_file s p \<Longrightarrow> p \<noteq> [] \<and> is_dir s (butlast p)"
  shows "fs_wf s"
  using assms by (auto simp: fs_wf_def is_dir_def is_file_iff)

lemma is_file_upd [simp]:
  "is_file (s\<lparr>files := dict_set p bs (files s)\<rparr>) q \<longleftrightarrow> q = p \<or> is_file s q" "is_file (s\<lparr>dirs := ds\<rparr>) q \<longleftrightarrow> is_file s q"
  by (simp_all add: is_file_def)

lemma is_dir_upd [simp]: "is_dir (s\<lparr>files := fl\<rparr>) q \<longleftrightarrow> is_dir s q" "is_dir (s\<lparr>dirs := dirs s @ [p]\<rparr>) q \<longleftrightarrow> q = p \<or> is_dir s q"
  by (auto simp: is_dir_def)

lemma mkdir1_wf:
  assumes "fs_wf s" "is_dir s (butlast p)"
  shows "fs_wf (snd (mkdir1 p s))"
proof -
  note w = fs_wfD [OF assms(1)]
  have "\<not> is_file s p \<Longrightarrow> fs_wf (s\<lparr>dirs := dirs s @ [p]\<rparr>)"
    using assms(2) by (intro fs_wfI) (auto simp: w)
  then show ?thesis using assms(1) by (auto simp: mkdir1_def)
qed

lemma write_file_wf: "keeps fs_wf (write_file p bs)"
  unfolding keeps_def
proof (intro allI impI)
  fix s assume wf: "fs_wf s"
  note w = fs_wfD [OF wf]
  have "p \<noteq> [] \<Longrightarrow> \<not> is_dir s p \<Longrightarrow> is_dir s (butlast p) \<Longrightarrow> fs_wf (s\<lparr>files := dict_set p bs (files s)\<rparr>)"
    by (intro fs_wfI) (auto simp: w)
  with wf show "fs_wf (snd (write_file p bs s))" by (auto simp: write_file_def)
qed

lemma mkdir1_frame: "mkdir1 p s = (r, s') \<Longrightarrow> files s' = files s \<and> denied s' = denied s \<and> (is_dir s q \<longrightarrow> is_dir s' q)"
  by (auto simp: mkdir1_def split: if_splits)

lemma mkdirs_below_frame:
  assumes "mkdirs_below p xs s = (r, s')" "fs_wf s" "is_dir s p"
  shows "fs_wf s' \<and> files s' = files s \<and> denied s' = denied s \<and> (is_dir s q \<longrightarrow> is_dir s' q)
    \<and> (is_dir s' q \<longrightarrow> is_dir s q \<or> prefix q (p @ xs)) \<and> (r = Inr () \<longrightarrow> is_dir s' (p @ xs))"
  using assms
proof (induction xs arbitrary: p s)
  case Nil
  then show ?case by (simp add: sret_def)
next
  case (Cons x xs)
  obtain r1 s1 where m: "mkdir1 (p @ [x]) s = (r1, s1)" by force
  have f: "files s1 = files s" "denied s1 = denied s" "\<And>q. is_dir s q \<Longrightarrow> is_dir s1 q"
    "\<And>q. is_dir s1 q \<Longrightarrow> is_dir s q \<or> q = p @ [x]" "r1 = Inr () \<Longrightarrow> is_dir s1 (p @ [x])"
    using mkdir1_frame [OF m] m by (auto simp: mkdir1_def os_error_def raise_def split: if_splits)
  have wf: "fs_wf s1" using mkdir1_wf [OF Cons.prems(2), of "p @ [x]"] Cons.prems(3) m by simp
  show ?case
  proof (cases r1)
    case (Inl e)
    with Cons.prems(1) m have "r = Inl e" "s' = s1" by (simp_all add: sbind_def sthen_def sres_def)
    then show ?thesis using f(1-3) f(4) [of q] Inl wf by auto
  next
    case (Inr i)
    with Cons.prems(1) m have "mkdirs_below (p @ [x]) xs s1 = (r, s')" by (simp add: sbind_def sthen_def)
    from Cons.IH [OF this wf] f(1-3,5) f(4) [of q] Inr show ?thesis by auto
  qed
qed

lemmas mkdir_parents_frame = mkdirs_below_frame [where p = "[]", folded mkdir_parents_def, simplified]

lemma mkdirs_below_ok:
  assumes "\<And>q. prefix q (p @ xs) \<Longrightarrow> \<not> is_file s q \<and> q \<notin> set (denied s)"
  shows "\<exists>s'. mkdirs_below p xs s = (Inr (), s')"
  using assms
proof (induction xs arbitrary: p s)
  case (Cons x xs)
  have "\<not> is_file s (p @ [x]) \<and> p @ [x] \<notin> set (denied s)" by (rule Cons.prems) simp
  then obtain s1 where s1: "mkdir1 (p @ [x]) s = (Inr (), s1)" by (cases "is_dir s (p @ [x])") (auto simp: mkdir1_def)
  then have "\<exists>s'. mkdirs_below (p @ [x]) xs s1 = (Inr (), s')"
    using mkdir1_frame [OF s1] Cons.prems by (intro Cons.IH) (auto simp: is_file_def)
  with s1 show ?case by (auto simp: sbind_def sthen_def)
qed (simp add: sret_def)

lemmas mkdir_parents_ok = mkdirs_below_ok [where p = "[]", folded mkdir_parents_def, simplified]

lemma write_then_read: "write_file p bs s = (Inr (), s') \<Longrightarrow> read_file p s' = (Inr bs, s')"
  by (auto simp: write_file_def read_file_def os_error_def raise_def split: if_splits)

lemma write_frame:
  "write_file p bs s = (r, s') \<Longrightarrow> dirs s' = dirs s \<and> denied s' = denied s
     \<and> dict_get (files s') q = (if q = p \<and> r = Inr () then Some bs else dict_get (files s) q)"
  by (auto simp: write_file_def os_error_def raise_def split: if_splits)

end
