(* ===== verification/Hermes_Skills.thy ===== *)
theory Hermes_Skills
  imports Hermes_Setup Py_Fs
begin

text \<open>
  The skills and the commands of the Hermes plug-in, from \<open>integrations/plugins/hermes-agent/shadownet_hermes_plugin/\<close>: finding, registering and
  copying skills (\<open>_skills.py\<close>), the reports and the dispatch of \<open>hermes shadownet\<close> (\<open>_cli.py\<close>), the slash commands
  (\<open>_commands.py\<close>) and the registration of everything with the host (\<open>__init__.py\<close>). The host is a parameter, a record of the
  functions it offers. Shown here: copying skills changes nothing outside the directory of the
  plug-in's own category and leaves no directory of a skill that is no longer there.
\<close>

section \<open>Skills\<close>

definition SHADOWNET_CATEGORY :: string where
  "SHADOWNET_CATEGORY = ''shadownet''"

definition CATEGORY_FIRST_LINE :: string where
  "CATEGORY_FIRST_LINE = ''Identity-anchored agent-to-agent messaging via the Shadownet protocol.''"

definition SHADOWNET_CATEGORY_DESCRIPTION :: string where
  "SHADOWNET_CATEGORY_DESCRIPTION =
     CATEGORY_FIRST_LINE @ ''\<newline>Open an MCP session to the configured sidecar and use these skills to\<newline>''
     @ ''verify identity, reach out to contacts, triage the inbox, and run the\<newline>two-sided coordination flow.\<newline>''"

definition SKILL_NAMES :: "string list" where
  "SKILL_NAMES = [''shadownet-setup'', ''shadownet-reach-out'', ''shadownet-inbox'', ''shadownet-coordinate'', ''shadownet-pay'']"

text \<open>The places that come from the installation: the user's home, the package's own skills and the shared data of the interpreter.\<close>

record places =
  home :: path
  package_skills :: path
  share_skills :: path

definition hermes_data_dir :: "environ \<Rightarrow> places \<Rightarrow> fs \<Rightarrow> path" where
  "hermes_data_dir env pl s =
     (case env ''HERMES_DATA_DIR'' of
        Some (c # cs) \<Rightarrow> path_of (c # cs)
      | _ \<Rightarrow> (if is_dir s [''/'', ''opt'', ''data''] then [''/'', ''opt'', ''data''] else home pl @ [''.hermes'']))"

definition category_root :: "environ \<Rightarrow> places \<Rightarrow> fs \<Rightarrow> path" where
  "category_root env pl s = hermes_data_dir env pl s @ [''skills'', SHADOWNET_CATEGORY]"

definition skill_root_candidates :: "environ \<Rightarrow> places \<Rightarrow> fs \<Rightarrow> path list" where
  "skill_root_candidates env pl s = [category_root env pl s, package_skills pl, share_skills pl]"

definition skills_below :: "path \<Rightarrow> (string \<times> path) list" where
  "skills_below base = map (\<lambda>n. (n, base @ [n, ''SKILL.md''])) SKILL_NAMES"

definition skill_paths :: "environ \<Rightarrow> places \<Rightarrow> fs \<Rightarrow> (string \<times> path) list" where
  "skill_paths env pl s =
     (let candidates = skill_root_candidates env pl s in
      case List.find (\<lambda>base. list_all (\<lambda>(n, p). is_file s p) (skills_below base)) candidates of
        Some base \<Rightarrow> skills_below base
      | None \<Rightarrow> skills_below (hd candidates))"

fun register_each :: "(string \<Rightarrow> path \<Rightarrow> ('w, unit) st) \<Rightarrow> (string \<times> path) list \<Rightarrow> ('w, unit) st" where
  "register_each reg [] = sret ()"
| "register_each reg ((n, p) # ps) = sbind (reg n p) (\<lambda>_. register_each reg ps)"

definition register_skills :: "(string \<Rightarrow> path \<Rightarrow> ('w, unit) st) \<Rightarrow> environ \<Rightarrow> places \<Rightarrow> fs \<Rightarrow> ('w, nat) st" where
  "register_skills reg env pl s =
     (let resolved = skill_paths env pl s in
      if list_ex (\<lambda>(n, p). \<not> is_file s p) resolved then sret 0
      else sbind (register_each reg resolved) (\<lambda>_. sret (length resolved)))"

section \<open>Copying\<close>

definition description_text :: string where
  "description_text =
     ''---\<newline>description: '' @ CATEGORY_FIRST_LINE @ ''\<newline>---\<newline>\<newline># Shadownet\<newline>\<newline>'' @ SHADOWNET_CATEGORY_DESCRIPTION"

text \<open>\<open>try: ... except OSError\<close>: what the handler returns; other exceptions go on.\<close>

definition catch_os :: "(fs, 'a) st \<Rightarrow> 'a \<Rightarrow> (fs, 'a) st" where
  "catch_os m dflt = sthen m (\<lambda>r. (case r of Inl e \<Rightarrow> (if is_a e (Builtin OSError) then sret dflt else sres (Inl e)) | Inr x \<Rightarrow> sret x))"

fun copy_files :: "path \<Rightarrow> path list \<Rightarrow> (fs, unit) st" where
  "copy_files dst [] = sret ()"
| "copy_files dst (f # fl) =
     sbind (sget (\<lambda>s. is_file s f)) (\<lambda>there.
     sbind (if there then copy2 f (dst @ [last f]) else sret ()) (\<lambda>_. copy_files dst fl))"

definition copy_skill :: "path \<Rightarrow> path \<Rightarrow> (fs, unit) st" where
  "copy_skill src_dir dst =
     catch_os
       (sbind (mkdir_parents dst) (\<lambda>_.
        sbind (sget (\<lambda>s. iterdir s src_dir)) (\<lambda>entries. copy_files dst entries))) ()"

fun copy_skills :: "path \<Rightarrow> (string \<times> path) list \<Rightarrow> (fs, unit) st" where
  "copy_skills base [] = sret ()"
| "copy_skills base ((n, src) # ps) =
     sbind (sget (\<lambda>s. is_file s src)) (\<lambda>there.
     sbind (if there then copy_skill (path_parent src) (base @ [n]) else sret ()) (\<lambda>_. copy_skills base ps))"

fun drop_orphans :: "string list \<Rightarrow> path list \<Rightarrow> (fs, unit) st" where
  "drop_orphans kept [] = sret ()"
| "drop_orphans kept (c # cs) =
     sbind (sget (\<lambda>s. is_dir s c)) (\<lambda>d.
     sbind (if d \<and> last c \<notin> set kept then rmtree c else sret ()) (\<lambda>_. drop_orphans kept cs))"

definition materialize_below :: "path \<Rightarrow> (string \<times> path) list \<Rightarrow> (fs, unit) st" where
  "materialize_below base paths =
     sbind (catch_os
              (sbind (mkdir_parents base) (\<lambda>_.
               sbind (write_file (base @ [''DESCRIPTION.md'']) (encode_utf8 description_text)) (\<lambda>_. sret True))) False) (\<lambda>ok.
       if \<not> ok then sret ()
       else
         sbind (copy_skills base paths) (\<lambda>_.
         sbind (sget (\<lambda>s. iterdir s base)) (\<lambda>children. drop_orphans (map fst paths) children)))"

definition materialize_skills_into_data_dir :: "environ \<Rightarrow> places \<Rightarrow> (string \<times> path) list \<Rightarrow> (fs, unit) st" where
  "materialize_skills_into_data_dir env pl paths =
     sbind (sget (category_root env pl)) (\<lambda>base. materialize_below base paths)"

definition count_materialized_skills :: "environ \<Rightarrow> places \<Rightarrow> fs \<Rightarrow> nat" where
  "count_materialized_skills env pl s =
     (let base = category_root env pl s in
      if \<not> is_dir s base then 0 else length (filter (\<lambda>n. is_file s (base @ [n, ''SKILL.md''])) SKILL_NAMES))"

section \<open>What copying touches\<close>

text \<open>Outside \<open>base\<close>, and apart from directories that lead to it, the second tree is the first.\<close>

definition only_below :: "path \<Rightarrow> fs \<Rightarrow> fs \<Rightarrow> bool" where
  "only_below base s s' =
     (denied s' = denied s
      \<and> (\<forall>p. \<not> prefix base p \<longrightarrow> dict_get (files s') p = dict_get (files s) p)
      \<and> (\<forall>p. \<not> prefix base p \<longrightarrow> is_dir s' p \<longrightarrow> is_dir s p \<or> prefix p base)
      \<and> (\<forall>p. \<not> prefix base p \<longrightarrow> is_dir s p \<longrightarrow> is_dir s' p))"

lemma only_below_refl [simp]: "only_below base s s"
  by (simp add: only_below_def)

lemma only_below_trans: "only_below base s s1 \<Longrightarrow> only_below base s1 s2 \<Longrightarrow> only_below base s s2"
  unfolding only_below_def by metis

text \<open>Code that keeps the tree a tree and changes it below \<open>base\<close> only.\<close>

definition stays_below :: "path \<Rightarrow> (fs, 'a) st \<Rightarrow> bool" where
  "stays_below base m = (\<forall>s r s'. m s = (r, s') \<longrightarrow> fs_wf s \<longrightarrow> fs_wf s' \<and> only_below base s s')"

named_theorems below_intros \<open>code that stays below a directory\<close>

lemma below_sbind [below_intros]: "stays_below base m \<Longrightarrow> (\<And>x. stays_below base (f x)) \<Longrightarrow> stays_below base (sbind m f)"
  unfolding stays_below_def
proof (intro allI impI)
  fix s r s'
  assume m: "\<forall>s r s'. m s = (r, s') \<longrightarrow> fs_wf s \<longrightarrow> fs_wf s' \<and> only_below base s s'"
    and f: "\<And>x. \<forall>s r s'. f x s = (r, s') \<longrightarrow> fs_wf s \<longrightarrow> fs_wf s' \<and> only_below base s s'"
    and b: "sbind m f s = (r, s')" "fs_wf s"
  obtain r1 s1 where m1: "m s = (r1, s1)" by force
  with m b(2) have s1: "fs_wf s1" "only_below base s s1" by blast+
  show "fs_wf s' \<and> only_below base s s'"
  proof (cases r1)
    case (Inl e)
    with b(1) m1 s1 show ?thesis by (simp add: sbind_def sthen_def sres_def)
  next
    case (Inr x)
    with b(1) m1 have "f x s1 = (r, s')" by (simp add: sbind_def sthen_def)
    with f s1 only_below_trans show ?thesis by blast
  qed
qed

lemma below_pure [below_intros]: "stays_below base (sret x)" "stays_below base (sget g)" "stays_below base (sres q)"
  by (simp_all add: stays_below_def sret_def sget_def sres_def)

lemma below_catch [below_intros]: "stays_below base m \<Longrightarrow> stays_below base (catch_os m d)"
  unfolding stays_below_def catch_os_def
  by (auto simp: sthen_def sret_def sres_def split: prod.splits sum.splits if_splits)

lemma below_if [below_intros]: "stays_below base m \<Longrightarrow> stays_below base m' \<Longrightarrow> stays_below base (if b then m else m')"
  by simp

lemma below_mkdir [below_intros]: "prefix base p \<Longrightarrow> stays_below base (mkdir_parents p)"
  unfolding stays_below_def
proof (intro allI impI)
  fix s r s' assume p: "prefix base p" and m: "mkdir_parents p s = (r, s')" and wf: "fs_wf s"
  note fr = mkdir_parents_frame [OF m wf fs_wfD(1) [OF wf]]
  have "only_below base s s'"
    unfolding only_below_def
  proof (intro conjI allI impI)
    show "denied s' = denied s" using fr by blast
  next
    fix q assume "\<not> prefix base q" "is_dir s' q"
    with fr [of q] p show "is_dir s q \<or> prefix q base" by (metis prefix_same_cases)
  qed (use fr in auto)
  with fr show "fs_wf s' \<and> only_below base s s'" by blast
qed

lemma below_write [below_intros]: "prefix base p \<Longrightarrow> stays_below base (write_file p bs)"
  unfolding stays_below_def
proof (intro allI impI conjI)
  fix s r s' assume p: "prefix base p" and w: "write_file p bs s = (r, s')" and wf: "fs_wf s"
  show "fs_wf s'" using keepsD [OF write_file_wf w wf] .
  show "only_below base s s'" using write_frame [OF w] p by (auto simp: only_below_def is_dir_def)
qed

lemma below_read [below_intros]: "stays_below base (read_file p)"
  by (simp add: stays_below_def read_file_def)

lemma below_copy [below_intros]: "prefix base b \<Longrightarrow> stays_below base (copy2 a b)"
  unfolding copy2_def copy_onto_def by (intro below_intros) auto

lemma map_of_filter_key: "P q \<Longrightarrow> map_of (filter (\<lambda>(k, _). P k) xs) q = map_of xs q"
  by (induction xs) auto

lemma rmtree_sees:
  assumes "rmtree p s = (r, s')"
  shows "dict_get (files s') q = (if prefix p q \<and> q \<notin> set (denied s) then None else dict_get (files s) q)" (is ?f)
    "is_dir s' q \<longleftrightarrow> is_dir s q \<and> (prefix p q \<longrightarrow> (\<exists>x. prefix p x \<and> x \<in> set (denied s) \<and> (is_file s x \<or> is_dir s x) \<and> prefix q x))" (is ?d)
proof -
  define stays where "stays = filter (\<lambda>q. prefix p q \<and> q \<in> set (denied s)) (map fst (files s) @ dirs s)"
  have st: "x \<in> set stays \<longleftrightarrow> prefix p x \<and> x \<in> set (denied s) \<and> (is_file s x \<or> is_dir s x)" for x
    unfolding stays_def by (auto simp: is_file_iff is_dir_def)
  have s': "s' = s\<lparr>files := filter (\<lambda>(k, _). prefix p k \<longrightarrow> k \<in> set stays) (files s), dirs := filter (\<lambda>k. prefix p k \<longrightarrow> list_ex (prefix k) stays) (dirs s)\<rparr>"
    using assms by (simp add: rmtree_def stays_def Let_def)
  show ?d using st by (auto simp: s' is_dir_def list_ex_iff)
  have "map_of (filter (\<lambda>(k, _). prefix p k \<longrightarrow> k \<in> set stays) (files s)) q = None" if "prefix p q" "q \<notin> set stays"
    using that by (induction "files s") (auto simp: map_of_eq_None_iff)
  moreover have "dict_get (files s) q = None" if "prefix p q" "q \<notin> set stays" "q \<in> set (denied s)"
    using that st [of q] by (simp add: is_file_def)
  ultimately show ?f using st [of q] map_of_filter_key [of "\<lambda>k. prefix p k \<longrightarrow> k \<in> set stays" q "files s"]
    by (cases "prefix p q"; cases "q \<in> set stays") (auto simp: s')
qed

lemma below_rmtree [below_intros]:
  assumes "prefix base p" "p \<noteq> []"
  shows "stays_below base (rmtree p)"
  unfolding stays_below_def
proof (intro allI impI conjI)
  fix s r s' assume m: "rmtree p s = (r, s')" and wf: "fs_wf s"
  note w = fs_wfD [OF wf] and sees = rmtree_sees [OF m]
  have fs: "is_file s' q \<longleftrightarrow> is_file s q \<and> (prefix p q \<longrightarrow> q \<in> set (denied s))" for q
    by (simp add: is_file_def sees(1))
  have up: "is_dir s' (butlast q)" if "is_dir s (butlast q)"
      "prefix p q \<Longrightarrow> \<exists>x. prefix p x \<and> x \<in> set (denied s) \<and> (is_file s x \<or> is_dir s x) \<and> prefix q x" for q
    using that sees(2) [of "butlast q"] by (metis prefixeq_butlast prefix_order.trans)
  show "fs_wf s'"
  proof (rule fs_wfI)
    show "is_dir s' []" using w(1) assms(2) sees(2) by simp
    show "is_dir s' (butlast q) \<and> \<not> is_file s' q" if "is_dir s' q" for q
    proof
      show "is_dir s' (butlast q)" by (rule up) (use that sees(2) [of q] w(2) in auto)
      show "\<not> is_file s' q" using that sees(2) [of q] fs w(3) by blast
    qed
    show "q \<noteq> [] \<and> is_dir s' (butlast q)" if f: "is_file s' q" for q
    proof
      show "q \<noteq> []" using f fs w(4) by blast
      show "is_dir s' (butlast q)" by (rule up) (use f fs [of q] w(4) in auto)
    qed
  qed
  have "\<not> prefix p q" if "\<not> prefix base q" for q
    using that assms(1) prefix_order.trans by blast
  then show "only_below base s s'"
    using sees m by (simp add: only_below_def) (auto simp: rmtree_def Let_def)
qed

lemma below_look: "(\<And>s. stays_below base (f (g s))) \<Longrightarrow> stays_below base (sbind (sget g) f)"
  by (simp add: stays_below_def sbind_def sthen_def sget_def)

lemma below_copy_files: "prefix base dst \<Longrightarrow> stays_below base (copy_files dst fl)"
  by (induction fl) (auto intro!: below_intros)

lemma below_copy_skills: "stays_below base (copy_skills base ps)"
  by (induction ps) (auto simp: copy_skill_def intro!: below_intros below_copy_files)

lemma below_drop: "list_all (\<lambda>c. prefix base c \<and> c \<noteq> []) cs \<Longrightarrow> stays_below base (drop_orphans kept cs)"
  by (induction cs) (auto intro!: below_intros)

lemma iterdir_below: "c \<in> set (iterdir s base) \<Longrightarrow> prefix base c \<and> c \<noteq> []"
  by (auto simp: iterdir_def prefixeq_butlast)

lemma below_materialize: "stays_below base (materialize_below base paths)"
  unfolding materialize_below_def
  by (intro below_intros below_copy_skills below_look below_drop) (auto simp: list_all_iff dest: iterdir_below)

section \<open>What copying may raise\<close>

definition os_only :: "(fs, 'a) st \<Rightarrow> bool" where
  "os_only m = (\<forall>s e s'. m s = (Inl e, s') \<longrightarrow> is_a e (Builtin OSError))"

lemma os_only_sbind [intro]: "os_only m \<Longrightarrow> (\<And>x. os_only (f x)) \<Longrightarrow> os_only (sbind m f)"
  unfolding os_only_def sbind_def sthen_def by (fastforce simp: sres_def split: prod.splits sum.splits)

lemma os_only_base [simp, intro]: "os_only (sret x)" "os_only (sget g)" "os_only (mkdir1 p)" "os_only (write_file p bs)" "os_only (read_file p)"
  by (auto simp: os_only_def sret_def sget_def mkdir1_def write_file_def read_file_def os_error_def raise_def
      split: if_splits option.splits)

lemma os_only_mkdirs [intro]: "os_only (mkdirs_below p xs)"
  by (induction xs arbitrary: p) auto

lemma os_only_raise [simp, intro]: "os_only (sres (os_error p))"
  by (simp add: os_only_def sres_def os_error_def raise_def)

lemma os_only_copy2 [simp, intro]: "os_only (copy2 a b)"
  unfolding copy2_def copy_onto_def by (intro os_only_sbind) auto

lemma os_only_copy_files [intro]: "os_only (copy_files dst fl)"
  by (induction fl) (auto intro!: os_only_sbind)

lemma catch_os_returns: "os_only m \<Longrightarrow> \<exists>x s'. catch_os m d s = (Inr x, s')"
  by (auto simp: os_only_def catch_os_def sthen_def sret_def sres_def split: prod.splits sum.splits)

lemma copy_skill_returns: "\<exists>s'. copy_skill src_dir dst s = (Inr (), s')"
proof -
  have "os_only (sbind (mkdir_parents dst) (\<lambda>_. sbind (sget (\<lambda>s. iterdir s src_dir)) (\<lambda>entries. copy_files dst entries)))"
    unfolding mkdir_parents_def by (intro os_only_sbind os_only_mkdirs os_only_copy_files os_only_base)
  from catch_os_returns [OF this, of "()"] show ?thesis by (simp add: copy_skill_def)
qed

lemma copy_skills_return: "\<exists>s'. copy_skills base ps s = (Inr (), s')"
proof (induction ps arbitrary: s)
  case (Cons a ps)
  obtain n src where a: "a = (n, src)" by force
  have "\<exists>s1. copy_skill (path_parent src) (base @ [n]) s = (Inr (), s1)"
    by (rule copy_skill_returns)
  with Cons show ?case by (auto simp: a sbind_def sthen_def sget_def sret_def)
qed (simp add: sret_def)

lemma drop_orphans_result:
  assumes "\<And>d. d \<in> set (denied s) \<Longrightarrow> \<not> prefix base d" "list_all (\<lambda>c. prefix base c) cs"
  shows "\<exists>s'. drop_orphans kept cs s = (Inr (), s') \<and> (\<forall>q. is_dir s' q \<longrightarrow> is_dir s q)
    \<and> (\<forall>c\<in>set cs. is_dir s' c \<longrightarrow> last c \<in> set kept)"
  using assms
proof (induction cs arbitrary: s)
  case (Cons c cs)
  show ?case
  proof (cases "is_dir s c \<and> last c \<notin> set kept")
    case True
    obtain s1 where m: "rmtree c s = (Inr (), s1)" by (simp add: rmtree_def Let_def)
    have d: "denied s1 = denied s" using m by (auto simp: rmtree_def Let_def)
    have "\<not> prefix c x" if "x \<in> set (denied s)" for x
      using Cons.prems that by (auto dest: prefix_order.trans [of base c x])
    then have gone: "\<not> is_dir s1 c" "\<And>q. is_dir s1 q \<Longrightarrow> is_dir s q"
      using rmtree_sees(2) [OF m] by blast+
    obtain s' where s': "drop_orphans kept cs s1 = (Inr (), s')" "\<And>q. is_dir s' q \<Longrightarrow> is_dir s1 q"
        "\<forall>c\<in>set cs. is_dir s' c \<longrightarrow> last c \<in> set kept"
      using Cons.IH [of s1] d Cons.prems by auto
    have "drop_orphans kept (c # cs) s = (Inr (), s')"
      using True m s'(1) by (simp add: sbind_def sthen_def sget_def)
    with s' gone show ?thesis by auto
  next
    case False
    with Cons.IH [of s] Cons.prems show ?thesis by (auto simp: sbind_def sthen_def sget_def sret_def)
  qed
qed (simp add: sret_def)

text \<open>The category can be written: nothing on the way to it is a file, and nothing on the way or below is denied.\<close>

definition category_free :: "path \<Rightarrow> fs \<Rightarrow> bool" where
  "category_free base s =
     ((\<forall>d\<in>set (denied s). \<not> prefix base d \<and> \<not> prefix d base) \<and> (\<forall>q. prefix q base \<longrightarrow> \<not> is_file s q)
      \<and> \<not> is_dir s (base @ [''DESCRIPTION.md'']))"

lemma describe_category:
  assumes "fs_wf s" "category_free base s"
  shows "\<exists>s1. catch_os (sbind (mkdir_parents base) (\<lambda>_. sbind (write_file (base @ [''DESCRIPTION.md'']) bs) (\<lambda>_. sret True))) False s
    = (Inr True, s1) \<and> fs_wf s1 \<and> denied s1 = denied s \<and> is_dir s1 base \<and> (\<forall>q. is_dir s1 q \<longrightarrow> is_dir s q \<or> prefix q base)
    \<and> (\<forall>q. is_file s1 q \<longleftrightarrow> q = base @ [''DESCRIPTION.md''] \<or> is_file s q)"
proof -
  obtain s0 where s0: "mkdir_parents base s = (Inr (), s0)"
    using mkdir_parents_ok [of base s] assms(2) by (auto simp: category_free_def)
  note fr = mkdir_parents_frame [OF s0 assms(1) fs_wfD(1) [OF assms(1)]]
  let ?p = "base @ [''DESCRIPTION.md'']"
  have "\<not> is_dir s0 ?p" "?p \<notin> set (denied s)" "is_dir s0 base" "denied s0 = denied s"
    using fr [of ?p] assms(2) by (auto simp: category_free_def)
  then have w: "write_file ?p bs s0 = (Inr (), s0\<lparr>files := dict_set ?p bs (files s0)\<rparr>)" by (simp add: write_file_def)
  have "fs_wf (s0\<lparr>files := dict_set ?p bs (files s0)\<rparr>)" using keepsD [OF write_file_wf w] fr by blast
  moreover have "is_file s0 q \<longleftrightarrow> is_file s q" for q using fr by (simp add: is_file_def)
  ultimately show ?thesis
    using s0 w fr by (auto simp: catch_os_def sbind_def sthen_def sret_def is_file_def)
qed

lemma materialize_drops_orphans:
  assumes "fs_wf s" "category_free base s"
  shows "\<exists>s'. materialize_below base paths s = (Inr (), s')
    \<and> (\<forall>n. is_dir s' (base @ [n]) \<longrightarrow> n \<in> set (map fst paths))"
proof -
  obtain s1 where s1: "catch_os (sbind (mkdir_parents base) (\<lambda>_. sbind (write_file (base @ [''DESCRIPTION.md'']) (encode_utf8 description_text))
      (\<lambda>_. sret True))) False s = (Inr True, s1)" "denied s1 = denied s" "fs_wf s1"
    using describe_category [OF assms] by blast
  obtain s2 where s2: "copy_skills base paths s1 = (Inr (), s2)" using copy_skills_return by blast
  have d2: "denied s2 = denied s"
    using below_copy_skills s2 s1(2,3) by (auto simp: stays_below_def only_below_def)
  obtain s' where s': "drop_orphans (map fst paths) (iterdir s2 base) s2 = (Inr (), s')"
      "\<And>q. is_dir s' q \<Longrightarrow> is_dir s2 q" "\<forall>c\<in>set (iterdir s2 base). is_dir s' c \<longrightarrow> last c \<in> set (map fst paths)"
    using drop_orphans_result [of s2 base "iterdir s2 base" "map fst paths"] d2 assms(2) iterdir_below
    by (auto simp: category_free_def list_all_iff)
  have "n \<in> set (map fst paths)" if "is_dir s' (base @ [n])" for n
    using that s'(3) [rule_format, of "base @ [n]"] s'(2) [OF that] by (simp add: iterdir_def is_dir_def)
  moreover have "materialize_below base paths s = (Inr (), s')"
    using s1(1) s2 s'(1) by (simp add: materialize_below_def sbind_def [of _ "\<lambda>ok. if \<not> ok then f ok else g ok" for f g] sthen_def sbind_def sget_def)
  ultimately show ?thesis by blast
qed

lemma drop_orphans_returns: "\<exists>s'. drop_orphans kept cs s = (Inr (), s')"
  by (induction cs arbitrary: s) (auto simp: sbind_def sthen_def sget_def sret_def rmtree_def Let_def)

lemma materialize_returns: "\<exists>s'. materialize_skills_into_data_dir env pl paths s = (Inr (), s')"
proof -
  have "os_only (sbind (mkdir_parents base) (\<lambda>_. sbind (write_file (base @ [''DESCRIPTION.md'']) bs) (\<lambda>_. sret True)))" for base bs
    unfolding mkdir_parents_def by (intro os_only_sbind os_only_mkdirs os_only_base)
  note first = catch_os_returns [OF this, where d = False]
  have "\<exists>s'. materialize_below base paths s = (Inr (), s')" for base
  proof -
    obtain ok s1 where s1: "catch_os (sbind (mkdir_parents base) (\<lambda>_. sbind (write_file (base @ [''DESCRIPTION.md'']) (encode_utf8 description_text))
        (\<lambda>_. sret True))) False s = (Inr ok, s1)" using first by blast
    obtain s2 where s2: "copy_skills base paths s1 = (Inr (), s2)" using copy_skills_return by blast
    show ?thesis
      using s1 s2 drop_orphans_returns
      by (cases ok) (simp_all add: materialize_below_def sbind_def [of _ "\<lambda>ok. if \<not> ok then f ok else g ok" for f g] sthen_def sbind_def sget_def sret_def)
  qed
  then show ?thesis by (simp add: materialize_skills_into_data_dir_def sbind_def sthen_def sget_def)
qed

text \<open>
  C23: Copying the skills raises nothing and changes no file, and removes and adds no directory, outside the directory of the
  category (other than making the directories that lead to it), whatever fails on the way; and where that directory can be
  written, it is left with no directory in it but those of the skills that were asked for.
\<close>

theorem materialize_contained:
  assumes "fs_wf s" "materialize_skills_into_data_dir env pl paths s = (r, s')" "base = category_root env pl s"
  shows "r = Inr () \<and> fs_wf s'
    \<and> (\<forall>p. \<not> prefix base p \<longrightarrow>
         dict_get (files s') p = dict_get (files s) p \<and> (is_dir s p \<longrightarrow> is_dir s' p) \<and> (is_dir s' p \<longrightarrow> is_dir s p \<or> prefix p base))
    \<and> (category_free base s \<longrightarrow> (\<forall>n. is_dir s' (base @ [n]) \<longrightarrow> n \<in> set (map fst paths)))"
proof -
  have m: "materialize_below base paths s = (r, s')"
    using assms(2,3) by (simp add: materialize_skills_into_data_dir_def sbind_def sthen_def sget_def)
  have "fs_wf s' \<and> only_below base s s'"
    using below_materialize m assms(1) unfolding stays_below_def by blast
  moreover have "r = Inr ()" using materialize_returns [of env pl paths s] assms(2) by auto
  moreover have "n \<in> set (map fst paths)" if "category_free base s" "is_dir s' (base @ [n])" for n
    using materialize_drops_orphans [OF assms(1) that(1), of paths] m that(2) by auto
  ultimately show ?thesis unfolding only_below_def by blast
qed

definition ex_skill_tree :: fs where
  "ex_skill_tree = \<lparr>files = [([''d'', ''keep''], [1]), ([''p'', ''shadownet-pay'', ''SKILL.md''], [2])],
     dirs = [[], [''d''], [''d'', ''skills''], [''d'', ''skills'', ''shadownet''], [''d'', ''skills'', ''shadownet'', ''old''], [''p''], [''p'', ''shadownet-pay'']],
     denied = []\<rparr>"

definition ex_data_env :: environ where
  "ex_data_env = [''HERMES_DATA_DIR'' \<mapsto> ''d'']"

definition ex_places :: places where
  "ex_places = \<lparr>home = [''h''], package_skills = [''p''], share_skills = [''q'']\<rparr>"

lemma ex_category: "category_root ex_data_env ex_places ex_skill_tree = [''d'', ''skills'', ''shadownet'']"
  by code_simp

lemma ex_skill_tree_wf: "fs_wf ex_skill_tree"
  by code_simp

lemma ex_skill_tree_free: "category_free [''d'', ''skills'', ''shadownet''] ex_skill_tree"
  by (auto simp: category_free_def ex_skill_tree_def is_file_def is_dir_def)

theorem materialize_contained_witness:
  "\<exists>s'. materialize_skills_into_data_dir ex_data_env ex_places [(''shadownet-pay'', [''p'', ''shadownet-pay'', ''SKILL.md''])] ex_skill_tree = (Inr (), s')
    \<and> dict_get (files s') [''d'', ''keep''] = Some [1] \<and> \<not> is_dir s' [''d'', ''skills'', ''shadownet'', ''old'']"
proof -
  let ?paths = "[(''shadownet-pay'', [''p'', ''shadownet-pay'', ''SKILL.md''])]"
  obtain r s' where m: "materialize_skills_into_data_dir ex_data_env ex_places ?paths ex_skill_tree = (r, s')" by force
  note facts = materialize_contained [OF ex_skill_tree_wf m ex_category [symmetric]]
  have "dict_get (files s') [''d'', ''keep''] = dict_get (files ex_skill_tree) [''d'', ''keep'']" using facts by simp
  moreover have "r = Inr ()" "\<not> is_dir s' ([''d'', ''skills'', ''shadownet''] @ [''old''])"
    using facts ex_skill_tree_free by auto
  ultimately show ?thesis using m by (simp add: ex_skill_tree_def)
qed

text \<open>
  Where every skill is already in the data directory, that copy is the one that is chosen as the source, and copying a
  skill onto itself changes no file: a newer version in the package is not copied.
\<close>

lemma materialized_wins:
  assumes "list_all (\<lambda>(n, p). is_file s p) (skills_below (category_root env pl s))"
  shows "skill_paths env pl s = skills_below (category_root env pl s)"
  using assms by (simp add: skill_paths_def Let_def skill_root_candidates_def)

lemma copy_files_onto_itself:
  assumes "fs_wf s" "list_all (\<lambda>f. f \<noteq> [] \<and> butlast f = d) fl" "copy_files d fl s = (r, s')"
  shows "s' = s"
  using assms(2,3)
proof (induction fl)
  case (Cons f fl)
  have f: "d @ [last f] = f" using Cons.prems(1) append_butlast_last_id [of f] by auto
  show ?case
  proof (cases "is_file s f")
    case True
    then have "\<not> is_dir s f" using fs_wfD(3) [OF assms(1)] by blast
    with True Cons.prems(2) f show ?thesis
      by (simp add: sbind_def sthen_def sget_def copy2_def copy_onto_def sres_def os_error_def raise_def)
  next
    case False
    with Cons show ?thesis by (simp add: sbind_def sthen_def sget_def sret_def)
  qed
qed (simp add: sret_def)

lemma skill_never_refreshed:
  assumes "fs_wf s" "copy_skill d d s = (r, s')"
  shows "files s' = files s"
proof -
  obtain r1 s1 where m: "mkdir_parents d s = (r1, s1)" by force
  note fr = mkdir_parents_frame [OF m assms(1) fs_wfD(1) [OF assms(1)]]
  have it: "list_all (\<lambda>f. f \<noteq> [] \<and> butlast f = d) (iterdir s1 d)" by (auto simp: iterdir_def list_all_iff)
  obtain r2 s2 where c: "copy_files d (iterdir s1 d) s1 = (r2, s2)" by force
  have "s2 = s1" using copy_files_onto_itself [OF _ it c] fr by blast
  then show ?thesis
    using assms(2) m c fr
    by (auto simp: copy_skill_def catch_os_def sbind_def sthen_def sget_def sres_def sret_def split: sum.splits if_splits)
qed

section \<open>Skills arrive\<close>

lemma is_file_write: "write_file p bs s = (Inr (), s') \<Longrightarrow> is_file s' q \<longleftrightarrow> q = p \<or> is_file s q"
  by (auto simp: is_file_def write_frame)

lemma copy2_ok:
  assumes "is_file s a" "a \<noteq> b" "b \<noteq> []" "\<not> is_dir s b" "is_dir s (butlast b)" "denied s = []"
  shows "\<exists>s'. copy2 a b s = (Inr (), s') \<and> dirs s' = dirs s \<and> denied s' = [] \<and> (\<forall>q. is_file s' q \<longleftrightarrow> q = b \<or> is_file s q)"
proof -
  obtain bs where "dict_get (files s) a = Some bs" using assms(1) by (auto simp: is_file_def)
  then have c: "copy2 a b s = write_file b bs s"
    using assms(2,4) by (simp add: copy2_def copy_onto_def sbind_def sthen_def sget_def read_file_def)
  have "write_file b bs s = (Inr (), s\<lparr>files := dict_set b bs (files s)\<rparr>)" using assms(3-6) by (simp add: write_file_def)
  with c assms(6) show ?thesis by simp
qed

lemma copy_files_ok:
  assumes "denied s = []" "is_dir s d" "\<And>x. \<not> is_dir s (d @ [x])" "\<forall>f\<in>set fl. butlast f \<noteq> d"
  shows "\<exists>s'. copy_files d fl s = (Inr (), s') \<and> dirs s' = dirs s \<and> denied s' = []
    \<and> (\<forall>q. is_file s q \<longrightarrow> is_file s' q) \<and> (\<forall>q. is_file s' q \<longrightarrow> is_file s q \<or> butlast q = d)
    \<and> (\<forall>f\<in>set fl. is_file s f \<longrightarrow> is_file s' (d @ [last f]))"
  using assms
proof (induction fl arbitrary: s)
  case (Cons f fl)
  have neq: "f \<noteq> d @ [last f]"
  proof
    assume "f = d @ [last f]"
    then have "butlast f = d" by (metis butlast_snoc)
    with Cons.prems(4) show False by simp
  qed
  have "\<exists>s1. (if is_file s f then copy2 f (d @ [last f]) else sret ()) s = (Inr (), s1) \<and> dirs s1 = dirs s \<and> denied s1 = []
      \<and> (\<forall>q. is_file s1 q \<longleftrightarrow> (is_file s f \<and> q = d @ [last f]) \<or> is_file s q)"
  proof (cases "is_file s f")
    case True
    with copy2_ok [OF True neq] Cons.prems(1-3) show ?thesis by simp
  next
    case False
    with Cons.prems(1) show ?thesis by (simp add: sret_def)
  qed
  then obtain s1 where s1: "(if is_file s f then copy2 f (d @ [last f]) else sret ()) s = (Inr (), s1)" "dirs s1 = dirs s" "denied s1 = []"
      "\<And>q. is_file s1 q \<longleftrightarrow> (is_file s f \<and> q = d @ [last f]) \<or> is_file s q"
    by blast
  obtain s' where s': "copy_files d fl s1 = (Inr (), s')" "dirs s' = dirs s1" "denied s' = []" "\<forall>q. is_file s1 q \<longrightarrow> is_file s' q"
      "\<forall>q. is_file s' q \<longrightarrow> is_file s1 q \<or> butlast q = d" "\<forall>f\<in>set fl. is_file s1 f \<longrightarrow> is_file s' (d @ [last f])"
    using Cons.IH [of s1] Cons.prems s1(2,3) by (auto simp: is_dir_def)
  have "copy_files d (f # fl) s = (Inr (), s')" using s1(1) s'(1) by (simp add: sbind_def sthen_def sget_def)
  moreover have "is_file s' q" if "is_file s q" for q
    using that s1(4) s'(4) by blast
  moreover have "is_file s q \<or> butlast q = d" if "is_file s' q" for q
    using that s1(4) s'(5) by (metis butlast_snoc)
  moreover have "is_file s' (d @ [last g])" if "g \<in> set (f # fl)" "is_file s g" for g
  proof (cases "g = f")
    case True
    then show ?thesis using that(2) s1(4) s'(4) by blast
  next
    case False
    then show ?thesis using that s1(4) s'(6) by simp
  qed
  ultimately show ?case using s'(2,3) s1(2) by simp
qed (simp add: sret_def)

text \<open>Nothing is denied, and where the skill goes there is neither a file nor a directory with directories in it.\<close>

definition room_for :: "path \<Rightarrow> fs \<Rightarrow> bool" where
  "room_for dst s = (fs_wf s \<and> denied s = [] \<and> (\<forall>q. prefix q dst \<longrightarrow> \<not> is_file s q) \<and> (\<forall>q. strict_prefix dst q \<longrightarrow> \<not> is_dir s q))"

lemma copy_skill_ok:
  assumes "room_for dst s" "is_file s (src @ [x])" "src \<noteq> dst"
  shows "\<exists>s'. copy_skill src dst s = (Inr (), s') \<and> fs_wf s' \<and> denied s' = [] \<and> is_file s' (dst @ [x])
    \<and> (\<forall>q. is_file s q \<longrightarrow> is_file s' q) \<and> (\<forall>q. is_file s' q \<longrightarrow> is_file s q \<or> prefix dst q \<and> q \<noteq> dst)
    \<and> (\<forall>q. is_dir s' q \<longrightarrow> is_dir s q \<or> prefix q dst)"
proof -
  have wf: "fs_wf s" using assms(1) by (simp add: room_for_def)
  obtain s1 where m: "mkdir_parents dst s = (Inr (), s1)"
    using mkdir_parents_ok [of dst s] assms(1) by (auto simp: room_for_def)
  have fr: "fs_wf s1" "files s1 = files s" "denied s1 = []" "is_dir s1 dst" "\<And>q. is_dir s1 q \<Longrightarrow> is_dir s q \<or> prefix q dst"
    using mkdir_parents_frame [OF m wf fs_wfD(1) [OF wf]] assms(1) by (auto simp: room_for_def)
  then have same: "is_file s1 q \<longleftrightarrow> is_file s q" for q by (simp add: is_file_def)
  have free: "\<not> is_dir s1 (dst @ [y])" for y
    using fr(5) [of "dst @ [y]"] assms(1) by (auto simp: room_for_def strict_prefix_def)
  have neq: "\<forall>f\<in>set (iterdir s1 src). butlast f \<noteq> dst" using assms(3) by (auto simp: iterdir_def)
  obtain s2 where c: "copy_files dst (iterdir s1 src) s1 = (Inr (), s2)" "dirs s2 = dirs s1" "denied s2 = []"
      "\<forall>q. is_file s1 q \<longrightarrow> is_file s2 q" "\<forall>q. is_file s2 q \<longrightarrow> is_file s1 q \<or> butlast q = dst"
      "\<forall>f\<in>set (iterdir s1 src). is_file s1 f \<longrightarrow> is_file s2 (dst @ [last f])"
    using copy_files_ok [OF fr(3,4) free neq] by blast
  have run: "copy_skill src dst s = (Inr (), s2)"
    using m c(1) by (simp add: copy_skill_def catch_os_def sbind_def sthen_def sget_def sret_def)
  have "stays_below dst (copy_skill src dst)"
    unfolding copy_skill_def by (intro below_intros below_copy_files) auto
  with run wf have wf2: "fs_wf s2" unfolding stays_below_def by blast
  have "src @ [x] \<in> set (iterdir s1 src)" using assms(2) same by (auto simp: iterdir_def is_file_iff)
  then have x: "is_file s2 (dst @ [x])" using c(6) assms(2) same by fastforce
  have "prefix dst q \<and> q \<noteq> dst" if "is_file s2 q" "\<not> is_file s q" for q
    using c(5) that same fs_wfD(4) [OF wf2 that(1)] by (auto simp: prefixeq_butlast) (metis append_butlast_last_id not_Cons_self2 self_append_conv)
  then show ?thesis using run wf2 x c(2,3,4) fr(5) same by (auto simp: is_dir_def)
qed

lemma strict_prefix_child: "strict_prefix (base @ [n]) q \<Longrightarrow> prefix q (base @ [m]) \<Longrightarrow> False"
  by (metis append_butlast_last_id butlast_snoc length_append_singleton not_less_eq prefix_length_le prefix_length_less less_irrefl_nat
      order.strict_trans2)

lemma copy_skills_ok:
  assumes "\<forall>n\<in>set ns. room_for (base @ [n]) s \<and> is_file s (src @ [n, x])" "src \<noteq> base" "is_dir s base \<and> fs_wf s" "distinct ns"
  shows "\<exists>s'. copy_skills base (map (\<lambda>n. (n, src @ [n, x])) ns) s = (Inr (), s')
    \<and> (\<forall>q. is_file s q \<longrightarrow> is_file s' q) \<and> (\<forall>n\<in>set ns. is_file s' (base @ [n, x]))"
  using assms
proof (induction ns arbitrary: s)
  case (Cons n ns)
  have n: "room_for (base @ [n]) s" "is_file s ((src @ [n]) @ [x])" "src @ [n] \<noteq> base @ [n]" using Cons.prems by auto
  obtain s1 where c: "copy_skill (src @ [n]) (base @ [n]) s = (Inr (), s1)" "fs_wf s1" "denied s1 = []" "is_file s1 ((base @ [n]) @ [x])"
      "\<forall>q. is_file s q \<longrightarrow> is_file s1 q" "\<forall>q. is_file s1 q \<longrightarrow> is_file s q \<or> prefix (base @ [n]) q \<and> q \<noteq> base @ [n]"
      "\<forall>q. is_dir s1 q \<longrightarrow> is_dir s q \<or> prefix q (base @ [n])"
    using copy_skill_ok [OF n] by blast
  have "room_for (base @ [m]) s1" if m: "m \<in> set ns" for m
  proof -
    have r: "room_for (base @ [m]) s" and "m \<noteq> n" using Cons.prems m by auto
    have "\<not> is_file s1 q" if q: "prefix q (base @ [m])" for q
    proof -
      have "\<not> prefix (base @ [n]) q" using q \<open>m \<noteq> n\<close> prefix_order.trans [of "base @ [n]" q "base @ [m]"] by fastforce
      with c(6) q r show ?thesis unfolding room_for_def by blast
    qed
    moreover have "\<not> is_dir s1 q" if "strict_prefix (base @ [m]) q" for q
      using c(7) that r strict_prefix_child [OF that] by (auto simp: room_for_def)
    ultimately show ?thesis using c(2,3) by (simp add: room_for_def)
  qed
  moreover have "is_dir s1 base" using c(2,4) fs_wfD(2,4) [OF c(2)] by (metis butlast_snoc)
  ultimately obtain s' where s': "copy_skills base (map (\<lambda>n. (n, src @ [n, x])) ns) s1 = (Inr (), s')"
      "\<forall>q. is_file s1 q \<longrightarrow> is_file s' q" "\<forall>n\<in>set ns. is_file s' (base @ [n, x])"
    using Cons.IH [of s1] Cons.prems c(2,5) by auto
  have "copy_skills base (map (\<lambda>n. (n, src @ [n, x])) (n # ns)) s = (Inr (), s')"
    using c(1) s'(1) n(2) by (simp add: sbind_def sthen_def sget_def butlast_append)
  then show ?case using s'(2,3) c(4,5) by auto
qed (simp add: sret_def)

lemma drop_orphans_keeps:
  assumes "\<forall>c\<in>set cs. butlast c = base \<and> c \<noteq> []" "is_file s (base @ n # q)" "n \<in> set kept" "drop_orphans kept cs s = (r, s')"
  shows "is_file s' (base @ n # q)"
  using assms(1,2,4)
proof (induction cs arbitrary: s)
  case (Cons c cs)
  show ?case
  proof (cases "is_dir s c \<and> last c \<notin> set kept")
    case True
    obtain s1 where m: "rmtree c s = (Inr (), s1)" by (simp add: rmtree_def Let_def)
    have "c = base @ [last c]" using Cons.prems(1) append_butlast_last_id [of c] by auto
    then have "\<not> prefix c (base @ n # q)" using True assms(3) by (metis Cons_prefix_Cons same_prefix_prefix)
    then have "is_file s1 (base @ n # q)" using rmtree_sees(1) [OF m] Cons.prems(2) by (simp add: is_file_def)
    then show ?thesis using Cons True m by (simp add: sbind_def sthen_def sget_def)
  next
    case False
    then show ?thesis using Cons by (simp add: sbind_def sthen_def sget_def sret_def split: if_splits)
  qed
qed (simp add: sret_def)

text \<open>A data directory where the category is not there yet, or is empty, and could be written.\<close>

definition category_fresh :: "path \<Rightarrow> fs \<Rightarrow> bool" where
  "category_fresh base s =
     (fs_wf s \<and> denied s = [] \<and> (\<forall>q. prefix q base \<longrightarrow> \<not> is_file s q) \<and> (\<forall>q. strict_prefix base q \<longrightarrow> \<not> is_dir s q \<and> \<not> is_file s q))"

lemma skill_names: "distinct SKILL_NAMES" "''DESCRIPTION.md'' \<notin> set SKILL_NAMES"
  by (simp_all add: SKILL_NAMES_def)

lemma materialize_arrives:
  assumes "category_fresh base s" "src \<noteq> base" "\<forall>n\<in>set SKILL_NAMES. is_file s (src @ [n, ''SKILL.md''])"
  shows "\<exists>s'. materialize_below base (skills_below src) s = (Inr (), s') \<and> fs_wf s'
    \<and> (\<forall>n\<in>set SKILL_NAMES. is_file s' (base @ [n, ''SKILL.md'']))"
proof -
  note fresh = assms(1) [unfolded category_fresh_def]
  have cf: "category_free base s" using fresh by (auto simp: category_free_def strict_prefix_def)
  obtain s1 where s1: "catch_os (sbind (mkdir_parents base) (\<lambda>_. sbind (write_file (base @ [''DESCRIPTION.md'']) (encode_utf8 description_text))
      (\<lambda>_. sret True))) False s = (Inr True, s1)" "fs_wf s1" "denied s1 = denied s" "is_dir s1 base"
      "\<forall>q. is_dir s1 q \<longrightarrow> is_dir s q \<or> prefix q base" "\<forall>q. is_file s1 q \<longleftrightarrow> q = base @ [''DESCRIPTION.md''] \<or> is_file s q"
    using describe_category [OF conjunct1 [OF fresh] cf] by blast
  have "room_for (base @ [n]) s1" if "n \<in> set SKILL_NAMES" for n
  proof -
    have "\<not> is_file s1 q" if "prefix q (base @ [n])" for q
      using that s1(6) fresh \<open>n \<in> set SKILL_NAMES\<close> skill_names(2) by (auto simp: strict_prefix_def)
    moreover have "\<not> is_dir s1 q" if "strict_prefix (base @ [n]) q" for q
      using that s1(5) fresh strict_prefix_child [OF that, of n]
      by (metis append_prefixD prefix_order.dual_order.strict_trans2 prefix_snoc strict_prefix_def)
    ultimately show ?thesis using s1(2,3) fresh by (simp add: room_for_def)
  qed
  with copy_skills_ok [of SKILL_NAMES base s1 src "''SKILL.md''"] obtain s2 where s2: "copy_skills base (skills_below src) s1 = (Inr (), s2)"
      "\<forall>n\<in>set SKILL_NAMES. is_file s2 (base @ [n, ''SKILL.md''])"
    using assms(2,3) s1(2,4,6) skill_names(1) unfolding skills_below_def by auto
  obtain r s' where s': "drop_orphans (map fst (skills_below src)) (iterdir s2 base) s2 = (r, s')" by force
  have m: "materialize_below base (skills_below src) s = (r, s')"
    using s1(1) s2(1) s' by (simp add: materialize_below_def sbind_def [of _ "\<lambda>ok. if \<not> ok then f ok else g ok" for f g] sthen_def sbind_def sget_def)
  have "is_file s' (base @ [n, ''SKILL.md''])" if "n \<in> set SKILL_NAMES" for n
    using that s2(2) by (intro drop_orphans_keeps [OF _ _ _ s']) (auto simp: iterdir_def skills_below_def comp_def)
  moreover have "r = Inr ()" using materialize_drops_orphans [OF conjunct1 [OF fresh] cf, of "skills_below src"] m by auto
  moreover have "fs_wf s'" using below_materialize m fresh unfolding stays_below_def by blast
  ultimately show ?thesis using m by blast
qed

end
