(* ===== verification/Avm.thy ===== *)
theory Avm
  imports X402_Gate
begin

text \<open>
  Settlement on Algorand, from \<open>shadownet-x402/src/shadownet_x402/avm.py\<close>. The package only adapts a wallet and an
  in-process facilitator to the x402 SDK, so algosdk and the x402 SDK are parameters: the SDK is given the signer and
  the relay as records of callbacks, the way the source registers them, and acts on a state of its own, the chain. Shown here: the
  wallet signs exactly the transactions it is asked to sign, and a settlement that cannot start leaves the chain alone.
\<close>

section \<open>The libraries\<close>

text \<open>
  \<open>'k\<close> are private keys, \<open>'t\<close> are decoded transactions, \<open>'s\<close> is what \<open>algod\<close> acts on. \<open>unpack\<close> and \<open>pack\<close> are \<open>msgpack_decode\<close> and
  \<open>msgpack_encode\<close>, which speak base64 text.
\<close>

record ('k, 't, 's) algosdk =
  to_private_key :: "string \<Rightarrow> 'k res"
  address_from_private_key :: "'k \<Rightarrow> string"
  unpack :: "string \<Rightarrow> 't res"
  pack :: "'t \<Rightarrow> string res"
  sign_txn :: "'k \<Rightarrow> 't \<Rightarrow> 't res"
  simulate_raw :: "string \<Rightarrow> 't list \<Rightarrow> ('s, json) st"
  send_raw :: "string \<Rightarrow> 't list \<Rightarrow> ('s, json) st"
  wait_for_confirmation :: "string \<Rightarrow> string \<Rightarrow> int \<Rightarrow> ('s, unit) st"

record avm_client =
  cl_address :: string
  cl_sign :: "bytes list \<Rightarrow> nat list \<Rightarrow> bytes option list res"

record 's avm_relay =
  rl_addresses :: "string list"
  rl_sign_transaction :: "bytes \<Rightarrow> string \<Rightarrow> string \<Rightarrow> bytes res"
  rl_sign_group :: "bytes list \<Rightarrow> string \<Rightarrow> nat list \<Rightarrow> string \<Rightarrow> bytes list res"
  rl_simulate :: "bytes list \<Rightarrow> string \<Rightarrow> ('s, unit) st"
  rl_send :: "bytes list \<Rightarrow> string \<Rightarrow> ('s, string) st"
  rl_confirm :: "string \<Rightarrow> string \<Rightarrow> int \<Rightarrow> ('s, unit) st"

record exact_requirements =
  x_network :: string
  x_asset :: string
  x_amount :: string
  x_pay_to :: string

text \<open>What \<open>facilitator.settle\<close> returns; the source reads each attribute with \<open>getattr\<close> and a default.\<close>

record x402_outcome =
  xo_success :: bool
  xo_transaction :: "string option"
  xo_payer :: "string option"
  xo_error_reason :: "string option"
  xo_error_message :: "string option"

text \<open>
  The x402 SDK with the exact scheme registered: \<open>create_payment_payload\<close> for a client signer and its \<open>algod\<close> address, and \<open>settle\<close> for a relay.
  \<open>None\<close> stands for an SDK that cannot be imported.
\<close>

record ('p, 's) x402_sdk =
  create_payment_payload :: "avm_client \<Rightarrow> string \<Rightarrow> exact_requirements \<Rightarrow> ('s, 'p) st"
  facilitator_settle :: "'s avm_relay \<Rightarrow> 'p \<Rightarrow> exact_requirements \<Rightarrow> ('s, x402_outcome) st"

section \<open>Base64\<close>

text \<open>\<open>base64.b64encode\<close> and \<open>base64.b64decode\<close>, which discards characters outside the standard alphabet.\<close>

definition b64encode :: "bytes \<Rightarrow> string" where
  "b64encode bs =
     map (\<lambda>c. if c = CHR ''-'' then CHR ''+'' else if c = CHR ''_'' then CHR ''/'' else c) (urlsafe_b64encode bs)"

definition b64decode :: "string \<Rightarrow> bytes res" where
  "b64decode s = urlsafe_b64decode (filter (\<lambda>c. c \<noteq> CHR ''-'' \<and> c \<noteq> CHR ''_'') s)"

section \<open>The wallet\<close>

text \<open>
  The Hermes plug-in has the same wallet and relay with a \<open>SettlementError\<close> of its own; \<open>E\<close> is the class of the module at hand.
\<close>

definition settlement_error :: "string \<Rightarrow> 'a res" where
  "settlement_error m = raise (X402 SettlementError) m"

definition wallet_key :: "excls \<Rightarrow> ('k, 't, 's) algosdk \<Rightarrow> string \<Rightarrow> 'k res" where
  "wallet_key E A seed_words =
     rewrap (to_private_key A (strip seed_words)) (Builtin PyException) E
       (\<lambda>m. ''invalid wallet mnemonic: '' @ m)"

definition derive_address :: "('k, 't, 's) algosdk \<Rightarrow> string \<Rightarrow> string res" where
  "derive_address A seed_words = bind (wallet_key (X402 SettlementError) A seed_words) (\<lambda>k. Inr (address_from_private_key A k))"

definition sign_one :: "('k, 't, 's) algosdk \<Rightarrow> 'k \<Rightarrow> bytes \<Rightarrow> bytes res" where
  "sign_one A secret raw_txn =
     bind (unpack A (b64encode raw_txn)) (\<lambda>txn.
     bind (sign_txn A secret txn) (\<lambda>signed.
     bind (pack A signed) b64decode))"

fun sign_from :: "('k, 't, 's) algosdk \<Rightarrow> 'k \<Rightarrow> nat list \<Rightarrow> nat \<Rightarrow> bytes list \<Rightarrow> bytes option list res" where
  "sign_from A secret idxs i [] = Inr []"
| "sign_from A secret idxs i (t # ts) =
     bind (if i \<in> set idxs then bind (sign_one A secret t) (\<lambda>b. Inr (Some b)) else Inr None) (\<lambda>x.
     bind (sign_from A secret idxs (Suc i) ts) (\<lambda>xs. Inr (x # xs)))"

definition sign_transactions :: "('k, 't, 's) algosdk \<Rightarrow> 'k \<Rightarrow> bytes list \<Rightarrow> nat list \<Rightarrow> bytes option list res" where
  "sign_transactions A secret txns idxs = sign_from A secret idxs 0 txns"

definition client_signer :: "excls \<Rightarrow> ('k, 't, 's) algosdk \<Rightarrow> string \<Rightarrow> avm_client res" where
  "client_signer E A seed_words =
     bind (wallet_key E A seed_words) (\<lambda>k.
     Inr \<lparr>cl_address = address_from_private_key A k, cl_sign = sign_transactions A k\<rparr>)"

section \<open>The relay\<close>

definition no_fee_payer :: "excls \<Rightarrow> 'a res" where
  "no_fee_payer E = raise E ''facilitator manages no fee-payer accounts''"

definition decode_group :: "('k, 't, 's) algosdk \<Rightarrow> bytes list \<Rightarrow> 't list res" where
  "decode_group A grp = map_res (\<lambda>b. unpack A (b64encode b)) grp"

text \<open>\<open>groups[0].get("failure-message")\<close> of the answer to a simulation.\<close>

definition simulation_failure :: "json \<Rightarrow> json option res" where
  "simulation_failure result =
     (case result of
        JObj d \<Rightarrow>
          (case dict_get d ''txn-groups'' of
             None \<Rightarrow> Inr None
           | Some g \<Rightarrow>
               (if \<not> truthy g then Inr None
                else
                  (case g of
                     JList (JObj first # _) \<Rightarrow>
                       Inr (case dict_get first ''failure-message'' of
                              Some v \<Rightarrow> (if truthy v then Some v else None) | None \<Rightarrow> None)
                   | JList _ \<Rightarrow> raise (Builtin AttributeError) ''object has no attribute get''
                   | JObj _ \<Rightarrow> raise (Builtin KeyError) ''0''
                   | JStr _ \<Rightarrow> raise (Builtin AttributeError) ''object has no attribute get''
                   | _ \<Rightarrow> raise (Builtin TypeError) ''object is not subscriptable'')))
      | _ \<Rightarrow> Inr None)"

definition simulate_group :: "excls \<Rightarrow> ('k, 't, 's) algosdk \<Rightarrow> string \<Rightarrow> bytes list \<Rightarrow> string \<Rightarrow> ('s, unit) st" where
  "simulate_group E A url grp network =
     sbind (sres (decode_group A grp)) (\<lambda>txns.
     sbind (simulate_raw A url txns) (\<lambda>result.
     sbind (sres (simulation_failure result)) (\<lambda>failure.
       (case failure of
          None \<Rightarrow> sret ()
        | Some f \<Rightarrow> sres (raise E (''simulation failed: '' @ str_json f))))))"

definition send_group :: "('k, 't, 's) algosdk \<Rightarrow> string \<Rightarrow> bytes list \<Rightarrow> string \<Rightarrow> ('s, string) st" where
  "send_group A url grp network =
     sbind (sres (decode_group A grp)) (\<lambda>txns. sbind (send_raw A url txns) (\<lambda>txid. sret (str_json txid)))"

definition relay_signer :: "excls \<Rightarrow> ('k, 't, 's) algosdk \<Rightarrow> string \<Rightarrow> 's avm_relay" where
  "relay_signer E A node =
     \<lparr>rl_addresses = [], rl_sign_transaction = (\<lambda>_ _ _. no_fee_payer E), rl_sign_group = (\<lambda>_ _ _ _. no_fee_payer E),
      rl_simulate = simulate_group E A node, rl_send = send_group A node,
      rl_confirm = (\<lambda>txid network rounds. wait_for_confirmation A node txid rounds)\<rparr>"

section \<open>Settlement\<close>

definition or_none :: "string option \<Rightarrow> string option" where
  "or_none v = (case v of Some (c # cs) \<Rightarrow> Some (c # cs) | _ \<Rightarrow> None)"

definition settle_usdc ::
  "('k, 't, 's) algosdk \<Rightarrow> ('p, 's) x402_sdk option \<Rightarrow> string \<Rightarrow> string \<Rightarrow> int \<Rightarrow> string \<Rightarrow> int \<Rightarrow> string \<Rightarrow> ('s, SettleOutcome) st"
where
  "settle_usdc A sdk seed_words payee amount network asset node =
     (if amount \<le> 0 then sres (settlement_error (''amount must be positive: '' @ int_str amount))
      else
        (case sdk of
           None \<Rightarrow> sres (settlement_error (''the '' @ repr ''algorand'' @ '' extra (x402-avm + py-algorand-sdk) is required for settlement''))
         | Some X \<Rightarrow>
             sbind (sres (client_signer (X402 SettlementError) A seed_words)) (\<lambda>signer.
             (let req = \<lparr>x_network = network, x_asset = int_str asset, x_amount = int_str amount, x_pay_to = payee\<rparr> in
              sbind (srewrap (create_payment_payload X signer node req) (Builtin PyException) (X402 SettlementError)
                       (\<lambda>m. ''failed to build payment: '' @ m)) (\<lambda>p.
              sbind (facilitator_settle X (relay_signer (X402 SettlementError) A node) p req) (\<lambda>outcome.
              sret \<lparr>so_success = xo_success outcome, so_transaction = or_none (xo_transaction outcome),
                    so_payer = JStr (case or_none (xo_payer outcome) of Some a \<Rightarrow> a | None \<Rightarrow> cl_address signer),
                    so_network = network, so_error_reason = xo_error_reason outcome\<rparr>))))))"

section \<open>Properties\<close>

lemma sign_from_spec:
  assumes "sign_from A secret idxs i ts = Inr out"
  shows "length out = length ts \<and> (\<forall>j<length ts. if i + j \<in> set idxs then (\<exists>b. out ! j = Some b \<and> sign_one A secret (ts ! j) = Inr b)
    else out ! j = None)"
  using assms
proof (induction ts arbitrary: i out)
  case (Cons t ts)
  from Cons.prems obtain x xs where x: "(if i \<in> set idxs then bind (sign_one A secret t) (\<lambda>b. Inr (Some b)) else Inr None) = Inr x"
      and xs: "sign_from A secret idxs (Suc i) ts = Inr xs" "out = x # xs"
    by (auto simp: bind_Inr_iff)
  show ?case
  proof (intro conjI allI impI)
    fix j assume "j < length (t # ts)"
    then show "if i + j \<in> set idxs then (\<exists>b. out ! j = Some b \<and> sign_one A secret ((t # ts) ! j) = Inr b) else out ! j = None"
      using Cons.IH [OF xs(1)] x xs(2) by (cases j) (auto simp: bind_Inr_iff split: if_splits)
  qed (use Cons.IH [OF xs(1)] xs(2) in simp)
qed simp

text \<open>
  The wallet signs what it is asked to sign and nothing else: of a group of transactions, exactly those at the given positions come back
  signed, each under the wallet's key, and the others come back as \<open>None\<close>.
\<close>

theorem wallet_signs_requested:
  assumes "client_signer (X402 SettlementError) A words = Inr signer" "cl_sign signer grp idxs = Inr out"
  shows "\<exists>secret. to_private_key A (strip words) = Inr secret \<and> cl_address signer = address_from_private_key A secret
    \<and> length out = length grp
    \<and> (\<forall>j<length grp. if j \<in> set idxs then (\<exists>b. out ! j = Some b \<and> sign_one A secret (grp ! j) = Inr b) else out ! j = None)"
proof -
  from assms(1) obtain secret where s: "to_private_key A (strip words) = Inr secret"
    "signer = \<lparr>cl_address = address_from_private_key A secret, cl_sign = sign_transactions A secret\<rparr>"
    by (auto simp: client_signer_def wallet_key_def bind_Inr_iff res_simps)
  then show ?thesis
    using sign_from_spec [of A secret idxs 0 grp out] assms(2) by (auto simp: sign_transactions_def)
qed

text \<open>
  A settlement that cannot start touches nothing: without a positive amount, without the x402 SDK or with a wallet phrase that algosdk refuses,
  \<open>settle_usdc\<close> raises \<open>SettlementError\<close> and leaves the chain as it was; and whenever it raises anything else, the exception came out of
  the facilitator.
\<close>

theorem settle_usdc_errors:
  assumes "settle_usdc A sdk words payee amount network asset url s = (Inl e, s')"
  shows "(amount \<le> 0 \<or> sdk = None \<or> (\<exists>x. to_private_key A (strip words) = Inl x)) \<and> cls e = X402 SettlementError \<and> s' = s
    \<or> (\<exists>X signer p s1 req. sdk = Some X \<and> client_signer (X402 SettlementError) A words = Inr signer \<and> x_amount req = int_str amount \<and> x_pay_to req = payee
         \<and> (cls e = X402 SettlementError \<or> create_payment_payload X signer url req s = (Inr p, s1)
              \<and> facilitator_settle X (relay_signer (X402 SettlementError) A url) p req s1 = (Inl e, s')))"
proof (cases "amount \<le> 0 \<or> sdk = None \<or> (\<exists>x. to_private_key A (strip words) = Inl x)")
  case True
  then have "cls e = X402 SettlementError \<and> s' = s"
    using assms
    by (auto simp: settle_usdc_def settlement_error_def client_signer_def wallet_key_def rewrap_def try_except_def raise_def Let_def
        sbind_def sthen_def sres_def split: if_splits option.splits)
  with True show ?thesis by blast
next
  case False
  then obtain X secret where X: "sdk = Some X" "\<not> amount \<le> 0" "to_private_key A (strip words) = Inr secret"
    by (cases "to_private_key A (strip words)") auto
  then obtain signer where sg: "client_signer (X402 SettlementError) A words = Inr signer"
    by (simp add: client_signer_def wallet_key_def rewrap_def try_except_def)
  let ?req = "\<lparr>x_network = network, x_asset = int_str asset, x_amount = int_str amount, x_pay_to = payee\<rparr>"
  obtain r1 s1 where c: "create_payment_payload X signer url ?req s = (r1, s1)" by force
  have "cls e = X402 SettlementError \<or> (\<exists>p. create_payment_payload X signer url ?req s = (Inr p, s1)
      \<and> facilitator_settle X (relay_signer (X402 SettlementError) A url) p ?req s1 = (Inl e, s'))"
    using assms X sg c
    by (cases r1) (auto simp: settle_usdc_def Let_def res_simps rewrap_def try_except_def raise_def sbind_def sthen_def sres_def srewrap_def sret_def
        split: prod.splits sum.splits)
  then show ?thesis using X(1) sg by (metis exact_requirements.select_convs(3,4))
qed

definition ex_algo :: "(nat, bytes, nat) algosdk" where
  "ex_algo = \<lparr>to_private_key = (\<lambda>w. if w = ''w1 w2'' then Inr 7 else raise (Builtin ValueError) ''checksum''),
     address_from_private_key = (\<lambda>k. ''ADDR''), unpack = (\<lambda>t. b64decode t), pack = (\<lambda>t. Inr (b64encode t)),
     sign_txn = (\<lambda>k t. Inr (of_nat k # t)), simulate_raw = (\<lambda>_ _. sret JNull), send_raw = (\<lambda>_ _. sret (JStr ''TX'')),
     wait_for_confirmation = (\<lambda>_ _ _. sret ())\<rparr>"

theorem wallet_signs_requested_witness:
  "\<exists>signer. client_signer (X402 SettlementError) ex_algo '' w1 w2'' = Inr signer \<and> cl_sign signer [[1], [2]] [1] = Inr [None, Some [7, 2]]
     \<and> cl_address signer = ''ADDR''"
proof -
  have s: "strip '' w1 w2'' = ''w1 w2''" by code_simp
  have b: "b64decode (b64encode [2]) = Inr [2]" "b64decode (b64encode [7, 2]) = Inr [7, 2]" by code_simp+
  obtain signer where c: "client_signer (X402 SettlementError) ex_algo '' w1 w2'' = Inr signer" "cl_sign signer [[1], [2]] [1] = Inr [None, Some [7, 2]]"
    using s b by (simp add: client_signer_def wallet_key_def ex_algo_def rewrap_def try_except_def sign_transactions_def sign_one_def)
  from wallet_signs_requested [OF c] c show ?thesis using s by (auto simp: ex_algo_def)
qed

theorem settle_usdc_errors_witness:
  "\<exists>e. settle_usdc ex_algo (None :: (unit, nat) x402_sdk option) ''w1 w2'' ''PAYEE'' 5 ''net'' 1 ''url'' 3 = (Inl e, 3) \<and> cls e = X402 SettlementError"
proof -
  obtain e where e: "settle_usdc ex_algo (None :: (unit, nat) x402_sdk option) ''w1 w2'' ''PAYEE'' 5 ''net'' 1 ''url'' 3 = (Inl e, 3)"
    by (simp add: settle_usdc_def settlement_error_def raise_def sres_def)
  from settle_usdc_errors [OF e] e show ?thesis by blast
qed

end
