(* ===== verification/Shadowpay.thy ===== *)
theory Shadowpay
  imports Avm Plugin_Base Receiver
begin

text \<open>
  ShadowPay in the Hermes plug-in, from \<open>integrations/plugins/hermes-agent/shadownet_hermes_plugin/_avm.py\<close> and \<open>_shadowpay.py\<close>: the conversion
  of an amount to atomic units, the settlement, and the three beats of the \<open>/shadownet-pay\<close> command: a payment, the same payment
  after the identity was revoked, and one with a swapped payee. Shown here: how an amount is converted, that money moves only for a verified
  identity that is not revoked and a payee that was agreed, and that one run of the command settles at most once.
\<close>

section \<open>Decimals\<close>

text \<open>
  \<open>decimal.Decimal\<close>: a sign, a coefficient and an exponent, or a special value. \<open>dec_read\<close> is \<open>Decimal(text)\<close>, \<open>None\<close> for
  \<open>InvalidOperation\<close>; products are rounded to the 28 digits of the default context, ties to even.
\<close>

datatype decimal = Fin bool nat int | Infinite bool | NaN

definition all_digits :: "string \<Rightarrow> bool" where
  "all_digits s = list_all is_digit s"

definition dec_exponent :: "string \<Rightarrow> int option" where
  "dec_exponent s =
     (case s of
        [] \<Rightarrow> Some 0
      | c # t \<Rightarrow>
          (if c \<noteq> CHR ''e'' then None
           else
             (let neg = (t \<noteq> '''' \<and> hd t = CHR ''-'');
                  d = (if t \<noteq> '''' \<and> (hd t = CHR ''-'' \<or> hd t = CHR ''+'') then tl t else t)
              in if d \<noteq> '''' \<and> all_digits d then Some ((if neg then -1 else 1) * int (digits_nat d)) else None)))"

definition dec_number :: "bool \<Rightarrow> string \<Rightarrow> decimal option" where
  "dec_number neg s =
     (let ip = takeWhile is_digit s; r = dropWhile is_digit s;
          dotted = (r \<noteq> '''' \<and> hd r = CHR ''.'');
          fp = (if dotted then takeWhile is_digit (tl r) else ''''); r2 = (if dotted then dropWhile is_digit (tl r) else r)
      in if ip @ fp = '''' then None
         else map_option (\<lambda>e. Fin neg (digits_nat (ip @ fp)) (e - int (length fp))) (dec_exponent r2))"

definition dec_read :: "string \<Rightarrow> decimal option" where
  "dec_read s =
     (let t = lower (filter (\<lambda>c. c \<noteq> CHR ''_'') (strip s));
          neg = (t \<noteq> '''' \<and> hd t = CHR ''-'');
          b = (if t \<noteq> '''' \<and> (hd t = CHR ''-'' \<or> hd t = CHR ''+'') then tl t else t);
          n = (if b \<noteq> '''' \<and> hd b = CHR ''s'' then tl b else b)
      in if b = ''inf'' \<or> b = ''infinity'' then Some (Infinite neg)
         else if prefix ''nan'' n \<and> all_digits (drop 3 n) then Some NaN
         else dec_number neg b)"

definition DEC_PRECISION :: nat where
  "DEC_PRECISION = 28"

definition round_coef :: "nat \<Rightarrow> nat \<Rightarrow> nat" where
  "round_coef c k =
     (let q = c div 10 ^ k; r = 2 * (c mod 10 ^ k) in
      if r < 10 ^ k then q else if r > 10 ^ k then q + 1 else if even q then q else q + 1)"

definition dec_scale :: "decimal \<Rightarrow> nat \<Rightarrow> decimal res" where
  "dec_scale d m =
     (case d of
        Fin neg c e \<Rightarrow>
          (let p = c * m; n = length (nat_str p) in
           if p \<noteq> 0 \<and> e + int n - 1 > 999999 then raise (Builtin ArithmeticError) ''Overflow''
           else if n > DEC_PRECISION then Inr (Fin neg (round_coef p (n - DEC_PRECISION)) (e + int (n - DEC_PRECISION)))
           else Inr (Fin neg p e))
      | other \<Rightarrow> Inr other)"

definition dec_le_zero :: "decimal \<Rightarrow> bool res" where
  "dec_le_zero d =
     (case d of
        Fin neg c e \<Rightarrow> Inr (neg \<or> c = 0)
      | Infinite neg \<Rightarrow> Inr neg
      | NaN \<Rightarrow> raise (Builtin InvalidOperation) ''comparison involving NaN'')"

definition dec_int :: "decimal \<Rightarrow> int res" where
  "dec_int d =
     (case d of
        Fin neg c e \<Rightarrow>
          (let n = (if 0 \<le> e then c * 10 ^ nat e else c div 10 ^ nat (- e)) in Inr (if neg then - int n else int n))
      | Infinite neg \<Rightarrow> raise (Builtin OverflowError) ''cannot convert Infinity to integer''
      | NaN \<Rightarrow> raise (Builtin ValueError) ''cannot convert NaN to integer'')"

section \<open>Settlement\<close>

definition USDC_DECIMALS :: nat where
  "USDC_DECIMALS = 6"

definition TESTNET_USDC_ASA_ID :: int where
  "TESTNET_USDC_ASA_ID = 10458941"

definition PAY_TESTNET_CAIP2 :: string where
  "PAY_TESTNET_CAIP2 = ''algorand:SGO1GKSzyE7IEPItTxCByw9x8FmnrCDexi9/cOUJOiI=''"

definition PAY_ALGOD_URL :: string where
  "PAY_ALGOD_URL = ''https://testnet-api.algonode.cloud''"

definition pay_error :: "string \<Rightarrow> 'a res" where
  "pay_error m = raise PaySettlementError m"

definition to_atomic :: "string \<Rightarrow> int res" where
  "to_atomic amount_usdc =
     (case dec_read amount_usdc of
        None \<Rightarrow> pay_error (''invalid USDC amount: '' @ repr amount_usdc)
      | Some v \<Rightarrow>
          bind (dec_le_zero v) (\<lambda>le.
            if le then pay_error (''USDC amount must be positive: '' @ repr amount_usdc)
            else bind (dec_scale v (10 ^ USDC_DECIMALS)) dec_int))"

definition payer_address :: "('k, 't, 's) algosdk \<Rightarrow> string \<Rightarrow> string res" where
  "payer_address A words = bind (wallet_key PaySettlementError A words) (\<lambda>k. Inr (address_from_private_key A k))"

definition pay_settle_usdc ::
  "('k, 't, 's) algosdk \<Rightarrow> ('p, 's) x402_sdk option \<Rightarrow> string \<Rightarrow> string \<Rightarrow> string \<Rightarrow> string option \<Rightarrow> string option \<Rightarrow> ('s, string) st"
where
  "pay_settle_usdc A sdk words payee amount_usdc network node =
     (case sdk of
        None \<Rightarrow> sres (pay_error ''x402-avm and py-algorand-sdk are required for live settlement'')
      | Some X \<Rightarrow>
          (let net = (case or_none network of Some n \<Rightarrow> n | None \<Rightarrow> PAY_TESTNET_CAIP2);
               url = (case or_none node of Some n \<Rightarrow> n | None \<Rightarrow> PAY_ALGOD_URL)
           in
           sbind (sres (to_atomic amount_usdc)) (\<lambda>amount.
           sbind (sres (client_signer PaySettlementError A words)) (\<lambda>signer.
           (let req = \<lparr>x_network = net, x_asset = int_str TESTNET_USDC_ASA_ID, x_amount = int_str amount, x_pay_to = payee\<rparr> in
            sbind (srewrap (create_payment_payload X signer url req) (Builtin PyException) PaySettlementError
                     (\<lambda>m. ''failed to build payment: '' @ m)) (\<lambda>p.
            sbind (facilitator_settle X (relay_signer PaySettlementError A url) p req) (\<lambda>outcome.
              if \<not> xo_success outcome
              then sres (pay_error (''on-chain settlement refused: ''
                     @ (case or_none (xo_error_reason outcome) of Some r \<Rightarrow> r | None \<Rightarrow> ''unknown'')
                     @ (case or_none (xo_error_message outcome) of Some m \<Rightarrow> '' ('' @ m @ '')'' | None \<Rightarrow> '''')))
              else
                (case or_none (xo_transaction outcome) of
                   None \<Rightarrow> sres (pay_error ''settlement returned no transaction id'')
                 | Some txid \<Rightarrow> sret txid))))))))"

section \<open>The command\<close>

definition STUB_TXID :: string where
  "STUB_TXID = ''TESTNET-TXID-9F3A2C''"

definition STUB_PAY_TO :: string where
  "STUB_PAY_TO = ''ALICEALGOADDR''"

definition TAMPERED_PAY_TO :: string where
  "TAMPERED_PAY_TO = ''TAMPEREDPAYTOADDR''"

definition PAY_DEFAULT_AMOUNT :: string where
  "PAY_DEFAULT_AMOUNT = ''0.005''"

definition LORA_TX_URL :: string where
  "LORA_TX_URL = ''https://lora.algokit.io/testnet/tx/''"

definition PAY_REQUIRED_ENV :: "string list" where
  "PAY_REQUIRED_ENV = [''SHADOWNET_X402_WALLET_MNEMONIC'', ''SHADOWNET_X402_PAY_TO'']"

definition config_hint :: "environ \<Rightarrow> string option" where
  "config_hint env =
     (let missing = filter (\<lambda>n. or_none (env n) = None) PAY_REQUIRED_ENV in
      if missing = [] then None
      else Some (''Setup: running in demo mode (stub settlement). For a real Algorand TestNet ''
        @ ''USDC transfer, set in your Hermes env/config: '' @ join_with '', '' missing @ ''. ''
        @ ''SHADOWNET_X402_WALLET_MNEMONIC = a funded 25-word TestNet account opted into ''
        @ ''USDC (ASA 10458941); SHADOWNET_X402_PAY_TO = the payee address (also opted in).''))"

text \<open>\<open>text.split()\<close>: the maximal runs of characters that are no white space.\<close>

fun split_spaces :: "string \<Rightarrow> string \<Rightarrow> string list" where
  "split_spaces w [] = (if w = [] then [] else [w])"
| "split_spaces w (c # cs) =
     (if is_space c then (if w = [] then split_spaces [] cs else w # split_spaces [] cs) else split_spaces (w @ [c]) cs)"

text \<open>What one run of the command is about: the environment's settings, the demonstration's credential and who agreed on what.\<close>

record pay_run =
  py_words :: string
  py_node :: "string option"
  py_live :: bool
  py_agreed :: string
  py_payee :: string
  py_amount :: string
  py_credential :: string
  py_issuer_pk :: string
  py_buyer_sub :: string

definition env_stripped :: "environ \<Rightarrow> string \<Rightarrow> string" where
  "env_stripped env k = strip (case env k of Some v \<Rightarrow> v | None \<Rightarrow> '''')"

definition pay_credential :: "string \<Rightarrow> int \<Rightarrow> obj" where
  "pay_credential sub now =
     [(''iss'', JStr ''acme.example''), (''sub'', JStr sub), (''kind'', JStr ''org_affiliation''), (''org'', JStr ''acme.example''),
      (''iat'', JInt now), (''exp'', JInt (now + 3600)), (''rev'', JObj [(''epoch'', JStr ''2026q2''), (''idx'', JInt 0)])]"

text \<open>\<open>issuer\<close> and \<open>buyer\<close> are the two generated key pairs, \<open>now\<close> the reading of the clock.\<close>

definition prepare :: "lib \<Rightarrow> environ \<Rightarrow> Ed25519KeyPair \<Rightarrow> Ed25519KeyPair \<Rightarrow> int \<Rightarrow> string \<Rightarrow> pay_run res" where
  "prepare L env issuer buyer now raw_args =
     (let words = env_stripped env ''SHADOWNET_X402_WALLET_MNEMONIC'';
          configured = env_stripped env ''SHADOWNET_X402_PAY_TO'';
          live = (words \<noteq> '''' \<and> configured \<noteq> '''');
          parts = split_spaces [] raw_args
      in
      bind (encode_public_key (public_bytes issuer)) (\<lambda>issuer_pk.
      bind (encode_public_key (public_bytes buyer)) (\<lambda>buyer_sub.
      bind (CredentialPayload_model_validate L (pay_credential buyer_sub now)) (\<lambda>p.
      bind (mint_credential L p issuer) (\<lambda>cred.
      Inr \<lparr>py_words = words, py_node = or_none (Some (env_stripped env ''SHADOWNET_X402_ALGOD_URL'')), py_live = live,
           py_agreed = (if live then configured else STUB_PAY_TO),
           py_payee = (case parts of [] \<Rightarrow> ''alice'' | p # _ \<Rightarrow> p),
           py_amount = (case parts of _ # a # _ \<Rightarrow> a
                        | _ \<Rightarrow> (case or_none (env ''SHADOWNET_X402_AMOUNT'') of Some a \<Rightarrow> a | None \<Rightarrow> PAY_DEFAULT_AMOUNT)),
           py_credential = cred, py_issuer_pk = issuer_pk, py_buyer_sub = buyer_sub\<rparr>)))))"

definition pay_beat ::
  "lib \<Rightarrow> resolver \<Rightarrow> ('k, 't, 's) algosdk \<Rightarrow> ('p, 's) x402_sdk option \<Rightarrow> pay_run \<Rightarrow> int \<Rightarrow> string list \<Rightarrow> string \<Rightarrow> ('s, string) st"
where
  "pay_beat L dns A sdk R clock revoked payee =
     (case verify_credential L dns clock (py_credential R) None 60 (Some (\<lambda>_. Inr (py_issuer_pk R))) None of
        Inl e \<Rightarrow> (if is_a e (Sdk CredentialError) then sret ''REFUSED (401): identity not verified'' else sres (Inl e))
      | Inr _ \<Rightarrow>
          (if py_buyer_sub R \<in> set revoked then sret ''REFUSED (403): identity revoked''
           else if payee \<noteq> py_agreed R then sret ''REFUSED (402): payment does not match the agreed requirements''
           else if \<not> py_live R then sret (''SETTLED: txid '' @ STUB_TXID @ '' (demo, stub settlement)'')
           else
             sthen (pay_settle_usdc A sdk (py_words R) (py_agreed R) (py_amount R) None (py_node R)) (\<lambda>r.
               (case r of
                  Inl e \<Rightarrow> (if is_a e PaySettlementError then sret (''REFUSED: on-chain settlement failed ('' @ str_of e @ '')'')
                            else sres (Inl e))
                | Inr txid \<Rightarrow> sret (''SETTLED: '' @ txid @ ''\<newline>   '' @ LORA_TX_URL @ txid)))))"

definition pay_narrative :: "pay_run \<Rightarrow> string option \<Rightarrow> string \<Rightarrow> string \<Rightarrow> string \<Rightarrow> string" where
  "pay_narrative R hint b1 b2 b3 =
     join_with ''\<newline>''
       ([''ShadowPay - agent payments on Algorand, bound to identity.'', '''',
         ''1) Pay '' @ py_amount R @ '' USDC to '' @ py_payee R @ '' on ''
           @ (if py_live R then ''Algorand TestNet'' else ''Algorand TestNet (demo)'') @ '' -> '' @ b1,
         ''   Bound to '' @ take 16 (py_buyer_sub R) @ ''... (verified org_affiliation @ acme.example), not an anonymous wallet.'',
         '''', ''2) Revoke the agent, pay again -> '' @ b2, ''   Wallet still funded. The identity is the kill switch.'',
         '''', ''3) Man-in-the-middle swaps the pay-to -> '' @ b3, ''   The charge is bound to what was agreed.'',
         '''', ''Know Your Agent for x402.'']
        @ (case hint of None \<Rightarrow> [] | Some h \<Rightarrow> ['''', h]))"

text \<open>\<open>clock\<close> gives the reading of the clock for each of the three verifications.\<close>

definition shadowpay_run ::
  "lib \<Rightarrow> resolver \<Rightarrow> ('k, 't, 's) algosdk \<Rightarrow> ('p, 's) x402_sdk option \<Rightarrow> environ \<Rightarrow> Ed25519KeyPair \<Rightarrow> Ed25519KeyPair \<Rightarrow> int
     \<Rightarrow> (nat \<Rightarrow> int) \<Rightarrow> string \<Rightarrow> ('s, string) st"
where
  "shadowpay_run L dns A sdk env issuer buyer now clock raw_args =
     sbind (sres (prepare L env issuer buyer now raw_args)) (\<lambda>R.
     sbind (pay_beat L dns A sdk R (clock 0) [] (py_agreed R)) (\<lambda>b1.
     sbind (pay_beat L dns A sdk R (clock 1) [py_buyer_sub R] (py_agreed R)) (\<lambda>b2.
     sbind (pay_beat L dns A sdk R (clock 2) [] TAMPERED_PAY_TO) (\<lambda>b3.
     sret (pay_narrative R (config_hint env) b1 b2 b3)))))"

text \<open>The slash command always answers; the tool \<open>shadownet_pay\<close> joins its two arguments.\<close>

definition run_shadowpay :: "('s, string) st \<Rightarrow> ('s, string) st" where
  "run_shadowpay m =
     sthen m (\<lambda>r. (case r of Inl e \<Rightarrow> sret (''[shadownet] ShadowPay failed: '' @ str_of e) | Inr t \<Rightarrow> sret t))"

definition pay_tool_args :: "obj \<Rightarrow> string" where
  "pay_tool_args args =
     strip (str_json (get_or_else args ''to'' (JStr '''')) @ '' '' @ str_json (get_or_else args ''amount'' (JStr '''')))"

section \<open>Who gets paid\<close>

abbreviation beat_verified :: "lib \<Rightarrow> resolver \<Rightarrow> pay_run \<Rightarrow> int \<Rightarrow> bool" where
  "beat_verified L dns R clock \<equiv>
     \<exists>v. verify_credential L dns clock (py_credential R) None 60 (Some (\<lambda>_. Inr (py_issuer_pk R))) None = Inr v"

text \<open>
  \<open>settlements s\<close> is the history of the calls of the facilitator's \<open>settle\<close> in the state \<open>s\<close>: each call adds the requirements it is given,
  and building a payment adds nothing.
\<close>

definition records_settlements :: "('s \<Rightarrow> exact_requirements list) \<Rightarrow> ('p, 's) x402_sdk option \<Rightarrow> bool" where
  "records_settlements settlements sdk =
     (\<forall>X. sdk = Some X \<longrightarrow>
        (\<forall>signer url req s r s'. create_payment_payload X signer url req s = (r, s') \<longrightarrow> settlements s' = settlements s)
        \<and> (\<forall>relay p req s r s'. facilitator_settle X relay p req s = (r, s') \<longrightarrow> settlements s' = settlements s @ [req]))"

text \<open>A transfer of so much in TestNet USDC to that address.\<close>

definition usdc_transfer :: "string \<Rightarrow> string \<Rightarrow> exact_requirements \<Rightarrow> bool" where
  "usdc_transfer address amount q =
     (x_pay_to q = address \<and> x_network q = ''algorand:SGO1GKSzyE7IEPItTxCByw9x8FmnrCDexi9/cOUJOiI='' \<and> x_asset q = int_str 10458941
      \<and> (\<exists>n. to_atomic amount = Inr n \<and> x_amount q = int_str n))"

lemma settle_records:
  assumes X: "records_settlements settlements sdk" and run: "pay_settle_usdc A sdk words payee amount None node s = (r, s')"
  shows "\<exists>l. settlements s' = settlements s @ l \<and> length l \<le> 1 \<and> list_all (usdc_transfer payee amount) l \<and> (\<not> isl r \<longrightarrow> length l = 1)"
proof (cases "\<exists>X n signer. sdk = Some X \<and> to_atomic amount = Inr n \<and> client_signer PaySettlementError A words = Inr signer")
  case False
  then have "isl r \<and> s' = s"
    using run
    by (cases sdk; cases "to_atomic amount"; cases "client_signer PaySettlementError A words")
      (auto simp: pay_settle_usdc_def pay_error_def raise_def sbind_def sthen_def sres_def Let_def)
  then show ?thesis by auto
next
  case True
  then obtain X n signer where x: "sdk = Some X" "to_atomic amount = Inr n" "client_signer PaySettlementError A words = Inr signer" by blast
  let ?req = "\<lparr>x_network = PAY_TESTNET_CAIP2, x_asset = int_str TESTNET_USDC_ASA_ID, x_amount = int_str n, x_pay_to = payee\<rparr>"
  let ?url = "case or_none node of Some n \<Rightarrow> n | None \<Rightarrow> PAY_ALGOD_URL"
  obtain r1 s1 where c: "create_payment_payload X signer ?url ?req s = (r1, s1)" by force
  have s1: "settlements s1 = settlements s" using X x(1) c by (auto simp: records_settlements_def)
  have req: "usdc_transfer payee amount ?req"
    by (simp add: usdc_transfer_def x(2) PAY_TESTNET_CAIP2_def TESTNET_USDC_ASA_ID_def)
  show ?thesis
  proof (cases r1)
    case (Inl e)
    with run c x have "isl r" "s' = s1"
      by (auto simp: pay_settle_usdc_def or_none_def sbind_def sthen_def srewrap_def sres_def rewrap_def try_except_def raise_def Let_def)
    with s1 show ?thesis by auto
  next
    case (Inr pay)
    obtain o1 s2 where o: "facilitator_settle X (relay_signer PaySettlementError A ?url) pay ?req s1 = (o1, s2)" by force
    have "settlements s2 = settlements s1 @ [?req]" using X x(1) o by (auto simp: records_settlements_def)
    moreover have "s' = s2"
      using run c x o Inr
      by (auto simp: pay_settle_usdc_def or_none_def sbind_def sthen_def srewrap_def sres_def sret_def rewrap_def try_except_def Let_def
          split: sum.splits if_splits option.splits)
    ultimately show ?thesis using s1 req by auto
  qed
qed

text \<open>One beat settles at most once, and only for a verified, unrevoked identity, the agreed payee and live settings.\<close>

lemma beat_records:
  assumes X: "records_settlements settlements sdk" and run: "pay_beat L dns A sdk R clock revoked payee s = (r, s')"
  shows "\<exists>l. settlements s' = settlements s @ l \<and> length l \<le> 1 \<and> list_all (usdc_transfer (py_agreed R) (py_amount R)) l
    \<and> (l \<noteq> [] \<longrightarrow> beat_verified L dns R clock \<and> py_buyer_sub R \<notin> set revoked \<and> payee = py_agreed R \<and> py_live R)
    \<and> (\<forall>t. r = Inr (''SETTLED'' @ t) \<and> py_live R \<longrightarrow> length l = 1)"
proof (cases "beat_verified L dns R clock \<and> py_buyer_sub R \<notin> set revoked \<and> payee = py_agreed R \<and> py_live R")
  case False
  then have "s' = s" "\<And>t. py_live R \<Longrightarrow> r \<noteq> Inr (''SETTLED'' @ t)"
    using run by (auto simp: pay_beat_def sret_def sres_def split: sum.splits if_splits)
  then show ?thesis by auto
next
  case True
  obtain r1 s1 where settle: "pay_settle_usdc A sdk (py_words R) (py_agreed R) (py_amount R) None (py_node R) s = (r1, s1)" by force
  with True run have "s' = s1" "\<And>t. r = Inr (''SETTLED'' @ t) \<Longrightarrow> \<not> isl r1"
    by (auto simp: pay_beat_def sthen_def sret_def sres_def split: sum.splits if_splits)
  with settle_records [OF X settle] True show ?thesis by auto
qed

lemma pay_beat_refused:
  assumes "pay_beat L dns A sdk R clock revoked payee s = (Inr t, s')" "py_buyer_sub R \<in> set revoked \<or> payee \<noteq> py_agreed R"
  shows "prefix ''REFUSED'' t"
  using assms by (auto simp: pay_beat_def sret_def sres_def split: sum.splits if_splits)

text \<open>What a run may have settled, after its first beat and after its last; \<open>tampered\<close> when the agreed address is the one that the third beat swaps in.\<close>

definition settled_by_run :: "lib \<Rightarrow> resolver \<Rightarrow> pay_run \<Rightarrow> (nat \<Rightarrow> int) \<Rightarrow> exact_requirements list \<Rightarrow> bool" where
  "settled_by_run L dns R clock l =
     (list_all (usdc_transfer (py_agreed R) (py_amount R)) l
      \<and> length l \<le> (if py_agreed R = TAMPERED_PAY_TO then 2 else 1)
      \<and> (l \<noteq> [] \<longrightarrow> py_live R \<and> (beat_verified L dns R (clock 0) \<or> py_agreed R = TAMPERED_PAY_TO \<and> beat_verified L dns R (clock 2))))"

lemma beats_record:
  assumes X: "records_settlements settlements sdk"
    and run: "sbind (pay_beat L dns A sdk R (clock 0) [] (py_agreed R)) (\<lambda>b1.
      sbind (pay_beat L dns A sdk R (clock 1) [py_buyer_sub R] (py_agreed R)) (\<lambda>b2.
      sbind (pay_beat L dns A sdk R (clock 2) [] TAMPERED_PAY_TO) (\<lambda>b3. sret (f b1 b2 b3)))) s = (r, s')"
  shows "\<exists>l. settlements s' = settlements s @ l \<and> settled_by_run L dns R clock l
    \<and> (\<forall>n. r = Inr n \<longrightarrow> (\<exists>b1 b2 b3. n = f b1 b2 b3 \<and> prefix ''REFUSED'' b2 \<and> (py_agreed R = TAMPERED_PAY_TO \<or> prefix ''REFUSED'' b3)
         \<and> (prefix ''SETTLED'' b1 \<and> py_live R \<longrightarrow> l \<noteq> [])))"
proof -
  obtain r1 s1 where b1: "pay_beat L dns A sdk R (clock 0) [] (py_agreed R) s = (r1, s1)" by force
  obtain r2 s2 where b2: "pay_beat L dns A sdk R (clock 1) [py_buyer_sub R] (py_agreed R) s1 = (r2, s2)" by force
  obtain r3 s3 where b3: "pay_beat L dns A sdk R (clock 2) [] TAMPERED_PAY_TO s2 = (r3, s3)" by force
  obtain l1 where l1: "settlements s1 = settlements s @ l1" "length l1 \<le> 1" "list_all (usdc_transfer (py_agreed R) (py_amount R)) l1"
    "l1 \<noteq> [] \<Longrightarrow> beat_verified L dns R (clock 0) \<and> py_live R" "\<And>t. r1 = Inr (''SETTLED'' @ t) \<Longrightarrow> py_live R \<Longrightarrow> l1 \<noteq> []"
    using beat_records [OF X b1] by fastforce
  have l2: "settlements s2 = settlements s1" using beat_records [OF X b2] by auto
  obtain l3 where l3: "settlements s3 = settlements s2 @ l3" "length l3 \<le> 1" "list_all (usdc_transfer (py_agreed R) (py_amount R)) l3"
    "l3 \<noteq> [] \<Longrightarrow> py_agreed R = TAMPERED_PAY_TO \<and> beat_verified L dns R (clock 2) \<and> py_live R"
    using beat_records [OF X b3] by metis
  have out: "s' = (if isl r1 then s1 else if isl r2 then s2 else s3)"
      "\<And>n. r = Inr n \<Longrightarrow> \<exists>t1 t2 t3. r1 = Inr t1 \<and> r2 = Inr t2 \<and> r3 = Inr t3 \<and> n = f t1 t2 t3"
    using run b1 b2 b3 by (auto simp: sbind_def sthen_def sres_def sret_def split: sum.splits)
  let ?l = "if isl r1 \<or> isl r2 then l1 else l1 @ l3"
  have "settlements s' = settlements s @ ?l" using out(1) l1(1) l2 l3(1) by auto
  moreover have "settled_by_run L dns R clock ?l"
    using l1(2-4) l3(2-4) by (cases "l3 = []") (auto simp: settled_by_run_def)
  moreover have "\<exists>b1 b2 b3. n = f b1 b2 b3 \<and> prefix ''REFUSED'' b2 \<and> (py_agreed R = TAMPERED_PAY_TO \<or> prefix ''REFUSED'' b3)
      \<and> (prefix ''SETTLED'' b1 \<and> py_live R \<longrightarrow> ?l \<noteq> [])" if n: "r = Inr n" for n
  proof -
    obtain t1 t2 t3 where t: "r1 = Inr t1" "r2 = Inr t2" "r3 = Inr t3" "n = f t1 t2 t3" using out(2) [OF n] by blast
    then have "prefix ''REFUSED'' t2" "py_agreed R = TAMPERED_PAY_TO \<or> prefix ''REFUSED'' t3"
      using pay_beat_refused [OF b2 [unfolded t(2)]] pay_beat_refused [OF b3 [unfolded t(3)]]
      by (simp, cases "py_agreed R = TAMPERED_PAY_TO") auto
    moreover have "prefix ''SETTLED'' t1 \<and> py_live R \<longrightarrow> ?l \<noteq> []" using l1(5) t(1) by (auto elim!: prefixE)
    ultimately show ?thesis using t(4) by blast
  qed
  ultimately show ?thesis by blast
qed

text \<open>
  C24: one run of \<open>/shadownet-pay\<close> settles at most one transfer, however it ends, exceptions included. The transfer is of TestNet USDC, in the amount of the
  command in atomic units, and goes to the configured address, not to the payee named in the chat; there is one only with the live settings
  and after the demonstration's credential verified. A run that returns was refused in its second beat, after the revocation, and in its third, with
  the swapped payee; and if it reports a settlement with live settings, there was one. The exception is a configured address equal to the
  constant that the third beat swaps in: then that beat is no tampering, and a second transfer to the same address can follow.
\<close>

theorem shadowpay_settles_once:
  assumes "shadowpay_run L dns A sdk env issuer buyer now clock raw_args s = (r, s')"
    and "records_settlements settlements sdk"
  shows "\<exists>l. settlements s' = settlements s @ l
    \<and> (let address = env_stripped env ''SHADOWNET_X402_PAY_TO'' in
       length l \<le> (if address = TAMPERED_PAY_TO then 2 else 1)
       \<and> (l \<noteq> [] \<longrightarrow>
            (\<exists>R. prepare L env issuer buyer now raw_args = Inr R \<and> env_stripped env ''SHADOWNET_X402_WALLET_MNEMONIC'' \<noteq> [] \<and> address \<noteq> []
               \<and> list_all (usdc_transfer address (py_amount R)) l
               \<and> (beat_verified L dns R (clock 0) \<or> address = TAMPERED_PAY_TO \<and> beat_verified L dns R (clock 2))))
       \<and> (\<forall>narrative. r = Inr narrative \<longrightarrow>
            (\<exists>R b1 b2 b3. prepare L env issuer buyer now raw_args = Inr R \<and> narrative = pay_narrative R (config_hint env) b1 b2 b3
               \<and> prefix ''REFUSED'' b2 \<and> (address = TAMPERED_PAY_TO \<or> prefix ''REFUSED'' b3)
               \<and> (prefix ''SETTLED'' b1 \<and> py_live R \<longrightarrow> l \<noteq> []))))"
proof (cases "prepare L env issuer buyer now raw_args")
  case (Inl e)
  with assms(1) show ?thesis by (auto simp: shadowpay_run_def sbind_def sthen_def sres_def)
next
  case (Inr R)
  let ?address = "env_stripped env ''SHADOWNET_X402_PAY_TO''"
  have R: "py_live R \<longleftrightarrow> env_stripped env ''SHADOWNET_X402_WALLET_MNEMONIC'' \<noteq> [] \<and> ?address \<noteq> []"
    "py_agreed R = (if py_live R then ?address else STUB_PAY_TO)"
    using Inr by (auto simp: prepare_def Let_def bind_Inr_iff split: if_splits)
  obtain l where l: "settlements s' = settlements s @ l" "settled_by_run L dns R clock l"
    and n: "\<And>n. r = Inr n \<Longrightarrow> \<exists>b1 b2 b3. n = pay_narrative R (config_hint env) b1 b2 b3 \<and> prefix ''REFUSED'' b2
      \<and> (py_agreed R = TAMPERED_PAY_TO \<or> prefix ''REFUSED'' b3) \<and> (prefix ''SETTLED'' b1 \<and> py_live R \<longrightarrow> l \<noteq> [])"
    using beats_record [OF assms(2), of L dns A R clock "pay_narrative R (config_hint env)" s r s'] assms(1) Inr
    by (auto simp: shadowpay_run_def sbind_def sthen_def sres_def)
  have "py_agreed R = TAMPERED_PAY_TO \<Longrightarrow> ?address = TAMPERED_PAY_TO" "py_live R \<Longrightarrow> py_agreed R = ?address"
    using R by (auto simp: STUB_PAY_TO_def TAMPERED_PAY_TO_def split: if_splits)
  with Inr R(1) l n show ?thesis
    by (intro exI [of _ l]) (fastforce simp: Let_def settled_by_run_def split: if_splits)
qed

section \<open>Amounts\<close>

lemma scaled_floor: "(if 0 \<le> e then int (p * 10 ^ nat e) else int (p div 10 ^ nat (- e))) = \<lfloor>of_nat p * power_int (10 :: rat) e\<rfloor>"
proof (cases "0 \<le> e")
  case True
  then have "of_nat p * power_int (10 :: rat) e = of_int (int (p * 10 ^ nat e))" by (simp add: power_int_def)
  with True show ?thesis by (simp only: floor_of_int if_True)
next
  case False
  then have "of_nat p * power_int (10 :: rat) e = of_nat p / of_nat (10 ^ nat (- e))"
    by (simp add: power_int_def field_simps)
  with False show ?thesis by (simp only: floor_divide_of_nat_eq if_False)
qed

text \<open>
  C37: an amount in USDC is converted exactly, rounded down to whole atomic units: for a positive decimal whose scaled coefficient has at most 28
  digits, \<open>to_atomic\<close> gives the floor of a million times the amount.
\<close>

theorem to_atomic_floor:
  assumes "dec_read s = Some (Fin False c e)" "0 < c" "length (nat_str (c * 1000000)) \<le> 28" "e < 900000"
  shows "to_atomic s = Inr \<lfloor>of_nat c * power_int (10 :: rat) e * 1000000\<rfloor>"
proof -
  let ?p = "c * 1000000"
  have "to_atomic s = Inr (if 0 \<le> e then int (?p * 10 ^ nat e) else int (?p div 10 ^ nat (- e)))"
    using assms
    by (simp add: to_atomic_def dec_le_zero_def dec_scale_def USDC_DECIMALS_def DEC_PRECISION_def dec_int_def Let_def)
  then show ?thesis unfolding scaled_floor by (simp add: mult.commute mult.left_commute mult.assoc)
qed

theorem to_atomic_floor_witness: "to_atomic ''0.005'' = Inr 5000"
proof -
  have r: "dec_read ''0.005'' = Some (Fin False 5 (- 3))" by code_simp
  have l: "length (nat_str (5 * 1000000)) \<le> 28" by (simp add: nat_str.simps)
  have "\<lfloor>of_nat 5 * power_int (10 :: rat) (- 3) * 1000000\<rfloor> = 5000" by (simp add: power_int_def power3_eq_cube)
  with to_atomic_floor [OF r _ l] show ?thesis by simp
qed

text \<open>
  Three amounts that slip through: less than a millionth is accepted as positive and becomes zero atomic units; and \<open>NaN\<close> and \<open>Infinity\<close> raise arithmetic errors
  that are no \<open>SettlementError\<close>.
\<close>

theorem to_atomic_gaps:
  "to_atomic ''0.0000001'' = Inr 0"
  "\<exists>e. to_atomic ''nan'' = Inl e \<and> \<not> is_a e PaySettlementError"
  "\<exists>e. to_atomic ''inf'' = Inl e \<and> \<not> is_a e PaySettlementError"
proof -
  have r: "dec_read ''nan'' = Some NaN" "dec_read ''inf'' = Some (Infinite False)" by code_simp+
  have d: "dec_read ''0.0000001'' = Some (Fin False 1 (- 7))" by code_simp
  have l: "length (nat_str 1000000) \<le> 28" by (simp add: nat_str.simps)
  show "to_atomic ''0.0000001'' = Inr 0"
    using l by (simp add: to_atomic_def d dec_le_zero_def dec_scale_def USDC_DECIMALS_def DEC_PRECISION_def dec_int_def Let_def)
  show "\<exists>e. to_atomic ''nan'' = Inl e \<and> \<not> is_a e PaySettlementError"
    by (simp add: to_atomic_def r dec_le_zero_def raise_def is_a_eval)
  show "\<exists>e. to_atomic ''inf'' = Inl e \<and> \<not> is_a e PaySettlementError"
    by (simp add: to_atomic_def r dec_le_zero_def dec_scale_def dec_int_def raise_def is_a_eval)
qed

text \<open>A live run: a wallet, a configured address, and an SDK whose state is the list of the transfers it has settled.\<close>

definition ex_pay_env :: environ where
  "ex_pay_env k =
     (if k = ''SHADOWNET_X402_WALLET_MNEMONIC'' then Some ''w1 w2'' else if k = ''SHADOWNET_X402_PAY_TO'' then Some ''ALICEADDR'' else None)"

definition ex_pay_algo :: "(nat, bytes, exact_requirements list) algosdk" where
  "ex_pay_algo = \<lparr>to_private_key = (\<lambda>w. Inr 7), address_from_private_key = (\<lambda>k. ''ADDR''), unpack = (\<lambda>t. b64decode t),
     pack = (\<lambda>t. Inr (b64encode t)), sign_txn = (\<lambda>k t. Inr (of_nat k # t)), simulate_raw = (\<lambda>_ _. sret JNull),
     send_raw = (\<lambda>_ _. sret (JStr ''TX'')), wait_for_confirmation = (\<lambda>_ _ _. sret ())\<rparr>"

definition ex_pay_sdk :: "(unit, exact_requirements list) x402_sdk" where
  "ex_pay_sdk = \<lparr>create_payment_payload = (\<lambda>_ _ _. sret ()),
     facilitator_settle = (\<lambda>_ _ req s. (Inr \<lparr>xo_success = True, xo_transaction = Some ''TX1'', xo_payer = None,
       xo_error_reason = None, xo_error_message = None\<rparr>, s @ [req]))\<rparr>"

lemma ex_prepare:
  "\<exists>R. prepare ex_cred_lib ex_pay_env \<lparr>public_bytes = ex_seed, private_raw = Some ex_seed\<rparr> \<lparr>public_bytes = ex_seed, private_raw = Some ex_seed\<rparr>
     1000 ''bob 0.01'' = Inr R \<and> py_credential R = ''aGQ.cGw.c2ln'' \<and> py_issuer_pk R = ex_key \<and> py_live R \<and> py_agreed R = ''ALICEADDR''
     \<and> py_words R = ''w1 w2'' \<and> py_amount R = ''0.01'' \<and> py_node R = None"
proof -
  have k: "encode_public_key ex_seed = Inr ex_key" using ex_key_parses parse_public_key_iff by blast
  have c: "canonicalize_identifier ex_key = Inr ex_key" by (rule public_key_canonical(2) [OF ex_key_parses])
  have d: "canonicalize_issuer_or_org_identifier ''acme.example'' = Inr ''acme.example''" "kind_pattern ''org_affiliation''"
      "env_stripped ex_pay_env ''SHADOWNET_X402_WALLET_MNEMONIC'' = ''w1 w2''" "env_stripped ex_pay_env ''SHADOWNET_X402_PAY_TO'' = ''ALICEADDR''"
      "or_none (Some (env_stripped ex_pay_env ''SHADOWNET_X402_ALGOD_URL'')) = None" "split_spaces [] ''bob 0.01'' = [''bob'', ''0.01'']"
    by code_simp+
  have v: "\<exists>p. CredentialPayload_model_validate ex_cred_lib (pay_credential ex_key 1000) = Inr p \<and> c_exp p - c_iat p = 3600
      \<and> c_kind p = ORG_AFFILIATION"
    by (simp add: CredentialPayload_model_validate_def v_CredentialPayload_def pay_credential_def required_field_def matched_key_def
        v_IssuerIdentifier_def v_Identifier_def c d constrain_def v_int_def validated_def v_RevocationPointer_def forbid_extra_def
        extra_members_def List.map_filter_simps ex_cred_lib_def toy_lib_def ORG_AFFILIATION_def RevocationPointer.make_def)
  have j: "jwt_encode ex_cred_lib claims sk hd = Inr ''aGQ.cGw.c2ln''" for claims sk hd by (simp add: ex_cred_lib_def)
  from v obtain p where "CredentialPayload_model_validate ex_cred_lib (pay_credential ex_key 1000) = Inr p" "c_exp p - c_iat p = 3600"
    "c_kind p = ORG_AFFILIATION"
    by blast
  then show ?thesis
    by (simp add: prepare_def Let_def k d mint_credential_def CRED_MAX_LIFETIME_SECONDS_def sign_jwt_def private_key_def j
        del: split_spaces.simps)
qed

lemma ex_settled:
  "pay_settle_usdc ex_pay_algo (Some ex_pay_sdk) ''w1 w2'' ''ALICEADDR'' ''0.01'' None None s =
     (Inr ''TX1'', s @ [\<lparr>x_network = PAY_TESTNET_CAIP2, x_asset = int_str TESTNET_USDC_ASA_ID, x_amount = int_str 10000, x_pay_to = ''ALICEADDR''\<rparr>])"
proof -
  have r: "dec_read ''0.01'' = Some (Fin False 1 (- 2))" by code_simp
  have l: "length (nat_str 1000000) \<le> 28" by (simp add: nat_str.simps)
  have "to_atomic ''0.01'' = Inr 10000"
    using l by (simp add: to_atomic_def r dec_le_zero_def dec_scale_def USDC_DECIMALS_def DEC_PRECISION_def dec_int_def Let_def)
  moreover obtain signer where "client_signer PaySettlementError ex_pay_algo ''w1 w2'' = Inr signer"
    by (auto simp: client_signer_def wallet_key_def ex_pay_algo_def rewrap_def try_except_def)
  ultimately show ?thesis
    by (simp add: pay_settle_usdc_def ex_pay_sdk_def or_none_def sbind_def sthen_def sres_def sret_def srewrap_def rewrap_def try_except_def Let_def)
qed

theorem shadowpay_settles_once_witness:
  "\<exists>narrative q. shadowpay_run ex_cred_lib (\<lambda>_. Inr []) ex_pay_algo (Some ex_pay_sdk) ex_pay_env
       \<lparr>public_bytes = ex_seed, private_raw = Some ex_seed\<rparr> \<lparr>public_bytes = ex_seed, private_raw = Some ex_seed\<rparr>
       1000 (\<lambda>_. 1500) ''bob 0.01'' [] = (Inr narrative, [q]) \<and> x_pay_to q = ''ALICEADDR''"
proof -
  let ?k = "\<lparr>public_bytes = ex_seed, private_raw = Some ex_seed\<rparr>"
  let ?run = "shadowpay_run ex_cred_lib (\<lambda>_. Inr []) ex_pay_algo (Some ex_pay_sdk) ex_pay_env ?k ?k 1000 (\<lambda>_. 1500) ''bob 0.01'' []"
  from ex_prepare obtain R where R: "prepare ex_cred_lib ex_pay_env ?k ?k 1000 ''bob 0.01'' = Inr R" "py_credential R = ''aGQ.cGw.c2ln''"
    "py_issuer_pk R = ex_key" "py_live R" "py_agreed R = ''ALICEADDR''" "py_words R = ''w1 w2''" "py_amount R = ''0.01''" "py_node R = None"
    by blast
  have "jwt_encodes ex_cred_lib (CredentialPayload_model_dump ex_payload) ex_seed [(''alg'', JStr ''EdDSA''), (''typ'', JStr CREDENTIAL_TYP)]"
    using ex_signed by (simp add: jwt_encodes_def) (simp add: ex_cred_lib_def toy_lib_def)
  moreover have "mint_credential ex_cred_lib ex_payload ?k = Inr ''aGQ.cGw.c2ln''"
    by (simp add: mint_credential_def ex_payload_def ORG_AFFILIATION_def CRED_MAX_LIFETIME_SECONDS_def sign_jwt_def private_key_def ex_cred_lib_def)
  moreover have "\<forall>i. as_int ex_cred_lib (JInt i) = Some i" "pk_of_seed ex_cred_lib ex_seed = ex_seed" "ed_load ex_cred_lib ex_seed = Inr ()"
    by (simp_all add: ex_cred_lib_def toy_lib_def)
  ultimately have "\<exists>v. verify_credential ex_cred_lib (\<lambda>_. Inr []) 1500 ''aGQ.cGw.c2ln'' None 60 (Some (\<lambda>_. Inr ex_key)) None = Inr v"
    using minted_credential_verifies [of ex_cred_lib ex_payload ?k "''aGQ.cGw.c2ln''" ex_seed "\<lambda>_. Inr ex_key" ex_key
        "default_issuer_authorization_check ex_cred_lib (\<lambda>_. Inr [])" 1500 60 "\<lambda>_. Inr []" 0] ex_key_parses ex_payload_wf
    by (auto simp: ex_payload_def default_issuer_authorization_check_def verify_credential_def)
  then obtain narrative q where run: "?run = (Inr narrative, [q])"
    using R by (auto simp: shadowpay_run_def pay_beat_def ex_settled TAMPERED_PAY_TO_def sbind_def sthen_def sres_def sret_def)
  have "records_settlements id (Some ex_pay_sdk)" by (auto simp: records_settlements_def ex_pay_sdk_def sret_def)
  note w = shadowpay_settles_once [OF run this]
  have "env_stripped ex_pay_env ''SHADOWNET_X402_PAY_TO'' = ''ALICEADDR''" by code_simp
  then have "x_pay_to q = ''ALICEADDR''" using w by (auto simp: Let_def usdc_transfer_def)
  with run show ?thesis by blast
qed

end
