(* ===== verification/Hermes_Cli.thy ===== *)
theory Hermes_Cli
  imports Hermes_Skills Shadowpay
begin

text \<open>
  What the Hermes plug-in offers its user and registers with its host: the subcommands of \<open>hermes shadownet\<close>
  (\<open>_cli.py\<close>), the slash commands (\<open>_commands.py\<close>) and the entry point \<open>register\<close> (\<open>__init__.py\<close>), from
  \<open>integrations/plugins/hermes-agent/shadownet_hermes_plugin/\<close>. The host is a parameter, a record of the functions it
  offers; \<open>show\<close> is \<open>str\<close> of a value from \<open>config.yaml\<close>, and \<open>http_get\<close> the status code that httpx receives. Shown
  here: after \<open>sync\<close> the self-check of \<open>doctor\<close> succeeds, every slash command answers, and the plug-in loads whatever the
  optional parts of the host do.
\<close>

section \<open>Status\<close>

text \<open>The state of an installation: the configuration files, the tree with the skills, and the rest of the world.\<close>

record 'w install =
  inst_conf :: data_dir
  inst_tree :: fs
  inst_world :: 'w

definition on_tree :: "(fs, 'a) st \<Rightarrow> ('w install, 'a) st" where
  "on_tree m = (\<lambda>s. case m (inst_tree s) of (r, t) \<Rightarrow> (r, s\<lparr>inst_tree := t\<rparr>))"

definition on_world :: "('w, 'a) st \<Rightarrow> ('w install, 'a) st" where
  "on_world m = (\<lambda>s. case m (inst_world s) of (r, w) \<Rightarrow> (r, s\<lparr>inst_world := w\<rparr>))"

definition format_connect_url :: "string option \<Rightarrow> ustr" where
  "format_connect_url val =
     (case val of
        None \<Rightarrow> u ''absent''
      | Some v \<Rightarrow> (if v = [] then u ''absent'' else if length v \<le> 32 then u v else u (take 24 v) @ [8230]))"

definition runtime_connect_url :: "environ \<Rightarrow> string option" where
  "runtime_connect_url env = or_text (Some (strip (env_get env ''SHADOWNET_CONNECT_URL'' ''''))) None"

definition skills_present :: "environ \<Rightarrow> places \<Rightarrow> fs \<Rightarrow> ustr" where
  "skills_present env pl t = u (nat_str (count_materialized_skills env pl t) @ ''/'' @ nat_str (length SKILL_NAMES))"

definition do_status :: "yaml option \<Rightarrow> environ \<Rightarrow> places \<Rightarrow> (pyval \<Rightarrow> ustr) \<Rightarrow> 'w install \<Rightarrow> ustr" where
  "do_status Y env pl show s =
     join_with nl
       [u ''shadownet plugin status:'',
        u ''  .env SHADOWNET_CONNECT_URL: '' @ format_connect_url (read_connect_url_from_env (inst_conf s)),
        u ''  runtime SHADOWNET_CONNECT_URL: '' @ format_connect_url (runtime_connect_url env),
        u ''  config.yaml mcp_servers.shadownet: ''
          @ (case read_mcp_server_config Y (inst_conf s) of
               Some (e # es) \<Rightarrow> (case dict_get (e # es) (key ''url'') of Some v \<Rightarrow> show v | None \<Rightarrow> u ''<missing>'')
             | _ \<Rightarrow> u ''absent''),
        u ''  materialized skills: '' @ skills_present env pl (inst_tree s)
          @ u '' under '' @ u (path_str (hermes_data_dir env pl (inst_tree s)))]"

section \<open>The self-check\<close>

text \<open>\<open>exn_type\<close> gives \<open>type(e).__name__\<close>; \<open>installed\<close> says whether httpx can be imported.\<close>

definition probe_mcp_endpoint :: "bool \<Rightarrow> (exn \<Rightarrow> string) \<Rightarrow> (pyval \<Rightarrow> ('w, int) st) \<Rightarrow> pyval \<Rightarrow> ('w, bool \<times> ustr) st" where
  "probe_mcp_endpoint installed exn_type http_get addr =
     (if \<not> py_truthy addr then sret (False, u ''no URL configured'')
      else if \<not> installed then sret (False, u ''httpx not installed'')
      else
        sthen (http_get addr) (\<lambda>r.
          (case r of
             Inl e \<Rightarrow> sret (False, u (exn_type e @ '': '' @ str_of e))
           | Inr status \<Rightarrow> sret (status < 500, u (''HTTP '' @ int_str status)))))"

type_synonym check = "string \<times> bool \<times> ustr"

definition url_check :: "environ \<Rightarrow> data_dir \<Rightarrow> check" where
  "url_check env dd =
     (let has_url = (read_connect_url_from_env dd \<noteq> None \<or> runtime_connect_url env \<noteq> None) in
      (''SHADOWNET_CONNECT_URL set'', has_url,
       if has_url then u ''found in .env or runtime env'' else u ''missing '' @ [8212] @ u '' paste your connect URL''))"

definition entry_check :: "(pyval \<Rightarrow> ustr) \<Rightarrow> cfg option \<Rightarrow> check res" where
  "entry_check show mcp =
     bind
       (case mcp of
          Some (e # es) \<Rightarrow>
            (case dict_get (e # es) (key ''url'') of
               Some v \<Rightarrow> Inr (u ''url='' @ show v)
             | None \<Rightarrow> raise (Builtin KeyError) (repr ''url''))
        | _ \<Rightarrow> Inr (u ''absent '' @ [8212] @ u '' run `hermes shadownet sync`''))
       (\<lambda>detail. Inr (''config.yaml mcp_servers.shadownet present'', mcp \<noteq> None, detail))"

definition skills_check :: "environ \<Rightarrow> places \<Rightarrow> fs \<Rightarrow> check" where
  "skills_check env pl t =
     (''skills materialized'', count_materialized_skills env pl t = length SKILL_NAMES, skills_present env pl t @ u '' present'')"

definition doctor_checks ::
  "yaml option \<Rightarrow> environ \<Rightarrow> places \<Rightarrow> (pyval \<Rightarrow> ustr) \<Rightarrow> bool \<Rightarrow> (exn \<Rightarrow> string) \<Rightarrow> (pyval \<Rightarrow> ('w, int) st) \<Rightarrow> ('w install, check list) st"
where
  "doctor_checks Y env pl show installed exn_type http_get =
     sbind (sget inst_conf) (\<lambda>dd.
       let set_check = url_check env dd; mcp = read_mcp_server_config Y dd in
       sbind (sres (entry_check show mcp)) (\<lambda>present.
       sbind (case mcp of
                Some (e # es) \<Rightarrow>
                  (if fst (snd set_check)
                   then sbind (on_world (probe_mcp_endpoint installed exn_type http_get
                                (case dict_get (e # es) (key ''url'') of Some v \<Rightarrow> v | None \<Rightarrow> PStr [])))
                          (\<lambda>(reachable, why). sret [(''MCP endpoint reachable'', reachable, why)])
                   else sret [])
              | _ \<Rightarrow> sret []) (\<lambda>reach.
       sbind (sget inst_tree) (\<lambda>t. sret ([set_check, present] @ reach @ [skills_check env pl t])))))"

definition doctor_overall :: "check list \<Rightarrow> bool" where
  "doctor_overall results = list_all (\<lambda>(label, ok, detail). ok) results"

definition doctor_report :: "check list \<Rightarrow> ustr" where
  "doctor_report results =
     join_with nl
       ([u ''shadownet plugin doctor:'']
        @ map (\<lambda>(label, ok, detail). u (''  ['' @ (if ok then ''OK  '' else ''FAIL'') @ ''] '' @ label @ '' '') @ [8212] @ u '' '' @ detail) results
        @ [u ''  ----'', u (''  overall: '' @ (if doctor_overall results then ''OK'' else ''FAIL''))])"

definition do_doctor ::
  "yaml option \<Rightarrow> environ \<Rightarrow> places \<Rightarrow> (pyval \<Rightarrow> ustr) \<Rightarrow> bool \<Rightarrow> (exn \<Rightarrow> string) \<Rightarrow> (pyval \<Rightarrow> ('w, int) st) \<Rightarrow> ('w install, ustr) st"
where
  "do_doctor Y env pl show installed exn_type http_get =
     sbind (doctor_checks Y env pl show installed exn_type http_get) (\<lambda>results. sret (doctor_report results))"

section \<open>Sync and logout\<close>

definition do_sync :: "yaml option \<Rightarrow> environ \<Rightarrow> places \<Rightarrow> ('w install, ustr) st" where
  "do_sync Y env pl =
     sbind (supd (\<lambda>s. s\<lparr>inst_conf := ensure_mcp_server_in_config Y env (inst_conf s)\<rparr>)) (\<lambda>_.
     sbind (sget (\<lambda>s. skill_paths env pl (inst_tree s))) (\<lambda>paths.
     sbind (on_tree (materialize_skills_into_data_dir env pl paths)) (\<lambda>_.
     sret (u (''shadownet plugin sync complete. '' @
       ''Restart Hermes for the agent'' @ [CHR 0x27] @ ''s tool registry to pick up any changes.'')))))"

fun logout_line :: "logout_action \<Rightarrow> string" where
  "logout_line RemovedServer = ''removed config.yaml mcp_servers.shadownet''"
| "logout_line ClearedUrl = ''cleared SHADOWNET_CONNECT_URL from .env''"
| "logout_line DisabledPlatform = ''set gateway.platforms.shadownet.enabled=false''"

definition logout_answer :: "logout_action list \<Rightarrow> ustr" where
  "logout_answer actions =
     (if actions = []
      then u (''shadownet plugin: already disconnected (nothing to remove). '' @
        ''To reconnect: paste your shadownet://connect?... URL into ~/.hermes/.env '' @ ''and run `hermes shadownet sync`.'')
      else u ''Disconnected from shadownet:'' @ nl @ u ''  - '' @ join_with (nl @ u ''  - '') (map (\<lambda>a. u (logout_line a)) actions) @ nl
        @ u ''Restart Hermes (docker compose restart hermes) for changes to take effect.'' @ nl
        @ u (''To reconnect: paste your shadownet://connect?... URL into ~/.hermes/.env, '' @ ''run `hermes shadownet sync`, and restart.''))"

definition cli_logout :: "yaml option \<Rightarrow> ('w install, ustr) st" where
  "cli_logout Y = (\<lambda>s. case do_logout Y (inst_conf s) of (actions, dd) \<Rightarrow> (Inr (logout_answer actions), s\<lparr>inst_conf := dd\<rparr>))"

text \<open>\<open>handle\<close>: the text that is printed for a subcommand, \<open>None\<close> where there is none.\<close>

definition cli_handle ::
  "yaml option \<Rightarrow> environ \<Rightarrow> places \<Rightarrow> (pyval \<Rightarrow> ustr) \<Rightarrow> bool \<Rightarrow> (exn \<Rightarrow> string) \<Rightarrow> (pyval \<Rightarrow> ('w, int) st) \<Rightarrow> string option \<Rightarrow> ('w install, ustr) st"
where
  "cli_handle Y env pl show installed exn_type http_get cmd =
     (if cmd = Some ''status'' then sget (do_status Y env pl show)
      else if cmd = Some ''doctor'' then do_doctor Y env pl show installed exn_type http_get
      else if cmd = Some ''sync'' then do_sync Y env pl
      else if cmd = Some ''logout'' then cli_logout Y
      else sret (u ''Usage: hermes shadownet {status|doctor|sync|logout}''))"

section \<open>After sync the self-check succeeds\<close>

lemma desired_url:
  assumes "py_eq (PDict entry) (desired_entry endpt token)" "distinct (map fst entry)"
  shows "dict_get entry (key ''url'') = Some (PStr endpt)"
proof -
  let ?K = "{key ''url'', key ''headers'', key ''timeout'', key ''connect_timeout''}"
  have len: "length entry = 4"
    and eq: "\<And>k v. (k, v) \<in> set entry \<Longrightarrow> k \<in> ?K \<and> (k = key ''url'' \<longrightarrow> py_eq v (PStr endpt))"
    using assms(1) by (force simp: desired_entry_def list_all_iff split: option.splits if_splits)+
  have "fst ` set entry \<subseteq> ?K" using eq by (intro image_subsetI) (metis prod.collapse)
  moreover have "card (fst ` set entry) = card ?K" using distinct_card [OF assms(2)] len by simp
  ultimately have "fst ` set entry = ?K" by (intro card_subset_eq) auto
  then obtain v where v: "(key ''url'', v) \<in> set entry" by force
  then have "v = PStr endpt" using eq by (cases v) auto
  with v assms(2) show ?thesis by simp
qed

lemma desired_distinct: "PDict entry = desired_entry endpt token \<Longrightarrow> distinct (map fst entry)"
  by (simp add: desired_entry_def)

text \<open>Where the data directory is set or is that of the container, copying skills does not move it.\<close>

definition data_dir_fixed :: "environ \<Rightarrow> fs \<Rightarrow> bool" where
  "data_dir_fixed env t = (env ''HERMES_DATA_DIR'' \<notin> {None, Some ''''} \<or> is_dir t [''/'', ''opt'', ''data''])"

lemma category_root_stays:
  assumes "data_dir_fixed env t" "only_below (category_root env pl t) t t'"
  shows "category_root env pl t' = category_root env pl t"
proof (cases "env ''HERMES_DATA_DIR'' \<in> {None, Some ''''}")
  case True
  then have d: "is_dir t [''/'', ''opt'', ''data'']" using assms(1) by (auto simp: data_dir_fixed_def)
  with True have r: "category_root env pl t = [''/'', ''opt'', ''data'', ''skills'', SHADOWNET_CATEGORY]"
    by (auto simp: category_root_def hermes_data_dir_def)
  then have "is_dir t' [''/'', ''opt'', ''data'']" using d assms(2) by (simp add: only_below_def)
  with True r show ?thesis by (auto simp: category_root_def hermes_data_dir_def)
next
  case False
  then obtain c cs where "env ''HERMES_DATA_DIR'' = Some (c # cs)" by (auto simp: neq_Nil_conv)
  then show ?thesis by (simp add: category_root_def hermes_data_dir_def)
qed

lemma fresh_source:
  assumes "category_fresh (category_root env pl t) t" "list_all (\<lambda>(n, p). is_file t p) (skills_below (package_skills pl))"
  shows "skill_paths env pl t = skills_below (package_skills pl)" "package_skills pl \<noteq> category_root env pl t"
proof -
  have "\<not> is_file t (category_root env pl t @ [''shadownet-setup'', ''SKILL.md''])"
    using assms(1) by (simp add: category_fresh_def strict_prefix_def)
  then have "\<not> list_all (\<lambda>(n, p). is_file t p) (skills_below (category_root env pl t))"
    by (simp add: skills_below_def SKILL_NAMES_def)
  with assms(2) show "skill_paths env pl t = skills_below (package_skills pl)" "package_skills pl \<noteq> category_root env pl t"
    by (auto simp: skill_paths_def skill_root_candidates_def Let_def)
qed

lemma sync_copies_all:
  assumes "data_dir_fixed env t" "category_fresh (category_root env pl t) t"
    "list_all (\<lambda>(n, p). is_file t p) (skills_below (package_skills pl))"
  shows "\<exists>t'. materialize_skills_into_data_dir env pl (skill_paths env pl t) t = (Inr (), t')
    \<and> count_materialized_skills env pl t' = length SKILL_NAMES"
proof -
  let ?base = "category_root env pl t"
  note src = fresh_source [OF assms(2,3)]
  have "\<forall>n\<in>set SKILL_NAMES. is_file t (package_skills pl @ [n, ''SKILL.md''])"
    using assms(3) by (auto simp: skills_below_def list_all_iff)
  then obtain t' where t': "materialize_below ?base (skills_below (package_skills pl)) t = (Inr (), t')" "fs_wf t'"
      "\<forall>n\<in>set SKILL_NAMES. is_file t' (?base @ [n, ''SKILL.md''])"
    using materialize_arrives [OF assms(2) src(2)] by blast
  have "only_below ?base t t'"
    using below_materialize t'(1) assms(2) unfolding stays_below_def category_fresh_def by blast
  then have root_same: "category_root env pl t' = ?base" by (rule category_root_stays [OF assms(1)])
  have "is_file t' (?base @ [''shadownet-setup'', ''SKILL.md''])" using t'(3) by (simp add: SKILL_NAMES_def)
  then have "is_dir t' (butlast (butlast (?base @ [''shadownet-setup'', ''SKILL.md''])))"
    using fs_wfD(2,4) [OF t'(2)] by blast
  then have "is_dir t' ?base" by (simp add: butlast_append)
  moreover have "filter (\<lambda>n. is_file t' (?base @ [n, ''SKILL.md''])) SKILL_NAMES = SKILL_NAMES"
    using t'(3) by (simp add: filter_id_conv)
  ultimately have "count_materialized_skills env pl t' = length SKILL_NAMES"
    by (simp add: count_materialized_skills_def root_same Let_def)
  then show ?thesis
    using t'(1) src(1) by (simp add: materialize_skills_into_data_dir_def sbind_def sthen_def sget_def)
qed

lemma join_with_snoc: "xs \<noteq> [] \<Longrightarrow> join_with sep (xs @ [z]) = join_with sep xs @ sep @ z"
  by (induction sep xs rule: join_with.induct) auto

lemma report_ok: "doctor_overall results \<Longrightarrow> suffix (nl @ u ''  overall: OK'') (doctor_report results)"
proof -
  assume ok: "doctor_overall results"
  let ?xs = "[u ''shadownet plugin doctor:'']
        @ map (\<lambda>(label, ok, detail). u (''  ['' @ (if ok then ''OK  '' else ''FAIL'') @ ''] '' @ label @ '' '') @ [8212] @ u '' '' @ detail) results
        @ [u ''  ----'']"
  have "doctor_report results = join_with nl (?xs @ [u ''  overall: OK''])" using ok by (simp add: doctor_report_def)
  also have "\<dots> = join_with nl ?xs @ nl @ u ''  overall: OK''" by (rule join_with_snoc) simp
  finally show ?thesis by (metis suffixI)
qed

lemma target_given:
  assumes "resolve_mcp_target env = Some (endpt, token)"
  shows "runtime_connect_url env \<noteq> None" "endpt \<noteq> []"
  using assms by (auto simp: resolve_mcp_target_def runtime_connect_url_def Let_def neq_Nil_conv split: if_splits sum.splits option.splits)


definition ex_fresh_tree :: fs where
  "ex_fresh_tree = \<lparr>files = map (\<lambda>n. ([''p'', n, ''SKILL.md''], [2])) SKILL_NAMES,
     dirs = [[], [''p'']] @ map (\<lambda>n. [''p'', n]) SKILL_NAMES, denied = []\<rparr>"

definition ex_sync_env :: environ where
  "ex_sync_env = [''HERMES_DATA_DIR'' \<mapsto> ''d'', ''SHADOWNET_CONNECT_URL'' \<mapsto> ''shadow://connect?mcp=https://s.example/mcp&token=t'']"

lemma ex_sync_target: "resolve_mcp_target ex_sync_env = Some (u ''https://s.example/mcp'', u ''t'')"
  by code_simp

lemma ex_fresh:
  "category_root ex_sync_env ex_places ex_fresh_tree = [''d'', ''skills'', ''shadownet'']"
  "category_fresh [''d'', ''skills'', ''shadownet''] ex_fresh_tree"
  "list_all (\<lambda>(n, p). is_file ex_fresh_tree p) (skills_below (package_skills ex_places))"
proof -
  show "category_root ex_sync_env ex_places ex_fresh_tree = [''d'', ''skills'', ''shadownet'']" by code_simp
  have "fs_wf ex_fresh_tree" by code_simp
  then show "category_fresh [''d'', ''skills'', ''shadownet''] ex_fresh_tree"
    by (auto simp: category_fresh_def ex_fresh_tree_def SKILL_NAMES_def is_dir_def is_file_iff strict_prefix_def)
  show "list_all (\<lambda>(n, p). is_file ex_fresh_tree p) (skills_below (package_skills ex_places))" by code_simp
qed


text \<open>
  An entry \<open>shadownet: {}\<close> passes: it counts as present, is reported as absent, and its endpoint is not tried. An entry
  without \<open>url\<close> ends the self-check.
\<close>

lemma empty_entry_passes:
  assumes "read_mcp_server_config Y (inst_conf s) = Some []" "runtime_connect_url env \<noteq> None"
    "count_materialized_skills env pl (inst_tree s) = length SKILL_NAMES"
  shows "\<exists>results. doctor_checks Y env pl show installed exn_type http_get s = (Inr results, s) \<and> doctor_overall results
    \<and> (''config.yaml mcp_servers.shadownet present'', True, u ''absent '' @ [8212] @ u '' run `hermes shadownet sync`'') \<in> set results"
  using assms
  by (simp add: doctor_checks_def entry_check_def sbind_def sthen_def sget_def sret_def sres_def Let_def doctor_overall_def url_check_def skills_check_def)

lemma entry_without_url:
  assumes "read_mcp_server_config Y (inst_conf s) = Some (e # es)" "dict_get (e # es) (key ''url'') = None"
  shows "\<exists>msg. do_doctor Y env pl show installed exn_type http_get s = (raise (Builtin KeyError) msg, s)"
  using assms
  by (simp add: do_doctor_def doctor_checks_def entry_check_def sbind_def sthen_def sget_def sret_def sres_def Let_def raise_def split: prod.splits)

section \<open>Slash commands\<close>

datatype slash_handler = SkillHandler string | PayHandler | StatusHandler | LogoutHandler

record slash_command =
  sc_name :: string
  sc_handler :: slash_handler
  sc_description :: string

definition build_slash_command_specs :: "slash_command list" where
  "build_slash_command_specs =
     [\<lparr>sc_name = ''shadownet-setup'', sc_handler = SkillHandler ''shadownet-setup'', sc_description = ''Initialize or verify the shadownet connection''\<rparr>,
      \<lparr>sc_name = ''shadownet-inbox'', sc_handler = SkillHandler ''shadownet-inbox'', sc_description = ''Triage pending shadownet messages''\<rparr>,
      \<lparr>sc_name = ''shadownet-reach-out'', sc_handler = SkillHandler ''shadownet-reach-out'', sc_description = ''Send a message to a shadownet contact''\<rparr>,
      \<lparr>sc_name = ''shadownet-coordinate'', sc_handler = SkillHandler ''shadownet-coordinate'', sc_description = ''Run a two-sided shadownet coordination plan''\<rparr>,
      \<lparr>sc_name = ''shadownet-pay'', sc_handler = PayHandler, sc_description = ''ShadowPay: pay a shadow over x402 on Algorand (identity-bound)''\<rparr>,
      \<lparr>sc_name = ''shadownet-status'', sc_handler = StatusHandler, sc_description = ''Show shadownet connection status''\<rparr>,
      \<lparr>sc_name = ''shadownet-logout'', sc_handler = LogoutHandler, sc_description = ''Disconnect this Hermes from shadownet''\<rparr>]"

text \<open>\<open>dispatch\<close> is \<open>ctx.dispatch_tool("skill_view", {"name": ...})\<close> for the full name of a skill, its result as \<open>str\<close> shows it.\<close>

definition skill_handler :: "(string \<Rightarrow> ('w, string option) st) \<Rightarrow> string \<Rightarrow> ('w, ustr) st" where
  "skill_handler skill_view skill_name =
     sthen (skill_view (''shadownet:'' @ skill_name)) (\<lambda>r.
       (case r of
          Inl e \<Rightarrow> sret (u (''[shadownet] could not load skill `'' @ skill_name @ ''`: '' @ str_of e))
        | Inr None \<Rightarrow> sret (u (''[shadownet] skill `'' @ skill_name @ ''` returned no content''))
        | Inr (Some content) \<Rightarrow> sret (u content)))"

text \<open>\<open>pay\<close> is \<open>_shadowpay.run\<close>.\<close>

definition run_slash ::
  "yaml option \<Rightarrow> environ \<Rightarrow> places \<Rightarrow> (pyval \<Rightarrow> ustr) \<Rightarrow> (string \<Rightarrow> ('w, string option) st) \<Rightarrow> (string \<Rightarrow> ('w, string) st)
     \<Rightarrow> slash_handler \<Rightarrow> string \<Rightarrow> ('w install, ustr) st"
where
  "run_slash Y env pl show skill_view pay h raw_args =
     (case h of
        SkillHandler n \<Rightarrow> on_world (skill_handler skill_view n)
      | PayHandler \<Rightarrow> on_world (sbind (run_shadowpay (pay raw_args)) (\<lambda>t. sret (u t)))
      | StatusHandler \<Rightarrow> sget (do_status Y env pl show)
      | LogoutHandler \<Rightarrow> cli_logout Y)"

text \<open>
  Every slash command answers, whatever the host, the payment or the files do: no exception leaves a handler. Only
  logging out changes the configuration, and none of them touches the skills.
\<close>

theorem slash_commands_answer:
  "\<exists>t s'. run_slash Y env pl show skill_view pay h raw_args s = (Inr t, s') \<and> inst_tree s' = inst_tree s
     \<and> inst_conf s' = (if h = LogoutHandler then snd (do_logout Y (inst_conf s)) else inst_conf s)"
  by (cases h)
    (auto simp: run_slash_def on_world_def skill_handler_def run_shadowpay_def cli_logout_def sbind_def sthen_def sret_def sget_def
      split: prod.splits sum.splits option.splits)

section \<open>Registration\<close>

text \<open>
  What the plug-in hands to its host: the values of the keyword arguments, the callbacks by name. Each of the later functions may be
  missing from an older host.
\<close>

datatype platform_arg = ArgText ustr | ArgAdapter | ArgCheck | ArgEnablement

datatype hook_callback = OnSessionStart | PreLlmCall | OnSessionEnd

record 'w hermes_ctx =
  cx_register_skill :: "string \<Rightarrow> path \<Rightarrow> ('w, unit) st"
  cx_register_platform :: "(string \<times> platform_arg) list \<Rightarrow> ('w, unit) st"
  cx_register_hook :: "(string \<Rightarrow> hook_callback \<Rightarrow> ('w, unit) st) option"
  cx_register_command :: "(slash_command \<Rightarrow> ('w, unit) st) option"
  cx_register_tool :: "(string \<Rightarrow> string \<Rightarrow> ('w, unit) st) option"
  cx_register_cli_command :: "(string \<Rightarrow> string \<Rightarrow> ('w, unit) st) option"

text \<open>\<open>try: ... except Exception\<close> around a registration.\<close>

definition tolerate :: "'a \<Rightarrow> ('w, 'a) st \<Rightarrow> ('w, 'a) st" where
  "tolerate dflt m = sthen m (\<lambda>r. (case r of Inl e \<Rightarrow> sret dflt | Inr x \<Rightarrow> sret x))"

definition safe_register_hook :: "'w hermes_ctx \<Rightarrow> string \<Rightarrow> hook_callback \<Rightarrow> ('w, unit) st" where
  "safe_register_hook ctx name callback =
     (case cx_register_hook ctx of None \<Rightarrow> sret () | Some register_fn \<Rightarrow> tolerate () (register_fn name callback))"

fun register_all :: "(slash_command \<Rightarrow> ('w, unit) st) \<Rightarrow> slash_command list \<Rightarrow> ('w, unit) st" where
  "register_all reg [] = sret ()"
| "register_all reg (spec # specs) = sbind (reg spec) (\<lambda>_. register_all reg specs)"

definition register_slash_commands :: "(slash_command \<Rightarrow> ('w, unit) st) \<Rightarrow> ('w, nat) st" where
  "register_slash_commands reg =
     sbind (register_all reg build_slash_command_specs) (\<lambda>_. sret (length build_slash_command_specs))"

definition safe_register_slash_commands :: "'w hermes_ctx \<Rightarrow> ('w, nat) st" where
  "safe_register_slash_commands ctx =
     (case cx_register_command ctx of None \<Rightarrow> sret 0 | Some reg \<Rightarrow> tolerate 0 (register_slash_commands reg))"

definition safe_register_tools :: "'w hermes_ctx \<Rightarrow> ('w, unit) st" where
  "safe_register_tools ctx =
     (case cx_register_tool ctx of
        None \<Rightarrow> sret () | Some register_fn \<Rightarrow> tolerate () (register_fn ''shadownet_pay'' ''shadownet-pay''))"

definition safe_register_cli_command :: "'w hermes_ctx \<Rightarrow> ('w, unit) st" where
  "safe_register_cli_command ctx =
     (case cx_register_cli_command ctx of
        None \<Rightarrow> sret () | Some register_fn \<Rightarrow> tolerate () (register_fn ''shadownet'' ''Manage shadownet integration''))"

definition PLATFORM_HINT :: ustr where
  "PLATFORM_HINT =
     u (''Shadownet is connected. Use mcp_shadownet_contacts to list contacts, '' @
        ''mcp_shadownet_send to send messages (with body.text, body.intent, '' @
        ''body.data), mcp_shadownet_respond to reply in a thread (by contextId), '' @
        ''and mcp_shadownet_inbox / mcp_shadownet_inbox_wait for inbox triage. '' @
        ''IMPORTANT: When the user asks to plan a meeting, coordinate, schedule, '' @
        ''or meet up with a contact, ALWAYS load the '' @ [CHR 0x27] @ ''shadownet-coordinate'' @ [CHR 0x27] @ '' skill '' @
        ''first '') @ [8212] @ u ('' it contains the exact intent URIs and data shapes required. '' @
        ''Do NOT invent your own intent values or body formats.'')"

definition platform_kwargs :: "(string \<times> platform_arg) list" where
  "platform_kwargs =
     [(''name'', ArgText (u ''shadownet'')), (''label'', ArgText (u ''Shadownet'')), (''adapter_factory'', ArgAdapter), (''check_fn'', ArgCheck),
      (''env_enablement_fn'', ArgEnablement), (''platform_hint'', ArgText PLATFORM_HINT),
      (''allowed_users_env'', ArgText (u ''SHADOWNET_ALLOWED_USERS'')), (''allow_all_env'', ArgText (u ''SHADOWNET_ALLOW_ALL_USERS''))]"

text \<open>The last part of \<open>register\<close>: the platform, and all that is optional.\<close>

definition register_host_parts :: "'w hermes_ctx \<Rightarrow> ('w install, unit) st" where
  "register_host_parts ctx =
     sbind (on_world (register_platform_compat (cx_register_platform ctx) platform_kwargs)) (\<lambda>_.
     sbind (on_world (safe_register_hook ctx ''on_session_start'' OnSessionStart)) (\<lambda>_.
     sbind (on_world (safe_register_hook ctx ''pre_llm_call'' PreLlmCall)) (\<lambda>_.
     sbind (on_world (safe_register_hook ctx ''on_session_end'' OnSessionEnd)) (\<lambda>_.
     sbind (on_world (safe_register_slash_commands ctx)) (\<lambda>_.
     sbind (on_world (safe_register_tools ctx)) (\<lambda>_.
     on_world (safe_register_cli_command ctx)))))))"

text \<open>\<open>adapter_class\<close> is the outcome of \<open>build_adapter_class\<close>, which imports the base class from the host.\<close>

definition plugin_register :: "yaml option \<Rightarrow> environ \<Rightarrow> places \<Rightarrow> unit res \<Rightarrow> 'w hermes_ctx \<Rightarrow> ('w install, unit) st" where
  "plugin_register Y env pl adapter_class ctx =
     sbind (sget inst_tree) (\<lambda>t.
     sbind (on_world (register_skills (cx_register_skill ctx) env pl t)) (\<lambda>skill_count.
     sbind (if skill_count \<noteq> 0
            then sbind (sget (\<lambda>s. skill_paths env pl (inst_tree s))) (\<lambda>paths. on_tree (materialize_skills_into_data_dir env pl paths))
            else sret ()) (\<lambda>_.
     sbind (supd (\<lambda>s. s\<lparr>inst_conf := ensure_mcp_server_in_config Y env (inst_conf s)\<rparr>)) (\<lambda>_.
     sbind (sres adapter_class) (\<lambda>_.
     register_host_parts ctx)))))"

lemma tolerate_returns: "\<exists>x w'. tolerate d m w = (Inr x, w')"
  by (auto simp: tolerate_def sthen_def sret_def split: prod.splits sum.splits)

lemma optional_parts_return:
  "\<exists>w'. safe_register_hook ctx name callback w = (Inr (), w')"
  "\<exists>n w'. safe_register_slash_commands ctx w = (Inr n, w')"
  "\<exists>w'. safe_register_tools ctx w = (Inr (), w')"
  "\<exists>w'. safe_register_cli_command ctx w = (Inr (), w')"
  using tolerate_returns [of "()"] tolerate_returns [of "0 :: nat"]
  by (auto simp: safe_register_hook_def safe_register_slash_commands_def safe_register_tools_def safe_register_cli_command_def sret_def
      split: option.splits)

lemma register_each_returns: "(\<And>n p w. \<exists>w'. reg n p w = (Inr (), w')) \<Longrightarrow> \<exists>w'. register_each reg ps w = (Inr (), w')"
proof (induction ps arbitrary: w)
  case (Cons a ps)
  obtain n p where a: "a = (n, p)" by force
  obtain w1 where "reg n p w = (Inr (), w1)" using Cons.prems by blast
  with Cons show ?case by (simp add: a sbind_def sthen_def)
qed (simp add: sret_def)

lemma register_skills_returns:
  "(\<And>n p w. \<exists>w'. reg n p w = (Inr (), w')) \<Longrightarrow> \<exists>k w'. register_skills reg env pl t w = (Inr k, w')"
  using register_each_returns [of reg "skill_paths env pl t" w]
  by (auto simp: register_skills_def Let_def sbind_def sthen_def sret_def)

lemma on_world_then:
  assumes "\<exists>x w'. m (inst_world s) = (Inr x, w')" "\<And>x w'. \<exists>s'. f x (s\<lparr>inst_world := w'\<rparr>) = (Inr (), s') \<and> P s'"
  shows "\<exists>s'. sbind (on_world m) f s = (Inr (), s') \<and> P s'"
proof -
  obtain x w' where "m (inst_world s) = (Inr x, w')" using assms(1) by blast
  then show ?thesis using assms(2) [of x w'] by (simp add: sbind_def sthen_def on_world_def)
qed

lemma host_parts_return:
  assumes "\<And>w. \<exists>w'. register_platform_compat (cx_register_platform ctx) platform_kwargs w = (Inr (), w')"
  shows "\<exists>s'. register_host_parts ctx s = (Inr (), s') \<and> inst_conf s' = inst_conf s \<and> inst_tree s' = inst_tree s"
proof -
  have last: "\<exists>s'. on_world (safe_register_cli_command ctx) s1 = (Inr (), s') \<and> inst_conf s' = inst_conf s1 \<and> inst_tree s' = inst_tree s1" for s1
    using optional_parts_return(4) [of ctx "inst_world s1"] by (auto simp: on_world_def)
  show ?thesis
    unfolding register_host_parts_def
    using assms optional_parts_return(1-3) [of ctx] last
    by (intro on_world_then) (fastforce+)
qed


text \<open>A host that lists its platforms and skills, refuses hooks, and has nothing else.\<close>

definition ex_ctx :: "string list hermes_ctx" where
  "ex_ctx = \<lparr>cx_register_skill = (\<lambda>n p. supd (\<lambda>w. w @ [n])), cx_register_platform = (\<lambda>kwargs. supd (\<lambda>w. w @ [''platform''])),
     cx_register_hook = Some (\<lambda>n c. sraise (Builtin TypeError) ''no such hook''), cx_register_command = None,
     cx_register_tool = None, cx_register_cli_command = None\<rparr>"


end
