(* ===== verification/Conformance_Report.thy ===== *)
theory Conformance_Report
  imports Plugin_Base Py_Fs
begin

text \<open>
  The report of a conformance run, from \<open>conformance/src/shadownet_conformance/reporters/rfc_json.py\<close> and
  \<open>gha_summary.py\<close>: a pytest plug-in that demands an \<open>rfc\<close> marker of every conformance test, collects the outcome of each
  test under the RFC, section and requirement of its marker, and writes the collection as JSON and as Markdown. Pytest calls
  the hooks; what it hands to them are records here. Shown here: the summary counts every collected outcome once, the entry of a
  requirement is the outcome that came last, and after a collection without complaint every conformance test that runs
  is in the report.
\<close>

section \<open>Outcomes\<close>

definition RFC_REQUIRED_DIRS :: "string list" where
  "RFC_REQUIRED_DIRS = [''provider'', ''issuer'', ''sidecar'', ''envelope'', ''credential'', ''csr'', ''status'', ''agentcard'',
     ''addressing'', ''onboarding'', ''e2e'', ''conformance'']"

text \<open>A duration is the text of the float.\<close>

record test_outcome =
  o_rfc :: string
  o_section :: string
  o_requirement :: string
  o_nodeid :: string
  o_outcome :: string
  o_duration :: string
  o_longrepr :: "string option"

type_synonym conf_report = "test_outcome list"

definition report_add :: "conf_report \<Rightarrow> test_outcome \<Rightarrow> conf_report" where
  "report_add outcomes o1 = outcomes @ [o1]"

text \<open>\<open>by_rfc[rfc][section][requirement] = outcome\<close> on the nested default dictionaries.\<close>

type_synonym by_rfc = "(string \<times> (string \<times> (string \<times> string) list) list) list"

definition nested :: "('k \<times> ('a \<times> 'b) list) list \<Rightarrow> 'k \<Rightarrow> ('a \<times> 'b) list" where
  "nested m k = (case dict_get m k of Some d \<Rightarrow> d | None \<Rightarrow> [])"

definition by_rfc_set :: "test_outcome \<Rightarrow> by_rfc \<Rightarrow> by_rfc" where
  "by_rfc_set o1 m =
     (let sections = nested m (o_rfc o1); reqs = nested sections (o_section o1) in
      dict_set (o_rfc o1) (dict_set (o_section o1) (dict_set (o_requirement o1) (o_outcome o1) reqs) sections) m)"

definition count_outcome :: "test_outcome \<Rightarrow> (string \<times> int) list \<Rightarrow> (string \<times> int) list" where
  "count_outcome o1 summary =
     (let s = dict_set ''total'' (the (dict_get summary ''total'') + 1) summary in
      case dict_get s (o_outcome o1) of
        Some n \<Rightarrow> dict_set (o_outcome o1) (n + 1) s
      | None \<Rightarrow> s)"

definition summary_of :: "conf_report \<Rightarrow> (string \<times> int) list" where
  "summary_of outcomes =
     fold count_outcome outcomes [(''passed'', 0), (''failed'', 0), (''skipped'', 0), (''total'', 0)]"

definition by_rfc_of :: "conf_report \<Rightarrow> by_rfc" where
  "by_rfc_of outcomes = fold by_rfc_set outcomes []"

definition outcome_json :: "test_outcome \<Rightarrow> json" where
  "outcome_json o1 =
     JObj [(''rfc'', JStr (o_rfc o1)), (''section'', JStr (o_section o1)), (''requirement'', JStr (o_requirement o1)),
       (''nodeid'', JStr (o_nodeid o1)), (''outcome'', JStr (o_outcome o1)), (''duration_seconds'', JFloat (o_duration o1)),
       (''longrepr'', case o_longrepr o1 of None \<Rightarrow> JNull | Some t \<Rightarrow> JStr t)]"

definition by_rfc_json :: "by_rfc \<Rightarrow> json" where
  "by_rfc_json m =
     JObj (map (\<lambda>(r, sections). (r, JObj (map (\<lambda>(sc, reqs). (sc, JObj (map (\<lambda>(q, o1). (q, JStr o1)) reqs))) sections))) m)"

definition report_json :: "conf_report \<Rightarrow> json" where
  "report_json outcomes =
     JObj [(''version'', JStr ''0.1''), (''tool_version'', JStr ''0.5.0''),
       (''summary'', JObj (map (\<lambda>(k, n). (k, JInt n)) (summary_of outcomes))),
       (''by_rfc'', by_rfc_json (by_rfc_of outcomes)), (''tests'', JList (map outcome_json outcomes))]"

section \<open>Hooks\<close>

text \<open>What pytest knows of a test: its id and the arguments of its closest \<open>rfc\<close> marker.\<close>

record rfc_marker =
  m_args :: "json list"
  m_kwargs :: obj

record test_item =
  i_nodeid :: string
  i_marker :: "rfc_marker option"

datatype phase = Setup | Call | Teardown

datatype verdict = Passed | Failed | Skipped

record test_report =
  r_when :: phase
  r_verdict :: verdict
  r_duration :: string
  r_longrepr :: "string option"

text \<open>\<open>nodeid.split("::", 1)[0]\<close>.\<close>

fun before_colons :: "string \<Rightarrow> string" where
  "before_colons [] = []"
| "before_colons (c # cs) = (if prefix ''::'' (c # cs) then [] else c # before_colons cs)"

definition is_in_required_dir :: "test_item \<Rightarrow> bool" where
  "is_in_required_dir i =
     (case path_of (before_colons (i_nodeid i)) of
        a # b # _ \<Rightarrow> a = ''tests'' \<and> b \<in> set RFC_REQUIRED_DIRS
      | _ \<Rightarrow> False)"

definition kwarg_set :: "rfc_marker \<Rightarrow> string \<Rightarrow> bool" where
  "kwarg_set m k = (case dict_get (m_kwargs m) k of Some v \<Rightarrow> truthy v | None \<Rightarrow> False)"

definition marker_complaint :: "test_item \<Rightarrow> ustr option" where
  "marker_complaint i =
     (if \<not> is_in_required_dir i then None
      else
        (case i_marker i of
           None \<Rightarrow> Some (u (i_nodeid i))
         | Some m \<Rightarrow>
             (if m_args m = [] then Some (u (i_nodeid i))
              else if \<not> kwarg_set m ''section'' \<or> \<not> kwarg_set m ''requirement''
              then Some (u (i_nodeid i) @ u '' '' @ [0x2014] @ u '' rfc marker missing section= or requirement='')
              else None)))"

text \<open>\<open>pytest_collection_modifyitems\<close>: the text of the \<open>ConformanceError\<close> it raises, if any.\<close>

definition pytest_collection_modifyitems :: "test_item list \<Rightarrow> ustr option" where
  "pytest_collection_modifyitems items =
     (let missing = List.map_filter marker_complaint items in
      if missing = [] then None
      else Some (u ''the following tests are under tests/{'' @ u (join_with '','' RFC_REQUIRED_DIRS)
        @ u ''}/ but lack a complete rfc(number, section=..., requirement=...) marker:'' @ nl @ u ''  ''
        @ join_with (nl @ u ''  '') missing))"

definition verdict_str :: "verdict \<Rightarrow> string" where
  "verdict_str v = (case v of Passed \<Rightarrow> ''passed'' | Skipped \<Rightarrow> ''skipped'' | Failed \<Rightarrow> ''failed'')"

definition pytest_runtest_makereport :: "test_item \<Rightarrow> test_report \<Rightarrow> conf_report \<Rightarrow> conf_report" where
  "pytest_runtest_makereport i r report =
     (if r_when r \<noteq> Call \<and> \<not> (r_when r = Setup \<and> r_verdict r = Skipped) then report
      else
        (case i_marker i of
           None \<Rightarrow> report
         | Some m \<Rightarrow>
             (case (m_args m, dict_get (m_kwargs m) ''section'', dict_get (m_kwargs m) ''requirement'') of
                (number # _, Some sc, Some req) \<Rightarrow>
                  report_add report
                    \<lparr>o_rfc = str_json number, o_section = str_json sc, o_requirement = str_json req, o_nodeid = i_nodeid i,
                     o_outcome = verdict_str (r_verdict r), o_duration = r_duration r,
                     o_longrepr = (if r_verdict r = Failed then r_longrepr r else None)\<rparr>
              | _ \<Rightarrow> report)))"

section \<open>Markdown\<close>

definition outcome_glyph :: "string \<Rightarrow> ustr" where
  "outcome_glyph o1 =
     (case map_of [(''passed'', [0x2713]), (''failed'', [0x2717]), (''skipped'', [0x2014])] o1 of Some g \<Rightarrow> g | None \<Rightarrow> u ''?'')"

definition sorted_members :: "(string \<times> 'a) list \<Rightarrow> (string \<times> 'a) list" where
  "sorted_members d = sort_key (\<lambda>(k, v). u k) d"

definition requirement_line :: "string \<Rightarrow> string \<times> string \<Rightarrow> ustr" where
  "requirement_line sc req =
     u ''| '' @ u sc @ u '' | `'' @ u (fst req) @ u ''` | '' @ outcome_glyph (snd req) @ u '' '' @ u (snd req) @ u '' |''"

definition rfc_lines :: "string \<times> (string \<times> (string \<times> string) list) list \<Rightarrow> ustr list" where
  "rfc_lines r =
     [u ''### RFC-'' @ u (fst r), [], u ''| Section | Requirement | Result |'', u ''| --- | --- | --- |'']
     @ concat (map (\<lambda>(sc, reqs). map (requirement_line sc) (sorted_members reqs)) (sorted_members (snd r)))
     @ [[]]"

definition render_summary_markdown :: "conf_report \<Rightarrow> ustr" where
  "render_summary_markdown report =
     (let n = (\<lambda>k. u (int_str (case dict_get (summary_of report) k of Some i \<Rightarrow> i | None \<Rightarrow> 0))) in
      join_with nl
        ([u ''## Shadownet conformance'', [],
          u ''**Total '' @ n ''total'' @ u ''** '' @ [0x2014] @ u '' passed '' @ n ''passed'' @ u '', failed '' @ n ''failed''
            @ u '', skipped '' @ n ''skipped'', []]
         @ concat (map rfc_lines (sorted_members (by_rfc_of report)))))"

section \<open>The end of the session\<close>

definition CONFIG_ENV_PATH :: string where
  "CONFIG_ENV_PATH = ''_SHADOWNET_CONFORMANCE_CONFIG''"

definition serialized_config :: "lib \<Rightarrow> environ \<Rightarrow> json option res" where
  "serialized_config L env =
     (case env CONFIG_ENV_PATH of
        None \<Rightarrow> Inr None
      | Some t \<Rightarrow> (if t = '''' then Inr None else bind (json_loads L (encode_utf8 t)) (\<lambda>v. Inr (Some v))))"

definition config_path :: "lib \<Rightarrow> environ \<Rightarrow> string \<Rightarrow> path option res" where
  "config_path L env attr =
     bind (serialized_config L env) (\<lambda>cfg.
       (case cfg of
          None \<Rightarrow> Inr None
        | Some (JObj d) \<Rightarrow>
            (case dict_get d attr of
               Some (JStr p) \<Rightarrow> Inr (if p = '''' then None else Some (path_of p))
             | _ \<Rightarrow> Inr None)
        | Some v \<Rightarrow> raise (Builtin AttributeError) (repr (type_name v) @ '' object has no attribute '' @ repr ''get'')))"

definition text_bytes :: "ustr \<Rightarrow> bytes" where
  "text_bytes s = map word_of_nat (utf8 s)"

definition pytest_sessionfinish :: "lib \<Rightarrow> environ \<Rightarrow> conf_report option \<Rightarrow> (fs, unit) st" where
  "pytest_sessionfinish L env report =
     (case report of
        None \<Rightarrow> sret ()
      | Some rep \<Rightarrow>
          sbind (sres (config_path L env ''report_json'')) (\<lambda>rp.
          sbind
            (case rp of
               None \<Rightarrow> sret ()
             | Some p \<Rightarrow>
                 sbind (mkdir_parents (path_parent p)) (\<lambda>_.
                 write_file p (text_bytes (dumps_indent 0 (report_json rep) @ nl))))
            (\<lambda>_.
          sbind (sres (config_path L env ''gha_summary'')) (\<lambda>sp.
            (case sp of
               None \<Rightarrow> sret ()
             | Some p \<Rightarrow> append_file p (text_bytes (render_summary_markdown rep @ nl)))))))"

section \<open>What the report says\<close>

text \<open>The entry of a requirement in the nested dictionaries, and the outcomes collected for it.\<close>

definition requirement_entry :: "by_rfc \<Rightarrow> string \<Rightarrow> string \<Rightarrow> string \<Rightarrow> string option" where
  "requirement_entry m r sc q = dict_get (nested (nested m r) sc) q"

definition concerns :: "string \<Rightarrow> string \<Rightarrow> string \<Rightarrow> test_outcome \<Rightarrow> bool" where
  "concerns r sc q o1 = (o_rfc o1 = r \<and> o_section o1 = sc \<and> o_requirement o1 = q)"

lemma nested_set: "nested (dict_set k d m) k' = (if k = k' then d else nested m k')"
  by (simp add: nested_def)

lemma by_rfc_set_entry:
  "requirement_entry (by_rfc_set o1 m) r sc q = (if concerns r sc q o1 then Some (o_outcome o1) else requirement_entry m r sc q)"
  by (auto simp: requirement_entry_def by_rfc_set_def concerns_def nested_set Let_def)

lemma by_rfc_fold:
  "requirement_entry (fold by_rfc_set os m) r sc q =
     (case filter (concerns r sc q) os of [] \<Rightarrow> requirement_entry m r sc q | fs \<Rightarrow> Some (o_outcome (last fs)))"
  by (induction os arbitrary: m) (auto simp: by_rfc_set_entry split: list.splits)

text \<open>
  The RFC-keyed part of the report holds for every requirement the outcome that was collected last for it, whatever was
  collected before: when several tests carry the same requirement, a failure among the earlier ones does not show there.
\<close>

theorem requirement_is_last_outcome:
  "requirement_entry (by_rfc_of os) r sc q =
     (case filter (concerns r sc q) os of [] \<Rightarrow> None | fs \<Rightarrow> Some (o_outcome (last fs)))"
  unfolding by_rfc_of_def by_rfc_fold by (simp add: requirement_entry_def nested_def split: list.splits)

definition known_outcomes :: "string set" where
  "known_outcomes = {''passed'', ''failed'', ''skipped''}"

abbreviation tally :: "string \<Rightarrow> conf_report \<Rightarrow> int" where
  "tally k os \<equiv> int (length (filter (\<lambda>o1. o_outcome o1 = k) os))"

definition counts :: "(string \<times> int) list \<Rightarrow> int \<Rightarrow> int \<Rightarrow> int \<Rightarrow> int \<Rightarrow> bool" where
  "counts s p f k t =
     (dict_get s ''passed'' = Some p \<and> dict_get s ''failed'' = Some f \<and> dict_get s ''skipped'' = Some k \<and> dict_get s ''total'' = Some t)"

lemma count_outcome_counts:
  assumes "counts s p f k t" "o_outcome o1 \<in> known_outcomes"
  shows "counts (count_outcome o1 s) (p + tally ''passed'' [o1]) (f + tally ''failed'' [o1]) (k + tally ''skipped'' [o1]) (t + 1)"
  using assms by (auto simp: counts_def count_outcome_def known_outcomes_def Let_def)

lemma fold_counts:
  "counts s p f k t \<Longrightarrow> \<forall>o1\<in>set os. o_outcome o1 \<in> known_outcomes \<Longrightarrow>
     counts (fold count_outcome os s) (p + tally ''passed'' os) (f + tally ''failed'' os) (k + tally ''skipped'' os) (t + int (length os))"
proof (induction os arbitrary: s p f k t)
  case (Cons o1 os)
  have tl: "tally v (o1 # os) = tally v [o1] + tally v os" for v by simp
  from Cons.IH [OF count_outcome_counts [OF Cons.prems(1), of o1]] Cons.prems(2) show ?case
    unfolding tl by (simp add: algebra_simps del: filter.simps)
qed simp

lemma summary_counts:
  assumes "\<forall>o1\<in>set os. o_outcome o1 \<in> known_outcomes"
  shows "counts (summary_of os) (tally ''passed'' os) (tally ''failed'' os) (tally ''skipped'' os) (int (length os))"
  using fold_counts [OF _ assms, of _ 0 0 0 0] by (simp add: summary_of_def counts_def)

text \<open>The reports that pytest made, in order, with the tests they are about.\<close>

definition session_report :: "(test_item \<times> test_report) list \<Rightarrow> conf_report" where
  "session_report calls = fold (\<lambda>(i, r). pytest_runtest_makereport i r) calls []"

lemma collected_marker:
  assumes "pytest_collection_modifyitems items = None" "i \<in> set items" "is_in_required_dir i"
  shows "marker_complaint i = None"
proof (rule ccontr)
  assume "marker_complaint i \<noteq> None"
  then have "List.map_filter marker_complaint items \<noteq> []"
    using assms(2) by (induction items) (auto simp: List.map_filter_simps split: option.splits)
  with assms(1) show False by (simp add: pytest_collection_modifyitems_def Let_def)
qed

text \<open>
  What the report should hold for a report of pytest: one entry for the call of a test and for a test that its set-up skipped, none for
  any other phase. The entry carries the test's id, the number, section and requirement of its marker, the verdict, the duration,
  and the failure text of a failed test.
\<close>

definition reported :: "test_item \<times> test_report \<Rightarrow> bool" where
  "reported run1 = (case run1 of (i, r) \<Rightarrow> r_when r = Call \<or> r_when r = Setup \<and> r_verdict r = Skipped)"

definition describes :: "test_item \<times> test_report \<Rightarrow> test_outcome \<Rightarrow> bool" where
  "describes run1 o1 =
     (case run1 of (i, r) \<Rightarrow>
        o_nodeid o1 = i_nodeid i
        \<and> (\<exists>m number rest sc req. i_marker i = Some m \<and> m_args m = number # rest
             \<and> dict_get (m_kwargs m) ''section'' = Some sc \<and> dict_get (m_kwargs m) ''requirement'' = Some req
             \<and> o_rfc o1 = str_json number \<and> o_section o1 = str_json sc \<and> o_requirement o1 = str_json req)
        \<and> (r_verdict r = Passed \<longrightarrow> o_outcome o1 = ''passed'') \<and> (r_verdict r = Failed \<longrightarrow> o_outcome o1 = ''failed'')
        \<and> (r_verdict r = Skipped \<longrightarrow> o_outcome o1 = ''skipped'')
        \<and> o_duration o1 = r_duration r \<and> o_longrepr o1 = (if r_verdict r = Failed then r_longrepr r else None))"

definition having :: "verdict \<Rightarrow> (test_item \<times> test_report) list \<Rightarrow> int" where
  "having v runs = int (length (filter (\<lambda>(i, r). reported (i, r) \<and> r_verdict r = v) runs))"

lemma run_recorded:
  assumes "marker_complaint i = None" "is_in_required_dir i"
  shows "\<exists>os. pytest_runtest_makereport i r rep = rep @ os \<and> list_all2 describes (filter reported [(i, r)]) os"
proof -
  obtain m number rest sc req where m: "i_marker i = Some m" "m_args m = number # rest"
    "dict_get (m_kwargs m) ''section'' = Some sc" "dict_get (m_kwargs m) ''requirement'' = Some req"
    using assms by (auto simp: marker_complaint_def kwarg_set_def neq_Nil_conv split: option.splits if_splits)
  show ?thesis
  proof (cases "reported (i, r)")
    case True
    with m show ?thesis
      by (cases "r_verdict r")
        (auto simp: pytest_runtest_makereport_def report_add_def reported_def describes_def verdict_str_def)
  qed (auto simp: pytest_runtest_makereport_def reported_def)
qed

lemma session_fold:
  assumes "\<forall>(i, r)\<in>set runs. marker_complaint i = None \<and> is_in_required_dir i"
  shows "\<exists>os. fold (\<lambda>(i, r). pytest_runtest_makereport i r) runs rep = rep @ os \<and> list_all2 describes (filter reported runs) os"
  using assms
proof (induction runs arbitrary: rep)
  case (Cons x runs)
  obtain i r where x: "x = (i, r)" by force
  then obtain os where os: "pytest_runtest_makereport i r rep = rep @ os" "list_all2 describes (filter reported [x]) os"
    using Cons.prems run_recorded [of i r rep] by auto
  obtain os' where "fold (\<lambda>(i, r). pytest_runtest_makereport i r) runs (rep @ os) = (rep @ os) @ os'"
    "list_all2 describes (filter reported runs) os'"
    using Cons.IH [of "rep @ os"] Cons.prems by auto
  moreover have "filter reported (x # runs) = filter reported [x] @ filter reported runs" by simp
  ultimately show ?case
    using os x by (intro exI [of _ "os @ os'"]) (auto intro: list_all2_appendI simp del: filter.simps)
qed simp

lemma tally_describes:
  "list_all2 describes rs os \<Longrightarrow>
     (\<forall>o1\<in>set os. o_outcome o1 \<in> known_outcomes)
     \<and> tally ''passed'' os = int (length (filter (\<lambda>(i, r). r_verdict r = Passed) rs))
     \<and> tally ''failed'' os = int (length (filter (\<lambda>(i, r). r_verdict r = Failed) rs))
     \<and> tally ''skipped'' os = int (length (filter (\<lambda>(i, r). r_verdict r = Skipped) rs))"
proof (induction rule: list_all2_induct)
  case (Cons x xs o1 os)
  obtain i r where x: "x = (i, r)" by force
  with Cons show ?case by (cases "r_verdict r") (auto simp: describes_def known_outcomes_def)
qed simp

text \<open>
  C36: no conformance test is lost, and none is reported that has no verdict. When collection raised no complaint, the report of a run
  over the conformance directories, in whatever phases and order pytest reports, holds exactly one entry, in order, for each call of a test and
  each test skipped in its set-up, and nothing for any other phase. The entry has the test's id, its RFC number, section and
  requirement, its duration, \<open>passed\<close>, \<open>failed\<close> or \<open>skipped\<close> as the verdict was, and the failure text of a failed test only. The
  summary has exactly the numbers of passed, failed, skipped and all of them.
\<close>

theorem conformance_tests_reported:
  assumes "pytest_collection_modifyitems items = None" and "\<forall>(i, r)\<in>set runs. i \<in> set items \<and> is_in_required_dir i"
  shows "list_all2 describes (filter reported runs) (session_report runs)
    \<and> counts (summary_of (session_report runs)) (having Passed runs) (having Failed runs) (having Skipped runs)
        (int (length (filter reported runs)))"
proof -
  have "\<forall>(i, r)\<in>set runs. marker_complaint i = None \<and> is_in_required_dir i"
    using assms collected_marker by blast
  then have rep: "list_all2 describes (filter reported runs) (session_report runs)"
    using session_fold [of runs "[]"] by (auto simp: session_report_def)
  have "int (length (filter (\<lambda>(i, r). r_verdict r = v) (filter reported runs))) = having v runs" for v
    by (simp add: having_def case_prod_unfold conj_commute)
  then show ?thesis
    using rep tally_describes [OF rep] summary_counts [of "session_report runs"] list_all2_lengthD [OF rep] by simp
qed

definition ex_item :: test_item where
  "ex_item = \<lparr>i_nodeid = ''tests/envelope/test_hash.py::test_binds'', i_marker = Some \<lparr>m_args = [JStr ''0001''],
     m_kwargs = [(''section'', JStr ''8.3''), (''requirement'', JStr ''hash-binds'')]\<rparr>\<rparr>"

definition ex_call :: "verdict \<Rightarrow> test_report" where
  "ex_call v = \<lparr>r_when = Call, r_verdict = v, r_duration = ''0.1'', r_longrepr = None\<rparr>"

definition ex_setup :: "verdict \<Rightarrow> test_report" where
  "ex_setup v = \<lparr>r_when = Setup, r_verdict = v, r_duration = ''0.0'', r_longrepr = None\<rparr>"

theorem conformance_tests_reported_witness:
  "pytest_collection_modifyitems [ex_item] = None
   \<and> counts (summary_of (session_report [(ex_item, ex_setup Passed), (ex_item, ex_call Failed), (ex_item, ex_setup Skipped)])) 0 1 1 2"
proof -
  have c: "pytest_collection_modifyitems [ex_item] = None" "is_in_required_dir ex_item" by code_simp+
  have "\<forall>(i, r)\<in>set [(ex_item, ex_setup Passed), (ex_item, ex_call Failed), (ex_item, ex_setup Skipped)].
      i \<in> set [ex_item] \<and> is_in_required_dir i"
    using c(2) by simp
  from conformance_tests_reported [OF c(1) this] show ?thesis using c(1) by (simp add: having_def reported_def ex_call_def ex_setup_def)
qed

text \<open>
  Two gaps: a requirement whose first test failed and whose second test passed is reported as passed, and a test whose fixture fails is
  never called, so that its error is in no part of the report.
\<close>

theorem failure_hidden_by_later_pass:
  "requirement_entry (by_rfc_of (session_report [(ex_item, ex_call Failed), (ex_item, ex_call Passed)])) ''0001'' ''8.3'' ''hash-binds''
     = Some ''passed''"
  by code_simp

theorem setup_error_unreported:
  "r_when r = Setup \<Longrightarrow> r_verdict r = Failed \<Longrightarrow> pytest_runtest_makereport i r rep = rep"
  by (simp add: pytest_runtest_makereport_def)

end
