(* ===== verification/Conformance_Config.thy ===== *)
theory Conformance_Config
  imports Conformance_Report
begin

text \<open>
  The configuration of a conformance run, from \<open>conformance/src/shadownet_conformance/config.py\<close>, and the command that starts it, from
  \<open>cli.py\<close>. The arguments come parsed by \<open>argparse\<close> (a record here), \<open>float()\<close> of a text and \<open>pytest.main\<close> are parameters. Shown here: which lists of
  targets are accepted, that each role has at most one target, and that the report plug-in finds the path the user gave on the
  command line.
\<close>

section \<open>Targets\<close>

definition ENV_PREFIX :: string where
  "ENV_PREFIX = ''SHADOWNET_CONFORMANCE_''"

datatype Role = PROVIDER | ISSUER | SIDECAR

fun role_value :: "Role \<Rightarrow> string" where
  "role_value PROVIDER = ''provider''"
| "role_value ISSUER = ''issuer''"
| "role_value SIDECAR = ''sidecar''"

definition roles :: "Role list" where
  "roles = [PROVIDER, ISSUER, SIDECAR]"

definition role_of :: "string \<Rightarrow> Role option" where
  "role_of s = List.find (\<lambda>r. role_value r = s) roles"

definition config_error :: "string \<Rightarrow> 'a res" where
  "config_error m = raise (Conf ConfigError) m"

fun parse_targets :: "string list \<Rightarrow> (Role \<times> string) list \<Rightarrow> (Role \<times> string) list res" where
  "parse_targets [] out = Inr out"
| "parse_targets (item # items) out =
     (if CHR ''='' \<notin> set item then config_error (''--target must be of the form ROLE=URL, got: '' @ repr item)
      else
        (case partition_on (CHR ''='') item of (role_str, url) \<Rightarrow>
           (case role_of (lower (strip role_str)) of
              None \<Rightarrow> config_error (''unknown role '' @ repr role_str @ '' in '' @ repr item @ ''; valid roles: ''
                        @ join_with '', '' (map role_value roles))
            | Some r \<Rightarrow>
                (if dict_get out r \<noteq> None then config_error (''role '' @ repr (role_value r) @ '' given more than once'')
                 else parse_targets items (dict_set r (strip url) out)))))"

definition parse_target_list :: "string list \<Rightarrow> (Role \<times> string) list res" where
  "parse_target_list items = parse_targets items []"

section \<open>The environment\<close>

definition env_list :: "environ \<Rightarrow> string \<Rightarrow> string list" where
  "env_list env key_suffix =
     filter (\<lambda>s. s \<noteq> '''') (map strip (split_on (CHR '','') (case env (ENV_PREFIX @ key_suffix) of Some v \<Rightarrow> v | None \<Rightarrow> '''')))"

definition nonempty :: "string option \<Rightarrow> string option" where
  "nonempty v = (case v of Some (c # cs) \<Rightarrow> Some (c # cs) | _ \<Rightarrow> None)"

definition env_str :: "environ \<Rightarrow> string \<Rightarrow> string option" where
  "env_str env key_suffix = nonempty (env (ENV_PREFIX @ key_suffix))"

definition env_bool :: "environ \<Rightarrow> string \<Rightarrow> bool \<Rightarrow> bool" where
  "env_bool env key_suffix dflt =
     (case env (ENV_PREFIX @ key_suffix) of
        None \<Rightarrow> dflt
      | Some v \<Rightarrow> lower (strip v) \<in> {''1'', ''true'', ''yes'', ''on''})"

definition resolve_gha_summary :: "environ \<Rightarrow> string option \<Rightarrow> path option" where
  "resolve_gha_summary env v =
     (case v of
        None \<Rightarrow> None
      | Some s \<Rightarrow>
          (if s = ''auto'' then map_option path_of (nonempty (env ''GITHUB_STEP_SUMMARY'')) else Some (path_of s)))"

section \<open>The configuration\<close>

record conf_args =
  n_target :: "string list option"
  n_peer_target :: "string list option"
  n_specs_path :: "string option"
  n_http_timeout :: "rat option"
  n_report_junit :: "string option"
  n_report_json :: "string option"
  n_gha_summary :: "string option"
  n_include_draft :: bool
  n_no_network :: bool
  n_marker_expr :: "string option"
  n_test_shadowname :: "string option"

record Config =
  targets :: "(Role \<times> string) list"
  peer_targets :: "(Role \<times> string) list"
  test_shadowname :: "string option"
  specs_path :: path
  http_timeout_seconds :: rat
  report_junit :: "path option"
  report_json_path :: "path option"
  gha_summary :: "path option"
  include_draft :: bool
  include_network :: bool
  marker_expr :: "string option"

definition config_target :: "Config \<Rightarrow> Role \<Rightarrow> string option" where
  "config_target C r = dict_get (targets C) r"

definition config_peer_target :: "Config \<Rightarrow> Role \<Rightarrow> string option" where
  "config_peer_target C r = dict_get (peer_targets C) r"

definition has_round_trip :: "Config \<Rightarrow> Role \<Rightarrow> bool" where
  "has_round_trip C r = (dict_get (targets C) r \<noteq> None \<and> dict_get (peer_targets C) r \<noteq> None)"

definition no_blank_urls :: "(Role \<times> string) list \<Rightarrow> bool" where
  "no_blank_urls ts = list_all (\<lambda>(r, url). strip url \<noteq> '''') ts"

text \<open>\<open>cls(...)\<close>: the one check of the model is \<open>_no_blank_urls\<close>, whose \<open>ValueError\<close> becomes a \<open>ValidationError\<close>.\<close>

definition Config_init :: "lib \<Rightarrow> Config \<Rightarrow> Config res" where
  "Config_init L C =
     (if no_blank_urls (targets C) \<and> no_blank_urls (peer_targets C) then Inr C
      else raise (Lib ValidationError) (validation_text L ''Config'' JNull))"

definition DEFAULT_HTTP_TIMEOUT_SECONDS :: rat where
  "DEFAULT_HTTP_TIMEOUT_SECONDS = 10"

definition or_list :: "string list option \<Rightarrow> string list \<Rightarrow> string list" where
  "or_list given dflt = (case given of Some (x # xs) \<Rightarrow> x # xs | _ \<Rightarrow> dflt)"

definition or_str :: "string option \<Rightarrow> string option \<Rightarrow> string option" where
  "or_str given dflt = (case nonempty given of Some s \<Rightarrow> Some s | None \<Rightarrow> dflt)"

definition from_namespace :: "lib \<Rightarrow> (string \<Rightarrow> rat option) \<Rightarrow> path \<Rightarrow> environ \<Rightarrow> conf_args \<Rightarrow> Config res" where
  "from_namespace L float default_specs env args =
     bind (parse_target_list (or_list (n_target args) (env_list env ''TARGET''))) (\<lambda>ts.
     bind (parse_target_list (or_list (n_peer_target args) (env_list env ''PEER_TARGET''))) (\<lambda>peers.
     bind (case n_http_timeout args of
             Some t \<Rightarrow> Inr t
           | None \<Rightarrow>
               (case env_str env ''HTTP_TIMEOUT'' of
                  None \<Rightarrow> Inr DEFAULT_HTTP_TIMEOUT_SECONDS
                | Some s \<Rightarrow> (case float s of Some t \<Rightarrow> Inr t
                             | None \<Rightarrow> raise (Builtin ValueError) (''could not convert string to float: '' @ repr s)))) (\<lambda>timeout.
     Config_init L
       \<lparr>targets = ts, peer_targets = peers,
        test_shadowname = or_str (n_test_shadowname args) (env_str env ''TEST_SHADOWNAME''),
        specs_path = (case or_str (n_specs_path args) (env_str env ''SPECS_PATH'') of Some s \<Rightarrow> path_of s | None \<Rightarrow> default_specs),
        http_timeout_seconds = timeout,
        report_junit = map_option path_of (nonempty (n_report_junit args)),
        report_json_path = map_option path_of (nonempty (n_report_json args)),
        gha_summary = resolve_gha_summary env (or_str (n_gha_summary args) (env_str env ''GHA_SUMMARY'')),
        include_draft = (n_include_draft args \<or> env_bool env ''INCLUDE_DRAFT'' False),
        include_network = (\<not> n_no_network args \<and> env_bool env ''INCLUDE_NETWORK'' True),
        marker_expr = or_str (n_marker_expr args) (env_str env ''MARKER_EXPR'')\<rparr>)))"

text \<open>\<open>resolve_schemas_root\<close>, for the directory \<open>bundled\<close> of the package.\<close>

definition resolve_schemas_root :: "fs \<Rightarrow> path \<Rightarrow> path \<Rightarrow> path res" where
  "resolve_schemas_root s bundled specs =
     (if is_dir s (specs @ [''schemas'']) then Inr (specs @ [''schemas''])
      else if is_dir s (specs @ [''_specs'']) then Inr (specs @ [''_specs''])
      else if specs = path_parent bundled \<and> is_dir s bundled then Inr bundled
      else if specs \<noteq> [] \<and> last specs = ''schemas'' \<and> is_dir s specs then Inr specs
      else if is_dir s (bundled @ [''credentials'']) then Inr bundled
      else raise (Builtin FileNotFoundError) (''could not locate a schemas directory under PosixPath('' @ repr (path_str specs) @ '')''
             @ ''; pass --specs-path pointing at a shadownet-specs checkout''))"

section \<open>The command\<close>

record conf_process =
  p_env :: environ
  p_tree :: fs

definition in_tree :: "(fs, 'a) st \<Rightarrow> (conf_process, 'a) st" where
  "in_tree m s = (case m (p_tree s) of (r, t) \<Rightarrow> (r, s\<lparr>p_tree := t\<rparr>))"

definition build_pytest_args :: "path \<Rightarrow> Config \<Rightarrow> (fs, string list) st" where
  "build_pytest_args tests C =
     sbind (sget (\<lambda>s. is_dir s tests)) (\<lambda>there.
       if \<not> there
       then sraise (Conf ConformanceError) (''could not locate the bundled tests/ directory; ''
              @ ''install the package from source or pass paths explicitly to pytest'')
       else
         sbind (case report_junit C of
                  None \<Rightarrow> sret []
                | Some p \<Rightarrow> sbind (mkdir_parents (path_parent p)) (\<lambda>_. sret [''--junit-xml='' @ path_str p])) (\<lambda>junit.
         sret ([path_str tests] @ junit
           @ (case nonempty (marker_expr C) of None \<Rightarrow> [] | Some m \<Rightarrow> [''-m'', m]))))"

text \<open>\<open>config.model_dump_json()\<close>; \<open>num\<close> prints the one float.\<close>

definition opt_json :: "('a \<Rightarrow> json) \<Rightarrow> 'a option \<Rightarrow> json" where
  "opt_json f x = (case x of None \<Rightarrow> JNull | Some y \<Rightarrow> f y)"

definition targets_json :: "(Role \<times> string) list \<Rightarrow> json" where
  "targets_json ts = JObj (map (\<lambda>(r, url). (role_value r, JStr url)) ts)"

definition config_json :: "(rat \<Rightarrow> string) \<Rightarrow> Config \<Rightarrow> json" where
  "config_json num C =
     JObj [(''targets'', targets_json (targets C)), (''peer_targets'', targets_json (peer_targets C)),
       (''test_shadowname'', opt_json JStr (test_shadowname C)), (''specs_path'', JStr (path_str (specs_path C))),
       (''http_timeout_seconds'', JFloat (num (http_timeout_seconds C))),
       (''report_junit'', opt_json (JStr \<circ> path_str) (report_junit C)),
       (''report_json'', opt_json (JStr \<circ> path_str) (report_json_path C)),
       (''gha_summary'', opt_json (JStr \<circ> path_str) (gha_summary C)),
       (''include_draft'', JBool (include_draft C)), (''include_network'', JBool (include_network C)),
       (''marker_expr'', opt_json JStr (marker_expr C))]"

definition serialize_config_for_pytest :: "(rat \<Rightarrow> string) \<Rightarrow> Config \<Rightarrow> (conf_process, unit) st" where
  "serialize_config_for_pytest num C =
     supd (\<lambda>s. s\<lparr>p_env := (p_env s)(CONFIG_ENV_PATH \<mapsto> json_dumps (config_json num C))\<rparr>)"

definition conformance_main ::
  "lib \<Rightarrow> (string \<Rightarrow> rat option) \<Rightarrow> (rat \<Rightarrow> string) \<Rightarrow> (string list \<Rightarrow> (conf_process, int) st) \<Rightarrow> path \<Rightarrow> path \<Rightarrow> conf_args
     \<Rightarrow> (conf_process, int) st"
where
  "conformance_main L float num pytest default_specs tests args =
     sbind (sget p_env) (\<lambda>env.
     (case from_namespace L float default_specs env args of
        Inl e \<Rightarrow> (if is_a e (Conf ConformanceError) then sret 2 else sres (Inl e))
      | Inr C \<Rightarrow>
          sbind (in_tree (build_pytest_args tests C)) (\<lambda>pytest_args.
          sbind (serialize_config_for_pytest num C) (\<lambda>_.
          pytest pytest_args))))"

section \<open>Which targets are accepted\<close>

definition target_of :: "string \<Rightarrow> (Role \<times> string) option" where
  "target_of item =
     (if CHR ''='' \<notin> set item then None
      else (case partition_on (CHR ''='') item of (role_str, url) \<Rightarrow>
              map_option (\<lambda>r. (r, strip url)) (role_of (lower (strip role_str)))))"

lemma update_new: "k \<notin> set (map fst d) \<Longrightarrow> dict_set k v d = d @ [(k, v)]"
  by (induction d) auto

lemma parse_targets_iff:
  "distinct (map fst out) \<Longrightarrow>
     parse_targets items out = Inr res \<longleftrightarrow>
       (\<exists>new. res = out @ new \<and> map target_of items = map Some new \<and> distinct (map fst (out @ new)))"
proof (induction items arbitrary: out)
  case (Cons item items)
  show ?case
  proof (cases "target_of item")
    case None
    then show ?thesis
      by (auto simp: target_of_def config_error_def raise_def split: if_splits prod.splits option.splits)
  next
    case (Some t)
    obtain r url where t: "t = (r, url)" by force
    have step: "parse_targets (item # items) out =
        (if r \<in> set (map fst out) then config_error (''role '' @ repr (role_value r) @ '' given more than once'')
         else parse_targets items (out @ [(r, url)]))"
      using Some t update_new [of r out]
      by (auto simp: target_of_def map_of_eq_None_iff split: if_splits prod.splits option.splits)
    show ?thesis
    proof (cases "r \<in> set (map fst out)")
      case True
      then show ?thesis unfolding step using Some t
        by (auto simp: config_error_def raise_def map_eq_Cons_conv)
    next
      case False
      then have "distinct (map fst (out @ [(r, url)]))" using Cons.prems by simp
      from Cons.IH [OF this] False show ?thesis unfolding step using Some t
        by (auto simp: map_eq_Cons_conv Cons_eq_map_conv)
    qed
  qed
qed auto

text \<open>
  \<open>--target\<close> is accepted exactly when every item is \<open>ROLE=URL\<close> for a known role and no role is given twice; the
  result holds the items in the order they were given.
\<close>

theorem parse_target_list_iff:
  "parse_target_list items = Inr ts \<longleftrightarrow> map target_of items = map Some ts \<and> distinct (map fst ts)"
  using parse_targets_iff [of "[]" items ts] by (auto simp: parse_target_list_def)

section \<open>Paths survive\<close>

definition names_ok :: "string list \<Rightarrow> bool" where
  "names_ok ns = list_all (\<lambda>n. n \<noteq> '''' \<and> n \<noteq> ''.'' \<and> CHR ''/'' \<notin> set n) ns"

lemma path_names:
  obtains root ns where "path_of s = root @ ns" "root \<in> {[], [''/''], [''//'']}" "names_ok ns"
proof -
  let ?ns = "filter (\<lambda>p. p \<noteq> '''' \<and> p \<noteq> ''.'') (split_on (CHR ''/'') s)"
  have ns: "names_ok ?ns" using split_on_no_sep by (auto simp: names_ok_def list_all_iff)
  show thesis by (rule that [OF path_of_def _ ns]) simp
qed

lemma split_names:
  assumes "names_ok ns"
  shows "filter (\<lambda>p. p \<noteq> '''' \<and> p \<noteq> ''.'') (split_on (CHR ''/'') (join_with ''/'' ns)) = ns"
proof (cases "ns = []")
  case False
  with assms have "split_on (CHR ''/'') (join_with ''/'' ns) = ns"
    by (intro split_join) (auto simp: names_ok_def list_all_iff)
  with assms show ?thesis by (auto simp: filter_id_conv names_ok_def list_all_iff)
qed simp

lemma names_no_root:
  assumes "names_ok ns"
  shows "\<not> prefix ''/'' (join_with ''/'' ns)"
proof (cases ns)
  case (Cons n ms)
  with assms obtain c cs where "n = c # cs" "c \<noteq> CHR ''/''" by (cases n) (auto simp: names_ok_def)
  with Cons show ?thesis by (cases ms) auto
qed simp

lemma path_of_names:
  assumes "names_ok ns"
  shows "path_of (join_with ''/'' ns) = ns" "path_of (''/'' @ join_with ''/'' ns) = ''/'' # ns"
    "path_of (''//'' @ join_with ''/'' ns) = ''//'' # ns"
proof -
  let ?j = "join_with ''/'' ns"
  have no: "\<not> prefix ''/'' ?j" "\<not> prefix ''//'' ?j" "\<not> prefix ''//'' (CHR ''/'' # ?j)" "\<not> prefix ''///'' (''//'' @ ?j)"
    using names_no_root [OF assms] by (cases ?j; simp)+
  show "path_of ?j = ns" using no split_names [OF assms] by (simp add: path_of_def)
  show "path_of (''/'' @ ?j) = ''/'' # ns" using no split_names [OF assms] by (simp add: path_of_def)
  show "path_of (''//'' @ ?j) = ''//'' # ns" using no split_names [OF assms] by (simp add: path_of_def)
qed

lemma path_str_names: "names_ok (n # ns) \<Longrightarrow> path_str (n # ns) = join_with ''/'' (n # ns)"
  by (auto simp: path_str_def names_ok_def)

theorem path_roundtrip: "path_of (path_str (path_of s)) = path_of s"
proof -
  obtain root ns where p: "path_of s = root @ ns" "root \<in> {[], [''/''], [''//'']}" "names_ok ns" by (rule path_names)
  note of_names = path_of_names [OF p(3)]
  from p(2) consider "root = []" | "root = [''/'']" | "root = [''//'']" by blast
  then show ?thesis
  proof cases
    case 1
    show ?thesis
    proof (cases ns)
      case Nil
      have "path_of ''.'' = []" by code_simp
      with 1 Nil p(1) show ?thesis by (simp add: path_str_def)
    next
      case (Cons n ms)
      with p(3) path_str_names have "path_str ns = join_with ''/'' ns" by simp
      with 1 p(1) of_names(1) show ?thesis by simp
    qed
  qed (use p(1) of_names(2,3) in \<open>simp_all add: path_str_def\<close>)
qed

text \<open>
  The report plug-in finds the files that were asked for on the command line: when \<open>main\<close> hands the configuration to pytest through the
  environment, the plug-in reads back the paths of the JSON report and of the step summary that the configuration holds. The one
  assumption is that \<open>json.loads\<close> reads what \<open>model_dump_json\<close> wrote.
\<close>

theorem report_paths_reach_plugin:
  assumes "from_namespace L float default_specs env args = Inr C"
    and "json_loads L (encode_utf8 (json_dumps (config_json num C))) = Inr (config_json num C)"
    and "serialize_config_for_pytest num C s = (r, s')"
  shows "config_path L (p_env s') ''report_json'' = Inr (report_json_path C)
    \<and> config_path L (p_env s') ''gha_summary'' = Inr (gha_summary C)"
proof -
  have env: "p_env s' CONFIG_ENV_PATH = Some (json_dumps (config_json num C))" "json_dumps (config_json num C) \<noteq> ''''"
    using assms(3) by (auto simp: serialize_config_for_pytest_def supd_def config_json_def)
  have paths: "\<forall>p. report_json_path C = Some p \<longrightarrow> (\<exists>t. p = path_of t)" "\<forall>p. gha_summary C = Some p \<longrightarrow> (\<exists>t. p = path_of t)"
    using assms(1)
    by (auto simp: from_namespace_def bind_Inr_iff Config_init_def raise_def resolve_gha_summary_def split: if_splits option.splits)
  have str: "path_str (path_of t) \<noteq> ''''" for t
  proof
    assume e: "path_str (path_of t) = ''''"
    then have "path_of t = []" using path_roundtrip [of t] by (simp add: path_of_def)
    with e show False by (simp add: path_str_def)
  qed
  have again: "(case opt_json (JStr \<circ> path_str) q of JStr x \<Rightarrow> Inr (if x = '''' then None else Some (path_of x)) | _ \<Rightarrow> Inr None) = Inr q"
    if "\<forall>p. q = Some p \<longrightarrow> (\<exists>t. p = path_of t)" for q
    using that path_roundtrip str by (cases q) (auto simp: opt_json_def)
  show ?thesis
    using env assms(2) again [OF paths(1)] again [OF paths(2)]
    by (simp add: config_path_def serialized_config_def) (simp add: config_json_def)
qed

text \<open>A URL that is only white space is refused by the model, with an exception that \<open>main\<close> does not turn into exit status 2.\<close>

definition blank_args :: conf_args where
  "blank_args = \<lparr>n_target = Some [''provider= ''], n_peer_target = None, n_specs_path = None, n_http_timeout = None,
     n_report_junit = None, n_report_json = None, n_gha_summary = None, n_include_draft = False, n_no_network = False,
     n_marker_expr = None, n_test_shadowname = None\<rparr>"

theorem blank_url_escapes:
  "\<exists>e. conformance_main L float num pytest ds tests blank_args \<lparr>p_env = (\<lambda>_. None), p_tree = tree\<rparr>
       = (Inl e, \<lparr>p_env = (\<lambda>_. None), p_tree = tree\<rparr>) \<and> cls e = Lib ValidationError"
proof -
  have p: "parse_target_list [''provider= ''] = Inr [(PROVIDER, '''')]" "parse_target_list [] = Inr []" "strip '''' = ''''"
    by code_simp+
  show ?thesis
    by (simp add: conformance_main_def from_namespace_def blank_args_def or_list_def env_list_def p env_str_def nonempty_def
        Config_init_def no_blank_urls_def raise_def is_a_eval sbind_def sthen_def sget_def sres_def)
qed

definition ex_args :: conf_args where
  "ex_args = \<lparr>n_target = Some [''Provider=https://p.example ''], n_peer_target = None, n_specs_path = None, n_http_timeout = None,
     n_report_junit = None, n_report_json = Some ''out//report.json'', n_gha_summary = Some ''auto'', n_include_draft = False,
     n_no_network = False, n_marker_expr = None, n_test_shadowname = None\<rparr>"

definition ex_conf_config :: Config where
  "ex_conf_config = \<lparr>targets = [(PROVIDER, ''https://p.example'')], peer_targets = [], test_shadowname = None, specs_path = [],
     http_timeout_seconds = 10, report_junit = None, report_json_path = Some [''out'', ''report.json''], gha_summary = None,
     include_draft = False, include_network = True, marker_expr = None\<rparr>"

lemma ex_config_read: "from_namespace toy_lib (\<lambda>_. None) [] (\<lambda>_. None) ex_args = Inr ex_conf_config"
proof -
  have "parse_target_list [''Provider=https://p.example ''] = Inr [(PROVIDER, ''https://p.example'')]" "parse_target_list [] = Inr []"
    "path_of ''out//report.json'' = [''out'', ''report.json'']" "strip ''https://p.example'' = ''https://p.example''" "strip '''' = ''''"
    by code_simp+
  then show ?thesis
    by (simp add: from_namespace_def ex_args_def ex_conf_config_def or_list_def env_list_def env_str_def nonempty_def or_str_def
        Config_init_def no_blank_urls_def DEFAULT_HTTP_TIMEOUT_SECONDS_def resolve_gha_summary_def env_bool_def)
qed

theorem report_paths_reach_plugin_witness:
  "\<exists>L. config_path L ((\<lambda>_. None)(CONFIG_ENV_PATH \<mapsto> json_dumps (config_json (\<lambda>_. ''10.0'') ex_conf_config))) ''report_json''
     = Inr (Some [''out'', ''report.json''])"
proof -
  let ?j = "config_json (\<lambda>_. ''10.0'') ex_conf_config" and ?s = "\<lparr>p_env = (\<lambda>_. None), p_tree = \<lparr>files = [], dirs = [[]], denied = []\<rparr>\<rparr>"
  let ?L = "toy_lib\<lparr>json_loads := (\<lambda>_. Inr ?j)\<rparr>"
  have "from_namespace ?L (\<lambda>_. None) [] (\<lambda>_. None) ex_args = Inr ex_conf_config"
    using ex_config_read by (simp add: from_namespace_def Config_init_def bind_Inr_iff split: if_splits)
  from report_paths_reach_plugin [OF this, of "\<lambda>_. ''10.0''" ?s] show ?thesis
    by (auto simp: serialize_config_for_pytest_def supd_def ex_conf_config_def intro!: exI [of _ ?L])
qed

end
