(* ===== verification/Conformance_Emit.thy ===== *)
theory Conformance_Emit
  imports Csr Envelope Agentcard
begin

text \<open>
  The fixture emitter of the conformance suite, from
  \<open>conformance/src/shadownet_conformance/regen/py_emit/__main__.py\<close>: it reads a JSON specification and prints the
  bytes of a key, credential, signing request, envelope, AgentCard or status list, made with the SDK. The
  specification is the decoded JSON object. Shown here: hexadecimal text reads back as the bytes it was
  printed from, so the emitter signs with the key of the seed it was given.
\<close>

section \<open>Hexadecimal\<close>

text \<open>\<open>bytes.fromhex\<close>, which skips white space between bytes, and \<open>bytes.hex\<close>.\<close>

definition hex_value :: "char \<Rightarrow> nat option" where
  "hex_value c =
     (let n = code c in
      if 48 \<le> n \<and> n \<le> 57 then Some (n - 48)
      else if 65 \<le> n \<and> n \<le> 70 then Some (n - 55)
      else if 97 \<le> n \<and> n \<le> 102 then Some (n - 87)
      else None)"

definition ascii_space :: "char \<Rightarrow> bool" where
  "ascii_space c = (code c = 32 \<or> 9 \<le> code c \<and> code c \<le> 13)"

definition not_hex :: "nat \<Rightarrow> 'a res" where
  "not_hex n = raise (Builtin ValueError) (''non-hexadecimal number found in fromhex() arg at position '' @ nat_str n)"

fun fromhex_at :: "nat \<Rightarrow> string \<Rightarrow> bytes res" where
  "fromhex_at n [] = Inr []"
| "fromhex_at n [c] = (if ascii_space c then Inr [] else not_hex (if hex_value c = None then n else Suc n))"
| "fromhex_at n (c # d # cs) =
     (if ascii_space c then fromhex_at (Suc n) (d # cs)
      else
        (case hex_value c of
           None \<Rightarrow> not_hex n
         | Some x \<Rightarrow>
             (case hex_value d of
                None \<Rightarrow> not_hex (Suc n)
              | Some y \<Rightarrow> bind (fromhex_at (Suc (Suc n)) cs) (\<lambda>bs. Inr (word_of_nat (16 * x + y) # bs)))))"

definition fromhex :: "string \<Rightarrow> bytes res" where
  "fromhex s = fromhex_at 0 s"

definition hex_str :: "bytes \<Rightarrow> string" where
  "hex_str bs = concat (map (\<lambda>b. [hex_char (unat b div 16), hex_char (unat b mod 16)]) bs)"

section \<open>Reading a specification\<close>

text \<open>\<open>spec[k]\<close>, and the iteration over a decoded value.\<close>

definition spec_item :: "obj \<Rightarrow> string \<Rightarrow> json res" where
  "spec_item spec k = (case dict_get spec k of Some v \<Rightarrow> Inr v | None \<Rightarrow> raise (Builtin KeyError) (repr k))"

fun iter_json :: "json \<Rightarrow> json list res" where
  "iter_json (JList vs) = Inr vs"
| "iter_json (JStr s) = Inr (map (\<lambda>c. JStr [c]) s)"
| "iter_json (JObj d) = Inr (map (JStr \<circ> fst) d)"
| "iter_json v = raise (Builtin TypeError) (repr (type_name v) @ '' object is not iterable'')"

definition spec_iter :: "obj \<Rightarrow> string \<Rightarrow> json list res" where
  "spec_iter spec k = (case dict_get spec k of None \<Rightarrow> Inr [] | Some v \<Rightarrow> iter_json v)"

definition spec_str :: "obj \<Rightarrow> string \<Rightarrow> string res" where
  "spec_str spec k = bind (spec_item spec k) (\<lambda>v. Inr (str_json v))"

definition spec_int :: "lib \<Rightarrow> obj \<Rightarrow> string \<Rightarrow> int res" where
  "spec_int L spec k = bind (spec_item spec k) (int_json L)"

definition key_from_seed :: "lib \<Rightarrow> json \<Rightarrow> Ed25519KeyPair res" where
  "key_from_seed L seed_hex =
     (case seed_hex of
        JStr h \<Rightarrow> bind (fromhex h) (from_seed L)
      | v \<Rightarrow> raise (Builtin TypeError) (''fromhex() argument must be str, not '' @ type_name v))"

definition spec_key :: "lib \<Rightarrow> obj \<Rightarrow> string \<Rightarrow> Ed25519KeyPair res" where
  "spec_key L spec k = bind (spec_item spec k) (key_from_seed L)"

definition PK_REFERENCE :: string where
  "PK_REFERENCE = ''$pk:''"

definition encoded_keys_of :: "obj \<Rightarrow> json" where
  "encoded_keys_of spec = (case dict_get spec ''encoded_keys'' of None \<Rightarrow> JObj [] | Some v \<Rightarrow> v)"

definition resolve_id :: "json \<Rightarrow> json \<Rightarrow> json res" where
  "resolve_id v keys =
     (case v of
        JStr s \<Rightarrow>
          (if prefix PK_REFERENCE s then
             (case keys of
                JObj ks \<Rightarrow> spec_item ks (drop (length PK_REFERENCE) s)
              | k \<Rightarrow> raise (Builtin TypeError) (repr (type_name k) @ '' is no mapping''))
           else Inr v)
      | _ \<Rightarrow> raise (Builtin AttributeError) (repr (type_name v) @ '' object has no attribute '' @ repr ''startswith''))"

definition spec_id :: "obj \<Rightarrow> string \<Rightarrow> json res" where
  "spec_id spec k = bind (spec_item spec k) (\<lambda>v. resolve_id v (encoded_keys_of spec))"

section \<open>Emitters\<close>

definition jws_line :: "string \<Rightarrow> bytes res" where
  "jws_line jws = bind (encode_ascii jws) (\<lambda>b. Inr (b @ [10]))"

fun sort_members :: "json \<Rightarrow> json" where
  "sort_members (JList vs) = JList (map sort_members vs)"
| "sort_members (JObj ms) = JObj (sort_key (\<lambda>(k, v). map code k) (map (\<lambda>(k, v). (k, sort_members v)) ms))"
| "sort_members v = v"

definition canonical_json :: "json \<Rightarrow> string" where
  "canonical_json v = json_dumps (sort_members v)"

definition emit_key :: "lib \<Rightarrow> obj \<Rightarrow> bytes res" where
  "emit_key L spec =
     bind (spec_key L spec ''seed_hex'') (\<lambda>kp.
     bind (encode_public_key (public_bytes kp)) (\<lambda>pk.
     bind (private_jwk kp) (\<lambda>private.
     Inr (encode_utf8 (canonical_json (JObj [(''public_key'', JStr pk), (''public_jwk'', JObj (public_jwk kp)),
            (''private_jwk'', JObj private)])) @ [10]))))"

definition emit_credential :: "lib \<Rightarrow> obj \<Rightarrow> bytes res" where
  "emit_credential L spec =
     bind (spec_key L spec ''issuer_seed_hex'') (\<lambda>issuer_key.
     bind (spec_id spec ''issuer'') (\<lambda>issuer.
     bind (spec_id spec ''sub'') (\<lambda>sub.
     bind (spec_id spec ''org'') (\<lambda>org.
     bind (spec_int L spec ''iat'') (\<lambda>iat.
     bind (spec_int L spec ''exp'') (\<lambda>exp.
     bind (spec_str spec ''epoch'') (\<lambda>ep.
     bind (spec_int L spec ''idx'') (\<lambda>ix.
     bind (CredentialPayload_model_validate L
             [(''iss'', issuer), (''sub'', sub), (''kind'', JStr ORG_AFFILIATION), (''org'', org), (''iat'', JInt iat),
              (''exp'', JInt exp), (''rev'', JObj [(''epoch'', JStr ep), (''idx'', JInt ix)])]) (\<lambda>p.
     bind (mint_credential L p issuer_key) jws_line)))))))))"

definition emit_csr :: "lib \<Rightarrow> obj \<Rightarrow> bytes res" where
  "emit_csr L spec =
     bind (spec_key L spec ''subject_seed_hex'') (\<lambda>subject_key.
     bind (spec_id spec ''iss'') (\<lambda>iss.
     bind (spec_id spec ''aud'') (\<lambda>aud.
     bind (spec_int L spec ''iat'') (\<lambda>iat.
     bind (spec_int L spec ''exp'') (\<lambda>exp.
     bind (spec_str spec ''req_kind'') (\<lambda>knd.
     bind (spec_id spec ''req_org'') (\<lambda>org.
     bind (CsrPayload_model_validate L
             [(''iss'', iss), (''aud'', aud), (''iat'', JInt iat), (''exp'', JInt exp),
              (''req'', JObj [(''kind'', JStr knd), (''org'', org)])]) (\<lambda>p.
     bind (mint_csr L p subject_key) (\<lambda>jws.
     bind (guard (count_list jws (CHR ''.'') = 2) (Builtin AssertionError) '''') (\<lambda>_.
     jws_line jws))))))))))"

definition emit_envelope :: "lib \<Rightarrow> obj \<Rightarrow> bytes res" where
  "emit_envelope L spec =
     bind (spec_key L spec ''sender_seed_hex'') (\<lambda>sender_key.
     bind (spec_iter spec ''creds_jws'') (\<lambda>creds.
     bind (spec_id spec ''from_id'') (\<lambda>sender.
     bind (spec_id spec ''to_id'') (\<lambda>recipient.
     (let h = (case dict_get spec ''msg_hash'' of Some v \<Rightarrow> (if truthy v then str_json v else ''sha256:placeholder'')
                 | None \<Rightarrow> ''sha256:placeholder'') in
     bind (spec_int L spec ''iat'') (\<lambda>iat.
     bind (spec_int L spec ''exp'') (\<lambda>exp.
     bind (spec_str spec ''body_text'') (\<lambda>txt.
     bind (EnvelopePayload_model_validate L
             [(''v'', JStr ''0.2''), (''sender'', sender), (''recipient'', recipient), (''msg_hash'', JStr h),
              (''iat'', JInt iat), (''exp'', JInt exp), (''body'', JObj [(''text'', JStr txt)]), (''creds'', JList creds)]) (\<lambda>p.
     bind (mint_envelope L p sender_key) jws_line)))))))))"

definition emit_agentcard :: "lib \<Rightarrow> obj \<Rightarrow> bytes res" where
  "emit_agentcard L spec =
     bind (spec_item spec ''mode'') (\<lambda>mode.
     bind (if mode = JStr ''shadowname'' then
             bind (spec_str spec ''name'') (\<lambda>nm.
             bind (spec_str spec ''description'') (\<lambda>descr.
             bind (spec_str spec ''version'') (\<lambda>ver.
             bind (spec_str spec ''a2a_url'') (\<lambda>url.
             bind (spec_key L spec ''subject_seed_hex'') (\<lambda>subject_key.
             bind (encode_public_key (public_bytes subject_key)) (\<lambda>pk.
             bind (spec_key L spec ''provider_seed_hex'') (\<lambda>provider_key.
             bind (spec_str spec ''provider_domain'') (\<lambda>pd.
             build_signed_agent_card L nm descr ver url pk provider_key pd None))))))))
           else if mode = JStr ''direct'' then
             bind (spec_str spec ''name'') (\<lambda>nm.
             bind (spec_str spec ''description'') (\<lambda>descr.
             bind (spec_str spec ''version'') (\<lambda>ver.
             bind (spec_str spec ''a2a_url'') (\<lambda>url.
             bind (spec_key L spec ''subject_seed_hex'') (\<lambda>shadow_key.
             build_direct_signed_agent_card L nm descr ver url shadow_key None)))))
           else raise (Builtin ValueError) (''unknown agentcard mode: '' @ repr_json mode)) (\<lambda>card.
     Inr (encode_utf8 (canonical_json (JObj card)) @ [10])))"

fun revoke_all :: "lib \<Rightarrow> json list \<Rightarrow> StatusList \<Rightarrow> StatusList res" where
  "revoke_all L [] sl = Inr sl"
| "revoke_all L (v # vs) sl = bind (int_json L v) (\<lambda>i. bind (with_revoked sl i) (revoke_all L vs))"

definition emit_status_bitstring :: "lib \<Rightarrow> obj \<Rightarrow> bytes res" where
  "emit_status_bitstring L spec =
     bind (spec_int L spec ''size_bits'') (\<lambda>size.
     bind (spec_iter spec ''revoked_idx'') (\<lambda>revoked.
     bind (revoke_all L revoked (StatusList_empty size)) (\<lambda>sl.
     jws_line (encode_status_list L sl))))"

definition EMITTERS :: "lib \<Rightarrow> (string \<times> (obj \<Rightarrow> bytes res)) list" where
  "EMITTERS L =
     [(''key'', emit_key L), (''credential'', emit_credential L), (''csr'', emit_csr L), (''envelope'', emit_envelope L),
      (''agentcard'', emit_agentcard L), (''status_bitstring'', emit_status_bitstring L)]"

definition emit_dispatch :: "lib \<Rightarrow> string \<Rightarrow> obj \<Rightarrow> bytes res" where
  "emit_dispatch L knd spec =
     (case dict_get (EMITTERS L) knd of
        None \<Rightarrow> raise (Builtin KeyError) (repr knd)
      | Some emit \<Rightarrow> emit spec)"

text \<open>
  \<open>main\<close> for the arguments \<open>[program, kind]\<close>: the exit status and what was written to standard output. An exception
  other than \<open>KeyError\<close> ends the interpreter with status 1.
\<close>

definition py_emit_main :: "lib \<Rightarrow> string \<Rightarrow> obj \<Rightarrow> int \<times> bytes" where
  "py_emit_main L knd spec =
     (case emit_dispatch L knd spec of
        Inr out \<Rightarrow> (0, out)
      | Inl e \<Rightarrow> (if is_a e (Builtin KeyError) then 2 else 1, []))"

section \<open>Round trips\<close>

lemma hex_value_char: "n < 16 \<Longrightarrow> hex_value (hex_char n) = Some n \<and> \<not> ascii_space (hex_char n)"
  by (simp add: hex_value_def hex_char_def ascii_space_def Let_def)

lemma fromhex_hex: "fromhex_at n (hex_str bs) = Inr bs"
proof (induction bs arbitrary: n)
  case (Cons b bs)
  have "unat b < 256" by simp
  then have "hex_value (hex_char (unat b div 16)) = Some (unat b div 16)" "\<not> ascii_space (hex_char (unat b div 16))"
    "hex_value (hex_char (unat b mod 16)) = Some (unat b mod 16)"
    by (simp_all add: hex_value_char less_mult_imp_div_less)
  moreover have "word_of_nat (16 * (unat b div 16) + unat b mod 16) = b" by simp
  ultimately show ?case using Cons.IH by (simp add: hex_str_def)
qed (simp add: hex_str_def)

lemma seed_read:
  "length seed = 32 \<Longrightarrow>
     key_from_seed L (JStr (hex_str seed)) = Inr \<lparr>public_bytes = pk_of_seed L seed, private_raw = Some seed\<rparr>"
  by (simp add: key_from_seed_def fromhex_def fromhex_hex from_seed_def)

end
