(* ===== verification/Conformance_Regen.thy ===== *)
theory Conformance_Regen
  imports Conformance_Emit Mcp Py_Fs
begin

text \<open>
  Regeneration of the conformance fixtures, from \<open>conformance/src/shadownet_conformance/regen/manifest.py\<close> and
  \<open>conformance/src/shadownet_conformance/regen/cli.py\<close>: the seeds and the manifest, the specification handed to the emitter,
  and the command that writes the fixtures or, with \<open>--check\<close>, compares them. The TOML parser is a
  parameter. Shown here: after a regeneration the check finds nothing to complain about, provided that every
  fixture is declared after the credentials it refers to.
\<close>

section \<open>Seeds and manifest\<close>

definition SEED_BYTES :: nat where
  "SEED_BYTES = 32"

definition manifest_error :: "string \<Rightarrow> 'a res" where
  "manifest_error m = raise (Conf ManifestError) m"

definition hex_is_32_bytes :: "string \<Rightarrow> string res" where
  "hex_is_32_bytes v =
     bind (rewrap (fromhex v) (Builtin ValueError) (Builtin ValueError) (\<lambda>m. ''seed hex is not valid hex: '' @ m)) (\<lambda>seed.
       if length seed \<noteq> SEED_BYTES
       then raise (Builtin ValueError) (''seed hex must decode to '' @ nat_str SEED_BYTES @ '' bytes, got '' @ nat_str (length seed))
       else Inr (lower v))"

record Seed =
  seed_hex :: string

definition v_Seed :: "json \<Rightarrow> Seed fres" where
  "v_Seed = on_obj (\<lambda>d. forbid_extra d [[''hex'']]
     (fap (FOk Seed.make) (required_field d [''hex''] (\<lambda>j. after_validator hex_is_32_bytes (v_str j)))))"

fun v_members :: "(json \<Rightarrow> 'a fres) \<Rightarrow> obj \<Rightarrow> (string \<times> 'a) list fres" where
  "v_members f [] = FOk []"
| "v_members f ((k, v) # ms) = fap (fap (FOk (\<lambda>x xs. (k, x) # xs)) (f v)) (v_members f ms)"

definition v_schema_version :: "json \<Rightarrow> int fres" where
  "v_schema_version j = (if j = JInt 2 then FOk 2 else FErr)"

definition v_SeedsFile :: "obj \<Rightarrow> (string \<times> Seed) list fres" where
  "v_SeedsFile d =
     forbid_extra d [[''schema_version''], [''seeds'']]
       (fap (fap (FOk (\<lambda>_ s. s)) (required_field d [''schema_version''] v_schema_version))
          (required_field d [''seeds''] (on_obj (v_members v_Seed))))"

definition FixtureKind :: "string list" where
  "FixtureKind = [''key'', ''credential'', ''csr'', ''envelope'', ''agentcard'', ''status_bitstring'']"

record FixtureEntry =
  f_id :: string
  f_kind :: string
  f_out :: string
  f_spec :: obj

definition v_FixtureEntry :: "json \<Rightarrow> FixtureEntry fres" where
  "v_FixtureEntry = on_obj (\<lambda>d. forbid_extra d [[''id''], [''kind''], [''out''], [''spec'']]
     (fap (fap (fap (fap (FOk FixtureEntry.make)
        (required_field d [''id''] v_str)) (required_field d [''kind''] (v_literal FixtureKind)))
        (required_field d [''out''] v_str)) (required_field d [''spec''] v_obj)))"

definition v_Manifest :: "obj \<Rightarrow> FixtureEntry list fres" where
  "v_Manifest d =
     forbid_extra d [[''schema_version''], [''fixtures'']]
       (fap (fap (FOk (\<lambda>_ f. f)) (required_field d [''schema_version''] v_schema_version))
          (required_field d [''fixtures''] (\<lambda>j. constrain (\<lambda>f. f \<noteq> []) (v_list v_FixtureEntry j))))"

text \<open>\<open>tomllib.loads\<close> is a parameter; its \<open>TOMLDecodeError\<close> is a \<open>ValueError\<close>.\<close>

type_synonym toml = "string \<Rightarrow> obj res"

definition read_toml :: "lib \<Rightarrow> toml \<Rightarrow> path \<Rightarrow> (fs, obj) st" where
  "read_toml L tomllib p =
     sbind (sget (\<lambda>s. is_file s p)) (\<lambda>there.
       if \<not> there then sres (manifest_error (''file not found: '' @ path_str p))
       else
         sbind (read_file p) (\<lambda>raw_bytes.
         sbind (sres (decode_utf8 L raw_bytes)) (\<lambda>txt.
         sres (rewrap (tomllib txt) (Builtin ValueError) (Conf ManifestError)
                 (\<lambda>m. ''invalid TOML at '' @ path_str p @ '': '' @ m)))))"

definition seed_bytes :: "string \<times> Seed \<Rightarrow> (string \<times> bytes) res" where
  "seed_bytes named = bind (fromhex (seed_hex (snd named))) (\<lambda>b. Inr (fst named, b))"

definition load_seeds :: "lib \<Rightarrow> toml \<Rightarrow> path \<Rightarrow> (fs, (string \<times> bytes) list) st" where
  "load_seeds L tomllib p =
     sbind (read_toml L tomllib p) (\<lambda>d.
     sbind (sres (validated L ''SeedsFile'' (JObj d) (v_SeedsFile d))) (\<lambda>parsed.
     sres (map_res seed_bytes parsed)))"

definition load_manifest :: "lib \<Rightarrow> toml \<Rightarrow> path \<Rightarrow> (fs, FixtureEntry list) st" where
  "load_manifest L tomllib p =
     sbind (read_toml L tomllib p) (\<lambda>d. sres (validated L ''Manifest'' (JObj d) (v_Manifest d)))"

section \<open>Specifications\<close>

definition select_entries :: "FixtureEntry list \<Rightarrow> string list option \<Rightarrow> FixtureEntry list" where
  "select_entries fixtures only =
     (case only of
        None \<Rightarrow> fixtures
      | Some wanted \<Rightarrow> (if wanted = [] then fixtures else filter (\<lambda>e. f_id e \<in> set wanted) fixtures))"

fun encoded_keys :: "lib \<Rightarrow> (string \<times> bytes) list \<Rightarrow> obj res" where
  "encoded_keys L [] = Inr []"
| "encoded_keys L ((nm, seed) # seeds) =
     bind (from_seed L seed) (\<lambda>kp.
     bind (encode_public_key (public_bytes kp)) (\<lambda>pk.
     bind (encoded_keys L seeds) (\<lambda>ks. Inr ((nm, JStr pk) # ks))))"

text \<open>\<open>seeds[spec.pop(key)].hex()\<close> under the new name; a name that is no text or no seed raises.\<close>

definition seed_ref :: "(string \<times> bytes) list \<Rightarrow> string \<Rightarrow> string \<Rightarrow> obj \<Rightarrow> obj res" where
  "seed_ref seeds from_key to_key spec =
     (case dict_get spec from_key of
        None \<Rightarrow> Inr spec
      | Some v \<Rightarrow>
          (case v of
             JStr nm \<Rightarrow>
               (case dict_get seeds nm of
                  Some seed \<Rightarrow> Inr (dict_set to_key (JStr (hex_str seed)) (AList.delete from_key spec))
                | None \<Rightarrow> raise (Builtin KeyError) (repr nm))
           | JList _ \<Rightarrow> raise (Builtin TypeError) (''unhashable type: '' @ repr ''list'')
           | JObj _ \<Rightarrow> raise (Builtin TypeError) (''unhashable type: '' @ repr ''dict'')
           | _ \<Rightarrow> raise (Builtin KeyError) (repr_json v)))"

fun seed_refs :: "(string \<times> bytes) list \<Rightarrow> string list \<Rightarrow> obj \<Rightarrow> obj res" where
  "seed_refs seeds [] spec = Inr spec"
| "seed_refs seeds (k # ks) spec = bind (seed_ref seeds k (k @ ''_hex'') spec) (seed_refs seeds ks)"

text \<open>\<open>FIXTURES_ROOT / ref\<close>: an absolute text replaces the root.\<close>

definition path_join :: "path \<Rightarrow> string \<Rightarrow> path" where
  "path_join base s = (if prefix ''/'' s then path_of s else base @ path_of s)"

definition decode_ascii :: "bytes \<Rightarrow> string res" where
  "decode_ascii bs =
     (if list_all (\<lambda>b. unat b < 128) bs then Inr (map char_of_byte bs)
      else raise (Builtin UnicodeDecodeError) ''ordinal not in range(128)'')"

definition cred_ref :: "path \<Rightarrow> (string \<times> bytes) list \<Rightarrow> json \<Rightarrow> (fs, json) st" where
  "cred_ref fixtures written ref =
     (case ref of
        JStr r \<Rightarrow>
          sbind
            (case dict_get written r of
               Some data \<Rightarrow> sret data
             | None \<Rightarrow>
                 sbind (sget (\<lambda>s. is_file s (path_join fixtures r))) (\<lambda>there.
                   if \<not> there then sraise (Conf ConformanceError)
                       (''credential ref '' @ repr r @ '' not yet emitted; declare it earlier in manifest.toml'')
                   else read_file (path_join fixtures r)))
            (\<lambda>data. sbind (sres (decode_ascii data)) (\<lambda>t. sret (JStr (strip t))))
      | _ \<Rightarrow> sraise (Builtin TypeError) ''unsupported operand type for /'')"

fun cred_refs :: "path \<Rightarrow> (string \<times> bytes) list \<Rightarrow> json list \<Rightarrow> (fs, json list) st" where
  "cred_refs fixtures written [] = sret []"
| "cred_refs fixtures written (r # rs) =
     sbind (cred_ref fixtures written r) (\<lambda>x. sbind (cred_refs fixtures written rs) (\<lambda>xs. sret (x # xs)))"

definition resolve_spec ::
  "path \<Rightarrow> FixtureEntry \<Rightarrow> (string \<times> bytes) list \<Rightarrow> obj \<Rightarrow> (string \<times> bytes) list \<Rightarrow> (fs, obj) st"
where
  "resolve_spec fixtures entry seeds keys written =
     sbind (sres (seed_ref seeds ''seed'' ''seed_hex'' (f_spec entry))) (\<lambda>spec0.
     sbind (sres (seed_refs seeds [''issuer_seed'', ''subject_seed'', ''provider_seed'', ''sender_seed''] spec0)) (\<lambda>spec1.
     sbind
       (case dict_get spec1 ''creds'' of
          None \<Rightarrow> sret spec1
        | Some refs \<Rightarrow>
            sbind (sres (iter_json refs)) (\<lambda>rs.
            sbind (cred_refs fixtures written rs) (\<lambda>jws.
            sret (dict_set ''creds_jws'' (JList jws) (AList.delete ''creds'' spec1)))))
       (\<lambda>spec2. sret (dict_set ''encoded_keys'' (JObj keys) spec2))))"

section \<open>The command\<close>

text \<open>The emitter runs in a process of its own; a status other than zero is \<open>CalledProcessError\<close>.\<close>

definition run_py_emit :: "lib \<Rightarrow> FixtureEntry \<Rightarrow> obj \<Rightarrow> bytes res" where
  "run_py_emit L entry spec =
     (case py_emit_main L (f_kind entry) spec of (status, out) \<Rightarrow>
        if status = 0 then Inr out
        else raise (Conf ConformanceError) (''py_emit failed for '' @ f_id entry @ '': exit '' @ int_str status))"

text \<open>One fixture: what it is emitted as, and where it goes.\<close>

definition emit_entry ::
  "lib \<Rightarrow> path \<Rightarrow> (string \<times> bytes) list \<Rightarrow> obj \<Rightarrow> (string \<times> bytes) list \<Rightarrow> FixtureEntry \<Rightarrow> (fs, bytes) st"
where
  "emit_entry L fixtures seeds keys written entry =
     sbind (resolve_spec fixtures entry seeds keys written) (\<lambda>spec. sres (run_py_emit L entry spec))"

definition drift_line :: "FixtureEntry \<Rightarrow> path \<Rightarrow> bytes \<Rightarrow> bytes \<Rightarrow> string" where
  "drift_line entry p current emitted =
     f_id entry @ '': '' @ path_str p @ '' has drifted (committed '' @ nat_str (length current)
       @ '' bytes, regenerated '' @ nat_str (length emitted) @ '' bytes)''"

fun check_loop ::
  "lib \<Rightarrow> path \<Rightarrow> (string \<times> bytes) list \<Rightarrow> obj \<Rightarrow> FixtureEntry list \<Rightarrow> (string \<times> bytes) list \<Rightarrow> string list
     \<Rightarrow> (fs, string list) st"
where
  "check_loop L fixtures seeds keys [] written drifted = sret drifted"
| "check_loop L fixtures seeds keys (entry # es) written drifted =
     sbind (emit_entry L fixtures seeds keys written entry) (\<lambda>emitted.
       (let out_path = path_join fixtures (f_out entry) in
        sbind (sget (\<lambda>s. is_file s out_path)) (\<lambda>there.
          if \<not> there
          then check_loop L fixtures seeds keys es written
                 (drifted @ [f_id entry @ '': committed fixture '' @ path_str out_path @ '' missing''])
          else
            sbind (read_file out_path) (\<lambda>current.
              check_loop L fixtures seeds keys es (dict_set (f_out entry) emitted written)
                (if current \<noteq> emitted then drifted @ [drift_line entry out_path current emitted] else drifted)))))"

definition relative_to :: "path \<Rightarrow> path \<Rightarrow> path res" where
  "relative_to p base =
     (if prefix base p then Inr (drop (length base) p)
      else raise (Builtin ValueError) (repr (path_str p) @ '' is not in the subpath of '' @ repr (path_str base)))"

fun write_loop ::
  "lib \<Rightarrow> path \<Rightarrow> path \<Rightarrow> (string \<times> bytes) list \<Rightarrow> obj \<Rightarrow> FixtureEntry list \<Rightarrow> (string \<times> bytes) list \<Rightarrow> path list
     \<Rightarrow> (fs, path list) st"
where
  "write_loop L repo fixtures seeds keys [] written done_paths = sret done_paths"
| "write_loop L repo fixtures seeds keys (entry # es) written done_paths =
     sbind (emit_entry L fixtures seeds keys written entry) (\<lambda>emitted.
       (let out_path = path_join fixtures (f_out entry) in
        sbind (mkdir_parents (path_parent out_path)) (\<lambda>_.
        sbind (write_file out_path emitted) (\<lambda>_.
        sbind (sres (relative_to out_path repo)) (\<lambda>rel.
        write_loop L repo fixtures seeds keys es (dict_set (f_out entry) emitted written) (done_paths @ [rel]))))))"

definition cmd_regen :: "lib \<Rightarrow> toml \<Rightarrow> path \<Rightarrow> bool \<Rightarrow> string list option \<Rightarrow> (fs, int) st" where
  "cmd_regen L tomllib repo check_only only =
     (let fixtures = repo @ [''fixtures''] in
      sbind (load_seeds L tomllib (fixtures @ [''seeds.toml''])) (\<lambda>seeds.
      sbind (load_manifest L tomllib (fixtures @ [''_regen'', ''manifest.toml''])) (\<lambda>manifest.
      (let targets = select_entries manifest only in
       if targets = [] then sraise (Conf ConformanceError) (''no fixtures matched --only ''
           @ repr_json (case only of None \<Rightarrow> JNull | Some l \<Rightarrow> JList (map JStr l)))
       else
         sbind (sres (encoded_keys L seeds)) (\<lambda>keys.
           if check_only then
             sbind (check_loop L fixtures seeds keys targets [] []) (\<lambda>drifted.
               if drifted \<noteq> []
               then sraise (Conf ConformanceError) (nat_str (length drifted) @ '' fixture(s) drifted; run without --check to update'')
               else sret 0)
           else sbind (write_loop L repo fixtures seeds keys targets [] []) (\<lambda>_. sret 0))))))"

text \<open>\<open>main\<close> of \<open>regen\<close>: the exit status. Other exceptions leave it.\<close>

definition regen_main :: "lib \<Rightarrow> toml \<Rightarrow> path \<Rightarrow> bool \<Rightarrow> string list option \<Rightarrow> (fs, int) st" where
  "regen_main L tomllib repo check_only only =
     sthen (cmd_regen L tomllib repo check_only only) (\<lambda>r.
       (case r of
          Inl e \<Rightarrow> (if is_a e (Conf ConformanceError) then sret 1 else sres (Inl e))
        | Inr status \<Rightarrow> sret status))"

section \<open>A regenerated tree is up to date\<close>

text \<open>The credentials an entry refers to, and the condition that they are declared before it or not regenerated at all.\<close>

fun text_refs :: "json list \<Rightarrow> string list" where
  "text_refs [] = []"
| "text_refs (JStr r # rs) = r # text_refs rs"
| "text_refs (_ # rs) = text_refs rs"

definition cred_names :: "FixtureEntry \<Rightarrow> string list" where
  "cred_names e =
     (case dict_get (f_spec e) ''creds'' of
        None \<Rightarrow> []
      | Some refs \<Rightarrow> (case iter_json refs of Inr rs \<Rightarrow> text_refs rs | Inl _ \<Rightarrow> []))"

abbreviation out_paths :: "path \<Rightarrow> FixtureEntry list \<Rightarrow> path list" where
  "out_paths fixtures es \<equiv> map (\<lambda>e. path_join fixtures (f_out e)) es"

fun declared_before :: "path \<Rightarrow> FixtureEntry list \<Rightarrow> string list \<Rightarrow> bool" where
  "declared_before fixtures [] outs = True"
| "declared_before fixtures (e # es) outs =
     (list_all (\<lambda>r. r \<in> set outs \<or> path_join fixtures r \<notin> set (out_paths fixtures (e # es))) (cred_names e)
      \<and> declared_before fixtures es (f_out e # outs))"

lemma mkdirs_below_files: "mkdirs_below p xs s = (r, s') \<Longrightarrow> files s' = files s"
proof (induction xs arbitrary: p s)
  case (Cons x xs)
  obtain r1 s1 where m: "mkdir1 (p @ [x]) s = (r1, s1)" by force
  with Cons mkdir1_frame [OF m] show ?case
    by (cases r1) (auto simp: sbind_def sthen_def sres_def)
qed (simp add: sret_def)

lemma seed_ref_creds: "seed_ref seeds k k' spec = Inr spec' \<Longrightarrow> k \<noteq> ''creds'' \<Longrightarrow> k' \<noteq> ''creds'' \<Longrightarrow>
    dict_get spec' ''creds'' = dict_get spec ''creds''"
  by (auto simp: seed_ref_def delete_conv' raise_def split: option.splits json.splits)

text \<open>Two file systems in which a list of references reads the same.\<close>

definition reads_same :: "path \<Rightarrow> (string \<times> bytes) list \<Rightarrow> fs \<Rightarrow> fs \<Rightarrow> string list \<Rightarrow> bool" where
  "reads_same fixtures written s s' rs =
     (\<forall>r\<in>set rs. dict_get written r \<noteq> None
        \<or> dict_get (files s) (path_join fixtures r) = dict_get (files s') (path_join fixtures r))"

lemma cred_ref_same:
  assumes "reads_same fixtures written s s' (text_refs [r])"
  shows "cred_ref fixtures written r s' = (fst (cred_ref fixtures written r s), s')"
  using assms
  by (cases r) (auto simp: cred_ref_def reads_same_def sbind_def sthen_def sres_def sret_def sget_def sraise_def
      read_file_def is_file_def split: option.splits sum.splits)

lemma cred_refs_same:
  assumes "reads_same fixtures written s s' (text_refs rs)"
  shows "cred_refs fixtures written rs s' = (fst (cred_refs fixtures written rs s), s')"
  using assms
proof (induction rs)
  case (Cons r rs)
  have parts: "reads_same fixtures written s s' (text_refs [r])" "reads_same fixtures written s s' (text_refs rs)"
    using Cons.prems by (cases r; simp add: reads_same_def)+
  have self: "cred_ref fixtures written r s = (fst (cred_ref fixtures written r s), s)"
    by (rule cred_ref_same) (simp add: reads_same_def)
  show ?case
    using cred_ref_same [OF parts(1)] self Cons.IH [OF parts(2)]
    by (cases "fst (cred_ref fixtures written r s)") (auto simp: sbind_def sthen_def sres_def sret_def split: sum.splits prod.splits)
qed (simp add: sret_def)

lemma seed_refs_creds:
  "seed_refs seeds ks spec = Inr spec' \<Longrightarrow> ''creds'' \<notin> set ks \<Longrightarrow> ''creds'' \<notin> (\<lambda>k. k @ ''_hex'') ` set ks \<Longrightarrow>
    dict_get spec' ''creds'' = dict_get spec ''creds''"
proof (induction ks arbitrary: spec)
  case (Cons k ks)
  from Cons.prems(1) obtain spec1 where s1: "seed_ref seeds k (k @ ''_hex'') spec = Inr spec1" "seed_refs seeds ks spec1 = Inr spec'"
    by (auto simp: bind_Inr_iff)
  have "k \<noteq> ''creds''" "k @ ''_hex'' \<noteq> ''creds''" using Cons.prems(2,3) by auto
  with Cons.IH [OF s1(2)] Cons.prems(2,3) seed_ref_creds [OF s1(1)] show ?case by simp
qed simp

lemma emit_entry_same:
  assumes "reads_same fixtures written s s' (cred_names e)"
  shows "emit_entry L fixtures seeds keys written e s' = (fst (emit_entry L fixtures seeds keys written e s), s')"
proof -
  let ?k = "[''issuer_seed'', ''subject_seed'', ''provider_seed'', ''sender_seed'']"
  have creds: "dict_get spec1 ''creds'' = dict_get (f_spec e) ''creds''"
    if "seed_ref seeds ''seed'' ''seed_hex'' (f_spec e) = Inr spec0" "seed_refs seeds ?k spec0 = Inr spec1" for spec0 spec1
  proof -
    have "dict_get spec1 ''creds'' = dict_get spec0 ''creds''" by (rule seed_refs_creds [OF that(2)]) auto
    with seed_ref_creds [OF that(1)] show ?thesis by simp
  qed
  have refs: "cred_refs fixtures written rs s' = (fst (cred_refs fixtures written rs s), s')"
      "cred_refs fixtures written rs s = (fst (cred_refs fixtures written rs s), s)"
    if "dict_get (f_spec e) ''creds'' = Some v" "iter_json v = Inr rs" for v rs
  proof -
    show "cred_refs fixtures written rs s' = (fst (cred_refs fixtures written rs s), s')"
      by (rule cred_refs_same) (use assms that in \<open>simp add: cred_names_def\<close>)
    show "cred_refs fixtures written rs s = (fst (cred_refs fixtures written rs s), s)"
      by (rule cred_refs_same) (simp add: reads_same_def)
  qed
  show ?thesis
    unfolding emit_entry_def resolve_spec_def
    by (auto simp: sbind_def sthen_def sres_def sret_def creds split: sum.splits prod.splits option.splits dest: refs)
qed

text \<open>One round of the writing loop, and what it leaves alone.\<close>

lemma write_loop_step:
  assumes "write_loop L repo fixtures seeds keys (e # es) written ps s = (Inr ps', s')"
  obtains emitted s1 rel where
    "fst (emit_entry L fixtures seeds keys written e s) = Inr emitted"
    "dict_get (files s1) (path_join fixtures (f_out e)) = Some emitted"
    "\<And>p. p \<noteq> path_join fixtures (f_out e) \<Longrightarrow> dict_get (files s1) p = dict_get (files s) p"
    "write_loop L repo fixtures seeds keys es (dict_set (f_out e) emitted written) (ps @ [rel]) s1 = (Inr ps', s')"
proof -
  let ?p = "path_join fixtures (f_out e)"
  have self: "emit_entry L fixtures seeds keys written e s = (fst (emit_entry L fixtures seeds keys written e s), s)"
    by (rule emit_entry_same) (simp add: reads_same_def)
  with assms obtain emitted where em: "fst (emit_entry L fixtures seeds keys written e s) = Inr emitted"
    by (cases "fst (emit_entry L fixtures seeds keys written e s)") (auto simp: sbind_def sthen_def sres_def)
  obtain r0 s0 where m: "mkdir_parents (butlast ?p) s = (r0, s0)" by force
  obtain r1 s1 where w: "write_file ?p emitted s0 = (r1, s1)" by force
  have rest: "r0 = Inr ()" "r1 = Inr ()"
    using assms self em m w by (auto simp: sbind_def sthen_def sres_def Let_def split: sum.splits)
  with assms self em m w obtain rel where l: "relative_to ?p repo = Inr rel"
    "write_loop L repo fixtures seeds keys es (dict_set (f_out e) emitted written) (ps @ [rel]) s1 = (Inr ps', s')"
    by (auto simp: sbind_def sthen_def sres_def Let_def split: sum.splits)
  have "files s0 = files s" using m by (simp add: mkdir_parents_def mkdirs_below_files)
  with write_frame [OF w] rest(2) em l(2) show thesis by (intro that) auto
qed

lemma write_loop_frame:
  "write_loop L repo fixtures seeds keys es written ps s = (Inr ps', s') \<Longrightarrow> p \<notin> set (out_paths fixtures es) \<Longrightarrow>
    dict_get (files s') p = dict_get (files s) p"
proof (induction es arbitrary: written ps s)
  case (Cons e es)
  from Cons.prems(1) obtain emitted s1 rel where
    "\<And>p. p \<noteq> path_join fixtures (f_out e) \<Longrightarrow> dict_get (files s1) p = dict_get (files s) p"
    "write_loop L repo fixtures seeds keys es (dict_set (f_out e) emitted written) (ps @ [rel]) s1 = (Inr ps', s')"
    by (rule write_loop_step) blast
  with Cons.IH Cons.prems(2) show ?case by simp
qed (simp add: sret_def)

lemma write_then_check:
  assumes "write_loop L repo fixtures seeds keys es written ps s = (Inr ps', s')"
    and "distinct (out_paths fixtures es)" "declared_before fixtures es outs" "set outs \<subseteq> set (map fst written)"
  shows "check_loop L fixtures seeds keys es written [] s' = (Inr [], s')"
  using assms
proof (induction es arbitrary: written ps s outs)
  case (Cons e es)
  let ?p = "path_join fixtures (f_out e)"
  from Cons.prems(1) obtain emitted s1 rel where em: "fst (emit_entry L fixtures seeds keys written e s) = Inr emitted"
    and s1: "dict_get (files s1) ?p = Some emitted" "\<And>p. p \<noteq> ?p \<Longrightarrow> dict_get (files s1) p = dict_get (files s) p"
    and l: "write_loop L repo fixtures seeds keys es (dict_set (f_out e) emitted written) (ps @ [rel]) s1 = (Inr ps', s')"
    by (rule write_loop_step) blast
  have out: "dict_get (files s') ?p = Some emitted"
    using write_loop_frame [OF l, of ?p] Cons.prems(2) s1(1) by simp
  have "reads_same fixtures written s s' (cred_names e)"
    unfolding reads_same_def
  proof
    fix r assume "r \<in> set (cred_names e)"
    then have "r \<in> set outs \<or> path_join fixtures r \<notin> set (out_paths fixtures (e # es))"
      using Cons.prems(3) by (simp add: list_all_iff)
    then show "dict_get written r \<noteq> None \<or> dict_get (files s) (path_join fixtures r) = dict_get (files s') (path_join fixtures r)"
      using Cons.prems(4) write_loop_frame [OF Cons.prems(1), of "path_join fixtures r"]
      by (auto simp: map_of_eq_None_iff)
  qed
  then have em': "emit_entry L fixtures seeds keys written e s' = (Inr emitted, s')"
    using emit_entry_same em by metis
  have "check_loop L fixtures seeds keys es (dict_set (f_out e) emitted written) [] s' = (Inr [], s')"
  proof (rule Cons.IH [OF l])
    show "set (f_out e # outs) \<subseteq> set (map fst (dict_set (f_out e) emitted written))"
      using Cons.prems(4) by (simp add: dom_update) blast
  qed (use Cons.prems(2,3) in simp_all)
  with em' out show ?case by (simp add: sbind_def sthen_def sget_def is_file_def read_file_def Let_def)
qed (simp add: sret_def)

lemma load_state: "load_seeds L tomllib p s = (fst (load_seeds L tomllib p s), s)" "load_manifest L tomllib p s = (fst (load_manifest L tomllib p s), s)"
  by (auto simp: load_seeds_def load_manifest_def read_toml_def read_file_def sbind_def sthen_def sres_def sget_def
      split: sum.splits)

lemma load_same:
  assumes "dict_get (files s) p = dict_get (files s') p"
  shows "fst (load_seeds L tomllib p s) = fst (load_seeds L tomllib p s')"
    "fst (load_manifest L tomllib p s) = fst (load_manifest L tomllib p s')"
  using assms
  by (auto simp: load_seeds_def load_manifest_def read_toml_def read_file_def is_file_def sbind_def sthen_def sres_def sget_def
      split: sum.splits)

text \<open>
  C21: a regenerated tree is up to date: after \<open>regen\<close> has written its fixtures, \<open>regen --check\<close> with the same
  selection finds every one of them byte for byte and changes nothing. What it needs is in the manifest: the fixtures
  go to different files, none of them over the seeds or the manifest, and a credential that is regenerated is declared before the
  fixtures that refer to it, as the comment in the manifest demands.
\<close>

theorem regen_then_check:
  assumes "cmd_regen L tomllib repo False only s = (Inr status, s')"
    and "load_manifest L tomllib (repo @ [''fixtures'', ''_regen'', ''manifest.toml'']) s = (Inr manifest, s)"
    and "distinct (out_paths (repo @ [''fixtures'']) (select_entries manifest only))"
    and "declared_before (repo @ [''fixtures'']) (select_entries manifest only) []"
    and "repo @ [''fixtures'', ''seeds.toml''] \<notin> set (out_paths (repo @ [''fixtures'']) (select_entries manifest only))"
      "repo @ [''fixtures'', ''_regen'', ''manifest.toml''] \<notin> set (out_paths (repo @ [''fixtures'']) (select_entries manifest only))"
  shows "cmd_regen L tomllib repo True only s' = (Inr 0, s')"
proof -
  let ?fx = "repo @ [''fixtures'']" and ?es = "select_entries manifest only"
  let ?ps = "repo @ [''fixtures'', ''seeds.toml'']" and ?pm = "repo @ [''fixtures'', ''_regen'', ''manifest.toml'']"
  note st = load_state(1) [of L tomllib ?ps] load_state(2) [of L tomllib ?pm]
  note unfold = cmd_regen_def sbind_def sthen_def sres_def sret_def sraise_def Let_def
  from assms(1) obtain seeds where seeds: "fst (load_seeds L tomllib ?ps s) = Inr seeds"
    by (cases "fst (load_seeds L tomllib ?ps s)") (use st(1) [of s] in \<open>auto simp: unfold split: prod.splits\<close>)
  with assms(1,2) st(1) [of s] obtain keys ps where run: "?es \<noteq> []" "encoded_keys L seeds = Inr keys"
      "write_loop L repo ?fx seeds keys ?es [] [] s = (Inr ps, s')"
    by (auto simp: unfold raise_def split: if_splits sum.splits prod.splits)
  have loaded: "load_seeds L tomllib ?ps s' = (Inr seeds, s')" "load_manifest L tomllib ?pm s' = (Inr manifest, s')"
    using st [of s'] seeds assms(2) load_same [of s ?ps s' L tomllib] load_same [of s ?pm s' L tomllib]
      write_loop_frame [OF run(3) assms(5)] write_loop_frame [OF run(3) assms(6)] by (metis fst_conv)+
  have "check_loop L ?fx seeds keys ?es [] [] s' = (Inr [], s')"
    by (rule write_then_check [OF run(3) assms(3,4)]) simp
  with loaded run(1,2) show ?thesis by (simp add: unfold)
qed

definition ex_toml :: toml where
  "ex_toml txt =
     (if txt = ''S'' then Inr [(''schema_version'', JInt 2), (''seeds'', JObj [])]
      else Inr [(''schema_version'', JInt 2),
        (''fixtures'', JList [JObj [(''id'', JStr ''st''), (''kind'', JStr ''status_bitstring''), (''out'', JStr ''st/a.txt''),
           (''spec'', JObj [(''size_bits'', JInt 8), (''revoked_idx'', JList [JInt 3])])]])])"

definition ex_regen_lib :: lib where
  "ex_regen_lib = toy_lib\<lparr>decode_utf8 := (\<lambda>b. Inr (map char_of_byte b)), gzip_compress := (\<lambda>b. b)\<rparr>"

definition ex_tree :: fs where
  "ex_tree =
     \<lparr>files = [([''fixtures'', ''seeds.toml''], [83]), ([''fixtures'', ''_regen'', ''manifest.toml''], [77])],
      dirs = [[], [''fixtures''], [''fixtures'', ''_regen'']], denied = []\<rparr>"

definition ex_entry :: FixtureEntry where
  "ex_entry = \<lparr>f_id = ''st'', f_kind = ''status_bitstring'', f_out = ''st/a.txt'',
     f_spec = [(''size_bits'', JInt 8), (''revoked_idx'', JList [JInt 3])]\<rparr>"

definition ex_tree' :: fs where
  "ex_tree' = ex_tree\<lparr>files := files ex_tree @ [([''fixtures'', ''st'', ''a.txt''], map byte_of_char (b64u [16]) @ [10])],
     dirs := dirs ex_tree @ [[''fixtures'', ''st'']]\<rparr>"

lemma ex_regen:
  "cmd_regen ex_regen_lib ex_toml [] False None ex_tree = (Inr 0, ex_tree')"
  by code_simp

lemma ex_manifest:
  "load_manifest ex_regen_lib ex_toml [''fixtures'', ''_regen'', ''manifest.toml''] ex_tree = (Inr [ex_entry], ex_tree)"
  by code_simp

theorem regen_then_check_witness:
  "cmd_regen ex_regen_lib ex_toml [] False None ex_tree = (Inr 0, ex_tree')
   \<and> cmd_regen ex_regen_lib ex_toml [] True None ex_tree' = (Inr 0, ex_tree')"
proof -
  have "cmd_regen ex_regen_lib ex_toml [] True None ex_tree' = (Inr 0, ex_tree')"
  proof (rule regen_then_check [OF ex_regen, of "[ex_entry]"])
    show "declared_before ([] @ [''fixtures'']) (select_entries [ex_entry] None) []"
      by (simp add: select_entries_def cred_names_def ex_entry_def)
  qed (simp_all add: ex_manifest select_entries_def ex_entry_def path_join_def path_of_def)
  with ex_regen show ?thesis by blast
qed

end
