(* ===== verification/Spec2Isabelle.thy ===== *)
theory Spec2Isabelle
  imports Receiver_Async A2a_Retries Csr Paywall Addressing Claude_Proxy Hermes_Hooks Hermes_Cli Conformance_Config Conformance_Regen
begin

text \<open>
  \<^bold>\<open>A verification development for Shadownet.\<close>

  Shadownet lets the software agents of different people write to each other. A subject is named by a
  Shadowname (\<open>alice@provider.example\<close>) or by an Ed25519 public key; messages travel over the A2A binding
  as HTTP requests that carry a signed envelope; credentials, a trust store and a contact list
  decide what a receiver does with a message; the x402 package charges for answers; plug-ins
  connect host agents (Claude Code, Hermes) to a subject's inbox through MCP. The development models the Python
  packages under \<open>src/\<close> as executable HOL functions and proves what they promise.

  \<^bold>\<open>How the parts interact.\<close> A sender builds a message, hashes its canonical JSON, signs an envelope over the
  hash (\<open>envelope.py\<close>) and posts it, with retries (\<open>a2a.py\<close>). The receiver (\<open>receiver.py\<close>) takes the request apart,
  resolves the sender's key through DNS and the signed AgentCard (\<open>provider.py\<close>, \<open>agentcard.py\<close>) or reads it from
  the address, verifies envelope and hash, consults the replay cache, verifies the presented credentials against
  issuer keys, trust policy and revocation lists (\<open>credential.py\<close>, \<open>trust.py\<close>, \<open>status.py\<close>), and classifies the message
  as inbox, stranger review or rejection. Direct-mode connections pin the peer's TLS key on first use (\<open>tls.py\<close>). A
  paid request runs through \<open>shadownet_x402\<close>: challenge, proof of possession, identity gate, budget, settlement. A new
  device joins by a connect URI whose handoff code it redeems for a token (\<open>onboarding.py\<close>); plug-ins then
  read the inbox through the MCP tools (\<open>mcp/\<close>). The conformance suite (\<open>conformance/\<close>) emits signed fixtures with the SDK, checks that they have not
  drifted, and reports which requirements of the RFCs a run covered.

  \<^bold>\<open>Theories.\<close>
  \<^item> \<open>Py_Prelude\<close>: exceptions as values of \<open>exn\<close> with Python's class hierarchy (\<open>base_of\<close>, \<open>is_a\<close>), results \<open>exn + 'a\<close>, \<open>try\<close>/\<open>except\<close> as
    \<open>rewrap\<close>, JSON values, dictionaries as insertion-ordered association lists, the \<open>str\<close> methods in use. \<open>Py_Codec\<close>: bytes, ASCII and UTF-8,
    big-endian integers and base64url with its round trip. \<open>Externals\<close>: the record \<open>lib\<close> of library functions the SDK calls, HTTP
    responses, and pydantic's field validation. \<open>Effects\<close>: stateful code as \<open>'s \<Rightarrow> 'a res \<times> 's\<close>, \<open>async\<close> code as
    \<open>task\<close> trees with suspension points, their interleaving with other tasks, and the locale \<open>rely\<close> that turns what each atomic
    step keeps into what every interleaving keeps.
  \<^item> \<open>Multibase\<close> (\<open>crypto/multibase.py\<close>), \<open>Identifiers\<close> (\<open>identifiers.py\<close>), \<open>Jcs\<close> (\<open>jcs.py\<close>), \<open>Keys\<close> (\<open>crypto/ed25519.py\<close>, \<open>crypto/jwt.py\<close>): round trips of the
    encodings, canonical forms are fixed points, canonical JSON is injective up to the order of members, public keys come back
    from their JWKs.
  \<^item> \<open>Provider\<close> (\<open>provider.py\<close>), \<open>Credential\<close> (\<open>credential.py\<close>), \<open>Status\<close> (\<open>status.py\<close>), \<open>Trust\<close> (\<open>trust.py\<close>), \<open>Csr\<close> (\<open>csr.py\<close>), \<open>Envelope\<close> (\<open>envelope.py\<close>), \<open>Agentcard\<close>
    (\<open>agentcard.py\<close>): each verifier accepts exactly what its specification lists, and what is minted verifies; async siblings agree with their
    synchronous versions when run alone; the message hash binds an envelope to its message.
  \<^item> \<open>A2a\<close>, \<open>A2a_Retries\<close> (\<open>a2a.py\<close>): wire errors survive the trip through a problem document; a built message is taken apart again by the
    receiver; the retry loop ends, stays within its budget, never retries an answer of the peer; the async loop is the same loop.
  \<^item> \<open>Stores\<close>, \<open>Receiver\<close>, \<open>Receiver_Async\<close> (\<open>receiver.py\<close>): the store protocols are the locales \<open>replay_store\<close>, \<open>contact_store\<close> and \<open>credential_store\<close>, the pipeline over them
    the locale \<open>receiver\<close>, all interpreted on the in-memory stores. No envelope is accepted twice, what is accepted is authentic and
    current, an honest contact's message arrives, classification is what the policy says; the replay cache refines the
    history of remembered messages; the async pipeline agrees with the synchronous one, and how two interleaved requests can both be accepted.
  \<^item> \<open>Tls\<close> (\<open>tls.py\<close>): trust on first use for any interleaving of connections, with the locale \<open>pin_store\<close>.
  \<^item> \<open>X402_Stores\<close>, \<open>X402_Gate\<close>, \<open>Paywall\<close> (\<open>shadownet_x402\<close>): locales \<open>nonce_store\<close>, \<open>budget_store\<close> and \<open>paywall\<close>. Settled payments are authorized by an admitted identity,
    a nonce settles at most once, the budget is a ledger of the settlements and never exceeds its cap, and the client's handshake reaches settlement.
  \<^item> \<open>Uri\<close> (the part of \<open>urllib.parse\<close> in use), \<open>Addressing\<close> (\<open>addressing.py\<close>), \<open>Onboarding\<close> (\<open>onboarding.py\<close>), \<open>Mcp\<close> (\<open>mcp/\<close>): parsed addresses are well-formed, direct
    addresses come back from their URIs, which connect URIs are accepted, token calls raise only \<open>HandoffError\<close> and \<open>RefreshError\<close> and close the clients
    they opened, the MCP client returns only validated results.
  \<^item> \<open>Plugin_Base\<close>, \<open>Claude_Monitor\<close>, \<open>Claude_Proxy\<close> (\<open>integrations/plugins/claude-code\<close>) and \<open>Hermes_Text\<close>, \<open>Hermes_Adapter\<close>, \<open>Hermes_Setup\<close>, \<open>Hermes_Hooks\<close>
    (\<open>integrations/plugins/hermes-agent\<close>): the monitor prints the new messages of its polls, each event in order; a handoff code
    is redeemed once; the cooldowns of sending and notifying hold for every interleaving (locale \<open>cooldown_fields\<close>, interpreted on both); the
    inbox loop survives every failing poll; logging out removes token and server entry; registration ends with exactly the arguments that the host knows.
  \<^item> \<open>Py_Fs\<close>: files and directories as \<open>pathlib\<close> and \<open>shutil\<close> show them. \<open>Hermes_Skills\<close> (\<open>_skills.py\<close>), \<open>Hermes_Cli\<close> (\<open>_cli.py\<close>, \<open>_commands.py\<close>, \<open>__init__.py\<close> of the
    Hermes plug-in): copying skills stays inside the plug-in's own directory and leaves no orphan there; after \<open>sync\<close> the self-check \<open>doctor\<close> succeeds; every slash
    command answers; the plug-in loads whatever the optional parts of the host do.
  \<^item> \<open>Avm\<close> (\<open>shadownet_x402/avm.py\<close>), \<open>Shadowpay\<close> (\<open>_shadowpay.py\<close> and \<open>_avm.py\<close> of the Hermes plug-in): the wallet signs the requested transactions only; a demonstration settles at
    most once, to the agreed address; the atomic amount is the decimal amount rounded down.
  \<^item> \<open>Conformance_Emit\<close>, \<open>Conformance_Regen\<close> (\<open>regen/\<close>), \<open>Conformance_Report\<close> (\<open>reporters/\<close>), \<open>Conformance_Config\<close> (\<open>config.py\<close>, \<open>cli.py\<close>): a regeneration that succeeds is followed by a check that
    succeeds; conformance tests that ran are in the report with their verdict; the report paths of the command line reach the pytest plug-in.
  \<^item> This theory: the properties that span the sender and the receiver.

  \<^bold>\<open>Parameters and what is assumed of them.\<close> Code outside \<open>src/\<close> is an argument of the definitions: \<open>cryptography\<close>, PyJWT, hashlib and
  gzip (the record \<open>lib\<close>), DNS, httpx, the MCP session, the keyring, PyYAML, tomllib, algosdk, the x402 SDK, pytest with its arguments, the host of the Hermes plug-in and the clocks. The theorems name what they
  rely on: PyJWT signs and decodes what it was given (\<open>jwt_encodes\<close>, \<open>decode_sound\<close>, \<open>decode_complete\<close>); the wall clock does
  not run backwards and drawn tokens are distinct (\<open>world_ok\<close>, \<open>process_valid\<close>); HTTP clients raise only \<open>HTTPError\<close> and
  deliver what was sent (\<open>http_ok\<close>, \<open>faithful_delivery\<close>, \<open>carries\<close>); the async clients answer as the synchronous ones (\<open>async_matches\<close>, \<open>same_answers\<close>); a
  keyring returns what was stored (\<open>keyring_ok\<close>); YAML loads what it dumped (\<open>yaml_ok\<close>). Each such hypothesis has a witness with
  a concrete function in its place. No property is assumed of the cryptography: \<open>signed_by\<close> means that \<open>ed_verify\<close> answered yes.

  \<^bold>\<open>Bounds and fuel.\<close> Python's integers are \<open>int\<close>; times are \<open>int\<close> seconds or \<open>rat\<close> where the source has floats, so rounding of floating point is
  left out. Strings of the wire formats are \<open>string\<close> (code points below 256; other text is outside these models), and \<open>Jcs\<close>, \<open>Uri\<close>, \<open>Onboarding\<close>, \<open>Mcp\<close> and the plug-ins use \<open>ustr\<close>, lists of
  code points with surrogates, where the source treats other characters specially. The conversion limit of 4300 digits of CPython's \<open>int\<close> is left out.
  \<open>retry_loop\<close> is a \<open>partial_function (option)\<close>, so that not returning is \<open>None\<close>, and is proved to return; \<open>aretry_loop\<close> has fuel,
  and \<open>A2a_Retries\<close> proves that enough fuel gives the synchronous outcome. The monitor's and the adapter's endless loops are unfolded
  for \<open>n\<close> rounds and their theorems hold for every \<open>n\<close>. The adapter carries two history variables, \<open>h_sent\<close> and \<open>h_notified\<close>, that no
  code reads. \<open>urllib.parse\<close> is modelled as in CPython 3.12.

  \<^bold>\<open>Not modelled.\<close> The demos (\<open>demo.py\<close>, \<open>demo_telegram.py\<close>, \<open>birthday_credential.py\<close>), which only call the packages above and print; the repository
  script \<open>sync_skills.py\<close>; the OpenClaw mock, a test double; the pytest fixtures and marker registration of the conformance suite; argparse
  trees; the services under \<open>core/\<close>, which are written in Go. Links, modes and times of files are left out of \<open>Py_Fs\<close>, and the fixture emitter is called where
  the source starts a subprocess. Log messages have no effect that the model could observe.
\<close>

section \<open>From the receiver's verdict to the sender's outcome\<close>

text \<open>
  The sender's loop and the receiver's pipeline meet at an HTTP endpoint, which belongs to the
  application that embeds the SDK. It hands the request body to \<open>receive\<close> and answers with what the SDK
  builds for the outcome: \<open>build_acceptance_response\<close> for a decision, \<open>problem_response\<close> for a wire error.
\<close>

definition carries :: "int \<times> obj \<times> headers \<Rightarrow> http_response \<Rightarrow> bool" where
  "carries answer r =
     (case answer of (status, body, hdrs) \<Rightarrow>
        status_code r = status \<and> resp_json r = Inr (JObj body) \<and> resp_header r ''Content-Type'' = map_of hdrs ''Content-Type'')"

definition serves :: "lib \<Rightarrow> 's ReceiverPipeline \<Rightarrow> 's \<Rightarrow> http_post \<Rightarrow> bool" where
  "serves L P s serving =
     (\<forall>url body h.
        (case fst (receive L P body s) of
           Inr d \<Rightarrow> \<exists>fresh ctx reply mid r. serving url body h = Inr r
              \<and> carries (200, build_acceptance_response fresh ctx reply mid, acceptance_headers) r
         | Inl e \<Rightarrow> \<forall>c. cls e = Wire c \<longrightarrow> (\<exists>r. serving url body h = Inr r \<and> carries (problem_response c (str_of e) None False) r)))"

lemma acceptance_read:
  assumes "carries (200, build_acceptance_response fresh ctx reply mid, acceptance_headers) r"
  shows "\<exists>m. interpret_response L r url = Inr m \<and> role m = ''ROLE_AGENT'' \<and> context_id m = ctx"
  using assms
  by (cases ctx)
    (auto simp: carries_def interpret_response_def build_acceptance_response_def rewrap_def try_except_def
      A2AMessage_model_validate_def v_A2AMessage_def required_field_def optional_field_def matched_key_def
      opt_member_def validated_def v_optional_def)

lemma problem_answer_read:
  assumes "carries (problem_response c msg None False) r" "c \<noteq> ShadownetWireError"
  shows "\<exists>m. interpret_response L r url = Inl (Exn (Wire c) m)"
proof -
  have "http_status c \<noteq> 200" by (cases c) simp_all
  with assms show ?thesis
    by (auto simp: carries_def problem_response_def interpret_response_def rewrap_def try_except_def problem_read)
qed

lemma answered_once:
  assumes "builder E 0 = Inr built" "send_envelope_request built url = (u1, body, hdrs)"
    "posting E 0 u1 body hdrs = Inr r" "interpret_response L r u1 = out"
    "\<And>e. out = Inl e \<Longrightarrow> is_a e (Wire ShadownetWireError)"
  shows "send_with_retries L E url C = Some (out, 1, [])"
proof -
  have "send_envelope L (posting E 0) built url = out"
    using assms(2-4) by (simp add: send_envelope_def rewrap_def try_except_def)
  then show ?thesis
    unfolding send_with_retries_def using assms(1,5)
    by (subst retry_loop.simps) (auto split: sum.splits)
qed

text \<open>
  C11: one message, end to end: whatever the receiver decides about a message is what the sender's retry loop returns,
  after a single post. A message that the pipeline accepts gives the sender an acceptance; one that
  it rejects with a wire error raises that very class of error at the sender and is not sent again.
\<close>

theorem verdict_reaches_sender:
  assumes "serves L P s (posting E 0)" "builder E 0 = Inr built"
    and "receive L P (JObj [(''message'', JObj (message built))]) s = (verdict, s')"
  shows "(\<forall>d. verdict = Inr d \<longrightarrow>
            (\<exists>m. send_with_retries L E url C = Some (Inr m, 1, []) \<and> role m = ''ROLE_AGENT''))
    \<and> (\<forall>c m. verdict = Inl (Exn (Wire c) m) \<and> c \<noteq> ShadownetWireError \<longrightarrow>
            (\<exists>m'. send_with_retries L E url C = Some (Inl (Exn (Wire c) m'), 1, [])))"
proof -
  obtain u1 hdrs where req: "send_envelope_request built url = (u1, JObj [(''message'', JObj (message built))], hdrs)"
    by (simp add: send_envelope_request_def)
  note served = assms(1) [unfolded serves_def, rule_format, of u1 "JObj [(''message'', JObj (message built))]" hdrs]
  note once = answered_once [OF assms(2) req]
  show ?thesis
  proof (intro conjI allI impI)
    fix d assume "verdict = Inr d"
    with served assms(3) obtain fresh ctx reply mid r where r: "posting E 0 u1 (JObj [(''message'', JObj (message built))]) hdrs = Inr r"
      "carries (200, build_acceptance_response fresh ctx reply mid, acceptance_headers) r" by auto
    from acceptance_read [OF r(2), of L u1] once [OF r(1)]
    show "\<exists>m. send_with_retries L E url C = Some (Inr m, 1, []) \<and> role m = ''ROLE_AGENT''" by fastforce
  next
    fix c m assume "verdict = Inl (Exn (Wire c) m) \<and> c \<noteq> ShadownetWireError"
    with served assms(3) obtain r where r: "posting E 0 u1 (JObj [(''message'', JObj (message built))]) hdrs = Inr r"
      "carries (problem_response c m None False) r" "c \<noteq> ShadownetWireError" by auto
    from problem_answer_read [OF r(2,3), of L u1] once [OF r(1)]
    show "\<exists>m'. send_with_retries L E url C = Some (Inl (Exn (Wire c) m'), 1, [])" by (cases c) (fastforce simp: is_a_eval)+
  qed
qed

definition ex_response :: "int \<times> obj \<times> headers \<Rightarrow> http_response" where
  "ex_response answer = (case answer of (status, doc, hdrs) \<Rightarrow>
     \<lparr>status_code = status, resp_text = '''', resp_content = [], resp_header = map_of hdrs, resp_json = Inr (JObj doc)\<rparr>)"

definition ex_serving :: "lib \<Rightarrow> 's ReceiverPipeline \<Rightarrow> 's \<Rightarrow> http_post" where
  "ex_serving L P s url body h =
     (case fst (receive L P body s) of
        Inr d \<Rightarrow> Inr (ex_response (200, build_acceptance_response ''R1'' None ''Received.'' None, acceptance_headers))
      | Inl e \<Rightarrow>
          (case cls e of
             Wire c \<Rightarrow> Inr (ex_response (problem_response c (str_of e) None False))
           | _ \<Rightarrow> raise (Lib HTTPError) ''connection reset''))"

lemma ex_serves: "serves L P s (ex_serving L P s)"
  unfolding serves_def
proof (intro allI)
  fix url body h
  have c: "carries answer (ex_response answer)" for answer
    by (simp add: carries_def ex_response_def split: prod.split)
  show "case fst (receive L P body s) of
      Inr d \<Rightarrow> \<exists>fresh ctx reply mid r. ex_serving L P s url body h = Inr r
         \<and> carries (200, build_acceptance_response fresh ctx reply mid, acceptance_headers) r
    | Inl e \<Rightarrow> \<forall>c. cls e = Wire c \<longrightarrow> (\<exists>r. ex_serving L P s url body h = Inr r
         \<and> carries (problem_response c (str_of e) None False) r)"
    by (cases "fst (receive L P body s)") (auto simp: ex_serving_def c intro!: exI intro: c)
qed

theorem verdict_reaches_sender_witness:
  "\<exists>built m E. builder E 0 = Inr built
     \<and> send_with_retries ex_rcv_lib E ''https://bob.example'' RETRY_DEFAULTS = Some (Inr m, 1, []) \<and> role m = ''ROLE_AGENT''"
proof -
  obtain built :: BuiltMessage and s' where r: "receive ex_rcv_lib ex_pipeline (JObj [(''message'', JObj (message built))]) ex_process =
      (Inr \<lparr>route = Inbox, d_sender = ex_key, d_envelope = ex_signed_env, auto_added_contact = False\<rparr>, s')"
    by (rule ex_delivered)
  let ?E = "ex_retry_env\<lparr>builder := (\<lambda>_. Inr built), posting := (\<lambda>_. ex_serving ex_rcv_lib ex_pipeline ex_process)\<rparr>"
  have s: "serves ex_rcv_lib ex_pipeline ex_process (posting ?E 0)" "builder ?E 0 = Inr built"
    using ex_serves [of ex_rcv_lib ex_pipeline ex_process] by simp_all
  show ?thesis using verdict_reaches_sender [OF s r] s(2) by blast
qed

end
